(* ===== verification/Prelude.thy ===== *)
theory Prelude
  imports Main "HOL-Library.Word" "HOL-Library.AList"
begin

text \<open>
  Shared vocabulary of the development: the types that every component uses (byte strings,
  document URIs, Go maps that are ranged over, Go sets), the operations of Go's standard
  library on strings and slices that the sources call, and generic lemmas about them.

  A Go \<^verbatim>\<open>string\<close> is a list of bytes, so it is HOL's \<open>string\<close>. A Go map that
  is only indexed is a partial function; a map that is also ranged over is an association
  list with distinct keys, whose order is the (unspecified) order of the range loop. A
  \<^verbatim>\<open>map[K]struct{}\<close> used as a set is the list of its keys. Statements about ranged maps
  are made about the set of keys or about lookups, so they hold for every order.
\<close>

named_theorems store_laws \<open>laws of keyed stores, for the interface locales\<close>
named_theorems str_simps \<open>equations of the string operations\<close>

type_synonym uri = string
type_synonym u32 = "32 word"
type_synonym u64 = "64 word"
type_synonym ('k, 'v) gomap = "('k \<times> 'v) list"
type_synonym 'k keyset = "'k list"

text \<open>Lookups in ranged maps stay lookups: no rewriting to membership of pairs.\<close>

declare map_of_eq_Some_iff [simp del]

section \<open>Key sets and maps of key sets\<close>

text \<open>Adding to and deleting from a \<^verbatim>\<open>map[K]struct{}\<close>.\<close>

definition ks_insert :: "'k \<Rightarrow> 'k keyset \<Rightarrow> 'k keyset" where
  "ks_insert x s = (if x \<in> set s then s else s @ [x])"

definition ks_delete :: "'k \<Rightarrow> 'k keyset \<Rightarrow> 'k keyset" where
  "ks_delete x s = filter (\<lambda>y. y \<noteq> x) s"

lemma set_ks_insert [simp]: "set (ks_insert x s) = insert x (set s)"
  by (auto simp: ks_insert_def)

lemma set_ks_delete [simp]: "set (ks_delete x s) = set s - {x}"
  by (auto simp: ks_delete_def)

lemma distinct_ks_insert [simp]: "distinct (ks_insert x s) \<longleftrightarrow> distinct s"
  by (auto simp: ks_insert_def)

lemma distinct_ks_delete [simp]: "distinct s \<Longrightarrow> distinct (ks_delete x s)"
  by (simp add: ks_delete_def)

lemma ks_insert_not_Nil [simp]: "ks_insert x s \<noteq> []"
  by (auto simp: ks_insert_def)

lemma ks_delete_eq_Nil: "ks_delete x s = [] \<longleftrightarrow> set s \<subseteq> {x}"
  by (auto simp: ks_delete_def filter_empty_conv)

text \<open>Indexing a map of sets and ranging over the result: a missing key gives no element.\<close>

definition keys_at :: "('k, 'a keyset) gomap \<Rightarrow> 'k \<Rightarrow> 'a keyset" where
  "keys_at m k = (case map_of m k of None \<Rightarrow> [] | Some s \<Rightarrow> s)"

lemma keys_at_update [simp]:
  "keys_at (AList.update k s m) k' = (if k' = k then s else keys_at m k')"
  by (simp add: keys_at_def update_conv')

lemma keys_at_delete [simp]:
  "keys_at (AList.delete k m) k' = (if k' = k then [] else keys_at m k')"
  by (simp add: keys_at_def delete_conv')

lemma keys_at_Nil [simp]: "keys_at [] k = []"
  by (simp add: keys_at_def)

text \<open>Keys of a distinct association list determine its entries.\<close>

lemma fst_notin_rest:
  "distinct (map fst xs) \<Longrightarrow> t \<in> set xs \<Longrightarrow> fst t \<notin> fst ` set (filter (\<lambda>x. x \<noteq> t) xs)"
  by (auto simp: distinct_map inj_on_def)

text \<open>All elements that occur in some set of the map.\<close>

definition all_members :: "('k, 'a keyset) gomap \<Rightarrow> 'a set" where
  "all_members m = (\<Union>(k, s) \<in> set m. set s)"

lemma finite_all_members [simp]: "finite (all_members m)"
  by (auto simp: all_members_def)

lemma keys_at_subset: "set (keys_at m k) \<subseteq> all_members m"
  by (cases "map_of m k") (auto simp: keys_at_def all_members_def dest: map_of_SomeD)

section \<open>Strings\<close>

text \<open>\<^verbatim>\<open>strings.HasPrefix\<close>, \<^verbatim>\<open>strings.HasSuffix\<close>, \<^verbatim>\<open>strings.Index\<close>.\<close>

definition has_prefix :: "string \<Rightarrow> string \<Rightarrow> bool" where
  "has_prefix s p \<longleftrightarrow> take (length p) s = p"

definition has_suffix :: "string \<Rightarrow> string \<Rightarrow> bool" where
  "has_suffix s p \<longleftrightarrow> length p \<le> length s \<and> drop (length s - length p) s = p"

fun str_index :: "string \<Rightarrow> string \<Rightarrow> nat option" where
  "str_index [] p = (if p = [] then Some 0 else None)"
| "str_index (c # s) p =
     (if has_prefix (c # s) p then Some 0 else map_option Suc (str_index s p))"

lemma has_prefix_iff: "has_prefix s p \<longleftrightarrow> (\<exists>r. s = p @ r)"
  unfolding has_prefix_def by (metis append_eq_conv_conj append_take_drop_id)

lemma has_suffix_iff: "has_suffix s p \<longleftrightarrow> (\<exists>r. s = r @ p)"
  unfolding has_suffix_def
  by (metis append_eq_conv_conj append_take_drop_id diff_le_self length_append
      length_drop le_add2 add_diff_cancel_right' diff_diff_cancel)

lemma str_index_Some:
  "str_index s p = Some i \<Longrightarrow> \<exists>a b. s = a @ p @ b \<and> length a = i"
proof (induction s arbitrary: i)
  case Nil
  then show ?case by (auto split: if_splits)
next
  case (Cons c s)
  show ?case
  proof (cases "has_prefix (c # s) p")
    case True
    with Cons.prems show ?thesis by (auto simp: has_prefix_iff intro!: exI [of _ "[]"])
  next
    case False
    with Cons.prems obtain j where "str_index s p = Some j" and i: "i = Suc j" by auto
    with Cons.IH obtain a b where "s = a @ p @ b" "length a = j" by blast
    with i show ?thesis by (intro exI [of _ "c # a"] exI [of _ b]) simp
  qed
qed

lemma str_index_None: "str_index s p = None \<Longrightarrow> s \<noteq> a @ p @ b"
proof (induction s arbitrary: a)
  case Nil
  then show ?case by (auto split: if_splits)
next
  case (Cons c s)
  then show ?case
    by (cases a) (auto simp: has_prefix_iff split: if_splits)
qed

text \<open>The least position: no occurrence of a one-character pattern lies before it.\<close>

lemma str_index_char_None: "str_index s [c] = None \<longleftrightarrow> c \<notin> set s"
  by (induction s) (auto simp: has_prefix_def)

lemma str_index_char_append:
  "c \<notin> set a \<Longrightarrow> str_index (a @ c # b) [c] = Some (length a)"
  by (induction a) (auto simp: has_prefix_def)

text \<open>\<^verbatim>\<open>strings.Split\<close> at a one-byte separator; it never returns the empty list.\<close>

fun split_on :: "char \<Rightarrow> string \<Rightarrow> string list" where
  "split_on c [] = [[]]"
| "split_on c (x # xs) =
     (if x = c then [] # split_on c xs
      else (case split_on c xs of [] \<Rightarrow> [[x]] | l # ls \<Rightarrow> (x # l) # ls))"

text \<open>\<^verbatim>\<open>strings.Join\<close>.\<close>

fun str_join :: "string \<Rightarrow> string list \<Rightarrow> string" where
  "str_join sep [] = []"
| "str_join sep [x] = x"
| "str_join sep (x # y # ys) = x @ sep @ str_join sep (y # ys)"

lemma split_on_not_Nil [simp]: "split_on c s \<noteq> []"
  by (induction s) (auto split: list.splits)

lemma str_join_Cons: "ys \<noteq> [] \<Longrightarrow> str_join sep (x # ys) = x @ sep @ str_join sep ys"
  by (cases ys) auto

lemma str_join_snoc: "xs \<noteq> [] \<Longrightarrow> str_join sep (xs @ [x]) = str_join sep xs @ sep @ x"
  by (induction xs rule: induct_list012) auto

lemma str_join_split_on: "str_join [c] (split_on c s) = s"
proof (induction s)
  case (Cons x xs)
  then show ?case
    by (cases "split_on c xs") (auto simp: str_join_Cons, cases "tl (split_on c xs)", auto)
qed simp

lemma split_on_no_sep: "l \<in> set (split_on c s) \<Longrightarrow> c \<notin> set l"
proof (induction s arbitrary: l)
  case (Cons x xs)
  then show ?case
    by (cases "split_on c xs") (auto split: if_splits)
qed simp

text \<open>\<^verbatim>\<open>strconv.Itoa\<close> and \<^verbatim>\<open>strconv.FormatUint(_, 10)\<close> on a non-negative number.\<close>

definition digit_char :: "nat \<Rightarrow> char" where
  "digit_char d = char_of (48 + d)"

fun itoa :: "nat \<Rightarrow> string" where
  "itoa n = (if n < 10 then [digit_char n] else itoa (n div 10) @ [digit_char (n mod 10)])"

declare itoa.simps [simp del]

fun atoi_digits :: "string \<Rightarrow> nat \<Rightarrow> nat" where
  "atoi_digits [] acc = acc"
| "atoi_digits (c # cs) acc = atoi_digits cs (acc * 10 + (of_char c - 48))"

lemma of_char_digit: "d < 10 \<Longrightarrow> of_char (digit_char d) = (48 + d :: nat)"
  by (simp add: digit_char_def of_char_of)

lemma atoi_digits_append: "atoi_digits (xs @ ys) acc = atoi_digits ys (atoi_digits xs acc)"
  by (induction xs arbitrary: acc) auto

lemma atoi_itoa: "atoi_digits (itoa n) 0 = n"
proof (induction n rule: itoa.induct)
  case (1 n)
  show ?case
  proof (cases "n < 10")
    case True
    then show ?thesis by (subst itoa.simps) (simp add: of_char_digit)
  next
    case False
    with "1.IH" show ?thesis
      by (subst itoa.simps) (simp add: atoi_digits_append of_char_digit)
  qed
qed

lemma itoa_inject [simp]: "itoa m = itoa n \<longleftrightarrow> m = n"
  by (metis atoi_itoa)

section \<open>Slices\<close>

text \<open>
  Go's slice expression \<^verbatim>\<open>s[i:j]\<close> on a string: a run-time panic (here \<open>None\<close>) unless
  \<open>0 \<le> i \<le> j \<le> len s\<close>; and indexing, which panics outside the bounds.
\<close>

definition go_slice :: "'a list \<Rightarrow> int \<Rightarrow> int \<Rightarrow> 'a list option" where
  "go_slice s i j =
     (if 0 \<le> i \<and> i \<le> j \<and> j \<le> int (length s)
      then Some (take (nat (j - i)) (drop (nat i) s)) else None)"

definition go_index :: "'a list \<Rightarrow> int \<Rightarrow> 'a option" where
  "go_index s i = (if 0 \<le> i \<and> i < int (length s) then Some (s ! nat i) else None)"

section \<open>Errors\<close>

lemma find_append: "find P (xs @ ys) = (case find P xs of Some x \<Rightarrow> Some x | None \<Rightarrow> find P ys)"
  by (induction xs) auto

text \<open>A Go call that returns a value and an error.\<close>

type_synonym ('e, 'a) result = "'e + 'a"

definition is_ok :: "('e, 'a) result \<Rightarrow> bool" where
  "is_ok r = (case r of Inl _ \<Rightarrow> False | Inr _ \<Rightarrow> True)"

lemma is_ok_simps [simp]: "is_ok (Inr x)" "\<not> is_ok (Inl e)"
  by (simp_all add: is_ok_def)

end
