(* ===== verification/GoPaths.thy ===== *)
theory GoPaths
  imports Prelude
begin

text \<open>
  Go's \<^verbatim>\<open>path/filepath\<close> on Unix as the sources use it: \<^verbatim>\<open>Clean\<close>, \<^verbatim>\<open>Join\<close>,
  \<^verbatim>\<open>Dir\<close>, \<^verbatim>\<open>Base\<close>, \<^verbatim>\<open>Abs\<close> and \<^verbatim>\<open>Rel\<close>. A clean path is rendered from a
  rooted flag and a list of components, and the lemmas move between the two views: cleaning
  is idempotent, the directory of a clean path drops its last component, and the chain of
  parent directories therefore ends.
\<close>

section \<open>Definitions\<close>

fun clean_loop :: "bool \<Rightarrow> string list \<Rightarrow> string list \<Rightarrow> string list" where
  "clean_loop rooted acc [] = rev acc"
| "clean_loop rooted acc (c # cs) =
     (if c = [] \<or> c = ''.'' then clean_loop rooted acc cs
      else if c = ''..'' then
        (case acc of
           [] \<Rightarrow> if rooted then clean_loop rooted acc cs else clean_loop rooted (''..'' # acc) cs
         | a # as \<Rightarrow> if a = ''..'' then clean_loop rooted (''..'' # acc) cs
                     else clean_loop rooted as cs)
      else clean_loop rooted (c # acc) cs)"

definition is_abs :: "string \<Rightarrow> bool" where
  "is_abs p = has_prefix p ''/''"

definition path_comps :: "string \<Rightarrow> string list" where
  "path_comps p = clean_loop (is_abs p) [] (split_on (CHR ''/'') p)"

definition render :: "bool \<Rightarrow> string list \<Rightarrow> string" where
  "render rooted cs =
     (if rooted then ''/'' @ str_join ''/'' cs
      else if cs = [] then ''.'' else str_join ''/'' cs)"

definition go_clean :: "string \<Rightarrow> string" where
  "go_clean p = render (is_abs p) (path_comps p)"

definition go_join :: "string list \<Rightarrow> string" where
  "go_join elems =
     (let es = filter (\<lambda>e. e \<noteq> []) elems in if es = [] then [] else go_clean (str_join ''/'' es))"

definition up_to_last_slash :: "string \<Rightarrow> string" where
  "up_to_last_slash p = rev (dropWhile (\<lambda>c. c \<noteq> CHR ''/'') (rev p))"

definition go_dir :: "string \<Rightarrow> string" where
  "go_dir p = go_clean (up_to_last_slash p)"

definition go_base :: "string \<Rightarrow> string" where
  "go_base p =
     (if p = [] then ''.''
      else (let q = rev (dropWhile (\<lambda>c. c = CHR ''/'') (rev p))
            in if q = [] then ''/'' else rev (takeWhile (\<lambda>c. c \<noteq> CHR ''/'') (rev q))))"

definition go_abs :: "string \<Rightarrow> string \<Rightarrow> string" where
  "go_abs cwd p = (if is_abs p then go_clean p else go_join [cwd, p])"

fun strip_common :: "string list \<Rightarrow> string list \<Rightarrow> string list \<times> string list" where
  "strip_common (x # xs) (y # ys) = (if x = y then strip_common xs ys else (x # xs, y # ys))"
| "strip_common xs ys = (xs, ys)"

definition go_rel :: "string \<Rightarrow> string \<Rightarrow> string option" where
  "go_rel base targ =
     (if go_clean base = go_clean targ then Some ''.''
      else if is_abs base \<noteq> is_abs targ then None
      else (let (b, t) = strip_common (path_comps base) (path_comps targ)
            in if b = [] then Some (str_join ''/'' t)
               else if hd b = ''..'' then None
               else Some (str_join ''/'' (replicate (length b) ''..'' @ t))))"

section \<open>Normal component lists\<close>

text \<open>Components of a clean path: not empty, no separator, not the dot; dot-dots only in front.\<close>

definition comp_ok :: "string \<Rightarrow> bool" where
  "comp_ok c \<longleftrightarrow> c \<noteq> [] \<and> c \<noteq> ''.'' \<and> CHR ''/'' \<notin> set c"

definition norm_comps :: "bool \<Rightarrow> string list \<Rightarrow> bool" where
  "norm_comps rooted cs \<longleftrightarrow> (\<forall>c \<in> set cs. comp_ok c) \<and>
     (\<exists>n ds. cs = replicate n ''..'' @ ds \<and> ''..'' \<notin> set ds \<and> (rooted \<longrightarrow> n = 0))"

lemma split_on_join:
  "xs \<noteq> [] \<Longrightarrow> \<forall>x \<in> set xs. c \<notin> set x \<Longrightarrow> split_on c (str_join [c] xs) = xs"
proof (induction xs)
  case (Cons x xs)
  have single: "c \<notin> set y \<Longrightarrow> split_on c y = [y]" for y by (induction y) auto
  have app: "c \<notin> set y \<Longrightarrow> split_on c (y @ [c] @ z) = y # split_on c z" for y z
    by (induction y) auto
  show ?case
  proof (cases "xs = []")
    case True
    with Cons.prems single show ?thesis by simp
  next
    case False
    with Cons app show ?thesis by (simp add: str_join_Cons del: append.simps)
  qed
qed simp

lemma clean_loop_plain:
  "\<forall>c \<in> set cs. comp_ok c \<Longrightarrow> ''..'' \<notin> set cs \<Longrightarrow> clean_loop r acc cs = rev acc @ cs"
  by (induction cs arbitrary: acc) (auto simp: comp_ok_def)

lemma clean_loop_dotdots:
  "\<forall>a \<in> set acc. a = ''..'' \<Longrightarrow>
   clean_loop False acc (replicate n ''..'' @ cs) = clean_loop False (replicate n ''..'' @ acc) cs"
proof (induction n arbitrary: acc)
  case (Suc n)
  then show ?case
    by (cases acc) (auto simp: replicate_app_Cons_same)
qed simp

lemma clean_loop_norm: "norm_comps r cs \<Longrightarrow> clean_loop r [] cs = cs"
proof -
  assume n: "norm_comps r cs"
  then obtain k ds where cs: "cs = replicate k ''..'' @ ds" "''..'' \<notin> set ds" "r \<longrightarrow> k = 0"
    and ok: "\<forall>c \<in> set cs. comp_ok c"
    by (auto simp: norm_comps_def)
  then have ds: "\<forall>c \<in> set ds. comp_ok c" by auto
  show ?thesis
  proof (cases r)
    case True
    with cs ds show ?thesis by (simp add: clean_loop_plain)
  next
    case False
    have "clean_loop False [] (replicate k ''..'' @ ds) = clean_loop False (replicate k ''..'') ds"
      using clean_loop_dotdots [of "[]" k ds] by simp
    with False cs ds show ?thesis by (simp add: clean_loop_plain)
  qed
qed

lemma butlast_replicate_dots: "butlast (replicate k x) = replicate (k - 1) x"
  by (cases k) (simp_all add: replicate_append_same [symmetric] del: replicate.simps(2) add: replicate_Suc)

lemma norm_comps_butlast: "norm_comps r cs \<Longrightarrow> norm_comps r (butlast cs)"
proof -
  assume n: "norm_comps r cs"
  then obtain k ds where cs: "cs = replicate k ''..'' @ ds" "''..'' \<notin> set ds" "r \<longrightarrow> k = 0"
    by (auto simp: norm_comps_def)
  have "butlast cs = replicate k ''..'' @ butlast ds \<or>
      (ds = [] \<and> butlast cs = replicate (k - 1) ''..'' @ [])"
    using cs(1) butlast_replicate_dots [of k "''..''"] by (cases "ds = []") (auto simp: butlast_append)
  with cs n show ?thesis
    unfolding norm_comps_def
    by (metis diff_is_0_eq' empty_iff empty_set in_set_butlastD zero_le)
qed

lemma clean_loop_is_norm:
  "norm_comps r (rev acc) \<Longrightarrow> \<forall>c \<in> set cs. CHR ''/'' \<notin> set c \<Longrightarrow> norm_comps r (clean_loop r acc cs)"
proof (induction r acc cs rule: clean_loop.induct)
  case (2 r acc c cs)
  have push: "norm_comps r (rev (c # acc))" if "comp_ok c" "c \<noteq> ''..''"
    using "2.prems"(1) that by (fastforce simp: norm_comps_def)
  have dots: "norm_comps r (rev (''..'' # acc))" if "\<not> r" "acc = [] \<or> hd acc = ''..''"
  proof -
    obtain k ds where ds: "rev acc = replicate k ''..'' @ ds" "''..'' \<notin> set ds"
      using "2.prems"(1) by (auto simp: norm_comps_def)
    then have "ds = []"
      using that(2) by (cases ds rule: rev_cases) (auto simp: rev_eq_append_conv)
    with ds have "rev (''..'' # acc) = replicate (Suc k) ''..'' @ []"
      by (simp add: replicate_append_same)
    moreover have "\<forall>c \<in> set (''..'' # acc). comp_ok c"
      using "2.prems"(1) by (simp add: norm_comps_def comp_ok_def)
    ultimately show ?thesis using that(1) unfolding norm_comps_def by (metis empty_iff empty_set set_rev)
  qed
  have pop: "norm_comps r (rev as)" if "acc = a # as" for a as
    using norm_comps_butlast [OF "2.prems"(1)] that by simp
  have nodots: False if "r" "acc = ''..'' # as" for as
    using "2.prems"(1) that by (auto simp: norm_comps_def)
  show ?case
    using 2 push dots pop nodots by (auto simp: comp_ok_def split: list.splits)
qed simp

lemma norm_path_comps: "norm_comps (is_abs p) (path_comps p)"
  unfolding path_comps_def
  by (rule clean_loop_is_norm) (auto simp: norm_comps_def dest: split_on_no_sep)

lemma render_split:
  assumes "norm_comps r cs"
  shows "is_abs (render r cs) = r \<and> path_comps (render r cs) = cs"
proof -
  have ok: "\<forall>c \<in> set cs. comp_ok c" using assms by (simp add: norm_comps_def)
  then have noslash: "\<forall>c \<in> set cs. CHR ''/'' \<notin> set c" by (simp add: comp_ok_def)
  have abs: "is_abs (render r cs) = r"
  proof (cases "r \<or> cs = []")
    case True
    then show ?thesis by (auto simp: render_def is_abs_def has_prefix_def)
  next
    case False
    then obtain x xs where cs: "cs = x # xs" by (cases cs) auto
    with ok obtain y ys where "x = y # ys" "y \<noteq> CHR ''/''" by (cases x) (auto simp: comp_ok_def)
    with cs False show ?thesis by (cases xs) (auto simp: render_def is_abs_def has_prefix_def)
  qed
  have "path_comps (render r cs) = cs"
  proof (cases "cs = []")
    case True
    then show ?thesis using abs by (auto simp: path_comps_def render_def)
  next
    case False
    have "split_on (CHR ''/'') (str_join ''/'' cs) = cs" by (rule split_on_join [OF False noslash])
    then show ?thesis
      using abs clean_loop_norm [OF assms] False by (cases r) (auto simp: path_comps_def render_def)
  qed
  with abs show ?thesis by simp
qed

lemma go_clean_comps: "path_comps (go_clean p) = path_comps p" "is_abs (go_clean p) = is_abs p"
  using render_split [OF norm_path_comps] by (simp_all add: go_clean_def)

lemma go_clean_idem [simp]: "go_clean (go_clean p) = go_clean p"
  by (simp add: go_clean_def [of "go_clean p"] go_clean_comps) (simp add: go_clean_def)

section \<open>Parent directories\<close>

lemma render_inject:
  "norm_comps r cs \<Longrightarrow> norm_comps r ds \<Longrightarrow> render r cs = render r ds \<longleftrightarrow> cs = ds"
  by (metis render_split)

lemma up_to_last_slash_app: "CHR ''/'' \<notin> set x \<Longrightarrow> up_to_last_slash (p @ ''/'' @ x) = p @ ''/''"
  unfolding up_to_last_slash_def by (induction x rule: rev_induct) auto

lemma up_to_last_slash_none: "CHR ''/'' \<notin> set x \<Longrightarrow> up_to_last_slash x = []"
  unfolding up_to_last_slash_def by (induction x rule: rev_induct) auto

lemma clean_loop_trailing: "clean_loop r acc (cs @ [[]]) = clean_loop r acc cs"
  by (induction r acc cs rule: clean_loop.induct) (auto split: list.splits)

lemma split_on_snoc: "split_on c (s @ [c]) = split_on c s @ [[]]"
  by (induction s) (auto split: list.splits)

lemma path_comps_trailing: "s \<noteq> [] \<Longrightarrow> go_clean (s @ ''/'') = go_clean s"
proof -
  assume "s \<noteq> []"
  then have "is_abs (s @ ''/'') = is_abs s" by (cases s) (auto simp: is_abs_def has_prefix_def)
  then show ?thesis by (simp add: go_clean_def path_comps_def split_on_snoc clean_loop_trailing)
qed

lemma go_clean_render: "norm_comps r cs \<Longrightarrow> go_clean (render r cs) = render r cs"
  by (simp add: go_clean_def render_split)

lemma render_nonempty:
  assumes "norm_comps r cs"
  shows "render r cs \<noteq> []"
proof (cases "r \<or> cs = []")
  case False
  then obtain x xs where "cs = x # xs" by (cases cs) auto
  moreover from this assms have "x \<noteq> []" by (simp add: norm_comps_def comp_ok_def)
  ultimately show ?thesis using False by (cases xs) (auto simp: render_def)
qed (auto simp: render_def)

lemma go_dir_render:
  assumes "norm_comps r cs"
  shows "go_dir (render r cs) = render r (butlast cs)"
proof (cases cs rule: rev_cases)
  case Nil
  then show ?thesis
    by (cases r) (simp_all add: render_def go_dir_def up_to_last_slash_def go_clean_def is_abs_def
        has_prefix_def path_comps_def)
next
  case (snoc ds x)
  have x: "CHR ''/'' \<notin> set x" using assms snoc by (simp add: norm_comps_def comp_ok_def)
  have ds: "norm_comps r ds" using norm_comps_butlast [OF assms] snoc by simp
  show ?thesis
  proof (cases "ds = []")
    case True
    show ?thesis
    proof (cases r)
      case True
      have "up_to_last_slash (''/'' @ x) = ''/''" using up_to_last_slash_app [OF x, of "[]"] by simp
      then show ?thesis using True \<open>ds = []\<close> snoc
        by (simp add: render_def go_dir_def go_clean_def is_abs_def has_prefix_def path_comps_def)
    next
      case False
      then show ?thesis using \<open>ds = []\<close> snoc up_to_last_slash_none [OF x]
        by (simp add: render_def go_dir_def go_clean_def is_abs_def has_prefix_def path_comps_def)
    qed
  next
    case False
    have eq: "render r cs = render r ds @ ''/'' @ x"
      using False snoc by (simp add: render_def str_join_snoc)
    have "go_dir (render r cs) = go_clean (render r ds @ ''/'')"
      unfolding eq go_dir_def up_to_last_slash_app [OF x] ..
    then show ?thesis
      using path_comps_trailing [OF render_nonempty [OF ds]] go_clean_render [OF ds] snoc by simp
  qed
qed

lemma go_dir_clean: "go_dir (go_clean p) = render (is_abs p) (butlast (path_comps p))"
  using go_dir_render [OF norm_path_comps] by (simp add: go_clean_def)

lemma go_dir_is_clean: "go_clean (go_dir p) = go_dir p"
  by (simp add: go_dir_def)

text \<open>The parent of a clean path is itself or has one component less.\<close>

lemma go_dir_shrinks:
  assumes "go_clean d = d"
  shows "go_dir d = d \<or> length (path_comps (go_dir d)) < length (path_comps d)"
proof (cases "path_comps d = []")
  case True
  then show ?thesis using go_dir_clean [of d] assms by (metis butlast.simps(1) go_clean_def)
next
  case False
  have "path_comps (go_dir d) = butlast (path_comps d)"
    using go_dir_clean [of d] assms render_split [OF norm_comps_butlast [OF norm_path_comps]] by metis
  then show ?thesis using False by simp
qed

end
