(* ===== verification/DepGraph.thy ===== *)
theory DepGraph
  imports Prelude
begin

text \<open>
  The import graph of the analysis server (src/languageserver/server2/depgraph.go): its two
  adjacency maps, the operations that add an edge, list neighbours, clear a file's imports and
  compute the files to invalidate by breadth-first search over the reverse edges. The mutex
  makes every operation atomic, so each is one state transformer. The invariant says that the
  two maps mirror each other; the abstract graph is the set of (importer, imported) pairs.
\<close>

section \<open>The data structure\<close>

record dep_graph =
  forward :: "(uri, uri keyset) gomap"
  reverse :: "(uri, uri keyset) gomap"

definition new_dependency_graph :: dep_graph where
  "new_dependency_graph = \<lparr>forward = [], reverse = []\<rparr>"

text \<open>\<open>if m[k] == nil { m[k] = make(...) }; m[k][x] = struct{}{}\<close>\<close>

definition add_member :: "(uri, uri keyset) gomap \<Rightarrow> uri \<Rightarrow> uri \<Rightarrow> (uri, uri keyset) gomap" where
  "add_member m k x = AList.update k (ks_insert x (keys_at m k)) m"

definition add_edge :: "dep_graph \<Rightarrow> uri \<Rightarrow> uri \<Rightarrow> dep_graph" where
  "add_edge g src dst =
     \<lparr>forward = add_member (forward g) src dst, reverse = add_member (reverse g) dst src\<rparr>"

definition dependencies_of :: "dep_graph \<Rightarrow> uri \<Rightarrow> uri list" where
  "dependencies_of g u = keys_at (forward g) u"

definition dependents_of :: "dep_graph \<Rightarrow> uri \<Rightarrow> uri list" where
  "dependents_of g u = keys_at (reverse g) u"

text \<open>The inner loop of \<^verbatim>\<open>Invalidate\<close>: enqueue every dependent not seen yet.\<close>

fun visit_deps :: "uri list \<Rightarrow> uri list \<Rightarrow> uri list \<Rightarrow> uri list \<times> uri list" where
  "visit_deps [] visited queue = (visited, queue)"
| "visit_deps (dep # deps) visited queue =
     (if dep \<notin> set visited then visit_deps deps (visited @ [dep]) (queue @ [dep])
      else visit_deps deps visited queue)"

lemma visit_deps_append:
  "\<exists>new. visit_deps ds v q = (v @ new, q @ new) \<and> distinct new \<and> set new = set ds - set v"
proof (induction ds arbitrary: v q)
  case (Cons d ds)
  show ?case
  proof (cases "d \<in> set v")
    case True
    with Cons.IH [of v q] show ?thesis by (auto simp: insert_absorb)
  next
    case False
    from Cons.IH [of "v @ [d]" "q @ [d]"] obtain new where
      "visit_deps ds (v @ [d]) (q @ [d]) = ((v @ [d]) @ new, (q @ [d]) @ new)"
      "distinct new" "set new = set ds - set (v @ [d])" by blast
    with False show ?thesis by (intro exI [of _ "d # new"]) auto
  qed
qed simp

text \<open>The outer loop: pop the head of the queue and visit its dependents.\<close>

function bfs :: "(uri, uri keyset) gomap \<Rightarrow> uri list \<Rightarrow> uri list \<Rightarrow> uri list" where
  "bfs r visited [] = visited"
| "bfs r visited (current # queue) =
     bfs r (fst (visit_deps (keys_at r current) visited queue))
           (snd (visit_deps (keys_at r current) visited queue))"
  by pat_completeness auto
termination
proof (relation "measure (\<lambda>(r, v, q). card (all_members r - set v) + length q)", goal_cases)
  case (2 r v c q)
  obtain new where new: "visit_deps (keys_at r c) v q = (v @ new, q @ new)" "distinct new"
    "set new = set (keys_at r c) - set v"
    using visit_deps_append by blast
  let ?A = "all_members r - set v"
  have sub: "set new \<subseteq> ?A" using new(3) keys_at_subset [of r c] by auto
  have "card (?A - set new) = card ?A - card (set new)"
    using sub by (simp add: card_Diff_subset)
  moreover have "card (set new) \<le> card ?A" using sub by (simp add: card_mono)
  moreover have "all_members r - set (v @ new) = ?A - set new" by auto
  ultimately show ?case using new(1,2) by (simp add: distinct_card)
qed simp

definition invalidate :: "dep_graph \<Rightarrow> uri \<Rightarrow> uri list" where
  "invalidate g u = filter (\<lambda>v. v \<noteq> u) (bfs (reverse g) [u] [u])"

text \<open>The loop body of \<^verbatim>\<open>ClearDependenciesOf\<close>, and the loop over the targets.\<close>

definition clear_target :: "uri \<Rightarrow> uri \<Rightarrow> (uri, uri keyset) gomap \<Rightarrow> (uri, uri keyset) gomap" where
  "clear_target u dst r =
     (case map_of r dst of
        None \<Rightarrow> r
      | Some revset \<Rightarrow>
          (if ks_delete u revset = [] then AList.delete dst r
           else AList.update dst (ks_delete u revset) r))"

fun clear_targets :: "uri \<Rightarrow> uri list \<Rightarrow> (uri, uri keyset) gomap \<Rightarrow> (uri, uri keyset) gomap" where
  "clear_targets u [] r = r"
| "clear_targets u (dst # dsts) r = clear_targets u dsts (clear_target u dst r)"

definition clear_dependencies_of :: "dep_graph \<Rightarrow> uri \<Rightarrow> dep_graph" where
  "clear_dependencies_of g u =
     \<lparr>forward = AList.delete u (forward g),
      reverse = clear_targets u (keys_at (forward g) u) (reverse g)\<rparr>"

section \<open>The abstract graph and the representation invariant\<close>

definition imports_rel :: "dep_graph \<Rightarrow> (uri \<times> uri) set" where
  "imports_rel g = {(a, b). b \<in> set (dependencies_of g a)}"

definition members_wf :: "(uri, uri keyset) gomap \<Rightarrow> bool" where
  "members_wf m \<longleftrightarrow> distinct (map fst m) \<and> (\<forall>k. distinct (keys_at m k))"

definition graph_wf :: "dep_graph \<Rightarrow> bool" where
  "graph_wf g \<longleftrightarrow> members_wf (forward g) \<and> members_wf (reverse g) \<and>
     (\<forall>a b. b \<in> set (dependencies_of g a) \<longleftrightarrow> a \<in> set (dependents_of g b)) \<and>
     (\<forall>k. map_of (reverse g) k \<noteq> Some [])"

lemmas graph_defs = graph_wf_def imports_rel_def dependencies_of_def dependents_of_def

lemma graph_wf_new [simp]: "graph_wf new_dependency_graph"
  by (simp add: graph_defs members_wf_def new_dependency_graph_def)

lemma imports_rel_new [simp]: "imports_rel new_dependency_graph = {}"
  by (simp add: graph_defs new_dependency_graph_def)

lemma keys_at_add_member [simp]:
  "keys_at (add_member m k x) k' = (if k' = k then ks_insert x (keys_at m k) else keys_at m k')"
  by (simp add: add_member_def)

lemma members_wf_add_member [simp]: "members_wf m \<Longrightarrow> members_wf (add_member m k x)"
  unfolding members_wf_def
  by (metis add_member_def distinct_ks_insert distinct_update keys_at_add_member)

lemma map_of_add_member:
  "map_of (add_member m k x) k' = (if k' = k then Some (ks_insert x (keys_at m k)) else map_of m k')"
  by (simp add: add_member_def update_conv')

lemma graph_wf_add_edge:
  assumes "graph_wf g"
  shows "graph_wf (add_edge g a b)"
proof -
  have "members_wf (forward (add_edge g a b))" "members_wf (reverse (add_edge g a b))"
    using assms by (simp_all add: graph_wf_def add_edge_def)
  moreover have "\<forall>k. map_of (reverse (add_edge g a b)) k \<noteq> Some []"
    using assms by (simp add: graph_wf_def add_edge_def map_of_add_member)
  moreover have "y \<in> set (dependencies_of (add_edge g a b) x) \<longleftrightarrow>
      x \<in> set (dependents_of (add_edge g a b) y)" for x y
    using assms by (simp add: graph_defs add_edge_def)
  ultimately show ?thesis by (simp add: graph_wf_def)
qed

lemma imports_rel_add_edge: "imports_rel (add_edge g a b) = insert (a, b) (imports_rel g)"
  by (auto simp: graph_defs add_edge_def split: if_splits)

lemma keys_at_clear_target:
  "set (keys_at (clear_target u d r) k) = set (keys_at r k) - (if k = d then {u} else {})"
  by (auto simp: clear_target_def ks_delete_eq_Nil split: option.splits if_splits)
     (auto simp: keys_at_def)

lemma members_wf_clear_target: "members_wf r \<Longrightarrow> members_wf (clear_target u d r)"
proof (cases "map_of r d")
  case None
  then show "members_wf r \<Longrightarrow> ?thesis" by (simp add: clear_target_def)
next
  case (Some s)
  assume wf: "members_wf r"
  then have "distinct (keys_at r d)" by (simp add: members_wf_def)
  with Some have "distinct s" by (simp add: keys_at_def)
  with wf Some show ?thesis
    by (simp add: clear_target_def members_wf_def distinct_delete distinct_update)
qed

lemma clear_target_nonempty:
  "(\<forall>k. map_of r k \<noteq> Some []) \<Longrightarrow> map_of (clear_target u d r) k \<noteq> Some []"
  by (auto simp: clear_target_def update_conv' delete_conv' split: option.splits)

lemma clear_targets_props:
  "members_wf r \<Longrightarrow> (\<forall>k. map_of r k \<noteq> Some []) \<Longrightarrow>
   members_wf (clear_targets u ds r) \<and> (\<forall>k. map_of (clear_targets u ds r) k \<noteq> Some []) \<and>
   (\<forall>k. set (keys_at (clear_targets u ds r) k) =
        set (keys_at r k) - (if k \<in> set ds then {u} else {}))"
proof (induction ds arbitrary: r)
  case (Cons d ds)
  from Cons.IH [OF members_wf_clear_target [OF Cons.prems(1), of u d]]
  show ?case
    using clear_target_nonempty [OF Cons.prems(2), of u d]
    by (auto simp: keys_at_clear_target split: if_splits)
qed simp

lemma graph_wf_clear:
  assumes "graph_wf g"
  shows "graph_wf (clear_dependencies_of g u)"
proof -
  have wf: "members_wf (forward g)" "members_wf (reverse g)"
    and ne: "\<forall>k. map_of (reverse g) k \<noteq> Some []"
    and mir: "\<And>a b. b \<in> set (keys_at (forward g) a) \<longleftrightarrow> a \<in> set (keys_at (reverse g) b)"
    using assms by (auto simp: graph_defs)
  note rev = clear_targets_props [OF wf(2) ne, of u "keys_at (forward g) u"]
  have "members_wf (AList.delete u (forward g))"
    using wf(1) by (simp add: members_wf_def distinct_delete)
  with rev mir show ?thesis by (auto simp: graph_defs clear_dependencies_of_def split: if_splits)
qed

lemma imports_rel_clear:
  "imports_rel (clear_dependencies_of g u) = imports_rel g - {u} \<times> UNIV"
  by (auto simp: graph_defs clear_dependencies_of_def split: if_splits)

section \<open>The breadth-first search computes reachability\<close>

definition step_rel :: "(uri, uri keyset) gomap \<Rightarrow> (uri \<times> uri) set" where
  "step_rel r = {(a, b). b \<in> set (keys_at r a)}"

lemma bfs_mono: "set v \<subseteq> set (bfs r v q)"
proof (induction r v q rule: bfs.induct)
  case (2 r v c q)
  then show ?case using visit_deps_append [of "keys_at r c" v q] by fastforce
qed simp

lemma bfs_distinct: "distinct v \<Longrightarrow> distinct (bfs r v q)"
proof (induction r v q rule: bfs.induct)
  case (2 r v c q)
  obtain new where "visit_deps (keys_at r c) v q = (v @ new, q @ new)" "distinct new"
    "set new = set (keys_at r c) - set v"
    using visit_deps_append by blast
  with 2 show ?case by auto
qed simp

lemma bfs_sound:
  "set v \<subseteq> S \<Longrightarrow> set q \<subseteq> S \<Longrightarrow> step_rel r `` S \<subseteq> S \<Longrightarrow> set (bfs r v q) \<subseteq> S"
proof (induction r v q rule: bfs.induct)
  case (2 r v c q)
  obtain new where new: "visit_deps (keys_at r c) v q = (v @ new, q @ new)"
    "set new = set (keys_at r c) - set v"
    using visit_deps_append by blast
  have "set (keys_at r c) \<subseteq> S" using "2.prems"(2,3) by (auto simp: step_rel_def)
  then have "set (v @ new) \<subseteq> S" "set (q @ new) \<subseteq> S" using "2.prems" new(2) by auto
  with "2.IH" "2.prems"(3) new(1) show ?case by simp
qed simp

lemma bfs_closed:
  "set q \<subseteq> set v \<Longrightarrow> (\<forall>x \<in> set v - set q. set (keys_at r x) \<subseteq> set v) \<Longrightarrow>
   x \<in> set (bfs r v q) \<Longrightarrow> set (keys_at r x) \<subseteq> set (bfs r v q)"
proof (induction r v q rule: bfs.induct)
  case (2 r v c q)
  obtain new where new: "visit_deps (keys_at r c) v q = (v @ new, q @ new)"
    "set new = set (keys_at r c) - set v"
    using visit_deps_append by blast
  have "\<forall>x \<in> set (v @ new) - set (q @ new). set (keys_at r x) \<subseteq> set (v @ new)"
    using "2.prems"(2) new(2) by auto
  moreover have "set (q @ new) \<subseteq> set (v @ new)" using "2.prems"(1) by auto
  ultimately show ?case using 2 new(1) by simp
qed simp

lemma bfs_reachable: "set (bfs r [u] [u]) = (step_rel r)\<^sup>* `` {u}"
proof
  show "set (bfs r [u] [u]) \<subseteq> (step_rel r)\<^sup>* `` {u}"
    by (rule bfs_sound) (auto intro: rtrancl.rtrancl_into_rtrancl)
next
  have "step_rel r `` set (bfs r [u] [u]) \<subseteq> set (bfs r [u] [u])"
    using bfs_closed [of "[u]" "[u]" r] by (auto simp: step_rel_def)
  moreover have "{u} \<subseteq> set (bfs r [u] [u])" using bfs_mono [of "[u]" r "[u]"] by simp
  ultimately show "(step_rel r)\<^sup>* `` {u} \<subseteq> set (bfs r [u] [u])"
    by (metis Image_closed_trancl Image_mono subset_refl)
qed

lemma step_rel_reverse: "graph_wf g \<Longrightarrow> step_rel (reverse g) = (imports_rel g)\<inverse>"
  by (auto simp: graph_defs step_rel_def)

lemma set_invalidate:
  assumes "graph_wf g"
  shows "set (invalidate g u) = {d. (d, u) \<in> (imports_rel g)\<^sup>+ \<and> d \<noteq> u}"
proof -
  have "set (invalidate g u) = ((imports_rel g)\<inverse>)\<^sup>* `` {u} - {u}"
    by (auto simp: invalidate_def bfs_reachable step_rel_reverse [OF assms] simp del: bfs.simps)
  then show ?thesis
    unfolding rtrancl_converse by (auto dest: rtranclD intro: trancl_into_rtrancl)
qed

lemma distinct_invalidate: "distinct (invalidate g u)"
  by (simp add: invalidate_def bfs_distinct del: bfs.simps)

section \<open>The interface the analysis host relies on\<close>

text \<open>
  The host only adds edges, clears a file's edges and asks what to invalidate. \<open>edges\<close> is the
  abstract graph.
\<close>

locale import_index =
  fixes edges :: "'g \<Rightarrow> (uri \<times> uri) set"
    and wf :: "'g \<Rightarrow> bool"
    and empty :: 'g
    and add :: "'g \<Rightarrow> uri \<Rightarrow> uri \<Rightarrow> 'g"
    and clear :: "'g \<Rightarrow> uri \<Rightarrow> 'g"
    and affected :: "'g \<Rightarrow> uri \<Rightarrow> uri list"
  assumes wf_empty: "wf empty"
    and wf_add: "wf g \<Longrightarrow> wf (add g a b)"
    and wf_clear: "wf g \<Longrightarrow> wf (clear g a)"
    and edges_empty: "edges empty = {}"
    and edges_add: "wf g \<Longrightarrow> edges (add g a b) = insert (a, b) (edges g)"
    and edges_clear: "wf g \<Longrightarrow> edges (clear g a) = edges g - {a} \<times> UNIV"
    and affected_iff: "wf g \<Longrightarrow> set (affected g u) = {d. (d, u) \<in> (edges g)\<^sup>+ \<and> d \<noteq> u}"
begin

lemma importer_affected: "wf g \<Longrightarrow> a \<noteq> b \<Longrightarrow> a \<in> set (affected (add g a b) b)"
  by (auto simp: affected_iff wf_add edges_add)

lemma affected_add_mono: "wf g \<Longrightarrow> set (affected g u) \<subseteq> set (affected (add g a b) u)"
  using trancl_mono [OF _ subset_insertI, of _ "edges g"]
  by (auto simp: affected_iff wf_add edges_add)

lemma affected_trans:
  "wf g \<Longrightarrow> a \<in> set (affected g b) \<Longrightarrow> b \<in> set (affected g c) \<Longrightarrow> a \<noteq> c \<Longrightarrow> a \<in> set (affected g c)"
  by (auto simp: affected_iff)

lemma cleared_not_affected: "wf g \<Longrightarrow> a \<notin> set (affected (clear g a) u)"
  by (auto simp: affected_iff wf_clear edges_clear dest: tranclD)

lemma affected_empty: "affected empty u = []"
  using affected_iff [OF wf_empty, of u] by (simp add: edges_empty)

end

interpretation dg: import_index imports_rel graph_wf new_dependency_graph add_edge
  clear_dependencies_of invalidate
  by unfold_locales
    (simp_all add: graph_wf_add_edge graph_wf_clear imports_rel_add_edge imports_rel_clear
      set_invalidate)

end
