(* ===== verification/Stores.thy ===== *)
theory Stores
  imports Prelude
begin

text \<open>
  The contracts of the keyed stores of the language server. A \<open>lossy_store\<close> is a cache: an entry
  just put can be read back, a deleted key cannot, and another entry is either unchanged or
  gone (evicted). A \<open>keyed_store\<close> never loses an entry, so it is a lossy store as well. The
  lemmas about deleting a list of keys are proved once here and used by every client.
\<close>

locale lossy_store =
  fixes peek :: "'s \<Rightarrow> 'k \<Rightarrow> 'v option"
    and wf :: "'s \<Rightarrow> bool"
    and put :: "'s \<Rightarrow> 'k \<Rightarrow> 'v \<Rightarrow> 's"
    and del :: "'s \<Rightarrow> 'k \<Rightarrow> 's"
  assumes wf_put [store_laws]: "wf s \<Longrightarrow> wf (put s k v)"
    and wf_del [store_laws]: "wf s \<Longrightarrow> wf (del s k)"
    and peek_put_same [store_laws]: "wf s \<Longrightarrow> peek (put s k v) k = Some v"
    and peek_put_other:
      "wf s \<Longrightarrow> k' \<noteq> k \<Longrightarrow> peek (put s k v) k' = None \<or> peek (put s k v) k' = peek s k'"
    and peek_del [store_laws]: "wf s \<Longrightarrow> peek (del s k) k' = (if k' = k then None else peek s k')"
begin

text \<open>The loop \<open>for _, k := range ks { del(k) }\<close>.\<close>

lemma wf_del_list: "wf s \<Longrightarrow> wf (fold (\<lambda>k s. del s k) ks s)"
  by (induction ks arbitrary: s) (auto simp: wf_del)

lemma peek_del_list:
  "wf s \<Longrightarrow> peek (fold (\<lambda>k s. del s k) ks s) k = (if k \<in> set ks then None else peek s k)"
  by (induction ks arbitrary: s) (auto simp: wf_del peek_del)

lemma peek_put_SomeD: "wf s \<Longrightarrow> peek (put s k v) k' = Some w \<Longrightarrow> k' \<noteq> k \<Longrightarrow> peek s k' = Some w"
  using peek_put_other [of s k' k v] by auto

lemma peek_put_cases:
  "wf s \<Longrightarrow> peek (put s k v) k' = Some w \<Longrightarrow> (k' = k \<and> w = v) \<or> peek s k' = Some w"
  using peek_put_SomeD [of s k v k' w] peek_put_same [of s k v] by (cases "k' = k") auto

lemma del_put_same: "wf s \<Longrightarrow> peek (del (put s k v) k) k = None"
  by (simp add: peek_del wf_put)

end

locale keyed_store =
  fixes peek :: "'s \<Rightarrow> 'k \<Rightarrow> 'v option"
    and wf :: "'s \<Rightarrow> bool"
    and put :: "'s \<Rightarrow> 'k \<Rightarrow> 'v \<Rightarrow> 's"
    and del :: "'s \<Rightarrow> 'k \<Rightarrow> 's"
  assumes kwf_put: "wf s \<Longrightarrow> wf (put s k v)"
    and kwf_del: "wf s \<Longrightarrow> wf (del s k)"
    and kpeek_put: "wf s \<Longrightarrow> peek (put s k v) k' = (if k' = k then Some v else peek s k')"
    and kpeek_del: "wf s \<Longrightarrow> peek (del s k) k' = (if k' = k then None else peek s k')"
begin

lemma put_put_same: "wf s \<Longrightarrow> peek (put (put s k v) k w) k' = peek (put s k w) k'"
  by (simp add: kpeek_put kwf_put)

lemma put_commute:
  "wf s \<Longrightarrow> k \<noteq> k' \<Longrightarrow> peek (put (put s k v) k' w) j = peek (put (put s k' w) k v) j"
  by (simp add: kpeek_put kwf_put)

end

sublocale keyed_store \<subseteq> lossy_store peek wf put del
  by unfold_locales (auto simp: kwf_put kwf_del kpeek_put kpeek_del)

end
