(* ===== verification/LruCache.thy ===== *)
theory LruCache
  imports Stores
begin

text \<open>
  The checker cache (src/languageserver/server2/cache.go): a map from keys to elements of a
  doubly linked list whose front is the most recently used entry. As in the code, the map holds
  references to list elements and the elements hold the items, so the model keeps a heap of
  element cells. The abstract cache is the recency list of (key, entry) pairs; every operation
  refines the textbook operation on that list, and the representation invariant (the map and
  the list describe the same entries, the list is no longer than the capacity) is preserved.
\<close>

section \<open>The data structure\<close>

record 'v lru_item =
  item_key :: string
  item_entry :: 'v

text \<open>\<open>items\<close> maps a key to a list element, \<open>order\<close> is the linked list, \<open>cells\<close> the elements' values.\<close>

record 'v lru =
  capacity :: int
  items :: "(string, nat) gomap"
  order :: "nat list"
  cells :: "nat \<rightharpoonup> 'v lru_item"
  next_elem :: nat

definition new_lru :: "int \<Rightarrow> 'v lru" where
  "new_lru cap = \<lparr>capacity = (if cap < 1 then 1 else cap), items = [], order = [],
     cells = Map.empty, next_elem = 0\<rparr>"

text \<open>Operations of the list package: elements are compared by identity.\<close>

definition list_remove :: "nat list \<Rightarrow> nat \<Rightarrow> nat list" where
  "list_remove xs e = filter (\<lambda>x. x \<noteq> e) xs"

definition move_to_front :: "nat list \<Rightarrow> nat \<Rightarrow> nat list" where
  "move_to_front xs e = (if e \<in> set xs then e # list_remove xs e else xs)"

definition list_back :: "nat list \<Rightarrow> nat option" where
  "list_back xs = (if xs = [] then None else Some (last xs))"

definition lru_get :: "'v lru \<Rightarrow> string \<Rightarrow> 'v option \<times> 'v lru" where
  "lru_get c key =
     (case map_of (items c) key of
        None \<Rightarrow> (None, c)
      | Some elem \<Rightarrow>
          (map_option item_entry (cells c elem), c\<lparr>order := move_to_front (order c) elem\<rparr>))"

text \<open>The two halves of \<^verbatim>\<open>Put\<close> on a new key: make room, then push a fresh element.\<close>

definition lru_evict :: "'v lru \<Rightarrow> 'v lru" where
  "lru_evict c =
     (if int (length (order c)) \<ge> capacity c
      then (case list_back (order c) of
              None \<Rightarrow> c
            | Some back \<Rightarrow>
                (case cells c back of
                   None \<Rightarrow> c\<lparr>order := list_remove (order c) back\<rparr>
                 | Some it \<Rightarrow> c\<lparr>order := list_remove (order c) back,
                                items := AList.delete (item_key it) (items c)\<rparr>))
      else c)"

definition lru_push_front :: "'v lru \<Rightarrow> string \<Rightarrow> 'v \<Rightarrow> 'v lru" where
  "lru_push_front c key entry =
     c\<lparr>order := next_elem c # order c,
       cells := (cells c)(next_elem c \<mapsto> \<lparr>item_key = key, item_entry = entry\<rparr>),
       items := AList.update key (next_elem c) (items c),
       next_elem := Suc (next_elem c)\<rparr>"

definition lru_put :: "'v lru \<Rightarrow> string \<Rightarrow> 'v \<Rightarrow> 'v lru" where
  "lru_put c key entry =
     (case map_of (items c) key of
        Some elem \<Rightarrow>
          c\<lparr>order := move_to_front (order c) elem,
            cells := (cells c)(elem := map_option (\<lambda>it. it\<lparr>item_entry := entry\<rparr>) (cells c elem))\<rparr>
      | None \<Rightarrow> lru_push_front (lru_evict c) key entry)"

definition lru_delete :: "'v lru \<Rightarrow> string \<Rightarrow> 'v lru" where
  "lru_delete c key =
     (case map_of (items c) key of
        None \<Rightarrow> c
      | Some elem \<Rightarrow>
          c\<lparr>order := list_remove (order c) elem, items := AList.delete key (items c)\<rparr>)"

text \<open>The range loop of \<^verbatim>\<open>DeleteByPrefix\<close> over the entries present at its start.\<close>

fun delete_matching :: "string \<Rightarrow> (string \<times> nat) list \<Rightarrow> 'v lru \<Rightarrow> 'v lru" where
  "delete_matching prefix [] c = c"
| "delete_matching prefix ((key, elem) # rest) c =
     delete_matching prefix rest
       (if has_prefix key prefix
        then c\<lparr>order := list_remove (order c) elem, items := AList.delete key (items c)\<rparr>
        else c)"

definition lru_delete_by_prefix :: "'v lru \<Rightarrow> string \<Rightarrow> 'v lru" where
  "lru_delete_by_prefix c prefix = delete_matching prefix (items c) c"

section \<open>Invariant and abstraction\<close>

definition cell_key :: "'v lru \<Rightarrow> nat \<Rightarrow> string option" where
  "cell_key c e = map_option item_key (cells c e)"

definition lru_wf :: "'v lru \<Rightarrow> bool" where
  "lru_wf c \<longleftrightarrow> 1 \<le> capacity c \<and> int (length (order c)) \<le> capacity c \<and>
     distinct (order c) \<and> distinct (map fst (items c)) \<and>
     (\<forall>e \<in> set (order c). e < next_elem c) \<and>
     (\<forall>k e. map_of (items c) k = Some e \<longleftrightarrow> e \<in> set (order c) \<and> cell_key c e = Some k) \<and>
     (\<forall>e \<in> set (order c). cells c e \<noteq> None)"

definition pair_of :: "'v lru \<Rightarrow> nat \<Rightarrow> string \<times> 'v" where
  "pair_of c e = (let it = the (cells c e) in (item_key it, item_entry it))"

definition recency :: "'v lru \<Rightarrow> (string \<times> 'v) list" where
  "recency c = map (pair_of c) (order c)"

definition lru_peek :: "'v lru \<Rightarrow> string \<Rightarrow> 'v option" where
  "lru_peek c k = fst (lru_get c k)"

text \<open>The specification: operations on the recency list.\<close>

definition spec_touch :: "string \<Rightarrow> (string \<times> 'v) list \<Rightarrow> (string \<times> 'v) list" where
  "spec_touch k l = (case map_of l k of None \<Rightarrow> l | Some v \<Rightarrow> (k, v) # AList.delete k l)"

definition spec_put :: "int \<Rightarrow> string \<Rightarrow> 'v \<Rightarrow> (string \<times> 'v) list \<Rightarrow> (string \<times> 'v) list" where
  "spec_put cap k v l =
     (if k \<in> fst ` set l then (k, v) # AList.delete k l
      else (k, v) # (if int (length l) \<ge> cap then butlast l else l))"

lemma lru_wf_new [simp]: "lru_wf (new_lru cap)"
  by (simp add: lru_wf_def new_lru_def)

lemma recency_new [simp]: "recency (new_lru cap) = []"
  by (simp add: recency_def new_lru_def)

lemma capacity_new [simp]: "capacity (new_lru cap) = (if cap < 1 then 1 else cap)"
  by (simp add: new_lru_def)

lemma capacity_ops [simp]:
  "capacity (snd (lru_get c k)) = capacity c" "capacity (lru_evict c) = capacity c"
  "capacity (lru_push_front c k v) = capacity c" "capacity (lru_put c k v) = capacity c"
  "capacity (lru_delete c k) = capacity c"
  by (auto simp: lru_get_def lru_evict_def lru_push_front_def lru_put_def lru_delete_def
      split: option.splits)

lemma lru_wf_items:
  "lru_wf c \<Longrightarrow> map_of (items c) k = Some e \<longleftrightarrow> e \<in> set (order c) \<and> cell_key c e = Some k"
  unfolding lru_wf_def by blast

lemma lru_wf_cell: "lru_wf c \<Longrightarrow> e \<in> set (order c) \<Longrightarrow> \<exists>it. cells c e = Some it"
  unfolding lru_wf_def by blast

lemma lru_wf_distinct: "lru_wf c \<Longrightarrow> distinct (order c)"
  unfolding lru_wf_def by blast

lemma lru_wf_elem:
  "lru_wf c \<Longrightarrow> map_of (items c) k = Some e \<Longrightarrow>
   e \<in> set (order c) \<and> (\<exists>it. cells c e = Some it \<and> item_key it = k)"
  by (simp add: lru_wf_items cell_key_def)

lemma cell_key_pair_of: "cells c e = Some it \<Longrightarrow> cell_key c e = Some (fst (pair_of c e))"
  by (simp add: cell_key_def pair_of_def)

lemma key_of_elem:
  assumes "lru_wf c" "map_of (items c) k = Some e" "x \<in> set (order c)"
  shows "fst (pair_of c x) = k \<longleftrightarrow> x = e"
proof -
  obtain it where "cells c x = Some it" using lru_wf_cell [OF assms(1,3)] by blast
  then have "cell_key c x = Some (fst (pair_of c x))" by (rule cell_key_pair_of)
  then have "map_of (items c) (fst (pair_of c x)) = Some x"
    using lru_wf_items [OF assms(1)] assms(3) by simp
  moreover have "cell_key c e = Some k" using lru_wf_items [OF assms(1)] assms(2) by simp
  ultimately show ?thesis using assms(2) \<open>cell_key c x = _\<close> by auto
qed

lemma recency_distinct:
  assumes "lru_wf c"
  shows "distinct (map fst (recency c))"
proof -
  have "inj_on (fst \<circ> pair_of c) (set (order c))"
  proof (rule inj_onI)
    fix x y assume xy: "x \<in> set (order c)" "y \<in> set (order c)"
      "(fst \<circ> pair_of c) x = (fst \<circ> pair_of c) y"
    obtain it where "cells c y = Some it" using lru_wf_cell [OF assms xy(2)] by blast
    then have "map_of (items c) (fst (pair_of c y)) = Some y"
      using lru_wf_items [OF assms] xy(2) cell_key_pair_of by metis
    with key_of_elem [OF assms this xy(1)] xy(3) show "x = y" by simp
  qed
  then show ?thesis using lru_wf_distinct [OF assms] by (simp add: recency_def distinct_map)
qed

lemma map_of_recency:
  assumes "lru_wf c"
  shows "map_of (recency c) k = lru_peek c k"
proof (cases "map_of (items c) k")
  case None
  have "k \<notin> fst ` set (recency c)"
  proof
    assume "k \<in> fst ` set (recency c)"
    then obtain e where e: "e \<in> set (order c)" "k = fst (pair_of c e)" by (auto simp: recency_def)
    then obtain it where "cells c e = Some it" using lru_wf_cell [OF assms] by blast
    then have "map_of (items c) k = Some e"
      using e lru_wf_items [OF assms] cell_key_pair_of by metis
    with None show False by simp
  qed
  then have "map_of (recency c) k = None" by (metis map_of_eq_None_iff)
  with None show ?thesis by (simp add: lru_peek_def lru_get_def)
next
  case (Some e)
  then obtain it where it: "e \<in> set (order c)" "cells c e = Some it" "item_key it = k"
    using lru_wf_elem [OF assms] by blast
  then have "(k, item_entry it) \<in> set (recency c)"
    by (auto simp: recency_def pair_of_def Let_def intro!: image_eqI [where x = e])
  then have "map_of (recency c) k = Some (item_entry it)"
    using recency_distinct [OF assms] by simp
  with Some it(2) show ?thesis by (simp add: lru_peek_def lru_get_def)
qed

lemma lru_peek_None_iff: "lru_wf c \<Longrightarrow> lru_peek c k = None \<longleftrightarrow> map_of (items c) k = None"
  using lru_wf_elem [of c k] by (cases "map_of (items c) k") (auto simp: lru_peek_def lru_get_def)

lemma recency_keys: "lru_wf c \<Longrightarrow> k \<in> fst ` set (recency c) \<longleftrightarrow> map_of (items c) k \<noteq> None"
  by (metis lru_peek_None_iff map_of_eq_None_iff map_of_recency)

text \<open>Unlinking the element of a key, common to eviction and both deletions.\<close>

definition lru_drop :: "'v lru \<Rightarrow> string \<Rightarrow> nat \<Rightarrow> 'v lru" where
  "lru_drop c k e = c\<lparr>order := list_remove (order c) e, items := AList.delete k (items c)\<rparr>"

lemma lru_wf_drop:
  assumes wf: "lru_wf c" and e: "map_of (items c) k = Some e"
  shows "lru_wf (lru_drop c k e)"
proof -
  have len: "int (length (list_remove (order c) e)) \<le> capacity c"
    using wf length_filter_le [of "\<lambda>x. x \<noteq> e" "order c"]
    unfolding lru_wf_def list_remove_def by linarith
  have key: "cell_key (lru_drop c k e) x = cell_key c x" for x
    by (simp add: cell_key_def lru_drop_def)
  have only: "x = e" if "x \<in> set (order c)" "cell_key c x = Some k" for x
    using lru_wf_items [OF wf, of k x] e that by simp
  have ke: "cell_key c e = Some k" using lru_wf_items [OF wf, of k e] e by simp
  have "map_of (AList.delete k (items c)) k' = Some x \<longleftrightarrow>
      x \<in> set (list_remove (order c) e) \<and> cell_key c x = Some k'" for k' x
  proof (cases "k' = k")
    case True
    with only [of x] show ?thesis by (auto simp: delete_conv' list_remove_def)
  next
    case False
    with ke lru_wf_items [OF wf, of k' x] show ?thesis
      by (auto simp: delete_conv' list_remove_def)
  qed
  moreover have "distinct (list_remove (order c) e)" "set (list_remove (order c) e) \<subseteq> set (order c)"
    using wf by (auto simp: lru_wf_def list_remove_def)
  ultimately show ?thesis
    using wf len key unfolding lru_wf_def by (auto simp: lru_drop_def distinct_delete)
qed

lemma recency_drop:
  assumes wf: "lru_wf c" and e: "map_of (items c) k = Some e"
  shows "recency (lru_drop c k e) = AList.delete k (recency c)"
proof -
  have "filter (\<lambda>x. fst (pair_of c x) \<noteq> k) (order c) = filter (\<lambda>x. x \<noteq> e) (order c)"
    using key_of_elem [OF assms] by (intro filter_cong) auto
  moreover have "pair_of (lru_drop c k e) = pair_of c" by (rule ext) (simp add: pair_of_def lru_drop_def)
  ultimately show ?thesis
    by (simp add: AList.delete_eq recency_def list_remove_def filter_map comp_def case_prod_beta
        lru_drop_def eq_commute [of k])
qed

section \<open>Every operation keeps the invariant and refines the recency list\<close>

lemma move_to_front_props:
  "e \<in> set xs \<Longrightarrow> distinct xs \<Longrightarrow>
   set (move_to_front xs e) = set xs \<and> distinct (move_to_front xs e) \<and>
   length (move_to_front xs e) = length xs"
proof -
  assume e: "e \<in> set xs" and d: "distinct xs"
  have "set (e # list_remove xs e) = set xs" "distinct (e # list_remove xs e)"
    using e d by (auto simp: list_remove_def)
  with e show ?thesis unfolding move_to_front_def by (metis d distinct_card)
qed

text \<open>Promotion, with the item of the element rewritten by \<open>f\<close> (which keeps its key).\<close>

definition lru_touch :: "'v lru \<Rightarrow> nat \<Rightarrow> ('v lru_item \<Rightarrow> 'v lru_item) \<Rightarrow> 'v lru" where
  "lru_touch c e f = c\<lparr>order := move_to_front (order c) e,
                       cells := (cells c)(e := map_option f (cells c e))\<rparr>"

lemma lru_wf_touch:
  assumes wf: "lru_wf c" and e: "map_of (items c) k = Some e" and f: "\<And>it. item_key (f it) = item_key it"
  shows "lru_wf (lru_touch c e f)"
proof -
  have "e \<in> set (order c)" using lru_wf_elem [OF wf e] by blast
  then have mtf: "set (move_to_front (order c) e) = set (order c)"
    "distinct (move_to_front (order c) e)"
    "length (move_to_front (order c) e) = length (order c)"
    using move_to_front_props lru_wf_distinct [OF wf] by blast+
  have "cell_key (lru_touch c e f) x = cell_key c x" for x
    using f by (simp add: cell_key_def lru_touch_def option.map_comp comp_def)
  with wf mtf show ?thesis
    unfolding lru_wf_def by (simp add: lru_touch_def)
qed

lemma recency_touch:
  assumes wf: "lru_wf c" and e: "map_of (items c) k = Some e" and it: "cells c e = Some it"
    and f: "\<And>it. item_key (f it) = item_key it"
  shows "recency (lru_touch c e f) = (k, item_entry (f it)) # AList.delete k (recency c)"
proof -
  have "e \<in> set (order c)" "item_key it = k" using lru_wf_elem [OF wf e] it by auto
  moreover have "map (pair_of (lru_touch c e f)) (list_remove (order c) e) =
      map (pair_of c) (list_remove (order c) e)"
    by (auto simp: pair_of_def lru_touch_def list_remove_def)
  moreover have "map (pair_of c) (list_remove (order c) e) = AList.delete k (recency c)"
    using recency_drop [OF wf e] by (simp add: recency_def lru_drop_def pair_of_def [abs_def])
  ultimately show ?thesis
    using f it by (simp add: recency_def lru_touch_def move_to_front_def pair_of_def)
qed

lemma lru_get_eq:
  "map_of (items c) k = Some e \<Longrightarrow> lru_get c k = (map_option item_entry (cells c e), lru_touch c e id)"
  by (simp add: lru_get_def lru_touch_def option.map_id)

lemma lru_get_miss: "map_of (items c) k = None \<Longrightarrow> lru_get c k = (None, c)"
  by (simp add: lru_get_def)

lemma lru_put_hit:
  "map_of (items c) k = Some e \<Longrightarrow> lru_put c k v = lru_touch c e (\<lambda>it. it\<lparr>item_entry := v\<rparr>)"
  by (simp add: lru_put_def lru_touch_def)

lemma lru_wf_get: "lru_wf c \<Longrightarrow> lru_wf (snd (lru_get c k))"
  by (cases "map_of (items c) k") (auto simp: lru_get_eq lru_get_miss lru_wf_touch)

lemma lru_get_refines:
  assumes "lru_wf c"
  shows "recency (snd (lru_get c k)) = spec_touch k (recency c)"
proof (cases "map_of (items c) k")
  case None
  then show ?thesis by (simp add: lru_get_miss spec_touch_def map_of_recency [OF assms] lru_peek_def)
next
  case (Some e)
  then obtain it where it: "cells c e = Some it" using lru_wf_elem [OF assms] by blast
  with recency_touch [OF assms Some it, of id] Some show ?thesis
    by (simp add: lru_get_eq spec_touch_def map_of_recency [OF assms] lru_peek_def)
qed

lemma lru_delete_eq: "lru_delete c k = (case map_of (items c) k of None \<Rightarrow> c | Some e \<Rightarrow> lru_drop c k e)"
  by (simp add: lru_delete_def lru_drop_def split: option.split)

lemma lru_wf_delete: "lru_wf c \<Longrightarrow> lru_wf (lru_delete c k)"
  by (simp add: lru_delete_eq lru_wf_drop split: option.split)

lemma lru_delete_refines:
  assumes "lru_wf c"
  shows "recency (lru_delete c k) = AList.delete k (recency c)"
proof (cases "map_of (items c) k")
  case None
  then have "k \<notin> fst ` set (recency c)" using recency_keys [OF assms] by simp
  with None show ?thesis by (simp add: lru_delete_eq)
qed (simp add: lru_delete_eq recency_drop [OF assms])

text \<open>Eviction drops the last element of the list, the least recently used entry.\<close>

lemma list_remove_last: "distinct xs \<Longrightarrow> xs \<noteq> [] \<Longrightarrow> list_remove xs (last xs) = butlast xs"
  by (induction xs rule: rev_induct) (auto simp: list_remove_def filter_id_conv)

lemma lru_evict_eq:
  assumes wf: "lru_wf c"
  shows "if int (length (order c)) \<ge> capacity c
         then \<exists>k. order c \<noteq> [] \<and> map_of (items c) k = Some (last (order c)) \<and>
                  lru_evict c = lru_drop c k (last (order c))
         else lru_evict c = c"
proof (cases "int (length (order c)) \<ge> capacity c")
  case True
  with wf have ne: "order c \<noteq> []" by (auto simp: lru_wf_def)
  then have "last (order c) \<in> set (order c)" by simp
  moreover from lru_wf_cell [OF wf this] obtain it where it: "cells c (last (order c)) = Some it" by blast
  ultimately have "map_of (items c) (item_key it) = Some (last (order c))"
    using lru_wf_items [OF wf] by (simp add: cell_key_def)
  with True ne it show ?thesis by (auto simp: lru_evict_def list_back_def lru_drop_def)
qed (simp add: lru_evict_def)

lemma lru_evict_props:
  assumes wf: "lru_wf c"
  shows "lru_wf (lru_evict c)" "int (length (order (lru_evict c))) < capacity c"
    "map_of (items c) k = None \<Longrightarrow> map_of (items (lru_evict c)) k = None"
    "recency (lru_evict c) =
       (if int (length (recency c)) \<ge> capacity c then butlast (recency c) else recency c)"
proof -
  show "lru_wf (lru_evict c)"
    using lru_evict_eq [OF wf] lru_wf_drop [OF wf] wf by (metis (full_types))
  have last: "list_remove (order c) (last (order c)) = butlast (order c)" if "order c \<noteq> []"
    using list_remove_last lru_wf_distinct [OF wf] that by blast
  show "int (length (order (lru_evict c))) < capacity c"
    using lru_evict_eq [OF wf] wf last
    by (cases "int (length (order c)) \<ge> capacity c") (auto simp: lru_drop_def lru_wf_def)
  show "map_of (items c) k = None \<Longrightarrow> map_of (items (lru_evict c)) k = None"
    using lru_evict_eq [OF wf]
    by (cases "int (length (order c)) \<ge> capacity c") (auto simp: lru_drop_def delete_conv')
  have "recency (lru_drop c k' (last (order c))) = butlast (recency c)" if "order c \<noteq> []" for k'
    using last [OF that] by (simp add: recency_def lru_drop_def map_butlast pair_of_def [abs_def])
  moreover have "length (recency c) = length (order c)" by (simp add: recency_def)
  ultimately show "recency (lru_evict c) =
       (if int (length (recency c)) \<ge> capacity c then butlast (recency c) else recency c)"
    using lru_evict_eq [OF wf] by (cases "int (length (order c)) \<ge> capacity c") auto
qed

lemma lru_push_props:
  assumes wf: "lru_wf c" and room: "int (length (order c)) < capacity c"
    and miss: "map_of (items c) k = None"
  shows "lru_wf (lru_push_front c k v)" "recency (lru_push_front c k v) = (k, v) # recency c"
proof -
  let ?n = "next_elem c" and ?c' = "lru_push_front c k v"
  have fresh: "?n \<notin> set (order c)" using wf by (auto simp: lru_wf_def)
  have key: "cell_key ?c' x = (if x = ?n then Some k else cell_key c x)" for x
    by (simp add: cell_key_def lru_push_front_def)
  have nokey: "cell_key c x \<noteq> Some k" if "x \<in> set (order c)" for x
    using lru_wf_items [OF wf, of k x] miss that by simp
  have flds: "order ?c' = ?n # order c" "items ?c' = AList.update k ?n (items c)"
    by (simp_all add: lru_push_front_def)
  have "map_of (items ?c') k' = Some x \<longleftrightarrow> x \<in> set (order ?c') \<and> cell_key ?c' x = Some k'" for k' x
    using lru_wf_items [OF wf, of k' x] fresh nokey [of x]
    by (cases "k' = k"; cases "x = ?n") (auto simp: key flds update_conv')
  then show "lru_wf ?c'"
    using wf room fresh unfolding lru_wf_def
    by (auto simp: lru_push_front_def distinct_update)
  have "map (pair_of ?c') (order c) = map (pair_of c) (order c)"
    using fresh by (auto simp: pair_of_def lru_push_front_def)
  then show "recency ?c' = (k, v) # recency c"
    by (simp add: recency_def) (simp add: lru_push_front_def pair_of_def)
qed

lemma lru_put_miss: "map_of (items c) k = None \<Longrightarrow> lru_put c k v = lru_push_front (lru_evict c) k v"
  by (simp add: lru_put_def)

lemma lru_wf_put:
  assumes wf: "lru_wf c"
  shows "lru_wf (lru_put c k v)"
proof (cases "map_of (items c) k")
  case None
  from lru_push_props(1) [OF lru_evict_props(1) [OF wf] _ lru_evict_props(3) [OF wf None]]
  show ?thesis using lru_evict_props(2) [OF wf] None by (simp add: lru_put_miss)
qed (simp add: lru_put_hit lru_wf_touch [OF wf])

lemma lru_put_refines:
  assumes wf: "lru_wf c"
  shows "recency (lru_put c k v) = spec_put (capacity c) k v (recency c)"
proof (cases "map_of (items c) k")
  case None
  then have "k \<notin> fst ` set (recency c)" using recency_keys [OF wf] by simp
  moreover have "recency (lru_push_front (lru_evict c) k v) = (k, v) # recency (lru_evict c)"
    using lru_push_props(2) [OF lru_evict_props(1) [OF wf]] lru_evict_props(2,3) [OF wf] None by simp
  ultimately show ?thesis using None lru_evict_props(4) [OF wf] by (simp add: lru_put_miss spec_put_def)
next
  case (Some e)
  then obtain it where it: "cells c e = Some it" using lru_wf_elem [OF wf] by blast
  have "k \<in> fst ` set (recency c)" using recency_keys [OF wf] Some by simp
  with recency_touch [OF wf Some it, of "\<lambda>it. it\<lparr>item_entry := v\<rparr>"] Some show ?thesis
    by (simp add: lru_put_hit spec_put_def)
qed

text \<open>\<^verbatim>\<open>DeleteByPrefix\<close>: the loop meets each entry of the map once.\<close>

lemma delete_matching_filter:
  "lru_wf c \<Longrightarrow> distinct (map fst its) \<Longrightarrow> (\<forall>(k, e) \<in> set its. map_of (items c) k = Some e) \<Longrightarrow>
   lru_wf (delete_matching p its c) \<and>
   recency (delete_matching p its c) =
     filter (\<lambda>(k, v). \<not> (k \<in> fst ` set its \<and> has_prefix k p)) (recency c)"
proof (induction its arbitrary: c)
  case Nil
  then show ?case by (simp add: filter_id_conv)
next
  case (Cons x its)
  obtain k e where x: "x = (k, e)" by force
  with Cons.prems have ke: "map_of (items c) k = Some e" by simp
  let ?c = "if has_prefix k p then lru_drop c k e else c"
  have wf: "lru_wf ?c" using Cons.prems(1) lru_wf_drop ke by auto
  have keep: "\<forall>(k', e') \<in> set its. map_of (items ?c) k' = Some e'"
    using Cons.prems(2,3) x by (force simp: lru_drop_def delete_conv')
  have rec: "recency ?c = filter (\<lambda>(k', v). \<not> (k' = k \<and> has_prefix k' p)) (recency c)"
    using recency_drop [OF Cons.prems(1) ke]
    by (auto simp: AList.delete_eq filter_id_conv intro!: filter_cong)
  have "delete_matching p (x # its) c = delete_matching p its ?c" by (simp add: x lru_drop_def)
  with Cons.IH [OF wf _ keep] Cons.prems(2) x rec show ?case
    by (auto simp: case_prod_beta intro!: filter_cong)
qed

lemma lru_delete_by_prefix_props:
  assumes wf: "lru_wf c"
  shows "lru_wf (lru_delete_by_prefix c p)"
    "recency (lru_delete_by_prefix c p) = filter (\<lambda>(k, v). \<not> has_prefix k p) (recency c)"
proof -
  have dist: "distinct (map fst (items c))" using wf by (simp add: lru_wf_def)
  then have all: "\<forall>(k, e) \<in> set (items c). map_of (items c) k = Some e" by auto
  note dm = delete_matching_filter [OF wf dist all, of p]
  from dm show "lru_wf (lru_delete_by_prefix c p)" by (simp add: lru_delete_by_prefix_def)
  have "k \<in> fst ` set (items c)" if "(k, v) \<in> set (recency c)" for k v
    using that recency_keys [OF wf, of k] by (metis image_eqI fst_conv map_of_eq_None_iff)
  with dm show "recency (lru_delete_by_prefix c p) = filter (\<lambda>(k, v). \<not> has_prefix k p) (recency c)"
    by (auto simp: lru_delete_by_prefix_def intro!: filter_cong)
qed

section \<open>The cache is a lossy store\<close>

lemma lru_peek_get [simp]:
  assumes "lru_wf c"
  shows "lru_peek (snd (lru_get c k)) k' = lru_peek c k'"
proof -
  have "lru_peek (snd (lru_get c k)) k' = map_of (spec_touch k (recency c)) k'"
    using map_of_recency [OF lru_wf_get [OF assms]] lru_get_refines [OF assms] by metis
  also have "\<dots> = map_of (recency c) k'"
    by (auto simp: spec_touch_def delete_conv' split: option.splits)
  finally show ?thesis using map_of_recency [OF assms] by simp
qed

lemma map_of_butlast: "map_of (butlast l) k = None \<or> map_of (butlast l) k = map_of l k"
  by (induction l) auto

lemma lru_peek_put:
  assumes "lru_wf c"
  shows "lru_peek (lru_put c k v) k' = map_of (spec_put (capacity c) k v (recency c)) k'"
  using map_of_recency [OF lru_wf_put [OF assms]] lru_put_refines [OF assms] by metis

lemma lru_peek_delete:
  assumes "lru_wf c"
  shows "lru_peek (lru_delete c k) k' = (if k' = k then None else lru_peek c k')"
proof -
  have "lru_peek (lru_delete c k) k' = map_of (AList.delete k (recency c)) k'"
    using map_of_recency [OF lru_wf_delete [OF assms]] lru_delete_refines [OF assms] by metis
  then show ?thesis by (simp add: delete_conv' map_of_recency [OF assms])
qed

interpretation cache: lossy_store lru_peek lru_wf lru_put lru_delete
proof (unfold_locales, goal_cases)
  case (4 s k' k v)
  then show ?case
    using map_of_butlast [of "recency s" k'] map_of_recency [of s k']
    by (auto simp: lru_peek_put spec_put_def delete_conv')
qed (auto simp: lru_wf_put lru_wf_delete lru_peek_put spec_put_def lru_peek_delete)

end
