(* ===== verification/Documents.thy ===== *)
theory Documents
  imports Stores
begin

text \<open>
  The open documents (src/languageserver/server2/document.go): a map from URIs to texts with
  versions. It is a \<open>keyed_store\<close>; \<^verbatim>\<open>Snapshot\<close> copies the map entry by entry and
  the copy agrees with the store at every URI.
\<close>

record document =
  doc_text :: string
  doc_version :: "32 word"

type_synonym doc_store = "(uri, document) gomap"

definition new_document_store :: doc_store where
  "new_document_store = []"

definition doc_set :: "doc_store \<Rightarrow> uri \<Rightarrow> string \<Rightarrow> 32 word \<Rightarrow> doc_store" where
  "doc_set s u text version = AList.update u \<lparr>doc_text = text, doc_version = version\<rparr> s"

definition doc_get :: "doc_store \<Rightarrow> uri \<Rightarrow> document option" where
  "doc_get s u = map_of s u"

definition doc_delete :: "doc_store \<Rightarrow> uri \<Rightarrow> doc_store" where
  "doc_delete s u = AList.delete u s"

text \<open>The loops of \<^verbatim>\<open>URIs\<close> and \<^verbatim>\<open>Snapshot\<close> over the map.\<close>

fun doc_uris_loop :: "doc_store \<Rightarrow> uri list \<Rightarrow> uri list" where
  "doc_uris_loop [] acc = acc"
| "doc_uris_loop ((u, d) # rest) acc = doc_uris_loop rest (acc @ [u])"

definition doc_uris :: "doc_store \<Rightarrow> uri list" where
  "doc_uris s = doc_uris_loop s []"

fun doc_copy_loop :: "doc_store \<Rightarrow> doc_store \<Rightarrow> doc_store" where
  "doc_copy_loop [] cp = cp"
| "doc_copy_loop ((u, d) # rest) cp = doc_copy_loop rest (AList.update u d cp)"

definition doc_snapshot :: "doc_store \<Rightarrow> doc_store" where
  "doc_snapshot s = doc_copy_loop s []"

definition docs_wf :: "doc_store \<Rightarrow> bool" where
  "docs_wf s \<longleftrightarrow> distinct (map fst s)"

lemma docs_wf_simps [simp]:
  "docs_wf new_document_store" "docs_wf s \<Longrightarrow> docs_wf (doc_set s u t v)"
  "docs_wf s \<Longrightarrow> docs_wf (doc_delete s u)"
  by (simp_all add: docs_wf_def new_document_store_def doc_set_def doc_delete_def
      distinct_update distinct_delete)

lemma doc_get_simps [simp]:
  "doc_get new_document_store k = None"
  "doc_get (doc_set s u t v) k =
     (if k = u then Some \<lparr>doc_text = t, doc_version = v\<rparr> else doc_get s k)"
  "doc_get (doc_delete s u) k = (if k = u then None else doc_get s k)"
  by (simp_all add: doc_get_def new_document_store_def doc_set_def doc_delete_def
      update_conv' delete_conv')

lemma doc_uris_loop_eq: "doc_uris_loop s acc = acc @ map fst s"
  by (induction s acc rule: doc_uris_loop.induct) auto

lemma set_doc_uris: "set (doc_uris s) = {u. doc_get s u \<noteq> None}"
  by (auto simp: doc_uris_def doc_uris_loop_eq doc_get_def map_of_eq_None_iff)

lemma distinct_doc_uris: "docs_wf s \<Longrightarrow> distinct (doc_uris s)"
  by (simp add: doc_uris_def doc_uris_loop_eq docs_wf_def)

lemma doc_copy_loop_map:
  "distinct (map fst s) \<Longrightarrow> map_of (doc_copy_loop s cp) = map_of cp ++ map_of s"
proof (induction s cp rule: doc_copy_loop.induct)
  case (2 u d rest cp)
  then have "u \<notin> dom (map_of rest)" by (simp add: dom_map_of_conv_image_fst)
  with 2 show ?case by (auto simp: update_conv' fun_eq_iff map_add_def split: option.splits)
qed simp

lemma doc_copy_loop_distinct: "distinct (map fst cp) \<Longrightarrow> distinct (map fst (doc_copy_loop s cp))"
  by (induction s cp rule: doc_copy_loop.induct) (auto simp: distinct_update)

lemma doc_get_snapshot: "docs_wf s \<Longrightarrow> doc_get (doc_snapshot s) u = doc_get s u"
  by (simp add: doc_snapshot_def doc_get_def docs_wf_def doc_copy_loop_map)

lemma docs_wf_snapshot [simp]: "docs_wf (doc_snapshot s)"
  by (simp add: docs_wf_def doc_snapshot_def doc_copy_loop_distinct)

interpretation docstore: keyed_store doc_get docs_wf
  "\<lambda>s u d. doc_set s u (doc_text d) (doc_version d)" doc_delete
  by unfold_locales simp_all

end
