(* ===== verification/Host.thy ===== *)
theory Host
  imports DepGraph LruCache Documents
begin

text \<open>
  The analysis host (src/languageserver/server2/snapshot.go): the owner of the open documents,
  the checker cache and the import graph. Updating or removing a document bumps the revision,
  evicts the cached checkers of the file and of all files that transitively import it, and (on
  removal) clears the file's import edges. A snapshot copies the documents and the revision; the
  cache and the graph stay shared, so they remain part of the host's state.
\<close>

section \<open>Locations and cache keys\<close>

text \<open>
  The kinds of locations the sources distinguish. The identifier of a location is a method of the
  Cadence library (\<^verbatim>\<open>location.ID()\<close>), so it is the parameter \<open>loc_id\<close> everywhere.
\<close>

datatype location =
    StringLocation string
  | AddressLocation string string
  | IdentifierLocation string
  | OtherLocation string

definition canonical_cache_key :: "(location \<Rightarrow> string) \<Rightarrow> location \<Rightarrow> string" where
  "canonical_cache_key loc_id l = loc_id l"

section \<open>State and operations\<close>

record 'c checker_entry =
  ce_checker :: "'c option"
  ce_valid :: bool

record 'c host =
  revision :: u64
  docs :: doc_store
  cache :: "'c checker_entry lru"
  dep_index :: dep_graph

definition new_analysis_host :: "int \<Rightarrow> 'c host" where
  "new_analysis_host cap = \<lparr>revision = 0, docs = new_document_store, cache = new_lru cap,
     dep_index = new_dependency_graph\<rparr>"

text \<open>\<open>for _, dep := range dependents { cache.Delete(dep) }; cache.Delete(cacheKey)\<close>\<close>

fun delete_all :: "uri list \<Rightarrow> 'v lru \<Rightarrow> 'v lru" where
  "delete_all [] c = c"
| "delete_all (dep # deps) c = delete_all deps (lru_delete c dep)"

definition evict_affected :: "dep_graph \<Rightarrow> string \<Rightarrow> 'v lru \<Rightarrow> 'v lru" where
  "evict_affected g key c = lru_delete (delete_all (invalidate g key) c) key"

definition update_document ::
    "(location \<Rightarrow> string) \<Rightarrow> 'c host \<Rightarrow> uri \<Rightarrow> string \<Rightarrow> 32 word \<Rightarrow> 'c host" where
  "update_document loc_id h u text version =
     (let key = canonical_cache_key loc_id (StringLocation u)
      in h\<lparr>revision := revision h + 1,
           docs := doc_set (docs h) u text version,
           cache := evict_affected (dep_index h) key (cache h)\<rparr>)"

definition remove_document :: "(location \<Rightarrow> string) \<Rightarrow> 'c host \<Rightarrow> uri \<Rightarrow> 'c host" where
  "remove_document loc_id h u =
     (let key = canonical_cache_key loc_id (StringLocation u)
      in h\<lparr>revision := revision h + 1,
           docs := doc_delete (docs h) u,
           cache := evict_affected (dep_index h) key (cache h),
           dep_index := clear_dependencies_of (dep_index h) key\<rparr>)"

record snapshot =
  snap_revision :: u64
  snap_documents :: doc_store

definition host_snapshot :: "'c host \<Rightarrow> snapshot" where
  "host_snapshot h = \<lparr>snap_revision = revision h, snap_documents = doc_snapshot (docs h)\<rparr>"

definition document_uris :: "'c host \<Rightarrow> uri list" where
  "document_uris h = doc_uris (docs h)"

definition get_document :: "'c host \<Rightarrow> uri \<Rightarrow> document option" where
  "get_document h u = doc_get (docs h) u"

section \<open>Eviction, proved over the interfaces\<close>

text \<open>
  A cache and an import index over the same keys. Deleting what the index reports as affected
  by a key, and the key, removes exactly the key and everything that imports it.
\<close>

locale indexed_cache =
  lossy_store peek wf put del + import_index edges gwf gempty add clear affected
  for peek :: "'s \<Rightarrow> uri \<Rightarrow> 'v option" and wf put del
    and edges :: "'g \<Rightarrow> (uri \<times> uri) set" and gwf gempty add clear affected
begin

lemma evict_peek:
  assumes "wf s" "gwf g"
  shows "peek (del (fold (\<lambda>k s. del s k) (affected g u) s) u) k =
         (if (k, u) \<in> (edges g)\<^sup>* then None else peek s k)"
proof -
  have "(k, u) \<in> (edges g)\<^sup>* \<longleftrightarrow> k = u \<or> k \<in> set (affected g u)"
    using affected_iff [OF assms(2)] by (auto simp: rtrancl_eq_or_trancl)
  then show ?thesis by (simp add: peek_del wf_del_list peek_del_list assms(1))
qed

lemma evict_wf: "wf s \<Longrightarrow> wf (del (fold (\<lambda>k s. del s k) ks s) u)"
  by (simp add: wf_del wf_del_list)

end

interpretation ic: indexed_cache lru_peek lru_wf lru_put lru_delete imports_rel graph_wf
  new_dependency_graph add_edge clear_dependencies_of invalidate
  by unfold_locales

lemma delete_all_fold: "delete_all ks c = fold (\<lambda>k c. lru_delete c k) ks c"
  by (induction ks c rule: delete_all.induct) simp_all

lemma lru_wf_evict_affected: "lru_wf c \<Longrightarrow> lru_wf (evict_affected g k c)"
  by (simp add: evict_affected_def delete_all_fold ic.evict_wf)

lemma peek_evict_affected:
  "lru_wf c \<Longrightarrow> graph_wf g \<Longrightarrow>
   lru_peek (evict_affected g u c) k = (if (k, u) \<in> (imports_rel g)\<^sup>* then None else lru_peek c k)"
  by (simp add: evict_affected_def delete_all_fold ic.evict_peek)

section \<open>The host's invariant\<close>

definition host_wf :: "'c host \<Rightarrow> bool" where
  "host_wf h \<longleftrightarrow> docs_wf (docs h) \<and> lru_wf (cache h) \<and> graph_wf (dep_index h)"

lemma host_wf_new [simp]: "host_wf (new_analysis_host cap)"
  by (simp add: host_wf_def new_analysis_host_def)

lemma host_wf_update [simp]: "host_wf h \<Longrightarrow> host_wf (update_document loc_id h u t v)"
  by (simp add: host_wf_def update_document_def Let_def lru_wf_evict_affected)

lemma host_wf_remove [simp]: "host_wf h \<Longrightarrow> host_wf (remove_document loc_id h u)"
  by (simp add: host_wf_def remove_document_def Let_def lru_wf_evict_affected graph_wf_clear)

section \<open>Properties\<close>

text \<open>
  C6. The import graph's invalidation set is exactly the set of files that transitively import
  the changed file, without the file itself and without repetitions, on every graph that the
  operations can build.
\<close>

theorem invalidate_is_transitive_importers:
  assumes "graph_wf g"
  shows "distinct (invalidate g u) \<and>
         set (invalidate g u) = {d. (d, u) \<in> (imports_rel g)\<^sup>+ \<and> d \<noteq> u}"
  using set_invalidate [OF assms] distinct_invalidate by blast

theorem invalidate_is_transitive_importers_witness:
  "set (invalidate (add_edge (add_edge new_dependency_graph ''A'' ''B'') ''B'' ''C'') ''C'') =
     {d. (d, ''C'') \<in> (imports_rel (add_edge (add_edge new_dependency_graph ''A'' ''B'') ''B'' ''C''))\<^sup>+ \<and> d \<noteq> ''C''}"
  using invalidate_is_transitive_importers [of "add_edge (add_edge new_dependency_graph ''A'' ''B'') ''B'' ''C''" "''C''"]
  by (simp add: graph_wf_add_edge del: imports_rel_add_edge)

text \<open>
  Adding an edge and clearing a file's imports implement insertion into and deletion from
  the abstract import relation, and both keep the two adjacency maps mirror images of each other.
\<close>

theorem dep_graph_refines_relation:
  assumes "graph_wf g"
  shows "graph_wf (add_edge g a b) \<and> imports_rel (add_edge g a b) = insert (a, b) (imports_rel g) \<and>
         graph_wf (clear_dependencies_of g a) \<and>
         imports_rel (clear_dependencies_of g a) = imports_rel g - {a} \<times> UNIV"
  using assms by (simp add: graph_wf_add_edge graph_wf_clear imports_rel_add_edge imports_rel_clear)

theorem dep_graph_refines_relation_witness:
  "graph_wf (add_edge new_dependency_graph ''A'' ''B'') \<and>
   imports_rel (clear_dependencies_of new_dependency_graph ''A'') = {} - {''A''} \<times> UNIV"
  using dep_graph_refines_relation [of new_dependency_graph "''A''" "''B''"] by simp

text \<open>
  C7. The cache implements the textbook LRU policy: on the list of (key, entry) pairs from the
  most to the least recently used, a lookup moves its entry to the front, an insertion puts the
  entry at the front and drops the last one when the cache was full, a deletion removes the key,
  a prefix deletion filters; and the representation invariant is kept.
\<close>

theorem lru_refines_recency_list:
  assumes "lru_wf c"
  shows "lru_wf (snd (lru_get c k)) \<and> lru_wf (lru_put c k v) \<and> lru_wf (lru_delete c k) \<and>
         lru_wf (lru_delete_by_prefix c p) \<and>
         fst (lru_get c k) = map_of (recency c) k \<and>
         recency (snd (lru_get c k)) = spec_touch k (recency c) \<and>
         recency (lru_put c k v) = spec_put (capacity c) k v (recency c) \<and>
         recency (lru_delete c k) = AList.delete k (recency c) \<and>
         recency (lru_delete_by_prefix c p) = filter (\<lambda>(k, v). \<not> has_prefix k p) (recency c)"
  using assms
  by (simp add: lru_wf_get lru_wf_put lru_wf_delete lru_delete_by_prefix_props lru_get_refines
      lru_put_refines lru_delete_refines map_of_recency lru_peek_def)

theorem lru_refines_recency_list_witness:
  "recency (lru_put (new_lru 1) ''a'' (7::nat)) = spec_put 1 ''a'' 7 []"
  using lru_refines_recency_list [of "new_lru 1 :: nat lru" "''a''" 7 "''p''"] by simp

text \<open>
  The cache never holds more entries than its capacity, which is at least one, and an
  entry that was just put can be read back.
\<close>

theorem lru_bounded_and_readable:
  assumes "lru_wf c"
  shows "int (length (recency (lru_put c k v))) \<le> capacity c \<and> 1 \<le> capacity c \<and>
         fst (lru_get (lru_put c k v) k) = Some v"
proof -
  have "lru_wf (lru_put c k v)" using assms by (rule lru_wf_put)
  then have "int (length (recency (lru_put c k v))) \<le> capacity c" "1 \<le> capacity c"
    by (auto simp: lru_wf_def recency_def)
  then show ?thesis using cache.peek_put_same [OF assms] by (simp add: lru_peek_def)
qed

theorem lru_bounded_and_readable_witness:
  "fst (lru_get (lru_put (lru_put (new_lru 0) ''a'' (1::nat)) ''b'' 2) ''b'') = Some 2"
  using lru_bounded_and_readable [of "lru_put (new_lru 0) ''a'' (1::nat)" "''b''" 2]
  by (simp add: lru_wf_put)

text \<open>
  C5. After a document is updated, the cached checkers of the document and of every file that
  transitively imports it according to the graph are gone, every other cached checker is
  unchanged, the new text can be read, and the other documents are as before.
\<close>

theorem update_document_evicts:
  assumes "host_wf h"
  shows "let h' = update_document loc_id h u t v in
         (\<forall>k. lru_peek (cache h') k =
            (if (k, loc_id (StringLocation u)) \<in> (imports_rel (dep_index h))\<^sup>* then None
             else lru_peek (cache h) k)) \<and>
         (\<forall>w. get_document h' w =
            (if w = u then Some \<lparr>doc_text = t, doc_version = v\<rparr> else get_document h w)) \<and>
         revision h' = revision h + 1 \<and> host_wf h'"
  using assms
  by (simp add: host_wf_def update_document_def Let_def canonical_cache_key_def get_document_def
      peek_evict_affected lru_wf_evict_affected)

theorem update_document_evicts_witness:
  "get_document (update_document (\<lambda>_. ''k'') (new_analysis_host 4 :: nat host) ''u'' ''t'' 1) ''u'' =
     Some \<lparr>doc_text = ''t'', doc_version = 1\<rparr>"
  using update_document_evicts [of "new_analysis_host 4 :: nat host" "\<lambda>_. ''k''" "''u''" "''t''" 1]
  by (simp add: Let_def)

text \<open>
  Removing a document evicts the same checkers, removes the document and no other, and
  clears the file's own import edges while keeping those of its importers, so a later change of
  one of its former imports no longer invalidates it.
\<close>

theorem remove_document_cleans:
  assumes "host_wf h"
  shows "let h' = remove_document loc_id h u; key = loc_id (StringLocation u) in
         (\<forall>k. lru_peek (cache h') k =
            (if (k, key) \<in> (imports_rel (dep_index h))\<^sup>* then None else lru_peek (cache h) k)) \<and>
         (\<forall>w. get_document h' w = (if w = u then None else get_document h w)) \<and>
         imports_rel (dep_index h') = imports_rel (dep_index h) - {key} \<times> UNIV \<and>
         (\<forall>w. key \<notin> set (invalidate (dep_index h') w)) \<and> host_wf h'"
  using assms
  by (simp add: host_wf_def remove_document_def Let_def canonical_cache_key_def get_document_def
      peek_evict_affected lru_wf_evict_affected imports_rel_clear graph_wf_clear dg.cleared_not_affected)

theorem remove_document_cleans_witness:
  "get_document (remove_document (\<lambda>_. ''k'') (new_analysis_host 4 :: nat host) ''u'') ''u'' = None"
  using remove_document_cleans [of "new_analysis_host 4 :: nat host" "\<lambda>_. ''k''" "''u''"]
  by (simp add: Let_def)

end
