(* ===== verification/ImportResolvers.thy ===== *)
theory ImportResolvers
  imports GoPaths Host
begin

text \<open>
  The import resolvers (src/languageserver/resolver): the file resolver, the flow.json resolver
  with its cached contract table and reload-on-change rule, the resolver that calls a JavaScript
  function, and the composite that tries a list of resolvers. Each is a function from a hidden
  state and a location to an error or a source text and the next state. The file system
  (\<^verbatim>\<open>os.Stat\<close>, \<^verbatim>\<open>os.ReadFile\<close>) is a parameter, and so is the text-to-value half of
  the JSON decoder; the value-to-struct half is modelled.
\<close>

section \<open>Errors, files, JSON values\<close>

datatype rerr = ErrNotFound | OtherErr string | Wrapped string rerr

text \<open>\<^verbatim>\<open>errors.Is(err, ErrNotFound)\<close> follows the chain of wrapped errors.\<close>

fun is_not_found :: "rerr \<Rightarrow> bool" where
  "is_not_found ErrNotFound = True"
| "is_not_found (OtherErr m) = False"
| "is_not_found (Wrapped m e) = is_not_found e"

type_synonym 's resolver = "'s \<Rightarrow> location \<Rightarrow> (rerr, string) result \<times> 's"

datatype fs_error = NotExist | FsErr string

fun fs_rerr :: "fs_error \<Rightarrow> rerr" where
  "fs_rerr NotExist = OtherErr ''file does not exist''"
| "fs_rerr (FsErr m) = OtherErr m"

record file_system =
  read_file :: "string \<Rightarrow> (fs_error, string) result"
  stat_mtime :: "string \<Rightarrow> (fs_error, int) result"

datatype json = JNull | JBool bool | JNum string | JStr string | JArr "json list"
  | JObj "(string \<times> json) list"

definition lower_char :: "char \<Rightarrow> char" where
  "lower_char c = (let n = of_char c :: nat in if 65 \<le> n \<and> n \<le> 90 then char_of (n + 32) else c)"

definition to_lower :: "string \<Rightarrow> string" where
  "to_lower s = map lower_char s"

text \<open>Decoding into a \<^verbatim>\<open>string\<close>: null leaves the zero value, other kinds are type errors.\<close>

fun unmarshal_string :: "string \<Rightarrow> json \<Rightarrow> string option" where
  "unmarshal_string old JNull = Some old"
| "unmarshal_string old (JStr s) = Some s"
| "unmarshal_string old _ = None"

text \<open>
  Decoding an object into a struct with one string field: keys match the field's name without
  regard to case, the last match wins, a value of another kind is an error.
\<close>

fun string_field :: "string \<Rightarrow> (string \<times> json) list \<Rightarrow> string \<Rightarrow> string option" where
  "string_field name [] old = Some old"
| "string_field name ((k, v) # fs) old =
     (if to_lower k = name
      then (case unmarshal_string old v of None \<Rightarrow> None | Some s \<Rightarrow> string_field name fs s)
      else string_field name fs old)"

fun unmarshal_contract_entry :: "json \<Rightarrow> string option" where
  "unmarshal_contract_entry JNull = Some ''''"
| "unmarshal_contract_entry (JObj fs) = string_field ''source'' fs ''''"
| "unmarshal_contract_entry _ = None"

text \<open>The decoded configuration: the map fields as ranged maps.\<close>

record dep_entry =
  dep_source :: string
  dep_aliases :: "(string, string) gomap"

record flow_json =
  cfg_contracts :: "(string, json) gomap"
  cfg_dependencies :: "(string, dep_entry) gomap"

section \<open>The file resolver\<close>

definition file_claims :: "location \<Rightarrow> bool" where
  "file_claims l = (case l of
     StringLocation p \<Rightarrow> has_suffix p ''.cdc'' \<or> has_prefix p ''/'' | _ \<Rightarrow> False)"

definition file_resolve :: "file_system \<Rightarrow> 's resolver" where
  "file_resolve fs s l =
     (case l of
        StringLocation path \<Rightarrow>
          (if \<not> has_suffix path ''.cdc'' \<and> \<not> has_prefix path ''/'' then (Inl ErrNotFound, s)
           else (case read_file fs path of
                   Inl NotExist \<Rightarrow> (Inl ErrNotFound, s)
                 | Inl (FsErr m) \<Rightarrow> (Inl (OtherErr m), s)
                 | Inr data \<Rightarrow> (Inr data, s)))
      | _ \<Rightarrow> (Inl ErrNotFound, s))"

section \<open>The composite resolver\<close>

fun composite_resolve :: "'s resolver list \<Rightarrow> 's resolver" where
  "composite_resolve [] s l = (Inl ErrNotFound, s)"
| "composite_resolve (r # rs) s l =
     (case r s l of
        (Inr code, s') \<Rightarrow> (Inr code, s')
      | (Inl err, s') \<Rightarrow>
          (if \<not> is_not_found err then (Inl err, s') else composite_resolve rs s' l))"

section \<open>The resolver that asks a JavaScript function\<close>

text \<open>
  \<open>js_call\<close> is the global function (\<open>None\<close> when it is not defined); its result is \<open>None\<close> for
  null or undefined.
\<close>

definition js_resolve ::
    "(location \<Rightarrow> string) \<Rightarrow> (string \<Rightarrow> string option) option \<Rightarrow> 's resolver" where
  "js_resolve loc_id js_call s l =
     (case js_call of
        None \<Rightarrow> (Inl ErrNotFound, s)
      | Some fn \<Rightarrow>
          (case fn (loc_id l) of
             None \<Rightarrow> (Inl ErrNotFound, s)
           | Some code \<Rightarrow>
               (if code = [] then (Inl (OtherErr (''empty code for '' @ loc_id l)), s)
                else (Inr code, s))))"

section \<open>The flow.json resolver\<close>

record flow_resolver =
  root_dir :: string
  config_path :: string
  contracts :: "(string \<rightharpoonup> string) option"
  load_err :: "rerr option"
  last_mod :: "int option"

definition new_flow_json_resolver :: "string \<Rightarrow> flow_resolver" where
  "new_flow_json_resolver root =
     \<lparr>root_dir = root, config_path = go_join [root, ''flow.json''], contracts = None,
      load_err = None, last_mod = None\<rparr>"

definition extract_address_from_source :: "string \<Rightarrow> string" where
  "extract_address_from_source source =
     (case str_index source ''://'' of
        None \<Rightarrow> ''''
      | Some idx \<Rightarrow>
          (let rest = drop (idx + 3) source
           in case str_index rest ''.'' of
                None \<Rightarrow> ''''
              | Some dot \<Rightarrow> take dot rest))"

text \<open>The first non-empty alias, in the order of the range loop.\<close>

fun first_alias :: "(string \<times> string) list \<Rightarrow> string" where
  "first_alias [] = ''''"
| "first_alias ((net, a) # rest) = (if a \<noteq> '''' then a else first_alias rest)"

fun load_contracts :: "string \<Rightarrow> (string \<times> json) list \<Rightarrow> (string \<rightharpoonup> string) \<Rightarrow> (string \<rightharpoonup> string)" where
  "load_contracts root [] m = m"
| "load_contracts root ((name, raw) # rest) m =
     load_contracts root rest
       (case unmarshal_string '''' raw of
          Some simple \<Rightarrow> m(name \<mapsto> go_join [root, simple])
        | None \<Rightarrow>
            (case unmarshal_contract_entry raw of
               Some source \<Rightarrow> if source \<noteq> '''' then m(name \<mapsto> go_join [root, source]) else m
             | None \<Rightarrow> m))"

fun load_dependencies ::
    "string \<Rightarrow> (string \<times> dep_entry) list \<Rightarrow> (string \<rightharpoonup> string) \<Rightarrow> (string \<rightharpoonup> string)" where
  "load_dependencies root [] m = m"
| "load_dependencies root ((name, dep) # rest) m =
     load_dependencies root rest
       (if m name \<noteq> None then m
        else (let addr0 = extract_address_from_source (dep_source dep);
                  addr = (if addr0 = '''' then first_alias (dep_aliases dep) else addr0)
              in if addr \<noteq> '''' then m(name \<mapsto> go_join [root, ''imports'', addr, name @ ''.cdc''])
                 else m))"

definition contract_table :: "string \<Rightarrow> flow_json \<Rightarrow> (string \<rightharpoonup> string)" where
  "contract_table root cfg =
     load_dependencies root (cfg_dependencies cfg) (load_contracts root (cfg_contracts cfg) Map.empty)"

text \<open>\<open>decode\<close> is \<^verbatim>\<open>json.Unmarshal\<close> into the configuration struct: an error text or the struct.\<close>

definition ensure_loaded ::
    "file_system \<Rightarrow> (string \<Rightarrow> (string, flow_json) result) \<Rightarrow> flow_resolver \<Rightarrow>
     rerr option \<times> flow_resolver" where
  "ensure_loaded fs decode r =
     (case stat_mtime fs (config_path r) of
        Inl NotExist \<Rightarrow>
          (Some ErrNotFound, r\<lparr>contracts := None, load_err := Some ErrNotFound, last_mod := None\<rparr>)
      | Inl (FsErr m) \<Rightarrow> (Some (OtherErr m), r)
      | Inr mtime \<Rightarrow>
          (if last_mod r = Some mtime \<and> contracts r \<noteq> None then (load_err r, r)
           else (let r1 = r\<lparr>last_mod := Some mtime, load_err := None\<rparr>
                 in case read_file fs (config_path r) of
                      Inl e \<Rightarrow> (Some (fs_rerr e), r1\<lparr>load_err := Some (fs_rerr e)\<rparr>)
                    | Inr data \<Rightarrow>
                        (case decode data of
                           Inl m \<Rightarrow> (Some (OtherErr m), r1\<lparr>load_err := Some (OtherErr m)\<rparr>)
                         | Inr cfg \<Rightarrow>
                             (None, r1\<lparr>contracts := Some (contract_table (root_dir r) cfg)\<rparr>)))))"

definition flow_claims :: "location \<Rightarrow> bool" where
  "flow_claims l = (case l of
     StringLocation name \<Rightarrow>
       \<not> (has_suffix name ''.cdc'' \<or> has_prefix name ''/'' \<or> has_prefix name ''.'') | _ \<Rightarrow> False)"

definition flow_resolve ::
    "file_system \<Rightarrow> (string \<Rightarrow> (string, flow_json) result) \<Rightarrow> flow_resolver resolver" where
  "flow_resolve fs decode r l =
     (case l of
        StringLocation name \<Rightarrow>
          (if has_suffix name ''.cdc'' \<or> has_prefix name ''/'' \<or> has_prefix name ''.''
           then (Inl ErrNotFound, r)
           else (case ensure_loaded fs decode r of
                   (Some e, r') \<Rightarrow> (Inl e, r')
                 | (None, r') \<Rightarrow>
                     (case Option.bind (contracts r') (\<lambda>m. m name) of
                        None \<Rightarrow> (Inl ErrNotFound, r')
                      | Some path \<Rightarrow>
                          (case read_file fs path of
                             Inl NotExist \<Rightarrow> (Inl ErrNotFound, r')
                           | Inl (FsErr m) \<Rightarrow> (Inl (OtherErr m), r')
                           | Inr data \<Rightarrow> (Inr data, r')))))
      | _ \<Rightarrow> (Inl ErrNotFound, r))"

section \<open>The contract of a resolver in a chain\<close>

text \<open>
  A resolver declines the locations it does not claim: it answers with the not-found error and
  leaves its state alone. Two resolvers that claim disjoint sets can be chained in either order.
\<close>

locale chain_resolver =
  fixes claims :: "location \<Rightarrow> bool"
    and resolve :: "'s resolver"
  assumes declines: "\<not> claims l \<Longrightarrow> resolve s l = (Inl ErrNotFound, s)"
begin

lemma skipped: "\<not> claims l \<Longrightarrow> composite_resolve (resolve # rs) s l = composite_resolve rs s l"
  by (simp add: declines)

lemma success_claimed: "fst (resolve s l) = Inr code \<Longrightarrow> claims l"
  using declines by fastforce

end

locale disjoint_resolvers =
  one: chain_resolver claims1 resolve1 + two: chain_resolver claims2 resolve2
  for claims1 and resolve1 :: "'s resolver" and claims2 and resolve2 :: "'s resolver" +
  assumes disjoint: "\<not> (claims1 l \<and> claims2 l)"
begin

lemma chain_commutes:
  "composite_resolve [resolve1, resolve2] s l = composite_resolve [resolve2, resolve1] s l"
proof (cases "claims1 l")
  case True
  with disjoint have "\<not> claims2 l" by blast
  then show ?thesis by (simp add: two.declines split: prod.splits sum.splits)
next
  case False
  then show ?thesis by (simp add: one.declines split: prod.splits sum.splits)
qed

end

lemma file_declines: "\<not> file_claims l \<Longrightarrow> file_resolve fs s l = (Inl ErrNotFound, s)"
  by (cases l) (auto simp: file_claims_def file_resolve_def)

lemma flow_declines: "\<not> flow_claims l \<Longrightarrow> flow_resolve fs decode r l = (Inl ErrNotFound, r)"
  by (cases l) (auto simp: flow_claims_def flow_resolve_def)

interpretation fileres: chain_resolver file_claims "file_resolve fs" for fs
  by unfold_locales (rule file_declines)

interpretation filejson: disjoint_resolvers file_claims "file_resolve fs" flow_claims
  "flow_resolve fs decode" for fs decode
  by unfold_locales (auto simp: file_declines flow_declines file_claims_def flow_claims_def
      split: location.splits)

section \<open>Facts about the resolvers\<close>

lemma load_dependencies_keeps: "m name = Some p \<Longrightarrow> load_dependencies root ds m name = Some p"
proof (induction root ds m rule: load_dependencies.induct)
  case (2 root n dep rest m)
  then show ?case by (cases "n = name") (auto simp: Let_def)
qed simp

lemma load_contracts_other:
  "name \<notin> fst ` set cs \<Longrightarrow> load_contracts root cs m name = m name"
  by (induction root cs m rule: load_contracts.induct) (auto split: option.splits)

lemma load_dependencies_other:
  "name \<notin> fst ` set ds \<Longrightarrow> load_dependencies root ds m name = m name"
  by (induction root ds m rule: load_dependencies.induct) (auto simp: Let_def)

lemma load_contracts_string:
  "distinct (map fst cs) \<Longrightarrow> (name, JStr p) \<in> set cs \<Longrightarrow>
   load_contracts root cs m name = Some (go_join [root, p])"
proof (induction root cs m rule: load_contracts.induct)
  case (2 root n raw rest m)
  show ?case
  proof (cases "(n, raw) = (name, JStr p)")
    case True
    then have "name \<notin> fst ` set rest" using "2.prems"(1) by auto
    with True show ?thesis by (simp add: load_contracts_other)
  next
    case False
    with 2 show ?thesis by auto
  qed
qed simp

lemma load_dependencies_entry:
  "distinct (map fst ds) \<Longrightarrow> (name, dep) \<in> set ds \<Longrightarrow> m name = None \<Longrightarrow>
   extract_address_from_source (dep_source dep) = addr \<Longrightarrow> addr \<noteq> '''' \<Longrightarrow>
   load_dependencies root ds m name = Some (go_join [root, ''imports'', addr, name @ ''.cdc''])"
proof (induction root ds m rule: load_dependencies.induct)
  case (2 root n d rest m)
  show ?case
  proof (cases "(n, d) = (name, dep)")
    case True
    then have "name \<notin> fst ` set rest" using "2.prems"(1) by auto
    with True "2.prems" show ?thesis by (simp add: load_dependencies_other Let_def)
  next
    case False
    then have "n \<noteq> name" "(name, dep) \<in> set rest" using "2.prems"(1,2) by (force simp: image_iff)+
    with 2 show ?thesis by (simp add: Let_def)
  qed
qed simp

lemma str_index_sep:
  "CHR '':'' \<notin> set net \<Longrightarrow> str_index (net @ ''://'' @ rest) ''://'' = Some (length net)"
  by (induction net) (auto simp: has_prefix_def)

lemma extract_address_parts:
  "CHR '':'' \<notin> set net \<Longrightarrow> CHR ''.'' \<notin> set addr \<Longrightarrow>
   extract_address_from_source (net @ ''://'' @ addr @ ''.'' @ name) = addr"
  using str_index_sep [of net "addr @ ''.'' @ name"] str_index_char_append [of "CHR ''.''" addr name]
  by (simp add: extract_address_from_source_def Let_def)

lemma ensure_loaded_paths:
  "root_dir (snd (ensure_loaded fs decode r)) = root_dir r \<and>
   config_path (snd (ensure_loaded fs decode r)) = config_path r"
  by (simp add: ensure_loaded_def Let_def split: sum.split fs_error.split)

section \<open>Properties\<close>

text \<open>
  The file resolver and the flow.json resolver claim disjoint sets of locations, so chaining
  them in either order gives the same answer and the same cached contract table, for every
  location, file system and configuration.
\<close>

theorem resolver_order_irrelevant:
  "composite_resolve [file_resolve fs, flow_resolve fs decode] r l =
   composite_resolve [flow_resolve fs decode, file_resolve fs] r l"
  by (rule filejson.chain_commutes)

text \<open>
  The composite answers with the first resolver that does not report not-found: resolvers
  before it are skipped, later ones are not asked, an error of another kind is propagated, and
  an exhausted list is not-found.
\<close>

theorem composite_first_answer:
  assumes "\<forall>r \<in> set before. \<exists>e. r s l = (Inl e, s) \<and> is_not_found e"
    and "r s l = (answer, s')" and "\<forall>e. answer = Inl e \<longrightarrow> \<not> is_not_found e"
  shows "composite_resolve (before @ r # after) s l = (answer, s') \<and>
         composite_resolve before s l = (Inl ErrNotFound, s)"
  using assms by (induction before) (auto split: sum.splits prod.splits)

theorem composite_first_answer_witness:
  "composite_resolve ([\<lambda>s l. (Inl (Wrapped ''w'' ErrNotFound), s)] @ (\<lambda>s l. (Inr ''code'', s)) #
     [\<lambda>s l. (Inl (OtherErr ''late''), s)]) (0::nat) (StringLocation ''A'') = (Inr ''code'', 0)"
  using composite_first_answer [of "[\<lambda>s l. (Inl (Wrapped ''w'' ErrNotFound), s)]" "0::nat"
      "StringLocation ''A''" "\<lambda>s l. (Inr ''code'', s)" "Inr ''code''" 0] by simp

text \<open>
  The contract table: a contract given by a path resolves to that path under the project
  root, whatever the dependencies section says; a dependency whose source is
  \<^verbatim>\<open>network://address.Name\<close> and that the contracts section does not define resolves to
  \<^verbatim>\<open>imports/address/name.cdc\<close> under the root.
\<close>

theorem contract_table_layout:
  assumes "distinct (map fst (cfg_contracts cfg))" and "distinct (map fst (cfg_dependencies cfg))"
  shows "((name, JStr p) \<in> set (cfg_contracts cfg) \<longrightarrow>
            contract_table root cfg name = Some (go_join [root, p])) \<and>
         ((name, dep) \<in> set (cfg_dependencies cfg) \<and> name \<notin> fst ` set (cfg_contracts cfg) \<and>
            dep_source dep = net @ ''://'' @ addr @ ''.'' @ cname \<and>
            CHR '':'' \<notin> set net \<and> CHR ''.'' \<notin> set addr \<and> addr \<noteq> '''' \<longrightarrow>
            contract_table root cfg name =
              Some (go_join [root, ''imports'', addr, name @ ''.cdc'']))"
proof (intro conjI impI, goal_cases)
  case 1
  then show ?case
    unfolding contract_table_def
    by (intro load_dependencies_keeps load_contracts_string assms(1))
next
  case 2
  then have "extract_address_from_source (dep_source dep) = addr"
    using extract_address_parts [of net addr cname] by metis
  with 2 show ?case
    unfolding contract_table_def
    by (intro load_dependencies_entry [OF assms(2)]) (auto simp: load_contracts_other)
qed

theorem contract_table_layout_witness:
  "contract_table ''/p'' \<lparr>cfg_contracts = [(''Foo'', JStr ''./Foo.cdc'')],
     cfg_dependencies = [(''Foo'', \<lparr>dep_source = ''mainnet://f233.Foo'', dep_aliases = []\<rparr>)]\<rparr> ''Foo'' =
   Some ''/p/Foo.cdc''"
proof -
  have "go_join [''/p'', ''./Foo.cdc''] = ''/p/Foo.cdc''" by code_simp
  then show ?thesis
    using contract_table_layout [of "\<lparr>cfg_contracts = [(''Foo'', JStr ''./Foo.cdc'')],
      cfg_dependencies = [(''Foo'', \<lparr>dep_source = ''mainnet://f233.Foo'', dep_aliases = []\<rparr>)]\<rparr>"
      "''Foo''" "''./Foo.cdc''" "''/p''"] by simp
qed

text \<open>
  Reloading is idempotent: while the file system does not change, a second
  \<^verbatim>\<open>ensureLoaded\<close> reports the same error or success and leaves the resolver as the first
  left it, on every path (missing file, unreadable file, malformed file, unchanged time).
\<close>

theorem ensure_loaded_idempotent:
  "ensure_loaded fs decode (snd (ensure_loaded fs decode r)) = ensure_loaded fs decode r"
proof (cases "stat_mtime fs (config_path r)")
  case (Inl e)
  then show ?thesis by (cases e) (auto simp: ensure_loaded_def)
next
  case (Inr mt)
  then show ?thesis
    by (cases "last_mod r = Some mt \<and> contracts r \<noteq> None"; cases "read_file fs (config_path r)")
       (auto simp: ensure_loaded_def Let_def split: sum.split)
qed

end
