(* ===== verification/Analysis.thy ===== *)
theory Analysis
  imports ImportResolvers
begin

text \<open>
  Analysis of one document (src/languageserver/server2/analysis.go): parse, decide the file kind,
  type-check with an import handler that consults the shared cache, resolves and checks missing
  imports and records import edges, and cache the result unless the request was cancelled.

  The Cadence parser and type checker are not part of the repository. The parser is a parameter.
  A run of the type checker is an arbitrary interactive computation: it may request imports, one
  after the other and depending on the earlier answers, and then finishes with a checker and an
  optional error. So nothing is assumed about which imports the checker asks for. Sub-checkers
  share the configuration, so the same handler (which always records edges from the document
  under analysis) answers the requests made while an import is checked. The handler is given
  fuel for the depth of nested imports; \<open>None\<close> is a call that has not returned within the fuel.
\<close>

section \<open>Errors and diagnostics\<close>

record ast_pos =
  pos_offset :: int
  pos_line :: int
  pos_column :: int

text \<open>
  A Cadence error as the code inspects it: its message, its children if it is a parent error,
  and its start and end position if it has one.
\<close>

datatype cadence_error = CadenceError (err_message: string)
  (err_children: "cadence_error list option") (err_position: "(ast_pos \<times> ast_pos) option")

definition severity_error :: int where "severity_error = 1"
definition severity_warning :: int where "severity_warning = 2"
definition severity_info :: int where "severity_info = 3"
definition severity_hint :: int where "severity_hint = 4"

record diagnostic =
  start_line :: int
  start_column :: int
  end_line :: int
  end_column :: int
  message :: string
  severity :: int

text \<open>The literal with no positions: lines one, columns at their zero value.\<close>

definition unpositioned_diagnostic :: "string \<Rightarrow> diagnostic" where
  "unpositioned_diagnostic m = \<lparr>start_line = 1, start_column = 0, end_line = 1, end_column = 0,
     message = m, severity = severity_error\<rparr>"

definition positioned_diagnostic :: "string \<Rightarrow> ast_pos \<Rightarrow> ast_pos \<Rightarrow> diagnostic" where
  "positioned_diagnostic m s e = \<lparr>start_line = pos_line s, start_column = pos_column s,
     end_line = pos_line e, end_column = pos_column e, message = m, severity = severity_error\<rparr>"

definition diagnostic_of :: "cadence_error \<Rightarrow> diagnostic" where
  "diagnostic_of e =
     (case err_position e of
        Some (s, t) \<Rightarrow> positioned_diagnostic (err_message e) s t
      | None \<Rightarrow> unpositioned_diagnostic (err_message e))"

definition extract_diagnostics :: "cadence_error option \<Rightarrow> diagnostic list" where
  "extract_diagnostics err =
     (case err of
        None \<Rightarrow> []
      | Some e \<Rightarrow>
          (case err_children e of
             Some children \<Rightarrow> map diagnostic_of children
           | None \<Rightarrow> [diagnostic_of e]))"

section \<open>The Cadence front end as a parameter\<close>

datatype file_kind = FileKindUnknown | FileKindScript | FileKindContract | FileKindTransaction

datatype import_error = NoResolver | ResolverFailed rerr | ParseFailed cadence_error
  | SubCheckerFailed cadence_error

text \<open>What the handler returns: an elaboration, an error, or neither (\<^verbatim>\<open>nil, nil\<close>).\<close>

datatype 'c import_result = ImportOk 'c | ImportNil | ImportErr import_error

text \<open>A run of the type checker.\<close>

datatype 'c check_run =
    Finished 'c "cadence_error option"
  | Request location "'c import_result \<Rightarrow> 'c check_run"

record ('p, 'c) cadence =
  parse_program :: "string \<Rightarrow> 'p option \<times> cadence_error option"
  sole_contract :: "'p \<Rightarrow> bool"
  sole_contract_interface :: "'p \<Rightarrow> bool"
  sole_transaction :: "'p \<Rightarrow> bool"
  new_checker_error :: "'p \<Rightarrow> location \<Rightarrow> cadence_error option"
  sub_checker_error :: "'p \<Rightarrow> location \<Rightarrow> cadence_error option"
  check_program :: "'p \<Rightarrow> location \<Rightarrow> 'c check_run"

definition decide_file_kind :: "('p, 'c) cadence \<Rightarrow> 'p \<Rightarrow> file_kind" where
  "decide_file_kind api p =
     (if sole_contract api p \<or> sole_contract_interface api p then FileKindContract
      else if sole_transaction api p then FileKindTransaction
      else FileKindScript)"

text \<open>An identifier is its name here; resolved locations carry the identifiers they stand for.\<close>

definition single_location_handler ::
    "string list \<Rightarrow> location \<Rightarrow> (location \<times> string list) list" where
  "single_location_handler identifiers l =
     (if identifiers = [] then [(l, [])]
      else map (\<lambda>i. (AddressLocation (case l of AddressLocation addr _ \<Rightarrow> addr | _ \<Rightarrow> '''') i, [i]))
             identifiers)"

section \<open>The import handler\<close>

text \<open>The shared state an analysis works on: the cache, the graph and the resolver's state.\<close>

record ('c, 's) shared =
  sh_cache :: "'c checker_entry lru"
  sh_graph :: dep_graph
  sh_resolver :: 's

text \<open>
  The parameters of an analysis: the front end, the identifier of a location, the resolver (or
  none), and the key under which edges are recorded.
\<close>

record ('p, 'c, 's) env =
  api :: "('p, 'c) cadence"
  loc_id :: "location \<Rightarrow> string"
  import_resolver :: "'s resolver option"

text \<open>Running the checker, answering its requests with \<open>h\<close>.\<close>

primrec run_checker ::
    "'c check_run \<Rightarrow> (location \<Rightarrow> 'st \<Rightarrow> ('c import_result \<times> 'st) option) \<Rightarrow> 'st \<Rightarrow>
     (('c \<times> cadence_error option) \<times> 'st) option" where
  "run_checker (Finished c e) h st = Some ((c, e), st)"
| "run_checker (Request l k) h st =
     (case h l st of None \<Rightarrow> None | Some (r, st') \<Rightarrow> run_checker (k r) h st')"

definition usable_entry :: "'c checker_entry option \<Rightarrow> 'c option" where
  "usable_entry e = (case e of None \<Rightarrow> None | Some en \<Rightarrow> if ce_valid en then ce_checker en else None)"

definition add_import_edge :: "string \<Rightarrow> string \<Rightarrow> ('c, 's) shared \<Rightarrow> ('c, 's) shared" where
  "add_import_edge root key st = st\<lparr>sh_graph := add_edge (sh_graph st) root key\<rparr>"

definition put_checker :: "string \<Rightarrow> 'c \<Rightarrow> ('c, 's) shared \<Rightarrow> ('c, 's) shared" where
  "put_checker key c st =
     st\<lparr>sh_cache := lru_put (sh_cache st) key \<lparr>ce_checker = Some c, ce_valid = True\<rparr>\<rparr>"

fun handle_import ::
    "('p, 'c, 's) env \<Rightarrow> string \<Rightarrow> nat \<Rightarrow> location \<Rightarrow> ('c, 's) shared \<Rightarrow>
     ('c import_result \<times> ('c, 's) shared) option" where
  "handle_import env root 0 l st = None"
| "handle_import env root (Suc fuel) l st =
     (let key = canonical_cache_key (loc_id env) l;
          got = lru_get (sh_cache st) key;
          st1 = st\<lparr>sh_cache := snd got\<rparr>
      in case usable_entry (fst got) of
           Some c \<Rightarrow> Some (ImportOk c, add_import_edge root key st1)
         | None \<Rightarrow>
             (case import_resolver env of
                None \<Rightarrow> Some (ImportErr NoResolver, st1)
              | Some resolve \<Rightarrow>
                  (case resolve (sh_resolver st1) l of
                     (Inl err, rs) \<Rightarrow> Some (ImportErr (ResolverFailed err), st1\<lparr>sh_resolver := rs\<rparr>)
                   | (Inr code, rs) \<Rightarrow>
                       (let st2 = st1\<lparr>sh_resolver := rs\<rparr>
                        in case parse_program (api env) code of
                             (_, Some perr) \<Rightarrow> Some (ImportErr (ParseFailed perr), st2)
                           | (None, None) \<Rightarrow> Some (ImportNil, st2)
                           | (Some prog, None) \<Rightarrow>
                               (case sub_checker_error (api env) prog l of
                                  Some e \<Rightarrow> Some (ImportErr (SubCheckerFailed e), st2)
                                | None \<Rightarrow>
                                    (case run_checker (check_program (api env) prog l)
                                            (handle_import env root fuel) st2 of
                                       None \<Rightarrow> None
                                     | Some ((c, _), st3) \<Rightarrow>
                                         Some (ImportOk c,
                                           add_import_edge root key (put_checker key c st3))))))))"

section \<open>Analyzing a document\<close>

record ('p, 'c) analysis_result =
  res_uri :: uri
  res_checker :: "'c option"
  res_program :: "'p option"
  res_diagnostics :: "diagnostic list"
  res_kind :: file_kind
  res_cancelled :: bool

definition empty_result :: "uri \<Rightarrow> ('p, 'c) analysis_result" where
  "empty_result u = \<lparr>res_uri = u, res_checker = None, res_program = None, res_diagnostics = [],
     res_kind = FileKindUnknown, res_cancelled = False\<rparr>"

text \<open>
  \<open>cancelled i\<close> is the answer of the i-th poll of \<^verbatim>\<open>ctx.Err()\<close>: before starting, after
  parsing and after checking.
\<close>

definition analyze ::
    "('p, 'c, 's) env \<Rightarrow> nat \<Rightarrow> (nat \<Rightarrow> bool) \<Rightarrow> doc_store \<Rightarrow> uri \<Rightarrow> ('c, 's) shared \<Rightarrow>
     (('p, 'c) analysis_result \<times> ('c, 's) shared) option" where
  "analyze env fuel cancelled documents u st =
     (let res = empty_result u
      in if cancelled 0 then Some (res\<lparr>res_cancelled := True\<rparr>, st)
         else case doc_get documents u of
           None \<Rightarrow>
             Some (res\<lparr>res_diagnostics := [unpositioned_diagnostic ''document not found'']\<rparr>, st)
         | Some doc \<Rightarrow>
             (case parse_program (api env) (doc_text doc) of
                (program, parse_err) \<Rightarrow>
                  (let res1 = res\<lparr>res_diagnostics := extract_diagnostics parse_err\<rparr>
                   in case program of
                        None \<Rightarrow> Some (res1, st)
                      | Some prog \<Rightarrow>
                          (let res2 = res1\<lparr>res_program := Some prog,
                                           res_kind := decide_file_kind (api env) prog\<rparr>;
                               location = StringLocation u;
                               key = canonical_cache_key (loc_id env) location
                           in if cancelled 1 then Some (res2\<lparr>res_cancelled := True\<rparr>, st)
                              else case new_checker_error (api env) prog location of
                                Some e \<Rightarrow>
                                  Some (res2\<lparr>res_diagnostics :=
                                    res_diagnostics res2 @ extract_diagnostics (Some e)\<rparr>, st)
                              | None \<Rightarrow>
                                  (case run_checker (check_program (api env) prog location)
                                          (handle_import env key fuel) st of
                                     None \<Rightarrow> None
                                   | Some ((c, check_err), st') \<Rightarrow>
                                       (let res3 = res2\<lparr>res_diagnostics :=
                                          res_diagnostics res2 @ extract_diagnostics check_err\<rparr>
                                        in if cancelled 2 then Some (res3\<lparr>res_cancelled := True\<rparr>, st')
                                           else Some (res3\<lparr>res_checker := Some c\<rparr>,
                                                      put_checker key c st')))))))"

section \<open>Invariants of a run\<close>

definition shared_wf :: "('c, 's) shared \<Rightarrow> bool" where
  "shared_wf st \<longleftrightarrow> lru_wf (sh_cache st) \<and> graph_wf (sh_graph st)"

lemma shared_wf_ops:
  "shared_wf st \<Longrightarrow> shared_wf (add_import_edge root key st)"
  "shared_wf st \<Longrightarrow> shared_wf (put_checker key c st)"
  "shared_wf st \<Longrightarrow> shared_wf (st\<lparr>sh_cache := snd (lru_get (sh_cache st) key)\<rparr>)"
  "shared_wf st \<Longrightarrow> shared_wf (st\<lparr>sh_resolver := rs\<rparr>)"
  by (simp_all add: shared_wf_def add_import_edge_def put_checker_def graph_wf_add_edge lru_wf_put
      lru_wf_get)

text \<open>
  A relation between states that every primitive step of the handler respects is respected by
  the handler and by whole runs of the checker: the induction over runs and fuel, done once.
\<close>

lemma run_checker_rel:
  assumes h: "\<And>l st r st'. h l st = Some (r, st') \<Longrightarrow> R st st'"
    and refl: "\<And>st. R st st" and trans: "\<And>a b c. R a b \<Longrightarrow> R b c \<Longrightarrow> R a c"
  shows "run_checker run h st = Some (out, st') \<Longrightarrow> R st st'"
proof (induction run arbitrary: st)
  case (Finished c e)
  then show ?case by (simp add: refl)
next
  case (Request l k)
  then obtain r st1 where "h l st = Some (r, st1)" "run_checker (k r) h st1 = Some (out, st')"
    by (auto split: option.splits)
  with Request.IH h trans show ?case by blast
qed

lemma handle_import_rel:
  assumes get: "\<And>st key. R st (st\<lparr>sh_cache := snd (lru_get (sh_cache st) key)\<rparr>)"
    and res: "\<And>st rs. R st (st\<lparr>sh_resolver := rs\<rparr>)"
    and edge: "\<And>st key. R st (add_import_edge root key st)"
    and put: "\<And>st l c. R st (put_checker (loc_id env l) c st)"
    and trans: "\<And>a b c. R a b \<Longrightarrow> R b c \<Longrightarrow> R a c"
  shows "handle_import env root fuel l st = Some (r, st') \<Longrightarrow> R st st'"
proof (induction fuel arbitrary: l st r st')
  case (Suc fuel)
  have refl: "R st st" for st
    using res [of st "sh_resolver st"] by simp
  define st1 where "st1 = st\<lparr>sh_cache := snd (lru_get (sh_cache st) (loc_id env l))\<rparr>"
  have R1: "R st st1" unfolding st1_def by (rule get)
  show ?case
  proof (cases "usable_entry (fst (lru_get (sh_cache st) (loc_id env l)))")
    case (Some c)
    with Suc.prems have "st' = add_import_edge root (loc_id env l) st1"
      by (simp add: Let_def canonical_cache_key_def st1_def)
    then show ?thesis using R1 edge trans by blast
  next
    case None
    show ?thesis
    proof (cases "import_resolver env")
      case None
      with Suc.prems \<open>usable_entry _ = None\<close> have "st' = st1"
        by (simp add: Let_def canonical_cache_key_def st1_def)
      with R1 show ?thesis by simp
    next
      case (Some resolve)
      obtain ans rs where ans: "resolve (sh_resolver st) l = (ans, rs)" by force
      define st2 where "st2 = st1\<lparr>sh_resolver := rs\<rparr>"
      have R2: "R st st2" using R1 res trans unfolding st2_def by blast
      have "st' = st2 \<or> (\<exists>prog c e st3. run_checker (check_program (api env) prog l)
          (handle_import env root fuel) st2 = Some ((c, e), st3) \<and>
          st' = add_import_edge root (loc_id env l) (put_checker (loc_id env l) c st3))"
        using Suc.prems None Some ans
        by (auto simp: Let_def canonical_cache_key_def st1_def st2_def
            split: sum.splits option.splits prod.splits)
      then show ?thesis
      proof (elim disjE exE conjE)
        assume "st' = st2" with R2 show ?thesis by simp
      next
        fix prog c e st3
        assume run: "run_checker (check_program (api env) prog l) (handle_import env root fuel) st2 =
            Some ((c, e), st3)"
          and st': "st' = add_import_edge root (loc_id env l) (put_checker (loc_id env l) c st3)"
        have "R st2 st3" by (rule run_checker_rel [OF Suc.IH refl trans run])
        then show ?thesis unfolding st' using R2 put edge trans by meson
      qed
    qed
  qed
qed simp

lemma analyze_cases:
  assumes "analyze env fuel cancelled ds u st = Some (res, st')"
  shows "(st' = st \<and> res_checker res = None) \<or>
     (\<exists>prog c e st1. doc_get ds u \<noteq> None \<and> \<not> cancelled 0 \<and> \<not> cancelled 1 \<and> res_program res = Some prog \<and>
        run_checker (check_program (api env) prog (StringLocation u))
          (handle_import env (loc_id env (StringLocation u)) fuel) st = Some ((c, e), st1) \<and>
        (if cancelled 2 then st' = st1 \<and> res_cancelled res \<and> res_checker res = None
         else st' = put_checker (loc_id env (StringLocation u)) c st1 \<and>
              res_checker res = Some c \<and> \<not> res_cancelled res))"
  using assms unfolding analyze_def
  by (auto simp: Let_def empty_result_def canonical_cache_key_def
      split: if_splits option.splits prod.splits)

lemma handle_import_wf: "handle_import env root fuel l st = Some (r, st') \<Longrightarrow> shared_wf st \<Longrightarrow> shared_wf st'"
  by (rule handle_import_rel [where R = "\<lambda>st st'. shared_wf st \<longrightarrow> shared_wf st'", THEN mp])
     (auto simp: shared_wf_ops)

lemma run_checker_wf:
  "run_checker run (handle_import env root fuel) st = Some (out, st') \<Longrightarrow> shared_wf st \<Longrightarrow> shared_wf st'"
  by (rule run_checker_rel [where R = "\<lambda>st st'. shared_wf st \<longrightarrow> shared_wf st'", THEN mp])
     (auto intro: handle_import_wf)

lemma analyze_wf: "analyze env fuel cancelled ds u st = Some (res, st') \<Longrightarrow> shared_wf st \<Longrightarrow> shared_wf st'"
  using analyze_cases [of env fuel cancelled ds u st res st']
  by (auto dest: run_checker_wf simp: shared_wf_ops split: if_splits)

text \<open>The graph only grows, and every new edge starts at the document under analysis.\<close>

definition edges_from_root :: "string \<Rightarrow> ('c, 's) shared \<Rightarrow> ('c, 's) shared \<Rightarrow> bool" where
  "edges_from_root root st st' \<longleftrightarrow>
     imports_rel (sh_graph st) \<subseteq> imports_rel (sh_graph st') \<and>
     imports_rel (sh_graph st') \<subseteq> imports_rel (sh_graph st) \<union> {root} \<times> UNIV"

lemma edges_from_root_refl: "edges_from_root root st st"
  by (auto simp: edges_from_root_def)

lemma edges_from_root_trans:
  "edges_from_root root a b \<Longrightarrow> edges_from_root root b c \<Longrightarrow> edges_from_root root a c"
  by (auto simp: edges_from_root_def)

lemma edges_from_root_ops:
  "edges_from_root root st (st\<lparr>sh_cache := c\<rparr>)" "edges_from_root root st (st\<lparr>sh_resolver := rs\<rparr>)"
  "edges_from_root root st (add_import_edge root key st)"
  "edges_from_root root st (put_checker key c' st)"
  by (auto simp: edges_from_root_def add_import_edge_def put_checker_def imports_rel_add_edge)

lemma handle_import_edges:
  "handle_import env root fuel l st = Some (r, st') \<Longrightarrow> edges_from_root root st st'"
  by (rule handle_import_rel [where R = "edges_from_root root"])
     (auto intro: edges_from_root_ops edges_from_root_trans)

lemma run_checker_edges:
  "run_checker run (handle_import env root fuel) st = Some (out, st') \<Longrightarrow> edges_from_root root st st'"
  by (rule run_checker_rel [where R = "edges_from_root root"])
     (auto intro: handle_import_edges edges_from_root_refl edges_from_root_trans)

lemma analyze_edges:
  "analyze env fuel cancelled ds u st = Some (res, st') \<Longrightarrow>
   edges_from_root (loc_id env (StringLocation u)) st st'"
  using analyze_cases [of env fuel cancelled ds u st res st']
  by (auto dest!: run_checker_edges split: if_splits
      intro: edges_from_root_refl edges_from_root_trans edges_from_root_ops)

lemma handle_import_ok_edge:
  assumes "handle_import env root fuel l st = Some (ImportOk c, st')"
  shows "(root, loc_id env l) \<in> imports_rel (sh_graph st')"
proof (cases fuel)
  case (Suc n)
  have "\<exists>st0. st' = add_import_edge root (loc_id env l) st0"
    using assms unfolding Suc
    by (auto simp: Let_def canonical_cache_key_def split: sum.splits option.splits prod.splits)
  then show ?thesis by (auto simp: add_import_edge_def imports_rel_add_edge)
qed (use assms in simp)

text \<open>The requests a run makes, with the handler's answers.\<close>

primrec run_log ::
    "'c check_run \<Rightarrow> (location \<Rightarrow> 'st \<Rightarrow> ('c import_result \<times> 'st) option) \<Rightarrow> 'st \<Rightarrow>
     (location \<times> 'c import_result) list" where
  "run_log (Finished c e) h st = []"
| "run_log (Request l k) h st =
     (case h l st of None \<Rightarrow> [] | Some (r, st') \<Rightarrow> (l, r) # run_log (k r) h st')"

lemma run_log_edges:
  "run_checker run (handle_import env root fuel) st = Some (out, st') \<Longrightarrow>
   (l, ImportOk c) \<in> set (run_log run (handle_import env root fuel) st) \<Longrightarrow>
   (root, loc_id env l) \<in> imports_rel (sh_graph st')"
proof (induction run arbitrary: st)
  case (Request l0 k)
  then obtain r st1 where h: "handle_import env root fuel l0 st = Some (r, st1)"
    and rest: "run_checker (k r) (handle_import env root fuel) st1 = Some (out, st')"
    by (auto split: option.splits)
  show ?case
  proof (cases "l0 = l \<and> r = ImportOk c")
    case True
    with h have "(root, loc_id env l) \<in> imports_rel (sh_graph st1)" by (auto intro: handle_import_ok_edge)
    with run_checker_edges [OF rest] show ?thesis by (auto simp: edges_from_root_def)
  next
    case False
    with Request.prems(2) h have "(l, ImportOk c) \<in> set (run_log (k r) (handle_import env root fuel) st1)"
      by auto
    with Request.IH rest show ?thesis by blast
  qed
qed simp

section \<open>Termination\<close>

primrec requests :: "'c check_run \<Rightarrow> location set" where
  "requests (Finished c e) = {}"
| "requests (Request l k) = insert l (\<Union>r. requests (k r))"

lemma run_checker_total:
  "(\<And>l st. l \<in> requests run \<Longrightarrow> h l st \<noteq> None) \<Longrightarrow> run_checker run h st \<noteq> None"
proof (induction run arbitrary: st)
  case (Request l k)
  then obtain r st1 where h: "h l st = Some (r, st1)" by fastforce
  have "run_checker (k r) h st1 \<noteq> None"
  proof (rule Request.IH)
    fix l' st assume "l' \<in> requests (k r)"
    then have "l' \<in> requests (Request l k)" by auto
    then show "h l' st \<noteq> None" by (rule Request.prems)
  qed simp
  with h show ?case by simp
qed simp

text \<open>
  Imports are acyclic when a rank falls from every location to the locations that checking its
  resolved source may request.
\<close>

definition ranked_imports :: "('p, 'c, 's) env \<Rightarrow> (location \<Rightarrow> nat) \<Rightarrow> bool" where
  "ranked_imports env rank \<longleftrightarrow>
     (\<forall>resolve s l code rs prog. import_resolver env = Some resolve \<longrightarrow>
        resolve s l = (Inr code, rs) \<longrightarrow> parse_program (api env) code = (Some prog, None) \<longrightarrow>
        (\<forall>l' \<in> requests (check_program (api env) prog l). rank l' < rank l))"

lemma handle_import_total:
  "ranked_imports env rank \<Longrightarrow> rank l < fuel \<Longrightarrow> handle_import env root fuel l st \<noteq> None"
proof (induction fuel arbitrary: l st)
  case (Suc fuel)
  have run: "run_checker (check_program (api env) prog l) (handle_import env root fuel) st2 \<noteq> None"
    if "import_resolver env = Some resolve" "resolve s l = (Inr code, rs)"
      "parse_program (api env) code = (Some prog, None)" for resolve s code rs prog st2
  proof (rule run_checker_total)
    fix l' st assume "l' \<in> requests (check_program (api env) prog l)"
    then have "rank l' < rank l" using Suc.prems(1) that unfolding ranked_imports_def by blast
    with Suc show "handle_import env root fuel l' st \<noteq> None" by auto
  qed
  show ?case
    by (auto simp: Let_def split: option.splits sum.splits prod.splits) (metis run option.distinct(1))
qed simp

lemma run_checker_mono:
  assumes "\<And>l st x. h l st = Some x \<Longrightarrow> h' l st = Some x"
  shows "run_checker run h st = Some out \<Longrightarrow> run_checker run h' st = Some out"
  by (induction run arbitrary: st) (auto split: option.splits dest!: assms)

lemma handle_import_mono:
  "handle_import env root fuel l st = Some x \<Longrightarrow> handle_import env root (Suc fuel) l st = Some x"
proof (induction fuel arbitrary: l st x)
  case (Suc fuel)
  have run: "run_checker run (handle_import env root fuel) st2 = Some out \<Longrightarrow>
      run_checker run (handle_import env root (Suc fuel)) st2 = Some out" for run st2 out
    by (rule run_checker_mono [OF Suc.IH])
  from Suc.prems show ?case
    by (subst handle_import.simps(2), subst (asm) handle_import.simps(2))
       (auto simp: Let_def simp del: handle_import.simps split: option.splits sum.splits prod.splits dest: run)
qed simp

section \<open>Two runs that go wrong\<close>

text \<open>
  A set of locations each of whose sources asks for another one of the set before anything
  else, none of them cached: no amount of fuel makes the handler return.
\<close>

definition import_cycle :: "('p, 'c, 's) env \<Rightarrow> location set \<Rightarrow> bool" where
  "import_cycle env L \<longleftrightarrow>
     (\<exists>resolve. import_resolver env = Some resolve \<and>
        (\<forall>l \<in> L. \<forall>s. \<exists>code rs prog l' k. resolve s l = (Inr code, rs) \<and>
           parse_program (api env) code = (Some prog, None) \<and>
           sub_checker_error (api env) prog l = None \<and>
           check_program (api env) prog l = Request l' k \<and> l' \<in> L))"

lemma handle_import_diverges:
  assumes cyc: "import_cycle env L"
  shows "shared_wf st \<Longrightarrow> (\<forall>l \<in> L. lru_peek (sh_cache st) (loc_id env l) = None) \<Longrightarrow> l \<in> L \<Longrightarrow>
         handle_import env root fuel l st = None"
proof (induction fuel arbitrary: l st)
  case (Suc fuel)
  obtain resolve where resolve: "import_resolver env = Some resolve"
    and all: "\<forall>l \<in> L. \<forall>s. \<exists>code rs prog l' k. resolve s l = (Inr code, rs) \<and>
       parse_program (api env) code = (Some prog, None) \<and> sub_checker_error (api env) prog l = None \<and>
       check_program (api env) prog l = Request l' k \<and> l' \<in> L"
    using cyc unfolding import_cycle_def by blast
  obtain code rs prog l' k where step: "resolve (sh_resolver st) l = (Inr code, rs)"
    "parse_program (api env) code = (Some prog, None)" "sub_checker_error (api env) prog l = None"
    "check_program (api env) prog l = Request l' k" "l' \<in> L"
    using all Suc.prems(3) by meson
  have miss: "fst (lru_get (sh_cache st) (loc_id env l)) = None"
    using Suc.prems(2,3) by (simp add: lru_peek_def)
  let ?st = "st\<lparr>sh_cache := snd (lru_get (sh_cache st) (loc_id env l)), sh_resolver := rs\<rparr>"
  have "handle_import env root fuel l' ?st = None"
  proof (rule Suc.IH [OF _ _ step(5)])
    show "shared_wf ?st" using Suc.prems(1) by (simp add: shared_wf_def lru_wf_get)
    show "\<forall>l \<in> L. lru_peek (sh_cache ?st) (loc_id env l) = None"
      using Suc.prems(1,2) by (simp add: shared_wf_def)
  qed
  then show ?case
    using resolve step miss by (simp add: Let_def canonical_cache_key_def usable_entry_def)
qed simp

text \<open>
  A small front end for the closed examples: a source is its own program, its first byte (if any)
  names the file it imports, and its checker is its text followed by the import's checker, so a
  checker shows which texts it was built from.
\<close>

definition demo_api :: "(string, string) cadence" where
  "demo_api = \<lparr>parse_program = (\<lambda>code. (Some code, None)), sole_contract = (\<lambda>_. False),
     sole_contract_interface = (\<lambda>_. False), sole_transaction = (\<lambda>_. False),
     new_checker_error = (\<lambda>_ _. None), sub_checker_error = (\<lambda>_ _. None),
     check_program = (\<lambda>code l. case code of [] \<Rightarrow> Finished code None
       | c # _ \<Rightarrow> Request (StringLocation [c])
           (\<lambda>r. Finished (code @ (case r of ImportOk d \<Rightarrow> d | _ \<Rightarrow> '''')) None))\<rparr>"

definition demo_id :: "location \<Rightarrow> string" where
  "demo_id l = (case l of StringLocation s \<Rightarrow> s | _ \<Rightarrow> '''')"

definition demo_env :: "(string \<Rightarrow> string) \<Rightarrow> (string, string, nat) env" where
  "demo_env files = \<lparr>api = demo_api, loc_id = demo_id,
     import_resolver = Some (\<lambda>n l. (Inr (files (demo_id l)), n))\<rparr>"

definition demo_start :: "(string, nat) shared" where
  "demo_start = \<lparr>sh_cache = new_lru 8, sh_graph = new_dependency_graph, sh_resolver = 0\<rparr>"

text \<open>A imports B, B imports C.\<close>

definition chain_env :: "(string, string, nat) env" where
  "chain_env = demo_env (\<lambda>f. if f = ''B'' then ''C'' else '''')"

lemmas demo_defs = chain_env_def demo_env_def demo_api_def demo_id_def demo_start_def

lemma shared_wf_demo [simp]: "shared_wf demo_start"
  by (simp add: shared_wf_def demo_start_def)

section \<open>Properties\<close>

text \<open>
  C13. Analysis returns whenever imports are acyclic: with a rank that falls along imports and
  fuel above the ranks of the document's own requests, the analysis of the document returns a
  result, from every state of the cache, the graph and the resolver.
\<close>

theorem analyze_returns:
  assumes "ranked_imports env rank"
    and "\<forall>prog. \<forall>l \<in> requests (check_program (api env) prog (StringLocation u)). rank l < fuel"
  shows "\<exists>res st'. analyze env fuel cancelled ds u st = Some (res, st')"
proof -
  have run: "run_checker (check_program (api env) prog (StringLocation u))
      (handle_import env root fuel) st \<noteq> None" for prog root
    by (rule run_checker_total) (metis assms handle_import_total)
  have "analyze env fuel cancelled ds u st \<noteq> None"
    by (simp add: analyze_def Let_def run split: option.split prod.split)
  then show ?thesis by auto
qed

theorem analyze_returns_witness:
  "\<exists>res st'. analyze chain_env 300 (\<lambda>_. False) [(''A'', \<lparr>doc_text = ''B'', doc_version = 1\<rparr>)] ''A'' demo_start =
     Some (res, st')"
proof (rule analyze_returns [where rank = "\<lambda>l. if l = StringLocation ''B'' then 1 else 0"])
  show "ranked_imports chain_env (\<lambda>l. if l = StringLocation ''B'' then 1 else 0)"
    by (auto simp: ranked_imports_def demo_defs split: if_splits list.splits location.splits)
qed auto

text \<open>
  More fuel never changes an analysis: what a run of the import handler returned with some
  fuel it returns with any larger amount, so the fuel is only a bound on the nesting of imports.
\<close>

theorem import_fuel_irrelevant:
  assumes "handle_import env root fuel l st = Some x"
  shows "handle_import env root (fuel + n) l st = Some x"
  using assms by (induction n) (auto simp del: handle_import.simps intro: handle_import_mono)

theorem import_fuel_irrelevant_witness:
  "handle_import chain_env ''A'' (1 + 5) (StringLocation ''C'') demo_start =
   handle_import chain_env ''A'' 1 (StringLocation ''C'') demo_start"
proof -
  have "\<exists>x. handle_import chain_env ''A'' 1 (StringLocation ''C'') demo_start = Some x"
    by (simp add: Let_def demo_defs split: option.split)
  then show ?thesis using import_fuel_irrelevant [of chain_env "''A''" 1 _ _ _ 5] by fastforce
qed

text \<open>
  C14. Import cycles: when every file of a set first imports a file of the set and none of them
  is cached, the import handler does not return, whatever the fuel. The handler caches a file
  only after checking it and has no guard against the file being checked already.
\<close>

theorem import_cycle_never_returns:
  assumes "import_cycle env L" and "shared_wf st"
    and "\<forall>l \<in> L. lru_peek (sh_cache st) (loc_id env l) = None" and "l \<in> L"
  shows "handle_import env root fuel l st = None"
  using handle_import_diverges [OF assms(1)] assms by blast

theorem import_cycle_never_returns_witness:
  "handle_import (demo_env (\<lambda>f. if f = ''A'' then ''B'' else ''A'')) ''A'' 1000 (StringLocation ''B'') demo_start = None"
proof (rule import_cycle_never_returns [where L = "{StringLocation ''A'', StringLocation ''B''}"])
  show "import_cycle (demo_env (\<lambda>f. if f = ''A'' then ''B'' else ''A'')) {StringLocation ''A'', StringLocation ''B''}"
    by (auto simp: import_cycle_def demo_defs)
  show "\<forall>l \<in> {StringLocation ''A'', StringLocation ''B''}.
      lru_peek (sh_cache demo_start) (loc_id (demo_env (\<lambda>f. if f = ''A'' then ''B'' else ''A'')) l) = None"
    by (simp add: demo_start_def lru_peek_def lru_get_def new_lru_def)
qed simp_all

text \<open>
  Cancellation: an analysis that was cancelled before or during parsing leaves the cache,
  the graph and the resolver untouched; a cancelled analysis never delivers a checker; and one
  that delivers a checker was not cancelled at any poll and has put exactly this checker, valid,
  in the cache under the document's key.
\<close>

theorem analyze_cancellation:
  assumes "analyze env fuel cancelled ds u st = Some (res, st')" and "shared_wf st"
  shows "(cancelled 0 \<or> cancelled 1 \<longrightarrow> st' = st) \<and>
         (res_cancelled res \<longrightarrow> res_checker res = None) \<and>
         (\<forall>c. res_checker res = Some c \<longrightarrow>
            \<not> cancelled 0 \<and> \<not> cancelled 1 \<and> \<not> cancelled 2 \<and> doc_get ds u \<noteq> None \<and>
            lru_peek (sh_cache st') (loc_id env (StringLocation u)) =
              Some \<lparr>ce_checker = Some c, ce_valid = True\<rparr>)"
  using analyze_cases [OF assms(1)]
proof (elim disjE exE conjE)
  fix prog c e st1
  assume a: "\<not> cancelled 0" "\<not> cancelled 1" "doc_get ds u \<noteq> None"
    and run: "run_checker (check_program (api env) prog (StringLocation u))
          (handle_import env (loc_id env (StringLocation u)) fuel) st = Some ((c, e), st1)"
    and out: "if cancelled 2 then st' = st1 \<and> res_cancelled res \<and> res_checker res = None
         else st' = put_checker (loc_id env (StringLocation u)) c st1 \<and>
              res_checker res = Some c \<and> \<not> res_cancelled res"
  have "lru_wf (sh_cache st1)" using run_checker_wf [OF run assms(2)] by (simp add: shared_wf_def)
  with a out show ?thesis by (auto simp: put_checker_def cache.peek_put_same split: if_splits)
qed auto

theorem analyze_cancellation_witness:
  "\<exists>res. analyze chain_env 9 (\<lambda>_. True) [] ''A'' demo_start = Some (res, demo_start) \<and>
     res_cancelled res \<and> res_checker res = None"
proof -
  let ?res = "(empty_result ''A'' :: (string, string) analysis_result)\<lparr>res_cancelled := True\<rparr>"
  have run: "analyze chain_env 9 (\<lambda>_. True) [] ''A'' demo_start = Some (?res, demo_start)"
    by (simp add: analyze_def)
  have "res_cancelled ?res" by simp
  with run analyze_cancellation [OF run shared_wf_demo] show ?thesis by blast
qed

text \<open>
  Every import that was served during an analysis, to the document itself or to one of its
  imports, is recorded as an edge from the document, so updating the imported file evicts the
  document's cached checker.
\<close>

theorem served_imports_invalidate_document:
  assumes "run_checker run (handle_import env root fuel) st = Some (out, st')" and "shared_wf st"
    and "(l, ImportOk c) \<in> set (run_log run (handle_import env root fuel) st)"
  shows "(root, loc_id env l) \<in> imports_rel (sh_graph st') \<and>
         lru_peek (evict_affected (sh_graph st') (loc_id env l) (sh_cache st')) root = None"
proof -
  have edge: "(root, loc_id env l) \<in> imports_rel (sh_graph st')" by (rule run_log_edges [OF assms(1,3)])
  moreover have "shared_wf st'" by (rule run_checker_wf [OF assms(1,2)])
  ultimately show ?thesis by (simp add: shared_wf_def peek_evict_affected r_into_rtrancl)
qed

theorem served_imports_invalidate_document_witness:
  "\<exists>out st'. run_checker (Request (StringLocation ''C'') (\<lambda>r. Finished ''x'' None))
      (handle_import chain_env ''A'' 1) demo_start = Some (out, st') \<and>
    (''A'', ''C'') \<in> imports_rel (sh_graph st')"
proof -
  let ?run = "Request (StringLocation ''C'') (\<lambda>r. Finished ''x'' None) :: string check_run"
  obtain st' where h: "handle_import chain_env ''A'' 1 (StringLocation ''C'') demo_start = Some (ImportOk '''', st')"
    by (simp add: Let_def demo_defs lru_get_def new_lru_def usable_entry_def canonical_cache_key_def)
  then have run: "run_checker ?run (handle_import chain_env ''A'' 1) demo_start = Some ((''x'', None), st')"
    and log: "(StringLocation ''C'', ImportOk '''') \<in> set (run_log ?run (handle_import chain_env ''A'' 1) demo_start)"
    by (simp_all del: handle_import.simps)
  from served_imports_invalidate_document [OF run shared_wf_demo log] run show ?thesis
    by (auto simp: demo_defs)
qed

text \<open>
  Imports of imports are recorded as imports of the document under analysis only. So,
  starting from an empty graph, the checker cached for an imported file survives the update of
  any other file, including files it was itself built from: the cached checker is stale.
\<close>

theorem imported_checker_survives_update:
  assumes "analyze env fuel cancelled ds u st = Some (res, st')" and "shared_wf st"
    and "imports_rel (sh_graph st) = {}" and "k \<noteq> loc_id env (StringLocation u)"
    and "k \<noteq> changed" and "lru_peek (sh_cache st') k = Some entry"
  shows "lru_peek (evict_affected (sh_graph st') changed (sh_cache st')) k = Some entry"
proof -
  have "imports_rel (sh_graph st') \<subseteq> {loc_id env (StringLocation u)} \<times> UNIV"
    using analyze_edges [OF assms(1)] assms(3) by (auto simp: edges_from_root_def)
  then have "(k, changed) \<notin> (imports_rel (sh_graph st'))\<^sup>*"
    using assms(4,5) by (auto elim: converse_rtranclE)
  moreover have "shared_wf st'" by (rule analyze_wf [OF assms(1,2)])
  ultimately show ?thesis using assms(6) by (simp add: shared_wf_def peek_evict_affected)
qed

text \<open>
  The witness: A imports B and B imports C. After A is analyzed, the checker cached for B contains
  C's text, and the update of C leaves it in the cache.
\<close>

definition chain_docs :: doc_store where
  "chain_docs = [(''A'', \<lparr>doc_text = ''B'', doc_version = 1\<rparr>)]"

definition stale_env :: "(string, string, nat) env" where
  "stale_env = demo_env (\<lambda>f. if f = ''B'' then ''Cb'' else '''')"

theorem imported_checker_survives_update_witness:
  "\<exists>res st'. analyze stale_env 3 (\<lambda>_. False) chain_docs ''A'' demo_start = Some (res, st') \<and>
     lru_peek (evict_affected (sh_graph st') ''C'' (sh_cache st')) ''B'' =
       Some \<lparr>ce_checker = Some ''Cb'', ce_valid = True\<rparr>"
proof -
  have "case analyze stale_env 3 (\<lambda>_. False) chain_docs ''A'' demo_start of None \<Rightarrow> False
      | Some (res, st') \<Rightarrow> lru_peek (sh_cache st') ''B'' = Some \<lparr>ce_checker = Some ''Cb'', ce_valid = True\<rparr>"
    by code_simp
  then obtain res st' where a: "analyze stale_env 3 (\<lambda>_. False) chain_docs ''A'' demo_start = Some (res, st')"
    "lru_peek (sh_cache st') ''B'' = Some \<lparr>ce_checker = Some ''Cb'', ce_valid = True\<rparr>"
    by (auto split: option.splits prod.splits)
  have "lru_peek (evict_affected (sh_graph st') ''C'' (sh_cache st')) ''B'' =
       Some \<lparr>ce_checker = Some ''Cb'', ce_valid = True\<rparr>"
    by (rule imported_checker_survives_update [OF a(1) shared_wf_demo _ _ _ a(2)])
       (simp_all add: stale_env_def demo_defs)
  with a(1) show ?thesis by blast
qed

end
