(* ===== verification/Protocol.thy ===== *)
theory Protocol
  imports Analysis
begin

text \<open>
  The part of the language server protocol's types the handlers use
  (src/languageserver/protocol/types.go), with the order on positions and the overlap test of
  src/languageserver/protocol/range.go. Positions are pairs of 32-bit unsigned integers; their
  comparison function is the three-way form of a linear order, which the instantiation makes
  available to the library's automation.
\<close>

section \<open>Positions and ranges\<close>

datatype position = Position (line: u32) (character: u32)

instantiation position :: linorder
begin

definition less_eq_position :: "position \<Rightarrow> position \<Rightarrow> bool" where
  "less_eq_position p q \<longleftrightarrow> line p < line q \<or> (line p = line q \<and> character p \<le> character q)"

definition less_position :: "position \<Rightarrow> position \<Rightarrow> bool" where
  "less_position p q \<longleftrightarrow> line p < line q \<or> (line p = line q \<and> character p < character q)"

instance
proof
  fix x y z :: position
  show "x < y \<longleftrightarrow> x \<le> y \<and> \<not> y \<le> x" "x \<le> x" "x \<le> y \<or> y \<le> x"
    by (auto simp: less_eq_position_def less_position_def)
  show "x \<le> y \<Longrightarrow> y \<le> z \<Longrightarrow> x \<le> z" by (auto simp: less_eq_position_def)
  show "x \<le> y \<Longrightarrow> y \<le> x \<Longrightarrow> x = y"
    by (cases x; cases y) (auto simp: less_eq_position_def)
qed

end

definition compare_pos :: "position \<Rightarrow> position \<Rightarrow> int" where
  "compare_pos p q =
     (if line p < line q then -1
      else if line p > line q then 1
      else if character p < character q then -1
      else if character p > character q then 1
      else 0)"

lemma compare_pos_order [simp]:
  "compare_pos p q < 0 \<longleftrightarrow> p < q" "compare_pos p q > 0 \<longleftrightarrow> q < p"
  "compare_pos p q \<le> 0 \<longleftrightarrow> p \<le> q" "compare_pos p q \<ge> 0 \<longleftrightarrow> q \<le> p"
  "compare_pos p q = 0 \<longleftrightarrow> p = q"
  by (cases p; cases q; auto simp: compare_pos_def less_position_def less_eq_position_def)+

datatype range = Range (range_start: position) (range_end: position)

definition overlaps :: "range \<Rightarrow> range \<Rightarrow> bool" where
  "overlaps r s \<longleftrightarrow> compare_pos (range_start r) (range_end s) \<le> 0 \<and>
                   compare_pos (range_end r) (range_start s) \<ge> 0"

section \<open>Edits, actions, symbols, items\<close>

record text_edit =
  edit_range :: range
  new_text :: string

type_synonym workspace_edit = "(uri, text_edit list) gomap"

record proto_diagnostic =
  pd_range :: range
  pd_severity :: u32
  pd_source :: string
  pd_message :: string
  pd_data :: "string option"

record code_action =
  ca_title :: string
  ca_kind :: string
  ca_diagnostics :: "proto_diagnostic list"
  ca_edit :: workspace_edit

record proto_location =
  loc_uri :: uri
  loc_range :: range

datatype symbol_kind = SK_None | SK_Namespace | SK_Class | SK_Field | SK_Constructor
  | SK_Interface | SK_Function | SK_Variable | SK_Constant

text \<open>The numbers of the protocol; the zero value is sent for kinds that are not mapped.\<close>

fun symbol_kind_number :: "symbol_kind \<Rightarrow> nat" where
  "symbol_kind_number SK_None = 0"
| "symbol_kind_number SK_Namespace = 3"
| "symbol_kind_number SK_Class = 5"
| "symbol_kind_number SK_Field = 8"
| "symbol_kind_number SK_Constructor = 9"
| "symbol_kind_number SK_Interface = 11"
| "symbol_kind_number SK_Function = 12"
| "symbol_kind_number SK_Variable = 13"
| "symbol_kind_number SK_Constant = 14"

datatype document_symbol = DocumentSymbol (sym_name: string) (sym_kind: symbol_kind)
  (sym_range: range) (sym_selection: range) (sym_children: "document_symbol list")

datatype completion_kind = CK_Text | CK_Function | CK_Constructor | CK_Field | CK_Variable
  | CK_Class | CK_Interface | CK_Keyword | CK_Constant

datatype markup = Markup string string | PlainDoc string

datatype item_data = NoData | ItemData string string | RawMap "(string \<times> json) list" | OtherData

record completion_item =
  ci_label :: string
  ci_kind :: completion_kind
  ci_detail :: string
  ci_insert_text :: string
  ci_snippet :: bool
  ci_sort_text :: string
  ci_commit_characters :: "string list"
  ci_deprecated :: bool
  ci_command :: "string option"
  ci_documentation :: "markup option"
  ci_data :: item_data

section \<open>Properties\<close>

text \<open>
  The three-way comparison of positions is that of a linear order (antisymmetric, transitive,
  total, with zero exactly on equal positions), and the overlap test is symmetric and holds
  exactly when the two closed ranges share a position, for ranges that do not end before
  they start.
\<close>

theorem overlaps_iff_common_position:
  assumes "range_start r \<le> range_end r" and "range_start s \<le> range_end s"
  shows "(overlaps r s \<longleftrightarrow>
           (\<exists>p. range_start r \<le> p \<and> p \<le> range_end r \<and> range_start s \<le> p \<and> p \<le> range_end s)) \<and>
         overlaps r s = overlaps s r"
proof -
  have "overlaps r s \<longleftrightarrow> range_start r \<le> range_end s \<and> range_start s \<le> range_end r"
    by (simp add: overlaps_def)
  moreover have "\<dots> \<longleftrightarrow>
      (\<exists>p. range_start r \<le> p \<and> p \<le> range_end r \<and> range_start s \<le> p \<and> p \<le> range_end s)"
    using assms by (auto intro: exI [of _ "max (range_start r) (range_start s)"] dest: order_trans)
  ultimately show ?thesis by (auto simp: overlaps_def)
qed

theorem overlaps_iff_common_position_witness:
  "overlaps (Range (Position 1 2) (Position 1 5)) (Range (Position 1 5) (Position 2 0)) =
   overlaps (Range (Position 1 5) (Position 2 0)) (Range (Position 1 2) (Position 1 5))"
proof -
  have "range_start (Range (Position 1 2) (Position 1 5)) \<le> range_end (Range (Position 1 2) (Position 1 5))"
    "range_start (Range (Position 1 5) (Position 2 0)) \<le> range_end (Range (Position 1 5) (Position 2 0))"
    by (simp_all add: less_eq_position_def)
  from overlaps_iff_common_position [OF this] show ?thesis by blast
qed

end
