(* ===== verification/Conversion.thy ===== *)
theory Conversion
  imports Protocol
begin

text \<open>
  Conversions between Cadence's positions and declarations and the protocol's
  (src/languageserver/conversion/conversion.go). Cadence lines are 1-based machine integers, the
  protocol's are 0-based and 32 bits wide, so the conversions wrap around exactly where the
  code's \<^verbatim>\<open>uint32\<close> conversions do. Semantic positions are lines and columns.
\<close>

section \<open>Positions\<close>

record sema_pos =
  sp_line :: int
  sp_column :: int

definition ast_to_protocol_position :: "ast_pos \<Rightarrow> position" where
  "ast_to_protocol_position p = Position (word_of_int (pos_line p - 1)) (word_of_int (pos_column p))"

text \<open>\<^verbatim>\<open>Position.Shifted\<close> of the Cadence library: offset and column move, the line stays.\<close>

definition shifted :: "ast_pos \<Rightarrow> int \<Rightarrow> ast_pos" where
  "shifted p n = p\<lparr>pos_offset := pos_offset p + n, pos_column := pos_column p + n\<rparr>"

definition ast_to_protocol_range :: "ast_pos \<Rightarrow> ast_pos \<Rightarrow> range" where
  "ast_to_protocol_range s e =
     Range (ast_to_protocol_position s) (ast_to_protocol_position (shifted e 1))"

definition sema_to_protocol_position :: "sema_pos \<Rightarrow> position" where
  "sema_to_protocol_position p = Position (word_of_int (sp_line p - 1)) (word_of_int (sp_column p))"

definition sema_to_protocol_range :: "sema_pos \<Rightarrow> sema_pos \<Rightarrow> range" where
  "sema_to_protocol_range s e =
     Range (sema_to_protocol_position s)
           (sema_to_protocol_position \<lparr>sp_line = sp_line e, sp_column = sp_column e + 1\<rparr>)"

definition protocol_to_sema_position :: "position \<Rightarrow> sema_pos" where
  "protocol_to_sema_position p =
     \<lparr>sp_line = uint (line p + 1), sp_column = uint (character p)\<rparr>"

section \<open>Kinds\<close>

datatype decl_kind = DK_Function | DK_Field | DK_Constant | DK_Parameter | DK_Variable
  | DK_Initializer | DK_Structure | DK_Resource | DK_Event | DK_Contract | DK_Type
  | DK_StructureInterface | DK_ResourceInterface | DK_ContractInterface | DK_Transaction
  | DK_Other nat

fun declaration_kind_to_symbol_kind :: "decl_kind \<Rightarrow> symbol_kind" where
  "declaration_kind_to_symbol_kind DK_Function = SK_Function"
| "declaration_kind_to_symbol_kind DK_Field = SK_Field"
| "declaration_kind_to_symbol_kind DK_Constant = SK_Constant"
| "declaration_kind_to_symbol_kind DK_Parameter = SK_Constant"
| "declaration_kind_to_symbol_kind DK_Variable = SK_Variable"
| "declaration_kind_to_symbol_kind DK_Initializer = SK_Constructor"
| "declaration_kind_to_symbol_kind DK_Structure = SK_Class"
| "declaration_kind_to_symbol_kind DK_Resource = SK_Class"
| "declaration_kind_to_symbol_kind DK_Event = SK_Class"
| "declaration_kind_to_symbol_kind DK_Contract = SK_Class"
| "declaration_kind_to_symbol_kind DK_Type = SK_Class"
| "declaration_kind_to_symbol_kind DK_StructureInterface = SK_Interface"
| "declaration_kind_to_symbol_kind DK_ResourceInterface = SK_Interface"
| "declaration_kind_to_symbol_kind DK_ContractInterface = SK_Interface"
| "declaration_kind_to_symbol_kind DK_Transaction = SK_Namespace"
| "declaration_kind_to_symbol_kind (DK_Other n) = SK_None"

fun declaration_kind_to_completion_kind :: "decl_kind \<Rightarrow> completion_kind" where
  "declaration_kind_to_completion_kind DK_Function = CK_Function"
| "declaration_kind_to_completion_kind DK_Field = CK_Field"
| "declaration_kind_to_completion_kind DK_Structure = CK_Class"
| "declaration_kind_to_completion_kind DK_Resource = CK_Class"
| "declaration_kind_to_completion_kind DK_Event = CK_Class"
| "declaration_kind_to_completion_kind DK_Contract = CK_Class"
| "declaration_kind_to_completion_kind DK_Type = CK_Class"
| "declaration_kind_to_completion_kind DK_StructureInterface = CK_Interface"
| "declaration_kind_to_completion_kind DK_ResourceInterface = CK_Interface"
| "declaration_kind_to_completion_kind DK_ContractInterface = CK_Interface"
| "declaration_kind_to_completion_kind DK_Variable = CK_Variable"
| "declaration_kind_to_completion_kind DK_Constant = CK_Constant"
| "declaration_kind_to_completion_kind DK_Parameter = CK_Constant"
| "declaration_kind_to_completion_kind _ = CK_Text"

section \<open>Declarations and document symbols\<close>

text \<open>A declaration as the code reads it: kind, identifier, extent, members.\<close>

datatype ident = Ident (id_name: string) (id_start: ast_pos) (id_end: ast_pos)

datatype decl = Decl (decl_kind: decl_kind) (decl_identifier: "ident option")
  (decl_start: ast_pos) (decl_end: ast_pos) (decl_members: "decl list option")

text \<open>\<open>keywords\<close> is the Cadence library's name of a kind, used for anonymous declarations.\<close>

definition symbol_name_selection ::
    "(decl_kind \<Rightarrow> string) \<Rightarrow> decl_kind \<Rightarrow> ident option \<Rightarrow> ast_pos \<Rightarrow> string \<times> range" where
  "symbol_name_selection keywords k idopt s =
     (case idopt of
        Some i \<Rightarrow>
          (if id_name i \<noteq> '''' then (id_name i, ast_to_protocol_range (id_start i) (id_end i))
           else (keywords k, Range (ast_to_protocol_position s) (ast_to_protocol_position s)))
      | None \<Rightarrow> (keywords k, Range (ast_to_protocol_position s) (ast_to_protocol_position s)))"

fun declaration_to_document_symbol :: "(decl_kind \<Rightarrow> string) \<Rightarrow> decl \<Rightarrow> document_symbol" where
  "declaration_to_document_symbol keywords (Decl k i s e members) =
     DocumentSymbol (fst (symbol_name_selection keywords k i s))
       (declaration_kind_to_symbol_kind k)
       (ast_to_protocol_range s e)
       (snd (symbol_name_selection keywords k i s))
       (case members of None \<Rightarrow> []
          | Some ds \<Rightarrow> map (declaration_to_document_symbol keywords) ds)"

section \<open>Suggested fixes\<close>

record suggested_edit =
  sg_insertion :: string
  sg_replacement :: string
  sg_start :: ast_pos
  sg_end :: ast_pos

record suggested_fix =
  sf_message :: string
  sf_edits :: "suggested_edit list"

definition suggested_edit_to_text_edit :: "suggested_edit \<Rightarrow> text_edit" where
  "suggested_edit_to_text_edit e =
     (if length (sg_insertion e) > 0
      then \<lparr>edit_range = Range (ast_to_protocol_position (sg_start e)) (ast_to_protocol_position (sg_end e)),
            new_text = sg_insertion e\<rparr>
      else \<lparr>edit_range = ast_to_protocol_range (sg_start e) (sg_end e),
            new_text = sg_replacement e\<rparr>)"

definition suggested_fixes_to_code_actions ::
    "suggested_fix list \<Rightarrow> proto_diagnostic \<Rightarrow> uri \<Rightarrow> code_action list" where
  "suggested_fixes_to_code_actions fixes d u =
     map (\<lambda>f. \<lparr>ca_title = sf_message f, ca_kind = ''quickfix'', ca_diagnostics = [d],
                ca_edit = [(u, map suggested_edit_to_text_edit (sf_edits f))]\<rparr>) fixes"

section \<open>Properties\<close>

fun symbol_shape :: "document_symbol \<Rightarrow> nat" where
  "symbol_shape (DocumentSymbol n k r s cs) = Suc (sum_list (map symbol_shape cs))"

fun decl_shape :: "decl \<Rightarrow> nat" where
  "decl_shape (Decl k i s e members) =
     Suc (case members of None \<Rightarrow> 0 | Some ds \<Rightarrow> sum_list (map decl_shape ds))"

lemma uint_sub_1: "word_of_int (uint (w + 1) - 1) = (w :: u32)"
  by (simp add: of_int_diff)

lemma uint_word_u32: "0 \<le> n \<Longrightarrow> n < 4294967296 \<Longrightarrow> uint (word_of_int n :: u32) = n"
  by (simp add: uint_word_of_int)

text \<open>
  Converting a protocol position to a Cadence position and back is the identity on every
  position, the last line number included (the increment wraps around and is undone); in the
  other direction it is the identity on lines from 1 to 4294967295 and columns below 4294967296.
\<close>

theorem position_roundtrip:
  "sema_to_protocol_position (protocol_to_sema_position p) = p \<and>
   (1 \<le> sp_line s \<and> sp_line s < 4294967296 \<and> 0 \<le> sp_column s \<and> sp_column s < 4294967296 \<longrightarrow>
    protocol_to_sema_position (sema_to_protocol_position s) = s)"
proof (intro conjI impI)
  show "sema_to_protocol_position (protocol_to_sema_position p) = p"
    by (cases p) (simp add: sema_to_protocol_position_def protocol_to_sema_position_def uint_sub_1)
next
  assume b: "1 \<le> sp_line s \<and> sp_line s < 4294967296 \<and> 0 \<le> sp_column s \<and> sp_column s < 4294967296"
  have "(word_of_int (sp_line s - 1) :: u32) + 1 = word_of_int (sp_line s)" by (simp add: of_int_diff)
  with b show "protocol_to_sema_position (sema_to_protocol_position s) = s"
    by (cases s) (simp add: sema_to_protocol_position_def protocol_to_sema_position_def uint_word_u32)
qed

theorem position_roundtrip_witness:
  "protocol_to_sema_position (sema_to_protocol_position \<lparr>sp_line = 7, sp_column = 3\<rparr>) =
     \<lparr>sp_line = 7, sp_column = 3\<rparr>"
  using position_roundtrip [of "Position 0 0" "\<lparr>sp_line = 7, sp_column = 3\<rparr>"] by simp

text \<open>
  The document symbol of a declaration has one symbol per declaration of the tree, in the
  same nesting, and its name is the identifier when there is a non-empty one and the kind's
  keywords otherwise.
\<close>

theorem document_symbol_mirrors_declaration:
  "symbol_shape (declaration_to_document_symbol kw d) = decl_shape d \<and>
   length (sym_children (declaration_to_document_symbol kw d)) =
     (case decl_members d of None \<Rightarrow> 0 | Some ds \<Rightarrow> length ds) \<and>
   sym_name (declaration_to_document_symbol kw d) =
     (case decl_identifier d of
        Some i \<Rightarrow> if id_name i = '''' then kw (decl_kind d) else id_name i
      | None \<Rightarrow> kw (decl_kind d))"
proof -
  have "symbol_shape (declaration_to_document_symbol kw d) = decl_shape d"
  proof (induction kw d rule: declaration_to_document_symbol.induct)
    case (1 kw k i s e members)
    then show ?case
      by (auto simp: comp_def split: option.splits intro!: arg_cong [where f = sum_list])
  qed
  then show ?thesis by (cases d) (auto simp: symbol_name_selection_def split: option.splits)
qed

end
