(* ===== verification/SemTokens.thy ===== *)
theory SemTokens
  imports Conversion "HOL-Library.Multiset"
begin

text \<open>
  Semantic tokens (src/languageserver/server2/semantic_tokens.go): tokens are collected from the
  elements of the program in the order the library's traversal visits them, sorted by position
  and delta-encoded into an array of 32-bit integers, five per token. All arithmetic is on
  \<open>32 word\<close>, so the subtractions wrap around as they do in the code. The decoder is the
  client's reading of the protocol and serves as the specification.
\<close>

section \<open>Tokens\<close>

record raw_token =
  tk_line :: u32
  tk_start :: u32
  tk_length :: u32
  tk_type :: u32
  tk_modifiers :: u32

text \<open>The legend sent to the client; a token type is an index into it.\<close>

definition semantic_token_types :: "string list" where
  "semantic_token_types =
     [''namespace'', ''type'', ''class'', ''enum'', ''interface'', ''struct'', ''parameter'',
      ''variable'', ''property'', ''function'', ''keyword'', ''comment'', ''string'', ''number'',
      ''operator'', ''decorator'', ''event'']"

definition semantic_token_modifiers :: "string list" where
  "semantic_token_modifiers = [''declaration'', ''definition'', ''readonly'', ''deprecated'']"

definition token_namespace :: u32 where "token_namespace = 0"
definition token_type_type :: u32 where "token_type_type = 1"
definition token_class :: u32 where "token_class = 2"
definition token_enum :: u32 where "token_enum = 3"
definition token_interface :: u32 where "token_interface = 4"
definition token_struct :: u32 where "token_struct = 5"
definition token_variable :: u32 where "token_variable = 7"
definition token_property :: u32 where "token_property = 8"
definition token_function :: u32 where "token_function = 9"
definition token_keyword :: u32 where "token_keyword = 10"
definition token_string :: u32 where "token_string = 12"
definition token_number :: u32 where "token_number = 13"
definition token_event :: u32 where "token_event = 16"

lemmas token_type_defs = token_namespace_def token_type_type_def token_class_def token_enum_def
  token_interface_def token_struct_def token_variable_def token_property_def token_function_def
  token_keyword_def token_string_def token_number_def token_event_def

definition mod_declaration :: u32 where "mod_declaration = push_bit 0 1"
definition mod_readonly :: u32 where "mod_readonly = push_bit 2 1"

section \<open>Encoding\<close>

text \<open>
  \<^verbatim>\<open>sort.Slice\<close> sorts by line, then start; tokens at equal positions may come out in any
  order, and the model's sort keeps theirs. The key is the position pair.
\<close>

definition token_pos :: "raw_token \<Rightarrow> position" where
  "token_pos t = Position (tk_line t) (tk_start t)"

fun encode_loop :: "u32 \<Rightarrow> u32 \<Rightarrow> raw_token list \<Rightarrow> u32 list" where
  "encode_loop prev_line prev_char [] = []"
| "encode_loop prev_line prev_char (tok # toks) =
     (let delta_line = tk_line tok - prev_line;
          delta_char = (if delta_line = 0 then tk_start tok - prev_char else tk_start tok)
      in [delta_line, delta_char, tk_length tok, tk_type tok, tk_modifiers tok] @
         encode_loop (tk_line tok) (tk_start tok) toks)"

definition encode_semantic_tokens :: "raw_token list \<Rightarrow> u32 list" where
  "encode_semantic_tokens tokens = encode_loop 0 0 (sort_key token_pos tokens)"

section \<open>Collecting\<close>

text \<open>
  A token for the span from \<open>s\<close> to the inclusive end \<open>e\<close>; a span over several lines is
  approximated, and an empty length becomes one.
\<close>

definition make_token :: "ast_pos \<Rightarrow> ast_pos \<Rightarrow> u32 \<Rightarrow> u32 \<Rightarrow> raw_token" where
  "make_token s e ty mods =
     (let ps = ast_to_protocol_position s;
          pe = ast_to_protocol_position (shifted e 1);
          len = (if line ps = line pe then character pe - character ps else character pe)
      in \<lparr>tk_line = line ps, tk_start = character ps, tk_length = (if len = 0 then 1 else len),
          tk_type = ty, tk_modifiers = mods\<rparr>)"

datatype composite_kind = CompResource | CompStructure | CompContract | CompEnum | CompEvent
  | CompOther nat

fun composite_token_type :: "composite_kind \<Rightarrow> u32" where
  "composite_token_type CompResource = token_class"
| "composite_token_type CompStructure = token_struct"
| "composite_token_type CompContract = token_namespace"
| "composite_token_type CompEnum = token_enum"
| "composite_token_type CompEvent = token_event"
| "composite_token_type (CompOther n) = token_type_type"

text \<open>
  The elements the traversal's callback distinguishes, with what it reads of them: an identifier
  or the span of a literal. Other elements give no token.
\<close>

datatype sem_element =
    EFunction ident
  | ESpecialFunction ident
  | EComposite composite_kind ident
  | EInterface ident
  | EEnumCase ident
  | EVariable bool ident
  | EField ident
  | EInteger ast_pos ast_pos
  | EFixedPoint ast_pos ast_pos
  | EString ast_pos ast_pos
  | EBool ast_pos ast_pos
  | ENil ast_pos ast_pos
  | EOther

definition ident_token :: "ident \<Rightarrow> u32 \<Rightarrow> u32 \<Rightarrow> raw_token" where
  "ident_token i ty mods = make_token (id_start i) (id_end i) ty mods"

fun element_tokens :: "sem_element \<Rightarrow> raw_token list" where
  "element_tokens (EFunction i) = [ident_token i token_function mod_declaration]"
| "element_tokens (ESpecialFunction i) =
     (if id_name i \<noteq> '''' then [ident_token i token_function mod_declaration] else [])"
| "element_tokens (EComposite k i) = [ident_token i (composite_token_type k) mod_declaration]"
| "element_tokens (EInterface i) = [ident_token i token_interface mod_declaration]"
| "element_tokens (EEnumCase i) = [ident_token i token_enum 0]"
| "element_tokens (EVariable is_constant i) =
     [ident_token i token_variable
        (if is_constant then or mod_declaration mod_readonly else mod_declaration)]"
| "element_tokens (EField i) = [ident_token i token_property mod_declaration]"
| "element_tokens (EInteger s e) = [make_token s e token_number 0]"
| "element_tokens (EFixedPoint s e) = [make_token s e token_number 0]"
| "element_tokens (EString s e) = [make_token s e token_string 0]"
| "element_tokens (EBool s e) = [make_token s e token_keyword 0]"
| "element_tokens (ENil s e) = [make_token s e token_keyword 0]"
| "element_tokens EOther = []"

text \<open>The callback appends to the token list and always descends, so it sees every element.\<close>

fun collect_loop :: "sem_element list \<Rightarrow> raw_token list \<Rightarrow> raw_token list" where
  "collect_loop [] tokens = tokens"
| "collect_loop (el # els) tokens = collect_loop els (tokens @ element_tokens el)"

definition collect_semantic_tokens :: "sem_element list \<Rightarrow> raw_token list" where
  "collect_semantic_tokens visited = collect_loop visited []"

section \<open>The client's decoder\<close>

fun decode_loop :: "u32 \<Rightarrow> u32 \<Rightarrow> u32 list \<Rightarrow> raw_token list" where
  "decode_loop l c (dl # dc # len # ty # mods # rest) =
     (let l' = l + dl; c' = (if dl = 0 then c + dc else dc)
      in \<lparr>tk_line = l', tk_start = c', tk_length = len, tk_type = ty, tk_modifiers = mods\<rparr> #
         decode_loop l' c' rest)"
| "decode_loop l c _ = []"

definition decode_semantic_tokens :: "u32 list \<Rightarrow> raw_token list" where
  "decode_semantic_tokens data = decode_loop 0 0 data"

lemma decode_encode_loop: "decode_loop l c (encode_loop l c toks) = toks"
  by (induction toks arbitrary: l c) (auto simp: Let_def)

lemma length_encode_loop: "length (encode_loop l c toks) = 5 * length toks"
  by (induction toks arbitrary: l c) (simp_all add: Let_def)

lemma collect_loop_append: "collect_loop els toks = toks @ concat (map element_tokens els)"
  by (induction els toks rule: collect_loop.induct) simp_all

lemma tk_length_make_token: "tk_length (make_token s e ty m) \<noteq> 0"
  by (simp add: make_token_def Let_def)

lemma tk_make_token [simp]: "tk_type (make_token s e ty m) = ty" "tk_modifiers (make_token s e ty m) = m"
  by (simp_all add: make_token_def Let_def)

lemma composite_token_type_legend: "unat (composite_token_type k) < 17"
  by (cases k) (simp_all add: token_type_defs)

lemma length_legend [simp]: "length semantic_token_types = 17" "length semantic_token_modifiers = 4"
  by (simp_all add: semantic_token_types_def semantic_token_modifiers_def)

lemma element_tokens_legend:
  "t \<in> set (element_tokens el) \<Longrightarrow>
   unat (tk_type t) < length semantic_token_types \<and> tk_modifiers t < 16 \<and> tk_length t \<noteq> 0"
  by (cases el rule: element_tokens.cases)
     (auto simp: ident_token_def tk_length_make_token token_type_defs
        mod_declaration_def mod_readonly_def composite_token_type_legend split: if_splits)

section \<open>Properties\<close>

text \<open>
  C12. Round trip: a client that decodes the array gets exactly the tokens, ordered by position,
  whatever their number and positions (the wrap-around of the deltas is undone by the decoder's);
  the array has five entries per token.
\<close>

theorem semantic_tokens_roundtrip:
  "decode_semantic_tokens (encode_semantic_tokens toks) = sort_key token_pos toks \<and>
   mset (decode_semantic_tokens (encode_semantic_tokens toks)) = mset toks \<and>
   sorted (map token_pos (decode_semantic_tokens (encode_semantic_tokens toks))) \<and>
   length (encode_semantic_tokens toks) = 5 * length toks"
  by (simp add: decode_semantic_tokens_def encode_semantic_tokens_def decode_encode_loop
      length_encode_loop)

text \<open>
  On sorted tokens no delta wraps around: the line deltas add up to the last token's line
  without overflow, and a delta is the true difference of the two positions.
\<close>

theorem sorted_deltas_do_not_wrap:
  assumes "sorted (map token_pos (t1 # t2 # toks))"
  shows "unat (tk_line t2 - tk_line t1) = unat (tk_line t2) - unat (tk_line t1) \<and>
         (tk_line t2 = tk_line t1 \<longrightarrow>
            unat (tk_start t2 - tk_start t1) = unat (tk_start t2) - unat (tk_start t1)) \<and>
         take 2 (drop 5 (encode_loop l c (t1 # t2 # toks))) =
           [tk_line t2 - tk_line t1,
            if tk_line t2 = tk_line t1 then tk_start t2 - tk_start t1 else tk_start t2]"
proof -
  have le: "tk_line t1 < tk_line t2 \<or> tk_line t1 = tk_line t2 \<and> tk_start t1 \<le> tk_start t2"
    using assms by (simp add: token_pos_def less_eq_position_def)
  then have "unat (tk_line t2 - tk_line t1) = unat (tk_line t2) - unat (tk_line t1)"
    by (metis less_imp_le order_refl unat_sub)
  moreover have "tk_line t2 = tk_line t1 \<longrightarrow>
      unat (tk_start t2 - tk_start t1) = unat (tk_start t2) - unat (tk_start t1)"
    using le by (auto simp: unat_sub)
  ultimately show ?thesis by (simp add: Let_def)
qed

theorem sorted_deltas_do_not_wrap_witness:
  "unat (tk_line \<lparr>tk_line = 4, tk_start = 0, tk_length = 1, tk_type = 9, tk_modifiers = 1\<rparr> -
         tk_line \<lparr>tk_line = 1, tk_start = 7, tk_length = 1, tk_type = 9, tk_modifiers = 1\<rparr>) = 3"
  using sorted_deltas_do_not_wrap
    [of "\<lparr>tk_line = 1, tk_start = 7, tk_length = 1, tk_type = 9, tk_modifiers = 1\<rparr>"
        "\<lparr>tk_line = 4, tk_start = 0, tk_length = 1, tk_type = 9, tk_modifiers = 1\<rparr>" "[]"]
  by (simp add: token_pos_def less_eq_position_def)

text \<open>
  Every collected token is one the client can display: its type is an index into the legend
  sent at initialization, its modifiers are among the four announced bits, its length is not
  zero; and the tokens are those of the visited elements, in the order of the visit.
\<close>

theorem collected_tokens_within_legend:
  assumes "t \<in> set (collect_semantic_tokens els)"
  shows "unat (tk_type t) < length semantic_token_types \<and>
         tk_modifiers t < 2 ^ length semantic_token_modifiers \<and> tk_length t \<noteq> 0 \<and>
         (\<exists>el \<in> set els. t \<in> set (element_tokens el))"
proof -
  from assms obtain el where el: "el \<in> set els" "t \<in> set (element_tokens el)"
    by (auto simp: collect_semantic_tokens_def collect_loop_append)
  with element_tokens_legend [OF el(2)] show ?thesis by auto
qed

theorem collected_tokens_within_legend_witness:
  "tk_length (make_token \<lparr>pos_offset = 0, pos_line = 1, pos_column = 0\<rparr>
     \<lparr>pos_offset = 2, pos_line = 1, pos_column = 2\<rparr> token_number 0) \<noteq> 0"
  using collected_tokens_within_legend
    [of "make_token \<lparr>pos_offset = 0, pos_line = 1, pos_column = 0\<rparr>
           \<lparr>pos_offset = 2, pos_line = 1, pos_column = 2\<rparr> token_number 0"
        "[EInteger \<lparr>pos_offset = 0, pos_line = 1, pos_column = 0\<rparr>
           \<lparr>pos_offset = 2, pos_line = 1, pos_column = 2\<rparr>]"]
  by (simp add: collect_semantic_tokens_def)

end
