(* ===== verification/Sema.thy ===== *)
theory Sema
  imports SemTokens
begin

text \<open>
  What the request handlers read of a checked program. The Cadence checker and its syntax trees
  are a library outside the repository; the records below hold exactly the observations the
  handlers make of a checker (its searches by position), of a type (its names, whether it is a
  function type), of an origin and of a syntax node, and nothing is assumed about them. A function
  type read off by a type assertion is an optional component of a type. An origin has an identity,
  since the code compares pointers to origins. An argument label is \<open>None\<close> when it is the library's
  marker for labels that are not required.
\<close>

section \<open>Types and declarations of the checker\<close>

record sema_parameter =
  par_label :: "string option"
  par_identifier :: string
  par_qualified :: string
  par_type_qualified :: string

record function_type =
  ft_type_parameters :: "string list"
  ft_parameters :: "sema_parameter list"
  ft_argument_labels :: "string option list"
  ft_return_is_void :: bool
  ft_return_qualified :: string
  ft_is_constructor :: bool

record sema_type =
  ty_qualified :: string
  ty_string :: string
  ty_annotation :: string
  ty_invalid :: bool
  ty_function :: "function_type option"

record origin =
  org_id :: nat
  org_type :: sema_type
  org_doc :: string
  org_start :: "ast_pos option"
  org_end :: "ast_pos option"
  org_occurrences :: "(ast_pos \<times> ast_pos) list"

record occurrence =
  occ_start :: sema_pos
  occ_end :: sema_pos
  occ_origin :: "origin option"

record invocation =
  inv_function :: function_type
  inv_separators :: "ast_pos list"

text \<open>A member as \<^verbatim>\<open>MemberResolver.Resolve\<close> returns it; the variable kind's name if any.\<close>

record member_info =
  mem_doc :: string
  mem_kind :: decl_kind
  mem_type :: sema_type
  mem_container :: string
  mem_identifier :: string
  mem_variable_kind :: "string option"

record member_resolver =
  mr_kind :: decl_kind
  mr_resolve :: "string \<Rightarrow> member_info"

record sema_range =
  rg_identifier :: string
  rg_kind :: decl_kind
  rg_type :: sema_type
  rg_doc :: string

section \<open>Syntax trees\<close>

text \<open>
  The kinds of nodes the handlers distinguish and what they read of each: the extents of
  arguments, values and parameters (a parameter list may be absent), whether a function has a
  body, and of a variable declaration whether it has a type annotation, the end of its
  identifier and its inferred type.
\<close>

type_synonym extent = "ast_pos \<times> ast_pos"

record param_list =
  pl_extent :: extent
  pl_parameters :: "extent list"

datatype node_kind =
    NInvocation "extent list"
  | NArray "extent list"
  | NDictionary "(extent \<times> extent) list"
  | NFunction "param_list option" bool
  | NSpecialFunction "param_list option" bool extent
  | NFunctionExpression "param_list option"
  | NVariable bool ast_pos "sema_type option"
  | NComposite
  | NInterface
  | NTransaction
  | NSwitch
  | NFor
  | NWhile
  | NIf
  | NOther

datatype ast = Node (node_kind: node_kind) (node_extent: extent) (node_element: sem_element)
  (node_children: "ast list")

record program =
  prg_tree :: ast
  prg_declarations :: "decl list"

text \<open>
  \<^verbatim>\<open>ast.Inspect\<close>: visit a node, then its children in order if the callback says so. The
  callback's state is threaded through. (The additional calls with a nil element change nothing
  in any of the callbacks.)
\<close>

fun inspect :: "(ast \<Rightarrow> 'a \<Rightarrow> 'a \<times> bool) \<Rightarrow> ast \<Rightarrow> 'a \<Rightarrow> 'a"
and inspect_children :: "(ast \<Rightarrow> 'a \<Rightarrow> 'a \<times> bool) \<Rightarrow> ast list \<Rightarrow> 'a \<Rightarrow> 'a" where
  "inspect f (Node k x el cs) acc =
     (let r = f (Node k x el cs) acc
      in if snd r then inspect_children f cs (fst r) else fst r)"
| "inspect_children f [] acc = acc"
| "inspect_children f (c # cs) acc = inspect_children f cs (inspect f c acc)"

fun preorder :: "ast \<Rightarrow> ast list"
and preorder_children :: "ast list \<Rightarrow> ast list" where
  "preorder (Node k x el cs) = Node k x el cs # preorder_children cs"
| "preorder_children [] = []"
| "preorder_children (c # cs) = preorder c @ preorder_children cs"

lemma inspect_all:
  "inspect (\<lambda>n acc. (g n acc, True)) t acc = fold g (preorder t) acc"
  "inspect_children (\<lambda>n acc. (g n acc, True)) ts acc = fold g (preorder_children ts) acc"
  by (induction t and ts arbitrary: acc and acc rule: preorder_preorder_children.induct)
     (simp_all add: Let_def)

text \<open>A callback that always descends and appends what it finds at a node collects over the preorder.\<close>

lemma fold_append_concat: "fold (\<lambda>n acc. acc @ h n) ns acc = acc @ concat (map h ns)"
  by (induction ns arbitrary: acc) simp_all

section \<open>The checker\<close>

record position_info =
  find_occurrence :: "sema_pos \<Rightarrow> occurrence option"
  find_occurrences :: "sema_pos \<Rightarrow> occurrence list"
  find_invocation :: "sema_pos \<Rightarrow> invocation option"
  find_members :: "sema_pos \<Rightarrow> (string, member_resolver) gomap option"
  find_ranges :: "sema_pos \<Rightarrow> sema_range list option"
  variable_origins :: "origin list"
  member_origins :: "origin list list"

record checker =
  chk_location :: location
  chk_program :: program
  chk_positions :: "position_info option"

end
