(* ===== verification/Debouncer.thy ===== *)
theory Debouncer
  imports Prelude
begin

text \<open>
  The debouncer (src/languageserver/server2/debounce.go). A timer created by
  \<^verbatim>\<open>time.AfterFunc\<close> is armed until it expires or is stopped; when it expires, its
  function starts in a goroutine of its own, which first takes the debouncer's lock, deletes the
  map entry of its key and then calls the callback. So between the expiry of a timer and its
  locked section other operations can run, and \<^verbatim>\<open>Stop\<close> has no effect on it. The model
  keeps the two moments apart: \<open>expired\<close> holds the timers whose goroutine has started. The
  callback is represented by the key and the timer's number, logged in \<open>ran\<close>.
\<close>

section \<open>State and operations\<close>

record debouncer =
  timers :: "(string, nat) gomap"
  armed :: "(nat \<times> string) list"
  expired :: "(nat \<times> string) list"
  next_timer :: nat
  ran :: "(nat \<times> string) list"

definition new_debouncer :: debouncer where
  "new_debouncer = \<lparr>timers = [], armed = [], expired = [], next_timer = 0, ran = []\<rparr>"

text \<open>\<^verbatim>\<open>time.Timer.Stop\<close>: prevents an armed timer from firing; no effect once it has expired.\<close>

definition stop_timer :: "nat \<Rightarrow> debouncer \<Rightarrow> debouncer" where
  "stop_timer t d = d\<lparr>armed := filter (\<lambda>x. fst x \<noteq> t) (armed d)\<rparr>"

definition deb_trigger :: "debouncer \<Rightarrow> string \<Rightarrow> debouncer" where
  "deb_trigger d key =
     (let d1 = (case map_of (timers d) key of None \<Rightarrow> d | Some t \<Rightarrow> stop_timer t d)
      in d1\<lparr>timers := AList.update key (next_timer d1) (timers d1),
            armed := armed d1 @ [(next_timer d1, key)],
            next_timer := Suc (next_timer d1)\<rparr>)"

text \<open>The run-time system lets an armed timer expire.\<close>

definition deb_expire :: "debouncer \<Rightarrow> nat \<times> string \<Rightarrow> debouncer" where
  "deb_expire d t = d\<lparr>armed := filter (\<lambda>x. x \<noteq> t) (armed d), expired := expired d @ [t]\<rparr>"

text \<open>The function given to \<^verbatim>\<open>AfterFunc\<close>: lock, delete the key's entry, unlock, call back.\<close>

definition deb_callback :: "debouncer \<Rightarrow> nat \<times> string \<Rightarrow> debouncer" where
  "deb_callback d t =
     d\<lparr>timers := AList.delete (snd t) (timers d),
       expired := filter (\<lambda>x. x \<noteq> t) (expired d), ran := ran d @ [t]\<rparr>"

text \<open>The range loop of \<^verbatim>\<open>Stop\<close>.\<close>

fun stop_loop :: "(string, nat) gomap \<Rightarrow> debouncer \<Rightarrow> debouncer" where
  "stop_loop [] d = d"
| "stop_loop ((key, t) # rest) d =
     stop_loop rest ((stop_timer t d)\<lparr>timers := AList.delete key (timers d)\<rparr>)"

definition deb_stop :: "debouncer \<Rightarrow> debouncer" where
  "deb_stop d = stop_loop (timers d) d"

section \<open>Steps\<close>

text \<open>
  \<open>prompt_step\<close> is the machine in which a timer's goroutine takes the lock at once; \<open>deb_step\<close> is
  the one the run-time system guarantees, where other operations may come in between.
\<close>

inductive prompt_step :: "debouncer \<Rightarrow> debouncer \<Rightarrow> bool" where
  p_trigger: "prompt_step d (deb_trigger d key)"
| p_fire: "t \<in> set (armed d) \<Longrightarrow> prompt_step d (deb_callback (deb_expire d t) t)"
| p_stop: "prompt_step d (deb_stop d)"

inductive deb_step :: "debouncer \<Rightarrow> debouncer \<Rightarrow> bool" where
  trigger: "deb_step d (deb_trigger d key)"
| expire: "t \<in> set (armed d) \<Longrightarrow> deb_step d (deb_expire d t)"
| callback: "t \<in> set (expired d) \<Longrightarrow> deb_step d (deb_callback d t)"
| stop: "deb_step d (deb_stop d)"

inductive prompt_reachable :: "debouncer \<Rightarrow> bool" where
  pr_init: "prompt_reachable new_debouncer"
| pr_step: "prompt_reachable d \<Longrightarrow> prompt_step d d' \<Longrightarrow> prompt_reachable d'"

inductive deb_reachable :: "debouncer \<Rightarrow> bool" where
  dr_init: "deb_reachable new_debouncer"
| dr_step: "deb_reachable d \<Longrightarrow> deb_step d d' \<Longrightarrow> deb_reachable d'"

inductive_cases prompt_stepE: "prompt_step d d'"
inductive_cases deb_stepE: "deb_step d d'"

section \<open>Facts about the operations\<close>

lemma stop_timer_fields [simp]:
  "timers (stop_timer t d) = timers d" "expired (stop_timer t d) = expired d"
  "next_timer (stop_timer t d) = next_timer d" "ran (stop_timer t d) = ran d"
  "armed (stop_timer t d) = filter (\<lambda>x. fst x \<noteq> t) (armed d)"
  by (simp_all add: stop_timer_def)

lemma stop_loop_fields:
  "expired (stop_loop ts d) = expired d" "next_timer (stop_loop ts d) = next_timer d"
  "ran (stop_loop ts d) = ran d"
  "armed (stop_loop ts d) = filter (\<lambda>x. fst x \<notin> snd ` set ts) (armed d)"
  by (induction ts d rule: stop_loop.induct) simp_all

lemma stop_loop_timers: "timers (stop_loop ts d) = filter (\<lambda>x. fst x \<notin> fst ` set ts) (timers d)"
  by (induction ts d rule: stop_loop.induct)
     (simp_all add: AList.delete_eq case_prod_beta eq_commute)

lemma deb_stop_fields [simp]:
  "expired (deb_stop d) = expired d" "next_timer (deb_stop d) = next_timer d"
  "ran (deb_stop d) = ran d" "timers (deb_stop d) = []"
  "armed (deb_stop d) = filter (\<lambda>x. fst x \<notin> snd ` set (timers d)) (armed d)"
  by (simp_all add: deb_stop_def stop_loop_fields stop_loop_timers filter_empty_conv)

lemma deb_trigger_fields:
  "expired (deb_trigger d k) = expired d" "next_timer (deb_trigger d k) = Suc (next_timer d)"
  "ran (deb_trigger d k) = ran d"
  "timers (deb_trigger d k) = AList.update k (next_timer d) (timers d)"
  "armed (deb_trigger d k) =
     filter (\<lambda>x. map_of (timers d) k \<noteq> Some (fst x)) (armed d) @ [(next_timer d, k)]"
  by (simp_all add: deb_trigger_def Let_def split: option.split) (auto intro!: filter_cong)

section \<open>Invariants\<close>

text \<open>In the prompt machine the map is exactly the set of armed timers, one per key.\<close>

definition deb_sync :: "debouncer \<Rightarrow> bool" where
  "deb_sync d \<longleftrightarrow> distinct (map fst (timers d)) \<and> expired d = [] \<and>
     (\<forall>t \<in> set (armed d). fst t < next_timer d) \<and>
     (\<forall>k t. map_of (timers d) k = Some t \<longleftrightarrow> (t, k) \<in> set (armed d)) \<and>
     distinct (map fst (armed d))"

lemma deb_sync_one_per_key:
  "deb_sync d \<Longrightarrow> (t, k) \<in> set (armed d) \<Longrightarrow> (t', k) \<in> set (armed d) \<Longrightarrow> t = t'"
  unfolding deb_sync_def by (metis option.inject)

text \<open>What always holds: no timer runs twice, and an armed timer is neither expired nor done.\<close>

definition deb_once :: "debouncer \<Rightarrow> bool" where
  "deb_once d \<longleftrightarrow>
     (\<forall>t \<in> set (armed d) \<union> set (expired d) \<union> set (ran d). fst t < next_timer d) \<and>
     distinct (map fst (armed d @ expired d @ ran d))"

lemma deb_sync_new [simp]: "deb_sync new_debouncer"
  by (simp add: deb_sync_def new_debouncer_def)

lemma deb_sync_trigger:
  assumes s: "deb_sync d"
  shows "deb_sync (deb_trigger d key)"
proof -
  have mirror: "map_of (timers d) k = Some t \<longleftrightarrow> (t, k) \<in> set (armed d)" for k t
    using s by (simp add: deb_sync_def)
  have new: "(t, k) \<in> set (armed d) \<Longrightarrow> t < next_timer d" for t k
    using s by (auto simp: deb_sync_def)
  have same: "(t, k) \<in> set (armed d) \<Longrightarrow> (t, k') \<in> set (armed d) \<Longrightarrow> k = k'" for t k k'
    using s by (metis deb_sync_def fst_conv inj_onD distinct_map prod.inject)
  have "map_of (AList.update key (next_timer d) (timers d)) k = Some t \<longleftrightarrow>
      (t, k) \<in> set (armed (deb_trigger d key))" for k t
    using mirror new same by (cases "k = key") (auto simp: deb_trigger_fields update_conv' mirror)
  moreover have "distinct (map fst (armed (deb_trigger d key)))"
    using s new by (auto simp: deb_trigger_fields deb_sync_def distinct_map_filter)
  moreover have "\<forall>t \<in> set (armed (deb_trigger d key)). fst t < next_timer (deb_trigger d key)"
    using s by (auto simp: deb_trigger_fields deb_sync_def)
  ultimately show ?thesis
    using s by (simp add: deb_sync_def deb_trigger_fields distinct_update)
qed

lemma deb_sync_fire:
  assumes s: "deb_sync d" and t: "t \<in> set (armed d)"
  shows "deb_sync (deb_callback (deb_expire d t) t)"
proof -
  have mirror: "map_of (timers d) k = Some n \<longleftrightarrow> (n, k) \<in> set (armed d)" for k n
    using s by (simp add: deb_sync_def)
  have "map_of (timers d) (snd t) = Some (fst t)" using mirror t by simp
  then have "(n, snd t) \<in> set (armed d) \<Longrightarrow> n = fst t" for n using mirror by (metis option.inject)
  moreover have flds: "timers (deb_callback (deb_expire d t) t) = AList.delete (snd t) (timers d)"
    "armed (deb_callback (deb_expire d t) t) = filter (\<lambda>x. x \<noteq> t) (armed d)"
    "expired (deb_callback (deb_expire d t) t) = filter (\<lambda>x. x \<noteq> t) (expired d @ [t])"
    "next_timer (deb_callback (deb_expire d t) t) = next_timer d"
    by (simp_all add: deb_callback_def deb_expire_def)
  ultimately have "map_of (AList.delete (snd t) (timers d)) k = Some n \<longleftrightarrow>
      (n, k) \<in> set (filter (\<lambda>x. x \<noteq> t) (armed d))" for k n
    using mirror [of k n] by (cases "k = snd t"; cases t) (auto simp: delete_conv')
  then show ?thesis
    using s unfolding deb_sync_def flds by (simp add: distinct_delete distinct_map_filter)
qed

lemma deb_sync_stop: "deb_sync d \<Longrightarrow> deb_sync (deb_stop d) \<and> armed (deb_stop d) = []"
proof -
  assume s: "deb_sync d"
  have "t \<in> snd ` set (timers d)" if "(t, k) \<in> set (armed d)" for t k
    using s that unfolding deb_sync_def by (metis image_eqI map_of_SomeD snd_conv)
  then have "armed (deb_stop d) = []" by (auto simp: filter_empty_conv)
  with s show ?thesis by (simp add: deb_sync_def)
qed

lemma prompt_reachable_sync: "prompt_reachable d \<Longrightarrow> deb_sync d"
proof (induction rule: prompt_reachable.induct)
  case (pr_step d d')
  from pr_step(2,3) show ?case
    by (cases rule: prompt_stepE) (auto simp: deb_sync_trigger deb_sync_fire deb_sync_stop)
qed simp

lemma deb_once_new [simp]: "deb_once new_debouncer"
  by (simp add: deb_once_def new_debouncer_def)

lemma deb_once_step:
  assumes "deb_once d" "deb_step d d'"
  shows "deb_once d'"
  using assms(2)
proof cases
  case (trigger key)
  with assms(1) show ?thesis
    by (auto simp: deb_once_def deb_trigger_fields distinct_map_filter less_Suc_eq) force+
next
  case (expire t)
  have "distinct (map fst (armed d))" using assms(1) by (simp add: deb_once_def)
  with expire have "fst t \<notin> fst ` set (filter (\<lambda>x. x \<noteq> t) (armed d))" by (intro fst_notin_rest)
  moreover have "fst ` set (filter (\<lambda>x. x \<noteq> t) (armed d)) \<subseteq> fst ` set (armed d)" by auto
  ultimately show ?thesis
    using assms(1) expire unfolding deb_once_def deb_expire_def
    by (simp add: distinct_map_filter) blast
next
  case (callback t)
  have "distinct (map fst (expired d))" using assms(1) by (simp add: deb_once_def)
  with callback have "fst t \<notin> fst ` set (filter (\<lambda>x. x \<noteq> t) (expired d))" by (intro fst_notin_rest)
  moreover have "fst ` set (filter (\<lambda>x. x \<noteq> t) (expired d)) \<subseteq> fst ` set (expired d)" by auto
  ultimately show ?thesis
    using assms(1) callback unfolding deb_once_def deb_callback_def
    by (simp add: distinct_map_filter) blast
next
  case stop
  with assms(1) show ?thesis
    by (auto simp: deb_once_def distinct_map_filter)
qed

lemma deb_reachable_once: "deb_reachable d \<Longrightarrow> deb_once d"
  by (induction rule: deb_reachable.induct) (auto intro: deb_once_step)

text \<open>Every prompt run is a run of the run-time system's machine.\<close>

lemma prompt_reachable_reachable: "prompt_reachable d \<Longrightarrow> deb_reachable d"
proof (induction rule: prompt_reachable.induct)
  case (pr_step d d')
  from pr_step(2) show ?case
  proof cases
    case (p_fire t)
    have "deb_reachable (deb_expire d t)"
      by (rule dr_step [OF pr_step(3)]) (rule deb_step.expire [OF p_fire(2)])
    moreover have "t \<in> set (expired (deb_expire d t))" by (simp add: deb_expire_def)
    ultimately show ?thesis unfolding p_fire(1) by (blast intro: dr_step deb_step.callback)
  qed (auto intro: dr_step deb_step.intros pr_step(3))
qed (rule dr_init)

section \<open>Properties\<close>

text \<open>
  Coalescing: when a timer's goroutine takes the lock without delay, a key never has
  two timers armed, whatever the sequence of triggers, firings and stops; and \<^verbatim>\<open>Stop\<close>
  leaves no timer armed.
\<close>

theorem debounce_coalesces:
  assumes "prompt_reachable d"
  shows "(\<forall>k t t'. (t, k) \<in> set (armed d) \<and> (t', k) \<in> set (armed d) \<longrightarrow> t = t') \<and>
         armed (deb_stop d) = []"
  using prompt_reachable_sync [OF assms] deb_sync_one_per_key deb_sync_stop by blast

theorem debounce_coalesces_witness:
  "armed (deb_stop (deb_trigger (deb_trigger new_debouncer ''k'') ''k'')) = []"
proof -
  have "prompt_reachable (deb_trigger (deb_trigger new_debouncer ''k'') ''k'')"
    by (intro pr_step [OF _ p_trigger] pr_init)
  from debounce_coalesces [OF this] show ?thesis by blast
qed

text \<open>
  Whatever the interleaving of the timers' goroutines with the other operations, no
  timer's callback runs twice, and a timer that is still armed or waiting for the lock has not
  run yet.
\<close>

theorem callback_runs_once:
  assumes "deb_reachable d"
  shows "distinct (map fst (ran d)) \<and>
         fst ` (set (armed d) \<union> set (expired d)) \<inter> fst ` set (ran d) = {}"
  using deb_reachable_once [OF assms] by (auto simp: deb_once_def)

theorem callback_runs_once_witness:
  "distinct (map fst (ran (deb_callback (deb_expire (deb_trigger new_debouncer ''k'') (0, ''k'')) (0, ''k''))))"
proof -
  let ?d1 = "deb_trigger new_debouncer ''k''"
  have "(0, ''k'') \<in> set (armed ?d1)" by (simp add: deb_trigger_fields new_debouncer_def)
  then have "prompt_reachable (deb_callback (deb_expire ?d1 (0, ''k'')) (0, ''k''))"
    by (intro pr_step [OF _ p_fire] pr_step [OF _ p_trigger] pr_init)
  from callback_runs_once [OF prompt_reachable_reachable [OF this]] show ?thesis by blast
qed

text \<open>
  The race the code leaves open: a timer that has expired but waits for the lock deletes
  the map entry of the timer that replaced it. The replacement stays armed with no entry in the
  map, so \<^verbatim>\<open>Stop\<close> (documented to cancel all pending timers) does not cancel it.
\<close>

theorem stop_misses_replaced_timer:
  "\<exists>d. deb_reachable d \<and> timers d = [] \<and> armed (deb_stop d) = [(1, ''k'')] \<and> ran d = [(0, ''k'')]"
proof -
  let ?d1 = "deb_trigger new_debouncer ''k''"
  let ?d2 = "deb_expire ?d1 (0, ''k'')"
  let ?d3 = "deb_trigger ?d2 ''k''"
  let ?d4 = "deb_callback ?d3 (0, ''k'')"
  have armed1: "(0, ''k'') \<in> set (armed ?d1)" by (simp add: deb_trigger_fields new_debouncer_def)
  have expired3: "(0, ''k'') \<in> set (expired ?d3)" by (simp add: deb_trigger_fields deb_expire_def)
  have "deb_reachable ?d4"
    by (rule dr_step [OF dr_step [OF dr_step [OF dr_step [OF dr_init deb_step.trigger]
          deb_step.expire [OF armed1]] deb_step.trigger] deb_step.callback [OF expired3]])
  moreover have "timers ?d4 = [] \<and> armed (deb_stop ?d4) = [(1, ''k'')] \<and> ran ?d4 = [(0, ''k'')]"
    by (simp add: deb_callback_def deb_trigger_fields deb_expire_def new_debouncer_def)
  ultimately show ?thesis by blast
qed

end
