(* ===== verification/ServerCore.thy ===== *)
theory ServerCore
  imports Sema Debouncer
begin

text \<open>
  The server (src/languageserver/server2/server.go): its state, the document notifications, the
  scheduling of checks and the publication of diagnostics.

  A check runs in a goroutine of its own when the server debounces, so it is split in two: its
  start registers a cancellation entry and takes the snapshot, its end analyzes the snapshot,
  publishes and removes the entry if it is still its own. Between the two other operations run.
  A context is a number; \<open>srv_contexts\<close> holds the contexts that have been cancelled. \<open>None\<close> is a call
  that does not return normally: a run-time panic, or an analysis that needs more fuel.
\<close>

section \<open>State\<close>

record cancel_entry =
  cancel_context :: nat
  cancel_token :: u64

record completion_session_state =
  cs_members :: "(string, member_resolver) gomap"
  cs_ranges :: "(string, sema_range) gomap"

record server_config =
  cfg_cache_capacity :: int
  cfg_debounce_delay :: int

text \<open>A check between its start and its end, with the documents of its snapshot.\<close>

record running_check =
  rc_uri :: uri
  rc_context :: nat
  rc_token :: u64
  rc_documents :: doc_store

record ('c, 's) server =
  srv_config :: server_config
  srv_host :: "'c host"
  srv_resolver :: 's
  srv_debouncer :: "debouncer option"
  srv_cancels :: "(uri, cancel_entry) gomap"
  srv_next_token :: u64
  srv_next_context :: nat
  srv_contexts :: "nat list"
  srv_running :: "running_check list"
  srv_conn :: "nat option"
  srv_published :: "(nat \<times> uri \<times> proto_diagnostic list) list"
  srv_sessions :: "(string, completion_session_state) gomap"
  srv_session_order :: "string list"
  srv_next_session :: u64
  srv_action_resolvers :: "(uri, (string, code_action list) gomap) gomap"

definition new_server_v2 :: "server_config \<Rightarrow> 's \<Rightarrow> ('c, 's) server" where
  "new_server_v2 config rs =
     (let cap = (if cfg_cache_capacity config \<le> 0 then 128 else cfg_cache_capacity config);
          deb = (if cfg_debounce_delay config > 0 then Some new_debouncer else None)
      in \<lparr>srv_config = config, srv_host = new_analysis_host cap, srv_resolver = rs,
          srv_debouncer = deb, srv_cancels = [], srv_next_token = 0, srv_next_context = 0,
          srv_contexts = [], srv_running = [], srv_conn = None, srv_published = [],
          srv_sessions = [], srv_session_order = [], srv_next_session = 0,
          srv_action_resolvers = []\<rparr>)"

section \<open>Publishing diagnostics\<close>

definition convert_diagnostic :: "diagnostic \<Rightarrow> proto_diagnostic" where
  "convert_diagnostic d =
     (let start_ln = (if start_line d > 0 then word_of_int (start_line d - 1) else 0);
          end_ln = (if end_line d > 0 then word_of_int (end_line d - 1) else 0)
      in \<lparr>pd_range = Range (Position start_ln (word_of_int (start_column d)))
                          (Position end_ln (word_of_int (end_column d))),
          pd_severity = word_of_int (severity d), pd_source = ''cadence'',
          pd_message = message d, pd_data = None\<rparr>)"

definition publish_diagnostics ::
    "('c, 's) server \<Rightarrow> uri \<Rightarrow> diagnostic list \<Rightarrow> ('c, 's) server" where
  "publish_diagnostics srv u diags =
     (case srv_conn srv of
        None \<Rightarrow> srv
      | Some conn \<Rightarrow>
          srv\<lparr>srv_published := srv_published srv @ [(conn, u, map convert_diagnostic diags)]\<rparr>)"

section \<open>Checks\<close>

text \<open>The part of the state that an analysis shares with everything else.\<close>

definition shared_of :: "('c, 's) server \<Rightarrow> ('c, 's) shared" where
  "shared_of srv = \<lparr>sh_cache = cache (srv_host srv), sh_graph = dep_index (srv_host srv),
     sh_resolver = srv_resolver srv\<rparr>"

definition with_shared :: "('c, 's) server \<Rightarrow> ('c, 's) shared \<Rightarrow> ('c, 's) server" where
  "with_shared srv st =
     srv\<lparr>srv_host := (srv_host srv)\<lparr>cache := sh_cache st, dep_index := sh_graph st\<rparr>,
         srv_resolver := sh_resolver st\<rparr>"

definition cancel_ctx :: "nat \<Rightarrow> ('c, 's) server \<Rightarrow> ('c, 's) server" where
  "cancel_ctx ctx srv = srv\<lparr>srv_contexts := ctx # srv_contexts srv\<rparr>"

text \<open>\<^verbatim>\<open>runCheck\<close> up to and including the snapshot.\<close>

definition check_begin :: "('c, 's) server \<Rightarrow> uri \<Rightarrow> running_check \<times> ('c, 's) server" where
  "check_begin srv u =
     (let ctx = srv_next_context srv;
          token = srv_next_token srv + 1;
          rc = \<lparr>rc_uri = u, rc_context = ctx, rc_token = token,
                rc_documents = snap_documents (host_snapshot (srv_host srv))\<rparr>
      in (rc, srv\<lparr>srv_next_context := Suc ctx, srv_next_token := token,
                  srv_cancels := AList.update u \<lparr>cancel_context = ctx, cancel_token = token\<rparr>
                    (srv_cancels srv)\<rparr>))"

text \<open>The deferred function: cancel the own context, delete the entry if its token is the own one.\<close>

definition check_cleanup :: "running_check \<Rightarrow> ('c, 's) server \<Rightarrow> ('c, 's) server" where
  "check_cleanup rc srv =
     (let srv1 = cancel_ctx (rc_context rc) srv
      in case map_of (srv_cancels srv1) (rc_uri rc) of
           None \<Rightarrow> srv1
         | Some entry \<Rightarrow>
             (if cancel_token entry = rc_token rc
              then srv1\<lparr>srv_cancels := AList.delete (rc_uri rc) (srv_cancels srv1)\<rparr> else srv1))"

text \<open>\<^verbatim>\<open>runCheck\<close> from the analysis on.\<close>

definition check_finish ::
    "('p, 'c, 's) env \<Rightarrow> nat \<Rightarrow> running_check \<Rightarrow> ('c, 's) server \<Rightarrow> ('c, 's) server option" where
  "check_finish env fuel rc srv =
     (case analyze env fuel (\<lambda>_. rc_context rc \<in> set (srv_contexts srv)) (rc_documents rc) (rc_uri rc)
             (shared_of srv) of
        None \<Rightarrow> None
      | Some (result, st) \<Rightarrow>
          (let srv1 = with_shared srv st
           in if res_cancelled result then Some (check_cleanup rc srv1)
              else Some (check_cleanup rc
                     (publish_diagnostics srv1 (rc_uri rc) (res_diagnostics result)))))"

definition run_check ::
    "('p, 'c, 's) env \<Rightarrow> nat \<Rightarrow> ('c, 's) server \<Rightarrow> uri \<Rightarrow> ('c, 's) server option" where
  "run_check env fuel srv u = (case check_begin srv u of (rc, srv1) \<Rightarrow> check_finish env fuel rc srv1)"

text \<open>
  Without a delay the check runs at once; with one it is left to the debouncer, whose key is the
  URI. A call on a nil debouncer panics.
\<close>

definition cancel_in_flight :: "('c, 's) server \<Rightarrow> uri \<Rightarrow> ('c, 's) server" where
  "cancel_in_flight srv u =
     (case map_of (srv_cancels srv) u of
        None \<Rightarrow> srv
      | Some entry \<Rightarrow> cancel_ctx (cancel_context entry) srv)"

definition schedule_check ::
    "('p, 'c, 's) env \<Rightarrow> nat \<Rightarrow> ('c, 's) server \<Rightarrow> uri \<Rightarrow> ('c, 's) server option" where
  "schedule_check env fuel srv u =
     (let srv1 = cancel_in_flight srv u
      in if cfg_debounce_delay (srv_config srv1) = 0 then run_check env fuel srv1 u
         else case srv_debouncer srv1 of
           None \<Rightarrow> None
         | Some d \<Rightarrow> Some (srv1\<lparr>srv_debouncer := Some (deb_trigger d u)\<rparr>))"

section \<open>Notifications\<close>

text \<open>\<^verbatim>\<open>Initialize\<close> stores the connection and announces what the server can do.\<close>

record capabilities =
  cap_open_close :: bool
  cap_change_sync :: u32
  cap_providers :: "string list"
  cap_signature_triggers :: "string list"
  cap_completion_triggers :: "string list"
  cap_completion_resolve :: bool
  cap_token_types :: "string list"
  cap_token_modifiers :: "string list"
  cap_tokens_full :: bool

definition server_capabilities :: capabilities where
  "server_capabilities = \<lparr>cap_open_close = True, cap_change_sync = 1,
     cap_providers = [''hover'', ''definition'', ''references'', ''signatureHelp'', ''documentHighlight'',
       ''rename'', ''codeAction'', ''codeLens'', ''completion'', ''documentSymbol'', ''documentLink'',
       ''inlayHint'', ''foldingRange'', ''selectionRange'', ''workspaceSymbol'', ''executeCommand'',
       ''semanticTokens''],
     cap_signature_triggers = [[CHR 0x28]], cap_completion_triggers = [''.''],
     cap_completion_resolve = True, cap_token_types = semantic_token_types,
     cap_token_modifiers = semantic_token_modifiers, cap_tokens_full = True\<rparr>"

definition initialize_conn :: "('c, 's) server \<Rightarrow> nat \<Rightarrow> ('c, 's) server" where
  "initialize_conn srv conn = srv\<lparr>srv_conn := Some conn\<rparr>"

definition initialize_server :: "('c, 's) server \<Rightarrow> nat \<Rightarrow> capabilities \<times> ('c, 's) server" where
  "initialize_server srv conn = (server_capabilities, initialize_conn srv conn)"

definition did_open ::
    "('p, 'c, 's) env \<Rightarrow> nat \<Rightarrow> ('c, 's) server \<Rightarrow> uri \<Rightarrow> string \<Rightarrow> 32 word \<Rightarrow> ('c, 's) server option" where
  "did_open env fuel srv u text version =
     (let srv1 = srv\<lparr>srv_host := update_document (loc_id env) (srv_host srv) u text version\<rparr>
      in schedule_check env fuel srv1 u)"

definition did_change ::
    "('p, 'c, 's) env \<Rightarrow> nat \<Rightarrow> ('c, 's) server \<Rightarrow> uri \<Rightarrow> 32 word \<Rightarrow> string list \<Rightarrow>
     ('c, 's) server option" where
  "did_change env fuel srv u version changes =
     (if length changes = 0 then Some srv
      else let text = changes ! (length changes - 1);
               srv1 = srv\<lparr>srv_host := update_document (loc_id env) (srv_host srv) u text version\<rparr>
           in schedule_check env fuel srv1 u)"

definition did_close :: "('p, 'c, 's) env \<Rightarrow> ('c, 's) server \<Rightarrow> uri \<Rightarrow> ('c, 's) server" where
  "did_close env srv u =
     (let srv1 = (case map_of (srv_cancels srv) u of
                    None \<Rightarrow> srv
                  | Some entry \<Rightarrow> (cancel_ctx (cancel_context entry) srv)
                      \<lparr>srv_cancels := AList.delete u (srv_cancels srv)\<rparr>);
          srv2 = srv1\<lparr>srv_host := remove_document (loc_id env) (srv_host srv1) u\<rparr>;
          srv3 = srv2\<lparr>srv_action_resolvers := AList.delete u (srv_action_resolvers srv2)\<rparr>
      in publish_diagnostics srv3 u [])"

definition shutdown :: "('c, 's) server \<Rightarrow> ('c, 's) server" where
  "shutdown srv =
     (case srv_debouncer srv of
        None \<Rightarrow> srv
      | Some d \<Rightarrow> srv\<lparr>srv_debouncer := Some (deb_stop d)\<rparr>)"

text \<open>\<^verbatim>\<open>DidChangeConfiguration\<close> and \<^verbatim>\<open>Exit\<close> do nothing.\<close>

definition did_change_configuration :: "('c, 's) server \<Rightarrow> ('c, 's) server" where
  "did_change_configuration srv = srv"

definition exit_server :: "('c, 's) server \<Rightarrow> ('c, 's) server" where
  "exit_server srv = srv"

section \<open>The checker of a document\<close>

text \<open>
  What every request starts with (\<^verbatim>\<open>checkerForDocument\<close> in
  src/languageserver/server2/handlers.go): a usable cached checker, or the checker of an analysis
  made now, with a context that is never cancelled.
\<close>

definition checker_for_document ::
    "('p, 'c, 's) env \<Rightarrow> nat \<Rightarrow> ('c, 's) server \<Rightarrow> uri \<Rightarrow> ('c option \<times> ('c, 's) server) option" where
  "checker_for_document env fuel srv u =
     (let key = canonical_cache_key (loc_id env) (StringLocation u);
          got = lru_get (cache (srv_host srv)) key;
          srv1 = srv\<lparr>srv_host := (srv_host srv)\<lparr>cache := snd got\<rparr>\<rparr>
      in case usable_entry (fst got) of
           Some c \<Rightarrow> Some (Some c, srv1)
         | None \<Rightarrow>
             (case get_document (srv_host srv1) u of
                None \<Rightarrow> Some (None, srv1)
              | Some _ \<Rightarrow>
                  (case analyze env fuel (\<lambda>_. False) (snap_documents (host_snapshot (srv_host srv1))) u
                          (shared_of srv1) of
                     None \<Rightarrow> None
                   | Some (result, st) \<Rightarrow> Some (res_checker result, with_shared srv1 st))))"

section \<open>Steps\<close>

text \<open>
  A timer's callback runs the check of its key. In the prompt machine a timer's goroutine takes
  the debouncer's lock and starts its check at once; in the other one the expiry of a timer and
  its callback are two steps, as the run-time system allows.
\<close>

definition start_check :: "('c, 's) server \<Rightarrow> uri \<Rightarrow> ('c, 's) server" where
  "start_check srv u =
     (case check_begin srv u of (rc, srv1) \<Rightarrow> srv1\<lparr>srv_running := srv_running srv1 @ [rc]\<rparr>)"

definition take_running :: "running_check \<Rightarrow> ('c, 's) server \<Rightarrow> ('c, 's) server" where
  "take_running rc srv = srv\<lparr>srv_running := filter (\<lambda>x. x \<noteq> rc) (srv_running srv)\<rparr>"

inductive common_step ::
    "('p, 'c, 's) env \<Rightarrow> nat \<Rightarrow> ('c, 's) server \<Rightarrow> ('c, 's) server \<Rightarrow> bool"
  for env fuel where
  c_init: "common_step env fuel s (initialize_conn s n)"
| c_open: "did_open env fuel s u text v = Some s' \<Longrightarrow> common_step env fuel s s'"
| c_change: "did_change env fuel s u v changes = Some s' \<Longrightarrow> common_step env fuel s s'"
| c_close: "common_step env fuel s (did_close env s u)"
| c_query: "checker_for_document env fuel s u = Some (c, s') \<Longrightarrow> common_step env fuel s s'"
| c_finish: "rc \<in> set (srv_running s) \<Longrightarrow>
    check_finish env fuel rc (take_running rc s) = Some s' \<Longrightarrow> common_step env fuel s s'"
| c_shutdown: "common_step env fuel s (shutdown s)"

inductive server_step ::
    "('p, 'c, 's) env \<Rightarrow> nat \<Rightarrow> ('c, 's) server \<Rightarrow> ('c, 's) server \<Rightarrow> bool"
  for env fuel where
  common: "common_step env fuel s s' \<Longrightarrow> server_step env fuel s s'"
| fire: "srv_debouncer s = Some d \<Longrightarrow> t \<in> set (armed d) \<Longrightarrow>
    server_step env fuel s
      (start_check (s\<lparr>srv_debouncer := Some (deb_callback (deb_expire d t) t)\<rparr>) (snd t))"

inductive racy_step ::
    "('p, 'c, 's) env \<Rightarrow> nat \<Rightarrow> ('c, 's) server \<Rightarrow> ('c, 's) server \<Rightarrow> bool"
  for env fuel where
  r_common: "common_step env fuel s s' \<Longrightarrow> racy_step env fuel s s'"
| r_expire: "srv_debouncer s = Some d \<Longrightarrow> t \<in> set (armed d) \<Longrightarrow>
    racy_step env fuel s (s\<lparr>srv_debouncer := Some (deb_expire d t)\<rparr>)"
| r_callback: "srv_debouncer s = Some d \<Longrightarrow> t \<in> set (expired d) \<Longrightarrow>
    racy_step env fuel s (start_check (s\<lparr>srv_debouncer := Some (deb_callback d t)\<rparr>) (snd t))"

inductive server_run ::
    "('p, 'c, 's) env \<Rightarrow> nat \<Rightarrow> server_config \<Rightarrow> 's \<Rightarrow> ('c, 's) server \<Rightarrow> bool"
  for env fuel config rs where
  run_init: "server_run env fuel config rs (new_server_v2 config rs)"
| run_step: "server_run env fuel config rs s \<Longrightarrow> server_step env fuel s s' \<Longrightarrow>
    server_run env fuel config rs s'"

inductive racy_run ::
    "('p, 'c, 's) env \<Rightarrow> nat \<Rightarrow> server_config \<Rightarrow> 's \<Rightarrow> ('c, 's) server \<Rightarrow> bool"
  for env fuel config rs where
  racy_init: "racy_run env fuel config rs (new_server_v2 config rs)"
| racy_next: "racy_run env fuel config rs s \<Longrightarrow> racy_step env fuel s s' \<Longrightarrow>
    racy_run env fuel config rs s'"

inductive_cases common_stepE: "common_step env fuel s s'"
inductive_cases server_stepE: "server_step env fuel s s'"

section \<open>The invariant of the checks\<close>

text \<open>A check is live while its context has not been cancelled.\<close>

definition live :: "('c, 's) server \<Rightarrow> running_check \<Rightarrow> bool" where
  "live s rc \<longleftrightarrow> rc \<in> set (srv_running s) \<and> rc_context rc \<notin> set (srv_contexts s)"

definition no_live :: "('c, 's) server \<Rightarrow> uri \<Rightarrow> bool" where
  "no_live s u \<longleftrightarrow> (\<forall>rc. live s rc \<longrightarrow> rc_uri rc \<noteq> u)"

definition no_timer :: "('c, 's) server \<Rightarrow> uri \<Rightarrow> bool" where
  "no_timer s u \<longleftrightarrow> (\<forall>d t. srv_debouncer s = Some d \<longrightarrow> (t, u) \<notin> set (armed d))"

text \<open>The bookkeeping: contexts and tokens are numbered alike.\<close>

definition check_numbers :: "('c, 's) server \<Rightarrow> bool" where
  "check_numbers s \<longleftrightarrow>
     srv_next_token s = of_nat (srv_next_context s) \<and>
     (\<forall>c \<in> set (srv_contexts s). c < srv_next_context s) \<and>
     (\<forall>u e. map_of (srv_cancels s) u = Some e \<longrightarrow>
        cancel_context e < srv_next_context s \<and> cancel_token e = of_nat (Suc (cancel_context e))) \<and>
     (\<forall>rc \<in> set (srv_running s).
        rc_context rc < srv_next_context s \<and> rc_token rc = of_nat (Suc (rc_context rc))) \<and>
     distinct (map rc_context (srv_running s))"

text \<open>A live check is the registered one, works on the current text and has no timer pending.\<close>

definition live_current :: "('c, 's) server \<Rightarrow> bool" where
  "live_current s \<longleftrightarrow> (\<forall>rc. live s rc \<longrightarrow>
     map_of (srv_cancels s) (rc_uri rc) = Some \<lparr>cancel_context = rc_context rc, cancel_token = rc_token rc\<rparr> \<and>
     doc_get (rc_documents rc) (rc_uri rc) = doc_get (docs (srv_host s)) (rc_uri rc) \<and>
     no_timer s (rc_uri rc))"

text \<open>Fewer than \<open>2 ^ 64\<close> checks have been started: no token has been used twice.\<close>

definition tokens_fresh :: "('c, 's) server \<Rightarrow> bool" where
  "tokens_fresh s \<longleftrightarrow> srv_next_context s < 2 ^ 64"

definition server_inv :: "('c, 's) server \<Rightarrow> bool" where
  "server_inv s \<longleftrightarrow> host_wf (srv_host s) \<and> (\<forall>d. srv_debouncer s = Some d \<longrightarrow> deb_sync d) \<and>
     check_numbers s \<and> (tokens_fresh s \<longrightarrow> live_current s)"

lemmas inv_defs = server_inv_def check_numbers_def live_current_def tokens_fresh_def no_timer_def live_def

section \<open>The steps keep the invariant\<close>

lemma shared_of_fields [simp]:
  "sh_cache (shared_of s) = cache (srv_host s)" "sh_graph (shared_of s) = dep_index (srv_host s)"
  "sh_resolver (shared_of s) = srv_resolver s"
  by (simp_all add: shared_of_def)

lemma with_shared_fields [simp]:
  "srv_config (with_shared s st) = srv_config s" "srv_debouncer (with_shared s st) = srv_debouncer s"
  "srv_cancels (with_shared s st) = srv_cancels s" "srv_next_token (with_shared s st) = srv_next_token s"
  "srv_next_context (with_shared s st) = srv_next_context s"
  "srv_contexts (with_shared s st) = srv_contexts s" "srv_running (with_shared s st) = srv_running s"
  "srv_conn (with_shared s st) = srv_conn s" "srv_published (with_shared s st) = srv_published s"
  "docs (srv_host (with_shared s st)) = docs (srv_host s)"
  "cache (srv_host (with_shared s st)) = sh_cache st"
  "dep_index (srv_host (with_shared s st)) = sh_graph st"
  "revision (srv_host (with_shared s st)) = revision (srv_host s)"
  "srv_action_resolvers (with_shared s st) = srv_action_resolvers s"
  "srv_sessions (with_shared s st) = srv_sessions s"
  "srv_session_order (with_shared s st) = srv_session_order s"
  "srv_next_session (with_shared s st) = srv_next_session s"
  by (simp_all add: with_shared_def)

lemma publish_fields [simp]:
  "srv_config (publish_diagnostics s u ds) = srv_config s"
  "srv_host (publish_diagnostics s u ds) = srv_host s"
  "srv_resolver (publish_diagnostics s u ds) = srv_resolver s"
  "srv_debouncer (publish_diagnostics s u ds) = srv_debouncer s"
  "srv_cancels (publish_diagnostics s u ds) = srv_cancels s"
  "srv_next_token (publish_diagnostics s u ds) = srv_next_token s"
  "srv_next_context (publish_diagnostics s u ds) = srv_next_context s"
  "srv_contexts (publish_diagnostics s u ds) = srv_contexts s"
  "srv_running (publish_diagnostics s u ds) = srv_running s"
  "srv_conn (publish_diagnostics s u ds) = srv_conn s"
  "srv_action_resolvers (publish_diagnostics s u ds) = srv_action_resolvers s"
  "srv_sessions (publish_diagnostics s u ds) = srv_sessions s"
  "srv_session_order (publish_diagnostics s u ds) = srv_session_order s"
  by (simp_all add: publish_diagnostics_def split: option.split)

lemma cancel_ctx_fields [simp]:
  "srv_config (cancel_ctx c s) = srv_config s" "srv_host (cancel_ctx c s) = srv_host s"
  "srv_debouncer (cancel_ctx c s) = srv_debouncer s" "srv_cancels (cancel_ctx c s) = srv_cancels s"
  "srv_next_token (cancel_ctx c s) = srv_next_token s"
  "srv_next_context (cancel_ctx c s) = srv_next_context s"
  "srv_contexts (cancel_ctx c s) = c # srv_contexts s" "srv_running (cancel_ctx c s) = srv_running s"
  "srv_conn (cancel_ctx c s) = srv_conn s" "srv_published (cancel_ctx c s) = srv_published s"
  "srv_action_resolvers (cancel_ctx c s) = srv_action_resolvers s"
  "srv_sessions (cancel_ctx c s) = srv_sessions s"
  "srv_session_order (cancel_ctx c s) = srv_session_order s" "srv_resolver (cancel_ctx c s) = srv_resolver s"
  by (simp_all add: cancel_ctx_def)

lemma host_wf_with_shared:
  "host_wf (srv_host s) \<Longrightarrow> shared_wf st \<Longrightarrow> host_wf (srv_host (with_shared s st))"
  by (simp add: host_wf_def shared_wf_def)

lemma shared_wf_of: "host_wf (srv_host s) \<Longrightarrow> shared_wf (shared_of s)"
  by (simp add: host_wf_def shared_wf_def)

lemma server_inv_new [simp]: "server_inv (new_server_v2 config rs)"
  by (simp add: inv_defs new_server_v2_def Let_def)

text \<open>Operations that leave the bookkeeping alone.\<close>

lemma server_inv_cong:
  assumes "server_inv s" and "host_wf (srv_host s')" and "docs (srv_host s') = docs (srv_host s)"
    and "srv_debouncer s' = srv_debouncer s" "srv_cancels s' = srv_cancels s"
    "srv_next_token s' = srv_next_token s" "srv_next_context s' = srv_next_context s"
    "srv_contexts s' = srv_contexts s" "srv_running s' = srv_running s"
  shows "server_inv s'"
  using assms by (simp add: inv_defs)

text \<open>Changing or removing a document and then cancelling its check.\<close>

definition cancelled_at :: "('c, 's) server \<Rightarrow> uri \<Rightarrow> nat list" where
  "cancelled_at s u = (case map_of (srv_cancels s) u of None \<Rightarrow> [] | Some e \<Rightarrow> [cancel_context e])"

lemma cancel_in_flight_fields [simp]:
  "srv_config (cancel_in_flight s u) = srv_config s" "srv_host (cancel_in_flight s u) = srv_host s"
  "srv_debouncer (cancel_in_flight s u) = srv_debouncer s"
  "srv_cancels (cancel_in_flight s u) = srv_cancels s"
  "srv_next_token (cancel_in_flight s u) = srv_next_token s"
  "srv_next_context (cancel_in_flight s u) = srv_next_context s"
  "srv_contexts (cancel_in_flight s u) = cancelled_at s u @ srv_contexts s"
  "srv_running (cancel_in_flight s u) = srv_running s"
  "srv_conn (cancel_in_flight s u) = srv_conn s" "srv_published (cancel_in_flight s u) = srv_published s"
  "srv_action_resolvers (cancel_in_flight s u) = srv_action_resolvers s"
  "srv_resolver (cancel_in_flight s u) = srv_resolver s"
  by (simp_all add: cancel_in_flight_def cancelled_at_def split: option.split)

lemma cancelled_no_live:
  assumes "server_inv s" "tokens_fresh s" "rc \<in> set (srv_running s)" "rc_uri rc = u"
  shows "rc_context rc \<in> set (cancelled_at s u @ srv_contexts s)"
proof (cases "live s rc")
  case True
  then have "map_of (srv_cancels s) u = Some \<lparr>cancel_context = rc_context rc, cancel_token = rc_token rc\<rparr>"
    using assms unfolding server_inv_def live_current_def by blast
  then show ?thesis by (simp add: cancelled_at_def)
next
  case False
  with assms(3) show ?thesis by (simp add: live_def)
qed

lemma cancelled_at_bound: "check_numbers s \<Longrightarrow> c \<in> set (cancelled_at s u) \<Longrightarrow> c < srv_next_context s"
  by (auto simp: cancelled_at_def check_numbers_def split: option.splits)

lemma server_inv_supersede:
  assumes inv: "server_inv s" and wf: "host_wf (srv_host s')"
    and docs: "\<And>w. w \<noteq> u \<Longrightarrow> doc_get (docs (srv_host s')) w = doc_get (docs (srv_host s)) w"
    and eqs: "srv_debouncer s' = srv_debouncer s"
      "srv_next_token s' = srv_next_token s" "srv_next_context s' = srv_next_context s"
      "srv_running s' = srv_running s"
    and ctx: "srv_contexts s' = cancelled_at s u @ srv_contexts s"
    and can: "srv_cancels s' = srv_cancels s \<or> srv_cancels s' = AList.delete u (srv_cancels s)"
  shows "server_inv s'" "tokens_fresh s \<Longrightarrow> no_live s' u"
proof -
  show nl: "no_live s' u" if "tokens_fresh s"
    using cancelled_no_live [OF inv that] by (auto simp: no_live_def live_def ctx eqs)
  have num: "check_numbers s" using inv by (simp add: server_inv_def)
  have sub: "map_of (srv_cancels s) w = Some e" if "map_of (srv_cancels s') w = Some e" for w e
    using can that by (auto simp: delete_conv' split: if_splits)
  have "\<forall>c \<in> set (srv_contexts s'). c < srv_next_context s"
    using num cancelled_at_bound [OF num] by (auto simp: ctx check_numbers_def)
  with num sub have nums: "check_numbers s'"
    unfolding check_numbers_def eqs by blast
  have "live_current s'" if fresh: "tokens_fresh s"
    unfolding live_current_def
  proof (intro allI impI)
    fix rc assume l: "live s' rc"
    with nl [OF fresh] have u: "rc_uri rc \<noteq> u" by (auto simp: no_live_def)
    from l have "live s rc" by (simp add: live_def eqs ctx)
    with inv fresh u docs can show "map_of (srv_cancels s') (rc_uri rc) =
          Some \<lparr>cancel_context = rc_context rc, cancel_token = rc_token rc\<rparr> \<and>
        doc_get (rc_documents rc) (rc_uri rc) = doc_get (docs (srv_host s')) (rc_uri rc) \<and>
        no_timer s' (rc_uri rc)"
      by (auto simp: server_inv_def live_current_def no_timer_def eqs delete_conv')
  qed
  then show "server_inv s'"
    using inv wf nums by (simp add: server_inv_def tokens_fresh_def eqs)
qed

text \<open>Arming a timer for a URI without a live check.\<close>

lemma armed_trigger: "x \<in> set (armed (deb_trigger d k)) \<Longrightarrow> x \<in> set (armed d) \<or> snd x = k"
  by (auto simp: deb_trigger_fields)

lemma server_inv_trigger:
  assumes inv: "server_inv s" and d: "srv_debouncer s = Some d"
    and nl: "tokens_fresh s \<Longrightarrow> no_live s u"
  shows "server_inv (s\<lparr>srv_debouncer := Some (deb_trigger d u)\<rparr>)" (is "server_inv ?s")
proof -
  have "live_current ?s" if fresh: "tokens_fresh s"
    unfolding live_current_def
  proof (intro allI impI)
    fix rc assume "live ?s rc"
    then have l: "live s rc" by (simp add: live_def)
    with nl [OF fresh] have "rc_uri rc \<noteq> u" by (auto simp: no_live_def)
    moreover have "(t, rc_uri rc) \<notin> set (armed d)" for t
      using inv fresh l d by (simp add: server_inv_def live_current_def no_timer_def)
    ultimately have "no_timer ?s (rc_uri rc)" using armed_trigger by (fastforce simp: no_timer_def)
    then show "map_of (srv_cancels ?s) (rc_uri rc) =
          Some \<lparr>cancel_context = rc_context rc, cancel_token = rc_token rc\<rparr> \<and>
        doc_get (rc_documents rc) (rc_uri rc) = doc_get (docs (srv_host ?s)) (rc_uri rc) \<and>
        no_timer ?s (rc_uri rc)"
      using inv fresh l by (simp add: server_inv_def live_current_def)
  qed
  then show ?thesis
    using inv d by (simp add: server_inv_def tokens_fresh_def check_numbers_def deb_sync_trigger)
qed

text \<open>Starting a check of a URI that has neither a live check nor a timer.\<close>

definition started_check :: "('c, 's) server \<Rightarrow> uri \<Rightarrow> running_check" where
  "started_check s u = \<lparr>rc_uri = u, rc_context = srv_next_context s, rc_token = srv_next_token s + 1,
     rc_documents = doc_snapshot (docs (srv_host s))\<rparr>"

lemma check_begin_eq:
  "check_begin s u = (started_check s u,
     s\<lparr>srv_next_context := Suc (srv_next_context s), srv_next_token := srv_next_token s + 1,
       srv_cancels := AList.update u \<lparr>cancel_context = srv_next_context s,
         cancel_token = srv_next_token s + 1\<rparr> (srv_cancels s)\<rparr>)"
  by (simp add: check_begin_def started_check_def host_snapshot_def Let_def)

lemma start_check_fields [simp]:
  "srv_config (start_check s u) = srv_config s"
  "srv_host (start_check s u) = srv_host s" "srv_debouncer (start_check s u) = srv_debouncer s"
  "srv_cancels (start_check s u) = AList.update u \<lparr>cancel_context = srv_next_context s,
     cancel_token = srv_next_token s + 1\<rparr> (srv_cancels s)"
  "srv_next_token (start_check s u) = srv_next_token s + 1"
  "srv_next_context (start_check s u) = Suc (srv_next_context s)"
  "srv_contexts (start_check s u) = srv_contexts s"
  "srv_running (start_check s u) = srv_running s @ [started_check s u]"
  "srv_conn (start_check s u) = srv_conn s" "srv_published (start_check s u) = srv_published s"
  "srv_action_resolvers (start_check s u) = srv_action_resolvers s"
  by (simp_all add: start_check_def check_begin_eq)

lemma started_check_fields [simp]:
  "rc_uri (started_check s u) = u" "rc_context (started_check s u) = srv_next_context s"
  "rc_token (started_check s u) = srv_next_token s + 1"
  "rc_documents (started_check s u) = doc_snapshot (docs (srv_host s))"
  by (simp_all add: started_check_def)

lemma server_inv_start:
  assumes inv: "server_inv s" and nl: "tokens_fresh s \<Longrightarrow> no_live s u"
    and nt: "tokens_fresh s \<Longrightarrow> no_timer s u"
  shows "server_inv (start_check s u)" (is "server_inv ?s")
proof -
  have num: "check_numbers s" and wf: "docs_wf (docs (srv_host s))"
    using inv by (auto simp: server_inv_def host_wf_def)
  from num have "check_numbers ?s"
    by (auto simp: check_numbers_def update_conv' less_Suc_eq)
  moreover have "live_current ?s" if "tokens_fresh ?s"
    unfolding live_current_def
  proof (intro allI impI)
    fix rc assume l: "live ?s rc"
    have fresh: "tokens_fresh s" using that by (simp add: tokens_fresh_def)
    show "map_of (srv_cancels ?s) (rc_uri rc) =
          Some \<lparr>cancel_context = rc_context rc, cancel_token = rc_token rc\<rparr> \<and>
        doc_get (rc_documents rc) (rc_uri rc) = doc_get (docs (srv_host ?s)) (rc_uri rc) \<and>
        no_timer ?s (rc_uri rc)"
    proof (cases "rc = started_check s u")
      case True
      with nt [OF fresh] wf show ?thesis
        by (simp add: update_conv' doc_get_snapshot no_timer_def)
    next
      case False
      with l have "live s rc" by (simp add: live_def)
      moreover from this nl [OF fresh] have "rc_uri rc \<noteq> u" by (auto simp: no_live_def)
      ultimately show ?thesis
        using inv fresh by (simp add: server_inv_def live_current_def update_conv' no_timer_def)
    qed
  qed
  ultimately show ?thesis using inv by (simp add: server_inv_def)
qed

text \<open>Ending a check.\<close>

lemma check_cleanup_fields [simp]:
  "srv_config (check_cleanup rc s) = srv_config s"
  "srv_host (check_cleanup rc s) = srv_host s" "srv_debouncer (check_cleanup rc s) = srv_debouncer s"
  "srv_next_token (check_cleanup rc s) = srv_next_token s"
  "srv_next_context (check_cleanup rc s) = srv_next_context s"
  "srv_contexts (check_cleanup rc s) = rc_context rc # srv_contexts s"
  "srv_running (check_cleanup rc s) = srv_running s"
  "srv_published (check_cleanup rc s) = srv_published s" "srv_conn (check_cleanup rc s) = srv_conn s"
  "srv_action_resolvers (check_cleanup rc s) = srv_action_resolvers s"
  "srv_cancels (check_cleanup rc s) =
     (if \<exists>e. map_of (srv_cancels s) (rc_uri rc) = Some e \<and> cancel_token e = rc_token rc
      then AList.delete (rc_uri rc) (srv_cancels s) else srv_cancels s)"
  by (auto simp: check_cleanup_def Let_def split: option.split)

lemma take_running_fields [simp]:
  "srv_config (take_running rc s) = srv_config s"
  "srv_host (take_running rc s) = srv_host s" "srv_debouncer (take_running rc s) = srv_debouncer s"
  "srv_cancels (take_running rc s) = srv_cancels s"
  "srv_next_token (take_running rc s) = srv_next_token s"
  "srv_next_context (take_running rc s) = srv_next_context s"
  "srv_contexts (take_running rc s) = srv_contexts s"
  "srv_running (take_running rc s) = filter (\<lambda>x. x \<noteq> rc) (srv_running s)"
  "srv_conn (take_running rc s) = srv_conn s" "srv_published (take_running rc s) = srv_published s"
  "srv_action_resolvers (take_running rc s) = srv_action_resolvers s"
  "srv_resolver (take_running rc s) = srv_resolver s"
  by (simp_all add: take_running_def)

lemma check_finish_eq:
  "check_finish env fuel rc s =
     map_option (\<lambda>(result, st). check_cleanup rc (if res_cancelled result then with_shared s st
         else publish_diagnostics (with_shared s st) (rc_uri rc) (res_diagnostics result)))
       (analyze env fuel (\<lambda>_. rc_context rc \<in> set (srv_contexts s)) (rc_documents rc) (rc_uri rc) (shared_of s))"
  by (simp add: check_finish_def Let_def split: option.split prod.split)

lemma check_finish_cases:
  assumes "check_finish env fuel rc s = Some s'"
  shows "\<exists>result st.
    analyze env fuel (\<lambda>_. rc_context rc \<in> set (srv_contexts s)) (rc_documents rc) (rc_uri rc) (shared_of s)
       = Some (result, st) \<and>
    s' = check_cleanup rc (if res_cancelled result then with_shared s st
       else publish_diagnostics (with_shared s st) (rc_uri rc) (res_diagnostics result))"
  using assms unfolding check_finish_eq map_option_eq_Some split_paired_Ex prod.case by metis

lemma check_finish_control:
  assumes "check_finish env fuel rc s = Some s'"
  shows "docs (srv_host s') = docs (srv_host s)" "srv_debouncer s' = srv_debouncer s"
    "srv_config s' = srv_config s" "srv_conn s' = srv_conn s"
    "srv_next_token s' = srv_next_token s" "srv_next_context s' = srv_next_context s"
    "srv_contexts s' = rc_context rc # srv_contexts s" "srv_running s' = srv_running s"
    "srv_action_resolvers s' = srv_action_resolvers s"
    "srv_cancels s' = (if \<exists>e. map_of (srv_cancels s) (rc_uri rc) = Some e \<and> cancel_token e = rc_token rc
      then AList.delete (rc_uri rc) (srv_cancels s) else srv_cancels s)"
    "host_wf (srv_host s) \<Longrightarrow> host_wf (srv_host s')"
proof -
  obtain result st where an: "analyze env fuel (\<lambda>_. rc_context rc \<in> set (srv_contexts s))
       (rc_documents rc) (rc_uri rc) (shared_of s) = Some (result, st)"
    and s': "s' = check_cleanup rc (if res_cancelled result then with_shared s st
       else publish_diagnostics (with_shared s st) (rc_uri rc) (res_diagnostics result))"
    using check_finish_cases [OF assms] by blast
  show "docs (srv_host s') = docs (srv_host s)" "srv_debouncer s' = srv_debouncer s"
    "srv_config s' = srv_config s" "srv_conn s' = srv_conn s"
    "srv_next_token s' = srv_next_token s" "srv_next_context s' = srv_next_context s"
    "srv_contexts s' = rc_context rc # srv_contexts s" "srv_running s' = srv_running s"
    "srv_action_resolvers s' = srv_action_resolvers s"
    "srv_cancels s' = (if \<exists>e. map_of (srv_cancels s) (rc_uri rc) = Some e \<and> cancel_token e = rc_token rc
      then AList.delete (rc_uri rc) (srv_cancels s) else srv_cancels s)"
    by (simp_all add: s' if_distrib cong: if_cong)
  assume "host_wf (srv_host s)"
  with an have "host_wf (srv_host (with_shared s st))"
    by (intro host_wf_with_shared analyze_wf [OF an]) (auto intro: shared_wf_of)
  then show "host_wf (srv_host s')" by (simp add: s')
qed

lemma token_inj:
  assumes "(of_nat (Suc a) :: u64) = of_nat (Suc b)" "a < n" "b < n" "n < 2 ^ 64"
  shows "a = b"
proof -
  have "unat (of_nat (Suc a) :: u64) = unat (of_nat (Suc b) :: u64)" by (simp only: assms(1))
  then have "Suc a mod 2 ^ 64 = Suc b mod 2 ^ 64" by (simp only: unat_of_nat) simp
  with assms(2-4) show ?thesis by (cases "Suc a = 2 ^ 64"; cases "Suc b = 2 ^ 64") simp_all
qed

lemma server_inv_finish:
  assumes inv: "server_inv s" and rc: "rc \<in> set (srv_running s)"
    and fin: "check_finish env fuel rc (take_running rc s) = Some s'"
  shows "server_inv s'"
proof -
  note ctl = check_finish_control [OF fin, simplified]
  have num: "check_numbers s" and wf: "host_wf (srv_host s)" using inv by (auto simp: server_inv_def)
  have sub: "map_of (srv_cancels s) w = Some e" if "map_of (srv_cancels s') w = Some e" for w e
    using that by (auto simp: ctl delete_conv' split: if_splits)
  have own: "rc_context rc < srv_next_context s" "rc_token rc = of_nat (Suc (rc_context rc))"
    using num rc by (auto simp: check_numbers_def)
  have "distinct (map rc_context (srv_running s'))"
    using num by (simp add: ctl check_numbers_def distinct_map_filter)
  moreover have "\<forall>u e. map_of (srv_cancels s') u = Some e \<longrightarrow>
      cancel_context e < srv_next_context s \<and> cancel_token e = of_nat (Suc (cancel_context e))"
    using num sub unfolding check_numbers_def by blast
  ultimately have nums: "check_numbers s'"
    using num own unfolding check_numbers_def ctl(5-8) by auto
  have "live_current s'" if "tokens_fresh s'"
    unfolding live_current_def
  proof (intro allI impI)
    fix rc' assume "live s' rc'"
    then have l: "live s rc'" and ne: "rc_context rc' \<noteq> rc_context rc" and r': "rc' \<in> set (srv_running s)"
      by (auto simp: live_def ctl)
    have fresh: "tokens_fresh s" using that by (simp add: tokens_fresh_def ctl)
    have reg: "map_of (srv_cancels s) (rc_uri rc') =
        Some \<lparr>cancel_context = rc_context rc', cancel_token = rc_token rc'\<rparr>"
      and rest: "doc_get (rc_documents rc') (rc_uri rc') = doc_get (docs (srv_host s)) (rc_uri rc')"
        "no_timer s (rc_uri rc')"
      using inv fresh l by (auto simp: server_inv_def live_current_def)
    have "rc_context rc' < srv_next_context s" "rc_token rc' = of_nat (Suc (rc_context rc'))"
      using num r' by (auto simp: check_numbers_def)
    then have "rc_token rc' \<noteq> rc_token rc"
      using token_inj [of "rc_context rc'" "rc_context rc" "srv_next_context s"] own ne fresh
      by (auto simp: tokens_fresh_def)
    with reg rest show "map_of (srv_cancels s') (rc_uri rc') =
          Some \<lparr>cancel_context = rc_context rc', cancel_token = rc_token rc'\<rparr> \<and>
        doc_get (rc_documents rc') (rc_uri rc') = doc_get (docs (srv_host s')) (rc_uri rc') \<and>
        no_timer s' (rc_uri rc')"
      by (auto simp: ctl delete_conv' no_timer_def)
  qed
  then show ?thesis using inv nums wf by (simp add: server_inv_def ctl)
qed

text \<open>A synchronous check is a start followed at once by its end.\<close>

lemma run_check_as_steps:
  assumes "check_numbers s"
  shows "run_check env fuel s u =
     check_finish env fuel (started_check s u) (take_running (started_check s u) (start_check s u))"
proof -
  have "started_check s u \<notin> set (srv_running s)"
    using assms by (fastforce simp: check_numbers_def)
  then have "filter (\<lambda>x. x \<noteq> started_check s u) (srv_running s) = srv_running s"
    by (auto intro: filter_True)
  then have "take_running (started_check s u) (start_check s u) = snd (check_begin s u)"
    by (simp add: take_running_def start_check_def check_begin_eq)
  then show ?thesis by (simp add: run_check_def check_begin_eq)
qed

lemma server_inv_run_check:
  assumes inv: "server_inv s" and nl: "tokens_fresh s \<Longrightarrow> no_live s u"
    and nt: "tokens_fresh s \<Longrightarrow> no_timer s u" and run: "run_check env fuel s u = Some s'"
  shows "server_inv s'"
proof -
  have "check_numbers s" using inv by (simp add: server_inv_def)
  from run_check_as_steps [OF this, of env fuel u] run
  show ?thesis by (auto intro: server_inv_finish [OF server_inv_start [OF inv nl nt]])
qed

text \<open>A document update followed by scheduling its check.\<close>

lemma update_document_docs [simp]:
  "docs (update_document f h u t v) = doc_set (docs h) u t v"
  "docs (remove_document f h u) = doc_delete (docs h) u"
  by (simp_all add: update_document_def remove_document_def Let_def)

definition with_document ::
    "('p, 'c, 's) env \<Rightarrow> ('c, 's) server \<Rightarrow> uri \<Rightarrow> string \<Rightarrow> 32 word \<Rightarrow> ('c, 's) server" where
  "with_document env s u t v = s\<lparr>srv_host := update_document (loc_id env) (srv_host s) u t v\<rparr>"

lemma with_document_fields [simp]:
  "srv_config (with_document env s u t v) = srv_config s"
  "srv_host (with_document env s u t v) = update_document (loc_id env) (srv_host s) u t v"
  "srv_debouncer (with_document env s u t v) = srv_debouncer s"
  "srv_cancels (with_document env s u t v) = srv_cancels s"
  "srv_next_token (with_document env s u t v) = srv_next_token s"
  "srv_next_context (with_document env s u t v) = srv_next_context s"
  "srv_contexts (with_document env s u t v) = srv_contexts s"
  "srv_running (with_document env s u t v) = srv_running s"
  "srv_conn (with_document env s u t v) = srv_conn s"
  "srv_published (with_document env s u t v) = srv_published s"
  "srv_resolver (with_document env s u t v) = srv_resolver s"
  "srv_action_resolvers (with_document env s u t v) = srv_action_resolvers s"
  by (simp_all add: with_document_def)

lemma did_open_eq: "did_open env fuel s u t v = schedule_check env fuel (with_document env s u t v) u"
  by (simp add: did_open_def with_document_def)

lemma did_change_eq:
  "did_change env fuel s u v changes =
     (if changes = [] then Some s
      else schedule_check env fuel (with_document env s u (last changes) v) u)"
  by (simp add: did_change_def with_document_def last_conv_nth)

lemma server_inv_superseded:
  assumes "server_inv s"
  shows "server_inv (cancel_in_flight (with_document env s u t v) u)"
    "tokens_fresh s \<Longrightarrow> no_live (cancel_in_flight (with_document env s u t v) u) u"
  by (rule server_inv_supersede [OF assms]; use assms in \<open>simp add: server_inv_def cancelled_at_def\<close>)+

lemma server_inv_schedule:
  assumes inv: "server_inv s" and sync: "cfg_debounce_delay (srv_config s) = 0 \<Longrightarrow> srv_debouncer s = None"
    and sch: "schedule_check env fuel (with_document env s u t v) u = Some s'"
  shows "server_inv s'"
proof -
  let ?s = "cancel_in_flight (with_document env s u t v) u"
  have inv1: "server_inv ?s" and nl: "tokens_fresh ?s \<Longrightarrow> no_live ?s u"
    using server_inv_superseded [OF inv] by (auto simp: tokens_fresh_def)
  show ?thesis
  proof (cases "cfg_debounce_delay (srv_config s) = 0")
    case True
    with sch sync show ?thesis
      by (intro server_inv_run_check [OF inv1 nl]) (auto simp: schedule_check_def no_timer_def)
  next
    case False
    with sch obtain d where "srv_debouncer ?s = Some d" "s' = ?s\<lparr>srv_debouncer := Some (deb_trigger d u)\<rparr>"
      by (auto simp: schedule_check_def split: option.splits)
    with server_inv_trigger [OF inv1 _ nl] show ?thesis by blast
  qed
qed

definition server_cfg :: "server_config \<Rightarrow> ('c, 's) server \<Rightarrow> bool" where
  "server_cfg config s \<longleftrightarrow> srv_config s = config \<and>
     (srv_debouncer s \<noteq> None \<longleftrightarrow> cfg_debounce_delay config > 0)"

lemma server_cfg_new [simp]: "server_cfg config (new_server_v2 config rs)"
  by (simp add: server_cfg_def new_server_v2_def Let_def)

lemma schedule_check_cfg:
  assumes "schedule_check env fuel s u = Some s'" "server_cfg config s"
  shows "server_cfg config s'"
  using assms
  by (auto simp: schedule_check_def Let_def server_cfg_def run_check_def check_begin_eq
      check_finish_control split: if_splits option.splits)

lemma schedule_document:
  assumes "server_inv s" "server_cfg config s"
    and sch: "schedule_check env fuel (with_document env s u t v) u = Some s'"
  shows "server_inv s' \<and> server_cfg config s'"
proof
  show "server_inv s'"
    using assms by (intro server_inv_schedule [OF assms(1) _ sch]) (auto simp: server_cfg_def)
  show "server_cfg config s'"
    using assms(2) by (intro schedule_check_cfg [OF sch]) (simp add: server_cfg_def)
qed

lemma did_close_fields [simp]:
  "srv_config (did_close env s u) = srv_config s"
  "srv_debouncer (did_close env s u) = srv_debouncer s"
  "srv_host (did_close env s u) = remove_document (loc_id env) (srv_host s) u"
  "srv_next_token (did_close env s u) = srv_next_token s"
  "srv_next_context (did_close env s u) = srv_next_context s"
  "srv_contexts (did_close env s u) = cancelled_at s u @ srv_contexts s"
  "srv_running (did_close env s u) = srv_running s" "srv_conn (did_close env s u) = srv_conn s"
  "srv_cancels (did_close env s u) =
     (if map_of (srv_cancels s) u = None then srv_cancels s else AList.delete u (srv_cancels s))"
  "srv_action_resolvers (did_close env s u) = AList.delete u (srv_action_resolvers s)"
  "srv_published (did_close env s u) =
     srv_published s @ (case srv_conn s of None \<Rightarrow> [] | Some n \<Rightarrow> [(n, u, [])])"
  by (simp_all add: did_close_def Let_def cancelled_at_def publish_diagnostics_def split: option.split)

lemma server_inv_close: "server_inv s \<Longrightarrow> server_inv (did_close env s u)"
  by (rule server_inv_supersede(1)) (auto simp: server_inv_def)

lemma no_live_close: "server_inv s \<Longrightarrow> tokens_fresh s \<Longrightarrow> no_live (did_close env s u) u"
  by (rule server_inv_supersede(2)) (auto simp: server_inv_def)

lemma checker_for_document_cases:
  assumes "checker_for_document env fuel s u = Some (c, s')"
  shows "\<exists>key. s' = s\<lparr>srv_host := (srv_host s)\<lparr>cache := snd (lru_get (cache (srv_host s)) key)\<rparr>\<rparr> \<or>
    (\<exists>res st ds. analyze env fuel (\<lambda>_. False) ds u
       (shared_of (s\<lparr>srv_host := (srv_host s)\<lparr>cache := snd (lru_get (cache (srv_host s)) key)\<rparr>\<rparr>))
       = Some (res, st) \<and> s' = with_shared (s\<lparr>srv_host := (srv_host s)\<lparr>cache := snd (lru_get (cache (srv_host s)) key)\<rparr>\<rparr>) st)"
  using assms by (auto simp: checker_for_document_def Let_def split: option.splits)

lemma host_wf_lru_get: "host_wf h \<Longrightarrow> host_wf (h\<lparr>cache := snd (lru_get (cache h) k)\<rparr>)"
  by (simp add: host_wf_def lru_wf_get)

lemma checker_for_document_control:
  assumes "checker_for_document env fuel s u = Some (c, s')"
  shows "docs (srv_host s') = docs (srv_host s)" "srv_debouncer s' = srv_debouncer s"
    "srv_config s' = srv_config s" "srv_conn s' = srv_conn s" "srv_published s' = srv_published s"
    "srv_next_token s' = srv_next_token s" "srv_next_context s' = srv_next_context s"
    "srv_contexts s' = srv_contexts s" "srv_running s' = srv_running s"
    "srv_cancels s' = srv_cancels s" "srv_action_resolvers s' = srv_action_resolvers s"
    "srv_sessions s' = srv_sessions s" "srv_session_order s' = srv_session_order s"
    "srv_next_session s' = srv_next_session s"
    "host_wf (srv_host s) \<Longrightarrow> host_wf (srv_host s')"
proof -
  show "host_wf (srv_host s')" if wf: "host_wf (srv_host s)"
    using checker_for_document_cases [OF assms]
    by (auto simp: host_wf_lru_get [OF wf] intro!: host_wf_with_shared
        dest!: analyze_wf [OF _ shared_wf_of])
qed (use checker_for_document_cases [OF assms] in auto)

lemma common_step_inv:
  assumes "common_step env fuel s s'" "server_inv s" "server_cfg config s"
  shows "server_inv s' \<and> server_cfg config s'"
  using assms(1)
proof cases
  case (c_init n)
  with assms(2,3) show ?thesis
    by (simp add: initialize_conn_def server_cfg_def inv_defs)
next
  case (c_open u t v)
  then show ?thesis unfolding did_open_eq by (rule schedule_document [OF assms(2,3)])
next
  case (c_change u v changes)
  with assms(2,3) schedule_document [OF assms(2,3)] show ?thesis
    unfolding did_change_eq by (simp split: if_splits) blast
next
  case (c_close u)
  with assms(2,3) show ?thesis by (simp add: server_inv_close server_cfg_def)
next
  case (c_query u c)
  note ctl = checker_for_document_control [OF c_query]
  from assms(2,3) have "server_inv s'"
    by (intro server_inv_cong [OF assms(2)]) (simp_all add: ctl server_inv_def)
  with assms(3) show ?thesis by (simp add: server_cfg_def ctl)
next
  case (c_finish rc)
  from check_finish_control [OF c_finish(2)] assms(3) have "server_cfg config s'"
    by (simp add: server_cfg_def)
  with server_inv_finish [OF assms(2) c_finish] show ?thesis by blast
next
  case c_shutdown
  with assms(2,3) show ?thesis
    by (auto simp: shutdown_def server_cfg_def inv_defs deb_sync_stop split: option.splits)
qed

lemma server_step_inv:
  assumes "server_step env fuel s s'" "server_inv s" "server_cfg config s"
  shows "server_inv s' \<and> server_cfg config s'"
  using assms(1)
proof cases
  case common
  from common_step_inv [OF this assms(2,3)] show ?thesis .
next
  case (fire d t)
  let ?d = "deb_callback (deb_expire d t) t" and ?s = "s\<lparr>srv_debouncer := Some (deb_callback (deb_expire d t) t)\<rparr>"
  have sync: "deb_sync d" using assms(2) fire by (simp add: server_inv_def)
  have sub: "set (armed ?d) = set (armed d) - {t}" by (auto simp: deb_callback_def deb_expire_def)
  have "server_inv ?s"
    using assms(2) fire deb_sync_fire [OF sync fire(3)]
    by (auto simp: inv_defs sub)
  moreover have "no_timer ?s (snd t)"
  proof -
    have "(m, snd t) = t" if "(m, snd t) \<in> set (armed d)" for m
      using deb_sync_one_per_key [OF sync that, of "fst t"] fire(3) by (metis prod.collapse)
    then show ?thesis by (auto simp: no_timer_def sub)
  qed
  moreover have "no_live ?s (snd t)" if "tokens_fresh ?s"
  proof -
    have "tokens_fresh s" using that by (simp add: tokens_fresh_def)
    with assms(2) have "no_timer s (rc_uri rc)" if "live s rc" for rc
      using that by (simp add: server_inv_def live_current_def)
    with fire(2,3) have "live s rc \<Longrightarrow> rc_uri rc \<noteq> snd t" for rc
      unfolding no_timer_def by (metis prod.collapse)
    then show ?thesis by (auto simp: no_live_def live_def)
  qed
  ultimately have "server_inv (start_check ?s (snd t))" by (intro server_inv_start)
  with fire(1,2) assms(3) show ?thesis by (simp add: server_cfg_def)
qed

lemma server_run_inv: "server_run env fuel config rs s \<Longrightarrow> server_inv s \<and> server_cfg config s"
proof (induction rule: server_run.induct)
  case (run_step s s')
  then show ?case using server_step_inv by blast
qed simp

section \<open>An echoing front end for the closed examples\<close>

text \<open>Its only diagnostic is the text itself, and the checker of a text is the text.\<close>

definition echo_env :: "(string, string, unit) env" where
  "echo_env = \<lparr>api = \<lparr>parse_program = (\<lambda>code. (Some code, Some (CadenceError code None None))),
       sole_contract = (\<lambda>_. False), sole_contract_interface = (\<lambda>_. False), sole_transaction = (\<lambda>_. False),
       new_checker_error = (\<lambda>_ _. None), sub_checker_error = (\<lambda>_ _. None),
       check_program = (\<lambda>code l. Finished code None)\<rparr>,
     loc_id = demo_id, import_resolver = None\<rparr>"

definition slow_config :: server_config where
  "slow_config = \<lparr>cfg_cache_capacity = 4, cfg_debounce_delay = 1\<rparr>"

definition fast_config :: server_config where
  "fast_config = \<lparr>cfg_cache_capacity = 4, cfg_debounce_delay = 0\<rparr>"

text \<open>
  The race, state by state: the first timer expires, the text changes and a second timer is
  armed; both callbacks start a check, and the second registration overwrites the first.
\<close>

definition race1 :: "(string, unit) server" where
  "race1 = the (did_open echo_env 1 (initialize_conn (new_server_v2 slow_config ()) 7) ''u'' ''v1'' 1)"

definition expire_timer :: "(string, unit) server \<Rightarrow> nat \<times> string \<Rightarrow> (string, unit) server" where
  "expire_timer s t = s\<lparr>srv_debouncer := Some (deb_expire (the (srv_debouncer s)) t)\<rparr>"

definition call_back :: "(string, unit) server \<Rightarrow> nat \<times> string \<Rightarrow> (string, unit) server" where
  "call_back s t = start_check (s\<lparr>srv_debouncer := Some (deb_callback (the (srv_debouncer s)) t)\<rparr>) (snd t)"

definition change_text :: "(string, unit) server \<Rightarrow> string \<Rightarrow> (string, unit) server" where
  "change_text s t = the (did_change echo_env 1 s ''u'' 2 [t])"

definition finish_nth :: "nat \<Rightarrow> (string, unit) server \<Rightarrow> (string, unit) server" where
  "finish_nth n s = the (check_finish echo_env 1 (srv_running s ! n) (take_running (srv_running s ! n) s))"

definition race2 :: "(string, unit) server" where
  "race2 = call_back (expire_timer (call_back (change_text (expire_timer race1 (0, ''u'')) ''v2'') (0, ''u'')) (1, ''u'')) (1, ''u'')"

definition race3 :: "(string, unit) server" where
  "race3 = call_back (expire_timer (change_text race2 ''v3'') (2, ''u'')) (2, ''u'')"

definition race4 :: "(string, unit) server" where
  "race4 = finish_nth 0 (finish_nth 2 race3)"

lemma race_result:
  "map (\<lambda>p. map pd_message (snd (snd p))) (srv_published race4) = [[''v3''], [''v2'']] \<and>
   map_option doc_text (get_document (srv_host race4) ''u'') = Some ''v3'' \<and>
   map_option ce_checker (lru_peek (cache (srv_host race4)) ''u'') = Some (Some ''v2'')"
  by code_simp

lemma racy_init_conn: "racy_run env fuel config rs s \<Longrightarrow> racy_run env fuel config rs (initialize_conn s n)"
  by (rule racy_next [OF _ r_common [OF c_init]])

lemma racy_change:
  "racy_run echo_env 1 config rs s \<Longrightarrow> \<not> Option.is_none (did_change echo_env 1 s ''u'' 2 [t]) \<Longrightarrow>
   racy_run echo_env 1 config rs (change_text s t)"
  by (rule racy_next [OF _ r_common [OF c_change]]) (auto simp: change_text_def Option.is_none_def)

lemma racy_expire:
  "racy_run echo_env 1 config rs s \<Longrightarrow> \<not> Option.is_none (srv_debouncer s) \<Longrightarrow>
   t \<in> set (armed (the (srv_debouncer s))) \<Longrightarrow> racy_run echo_env 1 config rs (expire_timer s t)"
  unfolding expire_timer_def by (rule racy_next [OF _ r_expire]) (auto simp: Option.is_none_def)

lemma racy_call:
  "racy_run echo_env 1 config rs s \<Longrightarrow> \<not> Option.is_none (srv_debouncer s) \<Longrightarrow>
   t \<in> set (expired (the (srv_debouncer s))) \<Longrightarrow> racy_run echo_env 1 config rs (call_back s t)"
  unfolding call_back_def by (rule racy_next [OF _ r_callback]) (auto simp: Option.is_none_def)

lemma racy_finish:
  "racy_run echo_env 1 config rs s \<Longrightarrow> n < length (srv_running s) \<Longrightarrow>
   \<not> Option.is_none (check_finish echo_env 1 (srv_running s ! n) (take_running (srv_running s ! n) s)) \<Longrightarrow>
   racy_run echo_env 1 config rs (finish_nth n s)"
  unfolding finish_nth_def by (rule racy_next [OF _ r_common [OF c_finish]]) (auto simp: Option.is_none_def)

lemma racy_race1: "racy_run echo_env 1 slow_config () race1"
proof -
  have "did_open echo_env 1 (initialize_conn (new_server_v2 slow_config ()) 7) ''u'' ''v1'' 1 \<noteq> None"
    by (simp add: did_open_def schedule_check_def slow_config_def new_server_v2_def
        initialize_conn_def Let_def cancel_in_flight_def)
  then have "did_open echo_env 1 (initialize_conn (new_server_v2 slow_config ()) 7) ''u'' ''v1'' 1 = Some race1"
    by (auto simp: race1_def)
  from racy_next [OF racy_init_conn [OF racy_init] r_common [OF c_open [OF this]]] show ?thesis .
qed

lemma racy_race4: "racy_run echo_env 1 slow_config () race4"
  unfolding race4_def race3_def race2_def
  by (intro racy_finish racy_call racy_expire racy_change racy_race1; code_simp)

section \<open>Facts the properties share\<close>

lemma analyze_documents_cong:
  "doc_get ds u = doc_get ds' u \<Longrightarrow> analyze env fuel c ds u st = analyze env fuel c ds' u st"
  by (simp only: analyze_def)

lemma analyze_cancelled:
  "c 0 \<Longrightarrow> analyze env fuel c ds u st = Some ((empty_result u)\<lparr>res_cancelled := True\<rparr>, st)"
  by (simp add: analyze_def)

lemma analyze_missing:
  "\<not> c 0 \<Longrightarrow> doc_get ds u = None \<Longrightarrow> analyze env fuel c ds u st =
     Some ((empty_result u)\<lparr>res_diagnostics := [unpositioned_diagnostic ''document not found'']\<rparr>, st)"
  by (simp add: analyze_def)

lemma with_shared_same [simp]: "with_shared s (shared_of s) = s"
  by (simp add: with_shared_def shared_of_def)

lemma analyze_not_cancelled:
  "analyze env fuel c ds u st = Some (res, st') \<Longrightarrow> (\<And>i. \<not> c i) \<Longrightarrow> \<not> res_cancelled res"
  unfolding analyze_def
  by (auto simp: Let_def empty_result_def split: if_splits option.splits prod.splits)

lemma analyze_caches:
  assumes "analyze env fuel c ds u st = Some (res, st')" "shared_wf st" "res_checker res = Some ch"
  shows "lru_peek (sh_cache st') (loc_id env (StringLocation u)) = Some \<lparr>ce_checker = Some ch, ce_valid = True\<rparr>"
proof -
  obtain prog e st1 where run: "run_checker (check_program (api env) prog (StringLocation u))
        (handle_import env (loc_id env (StringLocation u)) fuel) st = Some ((ch, e), st1)"
    and st': "st' = put_checker (loc_id env (StringLocation u)) ch st1"
    using analyze_cases [OF assms(1)] assms(3) by (auto split: if_splits)
  have "lru_wf (sh_cache st1)" using run_checker_wf [OF run assms(2)] by (simp add: shared_wf_def)
  then show ?thesis by (simp add: st' put_checker_def cache.peek_put_same)
qed

lemma check_finish_published:
  assumes "check_finish env fuel rc s = Some s'"
  shows "(rc_context rc \<in> set (srv_contexts s) \<and> srv_published s' = srv_published s \<and>
            srv_host s' = srv_host s \<and> srv_resolver s' = srv_resolver s) \<or>
    (\<exists>res st. rc_context rc \<notin> set (srv_contexts s) \<and>
       analyze env fuel (\<lambda>_. False) (rc_documents rc) (rc_uri rc) (shared_of s) = Some (res, st) \<and>
       srv_published s' = srv_published s @ (case srv_conn s of None \<Rightarrow> []
         | Some n \<Rightarrow> [(n, rc_uri rc, map convert_diagnostic (res_diagnostics res))]))"
proof (cases "rc_context rc \<in> set (srv_contexts s)")
  case True
  with assms show ?thesis
    by (auto simp: check_finish_eq analyze_cancelled check_cleanup_def Let_def cancel_ctx_def split: option.split)
next
  case False
  then have ctx: "(\<lambda>_::nat. rc_context rc \<in> set (srv_contexts s)) = (\<lambda>_. False)" by simp
  obtain res st where an: "analyze env fuel (\<lambda>_. False) (rc_documents rc) (rc_uri rc) (shared_of s) = Some (res, st)"
    and s': "s' = check_cleanup rc (if res_cancelled res then with_shared s st
       else publish_diagnostics (with_shared s st) (rc_uri rc) (res_diagnostics res))"
    using check_finish_cases [OF assms] unfolding ctx by blast
  have "\<not> res_cancelled res" by (rule analyze_not_cancelled [OF an]) simp
  with False an s' show ?thesis by (auto simp: publish_diagnostics_def split: option.split)
qed

section \<open>Properties\<close>

text \<open>
  When timers start their checks without delay, then, whatever the order of openings, changes,
  closings, requests, firings and ends of checks (fewer than \<open>2 ^ 64\<close> of them): a URI has at
  most one check that is not cancelled, this check is the one the cancellation table holds, it
  works on the current text of the document, and no timer of the URI is pending.
\<close>

lemma live_check_of_inv:
  assumes "server_inv s" and "srv_next_context s < 2 ^ 64" and "live s rc"
  shows "(\<forall>rc'. live s rc' \<and> rc_uri rc' = rc_uri rc \<longrightarrow> rc' = rc) \<and>
         map_option cancel_context (map_of (srv_cancels s) (rc_uri rc)) = Some (rc_context rc) \<and>
         doc_get (rc_documents rc) (rc_uri rc) = get_document (srv_host s) (rc_uri rc) \<and>
         no_timer s (rc_uri rc)"
proof -
  from assms(1,2) have cur: "live_current s" and num: "check_numbers s"
    by (auto simp: server_inv_def tokens_fresh_def)
  have "rc' = rc" if "live s rc'" "rc_uri rc' = rc_uri rc" for rc'
  proof -
    have "rc_context rc' = rc_context rc"
      using cur that assms(3) unfolding live_current_def by (metis cancel_entry.ext_inject option.inject)
    with num that assms(3) show ?thesis
      by (auto simp: check_numbers_def live_def distinct_map dest: inj_onD)
  qed
  with cur assms(3) show ?thesis by (simp add: live_current_def get_document_def)
qed

lemma slow_open_run:
  "server_run echo_env 1 slow_config () race1"
proof -
  have "did_open echo_env 1 (initialize_conn (new_server_v2 slow_config ()) 7) ''u'' ''v1'' 1 = Some race1"
    by (simp add: race1_def did_open_def schedule_check_def slow_config_def new_server_v2_def
        initialize_conn_def Let_def cancel_in_flight_def)
  from run_step [OF run_step [OF run_init server_step.common [OF c_init]] server_step.common [OF c_open [OF this]]]
  show ?thesis .
qed

definition fired1 :: "(string, unit) server" where
  "fired1 = start_check (race1\<lparr>srv_debouncer := Some (deb_callback (deb_expire
     (the (srv_debouncer race1)) (0, ''u'')) (0, ''u''))\<rparr>) ''u''"

lemma fired1_run: "server_run echo_env 1 slow_config () fired1"
proof -
  have "\<not> Option.is_none (srv_debouncer race1)" by code_simp
  then have "srv_debouncer race1 = Some (the (srv_debouncer race1))" by (auto simp: Option.is_none_def)
  moreover have "(0, ''u'') \<in> set (armed (the (srv_debouncer race1)))" by code_simp
  ultimately show ?thesis
    unfolding fired1_def using run_step [OF slow_open_run server_step.fire, of "the (srv_debouncer race1)" "(0, ''u'')"]
    by simp
qed

lemma fired1_context: "srv_next_context fired1 = 1"
  by code_simp



text \<open>
  When a timer that has expired is slow to take the debouncer's lock, the guarantee is lost:
  two checks of one document run at the same time, the registration of the second hides the first,
  and a later change cancels only the second. The first one then publishes the diagnostics of an old
  text after those of the current text, and leaves its old checker, marked valid, in the cache.
\<close>

theorem stale_check_after_race:
  "\<exists>s. racy_run echo_env 1 slow_config () s \<and>
     map (\<lambda>p. map pd_message (snd (snd p))) (srv_published s) = [[''v3''], [''v2'']] \<and>
     map_option doc_text (get_document (srv_host s) ''u'') = Some ''v3'' \<and>
     map_option ce_checker (lru_peek (cache (srv_host s)) ''u'') = Some (Some ''v2'')"
  by (rule exI [of _ race4], rule conjI, rule racy_race4, rule race_result)

text \<open>
  Closing a document does not stop its timer. If one is pending, the check it starts finds no
  document and publishes the error ``document not found'' for the closed URI, after the empty list
  that the closing published to clear the client's view.
\<close>

theorem closed_document_reported_missing:
  assumes "server_run env fuel config rs s" and "srv_debouncer s = Some d"
    and "(m, u) \<in> set (armed d)" and "srv_conn s = Some n"
  shows "\<exists>s2 s3. server_step env fuel (did_close env s u) s2 \<and> server_step env fuel s2 s3 \<and>
     get_document (srv_host s3) u = None \<and>
     srv_published s3 = srv_published s @
       [(n, u, []), (n, u, [convert_diagnostic (unpositioned_diagnostic ''document not found'')])]"
proof -
  let ?s1 = "did_close env s u" and ?d = "deb_callback (deb_expire d (m, u)) (m, u)"
  let ?r = "?s1\<lparr>srv_debouncer := Some ?d\<rparr>"
  let ?s2 = "start_check ?r u" and ?rc = "started_check ?r u"
  have inv: "server_inv ?s1" using server_run_inv [OF assms(1)] by (simp add: server_inv_close)
  then have num: "check_numbers ?s1" and wf: "docs_wf (docs (srv_host ?s1))"
    by (auto simp: server_inv_def host_wf_def)
  have step2: "server_step env fuel ?s1 ?s2"
    using server_step.fire [of ?s1 d "(m, u)" env fuel] assms(2,3) by simp
  have "srv_next_context ?s1 \<notin> set (srv_contexts ?s1)" using num by (auto simp: check_numbers_def)
  moreover have "doc_get (rc_documents ?rc) u = None" using wf by (simp add: doc_get_snapshot)
  ultimately have "check_finish env fuel ?rc (take_running ?rc ?s2) = Some (check_cleanup ?rc
      (publish_diagnostics (take_running ?rc ?s2) u [unpositioned_diagnostic ''document not found'']))"
    (is "_ = Some ?s3") by (simp add: check_finish_eq analyze_missing empty_result_def)
  then have "server_step env fuel ?s2 ?s3"
    by (intro server_step.common common_step.c_finish) simp_all
  moreover have "get_document (srv_host ?s3) u = None" by (simp add: get_document_def)
  moreover have "srv_published ?s3 = srv_published s @
      [(n, u, []), (n, u, [convert_diagnostic (unpositioned_diagnostic ''document not found'')])]"
    using assms(4) by (simp add: publish_diagnostics_def)
  ultimately show ?thesis using step2 by blast
qed

theorem closed_document_reported_missing_witness:
  "\<exists>s2 s3. server_step echo_env 1 (did_close echo_env race1 ''u'') s2 \<and> server_step echo_env 1 s2 s3 \<and>
     get_document (srv_host s3) ''u'' = None \<and>
     srv_published s3 = srv_published race1 @
       [(7, ''u'', []), (7, ''u'', [convert_diagnostic (unpositioned_diagnostic ''document not found'')])]"
proof -
  have "\<not> Option.is_none (srv_debouncer race1)" by code_simp
  then have a: "srv_debouncer race1 = Some (the (srv_debouncer race1))" by (auto simp: Option.is_none_def)
  have b: "(0, ''u'') \<in> set (armed (the (srv_debouncer race1)))" by code_simp
  have c: "srv_conn race1 = Some 7" by code_simp
  show ?thesis by (rule closed_document_reported_missing [OF slow_open_run a b c])
qed

text \<open>
  Without a delay, a change notification checks the last of its texts at once: it publishes
  exactly one list of diagnostics, those of the new text, the checker it produced is cached, valid,
  under the document's key, and no cancellation entry of the document remains.
\<close>

theorem sync_change_publishes:
  assumes "server_run env fuel config rs s" and "cfg_debounce_delay config = 0" and "changes \<noteq> []"
    and "did_change env fuel s u v changes = Some s'"
  shows "\<exists>res st. analyze env fuel (\<lambda>_. False) (docs (srv_host (with_document env s u (last changes) v))) u
        (shared_of (with_document env s u (last changes) v)) = Some (res, st) \<and>
     srv_published s' = srv_published s @ (case srv_conn s of None \<Rightarrow> []
       | Some n \<Rightarrow> [(n, u, map convert_diagnostic (res_diagnostics res))]) \<and>
     get_document (srv_host s') u = Some \<lparr>doc_text = last changes, doc_version = v\<rparr> \<and>
     (\<forall>c. res_checker res = Some c \<longrightarrow> lru_peek (cache (srv_host s')) (loc_id env (StringLocation u)) =
        Some \<lparr>ce_checker = Some c, ce_valid = True\<rparr>) \<and>
     map_of (srv_cancels s') u = None"
proof -
  let ?w = "with_document env s u (last changes) v"
  let ?s = "cancel_in_flight ?w u"
  have inv: "server_inv s" "srv_config s = config" using server_run_inv [OF assms(1)] by (auto simp: server_cfg_def)
  have wf: "host_wf (srv_host ?w)" and num: "check_numbers s"
    using inv(1) by (auto simp: server_inv_def)
  have run: "check_finish env fuel (started_check ?s u) (snd (check_begin ?s u)) = Some s'"
    using assms(2-4) inv(2) by (simp add: did_change_eq schedule_check_def run_check_def check_begin_eq Let_def)
  have fresh: "srv_next_context s \<notin> set (cancelled_at s u @ srv_contexts s)"
    using num cancelled_at_bound [OF num] by (auto simp: check_numbers_def)
  then have fresh': "srv_next_context ?s \<notin> set (srv_contexts ?s)"
    by (simp add: cancelled_at_def)
  have sh: "shared_of (snd (check_begin ?s u)) = shared_of ?w" by (simp add: shared_of_def check_begin_eq)
  have "doc_get (doc_snapshot (docs (srv_host ?w))) u = doc_get (docs (srv_host ?w)) u"
    using wf by (simp add: host_wf_def doc_get_snapshot)
  note cong = analyze_documents_cong [OF this, of env fuel]
  have ctx: "(\<lambda>_::nat. rc_context (started_check ?s u) \<in> set (srv_contexts (snd (check_begin ?s u)))) = (\<lambda>_. False)"
    using fresh' by (simp add: check_begin_eq)
  obtain res st where an0: "analyze env fuel (\<lambda>_. False) (doc_snapshot (docs (srv_host ?w))) u (shared_of ?w) = Some (res, st)"
    and s': "s' = check_cleanup (started_check ?s u)
       (if res_cancelled res then with_shared (snd (check_begin ?s u)) st
        else publish_diagnostics (with_shared (snd (check_begin ?s u)) st) u (res_diagnostics res))"
    using check_finish_cases [OF run] unfolding ctx sh
    by (simp only: started_check_fields cancel_in_flight_fields) blast
  from an0 have an: "analyze env fuel (\<lambda>_. False) (docs (srv_host ?w)) u (shared_of ?w) = Some (res, st)"
    by (simp only: cong)
  have nc: "\<not> res_cancelled res" by (rule analyze_not_cancelled [OF an]) simp
  note put = analyze_caches [OF an shared_wf_of [OF wf]]
  from an nc put show ?thesis
    by (intro exI [of _ res] exI [of _ st])
       (auto simp: s' check_begin_eq publish_diagnostics_def get_document_def update_conv' delete_conv'
          split: option.split)
qed

definition sync1 :: "(string, unit) server" where
  "sync1 = the (did_change echo_env 1 (initialize_conn (new_server_v2 fast_config ()) 7) ''u'' 1 [''a'', ''b''])"

theorem sync_change_publishes_witness:
  "get_document (srv_host sync1) ''u'' = Some \<lparr>doc_text = ''b'', doc_version = 1\<rparr> \<and>
   map_of (srv_cancels sync1) ''u'' = None"
proof -
  have run: "server_run echo_env 1 fast_config () (initialize_conn (new_server_v2 fast_config ()) 7)"
    by (rule run_step [OF run_init server_step.common [OF c_init]])
  have "\<not> Option.is_none (did_change echo_env 1 (initialize_conn (new_server_v2 fast_config ()) 7) ''u'' 1 [''a'', ''b''])"
    by code_simp
  then have ch: "did_change echo_env 1 (initialize_conn (new_server_v2 fast_config ()) 7) ''u'' 1 [''a'', ''b''] = Some sync1"
    by (auto simp: sync1_def Option.is_none_def)
  from sync_change_publishes [OF run _ _ ch] show ?thesis by (auto simp: fast_config_def)
qed

text \<open>
  A negative delay is neither synchronous nor given a debouncer, so every opening of a
  document and every change panics on the nil debouncer.
\<close>

theorem negative_delay_panics:
  assumes "server_run env fuel config rs s" and "cfg_debounce_delay config < 0"
  shows "did_open env fuel s u text v = None \<and> (changes \<noteq> [] \<longrightarrow> did_change env fuel s u v changes = None)"
  using server_run_inv [OF assms(1)] assms(2)
  by (auto simp: did_open_eq did_change_eq schedule_check_def server_cfg_def Let_def split: option.split)

theorem negative_delay_panics_witness:
  "did_open echo_env 1 (new_server_v2 \<lparr>cfg_cache_capacity = 4, cfg_debounce_delay = - 1\<rparr> ()) ''u'' ''t'' 1 = None"
  using negative_delay_panics [OF run_init [of echo_env 1 "\<lparr>cfg_cache_capacity = 4, cfg_debounce_delay = - 1\<rparr>" "()"]]
  by simp

end
