(* ===== verification/TextSupport.thy ===== *)
theory TextSupport
  imports ServerCore
begin

text \<open>
  Text helpers of the request handlers and the refactoring that puts the elements of a list on
  separate lines (src/languageserver/server2/handlers.go). Texts are byte strings; lines end at
  newline bytes. Where the code indexes or slices a string, a run-time panic is \<open>None\<close>.
\<close>

section \<open>Characters\<close>

definition newline :: char where "newline = CHR 0x0A"
definition tab :: char where "tab = CHR 0x09"
definition space :: char where "space = CHR 0x20"

definition is_whitespace :: "char \<Rightarrow> bool" where
  "is_whitespace c \<longleftrightarrow> c = space \<or> c = tab \<or> c = newline"

text \<open>\<^verbatim>\<open>[A-Za-z_0-9]\<close>\<close>

definition is_word_char :: "char \<Rightarrow> bool" where
  "is_word_char c \<longleftrightarrow>
     (let n = (of_char c :: nat)
      in (65 \<le> n \<and> n \<le> 90) \<or> (97 \<le> n \<and> n \<le> 122) \<or> n = 95 \<or> (48 \<le> n \<and> n \<le> 57))"

section \<open>Patterns\<close>

text \<open>
  \<^verbatim>\<open>(?:\.|\?\.)[A-Za-z_0-9]*$\<close> matches when the word at the end of the text follows a dot.
\<close>

definition ends_in_member_access :: "string \<Rightarrow> bool" where
  "ends_in_member_access s =
     (case dropWhile is_word_char (rev s) of [] \<Rightarrow> False | c # _ \<Rightarrow> c = CHR 0x2E)"

text \<open>
  \<^verbatim>\<open>(?i)[\t *_]*deprecated\b\<close> matches when the word occurs, in any case, with no
  word character after it; the leading class may match nothing.
\<close>

fun mentions_deprecated :: "string \<Rightarrow> bool" where
  "mentions_deprecated [] = False"
| "mentions_deprecated (c # s) =
     (to_lower (take 10 (c # s)) = ''deprecated'' \<and>
        (case drop 10 (c # s) of [] \<Rightarrow> True | d # _ \<Rightarrow> \<not> is_word_char d)
      \<or> mentions_deprecated s)"

section \<open>Positions in documents\<close>

definition document_line_prefix :: "document \<Rightarrow> position \<Rightarrow> string option" where
  "document_line_prefix doc p =
     (let lines = split_on newline (doc_text doc);
          i = unat (line p)
      in if i \<ge> length lines then None
         else let l = lines ! i; column = unat (character p)
              in Some (take (if column > length l then length l else column) l))"

definition is_member_access_context :: "document \<Rightarrow> position \<Rightarrow> bool" where
  "is_member_access_context doc p =
     (case document_line_prefix doc p of None \<Rightarrow> False | Some l \<Rightarrow> ends_in_member_access l)"

text \<open>\<^verbatim>\<open>bufio.Reader.ReadString\<close> at a newline: the line with its newline, and the rest.\<close>

fun read_line :: "string \<Rightarrow> string \<times> string" where
  "read_line [] = ([], [])"
| "read_line (c # s) = (if c = newline then ([c], s) else (case read_line s of (l, r) \<Rightarrow> (c # l, r)))"

fun offset_loop :: "nat \<Rightarrow> string \<Rightarrow> int \<Rightarrow> int" where
  "offset_loop 0 rest off = off"
| "offset_loop (Suc n) rest off =
     (case read_line rest of (l, r) \<Rightarrow> offset_loop n r (off + int (length l)))"

definition document_offset :: "string \<Rightarrow> int \<Rightarrow> int \<Rightarrow> int" where
  "document_offset text ln column = offset_loop (nat (ln - 1)) text 0 + column"

text \<open>The closure \<^verbatim>\<open>skip\<close>: \<open>None\<close> when it ran off the front of the text.\<close>

fun skip_back :: "(char \<Rightarrow> bool) \<Rightarrow> string \<Rightarrow> nat \<Rightarrow> nat option" where
  "skip_back p text 0 = (if p (text ! 0) then None else Some 0)"
| "skip_back p text (Suc i) = (if p (text ! Suc i) then skip_back p text i else Some (Suc i))"

fun option_ends_at :: "string \<Rightarrow> nat \<Rightarrow> string list \<Rightarrow> bool" where
  "option_ends_at text i [] = False"
| "option_ends_at text i (opt # opts) =
     (let start = int i - int (length opt) + 1
      in if start < 0 then option_ends_at text i opts
         else if take (Suc i - nat start) (drop (nat start) text) = opt then True
         else option_ends_at text i opts)"

definition has_preceding_string :: "document \<Rightarrow> string list \<Rightarrow> int \<Rightarrow> int \<Rightarrow> bool" where
  "has_preceding_string doc options ln column =
     (let text = doc_text doc;
          off = document_offset text ln column;
          end_off = (if off \<ge> int (length text) then int (length text) - 1 else off)
      in if end_off < 0 then False
         else case skip_back (\<lambda>c. \<not> is_whitespace c) text (nat end_off) of
                None \<Rightarrow> False
              | Some i \<Rightarrow>
                  (case skip_back is_whitespace text i of
                     None \<Rightarrow> False
                   | Some j \<Rightarrow> option_ends_at text j options))"

section \<open>Splitting elements onto lines\<close>

definition indentation_count :: nat where "indentation_count = 4"

fun indentation_end :: "nat \<Rightarrow> string \<Rightarrow> int \<Rightarrow> int option" where
  "indentation_end 0 text i = Some i"
| "indentation_end (Suc n) text i =
     (case go_index text i of
        None \<Rightarrow> None
      | Some c \<Rightarrow> if c = space \<or> c = tab then indentation_end n text (i + 1) else Some i)"

definition extract_indentation :: "string \<Rightarrow> ast_pos \<Rightarrow> string option" where
  "extract_indentation text p =
     (let line_start = pos_offset p - pos_column p
      in case indentation_end (nat (pos_offset p - line_start)) text line_start of
           None \<Rightarrow> None
         | Some e \<Rightarrow> go_slice text line_start e)"

definition insertion_at :: "position \<Rightarrow> string \<Rightarrow> text_edit" where
  "insertion_at p s = \<lparr>edit_range = Range p p, new_text = s\<rparr>"

text \<open>The loop over the elements after the first.\<close>

fun split_edits :: "string \<Rightarrow> extent list \<Rightarrow> text_edit list" where
  "split_edits ind (prev # cur # rest) =
     (if pos_line (fst cur) \<noteq> pos_line (snd prev) then []
      else [insertion_at (ast_to_protocol_position (fst cur)) (newline # ind)]) @
     split_edits ind (cur # rest)"
| "split_edits ind _ = []"

definition maybe_split_lines ::
    "uri \<Rightarrow> document \<Rightarrow> range \<Rightarrow> extent \<Rightarrow> extent list \<Rightarrow> string \<Rightarrow> code_action option option" where
  "maybe_split_lines u doc requested container elements plural =
     (if length elements < 2 then Some None
      else
        let first = fst (hd elements);
            last_end = snd (last elements);
            last_end_pos = ast_to_protocol_position (shifted last_end 1)
        in if compare_pos (ast_to_protocol_position first) (range_start requested) > 0 \<or>
              compare_pos last_end_pos (range_end requested) < 0
           then Some None
           else case extract_indentation (doc_text doc) (fst container) of
             None \<Rightarrow> None
           | Some ind \<Rightarrow>
               (let element_ind = ind @ replicate indentation_count space;
                    edits =
                      (if pos_line first = pos_line (fst container)
                       then [insertion_at (ast_to_protocol_position first) (newline # element_ind)] else []) @
                      split_edits element_ind elements @
                      (if pos_line last_end = pos_line (snd container)
                       then [insertion_at last_end_pos (newline # ind)] else [])
                in if edits = [] then Some None
                   else Some (Some \<lparr>ca_title = ''Split '' @ plural @ '' onto separate lines'',
                          ca_kind = ''refactor.rewrite'', ca_diagnostics = [], ca_edit = [(u, edits)]\<rparr>)))"

section \<open>Reading backwards\<close>

text \<open>Skipping back from an index is dropping from the reversed prefix up to it.\<close>

lemma rev_take_Suc: "i < length s \<Longrightarrow> rev (take (Suc i) s) = s ! i # rev (take i s)"
  by (simp add: take_Suc_conv_app_nth)

lemma skip_back_None:
  "i < length s \<Longrightarrow> skip_back p s i = None \<longleftrightarrow> dropWhile p (rev (take (Suc i) s)) = []"
proof (induction i)
  case (Suc i)
  then show ?case by (simp add: rev_take_Suc del: take_Suc)
qed (simp add: rev_take_Suc del: take_Suc)

lemma skip_back_Some:
  "i < length s \<Longrightarrow> skip_back p s i = Some j \<Longrightarrow>
   j \<le> i \<and> dropWhile p (rev (take (Suc i) s)) = rev (take (Suc j) s)"
proof (induction i)
  case (Suc i)
  then show ?case by (auto simp: rev_take_Suc split: if_splits)
qed (cases s; auto split: if_splits)

lemma option_ends_at_iff:
  "i < length s \<Longrightarrow> option_ends_at s i opts \<longleftrightarrow> (\<exists>opt \<in> set opts. has_suffix (take (Suc i) s) opt)"
proof (induction s i opts rule: option_ends_at.induct)
  case (2 s i opt opts)
  have len: "length (take (Suc i) s) = Suc i" using "2.prems" by simp
  show ?case
  proof (cases "length opt \<le> Suc i")
    case True
    then have start: "int i - int (length opt) + 1 = int (Suc i - length opt)" by simp
    have "take (Suc i - (Suc i - length opt)) (drop (Suc i - length opt) s) =
        drop (Suc i - length opt) (take (Suc i) s)" by (simp add: drop_take)
    then have "(take (Suc i - (Suc i - length opt)) (drop (Suc i - length opt) s) = opt) =
        has_suffix (take (Suc i) s) opt" using True len by (simp add: has_suffix_def)
    with 2 show ?thesis unfolding option_ends_at.simps Let_def start by auto
  next
    case False
    then have "\<not> has_suffix (take (Suc i) s) opt" using len by (simp add: has_suffix_def)
    with False 2 show ?thesis by (simp add: Let_def)
  qed
qed simp

section \<open>Line offsets\<close>

lemma read_line_append: "fst (read_line s) @ snd (read_line s) = s"
  by (induction s) (auto split: prod.splits)

lemma read_line_split:
  "split_on newline s = (case read_line s of (l, r) \<Rightarrow>
     if l \<noteq> [] \<and> last l = newline then butlast l # split_on newline r else [l])"
proof (induction s)
  case (Cons c s)
  then show ?case by (cases "read_line s") (auto split: if_splits)
qed simp

text \<open>Skipping lines by reading them is dropping them from the list of lines.\<close>

lemma offset_loop_add: "offset_loop n s (off + k) = offset_loop n s off + k"
proof (induction n arbitrary: s off)
  case (Suc n)
  obtain l r where "read_line s = (l, r)" by force
  then show ?case using Suc.IH [of r "off + int (length l)"] by (simp add: ac_simps)
qed simp

definition joined_lines :: "string list \<Rightarrow> string" where
  "joined_lines ls = concat (map (\<lambda>l. l @ [newline]) ls)"

lemma offset_loop_line:
  "n < length (split_on newline s) \<Longrightarrow>
   \<exists>m. offset_loop n s 0 = int m \<and> m \<le> length s \<and>
       split_on newline (drop m s) = drop n (split_on newline s) \<and>
       take m s = joined_lines (take n (split_on newline s))"
proof (induction n arbitrary: s)
  case (Suc n)
  obtain l r where lr: "read_line s = (l, r)" by force
  then have s: "s = l @ r" using read_line_append [of s] by simp
  from Suc.prems lr have l: "l \<noteq> [] \<and> last l = newline"
    by (subst (asm) read_line_split) (auto split: if_splits)
  then have sp: "split_on newline s = butlast l # split_on newline r"
    by (subst read_line_split) (simp add: lr)
  with Suc.prems Suc.IH [of r] obtain m where
    m: "offset_loop n r 0 = int m" "m \<le> length r" "split_on newline (drop m r) = drop n (split_on newline r)"
      "take m r = joined_lines (take n (split_on newline r))"
    by auto
  have "offset_loop (Suc n) s 0 = int (m + length l)"
    using offset_loop_add [of n r 0 "int (length l)"] by (simp add: lr m(1))
  moreover have "l = butlast l @ [newline]" using l by (metis append_butlast_last_id)
  ultimately show ?case using m sp s
    by (intro exI [of _ "m + length l"]) (simp add: joined_lines_def)
qed (auto intro: exI [of _ 0] simp: joined_lines_def)

lemma split_on_hd: "\<exists>rest. s = hd (split_on c s) @ rest"
  by (induction s) (auto split: list.splits)

section \<open>Whitespace\<close>

text \<open>How a client applies an edit, with the positions read as line and column.\<close>

definition offset_of :: "string \<Rightarrow> position \<Rightarrow> nat" where
  "offset_of t p = nat (document_offset t (int (unat (line p)) + 1) (int (unat (character p))))"

definition apply_edit :: "text_edit \<Rightarrow> string \<Rightarrow> string" where
  "apply_edit e t = take (offset_of t (range_start (edit_range e))) t @ new_text e @
     drop (offset_of t (range_end (edit_range e))) t"

definition visible :: "string \<Rightarrow> string" where
  "visible s = filter (\<lambda>c. \<not> is_whitespace c) s"

definition whitespace_insertion :: "text_edit \<Rightarrow> bool" where
  "whitespace_insertion e \<longleftrightarrow> range_start (edit_range e) = range_end (edit_range e) \<and>
     new_text e \<noteq> [] \<and> hd (new_text e) = newline \<and> visible (new_text e) = []"

lemma visible_apply_edit: "whitespace_insertion e \<Longrightarrow> visible (apply_edit e t) = visible t"
  unfolding whitespace_insertion_def apply_edit_def visible_def
  by (metis append_take_drop_id filter_append self_append_conv2)

lemma visible_apply_edits:
  "\<forall>e \<in> set es. whitespace_insertion e \<Longrightarrow> visible (fold apply_edit es t) = visible t"
  by (induction es arbitrary: t) (simp_all add: visible_apply_edit)

lemma indentation_end_bounds:
  "indentation_end n t i = Some e \<Longrightarrow> i \<le> e \<and> e \<le> i + int n"
  by (induction n t i rule: indentation_end.induct) (auto split: option.splits if_splits)

lemma indentation_end_blank:
  "indentation_end n t i = Some e \<Longrightarrow> i \<le> j \<Longrightarrow> j < e \<Longrightarrow>
   0 \<le> j \<and> j < int (length t) \<and> (t ! nat j = space \<or> t ! nat j = tab)"
proof (induction n t i rule: indentation_end.induct)
  case (2 n t i)
  then show ?case
    by (cases "i = j") (auto simp: go_index_def split: option.splits if_splits)
qed simp

lemma go_slice_set:
  assumes "go_slice s i j = Some r" and "c \<in> set r"
  obtains k where "i \<le> k" "k < j" "s ! nat k = c"
proof -
  have b: "0 \<le> i" "i \<le> j" "j \<le> int (length s)" "r = take (nat (j - i)) (drop (nat i) s)"
    using assms(1) by (auto simp: go_slice_def split: if_splits)
  from assms(2) obtain m where m: "m < length r" "r ! m = c" by (auto simp: in_set_conv_nth)
  show ?thesis
    by (rule that [of "i + int m"]) (use m b in \<open>auto simp: nat_add_distrib nat_diff_distrib\<close>)
qed

lemma extract_indentation_blank:
  assumes "extract_indentation t p = Some ind"
  shows "visible ind = []"
proof -
  obtain e where e: "indentation_end (nat (pos_offset p - (pos_offset p - pos_column p))) t
      (pos_offset p - pos_column p) = Some e" "go_slice t (pos_offset p - pos_column p) e = Some ind"
    using assms unfolding extract_indentation_def Let_def by (auto split: option.splits)
  have "c = space \<or> c = tab" if c: "c \<in> set ind" for c
    using go_slice_set [OF e(2) c] indentation_end_blank [OF e(1)] by metis
  then show ?thesis by (auto simp: visible_def filter_empty_conv is_whitespace_def)
qed

text \<open>The loop makes one edit per pair of neighbours on the same line.\<close>

definition same_line :: "extent \<times> extent \<Rightarrow> bool" where
  "same_line pc \<longleftrightarrow> pos_line (fst (snd pc)) = pos_line (snd (fst pc))"

lemma split_edits_zip:
  "split_edits ind els =
     map (\<lambda>pc. insertion_at (ast_to_protocol_position (fst (snd pc))) (newline # ind))
       (filter same_line (zip els (tl els)))"
  by (induction ind els rule: split_edits.induct) (simp_all add: same_line_def)

lemma whitespace_insertion_at:
  "visible ind = [] \<Longrightarrow> whitespace_insertion (insertion_at p (newline # ind))"
  by (simp add: whitespace_insertion_def insertion_at_def visible_def is_whitespace_def)

lemma visible_indent: "visible ind = [] \<Longrightarrow> visible (ind @ replicate n space) = []"
  by (auto simp: visible_def filter_empty_conv is_whitespace_def)

section \<open>Properties\<close>

text \<open>
  Looking for an access modifier before the cursor is the following: take the text up to the
  cursor's byte (or all of it), drop the word at its end and the white space before that; the
  answer is whether something is left that ends in one of the options.
\<close>

theorem preceding_string_spec:
  "has_preceding_string doc options ln column =
     (let t = doc_text doc;
          before = take (nat (document_offset t ln column + 1)) t;
          rest = dropWhile is_whitespace (dropWhile (\<lambda>c. \<not> is_whitespace c) (rev before))
      in rest \<noteq> [] \<and> (\<exists>opt \<in> set options. has_suffix (rev rest) opt))"
proof -
  let ?t = "doc_text doc" and ?off = "document_offset (doc_text doc) ln column"
  define E where "E = (if ?off \<ge> int (length ?t) then int (length ?t) - 1 else ?off)"
  have hp: "has_preceding_string doc options ln column =
      (if E < 0 then False
       else case skip_back (\<lambda>c. \<not> is_whitespace c) ?t (nat E) of None \<Rightarrow> False
         | Some i \<Rightarrow> (case skip_back is_whitespace ?t i of None \<Rightarrow> False
             | Some j \<Rightarrow> option_ends_at ?t j options))"
    by (simp only: has_preceding_string_def Let_def E_def)
  have before: "take (nat (?off + 1)) ?t = take (nat (E + 1)) ?t" by (auto simp: E_def)
  have E: "E < int (length ?t)" by (simp add: E_def)
  show ?thesis
  proof (cases "E < 0")
    case True
    then show ?thesis unfolding hp Let_def before by simp
  next
    case False
    with E have lt: "nat E < length ?t" and suc: "nat (E + 1) = Suc (nat E)" by linarith+
    show ?thesis
    proof (cases "skip_back (\<lambda>c. \<not> is_whitespace c) ?t (nat E)")
      case None
      with skip_back_None [OF lt, of "\<lambda>c. \<not> is_whitespace c"]
      have "dropWhile (\<lambda>c. \<not> is_whitespace c) (rev (take (Suc (nat E)) ?t)) = []" by blast
      then show ?thesis unfolding hp Let_def before suc None by (simp only:) simp
    next
      case (Some i)
      from skip_back_Some [OF lt this] have i: "i \<le> nat E"
        "dropWhile (\<lambda>c. \<not> is_whitespace c) (rev (take (Suc (nat E)) ?t)) = rev (take (Suc i) ?t)" by auto
      with lt have lti: "i < length ?t" by simp
      note skip1 = Some
      show ?thesis
      proof (cases "skip_back is_whitespace ?t i")
        case None
        with skip_back_None [OF lti, of is_whitespace]
        have "dropWhile is_whitespace (rev (take (Suc i) ?t)) = []" by blast
        then show ?thesis unfolding hp Let_def before suc skip1 i(2) by (simp add: None)
      next
        case (Some j)
        from skip_back_Some [OF lti this] lti have j: "j < length ?t"
          "dropWhile is_whitespace (rev (take (Suc i) ?t)) = rev (take (Suc j) ?t)" by auto
        have "has_preceding_string doc options ln column = option_ends_at ?t j options"
          using False skip1 Some unfolding hp by simp
        moreover have "rev (take (Suc j) ?t) \<noteq> []" using j(1) by auto
        ultimately show ?thesis
          unfolding Let_def before suc i(2) j(2) using option_ends_at_iff [OF j(1)] by simp
      qed
    qed
  qed
qed

text \<open>
  The two ways the handlers locate a position agree: if the line of a protocol position exists
  and is at least as long as the position's column, the prefix of the line is what precedes the
  byte offset on its line, after all the complete lines before it.
\<close>

theorem line_prefix_at_offset:
  assumes "document_line_prefix doc p = Some pre" and "length pre = unat (character p)"
  shows "take (offset_of (doc_text doc) p) (doc_text doc) =
     joined_lines (take (unat (line p)) (split_on newline (doc_text doc))) @ pre \<and>
     offset_of (doc_text doc) p \<le> length (doc_text doc)"
proof -
  let ?t = "doc_text doc" and ?ls = "split_on newline (doc_text doc)"
  have n: "unat (line p) < length ?ls" and pre: "pre = take (unat (character p)) (?ls ! unat (line p))"
    using assms by (auto simp: document_line_prefix_def Let_def split: if_splits)
  obtain m where m: "offset_loop (unat (line p)) ?t 0 = int m" "m \<le> length ?t"
    "split_on newline (drop m ?t) = drop (unat (line p)) ?ls" "take m ?t = joined_lines (take (unat (line p)) ?ls)"
    using offset_loop_line [OF n] by blast
  have off: "offset_of ?t p = m + unat (character p)" 
    by (simp add: offset_of_def document_offset_def m(1) nat_add_distrib del: of_nat_unat uint_nat)
  have "hd (drop (unat (line p)) ?ls) = ?ls ! unat (line p)" using n by (simp add: hd_drop_conv_nth)
  with split_on_hd [of "drop m ?t" newline] m(3) obtain rest where
    rest: "drop m ?t = ?ls ! unat (line p) @ rest" by auto
  have len: "unat (character p) \<le> length (?ls ! unat (line p))" using assms(2) pre by simp
  have "take (m + unat (character p)) ?t = take m ?t @ take (unat (character p)) (drop m ?t)"
    by (rule take_add)
  also have "take (unat (character p)) (drop m ?t) = pre" unfolding rest pre using len by simp
  finally have "take (offset_of ?t p) ?t = joined_lines (take (unat (line p)) ?ls) @ pre"
    by (simp add: off m(4))
  moreover have "length (drop m ?t) \<ge> unat (character p)" unfolding rest using len by simp
  ultimately show ?thesis using m(2) off by simp
qed

theorem line_prefix_at_offset_witness:
  "offset_of (''ab'' @ [newline] @ ''cde'') (Position 1 2) = 5 \<and>
   take 5 (''ab'' @ [newline] @ ''cde'') = joined_lines [''ab''] @ ''cd''"
proof -
  let ?d = "\<lparr>doc_text = ''ab'' @ [newline] @ ''cde'', doc_version = 0\<rparr>"
  have pre: "document_line_prefix ?d (Position 1 2) = Some ''cd''"
    by (simp add: document_line_prefix_def newline_def)
  have "take (offset_of (doc_text ?d) (Position 1 2)) (doc_text ?d) =
      joined_lines (take 1 (split_on newline (doc_text ?d))) @ ''cd''"
    using line_prefix_at_offset [OF pre] by simp
  moreover have "offset_of (doc_text ?d) (Position 1 2) = 5"
    by code_simp
  ultimately show ?thesis by (simp add: newline_def)
qed

text \<open>
  C11. The refactoring that splits a list onto lines only inserts white space: each of its edits is
  an insertion, at an element or after the last one, of a newline and the indentation, so the
  text after applying them has the same visible characters in the same order.
\<close>

theorem split_lines_inserts_whitespace:
  assumes "maybe_split_lines u doc req container els plural = Some (Some act)"
  shows "\<exists>edits. ca_edit act = [(u, edits)] \<and> edits \<noteq> [] \<and> (\<forall>e \<in> set edits. whitespace_insertion e) \<and>
     (\<forall>e \<in> set edits. range_start (edit_range e) \<in>
        insert (ast_to_protocol_position (shifted (snd (last els)) 1))
          ((\<lambda>x. ast_to_protocol_position (fst x)) ` set els)) \<and>
     visible (fold apply_edit edits (doc_text doc)) = visible (doc_text doc)"
proof -
  obtain ind edits where len: "\<not> length els < 2" and ind: "extract_indentation (doc_text doc) (fst container) = Some ind"
    and ne: "edits \<noteq> []" and act: "ca_edit act = [(u, edits)]"
    and edits: "edits = (if pos_line (fst (hd els)) = pos_line (fst container)
         then [insertion_at (ast_to_protocol_position (fst (hd els))) (newline # ind @ replicate indentation_count space)] else []) @
       split_edits (ind @ replicate indentation_count space) els @
       (if pos_line (snd (last els)) = pos_line (snd container)
        then [insertion_at (ast_to_protocol_position (shifted (snd (last els)) 1)) (newline # ind)] else [])"
    using assms unfolding maybe_split_lines_def Let_def by (force split: if_splits option.splits)
  have blank: "visible ind = []" by (rule extract_indentation_blank [OF ind])
  have els: "els \<noteq> []" using len by auto
  have ws: "\<forall>e \<in> set edits. whitespace_insertion e"
    using blank by (auto simp: edits split_edits_zip whitespace_insertion_at visible_indent)
  moreover have "\<forall>e \<in> set edits. range_start (edit_range e) \<in>
        insert (ast_to_protocol_position (shifted (snd (last els)) 1))
          ((\<lambda>x. ast_to_protocol_position (fst x)) ` set els)"
  proof
    fix e assume "e \<in> set edits"
    then consider "e = insertion_at (ast_to_protocol_position (fst (hd els))) (newline # ind @ replicate indentation_count space)"
      | x y where "(x, y) \<in> set (zip els (tl els))"
          "e = insertion_at (ast_to_protocol_position (fst y)) (newline # ind @ replicate indentation_count space)"
      | "e = insertion_at (ast_to_protocol_position (shifted (snd (last els)) 1)) (newline # ind)"
      by (auto simp: edits split_edits_zip split: if_splits)
    then show "range_start (edit_range e) \<in>
        insert (ast_to_protocol_position (shifted (snd (last els)) 1))
          ((\<lambda>x. ast_to_protocol_position (fst x)) ` set els)"
    proof cases
      case 2
      then have "y \<in> set els" using els by (auto dest!: set_zip_rightD intro: list.set_sel(2))
      with 2 show ?thesis by (simp add: insertion_at_def)
    qed (use els in \<open>simp_all add: insertion_at_def\<close>)
  qed
  ultimately show ?thesis using act ne visible_apply_edits by blast
qed

definition split_example :: "code_action option option" where
  "split_example = maybe_split_lines ''u'' \<lparr>doc_text = '' f(a, b)'', doc_version = 1\<rparr>
     (Range (Position 0 4) (Position 0 5))
     (\<lparr>pos_offset = 1, pos_line = 1, pos_column = 1\<rparr>, \<lparr>pos_offset = 7, pos_line = 1, pos_column = 7\<rparr>)
     [(\<lparr>pos_offset = 3, pos_line = 1, pos_column = 3\<rparr>, \<lparr>pos_offset = 3, pos_line = 1, pos_column = 3\<rparr>),
      (\<lparr>pos_offset = 6, pos_line = 1, pos_column = 6\<rparr>, \<lparr>pos_offset = 6, pos_line = 1, pos_column = 6\<rparr>)]
     ''arguments''"

theorem split_lines_inserts_whitespace_witness:
  "\<exists>edits. ca_edit (the (the split_example)) = [(''u'', edits)] \<and>
     visible (fold apply_edit edits '' f(a, b)'') = ''f(a,b)''"
proof -
  have "\<not> Option.is_none split_example \<and> \<not> Option.is_none (the split_example)" by code_simp
  then have "split_example = Some (Some (the (the split_example)))" by (auto simp: Option.is_none_def)
  from split_lines_inserts_whitespace [OF this [unfolded split_example_def]]
  obtain edits where "ca_edit (the (the split_example)) = [(''u'', edits)]"
    "visible (fold apply_edit edits '' f(a, b)'') = visible '' f(a, b)''"
    by (auto simp: split_example_def)
  moreover have "visible '' f(a, b)'' = ''f(a,b)''" by code_simp
  ultimately show ?thesis by auto
qed

end
