(* ===== verification/Completions.thy ===== *)
theory Completions
  imports TextSupport
begin

text \<open>
  Code completion (src/languageserver/server2/handlers.go, completion_items.go): the items for
  members and for names in scope, the fixed keyword items, and the completion sessions, which
  remember for the last 128 answers how their items are to be resolved later. \<open>kind_name\<close> is the
  Cadence library's name of a declaration kind.
\<close>

section \<open>Fixed items (completion_items.go)\<close>

definition keyword_item :: "string \<Rightarrow> string \<Rightarrow> string \<Rightarrow> completion_item" where
  "keyword_item label detail ins =
     \<lparr>ci_label = label, ci_kind = CK_Keyword, ci_detail = detail, ci_insert_text = ins, ci_snippet = True,
      ci_sort_text = '''', ci_commit_characters = [], ci_deprecated = False, ci_command = None,
      ci_documentation = None, ci_data = NoData\<rparr>"

definition block_body :: "string \<Rightarrow> string" where
  "block_body s = [newline, tab] @ s @ [newline]"

definition statement_completion_items :: "completion_item list" where
  "statement_completion_items =
    [keyword_item ''for'' ''for-in loop'' (''for $1 in $2 {'' @ block_body ''$0'' @ ''}''),
     keyword_item ''while'' ''while loop'' (''while $1 {'' @ block_body ''$0'' @ ''}''),
     keyword_item ''if'' ''if statement'' (''if $1 {'' @ block_body ''$0'' @ ''}''),
     keyword_item ''if else'' ''if-else statement''
       (''if $1 {'' @ block_body ''$2'' @ ''} else {'' @ block_body ''$0'' @ ''}''),
     keyword_item ''else'' ''else block'' (''else {'' @ block_body ''$0'' @ ''}''),
     keyword_item ''if let'' ''if-let statement'' (''if let $1 = $2 {'' @ block_body ''$0'' @ ''}''),
     keyword_item ''return'' ''return statement'' ''return $0'',
     (keyword_item ''break'' ''break statement'' '''')\<lparr>ci_snippet := False\<rparr>,
     (keyword_item ''continue'' ''continue statement'' '''')\<lparr>ci_snippet := False\<rparr>,
     keyword_item ''emit'' ''emit statement'' ''emit $0'',
     keyword_item ''destroy'' ''destroy expression'' ''destroy $0'',
     keyword_item ''pre'' ''pre conditions'' (''pre {'' @ block_body ''$0'' @ ''}''),
     keyword_item ''post'' ''post conditions'' (''post {'' @ block_body ''$0'' @ ''}'')]"

definition expression_completion_items :: "completion_item list" where
  "expression_completion_items =
    [keyword_item ''create'' ''create statement'' ''create $0'',
     keyword_item ''let'' ''constant declaration'' ''let $1 = $0'',
     keyword_item ''var'' ''variable declaration'' ''var $1 = $0'']"

definition all_access_options :: "string list" where
  "all_access_options = [''access(all)'', ''access(contract)'', ''access(account)'', ''access(self)'']"

definition all_access_options_comma_separated :: string where
  "all_access_options_comma_separated = ''access(all),access(contract),access(account),access(self)''"

definition declaration_completion_items :: "completion_item list" where
  "declaration_completion_items =
    [keyword_item ''struct'' ''struct declaration'' (''struct $2 {'' @ block_body ''$0'' @ ''}''),
     keyword_item ''resource'' ''resource declaration'' (''resource $2 {'' @ block_body ''$0'' @ ''}''),
     keyword_item ''contract'' ''contract declaration'' (''contract $2 {'' @ block_body ''$0'' @ ''}''),
     keyword_item ''struct interface'' ''struct interface declaration''
       (''struct interface $2 {'' @ block_body ''$0'' @ ''}''),
     keyword_item ''resource interface'' ''resource interface declaration''
       (''resource interface $2 {'' @ block_body ''$0'' @ ''}''),
     keyword_item ''contract interface'' ''contract interface declaration''
       (''contract interface $2 {'' @ block_body ''$0'' @ ''}''),
     keyword_item ''event'' ''event declaration'' ''event $2($0)'',
     keyword_item ''fun'' ''function declaration'' (''fun $2($3)${4:: $5} {'' @ block_body ''$0'' @ ''}''),
     keyword_item ''enum'' ''enum declaration'' (''enum $2: $3 {'' @ block_body ''$0'' @ ''}'')]"

definition container_completion_items :: "completion_item list" where
  "container_completion_items =
    [keyword_item ''var'' ''variable field'' ''var $2: $0'',
     keyword_item ''let'' ''constant field'' ''let $2: $0'',
     keyword_item ''const'' ''constant field'' ''let $2: $0'']"

section \<open>Sessions\<close>

definition max_completion_sessions :: nat where "max_completion_sessions = 128"

definition next_completion_session :: "('c, 's) server \<Rightarrow> string \<times> ('c, 's) server" where
  "next_completion_session srv =
     (let n = srv_next_session srv + 1 in (itoa (unat n), srv\<lparr>srv_next_session := n\<rparr>))"

definition store_completion_session ::
    "('c, 's) server \<Rightarrow> string \<Rightarrow> completion_session_state \<Rightarrow> ('c, 's) server" where
  "store_completion_session srv sid st =
     (if length (cs_members st) = 0 \<and> length (cs_ranges st) = 0 then srv
      else let srv1 = srv\<lparr>srv_sessions := AList.update sid st (srv_sessions srv),
                          srv_session_order := srv_session_order srv @ [sid]\<rparr>
           in if length (srv_session_order srv1) \<le> max_completion_sessions then srv1
              else srv1\<lparr>srv_session_order := tl (srv_session_order srv1),
                        srv_sessions := AList.delete (hd (srv_session_order srv1)) (srv_sessions srv1)\<rparr>)"

definition completion_session :: "('c, 's) server \<Rightarrow> string \<Rightarrow> completion_session_state option" where
  "completion_session srv sid = map_of (srv_sessions srv) sid"

section \<open>Items of members and of names in scope\<close>

definition new_item :: "string \<Rightarrow> completion_kind \<Rightarrow> string list \<Rightarrow> item_data \<Rightarrow> completion_item" where
  "new_item label kind commit data =
     \<lparr>ci_label = label, ci_kind = kind, ci_detail = '''', ci_insert_text = '''', ci_snippet = False,
      ci_sort_text = '''', ci_commit_characters = commit, ci_deprecated = False, ci_command = None,
      ci_documentation = None, ci_data = data\<rparr>"

definition declaration_kind_commit_characters :: "decl_kind \<Rightarrow> string list" where
  "declaration_kind_commit_characters k = (case k of DK_Field \<Rightarrow> [''.''] | _ \<Rightarrow> [])"

fun parameters_loop :: "nat \<Rightarrow> sema_parameter list \<Rightarrow> string \<Rightarrow> string" where
  "parameters_loop i [] b = b"
| "parameters_loop i (p # ps) b =
     (let b1 = (if i > 0 then b @ '', '' else b);
          b2 = (case par_label p of Some l \<Rightarrow> b1 @ l @ '': '' | None \<Rightarrow> b1)
      in parameters_loop (i + 1) ps (b2 @ ''${'' @ itoa (i + 1) @ '':'' @ par_identifier p @ ''}''))"

definition prepare_parameters :: "completion_item \<Rightarrow> string \<Rightarrow> sema_parameter list \<Rightarrow> completion_item" where
  "prepare_parameters item name ps =
     item\<lparr>ci_snippet := True, ci_insert_text := parameters_loop 0 ps (name @ ''('') @ '')''\<rparr>"

definition prepare_function_member :: "completion_item \<Rightarrow> member_resolver \<Rightarrow> string \<Rightarrow> completion_item" where
  "prepare_function_member item r name =
     (let mem = mr_resolve r (ci_label item)
      in case ty_function (mem_type mem) of
           None \<Rightarrow> item
         | Some ft \<Rightarrow>
             prepare_parameters
               (if mentions_deprecated (mem_doc mem) then item\<lparr>ci_deprecated := True\<rparr> else item)
               name (ft_parameters ft))"

definition trigger_hints :: "completion_item \<Rightarrow> completion_item" where
  "trigger_hints item = item\<lparr>ci_command := Some ''editor.action.triggerParameterHints''\<rparr>"

definition member_item :: "string \<Rightarrow> string \<times> member_resolver \<Rightarrow> completion_item" where
  "member_item sid nr =
     (let item = new_item (fst nr) (declaration_kind_to_completion_kind (mr_kind (snd nr)))
                   (declaration_kind_commit_characters (mr_kind (snd nr))) (ItemData sid (fst nr))
      in if mr_kind (snd nr) = DK_Function
         then trigger_hints (prepare_function_member item (snd nr) (fst nr)) else item)"

definition member_completions ::
    "sema_pos \<Rightarrow> position_info \<Rightarrow> string \<Rightarrow> completion_item list \<times> (string, member_resolver) gomap" where
  "member_completions p pinfo sid =
     (let q = (if sp_column p > 0 then p\<lparr>sp_column := sp_column p - 1\<rparr> else p)
      in case find_members pinfo q of
           None \<Rightarrow> ([], [])
         | Some resolvers \<Rightarrow> (map (member_item sid) resolvers, resolvers))"

text \<open>A function whose type is not a function type fails the type assertion.\<close>

definition range_item :: "string \<Rightarrow> nat \<Rightarrow> sema_range \<Rightarrow> completion_item option" where
  "range_item sid index r =
     (let item = new_item (rg_identifier r) (declaration_kind_to_completion_kind (rg_kind r)) []
                   (ItemData sid (itoa index))
      in case rg_kind r of
           DK_Function \<Rightarrow>
             (case ty_function (rg_type r) of
                None \<Rightarrow> None
              | Some ft \<Rightarrow> Some (trigger_hints (prepare_parameters item (rg_identifier r) (ft_parameters ft))))
         | k \<Rightarrow>
             (case ty_function (rg_type r) of
                None \<Rightarrow> Some item
              | Some ft \<Rightarrow>
                  (if k \<in> {DK_Structure, DK_Resource, DK_Event} \<and> ft_is_constructor ft
                   then Some (trigger_hints (prepare_parameters (item\<lparr>ci_kind := CK_Constructor\<rparr>)
                          (rg_identifier r) (ft_parameters ft)))
                   else Some item)))"

fun ranges_loop ::
    "string \<Rightarrow> nat \<Rightarrow> sema_range list \<Rightarrow> completion_item list \<Rightarrow> (string, sema_range) gomap \<Rightarrow>
     (completion_item list \<times> (string, sema_range) gomap) option" where
  "ranges_loop sid index [] its resolvers = Some (its, resolvers)"
| "ranges_loop sid index (r # rs) its resolvers =
     (case range_item sid index r of
        None \<Rightarrow> None
      | Some item \<Rightarrow>
          ranges_loop sid (index + 1) rs (its @ [item]) (AList.update (itoa index) r resolvers))"

definition range_completions ::
    "sema_pos \<Rightarrow> position_info \<Rightarrow> string \<Rightarrow>
     (completion_item list \<times> (string, sema_range) gomap) option" where
  "range_completions p pinfo sid =
     (case find_ranges pinfo p of None \<Rightarrow> Some ([], []) | Some rs \<Rightarrow> ranges_loop sid 0 rs [] [])"

section \<open>The completion request\<close>

definition with_insert_text :: "completion_item \<Rightarrow> string \<Rightarrow> completion_item" where
  "with_insert_text item s = item\<lparr>ci_insert_text := s\<rparr>"

definition with_access_placeholder :: "bool \<Rightarrow> completion_item \<Rightarrow> completion_item" where
  "with_access_placeholder required item =
     (if required
      then with_insert_text item (''${1|'' @ all_access_options_comma_separated @ ''|} '' @ ci_insert_text item)
      else item)"

definition completion ::
    "('p, checker, 's) env \<Rightarrow> nat \<Rightarrow> (checker, 's) server \<Rightarrow> uri \<Rightarrow> position \<Rightarrow>
     (completion_item list \<times> (checker, 's) server) option" where
  "completion env fuel srv u pos =
     (case checker_for_document env fuel srv u of
        None \<Rightarrow> None
      | Some (None, srv1) \<Rightarrow> Some ([], srv1)
      | Some (Some chk, srv1) \<Rightarrow>
          (case get_document (srv_host srv1) u of
             None \<Rightarrow> Some ([], srv1)
           | Some doc \<Rightarrow>
               (let p = protocol_to_sema_position pos;
                    (sid, srv2) = next_completion_session srv1
                in case chk_positions chk of
                     None \<Rightarrow> None
                   | Some pinfo \<Rightarrow>
                       (let (members, member_resolvers) = member_completions p pinfo sid
                        in if length members > 0
                           then Some (members, store_completion_session srv2 sid
                                  \<lparr>cs_members = member_resolvers, cs_ranges = []\<rparr>)
                           else if is_member_access_context doc pos then Some ([], srv2)
                           else case range_completions p pinfo sid of
                             None \<Rightarrow> None
                           | Some (ranges, range_resolvers) \<Rightarrow>
                               (let required = \<not> has_preceding_string doc all_access_options
                                                   (sp_line p) (sp_column p)
                                in Some (map (\<lambda>i. i\<lparr>ci_sort_text := ''1'' @ ci_label i\<rparr>) ranges @
                                      statement_completion_items @ expression_completion_items @
                                      map (with_access_placeholder required) declaration_completion_items @
                                      map (with_access_placeholder required) container_completion_items,
                                    store_completion_session srv2 sid
                                      \<lparr>cs_members = [], cs_ranges = range_resolvers\<rparr>))))))"

section \<open>Resolving an item\<close>

definition member_detail :: "(decl_kind \<Rightarrow> string) \<Rightarrow> member_info \<Rightarrow> string \<Rightarrow> string" where
  "member_detail kind_name mem old =
     (let qualified = mem_container mem @ ''.'' @ mem_identifier mem
      in if mem_kind mem = DK_Field
         then let d = qualified @ '': '' @ ty_qualified (mem_type mem)
              in case mem_variable_kind mem of None \<Rightarrow> d | Some v \<Rightarrow> ''('' @ v @ '') '' @ d
         else if mem_kind mem = DK_Function
         then ''(function) '' @ qualified @ '': '' @ ty_qualified (mem_type mem)
         else if mem_kind mem \<in> {DK_Structure, DK_Resource, DK_Event, DK_Contract,
                    DK_StructureInterface, DK_ResourceInterface, DK_ContractInterface}
         then ''('' @ kind_name (mem_kind mem) @ '') '' @ qualified
         else old)"

definition maybe_resolve_member ::
    "(decl_kind \<Rightarrow> string) \<Rightarrow> ('c, 's) server \<Rightarrow> string \<Rightarrow> string \<Rightarrow> completion_item \<Rightarrow>
     completion_item option" where
  "maybe_resolve_member kind_name srv sid i item =
     (case completion_session srv sid of
        None \<Rightarrow> None
      | Some session \<Rightarrow>
          (case map_of (cs_members session) i of
             None \<Rightarrow> None
           | Some r \<Rightarrow>
               (let mem = mr_resolve r (ci_label item)
                in Some (item\<lparr>ci_documentation := Some (Markup ''markdown'' (mem_doc mem)),
                              ci_detail := member_detail kind_name mem (ci_detail item)\<rparr>))))"

definition maybe_resolve_range ::
    "(decl_kind \<Rightarrow> string) \<Rightarrow> ('c, 's) server \<Rightarrow> string \<Rightarrow> string \<Rightarrow>
     completion_item \<Rightarrow> completion_item option" where
  "maybe_resolve_range kind_name srv sid i item =
     (case completion_session srv sid of
        None \<Rightarrow> None
      | Some session \<Rightarrow>
          (case map_of (cs_ranges session) i of
             None \<Rightarrow> None
           | Some r \<Rightarrow>
               (let detail = (case ty_function (rg_type r) of
                      Some ft \<Rightarrow> (if ft_is_constructor ft then ''(constructor) '' @ ty_qualified (rg_type r)
                                 else ''('' @ kind_name (rg_kind r) @ '') '' @ ty_string (rg_type r))
                    | None \<Rightarrow> ''('' @ kind_name (rg_kind r) @ '') '' @ ty_string (rg_type r))
                in Some (item\<lparr>ci_detail := detail, ci_documentation := Some (PlainDoc (rg_doc r))\<rparr>))))"

text \<open>The session and item id of an item's data, also when they arrive as a decoded JSON map.\<close>

definition string_entry :: "(string \<times> json) list \<Rightarrow> string \<Rightarrow> string" where
  "string_entry m k = (case map_of m k of Some (JStr s) \<Rightarrow> s | _ \<Rightarrow> '''')"

definition item_data_ids :: "item_data \<Rightarrow> (string \<times> string) option" where
  "item_data_ids d =
     (case d of
        ItemData sid i \<Rightarrow> Some (sid, i)
      | RawMap m \<Rightarrow> Some (string_entry m ''session'', string_entry m ''id'')
      | _ \<Rightarrow> None)"

definition resolve_completion_item ::
    "(decl_kind \<Rightarrow> string) \<Rightarrow> ('c, 's) server \<Rightarrow> completion_item \<Rightarrow>
     completion_item" where
  "resolve_completion_item kind_name srv item =
     (case item_data_ids (ci_data item) of
        None \<Rightarrow> item
      | Some (sid, i) \<Rightarrow>
          (case maybe_resolve_member kind_name srv sid i item of
             Some r \<Rightarrow> r
           | None \<Rightarrow>
               (case maybe_resolve_range kind_name srv sid i item of
                  Some r \<Rightarrow> r
                | None \<Rightarrow> item)))"

section \<open>Invariant of the sessions\<close>

text \<open>
  The table holds exactly the sessions in the order list, at most 128, without repetition, and
  session names are numbers handed out so far.
\<close>

definition session_inv :: "('c, 's) server \<Rightarrow> bool" where
  "session_inv s \<longleftrightarrow>
     distinct (srv_session_order s) \<and> length (srv_session_order s) \<le> max_completion_sessions \<and>
     (\<forall>k. map_of (srv_sessions s) k = None \<longleftrightarrow> k \<notin> set (srv_session_order s)) \<and>
     (\<forall>sid \<in> set (srv_session_order s). \<exists>m \<le> unat (srv_next_session s). sid = itoa m)"

definition sessions_left :: "('c, 's) server \<Rightarrow> nat \<Rightarrow> bool" where
  "sessions_left s k \<longleftrightarrow> unat (srv_next_session s) + k < 2 ^ 64"

text \<open>One answer with a session: draw a name, store the session under it.\<close>

definition answer_session :: "completion_session_state \<Rightarrow> ('c, 's) server \<Rightarrow> ('c, 's) server" where
  "answer_session st s =
     store_completion_session (snd (next_completion_session s)) (fst (next_completion_session s)) st"

definition nonempty_session :: "completion_session_state \<Rightarrow> bool" where
  "nonempty_session st \<longleftrightarrow> cs_members st \<noteq> [] \<or> cs_ranges st \<noteq> []"

lemma session_inv_new [simp]: "session_inv (new_server_v2 config rs)"
  by (simp add: session_inv_def new_server_v2_def Let_def)

lemma unat_next_session:
  "sessions_left s (Suc k) \<Longrightarrow> unat (srv_next_session s + 1) = Suc (unat (srv_next_session s))"
  by (subst unat_add_lem [THEN iffD1]) (simp_all add: sessions_left_def)

lemma next_completion_session_fields:
  "fst (next_completion_session s) = itoa (unat (srv_next_session s + 1))"
  "srv_next_session (snd (next_completion_session s)) = srv_next_session s + 1"
  "srv_sessions (snd (next_completion_session s)) = srv_sessions s"
  "srv_session_order (snd (next_completion_session s)) = srv_session_order s"
  by (simp_all add: next_completion_session_def Let_def)

lemma store_completion_session_fields:
  assumes "nonempty_session st"
  shows "srv_next_session (store_completion_session s sid st) = srv_next_session s"
    "srv_session_order (store_completion_session s sid st) =
       (if length (srv_session_order s) < max_completion_sessions then srv_session_order s @ [sid]
        else tl (srv_session_order s @ [sid]))"
    "srv_sessions (store_completion_session s sid st) =
       (if length (srv_session_order s) < max_completion_sessions then AList.update sid st (srv_sessions s)
        else AList.delete (hd (srv_session_order s @ [sid])) (AList.update sid st (srv_sessions s)))"
proof -
  have ne: "\<not> (length (cs_members st) = 0 \<and> length (cs_ranges st) = 0)"
    using assms by (auto simp: nonempty_session_def)
  show "srv_next_session (store_completion_session s sid st) = srv_next_session s"
    "srv_session_order (store_completion_session s sid st) =
       (if length (srv_session_order s) < max_completion_sessions then srv_session_order s @ [sid]
        else tl (srv_session_order s @ [sid]))"
    "srv_sessions (store_completion_session s sid st) =
       (if length (srv_session_order s) < max_completion_sessions then AList.update sid st (srv_sessions s)
        else AList.delete (hd (srv_session_order s @ [sid])) (AList.update sid st (srv_sessions s)))"
    unfolding store_completion_session_def if_not_P [OF ne] by (simp_all add: Let_def)
qed

lemma new_session_name_fresh:
  assumes "session_inv s" "sessions_left s (Suc k)"
  shows "itoa (unat (srv_next_session s + 1)) \<notin> set (srv_session_order s)"
  using assms unat_next_session [OF assms(2)] by (fastforce simp: session_inv_def)

lemma full_order_hd:
  "\<not> length xs < max_completion_sessions \<Longrightarrow> hd (xs @ [y]) = hd xs \<and> tl (xs @ [y]) = tl xs @ [y] \<and> xs \<noteq> []"
  by (cases xs) (simp_all add: max_completion_sessions_def)

lemma session_inv_answer:
  assumes inv: "session_inv s" and left: "sessions_left s (Suc k)" and ne: "nonempty_session st"
  shows "session_inv (answer_session st s)" "sessions_left (answer_session st s) k"
proof -
  let ?o = "srv_session_order s" and ?sid = "itoa (unat (srv_next_session s + 1))"
  note flds = store_completion_session_fields [OF ne] next_completion_session_fields
  note num = unat_next_session [OF left]
  note fresh = new_session_name_fresh [OF inv left]
  show "sessions_left (answer_session st s) k"
    using left num by (simp add: sessions_left_def answer_session_def flds)
  have named: "\<forall>x \<in> set ?o. \<exists>m \<le> Suc (unat (srv_next_session s)). x = itoa m"
    using inv unfolding session_inv_def by (meson le_SucI)
  have keys: "\<forall>k. map_of (srv_sessions s) k = None \<longleftrightarrow> k \<notin> set ?o" and d: "distinct ?o" and len: "length ?o \<le> max_completion_sessions"
    using inv by (auto simp: session_inv_def)
  show "session_inv (answer_session st s)"
  proof (cases "length ?o < max_completion_sessions")
    case True
    with fresh keys d named num show ?thesis
      by (auto simp: session_inv_def answer_session_def flds update_conv')
  next
    case False
    note hd = full_order_hd [OF False, of ?sid]
    then obtain x xs where o: "?o = x # xs" by (cases ?o) auto
    with False fresh keys d named num len hd show ?thesis
      by (auto simp: session_inv_def answer_session_def flds update_conv' delete_conv')
  qed
qed

text \<open>A session with at most \<open>k\<close> later ones in the order list.\<close>

definition recent_session :: "('c, 's) server \<Rightarrow> string \<Rightarrow> completion_session_state \<Rightarrow> nat \<Rightarrow> bool" where
  "recent_session s sid st k \<longleftrightarrow> completion_session s sid = Some st \<and>
     (\<exists>xs ys. srv_session_order s = xs @ sid # ys \<and> length ys \<le> k)"

lemma recent_session_answer:
  assumes inv: "session_inv s" and left: "sessions_left s (Suc j)" and ne: "nonempty_session st'"
    and rec: "recent_session s sid st k" and k: "Suc (Suc k) \<le> max_completion_sessions"
  shows "recent_session (answer_session st' s) sid st (Suc k)"
proof -
  let ?new = "itoa (unat (srv_next_session s + 1))" and ?o = "srv_session_order s"
  note flds = store_completion_session_fields [OF ne] next_completion_session_fields
  obtain xs ys where o: "?o = xs @ sid # ys" "length ys \<le> k" and look: "map_of (srv_sessions s) sid = Some st"
    using rec by (auto simp: recent_session_def completion_session_def)
  have new: "?new \<noteq> sid" using new_session_name_fresh [OF inv left] o by auto
  show ?thesis
  proof (cases "length ?o < max_completion_sessions")
    case True
    with o look new show ?thesis
      by (auto simp: recent_session_def completion_session_def answer_session_def flds update_conv'
          intro: exI [of _ xs] exI [of _ "ys @ [?new]"])
  next
    case False
    with o k obtain x xs' where xs: "xs = x # xs'" by (cases xs) (auto simp: max_completion_sessions_def)
    moreover have "x \<noteq> sid" using inv o xs by (auto simp: session_inv_def)
    ultimately show ?thesis using False o look new
      by (auto simp: recent_session_def completion_session_def answer_session_def flds update_conv' delete_conv'
          intro: exI [of _ xs'] exI [of _ "ys @ [?new]"])
  qed
qed

lemma recent_session_answers:
  "session_inv s \<Longrightarrow> sessions_left s (length sts) \<Longrightarrow> \<forall>st \<in> set sts. nonempty_session st \<Longrightarrow>
   recent_session s sid st k \<Longrightarrow> k + length sts < max_completion_sessions \<Longrightarrow>
   session_inv (fold answer_session sts s) \<and> recent_session (fold answer_session sts s) sid st (k + length sts)"
proof (induction sts arbitrary: s k)
  case (Cons st' sts)
  then have left: "sessions_left s (Suc (length sts))" and ne: "nonempty_session st'" by simp_all
  have "recent_session (answer_session st' s) sid st (Suc k)"
    using Cons.prems by (intro recent_session_answer [OF _ left ne]) auto
  with Cons.IH [of "answer_session st' s" "Suc k"] session_inv_answer [OF _ left ne] Cons.prems
  show ?case by simp
qed simp

lemma recent_session_new:
  assumes inv: "session_inv s" and left: "sessions_left s (Suc k)" and ne: "nonempty_session st"
  shows "recent_session (answer_session st s) (fst (next_completion_session s)) st 0"
proof -
  note flds = store_completion_session_fields [OF ne] next_completion_session_fields
  have "length (srv_session_order s) < max_completion_sessions \<or>
      hd (srv_session_order s @ [itoa (unat (srv_next_session s + 1))]) \<noteq> itoa (unat (srv_next_session s + 1))"
    using new_session_name_fresh [OF inv left]
    by (cases "srv_session_order s") (auto simp: max_completion_sessions_def)
  then show ?thesis
    by (cases "srv_session_order s")
       (auto simp: recent_session_def completion_session_def answer_session_def flds update_conv' delete_conv'
          max_completion_sessions_def)
qed

section \<open>Items and their sessions\<close>

lemma member_item_fields [simp]:
  "ci_label (member_item sid nr) = fst nr" "ci_data (member_item sid nr) = ItemData sid (fst nr)"
  by (auto simp: member_item_def new_item_def trigger_hints_def prepare_function_member_def Let_def
      prepare_parameters_def split: option.split)

lemma range_item_data:
  "range_item sid n r = Some item \<Longrightarrow> ci_data item = ItemData sid (itoa n)"
  by (auto simp: range_item_def Let_def new_item_def trigger_hints_def prepare_parameters_def
      split: decl_kind.splits option.splits if_splits)

lemma ranges_loop_items:
  "ranges_loop sid n rs its m = Some (its', m') \<Longrightarrow>
   (\<forall>k. map_of m k \<noteq> None \<longrightarrow> map_of m' k \<noteq> None) \<and>
   (\<forall>item \<in> set its'. item \<in> set its \<or> (\<exists>k. ci_data item = ItemData sid k \<and> map_of m' k \<noteq> None))"
proof (induction sid n rs its m rule: ranges_loop.induct)
  case (2 sid n r rs its m)
  then obtain item where item: "range_item sid n r = Some item"
    and rest: "ranges_loop sid (n + 1) rs (its @ [item]) (AList.update (itoa n) r m) = Some (its', m')"
    by (auto split: option.splits)
  from "2.IH" [OF item rest] range_item_data [OF item] show ?case by (auto simp: update_conv')
qed simp

definition resolvable :: "('c, 's) server \<Rightarrow> completion_item \<Rightarrow> bool" where
  "resolvable s item \<longleftrightarrow>
     (case ci_data item of
        ItemData sid i \<Rightarrow>
          (case completion_session s sid of
             None \<Rightarrow> False
           | Some st \<Rightarrow> map_of (cs_members st) i \<noteq> None \<or> map_of (cs_ranges st) i \<noteq> None)
      | _ \<Rightarrow> False)"

lemma resolvable_documented:
  "resolvable s item \<Longrightarrow> ci_documentation (resolve_completion_item kind_name s item) \<noteq> None"
  by (auto simp: resolvable_def resolve_completion_item_def item_data_ids_def maybe_resolve_member_def
      maybe_resolve_range_def Let_def split: item_data.splits option.splits)

lemma fixed_items_no_data:
  "i \<in> set (statement_completion_items @ expression_completion_items @
     map (with_access_placeholder b) declaration_completion_items @
     map (with_access_placeholder b) container_completion_items) \<Longrightarrow> ci_data i = NoData"
proof -
  have "\<forall>i \<in> set (statement_completion_items @ expression_completion_items @
      declaration_completion_items @ container_completion_items). ci_data i = NoData"
    by (simp add: statement_completion_items_def expression_completion_items_def
        declaration_completion_items_def container_completion_items_def keyword_item_def)
  moreover have "ci_data (with_access_placeholder b j) = ci_data j" for j
    by (simp add: with_access_placeholder_def with_insert_text_def)
  ultimately show "i \<in> set (statement_completion_items @ expression_completion_items @
     map (with_access_placeholder b) declaration_completion_items @
     map (with_access_placeholder b) container_completion_items) \<Longrightarrow> ci_data i = NoData"
    by auto
qed

text \<open>What a completion that returns items with session data has stored.\<close>

lemma completion_answer:
  assumes "completion env fuel srv u pos = Some (its, srv')"
    and "item \<in> set its" and "ci_data item \<noteq> NoData"
  obtains srv1 st where "srv_sessions srv1 = srv_sessions srv" "srv_session_order srv1 = srv_session_order srv"
    "srv_next_session srv1 = srv_next_session srv" "srv' = answer_session st srv1"
    "\<exists>k. ci_data item = ItemData (fst (next_completion_session srv1)) k \<and>
       (map_of (cs_members st) k \<noteq> None \<or> map_of (cs_ranges st) k \<noteq> None)"
proof -
  obtain c srv1 where chk: "checker_for_document env fuel srv u = Some (c, srv1)"
    using assms(1) by (auto simp: completion_def split: option.splits)
  note same = checker_for_document_control(12-14) [OF chk]
  obtain ch doc pinfo where c: "c = Some ch" "get_document (srv_host srv1) u = Some doc" "chk_positions ch = Some pinfo"
    using assms chk by (auto simp: completion_def Let_def split: option.splits prod.splits)
  obtain sid srv2 where nxt: "next_completion_session srv1 = (sid, srv2)" by force
  obtain ms mr where members: "member_completions (protocol_to_sema_position pos) pinfo sid = (ms, mr)" by force
  show ?thesis
  proof (cases "ms = []")
    case False
    then have "its = ms" and srv': "srv' = answer_session \<lparr>cs_members = mr, cs_ranges = []\<rparr> srv1"
      using assms(1) chk c nxt members by (auto simp: completion_def answer_session_def Let_def)
    then obtain nr where nr: "nr \<in> set mr" "item = member_item sid nr"
      using assms(2) members by (auto simp: member_completions_def Let_def split: option.splits if_splits)
    then have "map_of mr (fst nr) \<noteq> None" by (simp add: map_of_eq_None_iff)
    with nr nxt srv' show ?thesis by (intro that [OF same srv']) auto
  next
    case True
    obtain rs rr where ranges: "range_completions (protocol_to_sema_position pos) pinfo sid = Some (rs, rr)"
      and nma: "\<not> is_member_access_context doc pos"
      using assms chk c nxt members True
      by (auto simp: completion_def Let_def split: if_splits option.splits)
    define required where "required = (\<not> has_preceding_string doc all_access_options
       (sp_line (protocol_to_sema_position pos)) (sp_column (protocol_to_sema_position pos)))"
    have its: "its = map (\<lambda>i. i\<lparr>ci_sort_text := ''1'' @ ci_label i\<rparr>) rs @
        statement_completion_items @ expression_completion_items @
        map (with_access_placeholder required) declaration_completion_items @
        map (with_access_placeholder required) container_completion_items"
      and srv': "srv' = answer_session \<lparr>cs_members = [], cs_ranges = rr\<rparr> srv1"
      using assms(1) chk c nxt members True ranges nma
      by (simp_all add: completion_def answer_session_def Let_def required_def)
    from its assms(2,3) fixed_items_no_data [of item required]
    obtain i where i: "i \<in> set rs" "item = i\<lparr>ci_sort_text := ''1'' @ ci_label i\<rparr>" by auto
    have "\<exists>k. ci_data i = ItemData sid k \<and> map_of rr k \<noteq> None"
      using ranges i(1) ranges_loop_items [of sid 0 _ "[]" "[]" rs rr]
      by (auto simp: range_completions_def split: option.splits)
    with i(2) nxt srv' show ?thesis by (intro that [OF same srv']) auto
  qed
qed

section \<open>Properties\<close>

text \<open>
  C9. The sessions are a bounded queue: there are never more than 128, and the session of an answer
  can be looked up until 128 later answers have stored theirs, whatever was stored before.
\<close>

theorem session_survives_later_answers:
  assumes "session_inv s" and "sessions_left s (Suc (length sts))" and "length sts < max_completion_sessions"
    and "nonempty_session st" and "\<forall>x \<in> set sts. nonempty_session x"
  shows "completion_session (fold answer_session sts (answer_session st s)) (fst (next_completion_session s)) = Some st \<and>
     length (srv_session_order (fold answer_session sts (answer_session st s))) \<le> 128"
proof -
  note one = session_inv_answer [OF assms(1,2,4)]
  from recent_session_answers [OF one(1) one(2) assms(5) recent_session_new [OF assms(1,2,4)]] assms(3)
  show ?thesis by (simp add: recent_session_def session_inv_def max_completion_sessions_def)
qed

theorem session_survives_later_answers_witness:
  "completion_session (fold answer_session
      (replicate 5 \<lparr>cs_members = [], cs_ranges = [(''0'', \<lparr>rg_identifier = ''b'', rg_kind = DK_Constant,
         rg_type = \<lparr>ty_qualified = ''Int'', ty_string = ''Int'', ty_annotation = ''Int'', ty_invalid = False, ty_function = None\<rparr>, rg_doc = ''''\<rparr>)]\<rparr>)
      (answer_session \<lparr>cs_members = [], cs_ranges = [(''0'', \<lparr>rg_identifier = ''a'', rg_kind = DK_Constant,
         rg_type = \<lparr>ty_qualified = ''Int'', ty_string = ''Int'', ty_annotation = ''Int'', ty_invalid = False, ty_function = None\<rparr>, rg_doc = ''''\<rparr>)]\<rparr>
        (new_server_v2 fast_config () :: (checker, unit) server)))
      (fst (next_completion_session (new_server_v2 fast_config () :: (checker, unit) server))) \<noteq> None"
proof -
  have "sessions_left (new_server_v2 fast_config () :: (checker, unit) server) 6"
    by (simp add: sessions_left_def new_server_v2_def Let_def)
  then show ?thesis
    by (subst session_survives_later_answers [THEN conjunct1])
       (simp_all add: nonempty_session_def max_completion_sessions_def)
qed

text \<open>
  C10. Every item of a completion that carries session data can be resolved at once: its session
  has just been stored and knows the item, so resolving it adds the documentation.
\<close>

theorem completion_items_resolvable:
  assumes "completion env fuel srv u pos = Some (its, srv')" and "session_inv srv" and "sessions_left srv 1"
    and "item \<in> set its" and "ci_data item \<noteq> NoData"
  shows "ci_documentation (resolve_completion_item kind_name srv' item) \<noteq> None"
proof -
  obtain srv1 st k where same: "srv_sessions srv1 = srv_sessions srv"
      "srv_session_order srv1 = srv_session_order srv" "srv_next_session srv1 = srv_next_session srv"
    and srv': "srv' = answer_session st srv1" and k: "ci_data item = ItemData (fst (next_completion_session srv1)) k"
      "map_of (cs_members st) k \<noteq> None \<or> map_of (cs_ranges st) k \<noteq> None"
    using completion_answer [OF assms(1,4,5)] by metis
  have "session_inv srv1" "sessions_left srv1 (Suc 0)"
    using assms(2,3) by (simp_all add: session_inv_def sessions_left_def same)
  moreover have "nonempty_session st" using k(2) by (auto simp: nonempty_session_def)
  ultimately have "recent_session srv' (fst (next_completion_session srv1)) st 0"
    unfolding srv' by (rule recent_session_new)
  with k have "resolvable srv' item" by (auto simp: resolvable_def recent_session_def)
  then show ?thesis by (rule resolvable_documented)
qed

text \<open>A front end whose checker knows one member and one name, for the closed examples.\<close>

definition int_type :: sema_type where
  "int_type = \<lparr>ty_qualified = ''Int'', ty_string = ''Int'', ty_annotation = ''Int'', ty_invalid = False, ty_function = None\<rparr>"

definition sample_member :: member_info where
  "sample_member = \<lparr>mem_doc = ''doc'', mem_kind = DK_Field, mem_type = int_type, mem_container = ''C'',
     mem_identifier = ''x'', mem_variable_kind = Some ''let''\<rparr>"

definition sample_positions :: position_info where
  "sample_positions = \<lparr>find_occurrence = (\<lambda>_. None), find_occurrences = (\<lambda>_. []), find_invocation = (\<lambda>_. None),
     find_members = (\<lambda>p. if sp_column p = 2 then Some [(''x'', \<lparr>mr_kind = DK_Field, mr_resolve = (\<lambda>_. sample_member)\<rparr>)] else None),
     find_ranges = (\<lambda>_. Some [\<lparr>rg_identifier = ''a'', rg_kind = DK_Constant, rg_type = int_type, rg_doc = ''name''\<rparr>]),
     variable_origins = [], member_origins = []\<rparr>"

definition sample_pos :: ast_pos where
  "sample_pos = \<lparr>pos_offset = 0, pos_line = 1, pos_column = 0\<rparr>"

definition sample_checker :: checker where
  "sample_checker = \<lparr>chk_location = StringLocation ''u'',
     chk_program = \<lparr>prg_tree = Node NOther (sample_pos, sample_pos) EOther [], prg_declarations = []\<rparr>,
     chk_positions = Some sample_positions\<rparr>"

definition sample_env :: "checker \<Rightarrow> (unit, checker, unit) env" where
  "sample_env c = \<lparr>api = \<lparr>parse_program = (\<lambda>_. (Some (), None)), sole_contract = (\<lambda>_. False),
       sole_contract_interface = (\<lambda>_. False), sole_transaction = (\<lambda>_. False),
       new_checker_error = (\<lambda>_ _. None), sub_checker_error = (\<lambda>_ _. None),
       check_program = (\<lambda>_ _. Finished c None)\<rparr>,
     loc_id = demo_id, import_resolver = None\<rparr>"

definition sample_server :: "checker \<Rightarrow> string \<Rightarrow> (checker, unit) server" where
  "sample_server c t = the (did_open (sample_env c) 1 (new_server_v2 fast_config ()) ''u'' t 1)"

definition sample_completion :: "nat \<Rightarrow> completion_item list \<times> (checker, unit) server" where
  "sample_completion n = the (completion (sample_env sample_checker) 1 (sample_server sample_checker ''a.x'') ''u''
     (Position 0 (of_nat n)))"

theorem completion_items_resolvable_witness:
  "ci_documentation (resolve_completion_item (\<lambda>_. ''field'') (snd (sample_completion 3)) (hd (fst (sample_completion 3)))) \<noteq> None"
proof -
  let ?c = "completion (sample_env sample_checker) 1 (sample_server sample_checker ''a.x'') ''u'' (Position 0 (of_nat 3))"
  have "\<not> Option.is_none ?c" by code_simp
  then have run: "?c = Some (fst (sample_completion 3), snd (sample_completion 3))"
    by (auto simp: sample_completion_def Option.is_none_def)
  have inv: "session_inv (sample_server sample_checker ''a.x'')"
    and left: "sessions_left (sample_server sample_checker ''a.x'') 1"
  proof -
    have "srv_session_order (sample_server sample_checker ''a.x'') = []" by code_simp
    moreover have "map fst (srv_sessions (sample_server sample_checker ''a.x'')) = []" by code_simp
    moreover have "srv_next_session (sample_server sample_checker ''a.x'') = 0" by code_simp
    ultimately show "session_inv (sample_server sample_checker ''a.x'')"
      "sessions_left (sample_server sample_checker ''a.x'') 1"
      by (simp_all add: session_inv_def sessions_left_def max_completion_sessions_def)
  qed
  have "length (fst (sample_completion 3)) = 1" by code_simp
  then have mem: "hd (fst (sample_completion 3)) \<in> set (fst (sample_completion 3))" by (cases "fst (sample_completion 3)") auto
  have "ci_label (hd (fst (sample_completion 3))) = ''x''" by code_simp
  have "(case ci_data (hd (fst (sample_completion 3))) of ItemData _ _ \<Rightarrow> True | _ \<Rightarrow> False)" by code_simp
  then have data: "ci_data (hd (fst (sample_completion 3))) \<noteq> NoData" by auto
  show ?thesis by (rule completion_items_resolvable [OF run inv left mem data])
qed

end
