(* ===== verification/Handlers.thy ===== *)
theory Handlers
  imports Completions
begin

text \<open>
  The remaining request handlers (src/languageserver/server2/handlers.go): hover, definition,
  references, signature help, highlights, rename, code actions, symbols, hints, selection and
  folding ranges, semantic tokens. A handler returns its answer and the new state; \<open>None\<close> is a
  request that panics or does not return. A nil slice is the empty list, a nil pointer \<open>None\<close>.
\<close>

section \<open>Common parts\<close>

text \<open>The early return when there is no checker; \<open>dflt\<close> is what the handler answers then.\<close>

definition with_checker ::
    "('p, checker, 's) env \<Rightarrow> nat \<Rightarrow> (checker, 's) server \<Rightarrow> uri \<Rightarrow> 'r \<Rightarrow>
     (checker \<Rightarrow> (checker, 's) server \<Rightarrow> ('r \<times> (checker, 's) server) option) \<Rightarrow>
     ('r \<times> (checker, 's) server) option" where
  "with_checker env fuel srv u dflt f =
     (case checker_for_document env fuel srv u of
        None \<Rightarrow> None
      | Some (None, srv1) \<Rightarrow> Some (dflt, srv1)
      | Some (Some c, srv1) \<Rightarrow> f c srv1)"

definition previous_column :: "sema_pos \<Rightarrow> sema_pos" where
  "previous_column p = p\<lparr>sp_column := sp_column p - 1\<rparr>"

definition find_or_previous :: "(sema_pos \<Rightarrow> 'a option) \<Rightarrow> sema_pos \<Rightarrow> 'a option" where
  "find_or_previous f p =
     (case f p of Some x \<Rightarrow> Some x
      | None \<Rightarrow> if sp_column p > 0 then f (previous_column p) else None)"

definition find_all_or_previous :: "(sema_pos \<Rightarrow> 'a list) \<Rightarrow> sema_pos \<Rightarrow> 'a list" where
  "find_all_or_previous f p =
     (if length (f p) = 0 \<and> sp_column p > 0 then f (previous_column p) else f p)"

section \<open>Hover\<close>

definition document_function_type :: "function_type \<Rightarrow> string" where
  "document_function_type ft =
     ''fun '' @
     (if length (ft_type_parameters ft) > 0
      then ''<'' @ str_join '', '' (ft_type_parameters ft) @ ''>'' else []) @
     ''('' @ str_join '', '' (map par_qualified (ft_parameters ft)) @ '')'' @
     (if ft_return_is_void ft then [] else '': '' @ ft_return_qualified ft)"

definition document_type :: "sema_type \<Rightarrow> string" where
  "document_type ty = (case ty_function ty of Some ft \<Rightarrow> document_function_type ft | None \<Rightarrow> ty_qualified ty)"

record hover =
  hov_markup :: string
  hov_range :: range

definition hover_markup :: "origin \<Rightarrow> string" where
  "hover_markup org =
     ''**Type**'' @ [newline, newline] @ ''```cadence'' @ [newline] @ document_type (org_type org) @
       [newline] @ ''```'' @ [newline] @
     (if org_doc org \<noteq> ''''
      then [newline] @ ''**Documentation**'' @ [newline, newline] @ org_doc org @ [newline] else [])"

definition hover_request ::
    "('p, checker, 's) env \<Rightarrow> nat \<Rightarrow> (checker, 's) server \<Rightarrow> uri \<Rightarrow> position \<Rightarrow>
     (hover option \<times> (checker, 's) server) option" where
  "hover_request env fuel srv u pos = with_checker env fuel srv u None (\<lambda>c srv1.
     case chk_positions c of
       None \<Rightarrow> None
     | Some pinfo \<Rightarrow>
         (case find_or_previous (find_occurrence pinfo) (protocol_to_sema_position pos) of
            None \<Rightarrow> Some (None, srv1)
          | Some occ \<Rightarrow>
              (case occ_origin occ of
                 None \<Rightarrow> Some (None, srv1)
               | Some org \<Rightarrow>
                   Some (Some \<lparr>hov_markup = hover_markup org,
                               hov_range = sema_to_protocol_range (occ_start occ) (occ_end occ)\<rparr>, srv1))))"

section \<open>Definition\<close>

definition owns_origin :: "position_info \<Rightarrow> origin \<Rightarrow> bool" where
  "owns_origin pinfo org \<longleftrightarrow>
     (\<exists>v \<in> set (variable_origins pinfo). org_id v = org_id org) \<or>
     (\<exists>ms \<in> set (member_origins pinfo). \<exists>v \<in> set ms. org_id v = org_id org)"

definition checker_location_to_uri :: "(location \<Rightarrow> string) \<Rightarrow> checker \<Rightarrow> uri" where
  "checker_location_to_uri idf c = (case chk_location c of StringLocation s \<Rightarrow> s | l \<Rightarrow> idf l)"

text \<open>The loop over the dependencies; looking one up moves it to the front of the cache.\<close>

fun owner_loop ::
    "(location \<Rightarrow> string) \<Rightarrow> origin \<Rightarrow> string list \<Rightarrow> checker checker_entry lru \<Rightarrow>
     uri option \<times> checker checker_entry lru" where
  "owner_loop idf org [] ca = (None, ca)"
| "owner_loop idf org (dep # deps) ca =
     (let got = lru_get ca dep
      in case fst got of
           None \<Rightarrow> owner_loop idf org deps (snd got)
         | Some entry \<Rightarrow>
             (case ce_checker entry of
                None \<Rightarrow> owner_loop idf org deps (snd got)
              | Some c \<Rightarrow>
                  (case chk_positions c of
                     None \<Rightarrow> owner_loop idf org deps (snd got)
                   | Some pinfo \<Rightarrow>
                       (if owns_origin pinfo org then (Some (checker_location_to_uri idf c), snd got)
                        else owner_loop idf org deps (snd got)))))"

definition resolve_definition_uri ::
    "('p, checker, 's) env \<Rightarrow> (checker, 's) server \<Rightarrow> uri \<Rightarrow> origin \<Rightarrow> uri \<times> (checker, 's) server" where
  "resolve_definition_uri env srv u org =
     (let key = canonical_cache_key (loc_id env) (StringLocation u);
          deps = dependencies_of (dep_index (srv_host srv)) key;
          found = owner_loop (loc_id env) org deps (cache (srv_host srv))
      in (case fst found of Some w \<Rightarrow> w | None \<Rightarrow> u,
          srv\<lparr>srv_host := (srv_host srv)\<lparr>cache := snd found\<rparr>\<rparr>))"

text \<open>An origin with both positions, and the range between them.\<close>

definition origin_range :: "origin \<Rightarrow> range option" where
  "origin_range org =
     (case (org_start org, org_end org) of
        (Some s, Some e) \<Rightarrow> Some (ast_to_protocol_range s e) | _ \<Rightarrow> None)"

definition definition_request ::
    "('p, checker, 's) env \<Rightarrow> nat \<Rightarrow> (checker, 's) server \<Rightarrow> uri \<Rightarrow> position \<Rightarrow>
     (proto_location option \<times> (checker, 's) server) option" where
  "definition_request env fuel srv u pos = with_checker env fuel srv u None (\<lambda>c srv1.
     case chk_positions c of
       None \<Rightarrow> None
     | Some pinfo \<Rightarrow>
         (case find_occurrence pinfo (protocol_to_sema_position pos) of
            None \<Rightarrow> Some (None, srv1)
          | Some occ \<Rightarrow>
              (case occ_origin occ of
                 None \<Rightarrow> Some (None, srv1)
               | Some org \<Rightarrow>
                   (case origin_range org of
                      None \<Rightarrow> Some (None, srv1)
                    | Some r \<Rightarrow>
                        (case resolve_definition_uri env srv1 u org of
                           (w, srv2) \<Rightarrow> Some (Some \<lparr>loc_uri = w, loc_range = r\<rparr>, srv2))))))"

section \<open>References\<close>

definition occurrence_ranges :: "origin \<Rightarrow> range list" where
  "occurrence_ranges org = map (\<lambda>x. ast_to_protocol_range (fst x) (snd x)) (org_occurrences org)"

definition references_request ::
    "('p, checker, 's) env \<Rightarrow> nat \<Rightarrow> (checker, 's) server \<Rightarrow> uri \<Rightarrow> position \<Rightarrow> bool \<Rightarrow>
     (proto_location list \<times> (checker, 's) server) option" where
  "references_request env fuel srv u pos include_declaration = with_checker env fuel srv u [] (\<lambda>c srv1.
     case chk_positions c of
       None \<Rightarrow> None
     | Some pinfo \<Rightarrow>
         (case find_or_previous (find_occurrence pinfo) (protocol_to_sema_position pos) of
            None \<Rightarrow> Some ([], srv1)
          | Some occ \<Rightarrow>
              (case occ_origin occ of
                 None \<Rightarrow> Some ([], srv1)
               | Some org \<Rightarrow>
                   Some ((case origin_range org of
                            Some r \<Rightarrow> if include_declaration then [\<lparr>loc_uri = u, loc_range = r\<rparr>] else []
                          | None \<Rightarrow> []) @
                         map (\<lambda>r. \<lparr>loc_uri = u, loc_range = r\<rparr>) (occurrence_ranges org), srv1))))"

section \<open>Signature help\<close>

record signature_help =
  sig_label :: string
  sig_parameters :: "string list"
  sig_active :: u32

text \<open>\<^verbatim>\<open>argumentLabels[i]\<close> panics when there are fewer labels than parameters.\<close>

fun label_parts :: "string option list \<Rightarrow> nat \<Rightarrow> sema_parameter list \<Rightarrow> string list \<Rightarrow> string list option" where
  "label_parts labels i [] parts = Some parts"
| "label_parts labels i (p # ps) parts =
     (if i < length labels
      then label_parts labels (i + 1) ps (parts @ [case labels ! i of
             None \<Rightarrow> par_type_qualified p | Some l \<Rightarrow> l @ '': '' @ par_type_qualified p])
      else None)"

definition after_separator :: "sema_pos \<Rightarrow> ast_pos \<Rightarrow> bool" where
  "after_separator p s \<longleftrightarrow> sp_line p > pos_line s \<or> (sp_line p = pos_line s \<and> sp_column p > pos_column s)"

fun active_loop :: "sema_pos \<Rightarrow> ast_pos list \<Rightarrow> u32 \<Rightarrow> u32" where
  "active_loop p [] n = n"
| "active_loop p (s # ss) n = active_loop p ss (if after_separator p s then n + 1 else n)"

definition signature_help_request ::
    "('p, checker, 's) env \<Rightarrow> nat \<Rightarrow> (checker, 's) server \<Rightarrow> uri \<Rightarrow> position \<Rightarrow>
     (signature_help option \<times> (checker, 's) server) option" where
  "signature_help_request env fuel srv u pos = with_checker env fuel srv u None (\<lambda>c srv1.
     case chk_positions c of
       None \<Rightarrow> None
     | Some pinfo \<Rightarrow>
         (let p = protocol_to_sema_position pos
          in case find_invocation pinfo p of
               None \<Rightarrow> Some (None, srv1)
             | Some call \<Rightarrow>
                 (let ft = inv_function call
                  in case label_parts (ft_argument_labels ft) 0 (ft_parameters ft) [] of
                       None \<Rightarrow> None
                     | Some parts \<Rightarrow>
                         Some (Some \<lparr>sig_label = ''('' @ str_join '', '' parts @ ''): '' @ ft_return_qualified ft,
                                     sig_parameters = parts,
                                     sig_active = active_loop p (inv_separators call) 0\<rparr>, srv1))))"

section \<open>Highlights\<close>

fun highlight_loop :: "occurrence list \<Rightarrow> range list \<Rightarrow> range list" where
  "highlight_loop [] acc = acc"
| "highlight_loop (occ # occs) acc =
     (case occ_origin occ of
        None \<Rightarrow> highlight_loop occs acc
      | Some org \<Rightarrow>
          (case origin_range org of
             None \<Rightarrow> highlight_loop occs acc
           | Some _ \<Rightarrow> highlight_loop occs (acc @ occurrence_ranges org)))"

definition document_highlight_request ::
    "('p, checker, 's) env \<Rightarrow> nat \<Rightarrow> (checker, 's) server \<Rightarrow> uri \<Rightarrow> position \<Rightarrow>
     (range list \<times> (checker, 's) server) option" where
  "document_highlight_request env fuel srv u pos = with_checker env fuel srv u [] (\<lambda>c srv1.
     case chk_positions c of
       None \<Rightarrow> None
     | Some pinfo \<Rightarrow>
         Some (highlight_loop (find_all_or_previous (find_occurrences pinfo) (protocol_to_sema_position pos)) [],
               srv1))"

section \<open>Rename\<close>

definition append_edits :: "uri \<Rightarrow> text_edit list \<Rightarrow> workspace_edit \<Rightarrow> workspace_edit" where
  "append_edits u es changes =
     (if es = [] then changes else AList.update u (keys_at changes u @ es) changes)"

fun rename_loop ::
    "('p, checker, 's) env \<Rightarrow> uri \<Rightarrow> string \<Rightarrow> occurrence list \<Rightarrow> workspace_edit \<Rightarrow>
     (checker, 's) server \<Rightarrow> workspace_edit \<times> (checker, 's) server" where
  "rename_loop env u name [] changes srv = (changes, srv)"
| "rename_loop env u name (occ # occs) changes srv =
     (case occ_origin occ of
        None \<Rightarrow> rename_loop env u name occs changes srv
      | Some org \<Rightarrow>
          (case origin_range org of
             None \<Rightarrow> rename_loop env u name occs changes srv
           | Some r \<Rightarrow>
               (let changes1 = append_edits u
                      (map (\<lambda>x. \<lparr>edit_range = x, new_text = name\<rparr>) (occurrence_ranges org)) changes
                in case resolve_definition_uri env srv u org of
                     (w, srv1) \<Rightarrow>
                       (if w \<noteq> u
                        then rename_loop env u name occs
                               (append_edits w [\<lparr>edit_range = r, new_text = name\<rparr>] changes1) srv1
                        else rename_loop env u name occs changes1 srv1))))"

definition rename_request ::
    "('p, checker, 's) env \<Rightarrow> nat \<Rightarrow> (checker, 's) server \<Rightarrow> uri \<Rightarrow> position \<Rightarrow> string \<Rightarrow>
     (workspace_edit option \<times> (checker, 's) server) option" where
  "rename_request env fuel srv u pos name = with_checker env fuel srv u None (\<lambda>c srv1.
     case chk_positions c of
       None \<Rightarrow> None
     | Some pinfo \<Rightarrow>
         (case rename_loop env u name
                 (find_all_or_previous (find_occurrences pinfo) (protocol_to_sema_position pos)) [] srv1 of
            (changes, srv2) \<Rightarrow> Some (Some changes, srv2)))"

section \<open>Code actions\<close>

text \<open>
  What the split-lines refactoring is tried on at a node: container, elements and their name. An
  absent parameter list is dereferenced: the inner \<open>None\<close>.
\<close>

definition params_target :: "param_list option \<Rightarrow> (extent \<times> extent list \<times> string) option" where
  "params_target pl =
     (case pl of None \<Rightarrow> None | Some l \<Rightarrow> Some (pl_extent l, pl_parameters l, ''parameters''))"

fun split_target :: "ast \<Rightarrow> (extent \<times> extent list \<times> string) option option" where
  "split_target (Node (NInvocation args) x el cs) = Some (Some (x, args, ''arguments''))"
| "split_target (Node (NArray vals) x el cs) = Some (Some (x, vals, ''elements''))"
| "split_target (Node (NDictionary entries) x el cs) =
     Some (Some (x, map (\<lambda>kv. (fst (fst kv), snd (snd kv))) entries, ''entries''))"
| "split_target (Node (NFunction pl b) x el cs) = map_option Some (params_target pl)"
| "split_target (Node (NSpecialFunction pl b fx) x el cs) = map_option Some (params_target pl)"
| "split_target (Node (NFunctionExpression pl) x el cs) = map_option Some (params_target pl)"
| "split_target (Node k x el cs) = Some None"

definition split_visit ::
    "uri \<Rightarrow> document \<Rightarrow> range \<Rightarrow> ast \<Rightarrow> code_action list option \<Rightarrow> code_action list option" where
  "split_visit u doc req node acc =
     (case acc of
        None \<Rightarrow> None
      | Some acts \<Rightarrow>
          (case split_target node of
             None \<Rightarrow> None
           | Some None \<Rightarrow> Some acts
           | Some (Some (container, els, plural)) \<Rightarrow>
               (case maybe_split_lines u doc req container els plural of
                  None \<Rightarrow> None
                | Some None \<Rightarrow> Some acts
                | Some (Some act) \<Rightarrow> Some (acts @ [act]))))"

text \<open>The diagnostics of the request's context that carry the key of a known resolver.\<close>

fun resolver_loop ::
    "(string, code_action list) gomap \<Rightarrow> proto_diagnostic list \<Rightarrow> code_action list \<Rightarrow> code_action list" where
  "resolver_loop m [] acts = acts"
| "resolver_loop m (d # ds) acts =
     (case pd_data d of
        None \<Rightarrow> resolver_loop m ds acts
      | Some k \<Rightarrow>
          (case map_of m k of
             None \<Rightarrow> resolver_loop m ds acts
           | Some resolved \<Rightarrow> resolver_loop m ds (acts @ resolved)))"

definition code_action_request ::
    "('p, checker, 's) env \<Rightarrow> nat \<Rightarrow> (checker, 's) server \<Rightarrow> uri \<Rightarrow> range \<Rightarrow> proto_diagnostic list \<Rightarrow>
     bool \<Rightarrow> (code_action list \<times> (checker, 's) server) option" where
  "code_action_request env fuel srv u req diags invoked = with_checker env fuel srv u [] (\<lambda>c srv1.
     case get_document (srv_host srv1) u of
       None \<Rightarrow> Some ([], srv1)
     | Some doc \<Rightarrow>
         (let acts = (case map_of (srv_action_resolvers srv1) u of
                        None \<Rightarrow> [] | Some m \<Rightarrow> resolver_loop m diags [])
          in if invoked
             then (case inspect (\<lambda>node acc. (split_visit u doc req node acc, True))
                           (prg_tree (chk_program c)) (Some acts) of
                     None \<Rightarrow> None
                   | Some acts' \<Rightarrow> Some (acts', srv1))
             else Some (acts, srv1)))"

definition code_lens_request :: "'a list" where
  "code_lens_request = []"

section \<open>Symbols and links\<close>

text \<open>\<^verbatim>\<open>strings.TrimSpace(s) == \"\"\<close> on ASCII text.\<close>

definition blank :: "string \<Rightarrow> bool" where
  "blank s \<longleftrightarrow> (\<forall>c \<in> set s. (of_char c :: nat) \<in> {9, 10, 11, 12, 13, 32})"

definition document_symbol_request ::
    "(decl_kind \<Rightarrow> string) \<Rightarrow> ('p, checker, 's) env \<Rightarrow> nat \<Rightarrow> (checker, 's) server \<Rightarrow> uri \<Rightarrow>
     (document_symbol list \<times> (checker, 's) server) option" where
  "document_symbol_request keywords env fuel srv u = with_checker env fuel srv u [] (\<lambda>c srv1.
     Some (filter (\<lambda>s. \<not> blank (sym_name s))
             (map (declaration_to_document_symbol keywords) (prg_declarations (chk_program c))), srv1))"

definition document_link_request :: "'a list" where
  "document_link_request = []"

definition execute_command_request :: "'a option" where
  "execute_command_request = None"

record symbol_information =
  si_name :: string
  si_kind :: symbol_kind
  si_location :: proto_location

text \<open>\<^verbatim>\<open>strings.Contains\<close>; \<open>lower\<close> is \<^verbatim>\<open>strings.ToLower\<close>.\<close>

definition str_contains :: "string \<Rightarrow> string \<Rightarrow> bool" where
  "str_contains s p \<longleftrightarrow> str_index s p \<noteq> None"

definition symbol_of_decl :: "uri \<Rightarrow> decl \<Rightarrow> symbol_information" where
  "symbol_of_decl u d =
     \<lparr>si_name = (case decl_identifier d of Some i \<Rightarrow> id_name i | None \<Rightarrow> ''''),
      si_kind = declaration_kind_to_symbol_kind (decl_kind d),
      si_location = \<lparr>loc_uri = u, loc_range = ast_to_protocol_range (decl_start d) (decl_end d)\<rparr>\<rparr>"

text \<open>Dereferencing a nil identifier panics.\<close>

fun symbols_of_decls ::
    "(string \<Rightarrow> string) \<Rightarrow> string \<Rightarrow> uri \<Rightarrow> decl list \<Rightarrow> symbol_information list \<Rightarrow>
     symbol_information list option" where
  "symbols_of_decls lower query u [] acc = Some acc"
| "symbols_of_decls lower query u (d # ds) acc =
     (case decl_identifier d of
        None \<Rightarrow> None
      | Some i \<Rightarrow>
          (if id_name i = '''' then symbols_of_decls lower query u ds acc
           else if query \<noteq> '''' \<and> \<not> str_contains (lower (id_name i)) query
           then symbols_of_decls lower query u ds acc
           else symbols_of_decls lower query u ds (acc @ [symbol_of_decl u d])))"

fun workspace_loop ::
    "(string \<Rightarrow> string) \<Rightarrow> ('p, checker, 's) env \<Rightarrow> nat \<Rightarrow> string \<Rightarrow> uri list \<Rightarrow> symbol_information list \<Rightarrow>
     (checker, 's) server \<Rightarrow> (symbol_information list \<times> (checker, 's) server) option" where
  "workspace_loop lower env fuel query [] acc srv = Some (acc, srv)"
| "workspace_loop lower env fuel query (u # us) acc srv =
     (case checker_for_document env fuel srv u of
        None \<Rightarrow> None
      | Some (None, srv1) \<Rightarrow> workspace_loop lower env fuel query us acc srv1
      | Some (Some c, srv1) \<Rightarrow>
          (case symbols_of_decls lower query u (prg_declarations (chk_program c)) acc of
             None \<Rightarrow> None
           | Some acc1 \<Rightarrow> workspace_loop lower env fuel query us acc1 srv1))"

definition workspace_symbol_request ::
    "(string \<Rightarrow> string) \<Rightarrow> ('p, checker, 's) env \<Rightarrow> nat \<Rightarrow> (checker, 's) server \<Rightarrow> string \<Rightarrow>
     (symbol_information list \<times> (checker, 's) server) option" where
  "workspace_symbol_request lower env fuel srv query =
     workspace_loop lower env fuel (lower query) (document_uris (srv_host srv)) [] srv"

section \<open>Inlay hints\<close>

record inlay_hint =
  hint_position :: position
  hint_label :: string
  hint_edits :: "text_edit list"

definition hint_candidate :: "range \<Rightarrow> ast \<Rightarrow> (ast_pos \<times> sema_type option) list" where
  "hint_candidate req node =
     (case node_kind node of
        NVariable annotated id_end_pos ty \<Rightarrow>
          (if annotated then []
           else if overlaps req (ast_to_protocol_range (fst (node_extent node)) (snd (node_extent node)))
           then [(id_end_pos, ty)] else [])
      | _ \<Rightarrow> [])"

definition hint_of :: "ast_pos \<times> sema_type option \<Rightarrow> inlay_hint list" where
  "hint_of x =
     (case snd x of
        None \<Rightarrow> []
      | Some ty \<Rightarrow>
          (if ty_invalid ty then []
           else let p = ast_to_protocol_position (shifted (fst x) 1); s = '': '' @ ty_annotation ty
                in [\<lparr>hint_position = p, hint_label = s,
                     hint_edits = [\<lparr>edit_range = Range p p, new_text = s\<rparr>]\<rparr>]))"

definition inlay_hint_request ::
    "('p, checker, 's) env \<Rightarrow> nat \<Rightarrow> (checker, 's) server \<Rightarrow> uri \<Rightarrow> range \<Rightarrow>
     (inlay_hint list \<times> (checker, 's) server) option" where
  "inlay_hint_request env fuel srv u req = with_checker env fuel srv u [] (\<lambda>c srv1.
     Some (concat (map hint_of
             (inspect (\<lambda>node acc. (acc @ hint_candidate req node, True)) (prg_tree (chk_program c)) [])),
           srv1))"

section \<open>Selection ranges\<close>

datatype selection_range = SelectionRange (sel_range: range) (sel_parent: "selection_range option")

definition position_in_range :: "position \<Rightarrow> range \<Rightarrow> bool" where
  "position_in_range p r =
     (if line p < line (range_start r) \<or> line p > line (range_end r) then False
      else if line p = line (range_start r) \<and> character p < character (range_start r) then False
      else if line p = line (range_end r) \<and> character p > character (range_end r) then False
      else True)"

definition node_range :: "ast \<Rightarrow> range" where
  "node_range n = ast_to_protocol_range (fst (node_extent n)) (snd (node_extent n))"

definition selection_visit :: "position \<Rightarrow> ast \<Rightarrow> range list \<Rightarrow> range list \<times> bool" where
  "selection_visit p n acc =
     (if position_in_range p (node_range n) then (acc @ [node_range n], True) else (acc, False))"

fun selection_chain :: "range list \<Rightarrow> selection_range option \<Rightarrow> selection_range option" where
  "selection_chain [] current = current"
| "selection_chain (r # rs) current = selection_chain rs (Some (SelectionRange r current))"

definition build_selection_range :: "ast \<Rightarrow> position \<Rightarrow> selection_range option" where
  "build_selection_range tree p =
     (let rs = inspect (selection_visit p) tree []
      in if length rs = 0 then None else selection_chain rs None)"

definition selection_range_request ::
    "('p, checker, 's) env \<Rightarrow> nat \<Rightarrow> (checker, 's) server \<Rightarrow> uri \<Rightarrow> position list \<Rightarrow>
     (selection_range option list \<times> (checker, 's) server) option" where
  "selection_range_request env fuel srv u ps = with_checker env fuel srv u [] (\<lambda>c srv1.
     Some (map (build_selection_range (prg_tree (chk_program c))) ps, srv1))"

section \<open>Folding ranges and tokens\<close>

record folding_range =
  fold_start :: u32
  fold_end :: u32
  fold_kind :: string

text \<open>The extent that is folded at a node, if any; a function without a body has none.\<close>

definition fold_extent :: "ast \<Rightarrow> extent option" where
  "fold_extent n =
     (case node_kind n of
        NFunction _ body \<Rightarrow> if body then Some (node_extent n) else None
      | NSpecialFunction _ body fx \<Rightarrow> if body then Some fx else None
      | NComposite \<Rightarrow> Some (node_extent n)
      | NInterface \<Rightarrow> Some (node_extent n)
      | NTransaction \<Rightarrow> Some (node_extent n)
      | NSwitch \<Rightarrow> Some (node_extent n)
      | NFor \<Rightarrow> Some (node_extent n)
      | NWhile \<Rightarrow> Some (node_extent n)
      | NIf \<Rightarrow> Some (node_extent n)
      | _ \<Rightarrow> None)"

definition fold_ranges :: "ast \<Rightarrow> folding_range list" where
  "fold_ranges n =
     (case fold_extent n of
        None \<Rightarrow> []
      | Some x \<Rightarrow>
          (if pos_line (snd x) > pos_line (fst x)
           then [\<lparr>fold_start = word_of_int (pos_line (fst x) - 1),
                  fold_end = word_of_int (pos_line (snd x) - 1), fold_kind = ''region''\<rparr>]
           else []))"

definition folding_range_request ::
    "('p, checker, 's) env \<Rightarrow> nat \<Rightarrow> (checker, 's) server \<Rightarrow> uri \<Rightarrow>
     (folding_range list \<times> (checker, 's) server) option" where
  "folding_range_request env fuel srv u = with_checker env fuel srv u [] (\<lambda>c srv1.
     Some (inspect (\<lambda>node acc. (acc @ fold_ranges node, True)) (prg_tree (chk_program c)) [], srv1))"

definition semantic_tokens_request ::
    "('p, checker, 's) env \<Rightarrow> nat \<Rightarrow> (checker, 's) server \<Rightarrow> uri \<Rightarrow>
     (u32 list option \<times> (checker, 's) server) option" where
  "semantic_tokens_request env fuel srv u = with_checker env fuel srv u None (\<lambda>c srv1.
     Some (Some (encode_semantic_tokens
             (collect_semantic_tokens (map node_element (preorder (prg_tree (chk_program c)))))), srv1))"

section \<open>Selection chains\<close>

fun chain_ranges :: "selection_range option \<Rightarrow> range list" where
  "chain_ranges None = []"
| "chain_ranges (Some (SelectionRange r p)) = r # chain_ranges p"

text \<open>The ranges the traversal collects, outermost first.\<close>

fun selected :: "position \<Rightarrow> ast \<Rightarrow> range list"
and selected_children :: "position \<Rightarrow> ast list \<Rightarrow> range list" where
  "selected p (Node k x el cs) =
     (if position_in_range p (ast_to_protocol_range (fst x) (snd x))
      then ast_to_protocol_range (fst x) (snd x) # selected_children p cs else [])"
| "selected_children p [] = []"
| "selected_children p (c # cs) = selected p c @ selected_children p cs"

lemma inspect_selected:
  "inspect (selection_visit p) t acc = acc @ selected p t"
  "inspect_children (selection_visit p) ts acc = acc @ selected_children p ts"
  by (induction p t and p ts arbitrary: acc and acc rule: selected_selected_children.induct)
     (simp_all add: selection_visit_def node_range_def Let_def)

lemma chain_ranges_selection_chain: "chain_ranges (selection_chain rs cur) = rev rs @ chain_ranges cur"
  by (induction rs cur rule: selection_chain.induct) simp_all

lemma chain_ranges_build: "chain_ranges (build_selection_range t p) = rev (selected p t)"
  by (simp add: build_selection_range_def Let_def inspect_selected chain_ranges_selection_chain)

lemma position_in_range_iff: "position_in_range p r \<longleftrightarrow> range_start r \<le> p \<and> p \<le> range_end r"
  by (auto simp: position_in_range_def less_eq_position_def)

definition within :: "range \<Rightarrow> range \<Rightarrow> bool" where
  "within r outer \<longleftrightarrow> range_start outer \<le> range_start r \<and> range_end r \<le> range_end outer"

lemma within_refl [simp]: "within r r"
  by (simp add: within_def)

lemma within_trans: "within a b \<Longrightarrow> within b c \<Longrightarrow> within a c"
  by (auto simp: within_def)

text \<open>Extents nest, and at most one child of a node contains the position.\<close>

fun nested_at :: "position \<Rightarrow> ast \<Rightarrow> bool" where
  "nested_at p (Node k x el cs) \<longleftrightarrow>
     (\<forall>c \<in> set cs. within (node_range c) (ast_to_protocol_range (fst x) (snd x)) \<and> nested_at p c) \<and>
     length (filter (\<lambda>c. position_in_range p (node_range c)) cs) \<le> 1"

lemma selected_children_concat: "selected_children p cs = concat (map (selected p) cs)"
  by (induction cs) simp_all

lemma selected_outside: "\<not> position_in_range p (node_range t) \<Longrightarrow> selected p t = []"
  by (cases t) (simp add: node_range_def)

lemma concat_at_most_one:
  assumes "length (filter Q cs) \<le> 1" and "\<And>c. c \<in> set cs \<Longrightarrow> \<not> Q c \<Longrightarrow> f c = []"
  shows "concat (map f cs) = [] \<or> (\<exists>c \<in> set cs. concat (map f cs) = f c)"
  using assms
proof (induction cs)
  case (Cons c cs)
  show ?case
  proof (cases "Q c")
    case True
    with Cons.prems(1) have "filter Q cs = []" by simp
    then have "\<And>d. d \<in> set cs \<Longrightarrow> f d = []" using Cons.prems(2) by (simp add: filter_empty_conv)
    then have "concat (map f cs) = []" by simp
    then show ?thesis by simp
  next
    case False
    with Cons.prems(2) have "f c = []" by simp
    with Cons False show ?thesis by auto
  qed
qed simp

lemma selected_nested:
  "nested_at p t \<Longrightarrow> sorted_wrt (\<lambda>a b. within b a) (selected p t) \<and>
     (\<forall>r \<in> set (selected p t). within r (node_range t) \<and> position_in_range p r)"
proof (induction p t rule: nested_at.induct)
  case (1 p k x el cs)
  let ?r = "ast_to_protocol_range (fst x) (snd x)"
  have kids: "\<forall>c \<in> set cs. sorted_wrt (\<lambda>a b. within b a) (selected p c) \<and>
      (\<forall>r \<in> set (selected p c). within r ?r \<and> position_in_range p r)"
    using 1 within_trans by (metis nested_at.simps)
  have "selected_children p cs = [] \<or> (\<exists>c \<in> set cs. selected_children p cs = selected p c)"
    unfolding selected_children_concat
    by (rule concat_at_most_one [where Q = "\<lambda>c. position_in_range p (node_range c)"])
       (use "1.prems" selected_outside in auto)
  with kids have "sorted_wrt (\<lambda>a b. within b a) (selected_children p cs) \<and>
      (\<forall>r \<in> set (selected_children p cs). within r ?r \<and> position_in_range p r)" by auto
  then show ?case by (auto simp: node_range_def)
qed

section \<open>Owners of definitions\<close>

text \<open>The first dependency whose cached checker has the origin, read off the cache's contents.\<close>

fun owner_of ::
    "(location \<Rightarrow> string) \<Rightarrow> (string \<Rightarrow> checker checker_entry option) \<Rightarrow> string list \<Rightarrow> origin \<Rightarrow> uri option" where
  "owner_of idf look [] org = None"
| "owner_of idf look (dep # deps) org =
     (case look dep of
        None \<Rightarrow> owner_of idf look deps org
      | Some entry \<Rightarrow>
          (case ce_checker entry of
             None \<Rightarrow> owner_of idf look deps org
           | Some c \<Rightarrow>
               (case chk_positions c of
                  None \<Rightarrow> owner_of idf look deps org
                | Some pinfo \<Rightarrow>
                    (if owns_origin pinfo org then Some (checker_location_to_uri idf c)
                     else owner_of idf look deps org))))"

lemma owner_loop_owner_of:
  "lru_wf ca \<Longrightarrow> fst (owner_loop idf org deps ca) = owner_of idf (lru_peek ca) deps org \<and>
     lru_wf (snd (owner_loop idf org deps ca)) \<and> lru_peek (snd (owner_loop idf org deps ca)) = lru_peek ca"
proof (induction idf org deps ca rule: owner_loop.induct)
  case (2 idf org dep deps ca)
  have wf: "lru_wf (snd (lru_get ca dep))" and same: "lru_peek (snd (lru_get ca dep)) = lru_peek ca"
    using "2.prems" by (simp_all add: lru_wf_get fun_eq_iff)
  have look: "fst (lru_get ca dep) = lru_peek ca dep" by (simp add: lru_peek_def)
  show ?case
  proof (cases "fst (lru_get ca dep)")
    case None
    with 2 wf same look show ?thesis by (simp add: Let_def)
  next
    case (Some entry)
    with 2 wf same look show ?thesis
      by (cases entry) (auto simp: Let_def split: option.splits)
  qed
qed simp

definition definition_owner ::
    "('p, checker, 's) env \<Rightarrow> (checker, 's) server \<Rightarrow> uri \<Rightarrow> origin \<Rightarrow> uri" where
  "definition_owner env s u org =
     (case owner_of (loc_id env) (lru_peek (cache (srv_host s)))
             (dependencies_of (dep_index (srv_host s)) (loc_id env (StringLocation u))) org of
        Some w \<Rightarrow> w | None \<Rightarrow> u)"

lemma resolve_definition_uri_spec:
  assumes "lru_wf (cache (srv_host s))" and "resolve_definition_uri env s u org = (w, s')"
  shows "w = definition_owner env s u org \<and> lru_wf (cache (srv_host s')) \<and>
    lru_peek (cache (srv_host s')) = lru_peek (cache (srv_host s)) \<and>
    dep_index (srv_host s') = dep_index (srv_host s)"
proof -
  have "w = (case fst (owner_loop (loc_id env) org
        (dependencies_of (dep_index (srv_host s)) (loc_id env (StringLocation u))) (cache (srv_host s))) of
          Some w \<Rightarrow> w | None \<Rightarrow> u)"
    "s' = s\<lparr>srv_host := (srv_host s)\<lparr>cache := snd (owner_loop (loc_id env) org
        (dependencies_of (dep_index (srv_host s)) (loc_id env (StringLocation u))) (cache (srv_host s)))\<rparr>\<rparr>"
    using assms(2) by (auto simp: resolve_definition_uri_def Let_def canonical_cache_key_def)
  with owner_loop_owner_of [OF assms(1)] show ?thesis by (simp add: definition_owner_def)
qed

section \<open>The edits of a rename\<close>

fun complete_origins :: "occurrence list \<Rightarrow> origin list" where
  "complete_origins [] = []"
| "complete_origins (occ # occs) =
     (case occ_origin occ of
        None \<Rightarrow> complete_origins occs
      | Some org \<Rightarrow> (if origin_range org = None then [] else [org]) @ complete_origins occs)"

definition use_edits :: "string \<Rightarrow> origin \<Rightarrow> text_edit list" where
  "use_edits name org = map (\<lambda>r. \<lparr>edit_range = r, new_text = name\<rparr>) (occurrence_ranges org)"

definition declaration_edit :: "string \<Rightarrow> origin \<Rightarrow> text_edit" where
  "declaration_edit name org = \<lparr>edit_range = the (origin_range org), new_text = name\<rparr>"

lemma keys_at_append_edits [simp]:
  "keys_at (append_edits u es changes) v = keys_at changes v @ (if v = u then es else [])"
  by (simp add: append_edits_def)

lemma highlight_loop_eq: "highlight_loop occs acc = acc @ concat (map occurrence_ranges (complete_origins occs))"
  by (induction occs acc rule: highlight_loop.induct) (auto split: option.splits)

lemma rename_loop_edits:
  "rename_loop env u name occs changes s = (changes', s') \<Longrightarrow> lru_wf (cache (srv_host s)) \<Longrightarrow>
   keys_at changes' v = keys_at changes v @
     concat (map (\<lambda>org. if v = u then use_edits name org
        else if definition_owner env s u org = v then [declaration_edit name org] else []) (complete_origins occs))"
proof (induction occs arbitrary: changes s)
  case (Cons occ occs)
  show ?case
  proof (cases "occ_origin occ")
    case None
    with Cons show ?thesis by simp
  next
    case (Some org)
    note occ = Some
    show ?thesis
    proof (cases "origin_range org")
      case None
      with Cons occ show ?thesis by simp
    next
      case (Some r)
      obtain w s1 where res: "resolve_definition_uri env s u org = (w, s1)" by force
      note spec = resolve_definition_uri_spec [OF Cons.prems(2) res]
      have owner: "definition_owner env s1 u x = definition_owner env s u x" for x
        using spec by (simp only: definition_owner_def)
      have use: "map (\<lambda>x. \<lparr>edit_range = x, new_text = name\<rparr>) (occurrence_ranges org) = use_edits name org"
        by (simp add: use_edits_def)
      have decl: "\<lparr>edit_range = r, new_text = name\<rparr> = declaration_edit name org"
        using Some by (simp add: declaration_edit_def)
      let ?ch = "if w \<noteq> u then append_edits w [declaration_edit name org] (append_edits u (use_edits name org) changes)
         else append_edits u (use_edits name org) changes"
      have "rename_loop env u name occs ?ch s1 = (changes', s')"
        using Cons.prems(1) occ Some res by (simp add: use decl Let_def split: if_splits)
      from Cons.IH [OF this] spec have "keys_at changes' v = keys_at ?ch v @
         concat (map (\<lambda>org. if v = u then use_edits name org
            else if definition_owner env s u org = v then [declaration_edit name org] else []) (complete_origins occs))"
        by (simp add: owner cong: if_cong)
      with occ Some spec show ?thesis by auto
    qed
  qed
qed simp

section \<open>Action resolvers\<close>

lemma schedule_check_resolvers:
  "schedule_check env fuel s u = Some s' \<Longrightarrow> srv_action_resolvers s' = srv_action_resolvers s"
  by (auto simp: schedule_check_def Let_def run_check_def check_begin_eq check_finish_control
      split: if_splits option.splits)

lemma common_step_resolvers:
  "common_step env fuel s s' \<Longrightarrow> srv_action_resolvers s = [] \<Longrightarrow> srv_action_resolvers s' = []"
  by (induction rule: common_step.induct)
     (auto simp: initialize_conn_def did_open_eq did_change_eq checker_for_document_control
        check_finish_control shutdown_def split: if_splits option.splits dest!: schedule_check_resolvers)

lemma server_run_resolvers: "server_run env fuel config rs s \<Longrightarrow> srv_action_resolvers s = []"
proof (induction rule: server_run.induct)
  case run_init
  then show ?case by (simp add: new_server_v2_def Let_def)
next
  case (run_step s s')
  from run_step(2,3) show ?case by cases (auto intro: common_step_resolvers)
qed

lemma split_visit_only_splits:
  "fold (split_visit u doc req) ns acc = Some acts \<Longrightarrow> (\<And>b. acc = Some b \<Longrightarrow> \<forall>a \<in> set b. P a) \<Longrightarrow>
   (\<And>container els plural a. maybe_split_lines u doc req container els plural = Some (Some a) \<Longrightarrow> P a) \<Longrightarrow>
   \<forall>a \<in> set acts. P a"
proof (induction ns arbitrary: acc)
  case (Cons n ns)
  have "\<forall>a \<in> set b. P a" if "split_visit u doc req n acc = Some b" for b
    using that Cons.prems(2,3) by (auto simp: split_visit_def split: option.splits)
  with Cons show ?case by simp
qed auto

section \<open>Properties\<close>

text \<open>
  C8. A rename edits, in the document itself, exactly the occurrences of the origins found at the
  position (the ranges a highlight request shows, in the same order), and in every other file
  exactly the declarations of those origins that the file's cached checker owns; every edit
  writes the new name.
\<close>

theorem rename_edits_exactly:
  assumes "rename_loop env u name occs [] s = (changes, s')" and "host_wf (srv_host s)"
  shows "keys_at changes u = concat (map (use_edits name) (complete_origins occs)) \<and>
     map edit_range (keys_at changes u) = highlight_loop occs [] \<and>
     (\<forall>v. v \<noteq> u \<longrightarrow> keys_at changes v = map (declaration_edit name)
        (filter (\<lambda>org. definition_owner env s u org = v) (complete_origins occs)))"
proof -
  have wf: "lru_wf (cache (srv_host s))" using assms(2) by (simp add: host_wf_def)
  note edits = rename_loop_edits [OF assms(1) wf]
  have "keys_at changes u = concat (map (use_edits name) (complete_origins occs))"
    using edits [of u] by simp
  moreover have "map edit_range (concat (map (use_edits name) orgs)) = concat (map occurrence_ranges orgs)" for orgs
    by (induction orgs) (simp_all add: use_edits_def comp_def)
  moreover have "concat (map (\<lambda>org. if definition_owner env s u org = v then [declaration_edit name org] else []) orgs) =
      map (declaration_edit name) (filter (\<lambda>org. definition_owner env s u org = v) orgs)" for v orgs
    by (induction orgs) simp_all
  ultimately show ?thesis using edits by (simp add: highlight_loop_eq)
qed

definition sample_origin :: origin where
  "sample_origin = \<lparr>org_id = 1, org_type = int_type, org_doc = '''', org_start = Some sample_pos,
     org_end = Some sample_pos, org_occurrences = [(sample_pos, sample_pos), (sample_pos, sample_pos)]\<rparr>"

definition sample_occurrence :: occurrence where
  "sample_occurrence = \<lparr>occ_start = \<lparr>sp_line = 1, sp_column = 0\<rparr>, occ_end = \<lparr>sp_line = 1, sp_column = 0\<rparr>,
     occ_origin = Some sample_origin\<rparr>"

theorem rename_edits_exactly_witness:
  "length (keys_at (fst (rename_loop (sample_env sample_checker) ''u'' ''y'' [sample_occurrence] []
      (new_server_v2 fast_config ()))) ''u'') = 2"
proof -
  have "host_wf (srv_host (new_server_v2 fast_config () :: (checker, unit) server))"
    by (simp add: new_server_v2_def Let_def)
  from rename_edits_exactly [OF prod.collapse [symmetric] this,
      of "sample_env sample_checker" "''u''" "''y''" "[sample_occurrence]"]
  show ?thesis
    by (simp add: sample_occurrence_def sample_origin_def origin_range_def use_edits_def occurrence_ranges_def)
qed

text \<open>
  Once a request has found a checker for a document, the next request finds the same one in
  the cache: it runs no analysis (it needs no fuel), and changes neither the documents nor the
  contents of the cache.
\<close>

theorem next_request_served_from_cache:
  assumes "checker_for_document env fuel s u = Some (Some c, s')" and "host_wf (srv_host s)"
  shows "\<exists>s''. checker_for_document env 0 s' u = Some (Some c, s'') \<and>
     docs (srv_host s'') = docs (srv_host s) \<and>
     lru_peek (cache (srv_host s'')) = lru_peek (cache (srv_host s')) \<and>
     dep_index (srv_host s'') = dep_index (srv_host s')"
proof -
  let ?key = "loc_id env (StringLocation u)"
  let ?s1 = "s\<lparr>srv_host := (srv_host s)\<lparr>cache := snd (lru_get (cache (srv_host s)) ?key)\<rparr>\<rparr>"
  have wf': "host_wf (srv_host s')" using checker_for_document_control [OF assms(1)] assms(2) by simp
  have wf1: "shared_wf (shared_of ?s1)" using assms(2) by (simp add: host_wf_def shared_wf_def lru_wf_get)
  have "usable_entry (lru_peek (cache (srv_host s')) ?key) = Some c"
  proof (cases "usable_entry (fst (lru_get (cache (srv_host s)) ?key))")
    case (Some d)
    with assms(1) have "s' = ?s1" "d = c"
      by (auto simp: checker_for_document_def Let_def canonical_cache_key_def)
    with Some assms(2) show ?thesis by (simp add: host_wf_def) (simp add: lru_peek_def)
  next
    case None
    then obtain res st where an: "analyze env fuel (\<lambda>_. False) (snap_documents (host_snapshot (srv_host ?s1))) u
          (shared_of ?s1) = Some (res, st)"
      and res: "res_checker res = Some c" "s' = with_shared ?s1 st"
      using assms(1) by (auto simp: checker_for_document_def Let_def canonical_cache_key_def split: option.splits)
    from analyze_caches [OF an wf1 res(1)] show ?thesis by (simp add: res(2) usable_entry_def)
  qed
  then have "usable_entry (fst (lru_get (cache (srv_host s')) ?key)) = Some c" by (simp add: lru_peek_def)
  moreover have "lru_wf (cache (srv_host s'))" using wf' by (simp add: host_wf_def)
  ultimately show ?thesis
    using checker_for_document_control(1) [OF assms(1)]
    by (simp add: checker_for_document_def Let_def canonical_cache_key_def fun_eq_iff)
qed

theorem next_request_served_from_cache_witness:
  "\<exists>s''. checker_for_document echo_env 0 (snd (the (checker_for_document echo_env 1 race1 ''u''))) ''u'' =
     Some (Some ''v1'', s'')"
proof -
  let ?r = "checker_for_document echo_env 1 race1 ''u''"
  have "\<not> Option.is_none ?r" by code_simp
  moreover have "fst (the ?r) = Some ''v1''" by code_simp
  ultimately have "?r = Some (Some ''v1'', snd (the ?r))"
    by (metis Option.is_none_simps(1) option.collapse prod.collapse)
  moreover have "host_wf (srv_host race1)" using server_run_inv [OF slow_open_run] by (simp add: server_inv_def)
  ultimately show ?thesis using next_request_served_from_cache [of echo_env 1 race1 "''u''" "''v1''"] by blast
qed

text \<open>
  Selection ranges: when the extents of the syntax tree nest and at most one child of a node
  contains the position, each range of the answer contains the position and lies within its parent.
\<close>

theorem selection_ranges_nest:
  assumes "nested_at p t"
  shows "sorted_wrt within (chain_ranges (build_selection_range t p)) \<and>
     (\<forall>r \<in> set (chain_ranges (build_selection_range t p)). range_start r \<le> p \<and> p \<le> range_end r)"
proof -
  note sel = selected_nested [OF assms]
  then have "sorted_wrt within (rev (selected p t))" by (simp add: sorted_wrt_rev)
  with sel show ?thesis by (auto simp: chain_ranges_build position_in_range_iff)
qed

definition at_column :: "int \<Rightarrow> ast_pos" where
  "at_column n = \<lparr>pos_offset = n, pos_line = 1, pos_column = n\<rparr>"

definition two_blocks :: ast where
  "two_blocks = Node NOther (at_column 0, at_column 7) EOther
     [Node NComposite (at_column 0, at_column 3) EOther [], Node NComposite (at_column 4, at_column 7) EOther []]"

lemma two_blocks_apart: "nested_at (Position 0 2) two_blocks"
  by code_simp

theorem selection_ranges_nest_witness:
  "sorted_wrt within (chain_ranges (build_selection_range two_blocks (Position 0 2))) \<and>
   length (chain_ranges (build_selection_range two_blocks (Position 0 2))) = 2"
proof -
  have "length (chain_ranges (build_selection_range two_blocks (Position 0 2))) = 2" by code_simp
  with selection_ranges_nest [OF two_blocks_apart] show ?thesis by blast
qed

text \<open>
  The inclusive end breaks the protocol's rule for two declarations that touch: at the border
  between them both contain the position, and the first becomes the parent of the second, which it
  does not contain.
\<close>

theorem touching_declarations_break_nesting:
  "chain_ranges (build_selection_range two_blocks (Position 0 4)) =
     [Range (Position 0 4) (Position 0 8), Range (Position 0 0) (Position 0 4),
      Range (Position 0 0) (Position 0 8)] \<and>
   \<not> within (Range (Position 0 4) (Position 0 8)) (Range (Position 0 0) (Position 0 4))"
  by code_simp

text \<open>
  No operation of the server ever registers a resolver for the actions of a diagnostic, and the
  diagnostics it publishes carry no key, so a code action request that the user did not invoke
  explicitly is always answered with the empty list, and an invoked one only offers to split lines.
\<close>

theorem code_actions_only_split_lines:
  assumes "server_run env fuel config rs s"
    and "code_action_request env fuel s u req diags invoked = Some (acts, s')"
  shows "(\<not> invoked \<longrightarrow> acts = []) \<and>
     (\<forall>a \<in> set acts. \<exists>doc container els plural.
        maybe_split_lines u doc req container els plural = Some (Some a))"
proof -
  obtain c s1 where chk: "checker_for_document env fuel s u = Some (c, s1)"
    using assms(2) by (auto simp: code_action_request_def with_checker_def split: option.splits)
  have none: "srv_action_resolvers s1 = []"
    using checker_for_document_control(11) [OF chk] server_run_resolvers [OF assms(1)] by simp
  show ?thesis
  proof (cases "c = None \<or> get_document (srv_host s1) u = None")
    case True
    with assms(2) chk show ?thesis
      by (auto simp: code_action_request_def with_checker_def split: option.splits)
  next
    case False
    then obtain ch doc where c: "c = Some ch" "get_document (srv_host s1) u = Some doc" by auto
    show ?thesis
    proof (cases invoked)
      case False
      with assms(2) chk c none show ?thesis by (simp add: code_action_request_def with_checker_def)
    next
      case True
      with assms(2) chk c none have
        "fold (split_visit u doc req) (preorder (prg_tree (chk_program ch))) (Some []) = Some acts"
        by (simp add: code_action_request_def with_checker_def inspect_all split: option.splits)
      then have "\<forall>a \<in> set acts. \<exists>doc container els plural.
          maybe_split_lines u doc req container els plural = Some (Some a)"
        by (rule split_visit_only_splits) (simp, blast)
      with True show ?thesis by simp
    qed
  qed
qed

theorem code_actions_only_split_lines_witness:
  "fst (the (code_action_request (sample_env sample_checker) 1 (new_server_v2 fast_config ()) ''u''
      (Range (Position 0 0) (Position 0 0)) [] False)) = []"
proof -
  let ?r = "code_action_request (sample_env sample_checker) 1 (new_server_v2 fast_config ()) ''u''
      (Range (Position 0 0) (Position 0 0)) [] False"
  have "\<not> Option.is_none ?r" by code_simp
  then have "?r = Some (fst (the ?r), snd (the ?r))" by (metis Option.is_none_simps(1) option.collapse prod.collapse)
  from code_actions_only_split_lines [OF run_init this] show ?thesis by blast
qed

end
