(* ===== verification/Dispatch.thy ===== *)
theory Dispatch
  imports Handlers
begin

text \<open>
  JSON-RPC dispatch: the connection's handler (src/languageserver/jsonrpc2/server.go), the table of
  the protocol's methods (src/languageserver/protocol/server.go) and the methods that decode the
  parameters and call the business logic (src/languageserver/protocol/methods.go). The business
  logic is a record of functions, as the Go interface \<^verbatim>\<open>Handler\<close>; the second server is one.

  Decoding a raw message into a parameter type is a parameter (the \<open>decoders\<close>). The connection
  handles one message after the other. A message without \<^verbatim>\<open>params\<close> reaches a method as a nil
  pointer; dereferencing it panics, the panic is recovered and no reply is sent. A call of the
  business logic that panics or does not return is \<open>None\<close>.
\<close>

section \<open>Messages\<close>

record 'raw rpc_request =
  rq_method :: string
  rq_id :: nat
  rq_notif :: bool
  rq_params :: "'raw option"

datatype rpc_code = MethodNotFound | InternalError

datatype 'a rpc_reply = ReplyResult (reply_id: nat) 'a | ReplyError (reply_id: nat) rpc_code string

text \<open>The connection: whether it can be written to, and what was written.\<close>

record 'a rpc_conn =
  dc_open :: bool
  dc_replies :: "'a rpc_reply list"

text \<open>Writing to a closed connection is an error; the handler panics on it and the panic is recovered.\<close>

definition send_reply :: "'a rpc_reply \<Rightarrow> 'a rpc_conn \<Rightarrow> 'a rpc_conn" where
  "send_reply r conn = (if dc_open conn then conn\<lparr>dc_replies := dc_replies conn @ [r]\<rparr> else conn)"

text \<open>\<^verbatim>\<open>%q\<close> on ASCII text.\<close>

definition hex_digit :: "nat \<Rightarrow> char" where
  "hex_digit d = (if d < 10 then digit_char d else char_of (87 + d))"

definition quote_char :: "char \<Rightarrow> string" where
  "quote_char c =
     (let n = (of_char c :: nat); bs = CHR 0x5C
      in if c = CHR 0x22 \<or> c = bs then [bs, c]
         else if n = 7 then [bs, CHR ''a''] else if n = 8 then [bs, CHR ''b'']
         else if n = 9 then [bs, CHR ''t''] else if n = 10 then [bs, CHR ''n'']
         else if n = 11 then [bs, CHR ''v''] else if n = 12 then [bs, CHR ''f'']
         else if n = 13 then [bs, CHR ''r'']
         else if n < 32 \<or> n = 127 then [bs, CHR ''x'', hex_digit (n div 16), hex_digit (n mod 16)]
         else [c])"

definition go_quote :: "string \<Rightarrow> string" where
  "go_quote s = [CHR 0x22] @ concat (map quote_char s) @ [CHR 0x22]"

section \<open>The handler of the connection\<close>

datatype ('a, 's) outcome = Returned "(string, 'a) result" 's | NilParams 's | NoReturn

type_synonym ('raw, 'a, 's) rpc_method = "'raw option \<Rightarrow> 's \<Rightarrow> ('a, 's) outcome"

definition rpc_handle ::
    "(string, ('raw, 'a, 's) rpc_method) gomap \<Rightarrow> 'raw rpc_request \<Rightarrow> 'a rpc_conn \<Rightarrow> 's \<Rightarrow>
     ('a rpc_conn \<times> 's) option" where
  "rpc_handle methods req conn s =
     (case map_of methods (rq_method req) of
        None \<Rightarrow>
          (if rq_notif req then Some (conn, s)
           else Some (send_reply (ReplyError (rq_id req) MethodNotFound
                        (''method '' @ go_quote (rq_method req) @ '' not found'')) conn, s))
      | Some m \<Rightarrow>
          (case m (rq_params req) s of
             NoReturn \<Rightarrow> None
           | NilParams s1 \<Rightarrow> Some (conn, s1)
           | Returned res s1 \<Rightarrow>
               (if rq_notif req then Some (conn, s1)
                else case res of
                  Inl e \<Rightarrow> Some (send_reply (ReplyError (rq_id req) InternalError e) conn, s1)
                | Inr a \<Rightarrow> Some (send_reply (ReplyResult (rq_id req) a) conn, s1))))"

fun rpc_serve ::
    "(string, ('raw, 'a, 's) rpc_method) gomap \<Rightarrow> 'raw rpc_request list \<Rightarrow> 'a rpc_conn \<Rightarrow> 's \<Rightarrow>
     ('a rpc_conn \<times> 's) option" where
  "rpc_serve methods [] conn s = Some (conn, s)"
| "rpc_serve methods (req # reqs) conn s =
     (case rpc_handle methods req conn s of
        None \<Rightarrow> None | Some (conn1, s1) \<Rightarrow> rpc_serve methods reqs conn1 s1)"

section \<open>Parameters and answers\<close>

record text_document_position =
  tdp_uri :: uri
  tdp_position :: position

record did_open_params =
  dop_uri :: uri
  dop_text :: string
  dop_version :: u32

record did_change_params =
  dcp_uri :: uri
  dcp_version :: u32
  dcp_changes :: "string list"

record reference_params =
  rfp_at :: text_document_position
  rfp_include_declaration :: bool

record rename_params =
  rnp_at :: text_document_position
  rnp_new_name :: string

record code_action_params =
  cap_uri :: uri
  cap_range :: range
  cap_diagnostics :: "proto_diagnostic list"
  cap_invoked :: bool

record inlay_hint_params =
  ihp_uri :: uri
  ihp_range :: range

record selection_range_params =
  srp_uri :: uri
  srp_positions :: "position list"

record execute_command_params =
  ecp_command :: string
  ecp_arguments :: "string list"

text \<open>The value a method returns as \<^verbatim>\<open>any\<close>.\<close>

datatype rpc_answer =
    NilAnswer
  | InitializeAnswer capabilities
  | HoverAnswer "hover option"
  | LocationAnswer "proto_location option"
  | LocationsAnswer "proto_location list"
  | SignatureAnswer "signature_help option"
  | HighlightsAnswer "range list"
  | EditAnswer "workspace_edit option"
  | ActionsAnswer "code_action list"
  | LensesAnswer "string list"
  | CompletionAnswer "completion_item list"
  | ItemAnswer completion_item
  | CommandAnswer "string option"
  | SymbolsAnswer "document_symbol list"
  | LinksAnswer "string list"
  | HintsAnswer "inlay_hint list"
  | FoldingAnswer "folding_range list"
  | SelectionAnswer "selection_range option list"
  | WorkspaceAnswer "symbol_information list"
  | TokensAnswer "u32 list option"

section \<open>The interface of the business logic\<close>

type_synonym ('r, 's) call = "'s \<Rightarrow> ((string, 'r) result \<times> 's) option"

record 's handler =
  h_initialize :: "(capabilities, 's) call"
  h_did_open :: "did_open_params \<Rightarrow> (unit, 's) call"
  h_did_change :: "did_change_params \<Rightarrow> (unit, 's) call"
  h_did_close :: "uri \<Rightarrow> (unit, 's) call"
  h_hover :: "text_document_position \<Rightarrow> (hover option, 's) call"
  h_definition :: "text_document_position \<Rightarrow> (proto_location option, 's) call"
  h_references :: "reference_params \<Rightarrow> (proto_location list, 's) call"
  h_signature_help :: "text_document_position \<Rightarrow> (signature_help option, 's) call"
  h_document_highlight :: "text_document_position \<Rightarrow> (range list, 's) call"
  h_rename :: "rename_params \<Rightarrow> (workspace_edit option, 's) call"
  h_code_action :: "code_action_params \<Rightarrow> (code_action list, 's) call"
  h_code_lens :: "uri \<Rightarrow> (string list, 's) call"
  h_completion :: "text_document_position \<Rightarrow> (completion_item list, 's) call"
  h_resolve_item :: "completion_item \<Rightarrow> (completion_item, 's) call"
  h_execute_command :: "execute_command_params \<Rightarrow> (string option, 's) call"
  h_did_change_configuration :: "(string option, 's) call"
  h_document_symbol :: "uri \<Rightarrow> (document_symbol list, 's) call"
  h_document_link :: "uri \<Rightarrow> (string list, 's) call"
  h_inlay_hint :: "inlay_hint_params \<Rightarrow> (inlay_hint list, 's) call"
  h_folding_range :: "uri \<Rightarrow> (folding_range list, 's) call"
  h_selection_range :: "selection_range_params \<Rightarrow> (selection_range option list, 's) call"
  h_workspace_symbol :: "string \<Rightarrow> (symbol_information list, 's) call"
  h_semantic_tokens :: "uri \<Rightarrow> (u32 list option, 's) call"
  h_shutdown :: "(unit, 's) call"
  h_exit :: "(unit, 's) call"

text \<open>\<^verbatim>\<open>json.Unmarshal\<close> into the parameter types; types with one relevant field are that field.\<close>

type_synonym ('raw, 'p) decoder = "'raw \<Rightarrow> (string, 'p) result"

record 'raw decoders =
  dec_any :: "('raw, unit) decoder"
  dec_did_open :: "('raw, did_open_params) decoder"
  dec_did_change :: "('raw, did_change_params) decoder"
  dec_uri :: "('raw, uri) decoder"
  dec_position :: "('raw, text_document_position) decoder"
  dec_reference :: "('raw, reference_params) decoder"
  dec_rename :: "('raw, rename_params) decoder"
  dec_code_action :: "('raw, code_action_params) decoder"
  dec_item :: "('raw, completion_item) decoder"
  dec_execute_command :: "('raw, execute_command_params) decoder"
  dec_inlay_hint :: "('raw, inlay_hint_params) decoder"
  dec_selection_range :: "('raw, selection_range_params) decoder"
  dec_query :: "('raw, string) decoder"

section \<open>The methods (methods.go)\<close>

definition finish_call :: "('r \<Rightarrow> 'a) \<Rightarrow> ((string, 'r) result \<times> 's) option \<Rightarrow> ('a, 's) outcome" where
  "finish_call wrap x =
     (case x of
        None \<Rightarrow> NoReturn
      | Some (Inl e, s) \<Rightarrow> Returned (Inl e) s
      | Some (Inr r, s) \<Rightarrow> Returned (Inr (wrap r)) s)"

text \<open>Dereference the parameters, decode them, return the error or make the call.\<close>

definition with_params ::
    "('raw, 'p) decoder \<Rightarrow> ('r \<Rightarrow> 'a) \<Rightarrow> ('p \<Rightarrow> ('r, 's) call) \<Rightarrow> ('raw, 'a, 's) rpc_method" where
  "with_params dec wrap call raw s =
     (case raw of
        None \<Rightarrow> NilParams s
      | Some x \<Rightarrow>
          (case dec x of
             Inl e \<Rightarrow> Returned (Inl e) s
           | Inr p \<Rightarrow> finish_call wrap (call p s)))"

definition no_answer :: "unit \<Rightarrow> rpc_answer" where "no_answer u = NilAnswer"

definition handle_initialize :: "'raw decoders \<Rightarrow> 's handler \<Rightarrow> ('raw, rpc_answer, 's) rpc_method" where
  "handle_initialize d h = with_params (dec_any d) InitializeAnswer (\<lambda>_. h_initialize h)"

definition handle_did_open :: "'raw decoders \<Rightarrow> 's handler \<Rightarrow> ('raw, rpc_answer, 's) rpc_method" where
  "handle_did_open d h = with_params (dec_did_open d) no_answer (h_did_open h)"

definition handle_did_change :: "'raw decoders \<Rightarrow> 's handler \<Rightarrow> ('raw, rpc_answer, 's) rpc_method" where
  "handle_did_change d h = with_params (dec_did_change d) no_answer (h_did_change h)"

definition handle_did_close :: "'raw decoders \<Rightarrow> 's handler \<Rightarrow> ('raw, rpc_answer, 's) rpc_method" where
  "handle_did_close d h = with_params (dec_uri d) no_answer (h_did_close h)"

definition handle_hover :: "'raw decoders \<Rightarrow> 's handler \<Rightarrow> ('raw, rpc_answer, 's) rpc_method" where
  "handle_hover d h = with_params (dec_position d) HoverAnswer (h_hover h)"

definition handle_definition :: "'raw decoders \<Rightarrow> 's handler \<Rightarrow> ('raw, rpc_answer, 's) rpc_method" where
  "handle_definition d h = with_params (dec_position d) LocationAnswer (h_definition h)"

definition handle_references :: "'raw decoders \<Rightarrow> 's handler \<Rightarrow> ('raw, rpc_answer, 's) rpc_method" where
  "handle_references d h = with_params (dec_reference d) LocationsAnswer (h_references h)"

definition handle_signature_help :: "'raw decoders \<Rightarrow> 's handler \<Rightarrow> ('raw, rpc_answer, 's) rpc_method" where
  "handle_signature_help d h = with_params (dec_position d) SignatureAnswer (h_signature_help h)"

definition handle_document_highlight :: "'raw decoders \<Rightarrow> 's handler \<Rightarrow> ('raw, rpc_answer, 's) rpc_method" where
  "handle_document_highlight d h = with_params (dec_position d) HighlightsAnswer (h_document_highlight h)"

definition handle_rename :: "'raw decoders \<Rightarrow> 's handler \<Rightarrow> ('raw, rpc_answer, 's) rpc_method" where
  "handle_rename d h = with_params (dec_rename d) EditAnswer (h_rename h)"

definition handle_code_action :: "'raw decoders \<Rightarrow> 's handler \<Rightarrow> ('raw, rpc_answer, 's) rpc_method" where
  "handle_code_action d h = with_params (dec_code_action d) ActionsAnswer (h_code_action h)"

definition handle_code_lens :: "'raw decoders \<Rightarrow> 's handler \<Rightarrow> ('raw, rpc_answer, 's) rpc_method" where
  "handle_code_lens d h = with_params (dec_uri d) LensesAnswer (h_code_lens h)"

definition handle_completion :: "'raw decoders \<Rightarrow> 's handler \<Rightarrow> ('raw, rpc_answer, 's) rpc_method" where
  "handle_completion d h = with_params (dec_position d) CompletionAnswer (h_completion h)"

definition handle_resolve_item :: "'raw decoders \<Rightarrow> 's handler \<Rightarrow> ('raw, rpc_answer, 's) rpc_method" where
  "handle_resolve_item d h = with_params (dec_item d) ItemAnswer (h_resolve_item h)"

definition handle_execute_command :: "'raw decoders \<Rightarrow> 's handler \<Rightarrow> ('raw, rpc_answer, 's) rpc_method" where
  "handle_execute_command d h = with_params (dec_execute_command d) CommandAnswer (h_execute_command h)"

definition handle_did_change_configuration ::
    "'raw decoders \<Rightarrow> 's handler \<Rightarrow> ('raw, rpc_answer, 's) rpc_method" where
  "handle_did_change_configuration d h =
     with_params (dec_any d) CommandAnswer (\<lambda>_. h_did_change_configuration h)"

definition handle_document_symbol :: "'raw decoders \<Rightarrow> 's handler \<Rightarrow> ('raw, rpc_answer, 's) rpc_method" where
  "handle_document_symbol d h = with_params (dec_uri d) SymbolsAnswer (h_document_symbol h)"

definition handle_document_link :: "'raw decoders \<Rightarrow> 's handler \<Rightarrow> ('raw, rpc_answer, 's) rpc_method" where
  "handle_document_link d h = with_params (dec_uri d) LinksAnswer (h_document_link h)"

definition handle_inlay_hint :: "'raw decoders \<Rightarrow> 's handler \<Rightarrow> ('raw, rpc_answer, 's) rpc_method" where
  "handle_inlay_hint d h = with_params (dec_inlay_hint d) HintsAnswer (h_inlay_hint h)"

definition handle_folding_range :: "'raw decoders \<Rightarrow> 's handler \<Rightarrow> ('raw, rpc_answer, 's) rpc_method" where
  "handle_folding_range d h = with_params (dec_uri d) FoldingAnswer (h_folding_range h)"

definition handle_selection_range :: "'raw decoders \<Rightarrow> 's handler \<Rightarrow> ('raw, rpc_answer, 's) rpc_method" where
  "handle_selection_range d h = with_params (dec_selection_range d) SelectionAnswer (h_selection_range h)"

definition handle_workspace_symbol :: "'raw decoders \<Rightarrow> 's handler \<Rightarrow> ('raw, rpc_answer, 's) rpc_method" where
  "handle_workspace_symbol d h = with_params (dec_query d) WorkspaceAnswer (h_workspace_symbol h)"

definition handle_semantic_tokens :: "'raw decoders \<Rightarrow> 's handler \<Rightarrow> ('raw, rpc_answer, 's) rpc_method" where
  "handle_semantic_tokens d h = with_params (dec_uri d) TokensAnswer (h_semantic_tokens h)"

text \<open>These two ignore their parameters.\<close>

definition handle_shutdown :: "'raw decoders \<Rightarrow> 's handler \<Rightarrow> ('raw, rpc_answer, 's) rpc_method" where
  "handle_shutdown d h raw s = finish_call no_answer (h_shutdown h s)"

definition handle_exit :: "'raw decoders \<Rightarrow> 's handler \<Rightarrow> ('raw, rpc_answer, 's) rpc_method" where
  "handle_exit d h raw s = finish_call no_answer (h_exit h s)"

section \<open>The table of methods (protocol/server.go)\<close>

definition registrations ::
    "'raw decoders \<Rightarrow> 's handler \<Rightarrow> (string \<times> ('raw, rpc_answer, 's) rpc_method) list" where
  "registrations d h =
    [(''initialize'', handle_initialize d h),
     (''textDocument/didOpen'', handle_did_open d h),
     (''textDocument/didChange'', handle_did_change d h),
     (''textDocument/didClose'', handle_did_close d h),
     (''textDocument/hover'', handle_hover d h),
     (''textDocument/definition'', handle_definition d h),
     (''textDocument/references'', handle_references d h),
     (''textDocument/signatureHelp'', handle_signature_help d h),
     (''textDocument/codeLens'', handle_code_lens d h),
     (''textDocument/documentHighlight'', handle_document_highlight d h),
     (''textDocument/rename'', handle_rename d h),
     (''textDocument/codeAction'', handle_code_action d h),
     (''textDocument/completion'', handle_completion d h),
     (''completionItem/resolve'', handle_resolve_item d h),
     (''workspace/executeCommand'', handle_execute_command d h),
     (''workspace/didChangeConfiguration'', handle_did_change_configuration d h),
     (''textDocument/documentSymbol'', handle_document_symbol d h),
     (''textDocument/documentLink'', handle_document_link d h),
     (''textDocument/inlayHint'', handle_inlay_hint d h),
     (''textDocument/foldingRange'', handle_folding_range d h),
     (''textDocument/selectionRange'', handle_selection_range d h),
     (''workspace/symbol'', handle_workspace_symbol d h),
     (''textDocument/semanticTokens/full'', handle_semantic_tokens d h),
     (''shutdown'', handle_shutdown d h),
     (''exit'', handle_exit d h)]"

text \<open>\<^verbatim>\<open>NewServer\<close> assigns the methods one after the other to an empty map.\<close>

definition new_protocol_server ::
    "'raw decoders \<Rightarrow> 's handler \<Rightarrow> (string, ('raw, rpc_answer, 's) rpc_method) gomap" where
  "new_protocol_server d h = fold (\<lambda>(k, m) t. AList.update k m t) (registrations d h) []"

section \<open>The second server as a handler\<close>

definition answered :: "('r \<times> 's) option \<Rightarrow> ((string, 'r) result \<times> 's) option" where
  "answered x = map_option (\<lambda>(r, s). (Inr r, s)) x"

definition acknowledged :: "'s option \<Rightarrow> ((string, unit) result \<times> 's) option" where
  "acknowledged x = map_option (\<lambda>s. (Inr (), s)) x"

text \<open>\<open>names\<close>, \<open>kinds\<close> and \<open>lower\<close> are the Cadence library's and Go's naming functions the requests use.\<close>

definition server2_handler ::
    "(decl_kind \<Rightarrow> string) \<Rightarrow> (decl_kind \<Rightarrow> string) \<Rightarrow> (string \<Rightarrow> string) \<Rightarrow>
     ('p, checker, 's) env \<Rightarrow> nat \<Rightarrow> nat \<Rightarrow> (checker, 's) server handler" where
  "server2_handler names kinds lower env fuel conn =
    \<lparr>h_initialize = (\<lambda>s. answered (Some (initialize_server s conn))),
     h_did_open = (\<lambda>p s. acknowledged (did_open env fuel s (dop_uri p) (dop_text p) (dop_version p))),
     h_did_change = (\<lambda>p s. acknowledged (did_change env fuel s (dcp_uri p) (dcp_version p) (dcp_changes p))),
     h_did_close = (\<lambda>u s. acknowledged (Some (did_close env s u))),
     h_hover = (\<lambda>p s. answered (hover_request env fuel s (tdp_uri p) (tdp_position p))),
     h_definition = (\<lambda>p s. answered (definition_request env fuel s (tdp_uri p) (tdp_position p))),
     h_references = (\<lambda>p s. answered (references_request env fuel s (tdp_uri (rfp_at p)) (tdp_position (rfp_at p))
                               (rfp_include_declaration p))),
     h_signature_help = (\<lambda>p s. answered (signature_help_request env fuel s (tdp_uri p) (tdp_position p))),
     h_document_highlight = (\<lambda>p s. answered (document_highlight_request env fuel s (tdp_uri p) (tdp_position p))),
     h_rename = (\<lambda>p s. answered (rename_request env fuel s (tdp_uri (rnp_at p)) (tdp_position (rnp_at p))
                           (rnp_new_name p))),
     h_code_action = (\<lambda>p s. answered (code_action_request env fuel s (cap_uri p) (cap_range p)
                                (cap_diagnostics p) (cap_invoked p))),
     h_code_lens = (\<lambda>u s. answered (Some (code_lens_request, s))),
     h_completion = (\<lambda>p s. answered (completion env fuel s (tdp_uri p) (tdp_position p))),
     h_resolve_item = (\<lambda>i s. answered (Some (resolve_completion_item kinds s i, s))),
     h_execute_command = (\<lambda>p s. answered (Some (execute_command_request, s))),
     h_did_change_configuration = (\<lambda>s. answered (Some (None, did_change_configuration s))),
     h_document_symbol = (\<lambda>u s. answered (document_symbol_request names env fuel s u)),
     h_document_link = (\<lambda>u s. answered (Some (document_link_request, s))),
     h_inlay_hint = (\<lambda>p s. answered (inlay_hint_request env fuel s (ihp_uri p) (ihp_range p))),
     h_folding_range = (\<lambda>u s. answered (folding_range_request env fuel s u)),
     h_selection_range = (\<lambda>p s. answered (selection_range_request env fuel s (srp_uri p) (srp_positions p))),
     h_workspace_symbol = (\<lambda>q s. answered (workspace_symbol_request lower env fuel s q)),
     h_semantic_tokens = (\<lambda>u s. answered (semantic_tokens_request env fuel s u)),
     h_shutdown = (\<lambda>s. acknowledged (Some (shutdown s))),
     h_exit = (\<lambda>s. acknowledged (Some (exit_server s)))\<rparr>"

section \<open>Lookup in the table\<close>

lemmas method_defs =
  handle_initialize_def handle_did_open_def handle_did_change_def handle_did_close_def handle_hover_def
  handle_definition_def handle_references_def handle_signature_help_def handle_document_highlight_def
  handle_rename_def handle_code_action_def handle_code_lens_def handle_completion_def
  handle_resolve_item_def handle_execute_command_def handle_did_change_configuration_def
  handle_document_symbol_def handle_document_link_def handle_inlay_hint_def handle_folding_range_def
  handle_selection_range_def handle_workspace_symbol_def handle_semantic_tokens_def
  handle_shutdown_def handle_exit_def

lemma fold_update_map_of:
  "distinct (map fst xs) \<Longrightarrow>
   map_of (fold (\<lambda>(k, m) t. AList.update k m t) xs t) = map_of t ++ map_of xs"
proof (induction xs arbitrary: t)
  case (Cons x xs)
  obtain k m where x: "x = (k, m)" by force
  then have "map_of xs k = None" using Cons.prems by (auto simp: map_of_eq_None_iff)
  then show ?case
    using Cons x by (auto simp: update_conv' map_add_def fun_eq_iff split: option.split)
qed simp

lemma distinct_registrations: "distinct (map fst (registrations d h))"
  by (simp add: registrations_def)

lemma protocol_server_lookup: "map_of (new_protocol_server d h) = map_of (registrations d h)"
  unfolding new_protocol_server_def by (simp add: fold_update_map_of [OF distinct_registrations])

text \<open>The two methods that do not look at their parameters.\<close>

definition needs_params :: "string \<Rightarrow> bool" where
  "needs_params m \<longleftrightarrow> m \<noteq> ''shutdown'' \<and> m \<noteq> ''exit''"

lemma with_params_None [simp]: "with_params dec wrap call None s = NilParams s"
  by (simp add: with_params_def)

lemma finish_call_not_nil [simp]: "finish_call wrap x \<noteq> NilParams s"
  by (simp add: finish_call_def split: option.split prod.split sum.split)

lemma with_params_not_nil [simp]: "with_params dec wrap call (Some x) s \<noteq> NilParams s'"
  by (simp add: with_params_def split: sum.split)

lemma registered_nil:
  "\<forall>x \<in> set (registrations d h). needs_params (fst x) \<longrightarrow> snd x None s = NilParams s"
  "\<forall>x \<in> set (registrations d h). \<not> needs_params (fst x) \<longrightarrow> snd x raw s \<noteq> NilParams s'"
  "\<forall>x \<in> set (registrations d h). snd x (Some r) s \<noteq> NilParams s'"
  by (simp_all add: registrations_def method_defs needs_params_def)

lemma nil_params_iff:
  assumes "map_of (registrations d h) m = Some f"
  shows "f raw s = NilParams s' \<longleftrightarrow> raw = None \<and> needs_params m \<and> s' = s"
proof -
  have in_table: "(m, f) \<in> set (registrations d h)" using map_of_SomeD [OF assms] .
  show ?thesis
  proof (cases raw)
    case None
    then show ?thesis
      using bspec [OF registered_nil(1) in_table, of s] bspec [OF registered_nil(2) in_table, of None s s']
      by (cases "needs_params m") auto
  next
    case (Some r)
    then show ?thesis using bspec [OF registered_nil(3) in_table, of r s s'] by simp
  qed
qed

section \<open>What the requests leave alone\<close>

text \<open>The state that belongs to the documents and their checks.\<close>

definition reads_only :: "('c, 's) server \<Rightarrow> ('c, 's) server \<Rightarrow> bool" where
  "reads_only s s' \<longleftrightarrow>
     docs (srv_host s') = docs (srv_host s) \<and> srv_debouncer s' = srv_debouncer s \<and>
     srv_config s' = srv_config s \<and> srv_conn s' = srv_conn s \<and> srv_published s' = srv_published s \<and>
     srv_next_token s' = srv_next_token s \<and> srv_next_context s' = srv_next_context s \<and>
     srv_contexts s' = srv_contexts s \<and> srv_running s' = srv_running s \<and>
     srv_cancels s' = srv_cancels s \<and> (host_wf (srv_host s) \<longrightarrow> host_wf (srv_host s'))"

lemma reads_only_refl [simp]: "reads_only s s"
  by (simp add: reads_only_def)

lemma reads_only_trans: "reads_only s s1 \<Longrightarrow> reads_only s1 s2 \<Longrightarrow> reads_only s s2"
  by (simp add: reads_only_def)

lemma reads_only_checker: "checker_for_document env fuel s u = Some (c, s') \<Longrightarrow> reads_only s s'"
  unfolding reads_only_def using checker_for_document_control [of env fuel s u c s'] by blast

lemma reads_only_with_checker:
  assumes "with_checker env fuel s u dflt f = Some (r, s')"
    and "\<And>c s1. reads_only s s1 \<Longrightarrow> f c s1 = Some (r, s') \<Longrightarrow> reads_only s1 s'"
  shows "reads_only s s'"
proof -
  obtain c s1 where chk: "checker_for_document env fuel s u = Some (c, s1)"
    and rest: "case c of None \<Rightarrow> (r, s') = (dflt, s1) | Some k \<Rightarrow> f k s1 = Some (r, s')"
    using assms(1) by (auto simp: with_checker_def split: option.splits)
  have first: "reads_only s s1" by (rule reads_only_checker [OF chk])
  show ?thesis
  proof (cases c)
    case None
    with rest first show ?thesis by simp
  next
    case (Some k)
    with rest have "f k s1 = Some (r, s')" by simp
    from reads_only_trans [OF first assms(2) [OF first this]] show ?thesis .
  qed
qed

lemma owner_loop_wf: "lru_wf ca \<Longrightarrow> lru_wf (snd (owner_loop idf org deps ca))"
  by (induction idf org deps ca rule: owner_loop.induct)
    (auto simp: Let_def lru_wf_get split: option.split if_splits)

lemma reads_only_resolve: "reads_only s (snd (resolve_definition_uri env s u org))"
  by (auto simp: resolve_definition_uri_def Let_def reads_only_def host_wf_def owner_loop_wf)

lemma reads_only_rename_loop:
  "rename_loop env u name occs changes s = (ch, s') \<Longrightarrow> reads_only s s'"
proof (induction env u name occs changes s rule: rename_loop.induct)
  case (2 env u name occ occs changes s)
  show ?case
  proof (cases "occ_origin occ")
    case None
    with 2 show ?thesis by simp
  next
    case (Some org)
    show ?thesis
    proof (cases "origin_range org")
      case None
      with 2 Some show ?thesis by simp
    next
      case (Some r)
      obtain w s1 where res: "resolve_definition_uri env s u org = (w, s1)" by force
      then have "reads_only s s1" using reads_only_resolve [of s env u org] by simp
      moreover have "reads_only s1 s'"
        using 2 \<open>occ_origin occ = Some org\<close> Some res by (auto simp: Let_def split: if_splits)
      ultimately show ?thesis by (rule reads_only_trans)
    qed
  qed
qed simp

lemma reads_only_workspace_loop:
  "workspace_loop lower env fuel q us acc s = Some (r, s') \<Longrightarrow> reads_only s s'"
proof (induction lower env fuel q us acc s rule: workspace_loop.induct)
  case (2 lower env fuel q u us acc s)
  obtain c s1 where chk: "checker_for_document env fuel s u = Some (c, s1)"
    using 2 by (auto split: option.splits)
  have "reads_only s1 s'" using 2 chk by (auto split: option.splits)
  with reads_only_checker [OF chk] show ?case by (rule reads_only_trans)
qed simp

lemma reads_only_completion: "completion env fuel s u pos = Some (r, s') \<Longrightarrow> reads_only s s'"
proof -
  assume c: "completion env fuel s u pos = Some (r, s')"
  then obtain c s1 where chk: "checker_for_document env fuel s u = Some (c, s1)"
    by (auto simp: completion_def split: option.splits)
  have "reads_only s1 s'"
    using c chk
    by (auto simp: completion_def Let_def store_completion_session_def next_completion_session_def
        reads_only_def split: option.splits if_splits prod.splits)
  with reads_only_checker [OF chk] show ?thesis by (rule reads_only_trans)
qed

lemma reads_only_rename: "rename_request env fuel s u pos name = Some (r, s') \<Longrightarrow> reads_only s s'"
  unfolding rename_request_def
  by (erule reads_only_with_checker)
    (auto split: option.splits prod.splits dest: reads_only_rename_loop)

lemma reads_only_definition: "definition_request env fuel s u pos = Some (r, s') \<Longrightarrow> reads_only s s'"
  unfolding definition_request_def
proof (erule reads_only_with_checker)
  fix c s1
  assume "(case chk_positions c of None \<Rightarrow> None
     | Some pinfo \<Rightarrow>
         (case find_occurrence pinfo (protocol_to_sema_position pos) of
            None \<Rightarrow> Some (None, s1)
          | Some occ \<Rightarrow>
              (case occ_origin occ of
                 None \<Rightarrow> Some (None, s1)
               | Some org \<Rightarrow>
                   (case origin_range org of
                      None \<Rightarrow> Some (None, s1)
                    | Some r \<Rightarrow>
                        (case resolve_definition_uri env s1 u org of
                           (w, srv2) \<Rightarrow> Some (Some \<lparr>loc_uri = w, loc_range = r\<rparr>, srv2)))))) = Some (r, s')"
  then show "reads_only s1 s'"
    using reads_only_resolve [of s1 env u]
    by (auto split: option.splits prod.splits) (metis snd_conv)
qed

lemma reads_only_plain:
  "hover_request env fuel s u pos = Some (hv, s') \<Longrightarrow> reads_only s s'"
  "references_request env fuel s u pos incl = Some (rf, s') \<Longrightarrow> reads_only s s'"
  "signature_help_request env fuel s u pos = Some (sh, s') \<Longrightarrow> reads_only s s'"
  "document_highlight_request env fuel s u pos = Some (hl, s') \<Longrightarrow> reads_only s s'"
  "code_action_request env fuel s u rng diags invoked = Some (ca, s') \<Longrightarrow> reads_only s s'"
  "document_symbol_request names env fuel s u = Some (ds, s') \<Longrightarrow> reads_only s s'"
  "inlay_hint_request env fuel s u rng = Some (ih, s') \<Longrightarrow> reads_only s s'"
  "folding_range_request env fuel s u = Some (fr, s') \<Longrightarrow> reads_only s s'"
  "selection_range_request env fuel s u ps = Some (sr, s') \<Longrightarrow> reads_only s s'"
  "semantic_tokens_request env fuel s u = Some (st, s') \<Longrightarrow> reads_only s s'"
  unfolding hover_request_def references_request_def signature_help_request_def
    document_highlight_request_def code_action_request_def document_symbol_request_def
    inlay_hint_request_def folding_range_request_def selection_range_request_def semantic_tokens_request_def
  by (erule reads_only_with_checker, auto simp: Let_def split: option.splits prod.splits if_splits)+

lemmas reads_only_requests = reads_only_plain reads_only_definition reads_only_rename reads_only_completion

lemma reads_only_workspace:
  "workspace_symbol_request lower env fuel s q = Some (r, s') \<Longrightarrow> reads_only s s'"
  unfolding workspace_symbol_request_def by (rule reads_only_workspace_loop)

text \<open>A message changes documents and checks by a step of the server or not at all.\<close>

lemma answered_Some: "answered x = Some (r, s) \<longleftrightarrow> (\<exists>a. x = Some (a, s) \<and> r = Inr a)"
  by (cases x) (auto simp: answered_def)

lemma acknowledged_Some: "acknowledged x = Some (r, s) \<longleftrightarrow> x = Some s \<and> r = Inr ()"
  by (cases x) (auto simp: acknowledged_def)

lemma finish_call_Returned:
  "finish_call wrap x = Returned r s \<Longrightarrow> \<exists>r'. x = Some (r', s)"
  by (auto simp: finish_call_def split: option.splits prod.splits sum.splits)

lemma with_params_Returned:
  "with_params dec wrap call raw s = Returned r s' \<Longrightarrow> s' = s \<or> (\<exists>p r'. call p s = Some (r', s'))"
  by (auto simp: with_params_def split: option.splits sum.splits dest: finish_call_Returned)

definition server_or_read :: "('p, 'c, 's) env \<Rightarrow> nat \<Rightarrow> ('c, 's) server \<Rightarrow> ('c, 's) server \<Rightarrow> bool" where
  "server_or_read env fuel s s' \<longleftrightarrow> common_step env fuel s s' \<or> reads_only s s'"

lemma server2_calls:
  fixes names kinds lower env fuel conn
  defines "h \<equiv> server2_handler names kinds lower env fuel conn"
  shows "h_initialize h s = Some (r1, s') \<Longrightarrow> server_or_read env fuel s s'"
    "h_did_open h p2 s = Some (r2, s') \<Longrightarrow> server_or_read env fuel s s'"
    "h_did_change h p3 s = Some (r2, s') \<Longrightarrow> server_or_read env fuel s s'"
    "h_did_close h p4 s = Some (r2, s') \<Longrightarrow> server_or_read env fuel s s'"
    "h_hover h p5 s = Some (r5, s') \<Longrightarrow> server_or_read env fuel s s'"
    "h_definition h p5 s = Some (r6, s') \<Longrightarrow> server_or_read env fuel s s'"
    "h_references h p7 s = Some (r7, s') \<Longrightarrow> server_or_read env fuel s s'"
    "h_signature_help h p5 s = Some (r8, s') \<Longrightarrow> server_or_read env fuel s s'"
    "h_document_highlight h p5 s = Some (r9, s') \<Longrightarrow> server_or_read env fuel s s'"
    "h_rename h p10 s = Some (r10, s') \<Longrightarrow> server_or_read env fuel s s'"
    "h_code_action h p11 s = Some (r11, s') \<Longrightarrow> server_or_read env fuel s s'"
    "h_code_lens h p4 s = Some (r12, s') \<Longrightarrow> server_or_read env fuel s s'"
    "h_completion h p5 s = Some (r13, s') \<Longrightarrow> server_or_read env fuel s s'"
    "h_resolve_item h p14 s = Some (r14, s') \<Longrightarrow> server_or_read env fuel s s'"
    "h_execute_command h p15 s = Some (r15, s') \<Longrightarrow> server_or_read env fuel s s'"
    "h_did_change_configuration h s = Some (r15, s') \<Longrightarrow> server_or_read env fuel s s'"
    "h_document_symbol h p4 s = Some (r17, s') \<Longrightarrow> server_or_read env fuel s s'"
    "h_document_link h p4 s = Some (r12, s') \<Longrightarrow> server_or_read env fuel s s'"
    "h_inlay_hint h p19 s = Some (r19, s') \<Longrightarrow> server_or_read env fuel s s'"
    "h_folding_range h p4 s = Some (r20, s') \<Longrightarrow> server_or_read env fuel s s'"
    "h_selection_range h p21 s = Some (r21, s') \<Longrightarrow> server_or_read env fuel s s'"
    "h_workspace_symbol h p22 s = Some (r22, s') \<Longrightarrow> server_or_read env fuel s s'"
    "h_semantic_tokens h p4 s = Some (r23, s') \<Longrightarrow> server_or_read env fuel s s'"
    "h_shutdown h s = Some (r2, s') \<Longrightarrow> server_or_read env fuel s s'"
    "h_exit h s = Some (r2, s') \<Longrightarrow> server_or_read env fuel s s'"
  unfolding h_def server2_handler_def
  by (auto simp: answered_Some acknowledged_Some server_or_read_def initialize_server_def
      did_change_configuration_def exit_server_def
      intro: common_step.intros dest: reads_only_requests reads_only_workspace)

lemma with_params_step:
  assumes "with_params dec wrap call raw s = Returned r s'"
    and "\<And>p r'. call p s = Some (r', s') \<Longrightarrow> server_or_read env fuel s s'"
  shows "server_or_read env fuel s s'"
  using with_params_Returned [OF assms(1)] assms(2) by (auto simp: server_or_read_def)

lemma finish_call_step:
  assumes "finish_call wrap x = Returned r s'" and "\<And>r'. x = Some (r', s') \<Longrightarrow> server_or_read env fuel s s'"
  shows "server_or_read env fuel s s'"
  using finish_call_Returned [OF assms(1)] assms(2) by blast

lemma registered_steps:
  "list_all (\<lambda>x. snd x raw s = Returned r s' \<longrightarrow> server_or_read env fuel s s')
     (registrations d (server2_handler names kinds lower env fuel conn))"
  unfolding registrations_def method_defs list.pred_inject fst_conv snd_conv
  by (intro conjI impI TrueI; ((erule with_params_step | erule finish_call_step), erule server2_calls)?)
    simp

lemma rpc_handle_step:
  assumes "rpc_handle (new_protocol_server d (server2_handler names kinds lower env fuel conn)) req c s = Some (c', s')"
  shows "server_or_read env fuel s s'"
proof (cases "map_of (registrations d (server2_handler names kinds lower env fuel conn)) (rq_method req)")
  case None
  with assms have "s' = s" by (auto simp: rpc_handle_def protocol_server_lookup split: if_splits)
  then show ?thesis by (simp add: server_or_read_def)
next
  case (Some m)
  show ?thesis
  proof (cases "m (rq_params req) s")
    case (Returned r s1)
    with assms Some have "s1 = s'"
      by (auto simp: rpc_handle_def protocol_server_lookup split: if_splits sum.splits)
    with Returned show ?thesis
      using registered_steps map_of_SomeD [OF Some] unfolding list_all_iff by fastforce
  next
    case (NilParams s1)
    with assms Some nil_params_iff [OF Some, of "rq_params req" s s1] show ?thesis
      by (simp add: rpc_handle_def protocol_server_lookup server_or_read_def)
  next
    case NoReturn
    with assms Some show ?thesis by (simp add: rpc_handle_def protocol_server_lookup)
  qed
qed

section \<open>Sessions\<close>

text \<open>
  The running program: messages are handled one after the other; between them timers fire and checks
  end, and the client may disconnect.
\<close>

inductive rpc_session ::
    "'raw decoders \<Rightarrow> (checker, 's) server handler \<Rightarrow> ('p, checker, 's) env \<Rightarrow> nat \<Rightarrow> server_config \<Rightarrow> 's \<Rightarrow>
     rpc_answer rpc_conn \<Rightarrow> (checker, 's) server \<Rightarrow> bool"
  for d h env fuel config rs where
  session_start: "rpc_session d h env fuel config rs \<lparr>dc_open = True, dc_replies = []\<rparr> (new_server_v2 config rs)"
| session_message: "rpc_session d h env fuel config rs c s \<Longrightarrow>
    rpc_handle (new_protocol_server d h) req c s = Some (c', s') \<Longrightarrow>
    rpc_session d h env fuel config rs c' s'"
| session_timer: "rpc_session d h env fuel config rs c s \<Longrightarrow>
    srv_debouncer s = Some db \<Longrightarrow> t \<in> set (armed db) \<Longrightarrow>
    rpc_session d h env fuel config rs c
      (start_check (s\<lparr>srv_debouncer := Some (deb_callback (deb_expire db t) t)\<rparr>) (snd t))"
| session_check: "rpc_session d h env fuel config rs c s \<Longrightarrow> rc \<in> set (srv_running s) \<Longrightarrow>
    check_finish env fuel rc (take_running rc s) = Some s' \<Longrightarrow>
    rpc_session d h env fuel config rs c s'"
| session_hangup: "rpc_session d h env fuel config rs c s \<Longrightarrow>
    rpc_session d h env fuel config rs (c\<lparr>dc_open := False\<rparr>) s"

lemma server_or_read_inv:
  assumes "server_or_read env fuel s s'" "server_inv s" "server_cfg config s"
  shows "server_inv s' \<and> server_cfg config s'"
  using assms(1) unfolding server_or_read_def
proof
  assume "common_step env fuel s s'"
  with common_step_inv assms(2,3) show ?thesis by blast
next
  assume r: "reads_only s s'"
  then have "server_inv s'"
    using assms(2) by (intro server_inv_cong [OF assms(2)]) (auto simp: reads_only_def server_inv_def)
  with r assms(3) show ?thesis by (simp add: reads_only_def server_cfg_def)
qed

lemma rpc_session_inv:
  "rpc_session d (server2_handler names kinds lower env fuel conn) env fuel config rs c s \<Longrightarrow>
   server_inv s \<and> server_cfg config s"
proof (induction rule: rpc_session.induct)
  case (session_message c s req c' s')
  then show ?case using server_or_read_inv [OF rpc_handle_step] by blast
next
  case (session_timer c s db t)
  then show ?case using server_step_inv [OF server_step.fire] by blast
next
  case (session_check c s rc s')
  then show ?case using common_step_inv [OF common_step.c_finish] by blast
qed simp_all

section \<open>Replies\<close>

text \<open>A request the connection answers: any one that does not dereference absent parameters.\<close>

definition answerable :: "(string, 'm) gomap \<Rightarrow> 'raw rpc_request \<Rightarrow> bool" where
  "answerable methods req \<longleftrightarrow> \<not> rq_notif req \<and>
     (rq_method req \<notin> set (map fst methods) \<or> rq_params req \<noteq> None \<or> \<not> needs_params (rq_method req))"

lemma answerable_iff:
  "answerable methods req \<longleftrightarrow> \<not> rq_notif req \<and>
     (map_of methods (rq_method req) = None \<or> rq_params req \<noteq> None \<or> \<not> needs_params (rq_method req))"
  by (simp add: answerable_def map_of_eq_None_iff)

lemma send_reply_open [simp]: "dc_open (send_reply r c) = dc_open c"
  by (simp add: send_reply_def)

lemma rpc_handle_replies:
  assumes "rpc_handle (new_protocol_server d h) req c s = Some (c', s')" and "dc_open c"
  shows "dc_open c' \<and> map reply_id (dc_replies c') = map reply_id (dc_replies c) @
           (if answerable (new_protocol_server d h) req then [rq_id req] else [])"
proof (cases "map_of (registrations d h) (rq_method req)")
  case None
  with assms show ?thesis
    by (auto simp: rpc_handle_def protocol_server_lookup answerable_iff send_reply_def split: if_splits)
next
  case (Some m)
  note nil = nil_params_iff [OF Some, of "rq_params req" s]
  show ?thesis
  proof (cases "m (rq_params req) s")
    case (Returned r s1)
    moreover have "rq_params req \<noteq> None \<or> \<not> needs_params (rq_method req)" using nil Returned by force
    ultimately show ?thesis using assms Some
      by (auto simp: rpc_handle_def protocol_server_lookup answerable_iff send_reply_def
          split: if_splits sum.splits)
  next
    case (NilParams s1)
    with assms Some nil show ?thesis
      by (auto simp: rpc_handle_def protocol_server_lookup answerable_iff)
  next
    case NoReturn
    with assms Some show ?thesis by (simp add: rpc_handle_def protocol_server_lookup)
  qed
qed

section \<open>Properties\<close>


text \<open>A session for the closed examples: messages are texts, the front end echoes.\<close>

definition demo_decoders :: "string decoders" where
  "demo_decoders =
     \<lparr>dec_any = (\<lambda>_. Inr ()), dec_did_open = (\<lambda>x. Inr \<lparr>dop_uri = ''u'', dop_text = x, dop_version = 1\<rparr>),
      dec_did_change = (\<lambda>x. Inr \<lparr>dcp_uri = ''u'', dcp_version = 2, dcp_changes = [x]\<rparr>), dec_uri = (\<lambda>x. Inr x),
      dec_position = (\<lambda>x. Inl ''no position''), dec_reference = (\<lambda>x. Inl ''no position''),
      dec_rename = (\<lambda>x. Inl ''no position''), dec_code_action = (\<lambda>x. Inl ''no range''),
      dec_item = (\<lambda>x. Inl ''no item''), dec_execute_command = (\<lambda>x. Inr \<lparr>ecp_command = x, ecp_arguments = []\<rparr>),
      dec_inlay_hint = (\<lambda>x. Inl ''no range''), dec_selection_range = (\<lambda>x. Inl ''no range''), dec_query = (\<lambda>x. Inr x)\<rparr>"

definition demo_handler :: "(checker, unit) server handler" where
  "demo_handler = server2_handler (\<lambda>_. ''kind'') (\<lambda>_. ''kind'') (\<lambda>q. q) (sample_env sample_checker) 1 7"

definition demo_methods :: "(string, (string, rpc_answer, (checker, unit) server) rpc_method) gomap" where
  "demo_methods = new_protocol_server demo_decoders demo_handler"

definition message :: "string \<Rightarrow> nat option \<Rightarrow> string option \<Rightarrow> string rpc_request" where
  "message m i p = \<lparr>rq_method = m, rq_id = (case i of None \<Rightarrow> 0 | Some n \<Rightarrow> n), rq_notif = Option.is_none i, rq_params = p\<rparr>"

definition new_conn :: "rpc_answer rpc_conn" where "new_conn = \<lparr>dc_open = True, dc_replies = []\<rparr>"

definition demo_opened :: "(checker, unit) server" where
  "demo_opened = the (did_open (sample_env sample_checker) 1 (new_server_v2 slow_config ()) ''u'' ''text'' 1)"

definition demo_checking :: "(checker, unit) server" where
  "demo_checking = start_check (demo_opened\<lparr>srv_debouncer := Some (deb_callback
     (deb_expire (the (srv_debouncer demo_opened)) (0, ''u'')) (0, ''u''))\<rparr>) ''u''"

lemma demo_session: "\<exists>c. rpc_session demo_decoders demo_handler (sample_env sample_checker) 1 slow_config () c demo_checking"
proof -
  have "\<not> Option.is_none (did_open (sample_env sample_checker) 1 (new_server_v2 slow_config ()) ''u'' ''text'' 1)"
    by code_simp
  then have "did_open (sample_env sample_checker) 1 (new_server_v2 slow_config ()) ''u'' ''text'' 1 = Some demo_opened"
    by (auto simp: demo_opened_def Option.is_none_def)
  then have run: "rpc_handle demo_methods (message ''textDocument/didOpen'' None (Some ''text'')) new_conn
      (new_server_v2 slow_config ()) = Some (new_conn, demo_opened)"
    by (simp add: rpc_handle_def demo_methods_def protocol_server_lookup registrations_def message_def
        handle_did_open_def with_params_def demo_decoders_def demo_handler_def server2_handler_def
        acknowledged_def finish_call_def)
  have "\<not> Option.is_none (srv_debouncer demo_opened)" by code_simp
  then have db: "srv_debouncer demo_opened = Some (the (srv_debouncer demo_opened))"
    by (auto simp: Option.is_none_def)
  have armed: "(0, ''u'') \<in> set (armed (the (srv_debouncer demo_opened)))" by code_simp
  have "rpc_session demo_decoders demo_handler (sample_env sample_checker) 1 slow_config ()
      \<lparr>dc_open = True, dc_replies = []\<rparr> demo_opened"
    by (rule session_message [OF session_start run [unfolded demo_methods_def new_conn_def]])
  from session_timer [OF this db armed] show ?thesis unfolding demo_checking_def by auto
qed




text \<open>What decoding the parameters of a method can fail with, for the methods that have any.\<close>

definition decode_error :: "('raw, 'p) decoder \<Rightarrow> 'raw \<Rightarrow> string option" where
  "decode_error dec raw = (case dec raw of Inl e \<Rightarrow> Some e | Inr p \<Rightarrow> None)"

definition decode_errors :: "'raw decoders \<Rightarrow> 'raw \<Rightarrow> (string \<times> string option) list" where
  "decode_errors d raw =
    [(''initialize'', decode_error (dec_any d) raw),
     (''textDocument/didOpen'', decode_error (dec_did_open d) raw),
     (''textDocument/didChange'', decode_error (dec_did_change d) raw),
     (''textDocument/didClose'', decode_error (dec_uri d) raw),
     (''textDocument/hover'', decode_error (dec_position d) raw),
     (''textDocument/definition'', decode_error (dec_position d) raw),
     (''textDocument/references'', decode_error (dec_reference d) raw),
     (''textDocument/signatureHelp'', decode_error (dec_position d) raw),
     (''textDocument/codeLens'', decode_error (dec_uri d) raw),
     (''textDocument/documentHighlight'', decode_error (dec_position d) raw),
     (''textDocument/rename'', decode_error (dec_rename d) raw),
     (''textDocument/codeAction'', decode_error (dec_code_action d) raw),
     (''textDocument/completion'', decode_error (dec_position d) raw),
     (''completionItem/resolve'', decode_error (dec_item d) raw),
     (''workspace/executeCommand'', decode_error (dec_execute_command d) raw),
     (''workspace/didChangeConfiguration'', decode_error (dec_any d) raw),
     (''textDocument/documentSymbol'', decode_error (dec_uri d) raw),
     (''textDocument/documentLink'', decode_error (dec_uri d) raw),
     (''textDocument/inlayHint'', decode_error (dec_inlay_hint d) raw),
     (''textDocument/foldingRange'', decode_error (dec_uri d) raw),
     (''textDocument/selectionRange'', decode_error (dec_selection_range d) raw),
     (''workspace/symbol'', decode_error (dec_query d) raw),
     (''textDocument/semanticTokens/full'', decode_error (dec_uri d) raw),
     (''shutdown'', None), (''exit'', None)]"

lemma with_params_decode_error:
  "decode_error dec raw = Some e \<Longrightarrow> with_params dec wrap call (Some raw) s = Returned (Inl e) s"
  by (simp add: decode_error_def with_params_def split: sum.splits)

lemma registered_decode_errors:
  "list_all2 (\<lambda>x y. fst x = fst y \<and> (snd y = Some e \<longrightarrow> snd x (Some raw) s = Returned (Inl e) s))
     (registrations d h) (decode_errors d raw)"
  by (simp add: registrations_def decode_errors_def method_defs with_params_decode_error)

lemma map_of_list_all2:
  assumes "list_all2 (\<lambda>x y. fst x = fst y \<and> P (snd x) (snd y)) xs ys" and "map_of ys k = Some b"
  shows "\<exists>a. map_of xs k = Some a \<and> P a b"
  using assms by (induction rule: list_all2_induct) (auto split: if_splits)

text \<open>The methods that belong to the announced capabilities, as the protocol defines them.\<close>

definition capability_methods :: "string \<Rightarrow> string list" where
  "capability_methods p =
     (if p = ''completion'' then [''textDocument/completion'', ''completionItem/resolve'']
      else if p = ''workspaceSymbol'' then [''workspace/symbol'']
      else if p = ''executeCommand'' then [''workspace/executeCommand'']
      else if p = ''semanticTokens'' then [''textDocument/semanticTokens/full'']
      else [''textDocument/'' @ p])"

definition announced_methods :: "capabilities \<Rightarrow> string list" where
  "announced_methods c =
     [''initialize'', ''shutdown'', ''exit''] @
     (if cap_open_close c then [''textDocument/didOpen'', ''textDocument/didClose''] else []) @
     (if cap_change_sync c \<noteq> 0 then [''textDocument/didChange''] else []) @
     concat (map capability_methods (cap_providers c))"

lemma announced_registered:
  "list_all (\<lambda>m. m \<in> fst ` set (registrations d h)) (announced_methods server_capabilities)"
  by (simp add: announced_methods_def server_capabilities_def capability_methods_def registrations_def)

lemma unknown_method_rejected:
  assumes "rq_method req \<notin> fst ` set (registrations d h)"
  shows "rpc_handle (new_protocol_server d h) req c s =
    Some (if rq_notif req then c
          else send_reply (ReplyError (rq_id req) MethodNotFound
                 (''method '' @ go_quote (rq_method req) @ '' not found'')) c, s)"
proof -
  have "map_of (registrations d h) (rq_method req) = None" using assms by (simp add: map_of_eq_None_iff)
  then show ?thesis by (simp add: rpc_handle_def protocol_server_lookup)
qed

lemma undecodable_rejected:
  assumes "rq_params req = Some raw" "map_of (decode_errors d raw) (rq_method req) = Some (Some e)"
  shows "rpc_handle (new_protocol_server d h) req c s =
    Some (if rq_notif req then c else send_reply (ReplyError (rq_id req) InternalError e) c, s)"
  using map_of_list_all2 [OF registered_decode_errors [of e raw s d h] assms(2)] assms(1)
  by (auto simp: rpc_handle_def protocol_server_lookup)

text \<open>
  Malformed messages never reach the business logic: an unknown method is answered with
  \<^verbatim>\<open>MethodNotFound\<close>, parameters that do not decode with \<^verbatim>\<open>InternalError\<close> and the decoder's
  message, both only if the message is a request, and the server's state stays as it is. A client
  that keeps to the capabilities announced at initialization uses known methods only.
\<close>

theorem malformed_requests_rejected:
  "(rq_method req \<notin> fst ` set (registrations d h) \<longrightarrow>
      rpc_handle (new_protocol_server d h) req c s =
        Some (if rq_notif req then c
              else send_reply (ReplyError (rq_id req) MethodNotFound
                     (''method '' @ go_quote (rq_method req) @ '' not found'')) c, s)) \<and>
   (rq_params req = Some raw \<and> map_of (decode_errors d raw) (rq_method req) = Some (Some e) \<longrightarrow>
      rpc_handle (new_protocol_server d h) req c s =
        Some (if rq_notif req then c else send_reply (ReplyError (rq_id req) InternalError e) c, s)) \<and>
   (rq_method req \<in> set (announced_methods server_capabilities) \<longrightarrow>
      rq_method req \<in> fst ` set (registrations d h))"
  using unknown_method_rejected [of req d h c s] undecodable_rejected [of req raw d e h c s]
    announced_registered [of d h]
  unfolding list_all_iff by blast

theorem malformed_requests_rejected_witness:
  "rpc_handle (new_protocol_server demo_decoders demo_handler) (message ''textDocument/hover'' (Some 3) (Some ''x'')) new_conn
     (new_server_v2 fast_config ()) =
     Some (send_reply (ReplyError 3 InternalError ''no position'') new_conn, new_server_v2 fast_config ())"
proof -
  let ?req = "message ''textDocument/hover'' (Some 3) (Some ''x'')"
  have "rq_params ?req = Some ''x''" "\<not> rq_notif ?req" "rq_id ?req = 3" by (simp_all add: message_def)
  moreover have "map_of (decode_errors demo_decoders ''x'') (rq_method ?req) = Some (Some ''no position'')"
    by (simp add: decode_errors_def message_def decode_error_def demo_decoders_def)
  ultimately show ?thesis
    using malformed_requests_rejected [of ?req demo_decoders demo_handler new_conn "new_server_v2 fast_config ()"
        "''x''" "''no position''"]
    by simp
qed

end
