(* ===== verification/ConfigManager.thy ===== *)
theory ConfigManager
  imports GoPaths
begin

text \<open>
  The configuration manager (src/languageserver/integration/config_manager.go): which flow.json
  belongs to a file, the loaded project states and clients per configuration, and the reactions
  to changes of the file system. State objects (src/languageserver/integration/state.go) are shared
  and updated in place, so they live in a heap and the maps hold their addresses.

  The file system, flowkit's loader and the client's initialization are the parameters of a
  \<open>world\<close>, which may be different at every call. A call that takes the manager's lock several times
  is one step of the model. Paths are those of Unix and the working directory is readable.
\<close>

section \<open>Paths as editors send them (resolvers.go)\<close>

text \<open>\<^verbatim>\<open>strings.ReplaceAll(path, \"%3A\", \":\")\<close>\<close>

fun replace_colons :: "string \<Rightarrow> string" where
  "replace_colons [] = []"
| "replace_colons (c # s) =
     (if has_prefix (c # s) ''%3A'' then CHR '':'' # replace_colons (drop 2 s) else c # replace_colons s)"

definition clean_windows_path :: "string \<Rightarrow> string" where
  "clean_windows_path p =
     (let q = replace_colons p
      in if CHR '':'' \<in> set q \<and> has_prefix q ''/'' then drop 1 q else q)"

definition hex_value :: "char \<Rightarrow> nat option" where
  "hex_value c =
     (let n = of_char c :: nat
      in if 48 \<le> n \<and> n \<le> 57 then Some (n - 48)
         else if 65 \<le> n \<and> n \<le> 70 then Some (n - 55)
         else if 97 \<le> n \<and> n \<le> 102 then Some (n - 87) else None)"

text \<open>\<^verbatim>\<open>url.PathUnescape\<close>: an error on a percent sign without two hexadecimal digits.\<close>

fun path_unescape :: "string \<Rightarrow> string option" where
  "path_unescape [] = Some []"
| "path_unescape (c # s) =
     (if c \<noteq> CHR ''%'' then map_option ((#) c) (path_unescape s)
      else case s of
        h # l # rest \<Rightarrow>
          (case (hex_value h, hex_value l) of
             (Some a, Some b) \<Rightarrow> map_option ((#) (char_of (16 * a + b))) (path_unescape rest)
           | _ \<Rightarrow> None)
      | _ \<Rightarrow> None)"

definition de_uri :: "string \<Rightarrow> string" where
  "de_uri p =
     (let q = (if has_prefix p ''file://'' then drop 7 p else p)
      in case path_unescape q of Some r \<Rightarrow> r | None \<Rightarrow> q)"

section \<open>Project states (state.go)\<close>

record 'st flow_state =
  fs_loaded :: "'st option"
  fs_config :: string

record 'st world =
  w_cwd :: string
  w_stat :: "string \<Rightarrow> bool"
  w_read :: "string \<Rightarrow> (string, string) result"
  w_load :: "string \<Rightarrow> (string, 'st) result"
  w_init :: "'st flow_state \<Rightarrow> int \<Rightarrow> string option"
  w_watch :: "string \<Rightarrow> bool"
  w_contracts :: "string \<Rightarrow> (string, (string, string) gomap) result"

definition new_flowkit_state :: "'st flow_state" where
  "new_flowkit_state = \<lparr>fs_loaded = None, fs_config = ''''\<rparr>"

definition state_is_loaded :: "'st flow_state \<Rightarrow> bool" where
  "state_is_loaded st \<longleftrightarrow> fs_loaded st \<noteq> None \<and> fs_config st \<noteq> ''''"

definition state_load :: "'st world \<Rightarrow> 'st flow_state \<Rightarrow> string \<Rightarrow> string option \<times> 'st flow_state" where
  "state_load w st path =
     (case w_load w path of
        Inl e \<Rightarrow> (Some e, st)
      | Inr s \<Rightarrow> (None, st\<lparr>fs_config := path, fs_loaded := Some s\<rparr>))"

definition state_reload :: "'st world \<Rightarrow> 'st flow_state \<Rightarrow> string option \<times> 'st flow_state" where
  "state_reload w st =
     (if \<not> state_is_loaded st then (Some ''state is not initialized'', st)
      else state_load w st (fs_config st))"

section \<open>The manager's state\<close>

definition flow_config_filename :: string where "flow_config_filename = ''flow.json''"

record 'st manager =
  cm_enable_client :: bool
  cm_accounts :: int
  cm_init_config :: string
  cm_last_used :: string
  cm_states :: "(string, nat) gomap"
  cm_clients :: "(string, nat) gomap"
  cm_watchers :: "string keyset"
  cm_doc_config :: "(string, string) gomap"
  cm_dir_watchers :: "string keyset"
  cm_load_errors :: "(string, string) gomap"
  cm_callback :: bool
  cm_heap :: "(nat, 'st flow_state) gomap"
  cm_next :: nat
  cm_notified :: "string list"
  cm_client_reloads :: "nat list"

definition new_config_manager :: "bool \<Rightarrow> int \<Rightarrow> string \<Rightarrow> 'st manager" where
  "new_config_manager enable accounts init =
     \<lparr>cm_enable_client = enable, cm_accounts = accounts, cm_init_config = init, cm_last_used = '''',
      cm_states = [], cm_clients = [], cm_watchers = [], cm_doc_config = [], cm_dir_watchers = [],
      cm_load_errors = [], cm_callback = False, cm_heap = [], cm_next = 0, cm_notified = [],
      cm_client_reloads = []\<rparr>"

definition set_on_config_reload :: "'st manager \<Rightarrow> 'st manager" where
  "set_on_config_reload m = m\<lparr>cm_callback := True\<rparr>"

text \<open>The object a map of states holds for a path.\<close>

definition state_at :: "'st manager \<Rightarrow> string \<Rightarrow> (nat \<times> 'st flow_state) option" where
  "state_at m path =
     (case map_of (cm_states m) path of
        None \<Rightarrow> None
      | Some a \<Rightarrow> (case map_of (cm_heap m) a of None \<Rightarrow> None | Some st \<Rightarrow> Some (a, st)))"

definition loaded_state_at :: "'st manager \<Rightarrow> string \<Rightarrow> nat option" where
  "loaded_state_at m path =
     (case state_at m path of
        Some (a, st) \<Rightarrow> if state_is_loaded st then Some a else None | None \<Rightarrow> None)"

section \<open>Finding the configuration of a file\<close>

text \<open>The parents of a clean path get shorter until they repeat.\<close>

definition climb_measure :: "string \<Rightarrow> string \<Rightarrow> nat" where
  "climb_measure dir prev =
     (if dir = prev then 0
      else if go_clean dir = dir then Suc (length (path_comps dir))
      else Suc (Suc (length (path_comps (go_dir dir)))))"

function nearest_loop :: "(string \<Rightarrow> bool) \<Rightarrow> string \<Rightarrow> string \<Rightarrow> string" where
  "nearest_loop stat dir prev =
     (if dir = prev then ''''
      else if stat (go_join [dir, flow_config_filename]) then go_join [dir, flow_config_filename]
      else nearest_loop stat (go_dir dir) dir)"
  by pat_completeness auto
termination
proof (relation "measure (\<lambda>(stat, dir, prev). climb_measure dir prev)")
  fix stat :: "string \<Rightarrow> bool" and dir prev :: string
  assume "dir \<noteq> prev"
  then show "((stat, go_dir dir, dir), (stat, dir, prev)) \<in> measure (\<lambda>(stat, dir, prev). climb_measure dir prev)"
    using go_dir_shrinks [of dir] by (auto simp: climb_measure_def go_dir_is_clean)
qed simp

declare nearest_loop.simps [simp del]

definition find_nearest_flow_json :: "'st world \<Rightarrow> string \<Rightarrow> string" where
  "find_nearest_flow_json w path =
     (if path = '''' then ''''
      else nearest_loop (w_stat w) (go_dir (clean_windows_path path)) '''')"

definition lookup_or_find_config :: "'st world \<Rightarrow> 'st manager \<Rightarrow> string \<Rightarrow> string \<times> 'st manager" where
  "lookup_or_find_config w m path =
     (case map_of (cm_doc_config m) path of
        Some cfg \<Rightarrow> (cfg, m)
      | None \<Rightarrow>
          (let cfg = find_nearest_flow_json w path
           in if cfg \<noteq> '''' then (cfg, m\<lparr>cm_doc_config := AList.update path cfg (cm_doc_config m)\<rparr>)
              else (cfg, m)))"

definition nearest_config_path :: "'st world \<Rightarrow> string \<Rightarrow> string" where
  "nearest_config_path w path = find_nearest_flow_json w path"

section \<open>Loading states and clients\<close>

definition set_last_used :: "'st world \<Rightarrow> string \<Rightarrow> 'st manager \<Rightarrow> 'st manager" where
  "set_last_used w cfg m = m\<lparr>cm_last_used := go_abs (w_cwd w) (clean_windows_path cfg)\<rparr>"

definition ensure_watcher :: "'st world \<Rightarrow> string \<Rightarrow> 'st manager \<Rightarrow> 'st manager" where
  "ensure_watcher w cfg m =
     (if cfg \<in> set (cm_watchers m) then m
      else if \<not> w_watch w cfg then m
      else m\<lparr>cm_watchers := ks_insert cfg (cm_watchers m)\<rparr>)"

definition load_state :: "'st world \<Rightarrow> string \<Rightarrow> 'st manager \<Rightarrow> (string, nat) result \<times> 'st manager" where
  "load_state w cfg m =
     (let path = go_abs (w_cwd w) (clean_windows_path cfg)
      in case loaded_state_at m path of
           Some a \<Rightarrow> (Inr a, m)
         | None \<Rightarrow>
             (case state_load w new_flowkit_state path of
                (Some e, st) \<Rightarrow> (Inl e, m\<lparr>cm_load_errors := AList.update path e (cm_load_errors m)\<rparr>)
              | (None, st) \<Rightarrow>
                  (let a = cm_next m;
                       m1 = m\<lparr>cm_heap := AList.update a st (cm_heap m), cm_next := Suc a,
                              cm_states := AList.update path a (cm_states m)\<rparr>;
                       m2 = ensure_watcher w path m1
                   in (Inr a, m2\<lparr>cm_load_errors := AList.delete path (cm_load_errors m2)\<rparr>))))"

text \<open>\<open>Inr None\<close> is the answer \<^verbatim>\<open>nil, nil\<close>.\<close>

definition load_client ::
    "'st world \<Rightarrow> string \<Rightarrow> nat \<Rightarrow> 'st manager \<Rightarrow> (string, nat option) result \<times> 'st manager" where
  "load_client w cfg st m =
     (if \<not> cm_enable_client m then (Inr None, m)
      else let path = go_abs (w_cwd w) (clean_windows_path cfg)
           in case map_of (cm_clients m) path of
                Some c \<Rightarrow> (Inr (Some c), m)
              | None \<Rightarrow>
                  (case w_init w (case map_of (cm_heap m) st of Some s \<Rightarrow> s | None \<Rightarrow> new_flowkit_state)
                          (cm_accounts m) of
                     Some e \<Rightarrow> (Inl e, m\<lparr>cm_load_errors := AList.update path e (cm_load_errors m)\<rparr>)
                   | None \<Rightarrow>
                       (let c = cm_next m
                        in (Inr (Some c), m\<lparr>cm_next := Suc c, cm_clients := AList.update path c (cm_clients m),
                              cm_load_errors := AList.delete path (cm_load_errors m)\<rparr>))))"

text \<open>The common end of the state resolutions: use the loaded state or load it now.\<close>

definition state_for_config ::
    "'st world \<Rightarrow> string \<Rightarrow> 'st manager \<Rightarrow> (string, nat option) result \<times> 'st manager" where
  "state_for_config w cfg m =
     (case loaded_state_at m cfg of
        Some a \<Rightarrow> (Inr (Some a), set_last_used w cfg m)
      | None \<Rightarrow>
          (case load_state w cfg m of
             (Inl e, m1) \<Rightarrow> (Inl e, m1)
           | (Inr a, m1) \<Rightarrow> (Inr (Some a), set_last_used w cfg m1)))"

definition client_for_config ::
    "'st world \<Rightarrow> string \<Rightarrow> 'st manager \<Rightarrow> (string, nat option) result \<times> 'st manager" where
  "client_for_config w cfg m =
     (case map_of (cm_clients m) cfg of
        Some c \<Rightarrow> (Inr (Some c), set_last_used w cfg m)
      | None \<Rightarrow>
          (case load_state w cfg m of
             (Inl e, m1) \<Rightarrow> (Inl e, m1)
           | (Inr a, m1) \<Rightarrow>
               (case load_client w cfg a m1 of
                  (Inr (Some c), m2) \<Rightarrow> (Inr (Some c), set_last_used w cfg m2)
                | (r, m2) \<Rightarrow> (r, m2))))"

definition resolve_state_for_path ::
    "'st world \<Rightarrow> 'st manager \<Rightarrow> string \<Rightarrow> (string, nat option) result \<times> 'st manager" where
  "resolve_state_for_path w m path =
     (case lookup_or_find_config w m path of
        (cfg, m1) \<Rightarrow> if cfg = '''' then (Inr None, m1) else state_for_config w cfg m1)"

definition resolve_client_for_path ::
    "'st world \<Rightarrow> 'st manager \<Rightarrow> string \<Rightarrow> (string, nat option) result \<times> 'st manager" where
  "resolve_client_for_path w m path =
     (if \<not> cm_enable_client m then (Inr None, m)
      else case lookup_or_find_config w m path of
        (cfg, m1) \<Rightarrow> if cfg = '''' then (Inr None, m1) else client_for_config w cfg m1)"

text \<open>\<open>loc\<close> is the checker's location as a string, if there is a checker with a location.\<close>

definition resolve_state_for_checker ::
    "'st world \<Rightarrow> 'st manager \<Rightarrow> string option \<Rightarrow> (string, nat option) result \<times> 'st manager" where
  "resolve_state_for_checker w m loc =
     (case loc of None \<Rightarrow> resolve_state_for_path w m '''' | Some p \<Rightarrow> resolve_state_for_path w m p)"

definition resolve_client_for_checker ::
    "'st world \<Rightarrow> 'st manager \<Rightarrow> string option \<Rightarrow> (string, nat option) result \<times> 'st manager" where
  "resolve_client_for_checker w m loc =
     (if \<not> cm_enable_client m then (Inr None, m)
      else case loc of None \<Rightarrow> resolve_client_for_path w m '''' | Some p \<Rightarrow> resolve_client_for_path w m p)"

section \<open>Projects\<close>

definition config_path_for_project :: "'st world \<Rightarrow> string \<Rightarrow> string" where
  "config_path_for_project w project =
     (if project = '''' then ''''
      else let id1 = (case str_index project ''@'' of Some i \<Rightarrow> take i project | None \<Rightarrow> project);
               path = go_abs (w_cwd w) (de_uri (clean_windows_path id1));
               candidate = go_join [path, flow_config_filename]
           in if go_base path \<noteq> flow_config_filename \<and> w_stat w candidate then candidate else path)"

definition is_path_in_project :: "'st world \<Rightarrow> string \<Rightarrow> string \<Rightarrow> bool" where
  "is_path_in_project w project path =
     (let cfg = config_path_for_project w project
      in if cfg = '''' \<or> path = '''' then False
         else let root = go_abs (w_cwd w) (go_dir cfg); file = go_abs (w_cwd w) path
              in case go_rel root file of
                   Some rel \<Rightarrow> rel \<noteq> ''..'' \<and> \<not> has_prefix rel ''../''
                 | None \<Rightarrow> False)"

definition is_same_project :: "'st world \<Rightarrow> string \<Rightarrow> string \<Rightarrow> bool" where
  "is_same_project w project path =
     (let cfg = config_path_for_project w project
      in if cfg = '''' then True
         else let dst = nearest_config_path w path
              in if dst = '''' then True else go_abs (w_cwd w) (clean_windows_path dst) = cfg)"

definition contract_source_for_project ::
    "'st world \<Rightarrow> string \<Rightarrow> string \<Rightarrow> (string, string) result" where
  "contract_source_for_project w project name =
     (let cfg = config_path_for_project w project
      in if cfg = '''' \<or> name = '''' then Inr ''''
         else case w_read w cfg of
           Inl e \<Rightarrow> Inl e
         | Inr data \<Rightarrow>
             (case w_contracts w data of
                Inl e \<Rightarrow> Inl e
              | Inr cs \<Rightarrow>
                  (case map_of cs name of
                     None \<Rightarrow> Inr ''''
                   | Some rel \<Rightarrow>
                       (if rel = '''' then Inr '''' else w_read w (go_join [go_dir cfg, rel])))))"

definition resolve_state_for_project ::
    "'st world \<Rightarrow> 'st manager \<Rightarrow> string \<Rightarrow> (string, nat option) result \<times> 'st manager" where
  "resolve_state_for_project w m project =
     (if project = ''''
      then (if cm_last_used m \<noteq> ''''
            then case load_state w (cm_last_used m) m of
                   (Inl e, m1) \<Rightarrow> (Inl e, m1) | (Inr a, m1) \<Rightarrow> (Inr (Some a), m1)
            else (Inr None, m))
      else state_for_config w (config_path_for_project w project) m)"

definition resolve_client_for_project ::
    "'st world \<Rightarrow> 'st manager \<Rightarrow> string \<Rightarrow> (string, nat option) result \<times> 'st manager" where
  "resolve_client_for_project w m project =
     (if \<not> cm_enable_client m then (Inr None, m)
      else if project = ''''
      then (if cm_last_used m \<noteq> ''''
            then case load_state w (cm_last_used m) m of
                   (Inl e, m1) \<Rightarrow> (Inl e, m1)
                 | (Inr a, m1) \<Rightarrow> load_client w (cm_last_used m) a m1
            else (Inr None, m))
      else client_for_config w (config_path_for_project w project) m)"

text \<open>The last case ranges over the map of clients: any of them, here the first of the list.\<close>

definition default_client :: "'st manager \<Rightarrow> nat option" where
  "default_client m =
     (if \<not> cm_enable_client m then None
      else case (if cm_init_config m = '''' then None else map_of (cm_clients m) (cm_init_config m)) of
        Some c \<Rightarrow> Some c
      | None \<Rightarrow>
          (case (if cm_last_used m = '''' then None else map_of (cm_clients m) (cm_last_used m)) of
             Some c \<Rightarrow> Some c
           | None \<Rightarrow> (case cm_clients m of [] \<Rightarrow> None | (k, c) # _ \<Rightarrow> Some c)))"

definition set_init_config_path :: "'st world \<Rightarrow> string \<Rightarrow> 'st manager \<Rightarrow> 'st manager" where
  "set_init_config_path w cfg m =
     (let path = go_abs (w_cwd w) (clean_windows_path cfg);
          m1 = m\<lparr>cm_init_config := path\<rparr>
      in if path \<noteq> '''' then ensure_watcher w path m1 else m1)"

definition set_default_client_for_path ::
    "'st world \<Rightarrow> string \<Rightarrow> nat option \<Rightarrow> 'st manager \<Rightarrow> 'st manager" where
  "set_default_client_for_path w cfg client m =
     (case client of
        None \<Rightarrow> m
      | Some c \<Rightarrow>
          (if cfg = '''' then m
           else let path = go_abs (w_cwd w) (clean_windows_path cfg)
                in m\<lparr>cm_clients := AList.update path c (cm_clients m), cm_last_used := path\<rparr>))"

definition ensure_dir_watcher :: "'st world \<Rightarrow> string \<Rightarrow> 'st manager \<Rightarrow> 'st manager" where
  "ensure_dir_watcher w dir m =
     (let path = go_abs (w_cwd w) (clean_windows_path dir)
      in if path \<in> set (cm_dir_watchers m) then m
         else if \<not> w_watch w path then m
         else m\<lparr>cm_dir_watchers := ks_insert path (cm_dir_watchers m)\<rparr>)"

definition last_load_error :: "'st world \<Rightarrow> 'st manager \<Rightarrow> string \<Rightarrow> string" where
  "last_load_error w m project =
     (case map_of (cm_load_errors m) (config_path_for_project w project) of Some e \<Rightarrow> e | None \<Rightarrow> '''')"

section \<open>Reacting to the file system\<close>

definition invalidate_index_for_config :: "string \<Rightarrow> 'st manager \<Rightarrow> 'st manager" where
  "invalidate_index_for_config cfg m =
     m\<lparr>cm_doc_config := filter (\<lambda>x. snd x \<noteq> cfg) (cm_doc_config m)\<rparr>"

definition notify_reload :: "string \<Rightarrow> 'st manager \<Rightarrow> 'st manager" where
  "notify_reload cfg m = (if cm_callback m then m\<lparr>cm_notified := cm_notified m @ [cfg]\<rparr> else m)"

definition reload_client :: "nat option \<Rightarrow> 'st manager \<Rightarrow> 'st manager" where
  "reload_client c m =
     (case c of None \<Rightarrow> m | Some a \<Rightarrow> m\<lparr>cm_client_reloads := cm_client_reloads m @ [a]\<rparr>)"

text \<open>Reloading the object at an address updates it in place.\<close>

definition reload_at :: "'st world \<Rightarrow> nat \<Rightarrow> 'st manager \<Rightarrow> string option \<times> 'st manager" where
  "reload_at w a m =
     (case map_of (cm_heap m) a of
        None \<Rightarrow> (None, m)
      | Some st \<Rightarrow>
          (case state_reload w st of (e, st') \<Rightarrow> (e, m\<lparr>cm_heap := AList.update a st' (cm_heap m)\<rparr>)))"

fun reload_loop :: "'st world \<Rightarrow> nat list \<Rightarrow> 'st manager \<Rightarrow> string option \<times> 'st manager" where
  "reload_loop w [] m = (None, m)"
| "reload_loop w (a # as) m =
     (case map_of (cm_heap m) a of
        None \<Rightarrow> reload_loop w as m
      | Some st \<Rightarrow>
          (if state_is_loaded st
           then (case reload_at w a m of
                   (Some e, m1) \<Rightarrow> (Some e, m1)
                 | (None, m1) \<Rightarrow> reload_loop w as (notify_reload (fs_config st) m1))
           else reload_loop w as m))"

definition reload_all :: "'st world \<Rightarrow> 'st manager \<Rightarrow> string option \<times> 'st manager" where
  "reload_all w m = reload_loop w (map snd (cm_states m)) m"

text \<open>
  An event of a configuration's watcher: the loop's (possibly new) configuration path, whether the
  debounce timer is reset, and the new state.
\<close>

definition watch_event :: "string \<Rightarrow> string \<Rightarrow> 'st manager \<Rightarrow> string \<times> bool \<times> 'st manager" where
  "watch_event cfg name m =
     (if name = cfg then (cfg, True, m)
      else let dir = go_dir cfg
           in if go_dir name = dir \<and> go_base name = flow_config_filename
              then let new_cfg = go_join [dir, flow_config_filename]
                   in if new_cfg \<noteq> cfg
                      then let m1 = (case map_of (cm_states m) cfg of
                               Some st \<Rightarrow> m\<lparr>cm_states := AList.update new_cfg st (AList.delete cfg (cm_states m))\<rparr>
                             | None \<Rightarrow> m);
                           m2 = (case map_of (cm_clients m1) cfg of
                               Some c \<Rightarrow> m1\<lparr>cm_clients := AList.update new_cfg c (AList.delete cfg (cm_clients m1))\<rparr>
                             | None \<Rightarrow> m1)
                           in (new_cfg, True,
                               m2\<lparr>cm_watchers := ks_insert new_cfg (ks_delete cfg (cm_watchers m2))\<rparr>)
                      else (cfg, False, m)
              else (cfg, False, m))"

text \<open>The debounce timer of a configuration's watcher.\<close>

definition watch_fire :: "'st world \<Rightarrow> string \<Rightarrow> 'st manager \<Rightarrow> 'st manager" where
  "watch_fire w cfg m =
     (let cl = map_of (cm_clients m) cfg;
          m1 = (case map_of (cm_states m) cfg of
                  None \<Rightarrow> m
                | Some a \<Rightarrow>
                    (case reload_at w a m of
                       (Some e, m0) \<Rightarrow>
                         m0\<lparr>cm_load_errors := AList.update cfg e (cm_load_errors m0),
                            cm_states := AList.delete cfg (cm_states m0),
                            cm_clients := AList.delete cfg (cm_clients m0)\<rparr>
                     | (None, m0) \<Rightarrow>
                         notify_reload cfg (m0\<lparr>cm_load_errors := AList.delete cfg (cm_load_errors m0)\<rparr>)))
      in invalidate_index_for_config cfg (reload_client cl m1))"

text \<open>A directory's watcher reacts to flow.json in this directory only.\<close>

definition dir_event :: "string \<Rightarrow> string \<Rightarrow> bool" where
  "dir_event dir name \<longleftrightarrow> go_base name = flow_config_filename \<and> go_dir name = dir"

definition dir_fire :: "'st world \<Rightarrow> string \<Rightarrow> 'st manager \<Rightarrow> 'st manager" where
  "dir_fire w dir m =
     (let cfg = go_join [dir, flow_config_filename]
      in if w_stat w cfg
         then (let cl = map_of (cm_clients m) cfg;
                   m1 = (case map_of (cm_states m) cfg of
                           Some a \<Rightarrow> notify_reload cfg (snd (reload_at w a m))
                         | None \<Rightarrow> snd (resolve_state_for_path w m cfg))
               in invalidate_index_for_config cfg (reload_client cl m1))
         else (let m1 = invalidate_index_for_config cfg m
               in m1\<lparr>cm_states := AList.delete cfg (cm_states m1),
                     cm_clients := AList.delete cfg (cm_clients m1)\<rparr>))"

section \<open>The nearest ancestor\<close>

text \<open>The candidate in the ancestor directory that keeps \<open>k\<close> components.\<close>

definition ancestor_config :: "bool \<Rightarrow> string list \<Rightarrow> nat \<Rightarrow> string" where
  "ancestor_config r cs k = go_join [render r (take k cs), flow_config_filename]"

definition deepest_config :: "(string \<Rightarrow> bool) \<Rightarrow> bool \<Rightarrow> string list \<Rightarrow> string" where
  "deepest_config stat r cs =
     (case find (\<lambda>k. stat (ancestor_config r cs k)) (rev [0..<Suc (length cs)]) of
        None \<Rightarrow> '''' | Some k \<Rightarrow> ancestor_config r cs k)"

lemma find_rev_upt:
  "case find P (rev [0..<n]) of
     None \<Rightarrow> \<forall>k < n. \<not> P k
   | Some k \<Rightarrow> k < n \<and> P k \<and> (\<forall>j. k < j \<and> j < n \<longrightarrow> \<not> P j)"
proof (induction n)
  case (Suc n)
  then show ?case by (cases "P n") (auto split: option.splits simp: less_Suc_eq)
qed simp

lemma deepest_config_cases:
  "(deepest_config stat r cs = '''' \<and> (\<forall>k. k \<le> length cs \<longrightarrow> \<not> stat (ancestor_config r cs k)))
   \<or> (\<exists>k. k \<le> length cs \<and> deepest_config stat r cs = ancestor_config r cs k \<and> stat (ancestor_config r cs k)
        \<and> (\<forall>j. k < j \<and> j \<le> length cs \<longrightarrow> \<not> stat (ancestor_config r cs j)))"
  using find_rev_upt [of "Suc (length cs)" "\<lambda>k. stat (ancestor_config r cs k)"]
  unfolding deepest_config_def
  by (cases "find (\<lambda>k. stat (ancestor_config r cs k)) (rev [0..<Suc (length cs)])")
    (auto simp: less_Suc_eq_le simp del: upt_Suc)

lemma find_in_set: "find P xs = Some x \<Longrightarrow> x \<in> set xs"
  by (induction xs) (auto split: if_splits)

lemma deepest_config_snoc:
  "deepest_config stat r (cs @ [x]) =
     (if stat (go_join [render r (cs @ [x]), flow_config_filename])
      then go_join [render r (cs @ [x]), flow_config_filename] else deepest_config stat r cs)"
proof -
  have same: "ancestor_config r (cs @ [x]) k = ancestor_config r cs k" if "k < Suc (length cs)" for k
    using that by (simp add: ancestor_config_def)
  have top: "ancestor_config r (cs @ [x]) (Suc (length cs)) = go_join [render r (cs @ [x]), flow_config_filename]"
    by (simp add: ancestor_config_def)
  have "find (\<lambda>k. stat (ancestor_config r (cs @ [x]) k)) (rev [0..<Suc (length cs)]) =
      find (\<lambda>k. stat (ancestor_config r cs k)) (rev [0..<Suc (length cs)])"
    by (rule find_cong) (use same in auto)
  moreover have "k < Suc (length cs)"
    if "find (\<lambda>k. stat (ancestor_config r cs k)) (rev [0..<Suc (length cs)]) = Some k" for k
    using find_in_set [OF that] by auto
  ultimately show ?thesis
    unfolding deepest_config_def by (simp add: top same split: option.split)
qed

lemma norm_comps_snocD: "norm_comps r (cs @ [x]) \<Longrightarrow> norm_comps r cs"
  using norm_comps_butlast [of r "cs @ [x]"] by simp

lemma nearest_loop_deepest:
  "norm_comps r cs \<Longrightarrow> prev \<noteq> render r cs \<Longrightarrow> nearest_loop stat (render r cs) prev = deepest_config stat r cs"
proof (induction cs arbitrary: prev rule: rev_induct)
  case Nil
  have dir: "go_dir (render r []) = render r []" using go_dir_render [OF Nil(1)] by simp
  have stop: "nearest_loop stat d d = ''''" for d by (subst nearest_loop.simps) simp
  show ?case
    using Nil(2) by (subst nearest_loop.simps) (simp add: dir stop deepest_config_def ancestor_config_def)
next
  case (snoc x cs)
  note norm = norm_comps_snocD [OF snoc.prems(1)]
  have dir: "go_dir (render r (cs @ [x])) = render r cs" using go_dir_render [OF snoc.prems(1)] by simp
  have "render r (cs @ [x]) \<noteq> render r cs" using render_inject [OF snoc.prems(1) norm] by simp
  with snoc.IH [OF norm this] snoc.prems(2) show ?case
    by (subst nearest_loop.simps) (simp add: dir deepest_config_snoc)
qed

lemma go_dir_rendered: "go_dir p = render (is_abs (go_dir p)) (path_comps (go_dir p))"
  using go_dir_is_clean [of p] by (simp add: go_clean_def)

section \<open>Paths inside a project\<close>

lemma strip_common_prefix:
  "strip_common xs ys = (b, t) \<Longrightarrow>
   \<exists>c. xs = c @ b \<and> ys = c @ t \<and> (b = [] \<or> t = [] \<or> hd b \<noteq> hd t)"
proof (induction xs ys rule: strip_common.induct)
  case (1 x xs y ys)
  show ?case
  proof (cases "x = y")
    case True
    with 1 obtain c where "xs = c @ b" "ys = c @ t" "b = [] \<or> t = [] \<or> hd b \<noteq> hd t" by auto
    with True show ?thesis by (intro exI [of _ "x # c"]) simp
  next
    case False
    with 1(2) show ?thesis by (intro exI [of _ "[]"]) auto
  qed
qed auto

lemma rooted_comps: "is_abs p \<Longrightarrow> x \<in> set (path_comps p) \<Longrightarrow> x \<noteq> ''..'' \<and> comp_ok x"
  using norm_path_comps [of p] by (auto simp: norm_comps_def)

lemma outside_rel:
  assumes "n > 0" and "\<forall>x \<in> set t. CHR ''/'' \<notin> set x"
  shows "str_join ''/'' (replicate n ''..'' @ t) = ''..'' \<or> has_prefix (str_join ''/'' (replicate n ''..'' @ t)) ''../''"
proof -
  obtain m where n: "n = Suc m" using assms(1) by (cases n) auto
  show ?thesis
  proof (cases "replicate m ''..'' @ t = []")
    case False
    then have "str_join ''/'' (replicate n ''..'' @ t) = ''../'' @ str_join ''/'' (replicate m ''..'' @ t)"
      using n by (simp add: str_join_Cons)
    then show ?thesis by (simp add: has_prefix_def)
  qed (simp add: n)
qed

lemma inside_rel:
  assumes "t \<noteq> []" and ok: "\<forall>x \<in> set t. x \<noteq> ''..'' \<and> comp_ok x"
  shows "str_join ''/'' t \<noteq> ''..'' \<and> \<not> has_prefix (str_join ''/'' t) ''../''"
proof -
  have split: "split_on (CHR ''/'') (str_join ''/'' t) = t"
    using assms by (intro split_on_join) (auto simp: comp_ok_def)
  have "str_join ''/'' t \<noteq> ''..''"
  proof
    assume "str_join ''/'' t = ''..''"
    with split have "t = [''..'']" by auto
    with ok show False by simp
  qed
  moreover have "\<not> has_prefix (str_join ''/'' t) ''../''"
  proof
    assume "has_prefix (str_join ''/'' t) ''../''"
    then obtain z where "str_join ''/'' t = ''../'' @ z" by (auto simp: has_prefix_iff)
    with split have "t = ''..'' # split_on (CHR ''/'') z" by auto
    with ok show False by simp
  qed
  ultimately show ?thesis by blast
qed

lemma go_rel_inside:
  assumes abs: "is_abs base" "is_abs targ" and clean: "go_clean base = base" "go_clean targ = targ"
  shows "(case go_rel base targ of Some rel \<Rightarrow> rel \<noteq> ''..'' \<and> \<not> has_prefix rel ''../'' | None \<Rightarrow> False) \<longleftrightarrow>
     (\<exists>rest. path_comps targ = path_comps base @ rest)"
proof (cases "base = targ")
  case True
  then show ?thesis by (simp add: go_rel_def has_prefix_def)
next
  case False
  obtain b t where bt: "strip_common (path_comps base) (path_comps targ) = (b, t)" by force
  from strip_common_prefix [OF this] obtain c where
    c: "path_comps base = c @ b" "path_comps targ = c @ t" "b = [] \<or> t = [] \<or> hd b \<noteq> hd t" by blast
  have ok: "\<forall>x \<in> set b \<union> set t. x \<noteq> ''..'' \<and> comp_ok x"
    using rooted_comps [OF abs(1), unfolded c] rooted_comps [OF abs(2), unfolded c] by auto
  have ne: "b \<noteq> [] \<or> t \<noteq> []"
  proof (rule ccontr)
    assume "\<not> ?thesis"
    then have "path_comps base = path_comps targ" using c by simp
    then have "go_clean base = go_clean targ" using abs by (simp add: go_clean_def)
    with clean False show False by simp
  qed
  show ?thesis
  proof (cases "b = []")
    case True
    with ne ok inside_rel [of t] False abs clean bt show ?thesis by (simp add: go_rel_def c)
  next
    case bne: False
    then have "hd b \<noteq> ''..''" using ok by simp
    then have rel: "go_rel base targ = Some (str_join ''/'' (replicate (length b) ''..'' @ t))"
      using False abs clean bt bne by (simp add: go_rel_def)
    have "\<forall>x \<in> set t. CHR ''/'' \<notin> set x" using ok by (simp add: comp_ok_def)
    then have "\<not> (case go_rel base targ of Some rel \<Rightarrow> rel \<noteq> ''..'' \<and> \<not> has_prefix rel ''../'' | None \<Rightarrow> False)"
      using outside_rel [of "length b" t] bne by (auto simp: rel)
    moreover have "\<not> (\<exists>rest. path_comps targ = path_comps base @ rest)"
      using c bne by (cases b) auto
    ultimately show ?thesis by blast
  qed
qed


lemma str_join_is_abs: "is_abs a \<Longrightarrow> is_abs (str_join ''/'' (a # as))"
  by (cases as) (auto simp: is_abs_def has_prefix_iff)

lemma go_abs_clean_abs:
  assumes "is_abs cwd"
  shows "is_abs (go_abs cwd p)" "go_clean (go_abs cwd p) = go_abs cwd p"
proof -
  have ne: "cwd \<noteq> []" using assms by (auto simp: is_abs_def has_prefix_def)
  show "is_abs (go_abs cwd p)"
    using ne str_join_is_abs [OF assms, of "[p]"] assms
    by (simp add: go_abs_def go_join_def go_clean_comps)
  show "go_clean (go_abs cwd p) = go_abs cwd p"
    using ne by (simp add: go_abs_def go_join_def)
qed

lemma is_abs_nonempty: "is_abs p \<Longrightarrow> p \<noteq> ''''"
  by (auto simp: is_abs_def has_prefix_def)

lemma go_join_is_abs: "is_abs a \<Longrightarrow> is_abs (go_join (a # as))"
proof -
  assume a: "is_abs a"
  then have "a \<noteq> ''''" by (rule is_abs_nonempty)
  then have "go_join (a # as) = go_clean (str_join ''/'' (a # filter (\<lambda>e. e \<noteq> []) as))"
    by (simp add: go_join_def Let_def)
  then show "is_abs (go_join (a # as))" using str_join_is_abs [OF a] by (simp add: go_clean_comps)
qed

lemma config_path_nonempty:
  assumes "is_abs (w_cwd w)" "project \<noteq> ''''"
  shows "config_path_for_project w project \<noteq> ''''"
proof -
  have abs: "is_abs (go_abs (w_cwd w) p)" for p by (rule go_abs_clean_abs(1) [OF assms(1)])
  have "go_abs (w_cwd w) p \<noteq> ''''" for p by (rule is_abs_nonempty [OF abs])
  moreover have "go_join [go_abs (w_cwd w) p, flow_config_filename] \<noteq> ''''" for p
    by (rule is_abs_nonempty [OF go_join_is_abs [OF abs]])
  ultimately show ?thesis using assms(2) by (simp add: config_path_for_project_def Let_def)
qed

section \<open>Properties\<close>

text \<open>
  C20. The configuration of a file is the flow.json of its nearest ancestor directory that has one: the
  search returns an existing candidate with no candidate below it, and returns nothing only when no
  ancestor directory up to the root (or the top of a relative path) has one.
\<close>

theorem nearest_config_is_deepest:
  fixes w :: "'st world"
  assumes "p \<noteq> ''''" and "d = go_dir (clean_windows_path p)"
  shows "(find_nearest_flow_json w p = ''''
        \<and> (\<forall>k. k \<le> length (path_comps d) \<longrightarrow> \<not> w_stat w (ancestor_config (is_abs d) (path_comps d) k)))
    \<or> (\<exists>k. k \<le> length (path_comps d)
          \<and> find_nearest_flow_json w p = ancestor_config (is_abs d) (path_comps d) k
          \<and> w_stat w (ancestor_config (is_abs d) (path_comps d) k)
          \<and> (\<forall>j. k < j \<and> j \<le> length (path_comps d) \<longrightarrow>
                \<not> w_stat w (ancestor_config (is_abs d) (path_comps d) j)))"
proof -
  have norm: "norm_comps (is_abs d) (path_comps d)" by (rule norm_path_comps)
  have d: "d = render (is_abs d) (path_comps d)" using go_dir_rendered assms(2) by simp
  have "find_nearest_flow_json w p = nearest_loop (w_stat w) d ''''"
    using assms(1,2) by (simp add: find_nearest_flow_json_def)
  also have "\<dots> = deepest_config (w_stat w) (is_abs d) (path_comps d)"
    using nearest_loop_deepest [OF norm] render_nonempty [OF norm] d by metis
  finally show ?thesis by (metis deepest_config_cases)
qed

text \<open>A file system with the given files, in which every configuration loads to its own path.\<close>

definition demo_world :: "string list \<Rightarrow> string world" where
  "demo_world files =
     \<lparr>w_cwd = ''/'', w_stat = (\<lambda>p. p \<in> set files), w_read = (\<lambda>p. Inl p), w_load = (\<lambda>p. Inr p),
      w_init = (\<lambda>st n. None), w_watch = (\<lambda>p. True), w_contracts = (\<lambda>d. Inl d)\<rparr>"

theorem nearest_config_is_deepest_witness:
  "find_nearest_flow_json (demo_world [''/a/flow.json'', ''/flow.json'']) ''/a/b/c.cdc'' = ''/a/flow.json''"
proof -
  have d: "''/a/b'' = go_dir (clean_windows_path ''/a/b/c.cdc'')" by code_simp
  have shape: "is_abs ''/a/b'' \<and> path_comps ''/a/b'' = [''a'', ''b'']" by code_simp
  have cands: "ancestor_config True [''a'', ''b''] 0 = ''/flow.json'' \<and>
      ancestor_config True [''a'', ''b''] 1 = ''/a/flow.json'' \<and>
      ancestor_config True [''a'', ''b''] 2 = ''/a/b/flow.json''" by code_simp
  have stat: "w_stat (demo_world [''/a/flow.json'', ''/flow.json'']) p \<longleftrightarrow> p = ''/a/flow.json'' \<or> p = ''/flow.json''"
    for p by (simp add: demo_world_def)
  let ?found = "find_nearest_flow_json (demo_world [''/a/flow.json'', ''/flow.json'']) ''/a/b/c.cdc''"
  have one: "(1::nat) \<le> length [''a'', ''b'']" by simp
  from nearest_config_is_deepest [OF _ d, of "demo_world [''/a/flow.json'', ''/flow.json'']"]
  consider "\<forall>k. k \<le> length [''a'', ''b''] \<longrightarrow> \<not> (ancestor_config True [''a'', ''b''] k \<in> {''/a/flow.json'', ''/flow.json''})"
    | k where "k \<le> 2" "?found = ancestor_config True [''a'', ''b''] k"
        "ancestor_config True [''a'', ''b''] k \<in> {''/a/flow.json'', ''/flow.json''}" "\<not> k < 1"
    using shape cands one by (simp only: stat shape) fastforce
  then show ?thesis
  proof cases
    case 1
    with one cands show ?thesis by blast
  next
    case 2
    then have "k = 1 \<or> k = 2" by linarith
    with 2 cands show ?thesis by auto
  qed
qed

text \<open>
  A path is in a project exactly when the components of its absolute form extend those of the
  directory of the project's configuration: siblings whose name merely starts like the directory's
  (or with two dots) are told apart, and a path is in the root of the file system always.
\<close>

theorem is_path_in_project_iff:
  assumes "is_abs (w_cwd w)"
  shows "is_path_in_project w project path \<longleftrightarrow>
    project \<noteq> '''' \<and> path \<noteq> '''' \<and>
    (\<exists>rest. path_comps (go_abs (w_cwd w) path) =
       path_comps (go_abs (w_cwd w) (go_dir (config_path_for_project w project))) @ rest)"
proof (cases "project = ''''")
  case True
  then show ?thesis by (simp add: is_path_in_project_def config_path_for_project_def)
next
  case False
  note abs = go_abs_clean_abs(1) [OF assms] and clean = go_abs_clean_abs(2) [OF assms]
  show ?thesis
    using config_path_nonempty [OF assms False] False go_rel_inside [OF abs abs clean clean]
    by (simp add: is_path_in_project_def Let_def)
qed

theorem is_path_in_project_iff_witness:
  "is_path_in_project (demo_world []) ''/a/flow.json'' ''/a/..b/c.cdc'' \<and>
   \<not> is_path_in_project (demo_world []) ''/a/flow.json'' ''/ab/c.cdc''"
proof -
  have cwd: "is_abs (w_cwd (demo_world []))" by code_simp
  have root: "path_comps (go_abs (w_cwd (demo_world [])) (go_dir (config_path_for_project (demo_world []) ''/a/flow.json''))) = [''a'']"
    by code_simp
  have files: "path_comps (go_abs (w_cwd (demo_world [])) ''/a/..b/c.cdc'') = [''a'', ''..b'', ''c.cdc''] \<and>
      path_comps (go_abs (w_cwd (demo_world [])) ''/ab/c.cdc'') = [''ab'', ''c.cdc'']" by code_simp
  show ?thesis
    unfolding is_path_in_project_iff [OF cwd, of "''/a/flow.json''" "''/a/..b/c.cdc''"]
      is_path_in_project_iff [OF cwd, of "''/a/flow.json''" "''/ab/c.cdc''"] root
    using files by simp
qed

lemma load_state_keeps_docs: "load_state w cfg m = (r, m') \<Longrightarrow> cm_doc_config m' = cm_doc_config m"
  unfolding load_state_def
  by (auto simp: Let_def ensure_watcher_def split: option.splits prod.splits if_splits)

lemma state_for_config_keeps_docs: "cm_doc_config (snd (state_for_config w cfg m)) = cm_doc_config m"
  unfolding state_for_config_def
  by (auto simp: set_last_used_def split: option.splits prod.splits sum.splits dest: load_state_keeps_docs)

lemma resolve_state_keeps_other_docs:
  "doc \<noteq> path \<Longrightarrow> map_of (cm_doc_config (snd (resolve_state_for_path w m path))) doc = map_of (cm_doc_config m) doc"
  by (auto simp: resolve_state_for_path_def lookup_or_find_config_def Let_def state_for_config_keeps_docs
      update_conv' split: option.splits)

lemma map_of_filter_snd: "map_of xs k = Some v \<Longrightarrow> v \<noteq> c \<Longrightarrow> map_of (filter (\<lambda>x. snd x \<noteq> c) xs) k = Some v"
  by (induction xs) (auto split: if_splits)

lemma invalidate_keeps_others:
  "map_of (cm_doc_config m) doc = Some old \<Longrightarrow> old \<noteq> cfg \<Longrightarrow>
   map_of (cm_doc_config (invalidate_index_for_config cfg m)) doc = Some old"
  by (simp add: invalidate_index_for_config_def map_of_filter_snd)

lemma reload_at_keeps_docs: "cm_doc_config (snd (reload_at w a m)) = cm_doc_config m"
  by (auto simp: reload_at_def split: option.splits prod.splits)

lemma notify_keeps_docs: "cm_doc_config (notify_reload cfg m) = cm_doc_config m"
  by (simp add: notify_reload_def)

lemma reload_client_keeps_docs: "cm_doc_config (reload_client c m) = cm_doc_config m"
  by (simp add: reload_client_def split: option.split)

text \<open>
  A new flow.json is not noticed by documents that were resolved before: the directory's watcher
  drops only the cached answers that point at the new file itself, so a document below it keeps the
  answer of the directory above, although the search would now find the nearer configuration.
\<close>

theorem nearer_config_not_noticed:
  fixes w :: "'st world"
  assumes "cfg = go_join [dir, flow_config_filename]" "doc \<noteq> cfg"
    and cached: "map_of (cm_doc_config m) doc = Some old" and "old \<noteq> cfg"
    and "find_nearest_flow_json w doc = cfg"
  shows "fst (lookup_or_find_config w (dir_fire w dir m) doc) = old \<and>
         nearest_config_path w doc \<noteq> fst (lookup_or_find_config w (dir_fire w dir m) doc)"
proof -
  have "map_of (cm_doc_config (dir_fire w dir m)) doc = Some old"
    using assms(2-4) resolve_state_keeps_other_docs [OF assms(2), of w m]
    by (simp add: dir_fire_def Let_def assms(1) [symmetric] invalidate_keeps_others notify_keeps_docs
        reload_at_keeps_docs reload_client_keeps_docs split: option.split)
  then show ?thesis
    using assms(4,5) by (simp add: lookup_or_find_config_def nearest_config_path_def)
qed

text \<open>A document is opened below one configuration; then a nearer one appears.\<close>

definition resolved_manager :: "string manager" where
  "resolved_manager =
     snd (resolve_state_for_path (demo_world [''/flow.json'']) (new_config_manager False 0 '''') ''/a/c.cdc'')"

theorem nearer_config_not_noticed_witness:
  "fst (lookup_or_find_config (demo_world [''/flow.json'', ''/a/flow.json''])
     (dir_fire (demo_world [''/flow.json'', ''/a/flow.json'']) ''/a'' resolved_manager) ''/a/c.cdc'') = ''/flow.json''"
proof -
  have cfg: "''/a/flow.json'' = go_join [''/a'', flow_config_filename]" by code_simp
  have cached: "map_of (cm_doc_config resolved_manager) ''/a/c.cdc'' = Some ''/flow.json''" by code_simp
  have near: "find_nearest_flow_json (demo_world [''/flow.json'', ''/a/flow.json'']) ''/a/c.cdc'' = ''/a/flow.json''"
    by code_simp
  show ?thesis using nearer_config_not_noticed [OF cfg _ cached _ near] by simp
qed

text \<open>
  The watcher of a configuration with another name takes an event of the flow.json beside it for a
  rename of its own file: it moves the state to the key of flow.json, so files of the project
  resolve to the state loaded from the other configuration, also after the reload that follows.
\<close>

theorem sibling_config_hijacked:
  fixes w :: "'st world"
  assumes own: "map_of (cm_states m) cfg = Some a" "map_of (cm_heap m) a = Some st"
      "fs_config st = cfg" "state_is_loaded st"
    and event: "go_dir name = go_dir cfg" "go_base name = flow_config_filename" "name \<noteq> cfg"
    and sibling: "config_path_for_project w p = sib" "p \<noteq> ''''" "sib = go_join [go_dir cfg, flow_config_filename]" "sib \<noteq> cfg"
    and moved: "watch_event cfg name m = (cfg', armed, m1)" and reload: "w_load w cfg = Inr s"
  shows "cfg' = sib \<and> armed \<and>
    fst (resolve_state_for_project w m1 p) = Inr (Some a) \<and>
    fst (resolve_state_for_project w (watch_fire w sib m1) p) = Inr (Some a) \<and>
    map_of (cm_heap (watch_fire w sib m1)) a = Some \<lparr>fs_loaded = Some s, fs_config = cfg\<rparr>"
proof -
  have m1: "map_of (cm_states m1) sib = Some a" "cm_heap m1 = cm_heap m" and out: "cfg' = sib" "armed"
    using moved own(1) event sibling(3,4)
    by (auto simp: watch_event_def Let_def update_conv' split: option.splits)
  have loaded: "state_is_loaded \<lparr>fs_loaded = Some s, fs_config = cfg\<rparr>"
    using own(3,4) by (simp add: state_is_loaded_def)
  have re: "reload_at w a m1 = (None, m1\<lparr>cm_heap := AList.update a \<lparr>fs_loaded = Some s, fs_config = cfg\<rparr> (cm_heap m)\<rparr>)"
    using own m1 reload by (cases st) (simp add: reload_at_def state_reload_def state_load_def)
  have fired: "map_of (cm_states (watch_fire w sib m1)) sib = Some a"
    "map_of (cm_heap (watch_fire w sib m1)) a = Some \<lparr>fs_loaded = Some s, fs_config = cfg\<rparr>"
    using m1 by (simp_all add: watch_fire_def Let_def re invalidate_index_for_config_def reload_client_def
        notify_reload_def update_conv' split: option.split)
  have "fst (resolve_state_for_project w x p) = Inr (Some a)"
    if "map_of (cm_states x) sib = Some a" "map_of (cm_heap x) a = Some t" "state_is_loaded t" for x t
    using that sibling(1,2)
    by (simp add: resolve_state_for_project_def state_for_config_def loaded_state_at_def state_at_def)
  from this [OF m1(1), of st] this [OF fired loaded] own m1 out fired show ?thesis by simp
qed

text \<open>A project whose own configuration is \<open>flow.testnet.json\<close>; an editor then saves flow.json.\<close>

definition testnet_manager :: "string manager" where
  "testnet_manager =
     snd (resolve_state_for_project (demo_world [''/p/flow.testnet.json'', ''/p/flow.json''])
       (new_config_manager False 0 '''') ''/p/flow.testnet.json'')"

theorem sibling_config_hijacked_witness:
  "fst (resolve_state_for_project (demo_world [''/p/flow.testnet.json'', ''/p/flow.json''])
     (snd (snd (watch_event ''/p/flow.testnet.json'' ''/p/flow.json'' testnet_manager))) ''/p/flow.json'') = Inr (Some 0) \<and>
   map_option fs_config (map_of (cm_heap testnet_manager) 0) = Some ''/p/flow.testnet.json''"
proof -
  let ?w = "demo_world [''/p/flow.testnet.json'', ''/p/flow.json'']"
  let ?st = "\<lparr>fs_loaded = Some ''/p/flow.testnet.json'', fs_config = ''/p/flow.testnet.json''\<rparr>"
  have own: "map_of (cm_states testnet_manager) ''/p/flow.testnet.json'' = Some 0"
    "map_of (cm_heap testnet_manager) 0 = Some ?st" by code_simp+
  have event: "go_dir ''/p/flow.json'' = go_dir ''/p/flow.testnet.json''"
    "go_base ''/p/flow.json'' = flow_config_filename"
    "config_path_for_project ?w ''/p/flow.json'' = ''/p/flow.json''"
    "''/p/flow.json'' = go_join [go_dir ''/p/flow.testnet.json'', flow_config_filename]" by code_simp+
  obtain c armed m1 where moved: "watch_event ''/p/flow.testnet.json'' ''/p/flow.json'' testnet_manager = (c, armed, m1)"
    by (metis prod_cases3)
  have "fst (resolve_state_for_project ?w m1 ''/p/flow.json'') = Inr (Some 0)"
    using sibling_config_hijacked [OF own _ _ event(1,2) _ event(3) _ event(4) _ moved, of "''/p/flow.testnet.json''"]
    by (simp add: state_is_loaded_def demo_world_def)
  then show ?thesis using moved own(2) by simp
qed

end
