(* ===== verification/FlowClient.thy ===== *)
theory FlowClient
  imports ConfigManager
begin

text \<open>
  The Flow client (src/languageserver/integration/flow.go): the accounts it manages on the emulator,
  the active account, and the operations the commands use. The accounts are shared by pointer
  between the list and the field of the active account, so the active account is a position in the
  list. Flowkit and the emulator are the parameters of a \<open>chain\<close>: the state of the emulator is
  threaded through the calls that change it. \<open>None\<close> is a run-time panic.
\<close>

section \<open>State\<close>

type_synonym flow_address = u64

datatype flow_error =
    FlowkitError string
  | AccountCountError
  | AccountLimitReached
  | AccountNameNotFound string
  | AddressNotFound flow_address
  | FileError string
  | NoRelativePath

record 'k client_account =
  acct_address :: flow_address
  acct_name :: string
  acct_active :: bool
  acct_key :: "'k option"

record ('st, 'k) flow_client =
  fl_state :: "'st option"
  fl_config :: string
  fl_accounts :: "'k client_account list"
  fl_active :: "nat option"

text \<open>An account of the configuration: name, address and key.\<close>

record 'k config_account =
  cfa_name :: string
  cfa_address :: flow_address
  cfa_key :: 'k

text \<open>A signer is an account with the key that signs and the name flowkit sees.\<close>

record 'k signer =
  sg_address :: flow_address
  sg_key :: 'k
  sg_name :: string

record 'k script =
  sc_code :: string
  sc_args :: "string list"
  sc_location :: string

record ('st, 'k, 'ch) chain =
  ch_service :: "'st \<Rightarrow> (string, 'k) result"
  ch_private_key :: "'k \<Rightarrow> (string, unit) result"
  ch_accounts :: "'st \<Rightarrow> 'k config_account list"
  ch_create :: "'ch \<Rightarrow> (string, flow_address) result \<times> 'ch"
  ch_get :: "'ch \<Rightarrow> flow_address \<Rightarrow> (string, (string, string) gomap) result"
  ch_execute :: "'k script \<Rightarrow> 'ch \<Rightarrow> (string, string) result"
  ch_send :: "'k \<Rightarrow> 'k signer list \<Rightarrow> 'k script \<Rightarrow> 'ch \<Rightarrow> (string, string \<times> string \<times> string) result \<times> 'ch"
  ch_deploy :: "'k signer \<Rightarrow> 'k script \<Rightarrow> 'ch \<Rightarrow> string option \<times> 'ch"
  ch_add_signer :: "'k signer \<Rightarrow> 'st \<Rightarrow> 'st"
  ch_read :: "string \<Rightarrow> (string, string) result"
  ch_cwd :: string

definition account_names :: "string list" where
  "account_names =
     [''Alice'', ''Bob'', ''Charlie'', ''Dave'', ''Eve'', ''Faythe'', ''Grace'', ''Heidi'', ''Ivan'', ''Judy'',
      ''Michael'', ''Niaj'', ''Olivia'', ''Oscar'', ''Peggy'', ''Rupert'', ''Sybil'', ''Ted'', ''Victor'', ''Walter'']"

definition new_flowkit_client :: "('st, 'k) flow_client" where
  "new_flowkit_client = \<lparr>fl_state = None, fl_config = '''', fl_accounts = [], fl_active = None\<rparr>"

section \<open>Accounts\<close>

text \<open>The loop returns the first account of the name.\<close>

fun account_loop :: "'k client_account list \<Rightarrow> string \<Rightarrow> nat \<Rightarrow> nat option" where
  "account_loop [] name i = None"
| "account_loop (a # as) name i = (if acct_name a = name then Some i else account_loop as name (Suc i))"

definition get_client_account :: "('st, 'k) flow_client \<Rightarrow> string \<Rightarrow> nat option" where
  "get_client_account f name = account_loop (fl_accounts f) name 0"

definition get_client_accounts :: "('st, 'k) flow_client \<Rightarrow> 'k client_account list" where
  "get_client_accounts f = fl_accounts f"

definition get_active_client_account :: "('st, 'k) flow_client \<Rightarrow> nat option" where
  "get_active_client_account f = fl_active f"

text \<open>Writing through the pointer to an account.\<close>

definition set_active_flag :: "nat \<Rightarrow> bool \<Rightarrow> ('st, 'k) flow_client \<Rightarrow> ('st, 'k) flow_client" where
  "set_active_flag i b f =
     (if i < length (fl_accounts f)
      then f\<lparr>fl_accounts := (fl_accounts f)[i := (fl_accounts f ! i)\<lparr>acct_active := b\<rparr>]\<rparr> else f)"

definition set_active_client_account ::
    "('st, 'k) flow_client \<Rightarrow> string \<Rightarrow> flow_error option \<times> ('st, 'k) flow_client" where
  "set_active_client_account f name =
     (let f1 = (case get_active_client_account f of None \<Rightarrow> f | Some i \<Rightarrow> set_active_flag i False f)
      in case get_client_account f1 name of
           None \<Rightarrow> (Some (AccountNameNotFound name), f1)
         | Some j \<Rightarrow> (None, (set_active_flag j True f1)\<lparr>fl_active := Some j\<rparr>))"

text \<open>A state that is not set is a nil interface: calling it panics.\<close>

definition create_account ::
    "('st, 'k, 'ch) chain \<Rightarrow> 'ch \<Rightarrow> ('st, 'k) flow_client \<Rightarrow>
     ((flow_error, 'k client_account) result \<times> 'ch \<times> ('st, 'k) flow_client) option" where
  "create_account c ch f =
     (case fl_state f of
        None \<Rightarrow> None
      | Some st \<Rightarrow>
          (case ch_service c st of
             Inl e \<Rightarrow> Some (Inl (FlowkitError e), ch, f)
           | Inr key \<Rightarrow>
               (case ch_private_key c key of
                  Inl e \<Rightarrow> Some (Inl (FlowkitError e), ch, f)
                | Inr _ \<Rightarrow>
                    (case ch_create c ch of
                       (Inl e, ch1) \<Rightarrow> Some (Inl (FlowkitError e), ch1, f)
                     | (Inr addr, ch1) \<Rightarrow>
                         (let n = length (get_client_accounts f)
                          in if n > length account_names then Some (Inl AccountLimitReached, ch1, f)
                             else if n = length account_names then None
                             else let a = \<lparr>acct_address = addr, acct_name = account_names ! n,
                                           acct_active = False, acct_key = None\<rparr>
                                  in Some (Inr a, ch1, f\<lparr>fl_accounts := fl_accounts f @ [a]\<rparr>))))))"

text \<open>Accounts of the configuration that exist on the chain.\<close>

fun state_accounts_loop ::
    "('st, 'k, 'ch) chain \<Rightarrow> 'ch \<Rightarrow> 'k config_account list \<Rightarrow> 'k client_account list" where
  "state_accounts_loop c ch [] = []"
| "state_accounts_loop c ch (a # as) =
     (case ch_get c ch (cfa_address a) of
        Inl e \<Rightarrow> state_accounts_loop c ch as
      | Inr _ \<Rightarrow> \<lparr>acct_address = cfa_address a, acct_name = cfa_name a @ '' [flow.json]'',
                  acct_active = False, acct_key = Some (cfa_key a)\<rparr> # state_accounts_loop c ch as)"

definition accounts_from_state :: "('st, 'k, 'ch) chain \<Rightarrow> 'ch \<Rightarrow> 'st \<Rightarrow> 'k client_account list" where
  "accounts_from_state c ch st = state_accounts_loop c ch (ch_accounts c st)"

text \<open>The loop of \<^verbatim>\<open>Initialize\<close> that creates the base accounts.\<close>

fun create_loop ::
    "('st, 'k, 'ch) chain \<Rightarrow> nat \<Rightarrow> 'ch \<Rightarrow> ('st, 'k) flow_client \<Rightarrow>
     (flow_error option \<times> 'ch \<times> ('st, 'k) flow_client) option" where
  "create_loop c 0 ch f = Some (None, ch, f)"
| "create_loop c (Suc n) ch f =
     (case create_account c ch f of
        None \<Rightarrow> None
      | Some (Inl e, ch1, f1) \<Rightarrow> Some (Some e, ch1, f1)
      | Some (Inr a, ch1, f1) \<Rightarrow> create_loop c n ch1 f1)"

definition client_initialize ::
    "('st, 'k, 'ch) chain \<Rightarrow> 'ch \<Rightarrow> ('st, 'k) flow_client \<Rightarrow> 'st \<Rightarrow> string \<Rightarrow> int \<Rightarrow>
     (flow_error option \<times> 'ch \<times> ('st, 'k) flow_client) option" where
  "client_initialize c ch f st cfg n =
     (let f1 = f\<lparr>fl_state := Some st, fl_config := cfg\<rparr>
      in case ch_service c st of
           Inl e \<Rightarrow> Some (Some (FlowkitError e), ch, f1)
         | Inr _ \<Rightarrow>
             (if n > int (length account_names) \<or> n \<le> 0 then Some (Some AccountCountError, ch, f1)
              else case create_loop c (nat n) ch (f1\<lparr>fl_accounts := []\<rparr>) of
                None \<Rightarrow> None
              | Some (Some e, ch2, f2) \<Rightarrow> Some (Some e, ch2, f2)
              | Some (None, ch2, f2) \<Rightarrow>
                  (let f3 = f2\<lparr>fl_accounts := fl_accounts f2 @ accounts_from_state c ch2 st\<rparr>
                   in if fl_accounts f3 = [] then None
                      else Some (None, ch2, (set_active_flag 0 True f3)\<lparr>fl_active := Some 0\<rparr>))))"

section \<open>Signers\<close>

text \<open>The loop does not stop at the first account: the last one with the address is used.\<close>

fun signer_loop :: "'k client_account list \<Rightarrow> flow_address \<Rightarrow> 'k client_account option \<Rightarrow> 'k client_account option" where
  "signer_loop [] addr found = found"
| "signer_loop (a # as) addr found = signer_loop as addr (if acct_address a = addr then Some a else found)"

definition create_signer ::
    "('st, 'k, 'ch) chain \<Rightarrow> ('st, 'k) flow_client \<Rightarrow> flow_address \<Rightarrow> (flow_error, 'k signer) result option" where
  "create_signer c f addr =
     (case signer_loop (fl_accounts f) addr None of
        None \<Rightarrow> Some (Inl (AddressNotFound addr))
      | Some a \<Rightarrow>
          (case acct_key a of
             Some k \<Rightarrow> Some (Inr \<lparr>sg_address = addr, sg_key = k, sg_name = acct_name a @ '' [LS]''\<rparr>)
           | None \<Rightarrow>
               (case fl_state f of
                  None \<Rightarrow> None
                | Some st \<Rightarrow>
                    (case ch_service c st of
                       Inl e \<Rightarrow> Some (Inl (FlowkitError e))
                     | Inr k \<Rightarrow> Some (Inr \<lparr>sg_address = addr, sg_key = k, sg_name = acct_name a @ '' [LS]''\<rparr>)))))"

fun signers_loop ::
    "('st, 'k, 'ch) chain \<Rightarrow> ('st, 'k) flow_client \<Rightarrow> flow_address list \<Rightarrow> 'k signer list \<Rightarrow>
     (flow_error, 'k signer list) result option" where
  "signers_loop c f [] acc = Some (Inr acc)"
| "signers_loop c f (a # as) acc =
     (case create_signer c f a of
        None \<Rightarrow> None
      | Some (Inl e) \<Rightarrow> Some (Inl e)
      | Some (Inr s) \<Rightarrow> signers_loop c f as (acc @ [s]))"

section \<open>File names\<close>

definition resolve_filename :: "string \<Rightarrow> string \<Rightarrow> string \<Rightarrow> string option" where
  "resolve_filename cwd cfg path =
     (if go_dir cfg = ''.'' then go_rel cwd path else go_rel (go_dir cfg) path)"

definition compute_code_filename :: "string \<Rightarrow> string \<Rightarrow> string \<Rightarrow> string option" where
  "compute_code_filename cwd cfg path =
     (case resolve_filename cwd cfg path of None \<Rightarrow> None | Some rel \<Rightarrow> Some (go_join [go_dir cfg, rel]))"

section \<open>Scripts, transactions, deployments\<close>

definition execute_script ::
    "('st, 'k, 'ch) chain \<Rightarrow> 'ch \<Rightarrow> ('st, 'k) flow_client \<Rightarrow> string \<Rightarrow> string list \<Rightarrow> (flow_error, string) result" where
  "execute_script c ch f path args =
     (case ch_read c path of
        Inl e \<Rightarrow> Inl (FileError e)
      | Inr code \<Rightarrow>
          (case compute_code_filename (ch_cwd c) (fl_config f) path of
             None \<Rightarrow> Inl NoRelativePath
           | Some loc \<Rightarrow>
               (case ch_execute c \<lparr>sc_code = code, sc_args = args, sc_location = loc\<rparr> ch of
                  Inl e \<Rightarrow> Inl (FlowkitError e) | Inr v \<Rightarrow> Inr v)))"

definition deploy_contract ::
    "('st, 'k, 'ch) chain \<Rightarrow> 'ch \<Rightarrow> ('st, 'k) flow_client \<Rightarrow> flow_address \<Rightarrow> string \<Rightarrow>
     (flow_error option \<times> 'ch \<times> ('st, 'k) flow_client) option" where
  "deploy_contract c ch f addr path =
     (case ch_read c path of
        Inl e \<Rightarrow> Some (Some (FileError e), ch, f)
      | Inr code \<Rightarrow>
          (case compute_code_filename (ch_cwd c) (fl_config f) path of
             None \<Rightarrow> Some (Some NoRelativePath, ch, f)
           | Some loc \<Rightarrow>
               (case create_signer c f addr of
                  None \<Rightarrow> None
                | Some (Inl e) \<Rightarrow> Some (Some e, ch, f)
                | Some (Inr s) \<Rightarrow>
                    (case fl_state f of
                       None \<Rightarrow> None
                     | Some st \<Rightarrow>
                         (case ch_deploy c s \<lparr>sc_code = code, sc_args = [], sc_location = loc\<rparr> ch of
                            (err, ch1) \<Rightarrow>
                              Some (map_option FlowkitError err, ch1, f\<lparr>fl_state := Some (ch_add_signer c s st)\<rparr>))))))"

text \<open>The proposer and the payer are the service account.\<close>

definition send_transaction ::
    "('st, 'k, 'ch) chain \<Rightarrow> 'ch \<Rightarrow> ('st, 'k) flow_client \<Rightarrow> flow_address list \<Rightarrow> string \<Rightarrow> string list \<Rightarrow>
     ((flow_error, string \<times> string \<times> string) result \<times> 'ch) option" where
  "send_transaction c ch f auths path args =
     (case ch_read c path of
        Inl e \<Rightarrow> Some (Inl (FileError e), ch)
      | Inr code \<Rightarrow>
          (case fl_state f of
             None \<Rightarrow> None
           | Some st \<Rightarrow>
               (case ch_service c st of
                  Inl e \<Rightarrow> Some (Inl (FlowkitError e), ch)
                | Inr key \<Rightarrow>
                    (case compute_code_filename (ch_cwd c) (fl_config f) path of
                       None \<Rightarrow> Some (Inl NoRelativePath, ch)
                     | Some loc \<Rightarrow>
                         (case signers_loop c f auths [] of
                            None \<Rightarrow> None
                          | Some (Inl e) \<Rightarrow> Some (Inl e, ch)
                          | Some (Inr ss) \<Rightarrow>
                              (case ch_send c key ss \<lparr>sc_code = code, sc_args = args, sc_location = loc\<rparr> ch of
                                 (Inl e, ch1) \<Rightarrow> Some (Inl (FlowkitError e), ch1)
                               | (Inr r, ch1) \<Rightarrow> Some (Inr r, ch1)))))))"

definition get_account ::
    "('st, 'k, 'ch) chain \<Rightarrow> 'ch \<Rightarrow> flow_address \<Rightarrow> (string, (string, string) gomap) result" where
  "get_account c ch addr = ch_get c ch addr"

text \<open>\<open>load\<close> is flowkit's loader; the state object is that of the configuration manager.\<close>

definition client_reload ::
    "(string \<Rightarrow> (string, 'st) result) \<Rightarrow> ('st, 'k) flow_client \<Rightarrow> flow_error option \<times> ('st, 'k) flow_client" where
  "client_reload load f =
     (case load (fl_config f) of
        Inl e \<Rightarrow> (Some (FlowkitError e), f)
      | Inr st \<Rightarrow> (None, f\<lparr>fl_state := Some st\<rparr>))"

section \<open>The account list\<close>

lemma account_loop_Some:
  "account_loop as name i = Some j \<Longrightarrow>
   i \<le> j \<and> j - i < length as \<and> acct_name (as ! (j - i)) = name \<and> (\<forall>k < j - i. acct_name (as ! k) \<noteq> name)"
proof (induction as arbitrary: i)
  case (Cons a as)
  show ?case
  proof (cases "acct_name a = name")
    case True
    with Cons.prems show ?thesis by simp
  next
    case False
    with Cons have "Suc i \<le> j \<and> j - Suc i < length as \<and> acct_name (as ! (j - Suc i)) = name \<and>
        (\<forall>k < j - Suc i. acct_name (as ! k) \<noteq> name)" by simp
    moreover from calculation have "j - i = Suc (j - Suc i)" by linarith
    ultimately show ?thesis using False by (auto simp: less_Suc_eq_0_disj)
  qed
qed simp

lemma account_loop_None: "account_loop as name i = None \<longleftrightarrow> name \<notin> acct_name ` set as"
  by (induction as arbitrary: i) auto

lemma signer_loop_last:
  "signer_loop as addr found =
     (case filter (\<lambda>a. acct_address a = addr) (rev as) of [] \<Rightarrow> found | a # _ \<Rightarrow> Some a)"
  by (induction as arbitrary: found) (auto split: list.split)

section \<open>Reachable clients\<close>

text \<open>Steps of a client that has been initialized; a call that returns an error is a step as well.\<close>

inductive client_step ::
    "('st, 'k, 'ch) chain \<Rightarrow> 'ch \<times> ('st, 'k) flow_client \<Rightarrow> 'ch \<times> ('st, 'k) flow_client \<Rightarrow> bool"
  for c where
  cs_create: "create_account c ch f = Some (r, ch', f') \<Longrightarrow> client_step c (ch, f) (ch', f')"
| cs_switch: "set_active_client_account f name = (r, f') \<Longrightarrow> client_step c (ch, f) (ch, f')"
| cs_deploy: "deploy_contract c ch f addr path = Some (r, ch', f') \<Longrightarrow> client_step c (ch, f) (ch', f')"
| cs_send: "send_transaction c ch f auths path args = Some (r, ch') \<Longrightarrow> client_step c (ch, f) (ch', f)"
| cs_reload: "client_reload load f = (r, f') \<Longrightarrow> client_step c (ch, f) (ch, f')"

inductive client_reachable ::
    "('st, 'k, 'ch) chain \<Rightarrow> 'st \<Rightarrow> 'ch \<times> ('st, 'k) flow_client \<Rightarrow> bool"
  for c st where
  cr_init: "client_initialize c ch new_flowkit_client st cfg n = Some (None, ch', f) \<Longrightarrow>
    client_reachable c st (ch', f)"
| cr_step: "client_reachable c st x \<Longrightarrow> client_step c x y \<Longrightarrow> client_reachable c st y"

text \<open>The accounts made by the client are named by their position, those of the configuration after it.\<close>

definition named_at :: "'st \<Rightarrow> ('st, 'k, 'ch) chain \<Rightarrow> nat \<Rightarrow> 'k client_account \<Rightarrow> bool" where
  "named_at st c i a \<longleftrightarrow>
     (if acct_key a = None then i < length account_names \<and> acct_name a = account_names ! i
      else \<exists>x \<in> set (ch_accounts c st). acct_name a = cfa_name x @ '' [flow.json]'')"

definition accounts_named :: "'st \<Rightarrow> ('st, 'k, 'ch) chain \<Rightarrow> 'k client_account list \<Rightarrow> bool" where
  "accounts_named st c as \<longleftrightarrow>
     distinct (map acct_name as) \<and> (\<forall>i < length as. named_at st c i (as ! i))"

definition active_flag :: "('st, 'k) flow_client \<Rightarrow> bool" where
  "active_flag f \<longleftrightarrow> (\<exists>j < length (fl_accounts f). fl_active f = Some j) \<and>
     (\<forall>i < length (fl_accounts f). acct_active (fl_accounts f ! i) \<longrightarrow> fl_active f = Some i)"

definition client_inv :: "'st \<Rightarrow> ('st, 'k, 'ch) chain \<Rightarrow> ('st, 'k) flow_client \<Rightarrow> bool" where
  "client_inv st c f \<longleftrightarrow> accounts_named st c (fl_accounts f) \<and> active_flag f"

lemma account_names_facts:
  "length account_names = 20" "distinct account_names" "\<forall>x \<in> set account_names. CHR ''['' \<notin> set x"
  by (simp_all add: account_names_def)

lemma named_at_own: "named_at st c i a \<Longrightarrow> acct_key a = None \<Longrightarrow> i < length account_names \<and> acct_name a = account_names ! i"
  by (simp add: named_at_def)

lemma named_at_bracket:
  assumes "named_at st c i a" shows "CHR ''['' \<in> set (acct_name a) \<longleftrightarrow> acct_key a \<noteq> None"
proof (cases "acct_key a = None")
  case True
  with named_at_own [OF assms] have "acct_name a \<in> set account_names" by simp
  with True account_names_facts(3) show ?thesis by blast
next
  case False
  with assms obtain x where "acct_name a = x @ '' [flow.json]''" by (auto simp: named_at_def)
  with False show ?thesis by simp
qed

lemma accounts_named_snoc:
  assumes "accounts_named st c as" and "named_at st c (length as) a" "acct_key a = None"
  shows "accounts_named st c (as @ [a])"
proof -
  have "acct_name (as ! i) \<noteq> acct_name a" if i: "i < length as" for i
  proof (cases "acct_key (as ! i) = None")
    case True
    then have "acct_name (as ! i) = account_names ! i"
      using assms(1) i named_at_own unfolding accounts_named_def by metis
    moreover have "account_names ! i \<noteq> account_names ! length as"
      using i named_at_own [OF assms(2,3)] account_names_facts(2) by (simp add: nth_eq_iff_index_eq)
    ultimately show ?thesis using named_at_own [OF assms(2,3)] by simp
  next
    case False
    then show ?thesis using assms i named_at_bracket unfolding accounts_named_def by metis
  qed
  then have "acct_name a \<notin> acct_name ` set as" by (metis image_iff in_set_conv_nth)
  with assms show ?thesis by (auto simp: accounts_named_def nth_append less_Suc_eq)
qed

lemma state_accounts_loop_named:
  "state_accounts_loop c ch as =
     map (\<lambda>a. \<lparr>acct_address = cfa_address a, acct_name = cfa_name a @ '' [flow.json]'', acct_active = False,
            acct_key = Some (cfa_key a)\<rparr>)
       (filter (\<lambda>a. is_ok (ch_get c ch (cfa_address a))) as)"
  by (induction as) (auto split: sum.split)

lemma accounts_named_append:
  assumes "accounts_named st c as" and "distinct (map cfa_name (ch_accounts c st))"
    and own: "\<forall>a \<in> set as. acct_key a = None"
  shows "accounts_named st c (as @ accounts_from_state c ch st)"
proof -
  let ?new = "accounts_from_state c ch st"
  have names: "map acct_name ?new = map (\<lambda>a. cfa_name a @ '' [flow.json]'')
      (filter (\<lambda>a. is_ok (ch_get c ch (cfa_address a))) (ch_accounts c st))"
    by (simp add: accounts_from_state_def state_accounts_loop_named comp_def)
  have d: "distinct (map acct_name ?new)"
    unfolding names using assms(2) by (auto simp: distinct_map inj_on_def)
  have new: "acct_key y \<noteq> None \<and> named_at st c i y" if "y \<in> set ?new" for y i
    using that by (auto simp: named_at_def accounts_from_state_def state_accounts_loop_named)
  have at: "\<forall>i < length as. named_at st c i (as ! i)" using assms(1) by (simp add: accounts_named_def)
  have "acct_name x \<noteq> acct_name y" if "x \<in> set as" "y \<in> set ?new" for x y
    using own that at new [OF that(2)] named_at_bracket by (metis in_set_conv_nth)
  then have "acct_name ` set as \<inter> acct_name ` set ?new = {}" by blast
  then have "distinct (map acct_name (as @ ?new))" using assms(1) d by (simp add: accounts_named_def)
  moreover have "named_at st c i ((as @ ?new) ! i)" if "i < length (as @ ?new)" for i
    using that at new by (cases "i < length as") (auto simp: nth_append)
  ultimately show ?thesis unfolding accounts_named_def by blast
qed

definition own_idle :: "'k client_account list \<Rightarrow> bool" where
  "own_idle as \<longleftrightarrow> (\<forall>a \<in> set as. acct_key a = None \<and> \<not> acct_active a)"

lemma create_account_new:
  assumes "create_account c ch f = Some (Inr a, ch', f')"
  shows "f' = f\<lparr>fl_accounts := fl_accounts f @ [a]\<rparr> \<and> named_at st c (length (fl_accounts f)) a \<and>
    acct_key a = None \<and> \<not> acct_active a"
  using assms by (auto simp: create_account_def get_client_accounts_def Let_def named_at_def
      split: option.splits sum.splits prod.splits if_splits)

lemma create_loop_accounts:
  "create_loop c n ch f = Some (None, ch', f') \<Longrightarrow> accounts_named st c (fl_accounts f) \<Longrightarrow> own_idle (fl_accounts f) \<Longrightarrow>
   accounts_named st c (fl_accounts f') \<and> own_idle (fl_accounts f') \<and>
   length (fl_accounts f') = length (fl_accounts f) + n"
proof (induction n arbitrary: ch f)
  case (Suc n)
  then obtain a ch1 f1 where one: "create_account c ch f = Some (Inr a, ch1, f1)"
    and rest: "create_loop c n ch1 f1 = Some (None, ch', f')"
    by (auto split: option.splits prod.splits sum.splits)
  note new = create_account_new [OF one, of st]
  have "accounts_named st c (fl_accounts f1)"
    using new accounts_named_snoc [OF Suc.prems(2)] by simp
  moreover have "own_idle (fl_accounts f1)" using new Suc.prems(3) by (simp add: own_idle_def)
  ultimately show ?case using Suc.IH [OF rest] new by simp
qed simp

text \<open>Changing flags does not change names.\<close>

lemma accounts_named_flag:
  assumes "accounts_named st c as" "i < length as"
  shows "accounts_named st c (as[i := (as ! i)\<lparr>acct_active := b\<rparr>])"
proof -
  have "map acct_name (as[i := (as ! i)\<lparr>acct_active := b\<rparr>]) = map acct_name as"
    using assms(2) by (simp add: map_update list_update_same_conv)
  moreover have "named_at st c j (as[i := (as ! i)\<lparr>acct_active := b\<rparr>] ! j)" if "j < length as" for j
    using assms that by (cases "j = i") (auto simp: accounts_named_def named_at_def)
  ultimately show ?thesis using assms(1) by (simp add: accounts_named_def)
qed

lemma set_active_flag_named:
  "accounts_named st c (fl_accounts f) \<Longrightarrow> accounts_named st c (fl_accounts (set_active_flag i b f))"
  by (simp add: set_active_flag_def accounts_named_flag)

lemma set_active_flag_fields [simp]:
  "length (fl_accounts (set_active_flag i b f)) = length (fl_accounts f)"
  "fl_active (set_active_flag i b f) = fl_active f"
  "k < length (fl_accounts f) \<Longrightarrow> acct_active (fl_accounts (set_active_flag i b f) ! k) =
     (if k = i then b else acct_active (fl_accounts f ! k))"
  by (auto simp: set_active_flag_def)

lemma client_inv_initialize:
  assumes "client_initialize c ch f st cfg n = Some (None, ch', f')"
    and "distinct (map cfa_name (ch_accounts c st))"
  shows "client_inv st c f'"
proof -
  let ?f1 = "f\<lparr>fl_state := Some st, fl_config := cfg, fl_accounts := []\<rparr>"
  obtain ch2 f2 where n: "0 < n" and loop: "create_loop c (nat n) ch ?f1 = Some (None, ch2, f2)"
    and f': "f' = (set_active_flag 0 True (f2\<lparr>fl_accounts := fl_accounts f2 @ accounts_from_state c ch2 st\<rparr>))\<lparr>fl_active := Some 0\<rparr>"
    using assms(1) by (auto simp: client_initialize_def Let_def split: sum.splits if_splits option.splits)
  have "accounts_named st c (fl_accounts ?f1)" "own_idle (fl_accounts ?f1)"
    by (simp_all add: accounts_named_def own_idle_def)
  from create_loop_accounts [OF loop this] have two: "accounts_named st c (fl_accounts f2)"
    and idle: "own_idle (fl_accounts f2)" and len: "0 < length (fl_accounts f2)" using n by auto
  let ?as = "fl_accounts f2 @ accounts_from_state c ch2 st"
  have "accounts_named st c ?as"
    using accounts_named_append [OF two assms(2)] idle by (simp add: own_idle_def)
  then have "accounts_named st c (fl_accounts f')" by (simp add: f' set_active_flag_named)
  moreover have "\<not> acct_active (?as ! i)" if "i < length ?as" for i
  proof -
    have "\<forall>a \<in> set ?as. \<not> acct_active a"
      using idle by (auto simp: own_idle_def accounts_from_state_def state_accounts_loop_named)
    with that show ?thesis by (meson nth_mem)
  qed
  then have "active_flag f'" using len by (auto simp: f' active_flag_def)
  ultimately show ?thesis by (simp add: client_inv_def)
qed

lemma active_flag_switch:
  assumes "active_flag f" and "set_active_client_account f name = (r, f')"
  shows "active_flag f'"
proof -
  obtain j where j: "j < length (fl_accounts f)" "fl_active f = Some j"
    and only: "\<forall>i < length (fl_accounts f). acct_active (fl_accounts f ! i) \<longrightarrow> i = j"
    using assms(1) by (auto simp: active_flag_def)
  let ?g = "set_active_flag j False f"
  have f': "f' = (case get_client_account ?g name of None \<Rightarrow> ?g
      | Some k \<Rightarrow> (set_active_flag k True ?g)\<lparr>fl_active := Some k\<rparr>)"
    using assms(2) j(2) by (auto simp: set_active_client_account_def get_active_client_account_def Let_def
        split: option.splits)
  have off: "\<not> acct_active (fl_accounts ?g ! i)" if "i < length (fl_accounts f)" for i
    using only that by auto
  show ?thesis
  proof (cases "get_client_account ?g name")
    case None
    with f' j off show ?thesis by (auto simp: active_flag_def)
  next
    case (Some k)
    then have "k < length (fl_accounts f)"
      using account_loop_Some [of "fl_accounts ?g" name 0 k] by (simp add: get_client_account_def)
    with f' Some off show ?thesis by (auto simp: active_flag_def)
  qed
qed

lemma client_inv_step:
  assumes "client_step c (ch, f) (ch', f')" "client_inv st c f"
  shows "client_inv st c f'"
  using assms(1)
proof cases
  case (cs_create r)
  show ?thesis
  proof (cases "\<exists>a. r = Inr a")
    case True
    then obtain a where "create_account c ch f = Some (Inr a, ch', f')" using cs_create by blast
    note new = create_account_new [OF this, of st]
    with assms(2) show ?thesis
      using accounts_named_snoc [of st c "fl_accounts f" a]
      by (auto simp: client_inv_def active_flag_def nth_append less_Suc_eq)
  next
    case False
    then have "f' = f" using cs_create
      by (auto simp: create_account_def Let_def split: option.splits sum.splits prod.splits if_splits)
    with assms(2) show ?thesis by simp
  qed
next
  case (cs_switch name r)
  then have "active_flag f'" using active_flag_switch assms(2) by (auto simp: client_inv_def)
  moreover have "accounts_named st c (fl_accounts f')"
    using cs_switch assms(2)
    by (auto simp: set_active_client_account_def Let_def client_inv_def set_active_flag_named split: option.splits)
  ultimately show ?thesis by (simp add: client_inv_def)
next
  case (cs_deploy addr path r)
  then have "fl_accounts f' = fl_accounts f \<and> fl_active f' = fl_active f"
    by (auto simp: deploy_contract_def split: option.splits sum.splits prod.splits)
  with assms(2) show ?thesis by (simp add: client_inv_def active_flag_def)
next
  case cs_send
  with assms(2) show ?thesis by simp
next
  case (cs_reload load r)
  then have "fl_accounts f' = fl_accounts f \<and> fl_active f' = fl_active f"
    by (auto simp: client_reload_def split: sum.splits)
  with assms(2) show ?thesis by (simp add: client_inv_def active_flag_def)
qed

section \<open>File names of scripts\<close>

lemma split_on_app: "split_on c (a @ c # b) = split_on c a @ split_on c b"
proof (induction a)
  case (Cons x a)
  then show ?case by (cases "split_on c a") auto
qed simp

lemma clean_loop_app: "clean_loop r acc (xs @ ys) = clean_loop r (rev (clean_loop r acc xs)) ys"
  by (induction r acc xs rule: clean_loop.induct) (auto split: list.split)

lemma clean_loop_pop:
  "\<forall>x \<in> set b. x \<noteq> ''..'' \<Longrightarrow> clean_loop r (rev b @ acc) (replicate (length b) ''..'' @ t) = clean_loop r acc t"
proof (induction b arbitrary: acc rule: rev_induct)
  case (snoc x b)
  then show ?case using snoc.IH [of acc] by simp
qed simp

lemma go_rel_shape:
  assumes abs: "is_abs base" "is_abs targ" and rel: "go_rel base targ = Some rel"
    and differ: "go_clean base \<noteq> go_clean targ"
  obtains c b t where "path_comps base = c @ b" "path_comps targ = c @ t"
    "rel = render False (replicate (length b) ''..'' @ t)" "replicate (length b) ''..'' @ t \<noteq> []"
    "norm_comps False (replicate (length b) ''..'' @ t)" "\<forall>x \<in> set c \<union> set b \<union> set t. x \<noteq> ''..'' \<and> comp_ok x"
proof -
  obtain b t where bt: "strip_common (path_comps base) (path_comps targ) = (b, t)" by force
  from strip_common_prefix [OF this] obtain c where
    c: "path_comps base = c @ b" "path_comps targ = c @ t" by blast
  have ok: "\<forall>x \<in> set c \<union> set b \<union> set t. x \<noteq> ''..'' \<and> comp_ok x"
    using rooted_comps [OF abs(1), unfolded c] rooted_comps [OF abs(2), unfolded c] by auto
  have "b \<noteq> [] \<or> t \<noteq> []" using differ abs c by (auto simp: go_clean_def)
  then have r: "replicate (length b) ''..'' @ t \<noteq> []" by auto
  have "hd b \<noteq> ''..''" if "b \<noteq> []" using ok that by simp
  then have rel': "rel = render False (replicate (length b) ''..'' @ t)"
    using rel differ abs bt r by (auto simp: go_rel_def render_def split: if_splits)
  have "comp_ok ''..''" by (simp add: comp_ok_def)
  then have "norm_comps False (replicate (length b) ''..'' @ t)"
    using ok unfolding norm_comps_def by (metis Un_iff in_set_replicate set_append)
  with that c rel' r ok show ?thesis by blast
qed

lemma go_rel_clean:
  assumes "is_abs base" "is_abs targ" "go_rel base targ = Some rel"
  shows "\<not> is_abs rel \<and> go_clean rel = rel \<and> rel \<noteq> ''''"
proof (cases "go_clean base = go_clean targ")
  case True
  with assms(3) have "rel = ''.''" by (simp add: go_rel_def)
  moreover have "\<not> is_abs ''.'' \<and> go_clean ''.'' = ''.''" by code_simp
  ultimately show ?thesis by simp
next
  case False
  from go_rel_shape [OF assms False] obtain r where "rel = render False r" "norm_comps False r" by metis
  then show ?thesis using render_split [of False r] go_clean_render [of False r] render_nonempty [of False r] by simp
qed

lemma go_join_slash:
  assumes "is_abs base" "rel \<noteq> ''''"
  shows "go_join [base, rel] = render True (clean_loop True (rev (path_comps base)) (split_on (CHR ''/'') rel))"
proof -
  have "is_abs (base @ ''/'' @ rel)" using assms(1) by (auto simp: is_abs_def has_prefix_iff)
  with assms is_abs_nonempty [OF assms(1)] show ?thesis
    by (simp add: go_join_def go_clean_def path_comps_def split_on_app clean_loop_app)
qed

lemma go_join_rel:
  assumes abs: "is_abs base" "is_abs targ" and clean: "go_clean base = base" and rel: "go_rel base targ = Some rel"
  shows "go_join [base, rel] = go_clean targ"
proof (cases "go_clean base = go_clean targ")
  case True
  with rel have "rel = ''.''" by (simp add: go_rel_def)
  then show ?thesis
    using True abs by (simp add: go_join_slash go_clean_def)
next
  case False
  from go_rel_shape [OF abs rel False] obtain c b t where
    c: "path_comps base = c @ b" "path_comps targ = c @ t"
    and r: "rel = render False (replicate (length b) ''..'' @ t)" "replicate (length b) ''..'' @ t \<noteq> []"
    and norm: "norm_comps False (replicate (length b) ''..'' @ t)"
    and ok: "\<forall>x \<in> set c \<union> set b \<union> set t. x \<noteq> ''..'' \<and> comp_ok x" .
  have split: "split_on (CHR ''/'') rel = replicate (length b) ''..'' @ t"
  proof -
    have "\<forall>x \<in> set (replicate (length b) ''..'' @ t). CHR ''/'' \<notin> set x"
      using norm by (auto simp: norm_comps_def comp_ok_def)
    from split_on_join [OF r(2) this] show ?thesis using r by (simp add: render_def)
  qed
  have ne: "rel \<noteq> ''''" using render_nonempty [OF norm] r(1) by simp
  have "clean_loop True (rev (path_comps base)) (split_on (CHR ''/'') rel) = clean_loop True (rev c) t"
    using clean_loop_pop [of b True "rev c" t] ok by (simp add: c split)
  also have "\<dots> = c @ t"
  proof -
    have "\<forall>x \<in> set t. comp_ok x" "''..'' \<notin> set t" using ok by auto
    from clean_loop_plain [OF this] show ?thesis by simp
  qed
  finally show ?thesis using go_join_slash [OF abs(1) ne] abs(2) c(2) by (simp add: go_clean_def)
qed

text \<open>A clean relative path is not changed by joining it to the dot.\<close>

lemma go_join_dot:
  assumes "\<not> is_abs rel" "go_clean rel = rel" "rel \<noteq> ''''"
  shows "go_join [''.'', rel] = rel"
proof -
  have "path_comps (''.'' @ CHR ''/'' # rel) = path_comps rel"
    using assms(1) unfolding path_comps_def split_on_app by (simp add: is_abs_def has_prefix_def)
  then have "go_clean (''./'' @ rel) = go_clean rel"
    using assms(1) by (simp add: go_clean_def is_abs_def has_prefix_def)
  with assms show ?thesis by (simp add: go_join_def)
qed

lemma go_rel_abs: "is_abs base \<Longrightarrow> is_abs targ \<Longrightarrow> \<exists>rel. go_rel base targ = Some rel"
proof -
  assume abs: "is_abs base" "is_abs targ"
  obtain b t where bt: "strip_common (path_comps base) (path_comps targ) = (b, t)" by force
  from strip_common_prefix [OF this] obtain c where c: "path_comps base = c @ b" by blast
  have "hd b \<noteq> ''..''" if "b \<noteq> []" using rooted_comps [OF abs(1), of "hd b"] that by (simp add: c)
  with abs bt show ?thesis by (auto simp: go_rel_def)
qed

lemma go_dir_abs: "is_abs p \<Longrightarrow> is_abs (go_dir p)"
proof -
  assume "is_abs p"
  then obtain q where p: "p = CHR ''/'' # q" by (auto simp: is_abs_def has_prefix_iff)
  have "is_abs (up_to_last_slash p)"
  proof (cases "CHR ''/'' \<in> set q")
    case True
    then show ?thesis by (auto simp: p up_to_last_slash_def is_abs_def has_prefix_def dropWhile_append)
  next
    case False
    then have "dropWhile (\<lambda>c. c \<noteq> CHR ''/'') (rev q @ [CHR ''/'']) = [CHR ''/'']"
      by (subst dropWhile_append2) auto
    then show ?thesis by (simp add: p up_to_last_slash_def is_abs_def has_prefix_def)
  qed
  then show ?thesis by (simp add: go_dir_def go_clean_comps)
qed

section \<open>Properties\<close>

lemma client_reachable_inv:
  "client_reachable c st x \<Longrightarrow> distinct (map cfa_name (ch_accounts c st)) \<Longrightarrow> client_inv st c (snd x)"
proof (induction rule: client_reachable.induct)
  case (cr_init ch cfg n ch' f)
  then show ?case using client_inv_initialize by fastforce
next
  case (cr_step x y)
  then show ?case using client_inv_step by (cases x, cases y) fastforce
qed


definition demo_chain :: "(unit, unit, nat) chain" where
  "demo_chain =
     \<lparr>ch_service = (\<lambda>_. Inr ()), ch_private_key = (\<lambda>_. Inr ()),
      ch_accounts = (\<lambda>_. [\<lparr>cfa_name = ''admin'', cfa_address = 99, cfa_key = ()\<rparr>]),
      ch_create = (\<lambda>n. (Inr (of_nat n), Suc n)), ch_get = (\<lambda>_ _. Inr []), ch_execute = (\<lambda>_ _. Inr ''42''),
      ch_send = (\<lambda>_ _ _ n. (Inr (''sealed'', ''id'', ''''), n)), ch_deploy = (\<lambda>_ _ n. (None, n)),
      ch_add_signer = (\<lambda>_ st. st), ch_read = (\<lambda>p. Inr p), ch_cwd = ''/''\<rparr>"

definition demo_client :: "nat \<Rightarrow> nat \<times> (unit, unit) flow_client" where
  "demo_client n = snd (the (client_initialize demo_chain 0 new_flowkit_client () ''/p/flow.json'' (int n)))"

lemma demo_client_run: "client_initialize demo_chain 0 new_flowkit_client () ''/p/flow.json'' 2 =
    Some (None, demo_client 2)"
proof -
  have "map_option fst (client_initialize demo_chain 0 new_flowkit_client () ''/p/flow.json'' (int 2)) = Some None"
    by code_simp
  then show ?thesis by (auto simp: demo_client_def)
qed


text \<open>
  Switching to an unknown account fails, but not without effect: the account that was active
  loses its flag while it stays the active one, so the list shown to the user has no active account.
\<close>

theorem failed_switch_loses_flag:
  assumes "client_reachable c st (ch, f)" and "distinct (map cfa_name (ch_accounts c st))"
    and "name \<notin> acct_name ` set (fl_accounts f)"
    and "set_active_client_account f name = (r, f')"
  shows "r = Some (AccountNameNotFound name) \<and> get_active_client_account f' = get_active_client_account f \<and>
    (\<forall>a \<in> set (get_client_accounts f'). \<not> acct_active a)"
proof -
  obtain j where j: "j < length (fl_accounts f)" "fl_active f = Some j"
    and only: "\<forall>i < length (fl_accounts f). acct_active (fl_accounts f ! i) \<longrightarrow> i = j"
    using client_reachable_inv [OF assms(1,2)] by (auto simp: client_inv_def active_flag_def)
  let ?g = "set_active_flag j False f"
  have "acct_name ` set (fl_accounts ?g) = acct_name ` set (fl_accounts f)"
  proof -
    have "map acct_name (fl_accounts ?g) = map acct_name (fl_accounts f)"
      using j by (simp add: set_active_flag_def map_update list_update_same_conv)
    then show ?thesis by (metis set_map)
  qed
  then have "get_client_account ?g name = None"
    using assms(3) by (simp add: get_client_account_def account_loop_None)
  then have out: "r = Some (AccountNameNotFound name)" "f' = ?g"
    using assms(4) j by (auto simp: set_active_client_account_def get_active_client_account_def Let_def)
  have "\<not> acct_active a" if "a \<in> set (fl_accounts ?g)" for a
  proof -
    obtain i where "i < length (fl_accounts ?g)" "a = fl_accounts ?g ! i" using \<open>a \<in> _\<close> by (metis in_set_conv_nth)
    with only show ?thesis by auto
  qed
  with out show ?thesis by (simp add: get_client_accounts_def get_active_client_account_def)
qed

theorem failed_switch_loses_flag_witness:
  "map acct_active (get_client_accounts (snd (demo_client 2))) = [True, False, False] \<and>
   (\<exists>f'. set_active_client_account (snd (demo_client 2)) ''nobody'' = (Some (AccountNameNotFound ''nobody''), f') \<and>
      get_active_client_account f' = Some 0)"
proof -
  obtain ch f where d: "demo_client 2 = (ch, f)" by force
  have run: "client_reachable demo_chain () (ch, f)" using cr_init [OF demo_client_run [unfolded d]] .
  have names: "map acct_name (fl_accounts (snd (demo_client 2))) = [''Alice'', ''Bob'', ''admin [flow.json]'']"
    and flags: "map acct_active (get_client_accounts (snd (demo_client 2))) = [True, False, False]"
    and first: "get_active_client_account (snd (demo_client 2)) = Some 0" by code_simp+
  obtain r f' where sw: "set_active_client_account f ''nobody'' = (r, f')" by force
  have "''nobody'' \<notin> acct_name ` set (fl_accounts f)" using names by (simp add: d flip: set_map)
  moreover have "distinct (map cfa_name (ch_accounts demo_chain ()))" by (simp add: demo_chain_def)
  ultimately have "r = Some (AccountNameNotFound ''nobody'') \<and> get_active_client_account f' = get_active_client_account f"
    using failed_switch_loses_flag [OF run _ _ sw] by blast
  then show ?thesis using flags first sw by (simp add: d)
qed

text \<open>
  Creating an account beyond the twenty built-in names: with exactly twenty accounts in the list
  the limit test passes and the name table is indexed out of range, a panic; with more the limit error
  is returned. In both cases the account has been created on the chain already.
\<close>

theorem create_account_limit:
  assumes "fl_state f = Some st" "ch_service c st = Inr key" "ch_private_key c key = Inr u"
    and "ch_create c ch = (Inr addr, ch')"
  shows "create_account c ch f =
    (if length (fl_accounts f) < 20
     then Some (Inr \<lparr>acct_address = addr, acct_name = account_names ! length (fl_accounts f), acct_active = False, acct_key = None\<rparr>,
            ch', f\<lparr>fl_accounts := fl_accounts f @ [\<lparr>acct_address = addr,
              acct_name = account_names ! length (fl_accounts f), acct_active = False, acct_key = None\<rparr>]\<rparr>)
     else if length (fl_accounts f) = 20 then None
     else Some (Inl AccountLimitReached, ch', f))"
  using assms account_names_facts(1) by (simp add: create_account_def get_client_accounts_def Let_def)

theorem create_account_limit_witness:
  "Option.is_none (create_account demo_chain 19 (snd (demo_client 19))) \<and> length (fl_accounts (snd (demo_client 19))) = 20"
proof -
  have len: "length (fl_accounts (snd (demo_client 19))) = 20" and st: "fl_state (snd (demo_client 19)) = Some ()"
    by code_simp+
  have "ch_service demo_chain () = Inr ()" "ch_private_key demo_chain () = Inr ()" "ch_create demo_chain 19 = (Inr 19, 20)"
    by (simp_all add: demo_chain_def)
  from create_account_limit [OF st this] len show ?thesis by (simp add: Option.is_none_def)
qed

text \<open>
  The location flowkit gets for a script is the script's own path, cleaned: going from the
  directory of the configuration to the file and joining both again loses nothing, wherever the
  file is. With a configuration in the current directory the location is relative to it, and leads
  to the same file from there.
\<close>

theorem code_filename_roundtrip:
  assumes "is_abs path" and "if go_dir cfg = ''.'' then is_abs cwd \<and> go_clean cwd = cwd else is_abs cfg"
  shows "\<exists>loc. compute_code_filename cwd cfg path = Some loc \<and>
    (if go_dir cfg = ''.'' then go_join [cwd, loc] = go_clean path else loc = go_clean path)"
proof (cases "go_dir cfg = ''.''")
  case True
  with assms have cwd: "is_abs cwd" "go_clean cwd = cwd" by simp_all
  obtain rel where rel: "go_rel cwd path = Some rel" using go_rel_abs [OF cwd(1) assms(1)] by blast
  have "go_join [''.'', rel] = rel" using go_rel_clean [OF cwd(1) assms(1) rel] go_join_dot by blast
  with go_join_rel [OF cwd(1) assms(1) cwd(2) rel] True rel show ?thesis
    by (simp add: compute_code_filename_def resolve_filename_def)
next
  case False
  with assms have cfg: "is_abs (go_dir cfg)" using go_dir_abs by simp
  obtain rel where rel: "go_rel (go_dir cfg) path = Some rel" using go_rel_abs [OF cfg assms(1)] by blast
  from go_join_rel [OF cfg assms(1) go_dir_is_clean this] False rel show ?thesis
    by (simp add: compute_code_filename_def resolve_filename_def)
qed

theorem code_filename_roundtrip_witness:
  "compute_code_filename ''/w'' ''/p/x/flow.json'' ''/p/scripts/./a.cdc'' = Some ''/p/scripts/a.cdc'' \<and>
   compute_code_filename ''/w'' ''flow.json'' ''/w/a.cdc'' = Some ''a.cdc''"
proof -
  have a: "is_abs ''/p/scripts/./a.cdc''" "go_dir ''/p/x/flow.json'' \<noteq> ''.''" "is_abs ''/p/x/flow.json''"
    "go_clean ''/p/scripts/./a.cdc'' = ''/p/scripts/a.cdc''" by code_simp+
  have "compute_code_filename ''/w'' ''flow.json'' ''/w/a.cdc'' = Some ''a.cdc''" by code_simp
  then show ?thesis using code_filename_roundtrip [OF a(1), of "''/p/x/flow.json''" "''/w''"] a by simp
qed

end
