(* ===== verification/EntryPoints.thy ===== *)
theory EntryPoints
  imports FlowClient Sema
begin

text \<open>
  Entry points and contracts of a document and the code lenses offered for them
  (src/languageserver/integration/entrypoint.go, contracts.go), and the extra diagnostics of the
  integration (diagnostics.go). The checked program, the pragmas of documentation comments, the
  parser of literal arguments and the encodings of the Cadence library are parameters; a type is
  \<open>'ty\<close>, an argument \<open>'v\<close>. \<open>None\<close> is a run-time panic.
\<close>

section \<open>Parameters\<close>

record 'ty transaction_declaration =
  td_doc :: string
  td_start :: ast_pos
  td_parameters :: "'ty list"
  td_prepare :: "'ty list"

record 'ty entry_function =
  ef_doc :: string
  ef_start :: ast_pos
  ef_parameters :: "'ty list"

record 'ty contract_declaration =
  cd_doc :: string
  cd_name :: string
  cd_start :: ast_pos
  cd_constructor :: "'ty list"

record 'ty checked_program =
  ck_transaction :: "'ty transaction_declaration option"
  ck_function :: "'ty entry_function option"
  ck_contract :: "'ty contract_declaration option"
  ck_interface :: "'ty contract_declaration option"
  ck_transactions :: "ast_pos list"
  ck_composites :: "ident list"
  ck_interfaces :: "ident list"

record ('ty, 'v) cadence_lib =
  lib_pragma_arguments :: "string \<Rightarrow> string list"
  lib_pragma_signers :: "string \<Rightarrow> string list"
  lib_parse_literals :: "string \<Rightarrow> 'ty list \<Rightarrow> 'v list option"
  lib_arguments_json :: "'v list \<Rightarrow> string"
  lib_enumerate :: "string list \<Rightarrow> string \<Rightarrow> string"

section \<open>Signers\<close>

text \<open>\<^verbatim>\<open>SignersRegexp.FindAllString\<close>: the maximal runs of word characters and hyphens.\<close>

definition signer_char :: "char \<Rightarrow> bool" where
  "signer_char c =
     (let n = of_char c :: nat
      in 48 \<le> n \<and> n \<le> 57 \<or> 65 \<le> n \<and> n \<le> 90 \<or> 97 \<le> n \<and> n \<le> 122 \<or> n = 95 \<or> n = 45)"

fun find_signers_loop :: "string \<Rightarrow> string \<Rightarrow> string list" where
  "find_signers_loop run [] = (if run = [] then [] else [run])"
| "find_signers_loop run (c # s) =
     (if signer_char c then find_signers_loop (run @ [c]) s
      else if run = [] then find_signers_loop [] s else run # find_signers_loop [] s)"

definition find_signers :: "string \<Rightarrow> string list" where
  "find_signers s = find_signers_loop [] s"

text \<open>The arguments that parse, each with its text, in the order of the pragmas.\<close>

fun pragma_loop ::
    "('ty, 'v) cadence_lib \<Rightarrow> 'ty list \<Rightarrow> string list \<Rightarrow> string list \<times> 'v list list \<Rightarrow> string list \<times> 'v list list" where
  "pragma_loop lib tys [] acc = acc"
| "pragma_loop lib tys (s # ss) acc =
     pragma_loop lib tys ss
       (case lib_parse_literals lib s tys of
          None \<Rightarrow> acc | Some args \<Rightarrow> (fst acc @ [s], snd acc @ [args]))"

fun signers_pragma_loop :: "string list \<Rightarrow> string list \<Rightarrow> string list" where
  "signers_pragma_loop [] acc = acc"
| "signers_pragma_loop (s # ss) acc = signers_pragma_loop ss (acc @ find_signers s)"

section \<open>Lenses\<close>

definition command_send_transaction :: string where
  "command_send_transaction = ''cadence.server.flow.sendTransaction''"
definition command_execute_script :: string where
  "command_execute_script = ''cadence.server.flow.executeScript''"
definition command_deploy_contract :: string where
  "command_deploy_contract = ''cadence.server.flow.deployContract''"

record code_lens =
  lens_range :: range
  lens_title :: string
  lens_command :: string
  lens_arguments :: "json list"

text \<open>The UTF-8 bytes of a light bulb and of a prohibition sign.\<close>

definition prefix_ok :: string where "prefix_ok = map char_of [240::nat, 159, 146, 161]"
definition prefix_error :: string where "prefix_error = map char_of [240::nat, 159, 154, 171]"

definition make_actionless_codelens :: "string \<Rightarrow> range \<Rightarrow> code_lens" where
  "make_actionless_codelens title r = \<lparr>lens_range = r, lens_title = title, lens_command = '''', lens_arguments = []\<rparr>"

definition make_code_lens :: "string \<Rightarrow> string \<Rightarrow> range \<Rightarrow> json list \<Rightarrow> code_lens" where
  "make_code_lens command title r args =
     \<lparr>lens_range = r, lens_title = title, lens_command = command, lens_arguments = args\<rparr>"

text \<open>A list that was never appended to is nil, which is \<^verbatim>\<open>null\<close> in JSON.\<close>

definition names_json :: "string list \<Rightarrow> json" where
  "names_json names = (if names = [] then JNull else JArr (map JStr names))"

definition encode_json_arguments :: "json list \<Rightarrow> json list" where
  "encode_json_arguments args = args"

text \<open>Every signer asks the client, which may be a nil interface.\<close>

fun resolve_loop ::
    "('st, 'k) flow_client option \<Rightarrow> string list \<Rightarrow> string list \<Rightarrow> string list \<Rightarrow> (string list \<times> string list) option" where
  "resolve_loop client [] found absent = Some (found, absent)"
| "resolve_loop client (s # ss) found absent =
     (case client of
        None \<Rightarrow> None
      | Some f \<Rightarrow>
          (case get_client_account f s of
             None \<Rightarrow> resolve_loop client ss found (absent @ [s])
           | Some j \<Rightarrow> resolve_loop client ss (found @ [acct_name (fl_accounts f ! j)]) absent))"

definition resolve_accounts ::
    "('st, 'k) flow_client option \<Rightarrow> string list \<Rightarrow> (string list \<times> string list) option" where
  "resolve_accounts client signers = resolve_loop client signers [] []"

text \<open>The name of the active account: a panic without a client or without an active account.\<close>

definition active_name :: "('st, 'k) flow_client option \<Rightarrow> string option" where
  "active_name client =
     (case client of
        None \<Rightarrow> None
      | Some f \<Rightarrow>
          (case get_active_client_account f of None \<Rightarrow> None | Some j \<Rightarrow> Some (acct_name (fl_accounts f ! j))))"

section \<open>Entry points\<close>

datatype entry_point_kind = EntryPointUnknown | EntryPointScript | EntryPointTransaction

record ('ty, 'v) entry_point_info =
  ep_uri :: uri
  ep_version :: "32 word"
  ep_start :: "ast_pos option"
  ep_kind :: entry_point_kind
  ep_parameters :: "'ty list"
  ep_argument_strings :: "string list"
  ep_arguments :: "'v list list"
  ep_signers :: "string list"
  ep_signer_count :: nat

definition new_entry_point_info :: "('ty, 'v) entry_point_info" where
  "new_entry_point_info =
     \<lparr>ep_uri = '''', ep_version = 0, ep_start = None, ep_kind = EntryPointUnknown, ep_parameters = [],
      ep_argument_strings = [], ep_arguments = [], ep_signers = [], ep_signer_count = 0\<rparr>"

definition entry_point_update ::
    "('ty, 'v) cadence_lib \<Rightarrow> uri \<Rightarrow> 32 word \<Rightarrow> 'ty checked_program \<Rightarrow>
     ('ty, 'v) entry_point_info \<Rightarrow> ('ty, 'v) entry_point_info" where
  "entry_point_update lib u version ck e =
     (if ep_version e = version then e
      else let (doc, e1) =
                 (case ck_transaction ck of
                    Some t \<Rightarrow> (td_doc t, e\<lparr>ep_start := Some (td_start t), ep_kind := EntryPointTransaction,
                                 ep_parameters := td_parameters t, ep_signer_count := length (td_prepare t)\<rparr>)
                  | None \<Rightarrow>
                      (case ck_function ck of
                         Some f \<Rightarrow> (ef_doc f, e\<lparr>ep_start := Some (ef_start f), ep_kind := EntryPointScript,
                                      ep_parameters := ef_parameters f, ep_signer_count := 0\<rparr>)
                       | None \<Rightarrow> ('''', e)));
               e2 = e1\<lparr>ep_arguments := [], ep_argument_strings := [], ep_signers := []\<rparr>;
               e3 = (if ep_start e2 = None then e2
                     else let (ss, as) =
                                (if ep_parameters e2 = [] then ([], [])
                                 else pragma_loop lib (ep_parameters e2) (lib_pragma_arguments lib doc) ([], []))
                          in e2\<lparr>ep_argument_strings := ss, ep_arguments := as,
                                ep_signers := signers_pragma_loop (lib_pragma_signers lib doc) []\<rparr>)
           in e3\<lparr>ep_uri := u, ep_version := version\<rparr>)"

text \<open>\<^verbatim>\<open>e.pragmaArgumentStrings[index]\<close> when there are parameters.\<close>

definition pragma_text :: "('ty, 'v) entry_point_info \<Rightarrow> nat \<Rightarrow> string option" where
  "pragma_text e i =
     (if ep_parameters e = [] then Some ''''
      else if i < length (ep_argument_strings e) then Some (ep_argument_strings e ! i) else None)"

definition script_codelens ::
    "('ty, 'v) cadence_lib \<Rightarrow> ('ty, 'v) entry_point_info \<Rightarrow> nat \<Rightarrow> 'v list \<Rightarrow> code_lens option" where
  "script_codelens lib e i args =
     (case pragma_text e i of
        None \<Rightarrow> None
      | Some pragma \<Rightarrow>
          (case ep_start e of
             None \<Rightarrow> None
           | Some p \<Rightarrow>
               (let title = prefix_ok @ '' Execute script'';
                    title1 = (if length args > 0 then title @ '' with '' @ pragma else title)
                in Some (make_code_lens command_execute_script title1 (ast_to_protocol_range p p)
                     (encode_json_arguments [JStr (ep_uri e), JStr (lib_arguments_json lib args)])))))"

definition transaction_title ::
    "('ty, 'v) cadence_lib \<Rightarrow> ('ty, 'v) entry_point_info \<Rightarrow> 'v list \<Rightarrow> string \<Rightarrow> string list \<Rightarrow> string" where
  "transaction_title lib e args pragma signers =
     (if ep_signer_count e = 0 then prefix_ok @ '' Send signed by service account''
      else if length args = 0 then prefix_ok @ '' Send signed by '' @ lib_enumerate lib signers ''and''
      else prefix_ok @ '' Send with '' @ pragma @ '' signed by '' @ lib_enumerate lib signers ''and'')"

definition transaction_codelens ::
    "('ty, 'v) cadence_lib \<Rightarrow> ('ty, 'v) entry_point_info \<Rightarrow> nat \<Rightarrow> 'v list \<Rightarrow> ('st, 'k) flow_client option \<Rightarrow>
     code_lens list option" where
  "transaction_codelens lib e i args client =
     (case ep_start e of
        None \<Rightarrow> None
      | Some p \<Rightarrow>
          (case pragma_text e i of
             None \<Rightarrow> None
           | Some pragma \<Rightarrow>
               (case (if ep_signers e = [] \<and> ep_signer_count e \<noteq> 0
                      then map_option (\<lambda>n. [n]) (active_name client) else Some (ep_signers e)) of
                  None \<Rightarrow> None
                | Some signers \<Rightarrow>
                    (let r = ast_to_protocol_range p p
                     in if ep_signer_count e > length signers
                        then Some [make_actionless_codelens
                               (prefix_error @ '' Not enough signers. Required: '' @ itoa (ep_signer_count e) @
                                '', passed: '' @ itoa (length signers)) r]
                        else case resolve_accounts client signers of
                          None \<Rightarrow> None
                        | Some (accounts, absent) \<Rightarrow>
                            (if length absent > 0
                             then Some [make_actionless_codelens
                                    (prefix_error @ '' Specified '' @ (if length accounts > 1 then ''accounts'' else ''account'') @
                                     '' '' @ lib_enumerate lib absent ''and'' @ '' does not exist'') r]
                             else Some [make_code_lens command_send_transaction
                                    (transaction_title lib e args pragma signers) r
                                    (encode_json_arguments
                                       [JStr (ep_uri e), JStr (lib_arguments_json lib args), names_json accounts])])))))"

fun codelens_loop ::
    "('ty, 'v) cadence_lib \<Rightarrow> ('ty, 'v) entry_point_info \<Rightarrow> ('st, 'k) flow_client option \<Rightarrow> nat \<Rightarrow> 'v list list \<Rightarrow>
     code_lens list \<Rightarrow> code_lens list option" where
  "codelens_loop lib e client i [] acc = Some acc"
| "codelens_loop lib e client i (args # rest) acc =
     (case (case ep_kind e of
              EntryPointScript \<Rightarrow> map_option (\<lambda>l. [l]) (script_codelens lib e i args)
            | EntryPointTransaction \<Rightarrow> transaction_codelens lib e i args client
            | EntryPointUnknown \<Rightarrow> Some []) of
        None \<Rightarrow> None
      | Some ls \<Rightarrow> codelens_loop lib e client (Suc i) rest (acc @ ls))"

definition entry_point_codelens ::
    "('ty, 'v) cadence_lib \<Rightarrow> ('st, 'k) flow_client option \<Rightarrow> ('ty, 'v) entry_point_info \<Rightarrow> code_lens list option" where
  "entry_point_codelens lib client e =
     (if ep_kind e = EntryPointUnknown \<or> ep_start e = None then Some []
      else codelens_loop lib e client 0
             (ep_arguments e @ (if ep_parameters e = [] then [[]] else [])) [])"

section \<open>Contracts\<close>

datatype contract_kind = ContractUnknown | ContractDeclaration | ContractInterface

record ('ty, 'v) contract_info =
  ct_uri :: uri
  ct_version :: "32 word"
  ct_start :: "ast_pos option"
  ct_kind :: contract_kind
  ct_name :: string
  ct_parameters :: "'ty list"
  ct_argument_strings :: "string list"
  ct_arguments :: "'v list list"
  ct_signers :: "string list"

definition new_contract_info :: "('ty, 'v) contract_info" where
  "new_contract_info =
     \<lparr>ct_uri = '''', ct_version = 0, ct_start = None, ct_kind = ContractUnknown, ct_name = '''',
      ct_parameters = [], ct_argument_strings = [], ct_arguments = [], ct_signers = []\<rparr>"

text \<open>An interface leaves the parameters of the version before it.\<close>

definition contract_update ::
    "('ty, 'v) cadence_lib \<Rightarrow> uri \<Rightarrow> 32 word \<Rightarrow> 'ty checked_program \<Rightarrow>
     ('ty, 'v) contract_info \<Rightarrow> ('ty, 'v) contract_info" where
  "contract_update lib u version ck c =
     (if ct_version c = version then c
      else let (doc, c1) =
                 (case ck_contract ck of
                    Some d \<Rightarrow> (cd_doc d, c\<lparr>ct_name := cd_name d, ct_start := Some (cd_start d),
                                 ct_kind := ContractDeclaration, ct_parameters := cd_constructor d\<rparr>)
                  | None \<Rightarrow>
                      (case ck_interface ck of
                         Some d \<Rightarrow> (cd_doc d, c\<lparr>ct_name := cd_name d, ct_start := Some (cd_start d),
                                      ct_kind := ContractInterface\<rparr>)
                       | None \<Rightarrow> ('''', c)));
               c2 = c1\<lparr>ct_arguments := [], ct_argument_strings := [], ct_signers := []\<rparr>;
               c3 = (if ct_start c2 = None then c2
                     else let (ss, as) =
                                (if ct_parameters c2 = [] then ([], [])
                                 else pragma_loop lib (ct_parameters c2) (lib_pragma_arguments lib doc) ([], []))
                          in c2\<lparr>ct_argument_strings := ss, ct_arguments := as,
                                ct_signers := signers_pragma_loop (lib_pragma_signers lib doc) []\<rparr>)
           in c3\<lparr>ct_uri := u, ct_version := version\<rparr>)"

definition contract_codelens ::
    "('st, 'k) flow_client option \<Rightarrow> ('ty, 'v) contract_info \<Rightarrow> code_lens list option" where
  "contract_codelens client c =
     (case ct_start c of
        None \<Rightarrow> Some []
      | Some p \<Rightarrow>
          (if ct_kind c = ContractUnknown then Some []
           else let r = ast_to_protocol_range p p
                in case (case ct_signers c of
                           [] \<Rightarrow> map_option Some (active_name client)
                         | [s] \<Rightarrow> Some (Some s)
                         | _ \<Rightarrow> Some None) of
                     None \<Rightarrow> None
                   | Some None \<Rightarrow>
                       Some [make_actionless_codelens (prefix_error @ '' Only possible to deploy to a single account'') r]
                   | Some (Some signer) \<Rightarrow>
                       (case client of
                          None \<Rightarrow> None
                        | Some f \<Rightarrow>
                            (case get_client_account f signer of
                               None \<Rightarrow> Some [make_actionless_codelens
                                        (prefix_error @ '' Specified account '' @ signer @ '' does not exist'') r]
                             | Some j \<Rightarrow>
                                 (let body = (if ct_kind c = ContractInterface then ''Deploy contract interface''
                                              else ''Deploy contract'');
                                      title = prefix_ok @ '' '' @ body @ '' '' @ ct_name c @ '' to '' @ signer
                                  in Some [make_code_lens command_deploy_contract title r
                                       (encode_json_arguments [JStr (ct_uri c), JStr (ct_name c), JStr signer])])))))"

section \<open>Diagnostics\<close>

definition warning_diagnostic :: "range \<Rightarrow> string \<Rightarrow> proto_diagnostic" where
  "warning_diagnostic r msg =
     \<lparr>pd_range = r, pd_severity = word_of_int severity_warning, pd_source = '''', pd_message = msg, pd_data = None\<rparr>"

definition transaction_declaration_count_diagnostics :: "'ty checked_program \<Rightarrow> proto_diagnostic list" where
  "transaction_declaration_count_diagnostics ck =
     (case ck_transactions ck of
        _ # (d # ds) \<Rightarrow>
          map (\<lambda>p. warning_diagnostic (ast_to_protocol_range p (shifted p (int (length ''transaction'') - 1)))
                 ''Cannot declare more than one transaction per file'') (d # ds)
      | _ \<Rightarrow> [])"

definition composite_or_interface_count_diagnostics :: "'ty checked_program \<Rightarrow> proto_diagnostic list" where
  "composite_or_interface_count_diagnostics ck =
     (case ck_composites ck @ ck_interfaces ck of
        _ # (d # ds) \<Rightarrow>
          map (\<lambda>x. warning_diagnostic (ast_to_protocol_range (id_start x) (id_end x))
                 ''Cannot declare more than one top-level type per file'') (d # ds)
      | _ \<Rightarrow> [])"

definition integration_diagnostics :: "'ty checked_program \<Rightarrow> proto_diagnostic list" where
  "integration_diagnostics ck =
     transaction_declaration_count_diagnostics ck @ composite_or_interface_count_diagnostics ck"

section \<open>The lenses of a transaction\<close>

definition parsed_pragmas :: "('ty, 'v) cadence_lib \<Rightarrow> 'ty list \<Rightarrow> string list \<Rightarrow> string list" where
  "parsed_pragmas lib tys ss = filter (\<lambda>s. lib_parse_literals lib s tys \<noteq> None) ss"

lemma pragma_loop_eq:
  "pragma_loop lib tys ss acc =
     (fst acc @ parsed_pragmas lib tys ss,
      snd acc @ map (\<lambda>s. the (lib_parse_literals lib s tys)) (parsed_pragmas lib tys ss))"
  by (induction ss arbitrary: acc) (auto simp: parsed_pragmas_def split: option.split)

lemma signers_pragma_loop_eq: "signers_pragma_loop ss acc = acc @ concat (map find_signers ss)"
  by (induction ss arbitrary: acc) simp_all

definition has_account :: "('st, 'k) flow_client \<Rightarrow> string \<Rightarrow> bool" where
  "has_account f name \<longleftrightarrow> name \<in> acct_name ` set (fl_accounts f)"

lemma get_client_account_None: "get_client_account f name = None \<longleftrightarrow> \<not> has_account f name"
  by (simp add: get_client_account_def has_account_def account_loop_None)

lemma get_client_account_name:
  "get_client_account f name = Some j \<Longrightarrow> j < length (fl_accounts f) \<and> acct_name (fl_accounts f ! j) = name"
  using account_loop_Some [of "fl_accounts f" name 0 j] by (simp add: get_client_account_def)

lemma resolve_loop_eq:
  "resolve_loop (Some f) ss found absent =
     Some (found @ filter (has_account f) ss, absent @ filter (\<lambda>s. \<not> has_account f s) ss)"
proof (induction ss arbitrary: found absent)
  case (Cons s ss)
  then show ?case
    using get_client_account_None [of f s] get_client_account_name [of f s]
    by (auto split: option.split)
qed simp

text \<open>What the lenses of a transaction offer: the argument lists and the signers.\<close>

definition offered_arguments :: "('ty, 'v) cadence_lib \<Rightarrow> 'ty transaction_declaration \<Rightarrow> 'v list list" where
  "offered_arguments lib t =
     (if td_parameters t = [] then [[]]
      else map (\<lambda>s. the (lib_parse_literals lib s (td_parameters t)))
             (parsed_pragmas lib (td_parameters t) (lib_pragma_arguments lib (td_doc t))))"

definition offered_signers :: "('ty, 'v) cadence_lib \<Rightarrow> string \<Rightarrow> 'ty transaction_declaration \<Rightarrow> string list" where
  "offered_signers lib active t =
     (let named = concat (map find_signers (lib_pragma_signers lib (td_doc t)))
      in if named = [] \<and> td_prepare t \<noteq> [] then [active] else named)"

definition sendable :: "('st, 'k) flow_client \<Rightarrow> 'ty transaction_declaration \<Rightarrow> string list \<Rightarrow> bool" where
  "sendable f t signers \<longleftrightarrow> length (td_prepare t) \<le> length signers \<and> (\<forall>s \<in> set signers. has_account f s)"

definition transaction_lens :: 
    "('ty, 'v) cadence_lib \<Rightarrow> ('st, 'k) flow_client \<Rightarrow> uri \<Rightarrow> 'ty transaction_declaration \<Rightarrow> string list \<Rightarrow> 'v list \<Rightarrow>
     code_lens \<Rightarrow> bool" where
  "transaction_lens lib f u t signers args l \<longleftrightarrow>
     lens_range l = ast_to_protocol_range (td_start t) (td_start t) \<and>
     (if sendable f t signers
      then lens_command l = command_send_transaction \<and>
           lens_arguments l = [JStr u, JStr (lib_arguments_json lib args), names_json signers]
      else lens_command l = '''' \<and> lens_arguments l = [])"

lemma transaction_codelens_one:
  assumes "ep_start e = Some (td_start t)" "ep_signer_count e = length (td_prepare t)" "ep_uri e = u"
    and "pragma_text e i \<noteq> None" and "active_name (Some f) = Some active"
    and "signers = (if ep_signers e = [] \<and> td_prepare t \<noteq> [] then [active] else ep_signers e)"
  shows "\<exists>l. transaction_codelens lib e i args (Some f) = Some [l] \<and> transaction_lens lib f u t signers args l"
proof -
  obtain pragma where pragma: "pragma_text e i = Some pragma" using assms(4) by auto
  have ss: "(if ep_signers e = [] \<and> ep_signer_count e \<noteq> 0 then map_option (\<lambda>n. [n]) (active_name (Some f))
      else Some (ep_signers e)) = Some signers" using assms by auto
  have absent: "filter (\<lambda>s. \<not> has_account f s) signers = [] \<longleftrightarrow> (\<forall>s \<in> set signers. has_account f s)"
    by (simp add: filter_empty_conv)
  have found: "filter (has_account f) signers = signers" if "\<forall>s \<in> set signers. has_account f s"
    using that by (simp add: filter_id_conv)
  show ?thesis
    unfolding transaction_codelens_def assms(1) pragma ss resolve_accounts_def resolve_loop_eq
    using assms(2,3) absent found
    by (auto simp: Let_def transaction_lens_def sendable_def make_actionless_codelens_def make_code_lens_def
        encode_json_arguments_def)
qed

lemma codelens_loop_transaction:
  assumes "ep_kind e = EntryPointTransaction"
    and "\<And>k. k < length argss \<Longrightarrow> \<exists>l. transaction_codelens lib e (i + k) (argss ! k) client = Some [l] \<and> P (argss ! k) l"
  shows "\<exists>ls. codelens_loop lib e client i argss acc = Some (acc @ ls) \<and> list_all2 P argss ls"
  using assms(2)
proof (induction argss arbitrary: i acc)
  case (Cons args rest)
  obtain l where l: "transaction_codelens lib e i args client = Some [l]" "P args l"
    using Cons.prems [of 0] by auto
  have "\<exists>l. transaction_codelens lib e (Suc i + k) (rest ! k) client = Some [l] \<and> P (rest ! k) l"
    if "k < length rest" for k
    using Cons.prems [of "Suc k"] that by simp
  from Cons.IH [OF this] obtain ls where
      "codelens_loop lib e client (Suc i) rest (acc @ [l]) = Some ((acc @ [l]) @ ls)" "list_all2 P rest ls"
    by blast
  with l assms(1) show ?case by (intro exI [of _ "l # ls"]) simp
qed simp

lemma update_transaction:
  assumes "ep_version e \<noteq> version" "ck_transaction ck = Some t"
  shows "entry_point_update lib u version ck e =
    e\<lparr>ep_start := Some (td_start t), ep_kind := EntryPointTransaction, ep_parameters := td_parameters t,
      ep_signer_count := length (td_prepare t),
      ep_argument_strings := (if td_parameters t = [] then []
        else parsed_pragmas lib (td_parameters t) (lib_pragma_arguments lib (td_doc t))),
      ep_arguments := (if td_parameters t = [] then [] else offered_arguments lib t),
      ep_signers := concat (map find_signers (lib_pragma_signers lib (td_doc t))),
      ep_uri := u, ep_version := version\<rparr>"
  using assms
  by (cases e) (simp add: entry_point_update_def Let_def pragma_loop_eq signers_pragma_loop_eq offered_arguments_def)

text \<open>
  C24. A transaction gets one code lens per argument list that its documentation offers (exactly one if it
  takes no arguments), placed at its declaration, and computing them never fails while the client
  has an active account. A lens sends the transaction, with these arguments and signers, exactly when
  there are enough signers and every signer is an account; otherwise it only shows a message.
\<close>

theorem transaction_lenses:
  assumes new: "ep_version e \<noteq> version" and decl: "ck_transaction ck = Some t"
    and active: "fl_active f = Some j" "acct_name (fl_accounts f ! j) = active"
  shows "\<exists>ls. entry_point_codelens lib (Some f) (entry_point_update lib u version ck e) = Some ls \<and>
    list_all2 (transaction_lens lib f u t (offered_signers lib active t)) (offered_arguments lib t) ls"
proof -
  let ?e = "entry_point_update lib u version ck e"
  note up = update_transaction [OF new decl, of lib u]
  have act: "active_name (Some f) = Some active"
    using active by (simp add: active_name_def get_active_client_account_def)
  have "pragma_text ?e k \<noteq> None" if "k < length (offered_arguments lib t)" for k
    using that by (auto simp: up pragma_text_def offered_arguments_def split: if_splits)
  then have "\<exists>ls. codelens_loop lib ?e (Some f) 0 (offered_arguments lib t) [] = Some ([] @ ls) \<and>
      list_all2 (transaction_lens lib f u t (offered_signers lib active t)) (offered_arguments lib t) ls"
    by (intro codelens_loop_transaction transaction_codelens_one [OF _ _ _ _ act])
       (simp_all add: up offered_signers_def Let_def)
  then show ?thesis by (auto simp: entry_point_codelens_def up offered_arguments_def)
qed

text \<open>A transaction that Bob signs, with two pragmas of arguments of which one parses.\<close>

definition demo_lib :: "(unit, string) cadence_lib" where
  "demo_lib =
     \<lparr>lib_pragma_arguments = (\<lambda>d. [''(1)'', ''(x'']), lib_pragma_signers = (\<lambda>d. [d]),
      lib_parse_literals = (\<lambda>s tys. if s = ''(1)'' then Some [''1''] else None),
      lib_arguments_json = (\<lambda>as. ''['' @ concat as @ '']''), lib_enumerate = (\<lambda>ss w. concat ss)\<rparr>"

definition demo_transaction :: "string \<Rightarrow> unit transaction_declaration" where
  "demo_transaction doc =
     \<lparr>td_doc = doc, td_start = \<lparr>pos_offset = 0, pos_line = 1, pos_column = 0\<rparr>, td_parameters = [()], td_prepare = [()]\<rparr>"

definition demo_program :: "string \<Rightarrow> unit checked_program" where
  "demo_program doc =
     \<lparr>ck_transaction = Some (demo_transaction doc), ck_function = None, ck_contract = None, ck_interface = None,
      ck_transactions = [td_start (demo_transaction doc)], ck_composites = [], ck_interfaces = []\<rparr>"

definition two_accounts :: "(unit, unit) flow_client" where
  "two_accounts =
     \<lparr>fl_state = Some (), fl_config = ''/p/flow.json'',
      fl_accounts = [\<lparr>acct_address = 1, acct_name = ''Alice'', acct_active = True, acct_key = None\<rparr>,
                     \<lparr>acct_address = 2, acct_name = ''Bob'', acct_active = False, acct_key = None\<rparr>],
      fl_active = Some 0\<rparr>"

theorem transaction_lenses_witness:
  "map_option (map lens_arguments) (entry_point_codelens demo_lib (Some two_accounts)
     (entry_point_update demo_lib ''a.cdc'' 1 (demo_program ''(Bob)'') new_entry_point_info)) =
     Some [[JStr ''a.cdc'', JStr ''[1]'', JArr [JStr ''Bob'']]] \<and>
   map_option (map lens_command) (entry_point_codelens demo_lib (Some two_accounts)
     (entry_point_update demo_lib ''a.cdc'' 1 (demo_program ''Eve'') new_entry_point_info)) = Some ['''']"
proof -
  have facts: "ep_version (new_entry_point_info :: (unit, string) entry_point_info) \<noteq> 1"
    "ck_transaction (demo_program d) = Some (demo_transaction d)" "fl_active two_accounts = Some 0"
    "acct_name (fl_accounts two_accounts ! 0) = ''Alice''" for d
    by (simp_all add: new_entry_point_info_def demo_program_def two_accounts_def)
  have json: "lib_arguments_json demo_lib [''1''] = ''[1]''" by (simp add: demo_lib_def)
  have args: "offered_arguments demo_lib (demo_transaction d) = [[''1'']]" for d
    by (simp add: offered_arguments_def demo_lib_def demo_transaction_def parsed_pragmas_def)
  have bob: "offered_signers demo_lib ''Alice'' (demo_transaction ''(Bob)'') = [''Bob'']"
    and eve: "offered_signers demo_lib ''Alice'' (demo_transaction ''Eve'') = [''Eve'']" by code_simp+
  have "sendable two_accounts (demo_transaction ''(Bob)'') [''Bob'']"
    "\<not> sendable two_accounts (demo_transaction ''Eve'') [''Eve'']"
    by (simp_all add: sendable_def two_accounts_def demo_transaction_def has_account_def)
  then show ?thesis
    using transaction_lenses [OF facts, where lib = demo_lib and u = "''a.cdc''" and d1 = "''(Bob)''"]
      transaction_lenses [OF facts, where lib = demo_lib and u = "''a.cdc''" and d1 = "''Eve''"]
    by (auto simp: args bob eve transaction_lens_def json names_json_def list_all2_Cons1)
qed

text \<open>
  Lenses outlive what they are for: when a new version of a document has no entry point any more,
  the start and the kind of the old one stay, so a script without parameters is offered for
  execution at the position where it used to be.
\<close>

theorem removed_script_keeps_lens:
  assumes "ep_version e \<noteq> version" "ck_transaction ck = None" "ck_function ck = None"
    and "ep_kind e = EntryPointScript" "ep_start e = Some p" "ep_parameters e = []"
  shows "\<exists>l. entry_point_codelens lib client (entry_point_update lib u version ck e) = Some [l] \<and>
    lens_command l = command_execute_script \<and> lens_range l = ast_to_protocol_range p p \<and>
    lens_arguments l = [JStr u, JStr (lib_arguments_json lib [])]"
  using assms
  by (cases e) (simp add: entry_point_update_def Let_def entry_point_codelens_def script_codelens_def
      pragma_text_def make_code_lens_def encode_json_arguments_def)

definition script_program :: "ast_pos option \<Rightarrow> unit checked_program" where
  "script_program p =
     \<lparr>ck_transaction = None,
      ck_function = map_option (\<lambda>p. \<lparr>ef_doc = '''', ef_start = p, ef_parameters = []\<rparr>) p,
      ck_contract = None, ck_interface = None, ck_transactions = [], ck_composites = [], ck_interfaces = []\<rparr>"

theorem removed_script_keeps_lens_witness:
  "map_option (map lens_command) (entry_point_codelens demo_lib (Some two_accounts)
     (entry_point_update demo_lib ''a.cdc'' 2 (script_program None)
       (entry_point_update demo_lib ''a.cdc'' 1 (script_program (Some \<lparr>pos_offset = 90, pos_line = 9, pos_column = 0\<rparr>))
         new_entry_point_info))) = Some [command_execute_script]"
proof -
  let ?e = "entry_point_update demo_lib ''a.cdc'' 1 (script_program (Some \<lparr>pos_offset = 90, pos_line = 9, pos_column = 0\<rparr>))
      new_entry_point_info"
  have "ep_version ?e = 1" "ep_kind ?e = EntryPointScript"
    "ep_start ?e = Some \<lparr>pos_offset = 90, pos_line = 9, pos_column = 0\<rparr>" "ep_parameters ?e = []"
    by (simp_all add: entry_point_update_def new_entry_point_info_def script_program_def Let_def)
  then show ?thesis
    using removed_script_keeps_lens [of ?e 2 "script_program None" _ demo_lib "Some two_accounts" "''a.cdc''"]
    by (auto simp: script_program_def)
qed

end
