(* ===== verification/ProjectResolvers.thy ===== *)
theory ProjectResolvers
  imports FlowClient Host
begin

text \<open>
  The import resolvers and the account access check of the Flow integration
  (src/languageserver/integration/resolvers.go), and the lookup of a contract's code in a loaded
  state (src/languageserver/integration/state.go). They work on the configuration manager, which the
  integration always sets up, and on two caches per configuration that the manager's reload
  callback invalidates. What flowkit's state knows of a project is the parameter \<open>project_api\<close>.
\<close>

section \<open>State\<close>

record flow_contract =
  fc_name :: string
  fc_location :: string
  fc_aliases :: "(string, flow_address) gomap"

record 'st project_api =
  pj_contracts :: "'st \<Rightarrow> flow_contract list option"
  pj_networks :: "'st \<Rightarrow> string list option"
  pj_deployed :: "'st \<Rightarrow> string \<Rightarrow> string list option"
  pj_by_name :: "'st \<Rightarrow> string \<Rightarrow> flow_contract option"
  pj_address :: "'st \<Rightarrow> flow_contract \<Rightarrow> string \<Rightarrow> flow_address option"
  pj_account :: "nat \<Rightarrow> flow_address \<Rightarrow> (string, (string, string) gomap) result"
  pj_symlinks :: "string \<Rightarrow> string option"
  pj_crypto_location :: string
  pj_crypto :: string

type_synonym contract_map = "(string, flow_address) gomap"
type_synonym network_contract_map = "(string, contract_map) gomap"
type_synonym file_contract_map = "(string, string) gomap"

record 'st resolvers =
  rv_manager :: "'st manager"
  rv_names :: "(string, network_contract_map) gomap"
  rv_files :: "(string, file_contract_map) gomap"

definition new_resolvers :: "'st manager \<Rightarrow> 'st resolvers" where
  "new_resolvers m = \<lparr>rv_manager = m, rv_names = [], rv_files = []\<rparr>"

definition invalidate_cache :: "string \<Rightarrow> 'st resolvers \<Rightarrow> 'st resolvers" where
  "invalidate_cache cfg r =
     r\<lparr>rv_names := AList.delete cfg (rv_names r), rv_files := AList.delete cfg (rv_files r)\<rparr>"

text \<open>
  A step of the manager; the callback the integration registered is called for every reload that
  the step reports.
\<close>

definition with_manager :: "'st manager \<Rightarrow> 'st resolvers \<Rightarrow> 'st resolvers" where
  "with_manager m r =
     fold invalidate_cache (drop (length (cm_notified (rv_manager r))) (cm_notified m)) (r\<lparr>rv_manager := m\<rparr>)"

section \<open>Code of a contract (state.go)\<close>

definition code_from_location :: "'st world \<Rightarrow> 'st flow_state \<Rightarrow> string \<Rightarrow> (string, string) result" where
  "code_from_location w st location = w_read w (go_join [go_dir (fs_config st), location])"

definition get_code_by_name ::
    "'st project_api \<Rightarrow> 'st world \<Rightarrow> 'st flow_state \<Rightarrow> string \<Rightarrow> (string, string) result" where
  "get_code_by_name api w st name =
     (case fs_loaded st of
        None \<Rightarrow> Inl ''state is not initialized''
      | Some s \<Rightarrow>
          (if \<not> state_is_loaded st then Inl ''state is not initialized''
           else case pj_by_name api s name of
             None \<Rightarrow> Inl (''couldn't find the contract by import identifier: '' @ name)
           | Some k \<Rightarrow>
               (if fc_location k = ''''
                then Inl (''source file could not be found for import identifier: '' @ name)
                else code_from_location w st (fc_location k))))"

section \<open>Imports\<close>

definition is_contract_name :: "string \<Rightarrow> bool" where
  "is_contract_name s \<longleftrightarrow> \<not> has_suffix s ''.cdc''"

definition state_object :: "'st manager \<Rightarrow> nat \<Rightarrow> 'st flow_state" where
  "state_object m a = (case map_of (cm_heap m) a of Some st \<Rightarrow> st | None \<Rightarrow> new_flowkit_state)"

definition mapped_source :: "'st world \<Rightarrow> string \<Rightarrow> string \<Rightarrow> (string, string) result" where
  "mapped_source w project name =
     (case contract_source_for_project w project name of
        Inl _ \<Rightarrow> Inl ''failed to resolve project state''
      | Inr mapped \<Rightarrow> if mapped \<noteq> '''' then Inr mapped else Inl ''failed to resolve project state'')"

definition resolve_string_identifier_import ::
    "'st project_api \<Rightarrow> 'st world \<Rightarrow> 'st manager \<Rightarrow> string \<Rightarrow> string \<Rightarrow> (string, string) result \<times> 'st manager" where
  "resolve_string_identifier_import api w m project name =
     (if project = '''' then (Inl ''no project context available for identifier import'', m)
      else case resolve_state_for_project w m project of
        (Inr (Some a), m1) \<Rightarrow>
          (case get_code_by_name api w (state_object m1 a) name of
             Inr code \<Rightarrow> (Inr code, m1)
           | Inl _ \<Rightarrow> (mapped_source w project name, m1))
      | (_, m1) \<Rightarrow> (mapped_source w project name, m1))"

definition outside_project :: "'st world \<Rightarrow> string \<Rightarrow> string \<Rightarrow> bool" where
  "outside_project w project path \<longleftrightarrow>
     \<not> is_path_in_project w project path \<or> \<not> is_same_project w project path"

definition resolve_file_import :: "'st world \<Rightarrow> string \<Rightarrow> string \<Rightarrow> (string, string) result" where
  "resolve_file_import w project name =
     (let filename = de_uri (clean_windows_path name)
      in case w_read w filename of
           Inr data \<Rightarrow>
             (if project \<noteq> '''' \<and> outside_project w project filename
              then Inl ''import path crosses outside project root'' else Inr data)
         | Inl _ \<Rightarrow>
             (let cfg = (if project \<noteq> '''' \<and> \<not> is_abs filename then config_path_for_project w project else '''')
              in if cfg \<noteq> ''''
                 then let candidate = go_join [go_dir cfg, filename]
                      in if outside_project w project candidate
                         then Inl ''import path crosses outside project root''
                         else case w_read w candidate of
                           Inr data \<Rightarrow> Inr data
                         | Inl _ \<Rightarrow> w_read w filename
                 else w_read w filename))"

definition string_import ::
    "'st project_api \<Rightarrow> 'st world \<Rightarrow> 'st manager \<Rightarrow> string \<Rightarrow> string \<Rightarrow> (string, string) result \<times> 'st manager" where
  "string_import api w m project name =
     (if is_contract_name name then resolve_string_identifier_import api w m project name
      else (resolve_file_import w project name, m))"

definition address_import ::
    "'st project_api \<Rightarrow> 'st world \<Rightarrow> 'st manager \<Rightarrow> string \<Rightarrow> flow_address \<Rightarrow> string \<Rightarrow>
     (string, string) result \<times> 'st manager" where
  "address_import api w m project addr name =
     (if project = '''' then (Inl ''client is not initialized'', m)
      else case resolve_client_for_project w m project of
        (Inr (Some c), m1) \<Rightarrow>
          (case pj_account api c addr of
             Inl e \<Rightarrow> (Inl e, m1)
           | Inr contracts \<Rightarrow> (Inr (case map_of contracts name of None \<Rightarrow> '''' | Some code \<Rightarrow> code), m1))
      | (_, m1) \<Rightarrow> (Inl ''client is not initialized'', m1))"

definition identifier_import_project :: "'st project_api \<Rightarrow> string \<Rightarrow> (string, string) result" where
  "identifier_import_project api name =
     (if name = pj_crypto_location api then Inr (pj_crypto api)
      else Inl (''unknown identifier location: '' @ name))"

definition address_contract_names ::
    "'st project_api \<Rightarrow> 'st manager \<Rightarrow> flow_address \<Rightarrow> (string, string list) result" where
  "address_contract_names api m addr =
     (case default_client m of
        None \<Rightarrow> Inl ''client is not initialized''
      | Some c \<Rightarrow> (case pj_account api c addr of Inl e \<Rightarrow> Inl e | Inr cs \<Rightarrow> Inr (map fst cs)))"

section \<open>Contract addresses per network\<close>

fun alias_loop :: "flow_contract list \<Rightarrow> string \<Rightarrow> contract_map \<Rightarrow> contract_map" where
  "alias_loop [] network m = m"
| "alias_loop (k # ks) network m =
     alias_loop ks network
       (case map_of (fc_aliases k) network of None \<Rightarrow> m | Some addr \<Rightarrow> AList.update (fc_name k) addr m)"

fun deployment_loop :: "'st project_api \<Rightarrow> 'st \<Rightarrow> string \<Rightarrow> string list \<Rightarrow> contract_map \<Rightarrow> contract_map" where
  "deployment_loop api s network [] m = m"
| "deployment_loop api s network (d # ds) m =
     deployment_loop api s network ds
       (case pj_by_name api s d of
          None \<Rightarrow> m
        | Some k \<Rightarrow> (case pj_address api s k network of None \<Rightarrow> m | Some addr \<Rightarrow> AList.update d addr m))"

definition network_contracts :: "'st project_api \<Rightarrow> 'st \<Rightarrow> string \<Rightarrow> contract_map" where
  "network_contracts api s network =
     (let m1 = (case pj_contracts api s of None \<Rightarrow> [] | Some ks \<Rightarrow> alias_loop ks network [])
      in case pj_deployed api s network of
           None \<Rightarrow> m1 | Some ds \<Rightarrow> deployment_loop api s network ds m1)"

fun network_loop :: "'st project_api \<Rightarrow> 'st \<Rightarrow> string list \<Rightarrow> network_contract_map \<Rightarrow> network_contract_map" where
  "network_loop api s [] acc = acc"
| "network_loop api s (n # ns) acc =
     network_loop api s ns
       (let m = network_contracts api s n in if length m > 0 then AList.update n m acc else acc)"

definition build_name_to_address ::
    "'st project_api \<Rightarrow> 'st flow_state \<Rightarrow> 'st resolvers \<Rightarrow> network_contract_map \<times> 'st resolvers" where
  "build_name_to_address api st r =
     (case fs_loaded st of
        None \<Rightarrow> ([], r)
      | Some s \<Rightarrow>
          (case (if fs_config st \<noteq> '''' then map_of (rv_names r) (fs_config st) else None) of
             Some cached \<Rightarrow> (cached, r)
           | None \<Rightarrow>
               (case pj_networks api s of
                  None \<Rightarrow> ([], r)
                | Some ns \<Rightarrow>
                    (let m = network_loop api s ns []
                     in (m, if fs_config st \<noteq> '''' then r\<lparr>rv_names := AList.update (fs_config st) m (rv_names r)\<rparr>
                            else r)))))"

section \<open>Contract names of files\<close>

definition normalize_abs :: "'st project_api \<Rightarrow> string \<Rightarrow> string \<Rightarrow> string \<Rightarrow> string" where
  "normalize_abs api cwd base p =
     (if p = '''' then ''''
      else let p1 = de_uri (clean_windows_path p);
               p2 = (if base \<noteq> '''' \<and> \<not> is_abs p1 then go_join [base, p1] else p1);
               p3 = go_abs cwd p2
           in case pj_symlinks api p3 of Some rp \<Rightarrow> rp | None \<Rightarrow> p3)"

fun file_loop :: "'st project_api \<Rightarrow> string \<Rightarrow> string \<Rightarrow> flow_contract list \<Rightarrow> file_contract_map \<Rightarrow> file_contract_map" where
  "file_loop api cwd dir [] m = m"
| "file_loop api cwd dir (k # ks) m =
     file_loop api cwd dir ks
       (let p = normalize_abs api cwd dir (fc_location k) in if p \<noteq> '''' then AList.update p (fc_name k) m else m)"

definition build_file_to_contract ::
    "'st project_api \<Rightarrow> string \<Rightarrow> 'st flow_state \<Rightarrow> 'st resolvers \<Rightarrow> file_contract_map \<times> 'st resolvers" where
  "build_file_to_contract api cwd st r =
     (case fs_loaded st of
        None \<Rightarrow> ([], r)
      | Some s \<Rightarrow>
          (case (if fs_config st \<noteq> '''' then map_of (rv_files r) (fs_config st) else None) of
             Some cached \<Rightarrow> (cached, r)
           | None \<Rightarrow>
               (case pj_contracts api s of
                  None \<Rightarrow> ([], r)
                | Some ks \<Rightarrow>
                    (let m = file_loop api cwd (go_dir (fs_config st)) ks []
                     in (m, if fs_config st \<noteq> '''' then r\<lparr>rv_files := AList.update (fs_config st) m (rv_files r)\<rparr>
                            else r)))))"

section \<open>Account access\<close>

definition resolve_contract_name :: "'st project_api \<Rightarrow> string \<Rightarrow> file_contract_map \<Rightarrow> string \<Rightarrow> string" where
  "resolve_contract_name api cwd files loc =
     (if is_contract_name loc then loc
      else case map_of files (normalize_abs api cwd '''' loc) of Some name \<Rightarrow> name | None \<Rightarrow> '''')"

definition same_address :: "network_contract_map \<Rightarrow> string \<Rightarrow> string \<Rightarrow> bool" where
  "same_address nets a b \<longleftrightarrow>
     list_ex (\<lambda>(n, m). case (map_of m a, map_of m b) of (Some x, Some y) \<Rightarrow> x = y | _ \<Rightarrow> False) nets"

definition account_access ::
    "'st project_api \<Rightarrow> 'st world \<Rightarrow> 'st resolvers \<Rightarrow> string \<Rightarrow> location \<Rightarrow> location \<Rightarrow>
     bool \<times> 'st resolvers" where
  "account_access api w r project checker_loc member_loc =
     (case (checker_loc, member_loc) of
        (AddressLocation a _, AddressLocation b _) \<Rightarrow> (a = b, r)
      | _ \<Rightarrow>
          (case resolve_state_for_project w (rv_manager r) project of
             (Inr (Some st), m1) \<Rightarrow>
               (let r1 = with_manager m1 r;
                    (nets, r2) = build_name_to_address api (state_object m1 st) r1
                in if length nets = 0 then (False, r2)
                   else let (files, r3) = build_file_to_contract api (w_cwd w) (state_object m1 st) r2
                        in case (checker_loc, member_loc) of
                             (StringLocation c, StringLocation d) \<Rightarrow>
                               (let cn = resolve_contract_name api (w_cwd w) files c;
                                    mn = resolve_contract_name api (w_cwd w) files d
                                in (cn \<noteq> '''' \<and> mn \<noteq> '''' \<and> same_address nets cn mn, r3))
                           | _ \<Rightarrow> (False, r3))
           | (_, m1) \<Rightarrow> (False, with_manager m1 r)))"

section \<open>The maps\<close>

lemma with_manager_manager [simp]: "rv_manager (with_manager m r) = m"
proof -
  have "rv_manager (fold invalidate_cache xs x) = rv_manager x" for xs and x :: "'a resolvers"
    by (induction xs arbitrary: x) (simp_all add: invalidate_cache_def)
  then show ?thesis by (simp add: with_manager_def)
qed

lemma with_manager_quiet: "cm_notified m = cm_notified (rv_manager r) \<Longrightarrow> with_manager m r = r\<lparr>rv_manager := m\<rparr>"
  by (simp add: with_manager_def)

text \<open>The address of a contract: where it is deployed, otherwise the last alias given for its name.\<close>

definition deployed_address :: "'st project_api \<Rightarrow> 'st \<Rightarrow> string \<Rightarrow> string \<Rightarrow> flow_address option" where
  "deployed_address api s network name =
     (case pj_by_name api s name of None \<Rightarrow> None | Some k \<Rightarrow> pj_address api s k network)"

definition alias_address :: "flow_contract list \<Rightarrow> string \<Rightarrow> string \<Rightarrow> flow_address option" where
  "alias_address ks network name =
     (case filter (\<lambda>k. fc_name k = name \<and> map_of (fc_aliases k) network \<noteq> None) (rev ks) of
        [] \<Rightarrow> None | k # _ \<Rightarrow> map_of (fc_aliases k) network)"

definition contract_address :: "'st project_api \<Rightarrow> 'st \<Rightarrow> string \<Rightarrow> string \<Rightarrow> flow_address option" where
  "contract_address api s network name =
     (let ds = (case pj_deployed api s network of None \<Rightarrow> [] | Some ds \<Rightarrow> ds);
          ks = (case pj_contracts api s of None \<Rightarrow> [] | Some ks \<Rightarrow> ks);
          here = (if name \<in> set ds then deployed_address api s network name else None)
      in case here of Some a \<Rightarrow> Some a | None \<Rightarrow> alias_address ks network name)"

lemma alias_address_Nil [simp]: "alias_address [] network name = None"
  by (simp add: alias_address_def)

lemma alias_address_Cons:
  "alias_address (k # ks) network name =
     (case alias_address ks network name of
        Some a \<Rightarrow> Some a | None \<Rightarrow> if fc_name k = name then map_of (fc_aliases k) network else None)"
proof (cases "filter (\<lambda>k. fc_name k = name \<and> map_of (fc_aliases k) network \<noteq> None) (rev ks)")
  case Nil
  then show ?thesis by (simp add: alias_address_def)
next
  case (Cons x xs)
  then have "x \<in> set (filter (\<lambda>k. fc_name k = name \<and> map_of (fc_aliases k) network \<noteq> None) (rev ks))"
    by simp
  then have "map_of (fc_aliases x) network \<noteq> None" by simp
  then show ?thesis using Cons by (auto simp: alias_address_def)
qed

lemma map_of_alias_loop:
  "map_of (alias_loop ks network m) name =
     (case alias_address ks network name of Some a \<Rightarrow> Some a | None \<Rightarrow> map_of m name)"
  by (induction ks arbitrary: m)
    (auto simp: alias_address_Cons update_conv' split: option.splits)

lemma map_of_deployment_loop:
  "map_of (deployment_loop api s network ds m) name =
     (case (if name \<in> set ds then deployed_address api s network name else None) of
        Some a \<Rightarrow> Some a | None \<Rightarrow> map_of m name)"
  by (induction ds arbitrary: m)
    (auto simp: deployed_address_def update_conv' split: option.splits)

lemma map_of_network_contracts: "map_of (network_contracts api s n) name = contract_address api s n name"
  by (auto simp: network_contracts_def contract_address_def Let_def map_of_deployment_loop map_of_alias_loop
      split: option.splits)

lemma map_of_network_loop:
  "map_of (network_loop api s ns acc) n =
     (if n \<in> set ns \<and> network_contracts api s n \<noteq> [] then Some (network_contracts api s n) else map_of acc n)"
  by (induction ns arbitrary: acc) (auto simp: Let_def update_conv')

lemma distinct_network_loop: "distinct (map fst acc) \<Longrightarrow> distinct (map fst (network_loop api s ns acc))"
  by (induction ns arbitrary: acc) (auto simp: Let_def distinct_update)

lemma same_address_network_loop:
  "same_address (network_loop api s ns []) a b \<longleftrightarrow>
     (\<exists>n \<in> set ns. contract_address api s n a \<noteq> None \<and> contract_address api s n a = contract_address api s n b)"
proof -
  have look: "(n, m) \<in> set (network_loop api s ns []) \<longleftrightarrow>
      n \<in> set ns \<and> network_contracts api s n \<noteq> [] \<and> m = network_contracts api s n" for n m
    using map_of_eq_Some_iff [OF distinct_network_loop [of "[]" api s ns], of n m]
      map_of_network_loop [of api s ns "[]" n]
    by (auto split: if_splits)
  have full: "network_contracts api s n \<noteq> []" if "contract_address api s n a \<noteq> None" for n
    using that map_of_network_contracts [of api s n a] by auto
  show ?thesis
  proof
    assume "same_address (network_loop api s ns []) a b"
    then obtain n where "n \<in> set ns"
        and "case (contract_address api s n a, contract_address api s n b) of
               (Some x, Some y) \<Rightarrow> x = y | _ \<Rightarrow> False"
      unfolding same_address_def list_ex_iff
      by (force simp only: look map_of_network_contracts case_prod_unfold split_paired_all fst_conv snd_conv)
    then show "\<exists>n \<in> set ns. contract_address api s n a \<noteq> None \<and> contract_address api s n a = contract_address api s n b"
      by (intro bexI [of _ n]) (auto split: option.splits)
  next
    assume "\<exists>n \<in> set ns. contract_address api s n a \<noteq> None \<and> contract_address api s n a = contract_address api s n b"
    then obtain n x where n: "n \<in> set ns" "contract_address api s n a = Some x" "contract_address api s n b = Some x"
      by (metis option.exhaust)
    then have "(n, network_contracts api s n) \<in> set (network_loop api s ns [])"
      using full [of n] by (simp add: look)
    then show "same_address (network_loop api s ns []) a b"
      unfolding same_address_def list_ex_iff using n
      by (intro bexI [of _ "(n, network_contracts api s n)"]) (simp_all add: map_of_network_contracts)
  qed
qed

text \<open>
  C22. A file import never leaves the project: when a string location of a project resolves to code, the
  code is that of a file whose absolute path extends the directory of the project's configuration
  and that has no other configuration nearer to it.
\<close>

theorem file_imports_stay_in_project:
  assumes "is_abs (w_cwd w)" "project \<noteq> ''''" "resolve_file_import w project name = Inr code"
  shows "\<exists>p rest. w_read w p = Inr code \<and> p \<noteq> '''' \<and>
    path_comps (go_abs (w_cwd w) p) =
      path_comps (go_abs (w_cwd w) (go_dir (config_path_for_project w project))) @ rest \<and>
    nearest_config_path w p \<in> {''''} \<union>
      {c. go_abs (w_cwd w) (clean_windows_path c) = config_path_for_project w project}"
proof -
  obtain p where p: "w_read w p = Inr code" "\<not> outside_project w project p"
    using assms(2,3) by (auto simp: resolve_file_import_def Let_def split: sum.splits if_splits)
  then have "is_path_in_project w project p" "is_same_project w project p"
    by (simp_all add: outside_project_def)
  then show ?thesis
    using p(1) config_path_nonempty [OF assms(1,2)]
    unfolding is_path_in_project_iff [OF assms(1)] is_same_project_def Let_def
    by (auto split: if_splits)
qed

definition files_world :: "(string \<times> string) list \<Rightarrow> string list \<Rightarrow> string world" where
  "files_world files stats =
     (demo_world stats)\<lparr>w_read := (\<lambda>p. case map_of files p of Some d \<Rightarrow> Inr d | None \<Rightarrow> Inl ''no such file'')\<rparr>"

theorem file_imports_stay_in_project_witness:
  "(\<exists>p rest. w_read (files_world [(''/p/a.cdc'', ''A'')] [''/p/flow.json'']) p = Inr ''A'' \<and>
      path_comps (go_abs ''/'' p) = ''p'' # rest) \<and>
   resolve_file_import (files_world [(''/o/a.cdc'', ''A'')] [''/p/flow.json'']) ''/p/flow.json'' ''../o/a.cdc'' =
     Inl ''import path crosses outside project root''"
proof -
  let ?w = "files_world [(''/p/a.cdc'', ''A'')] [''/p/flow.json'']"
  have run: "resolve_file_import ?w ''/p/flow.json'' ''a.cdc'' = Inr ''A''" by code_simp
  have cwd: "is_abs (w_cwd ?w)" by code_simp
  have root: "path_comps (go_abs (w_cwd ?w) (go_dir (config_path_for_project ?w ''/p/flow.json''))) = [''p'']"
    by code_simp
  have "w_cwd ?w = ''/''" by code_simp
  with file_imports_stay_in_project [OF cwd _ run] root
  have "\<exists>p rest. w_read ?w p = Inr ''A'' \<and> path_comps (go_abs ''/'' p) = ''p'' # rest" by force
  moreover have "resolve_file_import (files_world [(''/o/a.cdc'', ''A'')] [''/p/flow.json'']) ''/p/flow.json'' ''../o/a.cdc'' =
     Inl ''import path crosses outside project root''" by code_simp
  ultimately show ?thesis by blast
qed

section \<open>Who may use access(account)\<close>

text \<open>The name of the contract that a file location stands for: the last contract with this source.\<close>

definition file_contract :: "'st project_api \<Rightarrow> string \<Rightarrow> string \<Rightarrow> flow_contract list \<Rightarrow> string \<Rightarrow> string option" where
  "file_contract api cwd dir ks path =
     map_option fc_name (find (\<lambda>k. normalize_abs api cwd dir (fc_location k) = path) (rev ks))"

definition location_contract :: "'st project_api \<Rightarrow> string \<Rightarrow> string \<Rightarrow> flow_contract list \<Rightarrow> string \<Rightarrow> string" where
  "location_contract api cwd dir ks loc =
     (if is_contract_name loc then loc
      else case file_contract api cwd dir ks (normalize_abs api cwd '''' loc) of Some name \<Rightarrow> name | None \<Rightarrow> '''')"

text \<open>The cached maps of a configuration are those of the state that is loaded for it.\<close>

definition caches_current :: "'st project_api \<Rightarrow> string \<Rightarrow> 'st flow_state \<Rightarrow> 'st resolvers \<Rightarrow> bool" where
  "caches_current api cwd st r \<longleftrightarrow>
     (case (fs_loaded st, map_of (rv_names r) (fs_config st)) of
        (Some s, Some m) \<Rightarrow> m = network_loop api s (case pj_networks api s of None \<Rightarrow> [] | Some ns \<Rightarrow> ns) []
      | _ \<Rightarrow> True) \<and>
     (case (fs_loaded st, map_of (rv_files r) (fs_config st)) of
        (Some s, Some m) \<Rightarrow>
          m = file_loop api cwd (go_dir (fs_config st)) (case pj_contracts api s of None \<Rightarrow> [] | Some ks \<Rightarrow> ks) []
      | _ \<Rightarrow> True)"

lemma map_of_file_loop:
  "path \<noteq> '''' \<Longrightarrow> map_of (file_loop api cwd dir ks m) path =
     (case file_contract api cwd dir ks path of Some n \<Rightarrow> Some n | None \<Rightarrow> map_of m path)"
  by (induction ks arbitrary: m)
    (auto simp: file_contract_def find_append Let_def update_conv' split: option.splits)

lemma resolve_contract_name_location:
  assumes "is_abs cwd" "\<forall>p q. pj_symlinks api p = Some q \<longrightarrow> q \<noteq> ''''"
  shows "resolve_contract_name api cwd (file_loop api cwd dir ks []) loc = location_contract api cwd dir ks loc"
proof (cases "is_contract_name loc")
  case False
  then have "loc \<noteq> ''''" by (auto simp: is_contract_name_def has_suffix_def)
  then have "normalize_abs api cwd '''' loc \<noteq> ''''"
    using assms go_abs_clean_abs(1) [OF assms(1), THEN is_abs_nonempty]
    by (simp add: normalize_abs_def Let_def split: option.split)
  with False show ?thesis
    by (simp add: resolve_contract_name_def location_contract_def map_of_file_loop split: option.split)
qed (simp add: resolve_contract_name_def location_contract_def)

lemma load_state_notifies: "cm_notified (snd (load_state w cfg m)) = cm_notified m"
  by (auto simp: load_state_def Let_def ensure_watcher_def split: option.splits prod.splits)

lemma state_for_config_notifies: "cm_notified (snd (state_for_config w cfg m)) = cm_notified m"
  using load_state_notifies [of w cfg m]
  by (auto simp: state_for_config_def set_last_used_def split: option.splits prod.splits sum.splits)

lemma resolve_state_notifies: "cm_notified (snd (resolve_state_for_project w m project)) = cm_notified m"
  using load_state_notifies [of w "cm_last_used m" m]
  by (auto simp: resolve_state_for_project_def state_for_config_notifies split: prod.splits sum.splits)

lemma fst_build_name_to_address:
  "fs_loaded st = Some s \<Longrightarrow> fs_config st \<noteq> '''' \<Longrightarrow>
   fst (build_name_to_address api st r) =
     (case map_of (rv_names r) (fs_config st) of
        Some m \<Rightarrow> m | None \<Rightarrow> network_loop api s (case pj_networks api s of None \<Rightarrow> [] | Some ns \<Rightarrow> ns) [])"
  by (auto simp: build_name_to_address_def Let_def split: option.split)

lemma fst_build_file_to_contract:
  "fs_loaded st = Some s \<Longrightarrow> fs_config st \<noteq> '''' \<Longrightarrow>
   fst (build_file_to_contract api cwd st r) =
     (case map_of (rv_files r) (fs_config st) of
        Some m \<Rightarrow> m
      | None \<Rightarrow> file_loop api cwd (go_dir (fs_config st)) (case pj_contracts api s of None \<Rightarrow> [] | Some ks \<Rightarrow> ks) [])"
  by (auto simp: build_file_to_contract_def Let_def split: option.split)

lemma build_name_keeps_files: "rv_files (snd (build_name_to_address api st r)) = rv_files r"
  by (auto simp: build_name_to_address_def Let_def split: option.split)

text \<open>The check over the two maps of the state that the project resolves to.\<close>

lemma account_access_maps:
  assumes "resolve_state_for_project w (rv_manager r) project = (Inr (Some a), m1)"
  shows "fst (account_access api w r project (StringLocation c) (StringLocation d)) \<longleftrightarrow>
    (let nets = fst (build_name_to_address api (state_object m1 a) (r\<lparr>rv_manager := m1\<rparr>));
         files = fst (build_file_to_contract api (w_cwd w) (state_object m1 a)
                   (snd (build_name_to_address api (state_object m1 a) (r\<lparr>rv_manager := m1\<rparr>))));
         cn = resolve_contract_name api (w_cwd w) files c;
         dn = resolve_contract_name api (w_cwd w) files d
     in cn \<noteq> '''' \<and> dn \<noteq> '''' \<and> same_address nets cn dn)"
proof -
  have "with_manager m1 r = r\<lparr>rv_manager := m1\<rparr>"
    using resolve_state_notifies [of w "rv_manager r" project] assms by (simp add: with_manager_quiet)
  moreover obtain nets r2 where
      nets: "build_name_to_address api (state_object m1 a) (r\<lparr>rv_manager := m1\<rparr>) = (nets, r2)" by force
  moreover obtain files r3 where
      files: "build_file_to_contract api (w_cwd w) (state_object m1 a) r2 = (files, r3)" by force
  ultimately show ?thesis
    using assms by (cases "nets = []") (simp_all add: account_access_def same_address_def Let_def)
qed


text \<open>Two contracts with an alias on testnet; the loaded state is the network address of the second.\<close>

definition demo_contracts :: "flow_address \<Rightarrow> flow_contract list" where
  "demo_contracts a =
     [\<lparr>fc_name = ''A'', fc_location = ''a.cdc'', fc_aliases = [(''testnet'', 1)]\<rparr>,
      \<lparr>fc_name = ''B'', fc_location = ''b.cdc'', fc_aliases = [(''testnet'', a)]\<rparr>]"

definition demo_api :: "flow_address project_api" where
  "demo_api =
     \<lparr>pj_contracts = (\<lambda>a. Some (demo_contracts a)), pj_networks = (\<lambda>a. Some [''mainnet'', ''testnet'']),
      pj_deployed = (\<lambda>a n. Some []), pj_by_name = (\<lambda>a n. find (\<lambda>k. fc_name k = n) (demo_contracts a)),
      pj_address = (\<lambda>a k n. map_of (fc_aliases k) n), pj_account = (\<lambda>c a. Inl ''offline''),
      pj_symlinks = (\<lambda>p. None), pj_crypto_location = ''Crypto'', pj_crypto = ''''\<rparr>"

definition address_world :: "(string, flow_address) result \<Rightarrow> flow_address world" where
  "address_world load =
     \<lparr>w_cwd = ''/p'', w_stat = (\<lambda>p. p = ''/p/flow.json''), w_read = (\<lambda>p. Inl p), w_load = (\<lambda>p. load),
      w_init = (\<lambda>st n. None), w_watch = (\<lambda>p. True), w_contracts = (\<lambda>d. Inl d)\<rparr>"

definition demo_resolvers :: "flow_address resolvers" where
  "demo_resolvers = new_resolvers (set_on_config_reload (new_config_manager False 0 ''''))"


text \<open>
  A configuration that is broken for a moment leaves old addresses behind: when a reload fails, the
  state is dropped without telling the resolvers, and when the repaired file is loaded on the next
  use nothing tells them either, so access is decided by the addresses from before the edit,
  whatever the new configuration says.
\<close>

theorem repaired_config_keeps_old_addresses:
  assumes known: "map_of (cm_states m) cfg = Some a" "map_of (cm_heap m) a = Some st"
      "state_is_loaded st" "fs_config st = cfg" "rv_manager r = m"
    and cached: "map_of (rv_names r) cfg = Some old"
    and broken: "w_load w1 cfg = Inl e"
    and later: "config_path_for_project w2 project = cfg" "project \<noteq> ''''"
      "go_abs (w_cwd w2) (clean_windows_path cfg) = cfg" "w_load w2 cfg = Inr s"
    and names: "is_contract_name c" "is_contract_name d" "c \<noteq> ''''" "d \<noteq> ''''"
  shows "fst (account_access api w2 (with_manager (watch_fire w1 cfg m) r) project
           (StringLocation c) (StringLocation d)) \<longleftrightarrow> same_address old c d"
proof -
  let ?m1 = "watch_fire w1 cfg m"
  have "reload_at w1 a m = (Some e, m\<lparr>cm_heap := AList.update a st (cm_heap m)\<rparr>)"
    using known broken by (simp add: reload_at_def state_reload_def state_load_def)
  then have fired: "map_of (cm_states ?m1) cfg = None" "cm_notified ?m1 = cm_notified m"
    using known(1) by (simp_all add: watch_fire_def Let_def invalidate_index_for_config_def
        reload_client_def delete_conv' split: option.split)
  have r1: "with_manager ?m1 r = r\<lparr>rv_manager := ?m1\<rparr>"
    using fired(2) known(5) by (simp add: with_manager_quiet)
  have none: "loaded_state_at ?m1 cfg = None"
    using fired(1) by (simp add: loaded_state_at_def state_at_def)
  obtain m2 where res: "resolve_state_for_project w2 ?m1 project = (Inr (Some (cm_next ?m1)), m2)"
      and obj: "state_object m2 (cm_next ?m1) = \<lparr>fs_loaded = Some s, fs_config = cfg\<rparr>"
    using none later
    by (simp add: resolve_state_for_project_def state_for_config_def load_state_def Let_def
        state_load_def new_flowkit_state_def state_object_def set_last_used_def ensure_watcher_def update_conv')
  have "cfg \<noteq> ''''" using known(3,4) by (simp add: state_is_loaded_def)
  then have "fst (build_name_to_address api (state_object m2 (cm_next ?m1)) (r\<lparr>rv_manager := m2\<rparr>)) = old"
    using cached by (simp add: obj fst_build_name_to_address)
  then show ?thesis
    using names account_access_maps [of w2 "with_manager ?m1 r" project "cm_next ?m1" m2 api c d] res
    by (simp add: r1 Let_def resolve_contract_name_def)
qed

text \<open>B moves to the address of A, but the first version that is saved does not parse.\<close>

definition asked_resolvers :: "flow_address resolvers" where
  "asked_resolvers = snd (account_access demo_api (address_world (Inr 2)) demo_resolvers ''/p/flow.json''
     (StringLocation ''A'') (StringLocation ''B''))"

theorem repaired_config_keeps_old_addresses_witness:
  "\<not> fst (account_access demo_api (address_world (Inr 1))
      (with_manager (watch_fire (address_world (Inl ''bad'')) ''/p/flow.json'' (rv_manager asked_resolvers)) asked_resolvers)
      ''/p/flow.json'' (StringLocation ''A'') (StringLocation ''B''))"
proof -
  have known: "map_of (cm_states (rv_manager asked_resolvers)) ''/p/flow.json'' = Some 0"
    "map_of (cm_heap (rv_manager asked_resolvers)) 0 = Some \<lparr>fs_loaded = Some 2, fs_config = ''/p/flow.json''\<rparr>"
    "map_of (rv_names asked_resolvers) ''/p/flow.json'' = Some [(''testnet'', [(''A'', 1), (''B'', 2)])]"
    by code_simp+
  have later: "config_path_for_project (address_world (Inr 1)) ''/p/flow.json'' = ''/p/flow.json''"
    "go_abs (w_cwd (address_world (Inr 1))) (clean_windows_path ''/p/flow.json'') = ''/p/flow.json''" by code_simp+
  have "\<not> same_address [(''testnet'', [(''A'', 1), (''B'', 2 :: flow_address)])] ''A'' ''B''"
    by (simp add: same_address_def)
  then show ?thesis
    using repaired_config_keeps_old_addresses [OF known(1,2) _ _ refl known(3) _ later(1) _ later(2),
        where ?w1.0 = "address_world (Inl ''bad'')" and e = "''bad''" and s = 1 and c = "''A''" and d = "''B''"
          and api = demo_api]
    by (simp add: state_is_loaded_def address_world_def is_contract_name_def has_suffix_def)
qed

end
