(* ===== verification/Commands.thy ===== *)
theory Commands
  imports EntryPoints ProjectResolvers
begin

text \<open>
  The commands of the Flow integration (src/languageserver/integration/commands.go) with the argument
  count check of the server (src/languageserver/server/command.go). A command runs in an
  environment: the configuration manager, the clients it refers to by address, and the chain. A
  client that the manager creates shares the state object it was created for. Results are the
  formatted strings' parts; errors are constructors. \<open>None\<close> is a run-time panic.
\<close>

section \<open>Arguments\<close>

datatype command_error =
    WrongArgumentCount nat nat
  | InvalidUriArgument
  | InvalidPathArgument string
  | InvalidArguments
  | InvalidEncoding string string
  | InvalidSignerList
  | InvalidName
  | InvalidSignerName
  | ClientNotInitialized
  | NoSuchSigner string
  | TransactionError flow_error
  | ScriptError flow_error
  | CreateAccountError flow_error
  | DeployError flow_error
  | SwitchError flow_error
  | ReloadError string

datatype 'k command_result =
    NoResult
  | TransactionDone string string string
  | ScriptDone string
  | SwitchedTo string
  | AccountList "'k client_account list"
  | CreatedAccount "'k client_account"
  | Deployed string string

definition check_command_argument_count :: "json list \<Rightarrow> nat \<Rightarrow> command_error option" where
  "check_command_argument_count args n =
     (if length args \<noteq> n then Some (WrongArgumentCount n (length args)) else None)"

text \<open>\<^verbatim>\<open>json.Unmarshal\<close> into a string and into a list of strings: \<^verbatim>\<open>null\<close> leaves the zero value.\<close>

fun unmarshal_elements :: "json list \<Rightarrow> string list option" where
  "unmarshal_elements [] = Some []"
| "unmarshal_elements (j # js) =
     (case unmarshal_string '''' j of
        None \<Rightarrow> None | Some s \<Rightarrow> map_option ((#) s) (unmarshal_elements js))"

fun unmarshal_strings :: "json \<Rightarrow> string list option" where
  "unmarshal_strings (JArr js) = unmarshal_elements js"
| "unmarshal_strings JNull = Some []"
| "unmarshal_strings _ = None"

section \<open>Locations\<close>

text \<open>The path of \<^verbatim>\<open>url.Parse\<close>; which authorities it accepts is the argument \<open>authority\<close>.\<close>

definition letter :: "char \<Rightarrow> bool" where
  "letter c = (let n = of_char c :: nat in 65 \<le> n \<and> n \<le> 90 \<or> 97 \<le> n \<and> n \<le> 122)"

definition scheme_char :: "char \<Rightarrow> bool" where
  "scheme_char c = (let n = of_char c :: nat in 48 \<le> n \<and> n \<le> 57 \<or> n = 43 \<or> n = 45 \<or> n = 46)"

definition control_char :: "char \<Rightarrow> bool" where
  "control_char c = (let n = of_char c :: nat in n < 32 \<or> n = 127)"

fun scheme_loop :: "string \<Rightarrow> nat \<Rightarrow> string \<Rightarrow> (string \<times> string) option" where
  "scheme_loop raw i [] = Some ('''', raw)"
| "scheme_loop raw i (c # s) =
     (if letter c then scheme_loop raw (Suc i) s
      else if scheme_char c then (if i = 0 then Some ('''', raw) else scheme_loop raw (Suc i) s)
      else if c = CHR '':'' then (if i = 0 then None else Some (take i raw, s))
      else Some ('''', raw))"

definition url_path_of :: "(string \<Rightarrow> bool) \<Rightarrow> string \<Rightarrow> string \<Rightarrow> string option" where
  "url_path_of authority scheme rest =
     (if \<not> has_prefix rest ''/''
      then (if scheme \<noteq> '''' then Some ''''
            else if CHR '':'' \<in> set (takeWhile (\<lambda>c. c \<noteq> CHR ''/'') rest) then None
            else path_unescape rest)
      else if (scheme \<noteq> '''' \<or> \<not> has_prefix rest ''///'') \<and> has_prefix rest ''//''
      then (if authority (takeWhile (\<lambda>c. c \<noteq> CHR ''/'') (drop 2 rest))
            then path_unescape (dropWhile (\<lambda>c. c \<noteq> CHR ''/'') (drop 2 rest)) else None)
      else path_unescape rest)"

definition url_parse :: "(string \<Rightarrow> bool) \<Rightarrow> string \<Rightarrow> string option" where
  "url_parse authority raw =
     (let u = takeWhile (\<lambda>c. c \<noteq> CHR ''#'') raw; fragment = drop 1 (dropWhile (\<lambda>c. c \<noteq> CHR ''#'') raw)
      in if list_ex control_char u then None
         else if u = ''*'' then (if path_unescape fragment = None then None else Some ''*'')
         else case scheme_loop u 0 u of
           None \<Rightarrow> None
         | Some (scheme, rest) \<Rightarrow>
             (case url_path_of authority scheme (takeWhile (\<lambda>c. c \<noteq> CHR ''?'') rest) of
                None \<Rightarrow> None
              | Some p \<Rightarrow> if path_unescape fragment = None then None else Some p))"

definition parse_location :: "(string \<Rightarrow> bool) \<Rightarrow> json \<Rightarrow> (command_error, string) result" where
  "parse_location authority arg =
     (case unmarshal_string '''' arg of
        None \<Rightarrow> Inl InvalidUriArgument
      | Some u \<Rightarrow>
          (case url_parse authority u of
             None \<Rightarrow> Inl (InvalidPathArgument u) | Some p \<Rightarrow> Inr (clean_windows_path p)))"

section \<open>The environment\<close>

record ('st, 'k, 'ch) command_env =
  ce_manager :: "'st manager"
  ce_clients :: "(nat, ('st, 'k) flow_client) gomap"
  ce_links :: "(nat, nat) gomap"
  ce_chain :: 'ch

record ('st, 'k, 'ch) command_world =
  cw_world :: "'st world"
  cw_chain :: "('st, 'k, 'ch) chain"
  cw_authority :: "string \<Rightarrow> bool"
  cw_parse_args :: "string \<Rightarrow> (string, string list) result"
  cw_show :: "flow_error \<Rightarrow> string"

text \<open>A client as its methods see it: with the current contents of the state object it shares.\<close>

definition client_object :: "('st, 'k, 'ch) command_env \<Rightarrow> nat \<Rightarrow> ('st, 'k) flow_client option" where
  "client_object env a =
     (case map_of (ce_clients env) a of
        None \<Rightarrow> None
      | Some f \<Rightarrow>
          (case map_of (ce_links env) a of
             None \<Rightarrow> Some f
           | Some s \<Rightarrow> Some (f\<lparr>fl_state := fs_loaded (state_object (ce_manager env) s),
                               fl_config := fs_config (state_object (ce_manager env) s)\<rparr>)))"

definition put_client ::
    "nat \<Rightarrow> ('st, 'k) flow_client \<Rightarrow> ('st, 'k, 'ch) command_env \<Rightarrow> ('st, 'k, 'ch) command_env" where
  "put_client a f env =
     (let m = ce_manager env;
          m1 = (case map_of (ce_links env) a of
                  None \<Rightarrow> m
                | Some s \<Rightarrow> m\<lparr>cm_heap := AList.update s ((state_object m s)\<lparr>fs_loaded := fl_state f\<rparr>) (cm_heap m)\<rparr>)
      in env\<lparr>ce_manager := m1, ce_clients := AList.update a f (ce_clients env)\<rparr>)"

text \<open>The state object and the number of accounts of the client that resolving a configuration creates.\<close>

definition client_request :: "'st world \<Rightarrow> string \<Rightarrow> 'st manager \<Rightarrow> (nat \<times> 'st flow_state \<times> int) option" where
  "client_request w cfg m =
     (case map_of (cm_clients m) cfg of
        Some c \<Rightarrow> None
      | None \<Rightarrow>
          (case load_state w cfg m of
             (Inl e, m1) \<Rightarrow> None
           | (Inr a, m1) \<Rightarrow>
               (if cm_enable_client m1 \<and>
                   map_of (cm_clients m1) (go_abs (w_cwd w) (clean_windows_path cfg)) = None
                then Some (a, state_object m1 a, cm_accounts m1) else None)))"

text \<open>
  \<^verbatim>\<open>ResolveClientForPath\<close> with the client it may create: the new client is initialized on the chain
  and the outcome decides the manager's step.
\<close>

definition resolve_client ::
    "('st, 'k, 'ch) command_world \<Rightarrow> string \<Rightarrow> ('st, 'k, 'ch) command_env \<Rightarrow>
     ((string, nat option) result \<times> ('st, 'k, 'ch) command_env) option" where
  "resolve_client cw path env =
     (let w = cw_world cw; m = ce_manager env; (cfg, m0) = lookup_or_find_config w m path
      in case (if cm_enable_client m \<and> cfg \<noteq> '''' then client_request w cfg m0 else None) of
           None \<Rightarrow> (case resolve_client_for_path w m path of (r, m1) \<Rightarrow> Some (r, env\<lparr>ce_manager := m1\<rparr>))
         | Some (s, st, n) \<Rightarrow>
             (case fs_loaded st of
                None \<Rightarrow> None
              | Some flow_st \<Rightarrow>
                  (case client_initialize (cw_chain cw) (ce_chain env) new_flowkit_client flow_st (fs_config st) n of
                     None \<Rightarrow> None
                   | Some (err, ch1, f) \<Rightarrow>
                       (let w1 = w\<lparr>w_init := (\<lambda>_ _. map_option (cw_show cw) err)\<rparr>;
                            (r, m1) = resolve_client_for_path w1 m path;
                            env1 = env\<lparr>ce_manager := m1, ce_chain := ch1\<rparr>
                        in Some (r, case r of
                             Inr (Some a) \<Rightarrow> env1\<lparr>ce_clients := AList.update a f (ce_clients env),
                                                 ce_links := AList.update a s (ce_links env)\<rparr>
                           | _ \<Rightarrow> env1)))))"

definition client_for_path ::
    "('st, 'k, 'ch) command_world \<Rightarrow> string \<Rightarrow> ('st, 'k, 'ch) command_env \<Rightarrow>
     (nat option \<times> ('st, 'k, 'ch) command_env) option" where
  "client_for_path cw path env =
     (if path = '''' then Some (default_client (ce_manager env), env)
      else case resolve_client cw path env of
        None \<Rightarrow> None
      | Some (Inr (Some a), env1) \<Rightarrow> Some (Some a, env1)
      | Some (_, env1) \<Rightarrow> Some (default_client (ce_manager env1), env1))"

text \<open>The rest of a handler, run on the client for a path.\<close>

definition with_client ::
    "('st, 'k, 'ch) command_world \<Rightarrow> string \<Rightarrow>
     (nat \<Rightarrow> ('st, 'k) flow_client \<Rightarrow> ('st, 'k, 'ch) command_env \<Rightarrow>
       ((command_error, 'k command_result) result \<times> ('st, 'k, 'ch) command_env) option) \<Rightarrow>
     ('st, 'k, 'ch) command_env \<Rightarrow>
     ((command_error, 'k command_result) result \<times> ('st, 'k, 'ch) command_env) option" where
  "with_client cw path k env =
     (case client_for_path cw path env of
        None \<Rightarrow> None
      | Some (None, env1) \<Rightarrow> Some (Inl ClientNotInitialized, env1)
      | Some (Some a, env1) \<Rightarrow>
          (case client_object env1 a of None \<Rightarrow> None | Some f \<Rightarrow> k a f env1))"

section \<open>Handlers\<close>

type_synonym ('st, 'k, 'ch) command =
  "('st, 'k, 'ch) command_world \<Rightarrow> json list \<Rightarrow> ('st, 'k, 'ch) command_env \<Rightarrow>
   ((command_error, 'k command_result) result \<times> ('st, 'k, 'ch) command_env) option"

fun signer_addresses ::
    "('st, 'k) flow_client \<Rightarrow> string list \<Rightarrow> flow_address list \<Rightarrow> (command_error, flow_address list) result" where
  "signer_addresses f [] acc = Inr acc"
| "signer_addresses f (n # ns) acc =
     (case get_client_account f n of
        None \<Rightarrow> Inl (NoSuchSigner n)
      | Some j \<Rightarrow> signer_addresses f ns (acc @ [acct_address (fl_accounts f ! j)]))"

definition send_transaction_command :: "('st, 'k, 'ch) command" where
  "send_transaction_command cw args env =
     (case check_command_argument_count args 3 of
        Some e \<Rightarrow> Some (Inl e, env)
      | None \<Rightarrow>
     (case parse_location (cw_authority cw) (args ! 0) of
        Inl e \<Rightarrow> Some (Inl e, env)
      | Inr path \<Rightarrow>
     (case unmarshal_string '''' (args ! 1) of
        None \<Rightarrow> Some (Inl InvalidArguments, env)
      | Some args_json \<Rightarrow>
     (case cw_parse_args cw args_json of
        Inl e \<Rightarrow> Some (Inl (InvalidEncoding args_json e), env)
      | Inr tx_args \<Rightarrow>
     (case unmarshal_strings (args ! 2) of
        None \<Rightarrow> Some (Inl InvalidSignerList, env)
      | Some signers \<Rightarrow>
          with_client cw path
            (\<lambda>a f env1.
               case signer_addresses f signers [] of
                 Inl e \<Rightarrow> Some (Inl e, env1)
               | Inr auths \<Rightarrow>
                   (case send_transaction (cw_chain cw) (ce_chain env1) f auths path tx_args of
                      None \<Rightarrow> None
                    | Some (Inl e, ch1) \<Rightarrow> Some (Inl (TransactionError e), env1\<lparr>ce_chain := ch1\<rparr>)
                    | Some (Inr (status, ident, events), ch1) \<Rightarrow>
                        Some (Inr (TransactionDone status ident events), env1\<lparr>ce_chain := ch1\<rparr>)))
            env)))))"

definition execute_script_command :: "('st, 'k, 'ch) command" where
  "execute_script_command cw args env =
     (case check_command_argument_count args 2 of
        Some e \<Rightarrow> Some (Inl e, env)
      | None \<Rightarrow>
     (case parse_location (cw_authority cw) (args ! 0) of
        Inl e \<Rightarrow> Some (Inl e, env)
      | Inr path \<Rightarrow>
     (case unmarshal_string '''' (args ! 1) of
        None \<Rightarrow> Some (Inl InvalidArguments, env)
      | Some args_json \<Rightarrow>
     (case cw_parse_args cw args_json of
        Inl e \<Rightarrow> Some (Inl (InvalidEncoding args_json e), env)
      | Inr script_args \<Rightarrow>
          with_client cw path
            (\<lambda>a f env1.
               case execute_script (cw_chain cw) (ce_chain env1) f path script_args of
                 Inl e \<Rightarrow> Some (Inl (ScriptError e), env1)
               | Inr v \<Rightarrow> Some (Inr (ScriptDone v), env1))
            env))))"

definition switch_active_account_command :: "('st, 'k, 'ch) command" where
  "switch_active_account_command cw args env =
     (case check_command_argument_count args 1 of
        Some e \<Rightarrow> Some (Inl e, env)
      | None \<Rightarrow>
     (case unmarshal_string '''' (args ! 0) of
        None \<Rightarrow> Some (Inl InvalidName, env)
      | Some name \<Rightarrow>
          with_client cw ''''
            (\<lambda>a f env1.
               case set_active_client_account f name of
                 (Some e, f1) \<Rightarrow> Some (Inl (SwitchError e), put_client a f1 env1)
               | (None, f1) \<Rightarrow> Some (Inr (SwitchedTo name), put_client a f1 env1))
            env))"

definition reload_config_command :: "('st, 'k, 'ch) command" where
  "reload_config_command cw args env =
     (case reload_all (cw_world cw) (ce_manager env) of
        (Some e, m1) \<Rightarrow> Some (Inl (ReloadError e), env\<lparr>ce_manager := m1\<rparr>)
      | (None, m1) \<Rightarrow> Some (Inr NoResult, env\<lparr>ce_manager := m1\<rparr>))"

definition get_accounts_command :: "('st, 'k, 'ch) command" where
  "get_accounts_command cw args env =
     with_client cw '''' (\<lambda>a f env1. Some (Inr (AccountList (get_client_accounts f)), env1)) env"

definition create_account_command :: "('st, 'k, 'ch) command" where
  "create_account_command cw args env =
     with_client cw ''''
       (\<lambda>a f env1.
          case create_account (cw_chain cw) (ce_chain env1) f of
            None \<Rightarrow> None
          | Some (Inl e, ch1, f1) \<Rightarrow> Some (Inl (CreateAccountError e), put_client a f1 (env1\<lparr>ce_chain := ch1\<rparr>))
          | Some (Inr acct, ch1, f1) \<Rightarrow> Some (Inr (CreatedAccount acct), put_client a f1 (env1\<lparr>ce_chain := ch1\<rparr>)))
       env"

text \<open>The account of a deployment: \<open>None\<close> is no account of the name, the outer \<open>None\<close> a nil active account.\<close>

definition deploy_account :: "('st, 'k) flow_client \<Rightarrow> string \<Rightarrow> nat option option" where
  "deploy_account f signer =
     (if signer = '''' then map_option Some (get_active_client_account f)
      else Some (get_client_account f signer))"

definition deploy_contract_command :: "('st, 'k, 'ch) command" where
  "deploy_contract_command cw args env =
     (case check_command_argument_count args 3 of
        Some e \<Rightarrow> Some (Inl e, env)
      | None \<Rightarrow>
     (case parse_location (cw_authority cw) (args ! 0) of
        Inl e \<Rightarrow> Some (Inl e, env)
      | Inr path \<Rightarrow>
     (case unmarshal_string '''' (args ! 1) of
        None \<Rightarrow> Some (Inl InvalidName, env)
      | Some name \<Rightarrow>
     (case unmarshal_string '''' (args ! 2) of
        None \<Rightarrow> Some (Inl InvalidSignerName, env)
      | Some signer \<Rightarrow>
          with_client cw path
            (\<lambda>a f env1.
               case deploy_account f signer of
                 None \<Rightarrow> None
               | Some None \<Rightarrow> Some (Inl (NoSuchSigner signer), env1)
               | Some (Some j) \<Rightarrow>
                   (case deploy_contract (cw_chain cw) (ce_chain env1) f (acct_address (fl_accounts f ! j)) path of
                      None \<Rightarrow> None
                    | Some (Some e, ch1, f1) \<Rightarrow> Some (Inl (DeployError e), put_client a f1 (env1\<lparr>ce_chain := ch1\<rparr>))
                    | Some (None, ch1, f1) \<Rightarrow>
                        Some (Inr (Deployed name (acct_name (fl_accounts f ! j))),
                              put_client a f1 (env1\<lparr>ce_chain := ch1\<rparr>))))
            env))))"

definition all_commands :: "(string \<times> ('st, 'k, 'ch) command) list" where
  "all_commands =
     [(''cadence.server.flow.reloadConfiguration'', reload_config_command),
      (command_send_transaction, send_transaction_command),
      (command_execute_script, execute_script_command),
      (command_deploy_contract, deploy_contract_command),
      (''cadence.server.flow.switchActiveAccount'', switch_active_account_command),
      (''cadence.server.flow.createAccount'', create_account_command),
      (''cadence.server.flow.getAccounts'', get_accounts_command)]"

section \<open>What a command was given\<close>

lemma check_count_None [simp]: "check_command_argument_count args n = None \<longleftrightarrow> length args = n"
  by (simp add: check_command_argument_count_def)

lemma unmarshal_elements_names [simp]: "unmarshal_elements (map JStr names) = Some names"
  by (induction names) simp_all

lemma unmarshal_names_json [simp]: "unmarshal_strings (names_json names) = Some names"
  by (simp add: names_json_def)

lemma signer_addresses_eq:
  "signer_addresses f names acc =
     (case find (\<lambda>n. \<not> has_account f n) names of
        Some n \<Rightarrow> Inl (NoSuchSigner n)
      | None \<Rightarrow> Inr (acc @ map (\<lambda>n. acct_address (fl_accounts f ! the (get_client_account f n))) names))"
proof (induction names arbitrary: acc)
  case (Cons n names)
  then show ?case using get_client_account_None [of f n] by (auto split: option.split)
qed simp

lemma find_None_all: "find (\<lambda>x. \<not> P x) xs = None \<longleftrightarrow> (\<forall>x \<in> set xs. P x)"
  by (auto simp: find_None_iff)

section \<open>File URIs\<close>

definition plain_path_char :: "char \<Rightarrow> bool" where
  "plain_path_char c \<longleftrightarrow> \<not> control_char c \<and> c \<notin> set ''#?%:''"

lemma path_unescape_plain: "CHR ''%'' \<notin> set p \<Longrightarrow> path_unescape p = Some p"
  by (induction p) auto

lemma replace_colons_plain: "CHR ''%'' \<notin> set p \<Longrightarrow> replace_colons p = p"
  by (induction p) (auto simp: has_prefix_def)

lemma takeWhile_absent: "x \<notin> set p \<Longrightarrow> takeWhile (\<lambda>c. c \<noteq> x) p = p"
  by (induction p) auto

lemma dropWhile_absent: "x \<notin> set p \<Longrightarrow> dropWhile (\<lambda>c. c \<noteq> x) p = []"
  by (induction p) auto

lemma scheme_loop_file: "scheme_loop raw 0 (''file://'' @ p) = Some (take 4 raw, ''//'' @ p)"
  by (simp add: letter_def scheme_char_def numeral_eq_Suc)

text \<open>
  The location of a command's document is the path that the editor's file URI names: a path without
  escapes is taken over character by character, through the parsing of the URI and the
  normalization of Windows paths.
\<close>

theorem file_uri_location:
  assumes "authority ''''" "has_prefix p ''/''" "\<forall>c \<in> set p. plain_path_char c"
  shows "parse_location authority (JStr (''file://'' @ p)) = Inr p"
proof -
  have free: "CHR ''#'' \<notin> set p" "CHR ''?'' \<notin> set p" "CHR ''%'' \<notin> set p" "CHR '':'' \<notin> set p"
    using assms(3) unfolding plain_path_char_def by auto
  have hash: "takeWhile (\<lambda>c. c \<noteq> CHR ''#'') (''file://'' @ p) = ''file://'' @ p"
    "dropWhile (\<lambda>c. c \<noteq> CHR ''#'') (''file://'' @ p) = []"
    "takeWhile (\<lambda>c. c \<noteq> CHR ''?'') (''//'' @ p) = ''//'' @ p"
    using free(1,2) by (simp_all add: takeWhile_absent dropWhile_absent)
  have ctl: "\<not> list_ex control_char (''file://'' @ p)" "''file://'' @ p \<noteq> ''*''"
    using assms(3) by (simp_all add: list_ex_iff plain_path_char_def control_char_def)
  obtain q where q: "p = CHR ''/'' # q" using assms(2) by (cases p) (auto simp: has_prefix_def)
  have plain: "path_unescape p = Some p" "clean_windows_path p = p"
    using free(3,4) by (simp_all add: path_unescape_plain clean_windows_path_def replace_colons_plain)
  have "url_path_of authority ''file'' (''//'' @ p) = Some p"
    using assms(1) plain(1) by (simp add: url_path_of_def has_prefix_def q)
  then have "url_parse authority (''file://'' @ p) = Some p"
    unfolding url_parse_def Let_def hash scheme_loop_file
    using ctl hash(3) by (simp only: if_False if_True option.case prod.case) simp
  then show ?thesis using plain(2) by (simp add: parse_location_def)
qed

theorem file_uri_location_witness:
  "parse_location (\<lambda>a. a = '''') (JStr ''file:///p/a b.cdc'') = Inr ''/p/a b.cdc''"
proof -
  have "\<forall>c \<in> set ''/p/a b.cdc''. plain_path_char c" by (simp add: plain_path_char_def control_char_def)
  then show ?thesis using file_uri_location [of "\<lambda>a. a = ''''" "''/p/a b.cdc''"] by (simp add: has_prefix_def)
qed

section \<open>From a code lens to its command\<close>

text \<open>
  C25. Running the lens of a transaction: its arguments are always accepted, and the transaction is sent
  with the shown argument list and authorized by the accounts of the shown signers, in order. The
  command takes the client of the document's own project, though, so when the lens was made for
  another client a signer it offered may not exist.
\<close>

theorem lens_sends_what_it_shows:
  assumes lens: "transaction_lens lib f u t signers args l" "sendable f t signers"
    and decode: "parse_location (cw_authority cw) (JStr u) = Inr path"
      "cw_parse_args cw (lib_arguments_json lib args) = Inr tx_args"
    and client: "client_for_path cw path env = Some (Some a, env1)" "client_object env1 a = Some g"
  shows "send_transaction_command cw (lens_arguments l) env =
      (case find (\<lambda>n. \<not> has_account g n) signers of
         Some n \<Rightarrow> Some (Inl (NoSuchSigner n), env1)
       | None \<Rightarrow>
           map_option (\<lambda>(r, ch1).
               (case r of Inl e \<Rightarrow> Inl (TransactionError e)
                | Inr (status, ident, events) \<Rightarrow> Inr (TransactionDone status ident events), env1\<lparr>ce_chain := ch1\<rparr>))
             (send_transaction (cw_chain cw) (ce_chain env1) g
                (map (\<lambda>n. acct_address (fl_accounts g ! the (get_client_account g n))) signers) path tx_args)) \<and>
    (fl_accounts g = fl_accounts f \<longrightarrow> find (\<lambda>n. \<not> has_account g n) signers = None)"
proof -
  have args: "lens_arguments l = [JStr u, JStr (lib_arguments_json lib args), names_json signers]"
    using lens by (simp add: transaction_lens_def)
  have "find (\<lambda>n. \<not> has_account g n) signers = None" if "fl_accounts g = fl_accounts f"
    using lens(2) that by (simp add: find_None_all sendable_def has_account_def)
  then show ?thesis
    using decode client
    by (simp add: send_transaction_command_def check_command_argument_count_def args with_client_def signer_addresses_eq
        split: option.split sum.split prod.split)
qed

definition demo_command_world :: "(unit, unit, nat) command_world" where
  "demo_command_world =
     \<lparr>cw_world = \<lparr>w_cwd = ''/'', w_stat = (\<lambda>p. p = ''/p/flow.json''), w_read = (\<lambda>p. Inl p), w_load = (\<lambda>p. Inr ()),
        w_init = (\<lambda>st n. None), w_watch = (\<lambda>p. True), w_contracts = (\<lambda>d. Inl d)\<rparr>,
      cw_chain = demo_chain\<lparr>ch_read := (\<lambda>p. Inr ''code''),
        ch_send := (\<lambda>k ss s ch. (Inr (''SEALED'', concat (map sg_name ss), sc_location s), Suc ch))\<rparr>,
      cw_authority = (\<lambda>a. a = ''''), cw_parse_args = (\<lambda>s. Inr [s]), cw_show = (\<lambda>e. '''')\<rparr>"

definition demo_command_env :: "(unit, unit, nat) command_env" where
  "demo_command_env =
     \<lparr>ce_manager = (new_config_manager True 0 '''')\<lparr>cm_clients := [(''/p/flow.json'', 0)], cm_next := 1\<rparr>,
      ce_clients = [(0, two_accounts)], ce_links = [], ce_chain = 0\<rparr>"

theorem lens_sends_what_it_shows_witness:
  "\<exists>l env'. entry_point_codelens demo_lib (Some two_accounts)
       (entry_point_update demo_lib ''file:///p/a.cdc'' 1 (demo_program ''(Bob)'') new_entry_point_info) = Some [l] \<and>
     send_transaction_command demo_command_world (lens_arguments l) demo_command_env =
       Some (Inr (TransactionDone ''SEALED'' ''Bob [LS]'' ''/p/a.cdc''), env')"
proof -
  let ?args = "[JStr ''file:///p/a.cdc'', JStr ''[1]'', JArr [JStr ''Bob'']]"
  obtain l where l: "entry_point_codelens demo_lib (Some two_accounts)
      (entry_point_update demo_lib ''file:///p/a.cdc'' 1 (demo_program ''(Bob)'') new_entry_point_info) = Some [l]"
      "lens_arguments l = ?args" "lens_command l = command_send_transaction"
      "lens_range l = Range (Position 0 0) (Position 0 1)"
  proof -
    have "map_option (map (\<lambda>l. (lens_arguments l, lens_command l, lens_range l)))
        (entry_point_codelens demo_lib (Some two_accounts)
          (entry_point_update demo_lib ''file:///p/a.cdc'' 1 (demo_program ''(Bob)'') new_entry_point_info)) =
        Some [(?args, command_send_transaction, Range (Position 0 0) (Position 0 1))]" by code_simp
    then show thesis using that by auto
  qed
  have send: "sendable two_accounts (demo_transaction ''(Bob)'') [''Bob'']"
    by (simp add: sendable_def two_accounts_def demo_transaction_def has_account_def)
  have lens: "transaction_lens demo_lib two_accounts ''file:///p/a.cdc'' (demo_transaction ''(Bob)'') [''Bob''] [''1''] l"
    using l send by (simp add: transaction_lens_def demo_lib_def demo_transaction_def names_json_def
        ast_to_protocol_range_def ast_to_protocol_position_def shifted_def)
  have decode: "parse_location (cw_authority demo_command_world) (JStr ''file:///p/a.cdc'') = Inr ''/p/a.cdc''"
    "cw_parse_args demo_command_world (lib_arguments_json demo_lib [''1'']) = Inr [''[1]'']" by code_simp+
  obtain env1 where client: "client_for_path demo_command_world ''/p/a.cdc'' demo_command_env = Some (Some 0, env1)"
      "client_object env1 0 = Some two_accounts" "ce_chain env1 = 0"
  proof -
    have "map_option (\<lambda>(r, e). (r, client_object e 0, ce_chain e))
        (client_for_path demo_command_world ''/p/a.cdc'' demo_command_env) = Some (Some 0, Some two_accounts, 0)"
      by code_simp
    then show thesis using that by auto
  qed
  have sent: "send_transaction (cw_chain demo_command_world) 0 two_accounts [2] ''/p/a.cdc'' [''[1]''] =
      Some (Inr (''SEALED'', ''Bob [LS]'', ''/p/a.cdc''), 1)" by code_simp
  have addr: "get_client_account two_accounts ''Bob'' = Some 1" "acct_address (fl_accounts two_accounts ! 1) = 2"
    by code_simp+
  from lens_sends_what_it_shows [OF lens send decode client(1,2)]
  show ?thesis using l(1) client(3) sent addr by auto
qed

end
