(* ===== verification/Integration.thy ===== *)
theory Integration
  imports Commands
begin

text \<open>
  The Flow integration itself (src/languageserver/integration/integration.go): its construction, the
  initialization with an optional configuration path, project identities, the code lenses of a
  document and the prompt to create a project when a document without a configuration is opened;
  with the workspace folder of a path from src/languageserver/server/server.go. The client of the
  integration is the object at address 0 of the environment. Symbolic links, modification times and
  the answer of the editor are parameters. \<open>None\<close> is a run-time panic.
\<close>

section \<open>State\<close>

record ('st, 'k, 'ch, 'ty, 'v) integration =
  ig_env :: "('st, 'k, 'ch) command_env"
  ig_enable :: bool
  ig_client :: "nat option"
  ig_state :: "'st flow_state"
  ig_entry_points :: "(uri, ('ty, 'v) entry_point_info) gomap"
  ig_contracts :: "(uri, ('ty, 'v) contract_info) gomap"
  ig_prompt_shown :: bool
  ig_prompted_roots :: "string keyset"
  ig_warned_roots :: "string keyset"

datatype server_option =
    DiagnosticProvider
  | StringImportResolver
  | InitializationOptionsHandler
  | ExtendedStandardLibraryValues
  | IdentifierImportResolver
  | ProjectIdentityProvider
  | MemberAccountAccessHandler
  | DidOpenHook
  | CodeLensProvider
  | AddressImportResolver
  | AddressContractNamesResolver
  | CommandOption string

text \<open>The options are applied by the server in order.\<close>

definition new_flow_integration ::
    "bool \<Rightarrow> 'ch \<Rightarrow> ('st, 'k, 'ch, 'ty, 'v) integration \<times> server_option list" where
  "new_flow_integration enable ch =
     (let m = set_on_config_reload (new_config_manager enable 0 '''');
          options = [DiagnosticProvider, StringImportResolver, InitializationOptionsHandler,
            ExtendedStandardLibraryValues, IdentifierImportResolver, ProjectIdentityProvider,
            MemberAccountAccessHandler, DidOpenHook];
          env = \<lparr>ce_manager = m, ce_clients = [], ce_links = [], ce_chain = ch\<rparr>;
          ig = \<lparr>ig_env = env, ig_enable = enable, ig_client = None, ig_state = new_flowkit_state,
                ig_entry_points = [], ig_contracts = [], ig_prompt_shown = False, ig_prompted_roots = [],
                ig_warned_roots = []\<rparr>
      in if enable
         then (ig\<lparr>ig_client := Some 0,
                 ig_env := env\<lparr>ce_manager := m\<lparr>cm_next := 1\<rparr>, ce_clients := [(0, new_flowkit_client)]\<rparr>\<rparr>,
               options @ [CodeLensProvider, AddressImportResolver, AddressContractNamesResolver] @
                 map (CommandOption \<circ> fst) (all_commands :: (string \<times> ('st, 'k, 'ch) command) list))
         else (ig, options))"

text \<open>The object of the integration's client, if it has one.\<close>

definition integration_client :: "('st, 'k, 'ch, 'ty, 'v) integration \<Rightarrow> ('st, 'k) flow_client option" where
  "integration_client ig =
     (case ig_client ig of None \<Rightarrow> None | Some a \<Rightarrow> client_object (ig_env ig) a)"

definition set_manager :: "'st manager \<Rightarrow> ('st, 'k, 'ch, 'ty, 'v) integration \<Rightarrow> ('st, 'k, 'ch, 'ty, 'v) integration" where
  "set_manager m ig = ig\<lparr>ig_env := (ig_env ig)\<lparr>ce_manager := m\<rparr>\<rparr>"

lemma set_manager_fields [simp]:
  "ig_client (set_manager m ig) = ig_client ig" "ig_contracts (set_manager m ig) = ig_contracts ig"
  by (simp_all add: set_manager_def)

section \<open>Initialization\<close>

text \<open>\<^verbatim>\<open>strconv.Atoi\<close> on 64-bit integers.\<close>

fun digits_value :: "string \<Rightarrow> int \<Rightarrow> int option" where
  "digits_value [] n = Some n"
| "digits_value (c # s) n =
     (let d = of_char c :: int
      in if 48 \<le> d \<and> d \<le> 57 then digits_value s (10 * n + (d - 48)) else None)"

definition atoi :: "string \<Rightarrow> int option" where
  "atoi s =
     (let (neg, ds) = (case s of
              [] \<Rightarrow> (False, [])
            | c # r \<Rightarrow> if c = CHR ''-'' then (True, r) else if c = CHR ''+'' then (False, r) else (False, s))
      in if ds = [] then None
         else case digits_value ds 0 of
           None \<Rightarrow> None
         | Some n \<Rightarrow> (let k = (if neg then - n else n)
                      in if - 9223372036854775808 \<le> k \<and> k \<le> 9223372036854775807 then Some k else None))"

datatype init_error =
    InvalidInitializationOptions
  | InvalidConfigPath
  | StateError string
  | InvalidAccountNumberValue
  | AccountNumberNotAString
  | ClientError flow_error

text \<open>The options are a JSON value; a map is read with a type assertion to string.\<close>

type_synonym init_options = "(string, json) gomap option"

definition string_option :: "(string, json) gomap \<Rightarrow> string \<Rightarrow> string option" where
  "string_option opts key = (case map_of opts key of Some (JStr s) \<Rightarrow> Some s | _ \<Rightarrow> None)"

definition configure_manager :: "'st world \<Rightarrow> string \<Rightarrow> bool \<Rightarrow> int \<Rightarrow> 'st manager \<Rightarrow> (string, nat option) result \<times> 'st manager" where
  "configure_manager w cfg enable n m =
     resolve_state_for_project w (set_init_config_path w cfg (m\<lparr>cm_enable_client := enable, cm_accounts := n\<rparr>)) cfg"

definition handle_init_config_load_failure ::
    "'st world \<Rightarrow> string \<Rightarrow> ('st, 'k, 'ch, 'ty, 'v) integration \<Rightarrow> ('st, 'k, 'ch, 'ty, 'v) integration" where
  "handle_init_config_load_failure w cfg ig =
     (let ig1 = set_manager (snd (configure_manager w cfg (ig_enable ig) 0 (ce_manager (ig_env ig)))) ig
      in if ig_client ig = None then ig1
         else case w_read w cfg of
           Inl e \<Rightarrow> ig1
         | Inr data \<Rightarrow>
             (case w_contracts w data of
                Inl e \<Rightarrow> ig1
              | Inr cs \<Rightarrow>
                  (if list_ex (\<lambda>c. \<not> w_stat w (go_join [go_dir cfg, snd c])) cs
                   then ig1\<lparr>ig_warned_roots := ks_insert (go_dir cfg) (ig_warned_roots ig1)\<rparr> else ig1)))"

definition setup_config_manager ::
    "'st world \<Rightarrow> string \<Rightarrow> int \<Rightarrow> ('st, 'k, 'ch, 'ty, 'v) integration \<Rightarrow>
     init_error option \<times> ('st, 'k, 'ch, 'ty, 'v) integration" where
  "setup_config_manager w cfg n ig =
     (case configure_manager w cfg (ig_enable ig) n (ce_manager (ig_env ig)) of
        (Inl e, m1) \<Rightarrow> (Some (StateError e), set_manager m1 ig)
      | (Inr _, m1) \<Rightarrow> (None, set_manager m1 ig))"

text \<open>The part of \<^verbatim>\<open>initialize\<close> for an enabled client.\<close>

definition initialize_client ::
    "('st, 'k, 'ch) command_world \<Rightarrow> (string, json) gomap \<Rightarrow> string \<Rightarrow> ('st, 'k, 'ch, 'ty, 'v) integration \<Rightarrow>
     (init_error option \<times> ('st, 'k, 'ch, 'ty, 'v) integration) option" where
  "initialize_client cw opts cfg ig =
     (case string_option opts ''numberOfAccounts'' of
        None \<Rightarrow> Some (Some AccountNumberNotAString, ig)
      | Some s \<Rightarrow>
          (if s = '''' then Some (Some AccountNumberNotAString, ig)
           else case atoi s of
             None \<Rightarrow> Some (Some InvalidAccountNumberValue, ig)
           | Some n \<Rightarrow>
               (case (ig_client ig, integration_client ig, fs_loaded (ig_state ig)) of
                  (Some a, Some f, Some st) \<Rightarrow>
                    (case client_initialize (cw_chain cw) (ce_chain (ig_env ig)) f st (fs_config (ig_state ig)) n of
                       None \<Rightarrow> None
                     | Some (err, ch1, f1) \<Rightarrow>
                         (let env1 = put_client a f1 ((ig_env ig)\<lparr>ce_chain := ch1\<rparr>); ig1 = ig\<lparr>ig_env := env1\<rparr>
                          in case err of
                               Some e \<Rightarrow> Some (Some (ClientError e), ig1)
                             | None \<Rightarrow>
                                 Some (None, set_manager
                                   (set_default_client_for_path (cw_world cw) cfg (Some a) (ce_manager env1)) ig1)))
                | _ \<Rightarrow> None)))"

definition initialize ::
    "('st, 'k, 'ch) command_world \<Rightarrow> init_options \<Rightarrow> ('st, 'k, 'ch, 'ty, 'v) integration \<Rightarrow>
     (init_error option \<times> ('st, 'k, 'ch, 'ty, 'v) integration) option" where
  "initialize cw options ig =
     (case options of
        None \<Rightarrow> Some (if ig_enable ig then Some InvalidInitializationOptions else None, ig)
      | Some opts \<Rightarrow>
          (case (case string_option opts ''configPath'' of None \<Rightarrow> '''' | Some p \<Rightarrow> p) of
             [] \<Rightarrow> Some (if ig_enable ig then Some InvalidConfigPath else None, ig)
           | c # cs \<Rightarrow>
               (let w = cw_world cw; cfg = clean_windows_path (c # cs)
                in case state_load w (ig_state ig) cfg of
                     (Some e, st) \<Rightarrow> Some (None, handle_init_config_load_failure w cfg (ig\<lparr>ig_state := st\<rparr>))
                   | (None, st) \<Rightarrow>
                       (let n = (if ig_enable ig
                                 then (case string_option opts ''numberOfAccounts'' of
                                         None \<Rightarrow> 0 | Some s \<Rightarrow> (case atoi s of None \<Rightarrow> 0 | Some k \<Rightarrow> k))
                                 else 0)
                        in case setup_config_manager w cfg n (ig\<lparr>ig_state := st\<rparr>) of
                             (Some e, ig1) \<Rightarrow> Some (Some e, ig1)
                           | (None, ig1) \<Rightarrow>
                               (if ig_enable ig then initialize_client cw opts cfg ig1 else Some (None, ig1))))))"

section \<open>Project identities\<close>

definition stable_project_id :: "(string \<Rightarrow> int) \<Rightarrow> 'st world \<Rightarrow> string \<Rightarrow> string" where
  "stable_project_id mtime w cfg =
     (let path = go_abs (w_cwd w) cfg
      in if w_stat w path
         then path @ ''@'' @ (if mtime path < 0 then ''-'' else '''') @ itoa (nat \<bar>mtime path\<bar>) else path)"

definition uri_path :: "uri \<Rightarrow> string" where
  "uri_path u =
     (if has_prefix u ''file://'' then de_uri (clean_windows_path (drop 7 u)) else de_uri (clean_windows_path u))"

definition project_id_for_uri :: "(string \<Rightarrow> int) \<Rightarrow> 'st world \<Rightarrow> 'st manager \<Rightarrow> uri \<Rightarrow> string" where
  "project_id_for_uri mtime w m u =
     (if cm_init_config m \<noteq> '''' then stable_project_id mtime w (cm_init_config m)
      else let path = uri_path u;
               near = nearest_config_path w path;
               cfg = (if near = '''' \<and> cm_init_config m \<noteq> '''' then cm_init_config m else near)
           in if cfg = '''' then go_dir (go_abs (w_cwd w) path)
              else stable_project_id mtime w (go_abs (w_cwd w) cfg))"

section \<open>Code lenses\<close>

text \<open>The location of the checker is that of the document.\<close>

definition integration_code_lenses ::
    "('ty, 'v) cadence_lib \<Rightarrow> ('st, 'k, 'ch) command_world \<Rightarrow> uri \<Rightarrow> 32 word \<Rightarrow> 'ty checked_program \<Rightarrow> string option \<Rightarrow>
     ('st, 'k, 'ch, 'ty, 'v) integration \<Rightarrow> (code_lens list \<times> ('st, 'k, 'ch, 'ty, 'v) integration) option" where
  "integration_code_lenses lib cw u version ck loc ig =
     (let w = cw_world cw;
          ig1 = (if has_prefix u ''file://''
                 then set_manager (ensure_dir_watcher w (go_dir (clean_windows_path (drop 7 u))) (ce_manager (ig_env ig))) ig
                 else ig)
      in case (if ig_client ig1 \<noteq> None then Some (integration_client ig1, ig1)
               else case (case loc of None \<Rightarrow> Some (Inr None, ig_env ig1) | Some p \<Rightarrow> resolve_client cw p (ig_env ig1)) of
                 None \<Rightarrow> None
               | Some (Inr (Some a), env) \<Rightarrow> Some (client_object env a, ig1\<lparr>ig_env := env\<rparr>)
               | Some (_, env) \<Rightarrow> Some (None, ig1\<lparr>ig_env := env\<rparr>)) of
           None \<Rightarrow> None
         | Some (client, ig2) \<Rightarrow>
             (let c = contract_update lib u version ck
                        (case map_of (ig_contracts ig2) u of Some x \<Rightarrow> x | None \<Rightarrow> new_contract_info);
                  ig3 = ig2\<lparr>ig_contracts := AList.update u c (ig_contracts ig2)\<rparr>
              in case contract_codelens client c of
                   None \<Rightarrow> None
                 | Some ls1 \<Rightarrow>
                     (let e = entry_point_update lib u version ck
                                (case map_of (ig_entry_points ig3) u of Some x \<Rightarrow> x | None \<Rightarrow> new_entry_point_info);
                          ig4 = ig3\<lparr>ig_entry_points := AList.update u e (ig_entry_points ig3)\<rparr>
                      in case entry_point_codelens lib client e of
                           None \<Rightarrow> None | Some ls2 \<Rightarrow> Some (ls1 @ ls2, ig4))))"

section \<open>Prompting for a project\<close>

datatype shown_message = ShowError string | ShowInfo string

text \<open>Absolute and with symbolic links resolved, where they can be.\<close>

definition real_path :: "(string \<Rightarrow> string option) \<Rightarrow> string \<Rightarrow> string \<Rightarrow> string" where
  "real_path symlinks cwd p =
     (let a = go_abs cwd p in case symlinks a of Some r \<Rightarrow> r | None \<Rightarrow> a)"

fun folder_loop :: "(string \<Rightarrow> string option) \<Rightarrow> string \<Rightarrow> string \<Rightarrow> uri list \<Rightarrow> string" where
  "folder_loop symlinks cwd path [] = ''''"
| "folder_loop symlinks cwd path (u # us) =
     (if has_prefix u ''file://''
      then let dir = real_path symlinks cwd (drop 7 u)
           in case go_rel dir path of
                Some rel \<Rightarrow> if rel \<noteq> ''..'' \<and> \<not> has_prefix rel ''../'' then dir else folder_loop symlinks cwd path us
              | None \<Rightarrow> folder_loop symlinks cwd path us
      else folder_loop symlinks cwd path us)"

definition workspace_folder_root_for_path :: "(string \<Rightarrow> string option) \<Rightarrow> string \<Rightarrow> uri list \<Rightarrow> string \<Rightarrow> string" where
  "workspace_folder_root_for_path symlinks cwd folders path =
     (if path = '''' \<or> folders = [] then ''''
      else folder_loop symlinks cwd (real_path symlinks cwd path) folders)"

text \<open>The messages shown and the directory that the editor is asked about, if it is asked.\<close>

definition did_open_init_hook ::
    "(string \<Rightarrow> string option) \<Rightarrow> uri list \<Rightarrow> 'st world \<Rightarrow> uri \<Rightarrow> ('st, 'k, 'ch, 'ty, 'v) integration \<Rightarrow>
     shown_message list \<times> string option \<times> ('st, 'k, 'ch, 'ty, 'v) integration" where
  "did_open_init_hook symlinks folders w u ig =
     (if \<not> has_prefix u ''file://'' \<or> \<not> has_suffix (to_lower u) ''.cdc'' then ([], None, ig)
      else let p0 = de_uri (clean_windows_path (drop 7 u))
           in if \<not> w_stat w p0 then ([], None, ig)
              else let path = real_path symlinks (w_cwd w) p0; m = ce_manager (ig_env ig);
                       cfg = nearest_config_path w path
                   in if cfg \<noteq> ''''
                      then (case resolve_state_for_path w m cfg of
                              (Inl e, m1) \<Rightarrow> ([ShowError (''Failed to load flow.json: '' @ e)], None, set_manager m1 ig)
                            | (Inr _, m1) \<Rightarrow> ([], None, set_manager m1 ig))
                      else if cm_init_config m \<noteq> '''' \<and> last_load_error w m (cm_init_config m) \<noteq> ''''
                      then ([ShowError (''Invalid flow.json: '' @ last_load_error w m (cm_init_config m))], None, ig)
                      else if ig_prompt_shown ig then ([], None, ig)
                      else let ig1 = ig\<lparr>ig_prompt_shown := True\<rparr>;
                               root = workspace_folder_root_for_path symlinks (w_cwd w) folders path;
                               dir = (if root \<noteq> '''' then root else go_dir path)
                           in if dir \<in> set (ig_prompted_roots ig1) then ([], None, ig1)
                              else ([], Some dir, ig1\<lparr>ig_prompted_roots := ks_insert dir (ig_prompted_roots ig1)\<rparr>))"

text \<open>
  What follows the answer, in a goroutine of its own: whether the project is to be created, the error of
  running the tool, and the world after it.
\<close>

definition prompt_answer ::
    "'st world \<Rightarrow> string \<Rightarrow> bool \<Rightarrow> string option \<Rightarrow> ('st, 'k, 'ch, 'ty, 'v) integration \<Rightarrow>
     (shown_message list \<times> ('st, 'k, 'ch, 'ty, 'v) integration) option" where
  "prompt_answer w dir create run_error ig =
     (if \<not> create then Some ([], ig\<lparr>ig_prompt_shown := False\<rparr>)
      else let target = go_join [dir, ''flow.json'']
           in if run_error \<noteq> None \<or> \<not> w_stat w target
              then (case run_error of
                      None \<Rightarrow> None
                    | Some e \<Rightarrow> Some ([ShowError (''Failed to initialize Flow project: '' @ e)], ig))
              else case resolve_state_for_path w (ce_manager (ig_env ig)) target of
                (Inl e, m1) \<Rightarrow> Some ([ShowError (''Failed to load initialized Flow project: '' @ e)], set_manager m1 ig)
              | (Inr _, m1) \<Rightarrow>
                  Some ([ShowInfo (''Initialized Flow project: '' @ dir)], (set_manager m1 ig)\<lparr>ig_prompt_shown := False\<rparr>))"

section \<open>Project identities name their configuration\<close>

lemma go_abs_of_clean: "is_abs p \<Longrightarrow> go_clean p = p \<Longrightarrow> go_abs cwd p = p"
  by (simp add: go_abs_def)

lemma de_uri_plain: "is_abs p \<Longrightarrow> CHR ''%'' \<notin> set p \<Longrightarrow> de_uri p = p"
  by (cases p) (auto simp: de_uri_def is_abs_def has_prefix_def path_unescape_plain)

lemma stable_project_id_shape:
  "is_abs p \<Longrightarrow> go_clean p = p \<Longrightarrow> \<exists>s. stable_project_id mtime w p = p @ s \<and> (s = '''' \<or> (\<exists>r. s = CHR ''@'' # r))"
  by (simp add: stable_project_id_def Let_def go_abs_of_clean)

text \<open>The configuration that a document is scoped by.\<close>

definition scoping_config :: "'st world \<Rightarrow> 'st manager \<Rightarrow> uri \<Rightarrow> string" where
  "scoping_config w m u =
     go_abs (w_cwd w) (if cm_init_config m \<noteq> '''' then cm_init_config m else nearest_config_path w (uri_path u))"

lemma project_id_scoping:
  assumes "is_abs (w_cwd w)" "cm_init_config m \<noteq> '''' \<or> nearest_config_path w (uri_path u) \<noteq> ''''"
  shows "project_id_for_uri mtime w m u = stable_project_id mtime w (scoping_config w m u)"
proof -
  have "go_abs (w_cwd w) (go_abs (w_cwd w) p) = go_abs (w_cwd w) p" for p
    using go_abs_clean_abs [OF assms(1)] by (simp add: go_abs_of_clean)
  then show ?thesis
    using assms(2) by (auto simp: project_id_for_uri_def scoping_config_def Let_def stable_project_id_def)
qed

text \<open>
  A project identity leads back to its configuration: for a document that is scoped by a flow.json,
  whether its own or that of the initialization options, the identity given to the checker caches
  resolves to this file, with or without the modification time in it, as long as the path has none
  of the characters that identities and URIs treat specially.
\<close>

theorem project_identity_roundtrip:
  assumes cwd: "is_abs (w_cwd w)"
    and scoped: "cm_init_config m \<noteq> '''' \<or> nearest_config_path w (uri_path u) \<noteq> ''''"
    and base: "go_base (scoping_config w m u) = flow_config_filename"
    and plain: "set (scoping_config w m u) \<inter> set ''@%:'' = {}"
  shows "config_path_for_project w (project_id_for_uri mtime w m u) = scoping_config w m u"
proof -
  let ?c = "scoping_config w m u"
  have c: "is_abs ?c" "go_clean ?c = ?c"
    unfolding scoping_config_def by (rule go_abs_clean_abs [OF cwd])+
  have free: "CHR ''@'' \<notin> set ?c" "CHR ''%'' \<notin> set ?c" "CHR '':'' \<notin> set ?c"
    using plain by auto
  obtain s where s: "project_id_for_uri mtime w m u = ?c @ s" "s = '''' \<or> (\<exists>r. s = CHR ''@'' # r)"
    unfolding project_id_scoping [OF cwd scoped] using stable_project_id_shape [OF c] by blast
  have cut: "(case str_index (?c @ s) ''@'' of Some i \<Rightarrow> take i (?c @ s) | None \<Rightarrow> ?c @ s) = ?c"
    using s(2) free(1) by (auto simp: str_index_char_append str_index_char_None [THEN iffD2])
  have "go_abs (w_cwd w) (de_uri (clean_windows_path ?c)) = ?c"
    using c free by (simp add: clean_windows_path_def replace_colons_plain de_uri_plain go_abs_of_clean)
  then show ?thesis
    using is_abs_nonempty [OF c(1)] base unfolding s(1) config_path_for_project_def Let_def cut by simp
qed

theorem project_identity_roundtrip_witness:
  "config_path_for_project (demo_world [''/p/flow.json''])
     (project_id_for_uri (\<lambda>p. 17) (demo_world [''/p/flow.json'']) (new_config_manager False 0 '''') ''file:///p/a/b.cdc'') =
   ''/p/flow.json''"
proof -
  let ?w = "demo_world [''/p/flow.json'']"
  have near: "nearest_config_path ?w (uri_path ''file:///p/a/b.cdc'') = ''/p/flow.json''"
    and cwd: "is_abs (w_cwd ?w)" by code_simp+
  have config: "scoping_config ?w (new_config_manager False 0 '''') ''file:///p/a/b.cdc'' = ''/p/flow.json''"
    and base: "go_base ''/p/flow.json'' = flow_config_filename"
    by code_simp+
  from project_identity_roundtrip [OF cwd, of "new_config_manager False 0 ''''" "''file:///p/a/b.cdc''" "\<lambda>p. 17"]
  show ?thesis unfolding config near using base by simp
qed

text \<open>
  An at sign in a path breaks the scoping: the identity is cut at its first at sign, not at the one
  before the modification time, so two projects in directories that agree up to an at sign get the
  same configuration.
\<close>

theorem at_sign_confuses_projects:
  assumes "is_abs (w_cwd w)" "is_abs (pre @ ''@'' @ a)" "is_abs (pre @ ''@'' @ b)" "CHR ''@'' \<notin> set pre"
    and "go_clean (pre @ ''@'' @ a) = pre @ ''@'' @ a" "go_clean (pre @ ''@'' @ b) = pre @ ''@'' @ b"
  shows "config_path_for_project w (stable_project_id mtime w (pre @ ''@'' @ a)) =
    config_path_for_project w (stable_project_id mtime w (pre @ ''@'' @ b))"
proof -
  have "config_path_for_project w (pre @ ''@'' @ r) = config_path_for_project w (pre @ ''@'')" for r
    using assms(4) by (simp add: config_path_for_project_def str_index_char_append)
  then show ?thesis
    using stable_project_id_shape [OF assms(2,5), of mtime w] stable_project_id_shape [OF assms(3,6), of mtime w]
    by (metis append_assoc)
qed

theorem at_sign_confuses_projects_witness:
  "config_path_for_project (demo_world [''/u/x@1/flow.json'', ''/u/x@2/flow.json''])
     (stable_project_id (\<lambda>p. 17) (demo_world [''/u/x@1/flow.json'', ''/u/x@2/flow.json'']) ''/u/x@1/flow.json'') =
   config_path_for_project (demo_world [''/u/x@1/flow.json'', ''/u/x@2/flow.json''])
     (stable_project_id (\<lambda>p. 17) (demo_world [''/u/x@1/flow.json'', ''/u/x@2/flow.json'']) ''/u/x@2/flow.json'')"
proof -
  have "is_abs (w_cwd (demo_world [''/u/x@1/flow.json'', ''/u/x@2/flow.json'']))"
    "is_abs (''/u/x'' @ ''@'' @ ''1/flow.json'')" "is_abs (''/u/x'' @ ''@'' @ ''2/flow.json'')"
    "go_clean (''/u/x'' @ ''@'' @ ''1/flow.json'') = ''/u/x'' @ ''@'' @ ''1/flow.json''"
    "go_clean (''/u/x'' @ ''@'' @ ''2/flow.json'') = ''/u/x'' @ ''@'' @ ''2/flow.json''"
    by code_simp+
  from at_sign_confuses_projects [OF this(1-3) _ this(4,5)] show ?thesis by simp
qed

section \<open>Prompts\<close>

text \<open>Documents opened one after the other while no answer is outstanding, and the directories asked about.\<close>

fun opens :: "(string \<Rightarrow> string option) \<Rightarrow> uri list \<Rightarrow> ('st world \<times> uri) list \<Rightarrow>
    ('st, 'k, 'ch, 'ty, 'v) integration \<Rightarrow> string list" where
  "opens symlinks folders [] ig = []"
| "opens symlinks folders ((w, u) # xs) ig =
     (case did_open_init_hook symlinks folders w u ig of
        (msgs, asked, ig1) \<Rightarrow>
          (case asked of None \<Rightarrow> [] | Some d \<Rightarrow> [d]) @ opens symlinks folders xs ig1)"

lemma hook_after_prompt:
  assumes "ig_prompt_shown ig"
  shows "fst (snd (did_open_init_hook symlinks folders w u ig)) = None \<and>
    ig_prompt_shown (snd (snd (did_open_init_hook symlinks folders w u ig)))"
  using assms
  by (auto simp: did_open_init_hook_def Let_def set_manager_def split: prod.split sum.split)

text \<open>
  The prompt locks itself: opening a document of a directory that was already asked about, after the
  answer, sets the mark that a prompt is shown although none is, and from then on no document of any
  directory is ever asked about again.
\<close>

theorem asked_root_silences_prompt:
  assumes "has_prefix u ''file://''" "has_suffix (to_lower u) ''.cdc''"
    and "w_stat w (de_uri (clean_windows_path (drop 7 u)))"
    and path: "path = real_path symlinks (w_cwd w) (de_uri (clean_windows_path (drop 7 u)))"
    and "nearest_config_path w path = ''''" "cm_init_config (ce_manager (ig_env ig)) = ''''"
    and root: "root = workspace_folder_root_for_path symlinks (w_cwd w) folders path"
    and seen: "(if root \<noteq> '''' then root else go_dir path) \<in> set (ig_prompted_roots ig)"
  shows "opens symlinks folders ((w, u) # events) ig = []"
proof -
  have locked: "opens symlinks folders xs x = []" if "ig_prompt_shown x" for xs and x :: "('a, 'b, 'c, 'd, 'e) integration"
    using that
  proof (induction xs arbitrary: x)
    case (Cons y ys)
    obtain w u where y: "y = (w, u)" by (cases y)
    obtain msgs asked x2 where h: "did_open_init_hook symlinks folders w u x = (msgs, asked, x2)"
      by (metis prod_cases3)
    with hook_after_prompt [OF Cons.prems, of symlinks folders w u] Cons.IH [of x2] show ?case
      by (simp add: y)
  qed simp
  have "\<exists>x. did_open_init_hook symlinks folders w u ig = ([], None, x) \<and> ig_prompt_shown x"
    using assms by (auto simp: did_open_init_hook_def Let_def)
  then show ?thesis using locked by auto
qed

text \<open>A question about \<open>/a\<close> is declined; then another document of \<open>/a\<close> and one of \<open>/b\<close> are opened.\<close>

definition plain_world :: "string world" where
  "plain_world = (demo_world [])\<lparr>w_stat := (\<lambda>p. p \<in> {''/a/x.cdc'', ''/a/y.cdc'', ''/b/z.cdc''})\<rparr>"

definition declined :: "(string, unit, unit, unit, unit) integration" where
  "declined =
     snd (the (prompt_answer plain_world ''/a'' False None
       (snd (snd (did_open_init_hook (\<lambda>p. None) [] plain_world ''file:///a/x.cdc'' (fst (new_flow_integration False ())))))))"

theorem asked_root_silences_prompt_witness:
  "opens (\<lambda>p. None) [] [(plain_world, ''file:///a/y.cdc''), (plain_world, ''file:///b/z.cdc'')] declined = [] \<and>
   opens (\<lambda>p. None) [] [(plain_world, ''file:///b/z.cdc'')] declined = [''/b'']"
proof -
  have u: "has_prefix ''file:///a/y.cdc'' ''file://''" "has_suffix (to_lower ''file:///a/y.cdc'') ''.cdc''"
    "w_stat plain_world (de_uri (clean_windows_path (drop 7 ''file:///a/y.cdc'')))"
    "''/a/y.cdc'' = real_path (\<lambda>p. None) (w_cwd plain_world) (de_uri (clean_windows_path (drop 7 ''file:///a/y.cdc'')))"
    by code_simp+
  have d: "nearest_config_path plain_world ''/a/y.cdc'' = ''''" "cm_init_config (ce_manager (ig_env declined)) = ''''"
    "'''' = workspace_folder_root_for_path (\<lambda>p. None) (w_cwd plain_world) [] ''/a/y.cdc''"
    "(if '''' \<noteq> '''' then '''' else go_dir ''/a/y.cdc'') \<in> set (ig_prompted_roots declined)" by code_simp+
  have "opens (\<lambda>p. None) [] [(plain_world, ''file:///b/z.cdc'')] declined = [''/b'']" by code_simp
  then show ?thesis by (intro conjI asked_root_silences_prompt [OF u d])
qed

section \<open>After initialization\<close>

lemma client_initialize_active:
  "client_initialize c ch f st cfg n = Some (None, ch1, f1) \<Longrightarrow> fl_active f1 = Some 0"
  by (auto simp: client_initialize_def Let_def split: sum.splits if_splits option.splits prod.splits)

lemma load_state_keeps_config:
  "cm_enable_client (snd (load_state w cfg m)) = cm_enable_client m \<and>
   cm_init_config (snd (load_state w cfg m)) = cm_init_config m"
  by (auto simp: load_state_def Let_def ensure_watcher_def split: option.splits prod.splits)

lemma resolve_project_keeps_config:
  "cm_enable_client (snd (resolve_state_for_project w m project)) = cm_enable_client m \<and>
   cm_init_config (snd (resolve_state_for_project w m project)) = cm_init_config m"
  using load_state_keeps_config [of w _ m]
  by (auto simp: resolve_state_for_project_def state_for_config_def set_last_used_def
      split: option.splits prod.splits sum.splits) (metis snd_conv)+

lemma configure_manager_keeps:
  "cm_enable_client (snd (configure_manager w cfg enable n m)) = enable \<and>
   cm_init_config (snd (configure_manager w cfg enable n m)) = go_abs (w_cwd w) (clean_windows_path cfg)"
  unfolding configure_manager_def
  by (simp add: resolve_project_keeps_config set_init_config_path_def Let_def ensure_watcher_def)

lemma setup_config_manager_keeps:
  assumes "setup_config_manager w cfg n ig = (None, ig1)"
  shows "ig_client ig1 = ig_client ig \<and> ig_enable ig1 = ig_enable ig \<and> ce_links (ig_env ig1) = ce_links (ig_env ig) \<and>
    cm_enable_client (ce_manager (ig_env ig1)) = ig_enable ig \<and>
    cm_init_config (ce_manager (ig_env ig1)) = go_abs (w_cwd w) (clean_windows_path cfg)"
  using assms configure_manager_keeps [of w cfg "ig_enable ig" n "ce_manager (ig_env ig)"]
  by (auto simp: setup_config_manager_def set_manager_def split: prod.splits sum.splits)

lemma initialize_client_done:
  assumes run: "initialize_client cw opts cfg ig = Some (None, ig1)"
    and own: "ig_client ig = Some a" "map_of (ce_links (ig_env ig)) a = None" and "is_abs (w_cwd (cw_world cw))"
    and cfg: "cm_init_config (ce_manager (ig_env ig)) = go_abs (w_cwd (cw_world cw)) (clean_windows_path cfg)"
    and "cm_enable_client (ce_manager (ig_env ig))" "cfg \<noteq> ''''"
  shows "default_client (ce_manager (ig_env ig1)) = Some a \<and>
    (\<exists>f. client_object (ig_env ig1) a = Some f \<and> fl_active f = Some 0)"
proof -
  let ?m = "ce_manager (ig_env ig)"
  obtain ch1 f0 f1 st n where
      init: "client_initialize (cw_chain cw) (ce_chain (ig_env ig)) f0 st (fs_config (ig_state ig)) n = Some (None, ch1, f1)"
      and out: "ig1 = set_manager (set_default_client_for_path (cw_world cw) cfg (Some a)
                  (ce_manager (put_client a f1 ((ig_env ig)\<lparr>ce_chain := ch1\<rparr>))))
                  (ig\<lparr>ig_env := put_client a f1 ((ig_env ig)\<lparr>ce_chain := ch1\<rparr>)\<rparr>)"
    using run own(1)
    by (auto simp: initialize_client_def Let_def split: option.splits if_splits prod.splits)
  have ne: "go_abs (w_cwd (cw_world cw)) (clean_windows_path cfg) \<noteq> ''''"
    by (rule is_abs_nonempty [OF go_abs_clean_abs(1) [OF assms(4)]])
  show ?thesis
    using client_initialize_active [OF init] own(2) cfg assms(6,7) ne
    by (simp add: out set_manager_def put_client_def set_default_client_for_path_def default_client_def
        client_object_def Let_def update_conv')
qed

text \<open>
  C26. After an initialization that loaded its configuration and reported no error, commands without a
  path run on the integration's own client, the one that the code lenses use, and this client has
  an active account.
\<close>

theorem initialized_client_serves_commands:
  assumes run: "initialize cw (Some opts) ig = Some (None, ig1)"
    and cfg: "string_option opts ''configPath'' = Some p" "clean_windows_path p \<noteq> ''''"
    and loads: "w_load (cw_world cw) (clean_windows_path p) = Inr st"
    and own: "ig_enable ig" "ig_client ig = Some a" "map_of (ce_links (ig_env ig)) a = None"
    and cwd: "is_abs (w_cwd (cw_world cw))"
  shows "client_for_path cw '''' (ig_env ig1) = Some (ig_client ig1, ig_env ig1) \<and> ig_client ig1 = Some a \<and>
    (\<exists>name. active_name (integration_client ig1) = Some name)"
proof -
  have p: "p \<noteq> ''''" using cfg(2) by (auto simp: clean_windows_path_def has_prefix_def)
  obtain st1 where st1: "state_load (cw_world cw) (ig_state ig) (clean_windows_path p) = (None, st1)"
    using loads by (simp add: state_load_def)
  define ig0 where "ig0 = ig\<lparr>ig_state := st1\<rparr>"
  obtain n ig2 where conf: "setup_config_manager (cw_world cw) (clean_windows_path p) n ig0 = (None, ig2)"
      and init: "initialize_client cw opts (clean_windows_path p) ig2 = Some (None, ig1)"
    using run cfg(1) p st1 own(1)
    by (cases p) (auto simp: initialize_def Let_def ig0_def split: prod.splits option.splits if_splits)
  note keeps = setup_config_manager_keeps [OF conf]
  have own2: "ig_client ig2 = Some a" "map_of (ce_links (ig_env ig2)) a = None"
    using keeps own by (simp_all add: ig0_def)
  note fin = initialize_client_done [OF init own2 cwd]
  have same: "ig_client ig1 = Some a"
    using init own2 by (auto simp: initialize_client_def Let_def set_manager_def split: option.splits if_splits prod.splits)
  show ?thesis
    using fin keeps own(1) cfg(2) same
    by (auto simp: client_for_path_def integration_client_def active_name_def get_active_client_account_def ig0_def)
qed

definition demo_options :: "(string, json) gomap" where
  "demo_options = [(''configPath'', JStr ''/p/flow.json''), (''numberOfAccounts'', JStr ''2'')]"

definition started :: "(unit, unit, nat, unit, string) integration" where
  "started = fst (new_flow_integration True 0)"

theorem initialized_client_serves_commands_witness:
  "\<exists>ig1. initialize demo_command_world (Some demo_options) started = Some (None, ig1) \<and>
     client_for_path demo_command_world '''' (ig_env ig1) = Some (Some 0, ig_env ig1)"
proof -
  have "map_option fst (initialize demo_command_world (Some demo_options) started) = Some None" by code_simp
  then obtain ig1 where run: "initialize demo_command_world (Some demo_options) started = Some (None, ig1)" by auto
  have cfg: "string_option demo_options ''configPath'' = Some ''/p/flow.json''" "clean_windows_path ''/p/flow.json'' \<noteq> ''''"
    "w_load (cw_world demo_command_world) (clean_windows_path ''/p/flow.json'') = Inr ()" by code_simp+
  have own: "ig_enable started" "ig_client started = Some 0" "map_of (ce_links (ig_env started)) 0 = None"
    "is_abs (w_cwd (cw_world demo_command_world))" by code_simp+
  show ?thesis using initialized_client_serves_commands [OF run cfg own] run by auto
qed

lemma failed_initialize:
  assumes "w_load (cw_world cw) (clean_windows_path p) = Inl e" "string_option opts ''configPath'' = Some p" "p \<noteq> ''''"
  shows "\<exists>ig. initialize cw (Some opts) (fst (new_flow_integration True ch)) = Some (None, ig) \<and>
    ig_client ig = Some 0 \<and> ce_clients (ig_env ig) = [(0, new_flowkit_client)] \<and> ce_links (ig_env ig) = [] \<and>
    ig_contracts ig = []"
  using assms
  by (cases p) (auto simp: initialize_def Let_def state_load_def handle_init_config_load_failure_def
      set_manager_def new_flow_integration_def split: sum.split)

text \<open>
  A configuration that does not load breaks the code lenses: initialization reports success and keeps
  the client, which has no account then, and the lenses of a document with a contract that names no
  signer dereference the missing active account.
\<close>

theorem broken_config_breaks_lenses:
  fixes lib :: "('ty, 'v) cadence_lib" and cw :: "('st, 'k, 'ch) command_world"
  assumes "w_load (cw_world cw) (clean_windows_path p) = Inl e" "string_option opts ''configPath'' = Some p" "p \<noteq> ''''"
    and "ck_contract ck = Some d" "lib_pragma_signers lib (cd_doc d) = []" "version \<noteq> 0"
  shows "\<exists>ig. initialize cw (Some opts) (fst (new_flow_integration True ch)) = Some (None, ig) \<and>
    integration_code_lenses lib cw u version ck loc ig = None"
proof -
  obtain ig :: "('st, 'k, 'ch, 'ty, 'v) integration" where
      ig: "initialize cw (Some opts) (fst (new_flow_integration True ch)) = Some (None, ig)"
      "ig_client ig = Some 0" "ce_clients (ig_env ig) = [(0, new_flowkit_client)]" "ce_links (ig_env ig) = []"
      "ig_contracts ig = []"
    using failed_initialize [OF assms(1-3)] by blast
  have client: "integration_client (set_manager m ig) = Some new_flowkit_client" "integration_client ig = Some new_flowkit_client" for m
    using ig by (simp_all add: integration_client_def set_manager_def client_object_def)
  define c where "c = contract_update lib u version ck new_contract_info"
  have "ct_start c = Some (cd_start d)" "ct_kind c = ContractDeclaration" "ct_signers c = []"
    using assms(4-6) by (simp_all add: c_def contract_update_def new_contract_info_def Let_def split: prod.split)
  then have "contract_codelens (Some (new_flowkit_client :: ('st, 'k) flow_client)) c = None"
    by (simp add: contract_codelens_def active_name_def get_active_client_account_def new_flowkit_client_def Let_def)
  then have "integration_code_lenses lib cw u version ck loc ig = None"
    using ig(2,5) client by (simp add: integration_code_lenses_def Let_def c_def)
  with ig(1) show ?thesis by blast
qed

definition contract_program :: "unit checked_program" where
  "contract_program =
     \<lparr>ck_transaction = None, ck_function = None,
      ck_contract = Some \<lparr>cd_doc = '''', cd_name = ''C'', cd_start = \<lparr>pos_offset = 0, pos_line = 1, pos_column = 0\<rparr>,
        cd_constructor = []\<rparr>,
      ck_interface = None, ck_transactions = [], ck_composites = [], ck_interfaces = []\<rparr>"

theorem broken_config_breaks_lenses_witness:
  "\<exists>ig. initialize (demo_command_world\<lparr>cw_world := (cw_world demo_command_world)\<lparr>w_load := (\<lambda>p. Inl ''bad'')\<rparr>\<rparr>)
       (Some demo_options) (fst (new_flow_integration True 0)) = Some (None, ig) \<and>
     integration_code_lenses (demo_lib\<lparr>lib_pragma_signers := (\<lambda>d. [])\<rparr>)
       (demo_command_world\<lparr>cw_world := (cw_world demo_command_world)\<lparr>w_load := (\<lambda>p. Inl ''bad'')\<rparr>\<rparr>)
       ''file:///p/c.cdc'' 1 contract_program None ig = None"
  by (rule broken_config_breaks_lenses [of _ "''/p/flow.json''" "''bad''"])
    (simp_all add: demo_options_def string_option_def contract_program_def)

end
