(* ===== verification/LintSyntax.thy ===== *)
theory LintSyntax
  imports Sema
begin

text \<open>
  What the linter (src/lint) reads of a Cadence program: expressions and statements with the parts
  that its analyzers take apart, and the tree of elements that the library's inspector walks. The
  syntax trees and the inspector belong to the Cadence library; the datatypes hold exactly the
  constructors and fields that the analyzers name, and an element tree is given in the order of
  the library's walk. A node has an identity, since the elaboration is looked up by pointers.
  Here are also the diagnostics (diagnostic.go) and the table of analyzers (analyzer.go).
\<close>

section \<open>Expressions and statements\<close>

record lint_node =
  nd_id :: nat
  nd_start :: ast_pos
  nd_end :: ast_pos

text \<open>A type annotation: its text, its extent, and the type arguments if it is an instantiation.\<close>

datatype type_annotation =
  TypeAnnotation (ta_text: string) (ta_node: lint_node) (ta_arguments: "type_annotation list option")

datatype bin_op = OpAnd | OpOr | OpNotEqual | OpOther
datatype cast_op = StaticCast | FailableCast | ForceCast

datatype expression = Expression (ex_node: lint_node) (ex_kind: expr_kind)
and expr_kind =
    KVoid | KBool | KNil | KInteger int | KFixedPoint bool nat nat nat | KString | KPath | KIdentifier string
  | KArray "expression list"
  | KDictionary "(expression \<times> expression) list"
  | KInvocation expression "expression list" "type_annotation list"
  | KMember expression ident bool
  | KIndex expression expression
  | KConditional expression expression expression
  | KUnary expression
  | KBinary bin_op expression expression
  | KFunction block
  | KTemplate "expression list"
  | KCasting cast_op expression type_annotation
  | KCreate expression
  | KDestroy expression
  | KReference expression
  | KForce expression
  | KAttach
and if_test = TestVariable expression "expression option" | TestExpression expression
and statement =
    SIf if_test block "block option"
  | SWhile expression block
  | SFor expression block
  | SSwitch expression "(expression option \<times> statement list) list"
  | SExpression expression
  | SReturn "expression option"
  | SAssignment expression expression
  | SVariable expression "expression option"
  | SEmit expression
  | SSwap expression expression
  | SRemove expression
  | SOther
and block = Block "statement list"

section \<open>Elements and the inspector\<close>

record lint_parameter =
  lp_label :: string
  lp_identifier :: ident
  lp_annotation :: "type_annotation option"

record lint_function =
  lf_identifier :: ident
  lf_parameters :: "lint_parameter list option"
  lf_return :: "type_annotation option"
  lf_block :: "block option"

text \<open>
  A parameter list or an annotation may be absent, and a special function may have no function
  declaration. A composite declaration says whether it is a resource.
\<close>

datatype element_kind =
    ElementIf if_test
  | is_ElementFunctionExpression: ElementFunctionExpression "lint_parameter list option" "type_annotation option"
  | ElementExpression expression
  | ElementExpressionStatement expression
  | ElementVariable ident "type_annotation option" expression
  | ElementFunction lint_function
  | ElementSpecialFunction "lint_function option"
  | ElementField "type_annotation option"
  | ElementTransaction "lint_parameter list option"
  | ElementComposite bool
  | ElementOther

datatype element = Element (el_kind: element_kind) (el_node: lint_node) (el_children: "element list")

text \<open>
  \<^verbatim>\<open>Inspector.Elements\<close>: the callback is called for the selected kinds before the children and, if it
  says to go on, again after them; other elements are only passed through.
\<close>

fun elements :: "(element_kind \<Rightarrow> bool) \<Rightarrow> (element \<Rightarrow> bool \<Rightarrow> 's \<Rightarrow> 's \<times> bool) \<Rightarrow> element \<Rightarrow> 's \<Rightarrow> 's"
and elements_list :: "(element_kind \<Rightarrow> bool) \<Rightarrow> (element \<Rightarrow> bool \<Rightarrow> 's \<Rightarrow> 's \<times> bool) \<Rightarrow> element list \<Rightarrow> 's \<Rightarrow> 's" where
  "elements sel f (Element k n cs) st =
     (if \<not> sel k then elements_list sel f cs st
      else let (st1, cont) = f (Element k n cs) True st
           in if cont then fst (f (Element k n cs) False (elements_list sel f cs st1)) else st1)"
| "elements_list sel f [] st = st"
| "elements_list sel f (c # cs) st = elements_list sel f cs (elements sel f c st)"

text \<open>\<^verbatim>\<open>Inspector.Preorder\<close>: the selected elements in the order in which they are met.\<close>

fun preorder_elements :: "(element_kind \<Rightarrow> bool) \<Rightarrow> element \<Rightarrow> element list"
and preorder_elements_list :: "(element_kind \<Rightarrow> bool) \<Rightarrow> element list \<Rightarrow> element list" where
  "preorder_elements sel (Element k n cs) =
     (if sel k then [Element k n cs] else []) @ preorder_elements_list sel cs"
| "preorder_elements_list sel [] = []"
| "preorder_elements_list sel (c # cs) = preorder_elements sel c @ preorder_elements_list sel cs"

section \<open>Diagnostics (diagnostic.go)\<close>

record lint_fix =
  fx_message :: string
  fx_edits :: "(extent \<times> string) list"

record lint_diagnostic =
  ld_range :: extent
  ld_category :: string
  ld_code :: string
  ld_url :: string
  ld_message :: string
  ld_secondary :: string
  ld_fixes :: "lint_fix list"

definition node_extent :: "lint_node \<Rightarrow> extent" where "node_extent n = (nd_start n, nd_end n)"

definition new_diagnostic :: "string \<Rightarrow> extent \<Rightarrow> lint_diagnostic" where
  "new_diagnostic msg r =
     \<lparr>ld_range = r, ld_category = '''', ld_code = '''', ld_url = '''', ld_message = msg, ld_secondary = '''', ld_fixes = []\<rparr>"

definition with_code :: "string \<Rightarrow> lint_diagnostic \<Rightarrow> lint_diagnostic" where "with_code c d = d\<lparr>ld_code := c\<rparr>"
definition with_url :: "string \<Rightarrow> lint_diagnostic \<Rightarrow> lint_diagnostic" where "with_url u d = d\<lparr>ld_url := u\<rparr>"
definition with_category :: "string \<Rightarrow> lint_diagnostic \<Rightarrow> lint_diagnostic" where "with_category c d = d\<lparr>ld_category := c\<rparr>"

definition with_simple_replacement :: "string \<Rightarrow> lint_diagnostic \<Rightarrow> lint_diagnostic" where
  "with_simple_replacement replacement d =
     d\<lparr>ld_fixes := ld_fixes d @
        [\<lparr>fx_message = (if replacement = '''' then ''Remove code'' else ''Replace with `'' @ replacement @ ''`''),
          fx_edits = [(ld_range d, replacement)]\<rparr>]\<rparr>"

section \<open>The table of analyzers (analyzer.go)\<close>

definition word_char :: "char \<Rightarrow> bool" where
  "word_char c =
     (let n = of_char c :: nat
      in 48 \<le> n \<and> n \<le> 57 \<or> 65 \<le> n \<and> n \<le> 90 \<or> 97 \<le> n \<and> n \<le> 122 \<or> n = 95)"

text \<open>\<open>None\<close> is a panic: the name is taken, or it has no word character.\<close>

definition register_analyzer :: "string \<Rightarrow> 'a \<Rightarrow> (string, 'a) gomap \<Rightarrow> (string, 'a) gomap option" where
  "register_analyzer name a table =
     (if map_of table name \<noteq> None then None
      else if \<not> list_ex word_char name then None
      else Some (AList.update name a table))"

end
