(* ===== verification/LintIfLet.thy ===== *)
theory LintIfLet
  imports LintSyntax "HOL-Library.Sublist"
begin

text \<open>
  The if-let analyzer (src/lint/iflet_analyzer.go): a machine over the inspector's callbacks with a
  stack of scopes, one per function expression, each with counters of the nil checks around the
  current position and the expressions already reported; and its specification over the tree. The
  text of an expression is the parameter \<open>str\<close>; \<open>None\<close> is a panic.
\<close>

section \<open>The analyzer\<close>

record iflet_scope =
  sc_checked :: "(string, int) gomap"
  sc_reported :: "string keyset"

record iflet_state =
  il_scopes :: "iflet_scope list"
  il_reports :: "lint_node list"

text \<open>The top of the stack is the head of the list.\<close>

definition push_scope :: "iflet_state \<Rightarrow> iflet_state" where
  "push_scope st = st\<lparr>il_scopes := \<lparr>sc_checked = [], sc_reported = []\<rparr> # il_scopes st\<rparr>"

definition get_nil_checked_expression :: "if_test \<Rightarrow> expression option" where
  "get_nil_checked_expression t =
     (case t of
        TestExpression (Expression n (KBinary OpNotEqual l r)) \<Rightarrow>
          (let checked = (if ex_kind r = KNil then Some l else if ex_kind l = KNil then Some r else None)
           in case checked of
                None \<Rightarrow> None
              | Some x \<Rightarrow>
                  (case ex_kind x of
                     KIdentifier _ \<Rightarrow> Some x | KMember _ _ _ \<Rightarrow> Some x | KIndex _ _ \<Rightarrow> Some x | _ \<Rightarrow> None))
      | _ \<Rightarrow> None)"

definition scope_count :: "iflet_scope \<Rightarrow> string \<Rightarrow> int" where
  "scope_count s key = (case map_of (sc_checked s) key of None \<Rightarrow> 0 | Some n \<Rightarrow> n)"

definition add_check :: "string \<Rightarrow> int \<Rightarrow> iflet_scope \<Rightarrow> iflet_scope" where
  "add_check key d s = s\<lparr>sc_checked := AList.update key (scope_count s key + d) (sc_checked s)\<rparr>"

definition iflet_element :: "element_kind \<Rightarrow> bool" where
  "iflet_element k \<longleftrightarrow>
     (case k of
        ElementIf _ \<Rightarrow> True | ElementFunctionExpression _ _ \<Rightarrow> True
      | ElementExpression (Expression _ (KForce _)) \<Rightarrow> True | _ \<Rightarrow> False)"

definition iflet_visit :: "(expression \<Rightarrow> string) \<Rightarrow> element \<Rightarrow> bool \<Rightarrow> iflet_state option \<Rightarrow> iflet_state option \<times> bool" where
  "iflet_visit str el push st0 =
     (case st0 of
        None \<Rightarrow> (None, True)
      | Some st \<Rightarrow>
          (case el_kind el of
             ElementFunctionExpression _ _ \<Rightarrow>
               (if push then (Some (push_scope st), True)
                else (case il_scopes st of [] \<Rightarrow> None | _ # ss \<Rightarrow> Some (st\<lparr>il_scopes := ss\<rparr>), True))
           | ElementIf t \<Rightarrow>
               (case il_scopes st of
                  [] \<Rightarrow> (None, True)
                | s # ss \<Rightarrow>
                    (case get_nil_checked_expression t of
                       None \<Rightarrow> (Some st, True)
                     | Some x \<Rightarrow>
                         (if push then (Some (st\<lparr>il_scopes := add_check (str x) 1 s # ss\<rparr>), True)
                          else if length (sc_checked s) > 0
                          then (Some (st\<lparr>il_scopes := add_check (str x) (- 1) s # ss\<rparr>), True)
                          else (Some st, True))))
           | ElementExpression (Expression n (KForce x)) \<Rightarrow>
               (if \<not> push then (Some st, True)
                else case il_scopes st of
                  [] \<Rightarrow> (None, True)
                | s # ss \<Rightarrow>
                    (if scope_count s (str x) > 0 \<and> str x \<notin> set (sc_reported s)
                     then (Some (st\<lparr>il_scopes := s\<lparr>sc_reported := ks_insert (str x) (sc_reported s)\<rparr> # ss,
                             il_reports := il_reports st @ [n]\<rparr>), True)
                     else (Some st, True)))
           | _ \<Rightarrow> (Some st, True)))"

definition iflet_diagnostic :: "lint_node \<Rightarrow> lint_diagnostic" where
  "iflet_diagnostic n =
     with_url ''https://cadence-lang.org/docs/language/control-flow#optional-binding''
       (with_category ''if-let-hint''
         (new_diagnostic ''consider using if-let instead of nil check followed by force-unwrap'' (node_extent n)))"

definition iflet_analyzer :: "(expression \<Rightarrow> string) \<Rightarrow> element \<Rightarrow> lint_diagnostic list option" where
  "iflet_analyzer str program =
     map_option (\<lambda>st. map iflet_diagnostic (il_reports st))
       (elements iflet_element (iflet_visit str) program (Some (push_scope \<lparr>il_scopes = [], il_reports = []\<rparr>)))"

section \<open>Specification\<close>

text \<open>
  The force-unwraps below a nil check of the same expression, in the order of the tree. \<open>pos\<close> is the
  position of an element in the tree, \<open>sc\<close> the position of the function expression around it, if
  any, and \<open>ks\<close> the expressions that the if statements within this function check around it.
\<close>

type_synonym site = "nat list option \<times> string \<times> lint_node"

definition forced :: "element_kind \<Rightarrow> (lint_node \<times> expression) option" where
  "forced k = (case k of ElementExpression (Expression m (KForce x)) \<Rightarrow> Some (m, x) | _ \<Rightarrow> None)"

definition nil_checks :: "(expression \<Rightarrow> string) \<Rightarrow> element_kind \<Rightarrow> string list" where
  "nil_checks str k =
     (case k of
        ElementIf t \<Rightarrow> (case get_nil_checked_expression t of None \<Rightarrow> [] | Some x \<Rightarrow> [str x]) | _ \<Rightarrow> [])"

fun force_sites :: "(expression \<Rightarrow> string) \<Rightarrow> nat list \<Rightarrow> nat list option \<Rightarrow> string list \<Rightarrow> element \<Rightarrow> site list"
and force_sites_list ::
    "(expression \<Rightarrow> string) \<Rightarrow> nat list \<Rightarrow> nat \<Rightarrow> nat list option \<Rightarrow> string list \<Rightarrow> element list \<Rightarrow> site list" where
  "force_sites str pos sc ks (Element k n cs) =
     (case forced k of None \<Rightarrow> [] | Some (m, x) \<Rightarrow> if str x \<in> set ks then [(sc, str x, m)] else []) @
     (if is_ElementFunctionExpression k then force_sites_list str pos 0 (Some pos) [] cs
      else force_sites_list str pos 0 sc (nil_checks str k @ ks) cs)"
| "force_sites_list str pos i sc ks [] = []"
| "force_sites_list str pos i sc ks (c # cs) =
     force_sites str (pos @ [i]) sc ks c @ force_sites_list str pos (Suc i) sc ks cs"

text \<open>The first site for every expression and function.\<close>

fun first_sites :: "(nat list option \<times> string) set \<Rightarrow> site list \<Rightarrow> lint_node list" where
  "first_sites seen [] = []"
| "first_sites seen ((sc, key, n) # xs) =
     (if (sc, key) \<in> seen then first_sites seen xs else n # first_sites (insert (sc, key) seen) xs)"

definition seen_sites :: "site list \<Rightarrow> (nat list option \<times> string) set" where
  "seen_sites xs = (\<lambda>(sc, key, n). (sc, key)) ` set xs"

lemma seen_sites_simps [simp]:
  "seen_sites [] = {}" "seen_sites ((sc, key, n) # xs) = insert (sc, key) (seen_sites xs)"
  "seen_sites (xs @ ys) = seen_sites xs \<union> seen_sites ys"
  by (auto simp: seen_sites_def image_Un)

lemma first_sites_append: "first_sites S (xs @ ys) = first_sites S xs @ first_sites (S \<union> seen_sites xs) ys"
proof (induction S xs rule: first_sites.induct)
  case (2 seen sc key n xs)
  then show ?case by (auto simp: insert_absorb)
qed simp

section \<open>The machine meets its specification\<close>

definition below :: "nat list \<Rightarrow> nat list option \<Rightarrow> bool" where
  "below pos sc \<longleftrightarrow> (\<exists>q. sc = Some q \<and> prefix pos q)"

lemma below_snoc: "below (pos @ [i]) sc \<Longrightarrow> below pos sc"
  by (auto simp: below_def dest: append_prefixD)

lemma below_child: "below (pos @ [i]) sc \<Longrightarrow> below (pos @ [j]) sc \<Longrightarrow> i = j"
  by (auto simp: below_def prefix_def)

lemma not_below_own [simp]: "\<not> below (pos @ [i]) (Some pos)"
  by (auto simp: below_def prefix_def)

lemma seen_sites_scopes:
  "x \<in> seen_sites (force_sites str pos sc ks e) \<Longrightarrow> fst x = sc \<or> below pos (fst x)"
  "x \<in> seen_sites (force_sites_list str pos i sc ks es) \<Longrightarrow>
     fst x = sc \<or> (\<exists>j \<ge> i. below (pos @ [j]) (fst x))"
proof (induction str pos sc ks e and str pos i sc ks es rule: force_sites_force_sites_list.induct)
  case (1 str pos sc ks k n cs)
  have "below pos (Some pos)" by (simp add: below_def)
  then show ?case
    using 1 by (auto dest: below_snoc split: if_splits option.splits)
next
  case (3 str pos i sc ks c cs)
  then show ?case by (auto intro: Suc_leD)
qed simp

definition scope_matches ::
    "nat list option \<Rightarrow> string list \<Rightarrow> (nat list option \<times> string) set \<Rightarrow> iflet_scope \<Rightarrow> bool" where
  "scope_matches sc ks S s \<longleftrightarrow>
     (\<forall>key. scope_count s key = int (count_list ks key)) \<and>
     (\<forall>key. key \<in> set (sc_reported s) \<longleftrightarrow> (sc, key) \<in> S)"

definition fresh_below :: "nat list \<Rightarrow> (nat list option \<times> string) set \<Rightarrow> bool" where
  "fresh_below pos S \<longleftrightarrow> (\<forall>x \<in> S. \<not> below pos (fst x))"

lemma unselected_element:
  "\<not> iflet_element k \<Longrightarrow> forced k = None \<and> nil_checks str k = [] \<and> \<not> is_ElementFunctionExpression k"
  by (auto simp: iflet_element_def forced_def nil_checks_def split: element_kind.splits expression.splits expr_kind.splits)

lemma selected_element:
  "iflet_element k \<Longrightarrow>
     (\<exists>ps r. k = ElementFunctionExpression ps r) \<or> (\<exists>t. k = ElementIf t) \<or> (\<exists>m x. k = ElementExpression (Expression m (KForce x)))"
  by (auto simp: iflet_element_def split: element_kind.splits expression.splits expr_kind.splits)

lemma scope_count_add [simp]:
  "scope_count (add_check key d s) k = scope_count s k + (if k = key then d else 0)"
  "sc_reported (add_check key d s) = sc_reported s"
  by (simp_all add: scope_count_def add_check_def update_conv')

lemma scope_matches_new: "fresh_below pos S \<Longrightarrow> scope_matches (Some pos) [] S \<lparr>sc_checked = [], sc_reported = []\<rparr>"
  by (auto simp: scope_matches_def scope_count_def fresh_below_def below_def)

text \<open>Entering and leaving an if statement.\<close>

lemma scope_matches_check:
  "scope_matches sc ks S s \<Longrightarrow> scope_matches sc (key # ks) S (add_check key 1 s)"
  by (auto simp: scope_matches_def)

lemma scope_matches_uncheck:
  "scope_matches sc (key # ks) S s \<Longrightarrow> scope_matches sc ks S (add_check key (- 1) s) \<and> sc_checked s \<noteq> []"
proof -
  assume m: "scope_matches sc (key # ks) S s"
  then have "scope_count s key > 0" by (simp add: scope_matches_def)
  then have "sc_checked s \<noteq> []" by (auto simp: scope_count_def)
  with m show ?thesis by (auto simp: scope_matches_def)
qed

lemma fresh_below_child: "fresh_below pos S \<Longrightarrow> fresh_below (pos @ [i]) S"
  by (auto simp: fresh_below_def dest: below_snoc)

lemma scope_matches_other: "scope_matches sc ks S s \<Longrightarrow> \<forall>x \<in> T. fst x \<noteq> sc \<Longrightarrow> scope_matches sc ks (S \<union> T) s"
  by (force simp: scope_matches_def)

text \<open>The run over one element, from any scope that matches what is around it.\<close>

definition run_matches ::
    "(expression \<Rightarrow> string) \<Rightarrow> (iflet_state option \<Rightarrow> iflet_state option) \<Rightarrow> nat list option \<Rightarrow> string list \<Rightarrow>
     (nat list option \<times> string) set \<Rightarrow> iflet_scope \<Rightarrow> site list \<Rightarrow> bool" where
  "run_matches str run sc ks S s sites \<longleftrightarrow>
     (\<forall>rest R. \<exists>s'. run (Some \<lparr>il_scopes = s # rest, il_reports = R\<rparr>) =
        Some \<lparr>il_scopes = s' # rest, il_reports = R @ first_sites S sites\<rparr> \<and>
      scope_matches sc ks (S \<union> seen_sites sites) s')"

lemma run_matchesD:
  "run_matches str run sc ks S s sites \<Longrightarrow>
   \<exists>s'. run (Some \<lparr>il_scopes = s # rest, il_reports = R\<rparr>) =
        Some \<lparr>il_scopes = s' # rest, il_reports = R @ first_sites S sites\<rparr> \<and>
      scope_matches sc ks (S \<union> seen_sites sites) s'"
  unfolding run_matches_def by blast

lemma elements_list_matches:
  assumes each: "\<And>c pos' sc ks S s. c \<in> set cs \<Longrightarrow> scope_matches sc ks S s \<Longrightarrow> fresh_below pos' S \<Longrightarrow> \<not> below pos' sc \<Longrightarrow>
      run_matches str (elements iflet_element (iflet_visit str) c) sc ks S s (force_sites str pos' sc ks c)"
    and "scope_matches sc ks S s" "\<And>j. i \<le> j \<Longrightarrow> fresh_below (pos @ [j]) S" "\<And>j. i \<le> j \<Longrightarrow> \<not> below (pos @ [j]) sc"
  shows "run_matches str (elements_list iflet_element (iflet_visit str) cs) sc ks S s
    (force_sites_list str pos i sc ks cs)"
  using assms
proof (induction cs arbitrary: i S s)
  case Nil
  then show ?case by (simp add: run_matches_def)
next
  case (Cons c cs)
  let ?xs = "force_sites str (pos @ [i]) sc ks c"
  have head: "run_matches str (elements iflet_element (iflet_visit str) c) sc ks S s ?xs"
    by (rule Cons.prems(1)) (use Cons.prems(2-4) in auto)
  have fresh: "fresh_below (pos @ [j]) (S \<union> seen_sites ?xs)" if "Suc i \<le> j" for j
    using that Cons.prems(3) [of j] Cons.prems(4) [of j] seen_sites_scopes(1) [of _ str "pos @ [i]" sc ks c]
    by (force simp: fresh_below_def dest: below_child)
  have tail: "run_matches str (elements_list iflet_element (iflet_visit str) cs) sc ks (S \<union> seen_sites ?xs) s'
      (force_sites_list str pos (Suc i) sc ks cs)" if "scope_matches sc ks (S \<union> seen_sites ?xs) s'" for s'
    by (rule Cons.IH [OF _ that fresh]) (use Cons.prems(1,4) in auto)
  show ?case
    unfolding run_matches_def
  proof (intro allI)
    fix rest R
    from run_matchesD [OF head, of rest R] obtain s' where
        s': "elements iflet_element (iflet_visit str) c (Some \<lparr>il_scopes = s # rest, il_reports = R\<rparr>) =
          Some \<lparr>il_scopes = s' # rest, il_reports = R @ first_sites S ?xs\<rparr>"
          "scope_matches sc ks (S \<union> seen_sites ?xs) s'" by blast
    from run_matchesD [OF tail [OF s'(2)], of rest "R @ first_sites S ?xs"]
    show "\<exists>s'. elements_list iflet_element (iflet_visit str) (c # cs) (Some \<lparr>il_scopes = s # rest, il_reports = R\<rparr>) =
        Some \<lparr>il_scopes = s' # rest, il_reports = R @ first_sites S (force_sites_list str pos i sc ks (c # cs))\<rparr> \<and>
      scope_matches sc ks (S \<union> seen_sites (force_sites_list str pos i sc ks (c # cs))) s'"
      using s'(1) by (simp add: first_sites_append Un_assoc)
  qed
qed

lemma element_matches:
  assumes "scope_matches sc ks S s" "fresh_below pos S" "\<not> below pos sc"
  shows "run_matches str (elements iflet_element (iflet_visit str) e) sc ks S s (force_sites str pos sc ks e)"
  using assms
proof (induction e arbitrary: pos sc ks S s)
  case (Element k n cs)
  have kids: "run_matches str (elements_list iflet_element (iflet_visit str) cs) sc' ks' S' s'
      (force_sites_list str pos 0 sc' ks' cs)"
    if "scope_matches sc' ks' S' s'" "fresh_below pos S'" "\<And>j. \<not> below (pos @ [j]) sc'" for sc' ks' S' s'
    by (rule elements_list_matches [OF Element.IH]) (use that fresh_below_child in auto)
  have outside: "\<not> below (pos @ [j]) sc" for j using Element.prems(3) below_snoc by blast
  show ?case
  proof (cases "iflet_element k")
    case False
    then show ?thesis
      using kids [OF Element.prems(1,2) outside] unselected_element [OF False, of str]
      by (simp add: run_matches_def)
  next
    case True
    then consider (fn) ps r where "k = ElementFunctionExpression ps r" | (branch) t where "k = ElementIf t"
      | (force) m x where "k = ElementExpression (Expression m (KForce x))"
      using selected_element by blast
    then show ?thesis
    proof cases
      case fn
      let ?xs = "force_sites_list str pos 0 (Some pos) [] cs"
      have other: "\<forall>x \<in> seen_sites ?xs. fst x \<noteq> sc"
      proof
        fix x assume "x \<in> seen_sites ?xs"
        then have "below pos (fst x)"
          using seen_sites_scopes(2) [of x str pos 0 "Some pos" "[]" cs] below_snoc by (fastforce simp: below_def)
        then show "fst x \<noteq> sc" using Element.prems(3) by auto
      qed
      note run = kids [OF scope_matches_new [OF Element.prems(2)] Element.prems(2) not_below_own]
      show ?thesis
        unfolding run_matches_def
      proof (intro allI)
        fix rest R
        from run_matchesD [OF run, of "s # rest" R]
        show "\<exists>s'. elements iflet_element (iflet_visit str) (Element k n cs) (Some \<lparr>il_scopes = s # rest, il_reports = R\<rparr>) =
            Some \<lparr>il_scopes = s' # rest, il_reports = R @ first_sites S (force_sites str pos sc ks (Element k n cs))\<rparr> \<and>
          scope_matches sc ks (S \<union> seen_sites (force_sites str pos sc ks (Element k n cs))) s'"
          using fn True scope_matches_other [OF Element.prems(1) other]
          by (auto simp: iflet_visit_def push_scope_def forced_def Let_def)
      qed
    next
      case (branch t)
      show ?thesis
      proof (cases "get_nil_checked_expression t")
        case None
        show ?thesis
          unfolding run_matches_def
        proof (intro allI)
          fix rest R
          from run_matchesD [OF kids [OF Element.prems(1,2) outside], of rest R]
          show "\<exists>s'. elements iflet_element (iflet_visit str) (Element k n cs) (Some \<lparr>il_scopes = s # rest, il_reports = R\<rparr>) =
              Some \<lparr>il_scopes = s' # rest, il_reports = R @ first_sites S (force_sites str pos sc ks (Element k n cs))\<rparr> \<and>
            scope_matches sc ks (S \<union> seen_sites (force_sites str pos sc ks (Element k n cs))) s'"
            using branch True None by (auto simp: iflet_visit_def forced_def nil_checks_def Let_def)
        qed
      next
        case (Some x)
        show ?thesis
          unfolding run_matches_def
        proof (intro allI)
          fix rest R
          from run_matchesD [OF kids [OF scope_matches_check [OF Element.prems(1)] Element.prems(2) outside], of "str x" rest R]
          show "\<exists>s'. elements iflet_element (iflet_visit str) (Element k n cs) (Some \<lparr>il_scopes = s # rest, il_reports = R\<rparr>) =
              Some \<lparr>il_scopes = s' # rest, il_reports = R @ first_sites S (force_sites str pos sc ks (Element k n cs))\<rparr> \<and>
            scope_matches sc ks (S \<union> seen_sites (force_sites str pos sc ks (Element k n cs))) s'"
            using branch True Some scope_matches_uncheck
            by (fastforce simp: iflet_visit_def forced_def nil_checks_def Let_def)
        qed
      qed
    next
      case (force m x)
      let ?key = "str x" and ?xs = "force_sites_list str pos 0 sc ks cs"
      let ?hit = "?key \<in> set ks \<and> (sc, ?key) \<notin> S"
      define s1 where "s1 = (if ?hit then s\<lparr>sc_reported := ks_insert ?key (sc_reported s)\<rparr> else s)"
      define S1 where "S1 = (if ?hit then insert (sc, ?key) S else S)"
      have m1: "scope_matches sc ks S1 s1" "fresh_below pos S1"
        using Element.prems by (auto simp: s1_def S1_def scope_matches_def scope_count_def fresh_below_def)
      have test: "scope_count s ?key > 0 \<and> ?key \<notin> set (sc_reported s) \<longleftrightarrow> ?hit"
        using Element.prems(1) count_list_0_iff [of ks ?key]
        by (cases "?key \<in> set ks") (auto simp: scope_matches_def)
      have sites: "force_sites str pos sc ks (Element k n cs) = (if ?key \<in> set ks then [(sc, ?key, m)] else []) @ ?xs"
        by (simp add: force forced_def nil_checks_def)
      have spec: "first_sites S (force_sites str pos sc ks (Element k n cs)) = (if ?hit then [m] else []) @ first_sites S1 ?xs"
        "S \<union> seen_sites (force_sites str pos sc ks (Element k n cs)) = S1 \<union> seen_sites ?xs"
        unfolding sites by (auto simp: S1_def insert_absorb)
      show ?thesis
        unfolding run_matches_def
      proof (intro allI)
        fix rest R
        from run_matchesD [OF kids [OF m1 outside], of rest "R @ (if ?hit then [m] else [])"]
        show "\<exists>s'. elements iflet_element (iflet_visit str) (Element k n cs) (Some \<lparr>il_scopes = s # rest, il_reports = R\<rparr>) =
            Some \<lparr>il_scopes = s' # rest, il_reports = R @ first_sites S (force_sites str pos sc ks (Element k n cs))\<rparr> \<and>
          scope_matches sc ks (S \<union> seen_sites (force_sites str pos sc ks (Element k n cs))) s'"
          unfolding spec using True test by (auto simp: force iflet_visit_def Let_def s1_def)
      qed
    qed
  qed
qed

section \<open>The reports\<close>

text \<open>
  C29. The if-let analyzer never panics, and it reports exactly, for every function expression and
  every expression, the first force-unwrap in the order of the tree that stands below an if
  statement of the same function expression whose test compares this expression with nil; the
  stack of scopes with its counters computes the set of checks around the position. That is
  anywhere below the statement: also in its else branch, where the expression is nil.
\<close>

theorem iflet_reports_first_sites:
  "iflet_analyzer str program = Some (map iflet_diagnostic (first_sites {} (force_sites str [] None [] program)))"
proof -
  have "run_matches str (elements iflet_element (iflet_visit str) program) None [] {}
      \<lparr>sc_checked = [], sc_reported = []\<rparr> (force_sites str [] None [] program)"
    by (rule element_matches) (simp_all add: scope_matches_def scope_count_def fresh_below_def below_def)
  from run_matchesD [OF this, of "[]" "[]"] show ?thesis
    by (auto simp: iflet_analyzer_def push_scope_def)
qed

end
