(* ===== verification/LintComplexity.thy ===== *)
theory LintComplexity
  imports LintSyntax Dispatch
begin

text \<open>
  The cyclomatic complexity analyzer (src/lint/cyclomatic_complexity_analyzer.go): the calculator over
  blocks, statements and expressions, and the functions it reports. The flag is the calculator's
  field \<^verbatim>\<open>countLogicalOperators\<close>.
\<close>

section \<open>The calculator\<close>

definition optional :: "'a \<Rightarrow> 'a option \<Rightarrow> 'a" where
  "optional d x = (case x of None \<Rightarrow> d | Some y \<Rightarrow> y)"

lemma optional_simps [simp]: "optional d None = d" "optional d (Some y) = y"
  by (simp_all add: optional_def)

primrec block_complexity :: "bool \<Rightarrow> block \<Rightarrow> nat"
and statement_complexity :: "bool \<Rightarrow> statement \<Rightarrow> nat"
and test_complexity :: "bool \<Rightarrow> if_test \<Rightarrow> nat"
and expression_complexity :: "bool \<Rightarrow> expression \<Rightarrow> nat"
and kind_complexity :: "bool \<Rightarrow> expr_kind \<Rightarrow> nat" where
  "block_complexity c (Block ss) = sum_list (map (statement_complexity c) ss)"
| "statement_complexity c (SIf t b e) =
     1 + test_complexity c t + block_complexity c b + optional 0 (map_option (block_complexity c) e)"
| "statement_complexity c (SWhile t b) = 1 + expression_complexity c t + block_complexity c b"
| "statement_complexity c (SFor v b) = 1 + block_complexity c b"
| "statement_complexity c (SSwitch v cs) =
     1 + sum_list (map (\<lambda>x. 1 + sum_list (snd x))
           (map (map_prod (map_option (expression_complexity c)) (map (statement_complexity c))) cs))"
| "statement_complexity c (SExpression x) = expression_complexity c x"
| "statement_complexity c (SReturn x) = optional 0 (map_option (expression_complexity c) x)"
| "statement_complexity c (SAssignment t x) = expression_complexity c x"
| "statement_complexity c (SVariable x y) =
     expression_complexity c x + optional 0 (map_option (expression_complexity c) y)"
| "statement_complexity c (SEmit x) = expression_complexity c x"
| "statement_complexity c (SSwap x y) = expression_complexity c x + expression_complexity c y"
| "statement_complexity c (SRemove x) = expression_complexity c x"
| "statement_complexity c SOther = 0"
| "test_complexity c (TestVariable x y) = expression_complexity c x"
| "test_complexity c (TestExpression x) = expression_complexity c x"
| "expression_complexity c (Expression n k) = kind_complexity c k"
| "kind_complexity c (KFunction b) = block_complexity c b"
| "kind_complexity c (KBinary op l r) =
     (if \<not> c then 0
      else (if op = OpAnd \<or> op = OpOr then 1 else 0) + expression_complexity c l + expression_complexity c r)"
| "kind_complexity c (KConditional t x y) =
     (if \<not> c then 0 else expression_complexity c t + expression_complexity c x + expression_complexity c y)"
| "kind_complexity c (KInvocation f xs ts) =
     (if \<not> c then 0 else expression_complexity c f + sum_list (map (expression_complexity c) xs))"
| "kind_complexity c (KIndex x i) = (if \<not> c then 0 else expression_complexity c x + expression_complexity c i)"
| "kind_complexity c (KMember x m q) = (if \<not> c then 0 else expression_complexity c x)"
| "kind_complexity c (KUnary x) = (if \<not> c then 0 else expression_complexity c x)"
| "kind_complexity c (KCasting op x t) = (if \<not> c then 0 else expression_complexity c x)"
| "kind_complexity c (KCreate x) = (if \<not> c then 0 else expression_complexity c x)"
| "kind_complexity c (KDestroy x) = (if \<not> c then 0 else expression_complexity c x)"
| "kind_complexity c (KReference x) = (if \<not> c then 0 else expression_complexity c x)"
| "kind_complexity c (KForce x) = (if \<not> c then 0 else expression_complexity c x)"
| "kind_complexity c (KArray xs) = (if \<not> c then 0 else sum_list (map (expression_complexity c) xs))"
| "kind_complexity c (KDictionary es) =
     (if \<not> c then 0
      else sum_list (map (\<lambda>x. fst x + snd x) (map (map_prod (expression_complexity c) (expression_complexity c)) es)))"
| "kind_complexity c (KTemplate xs) = (if \<not> c then 0 else sum_list (map (expression_complexity c) xs))"
| "kind_complexity c KVoid = 0"
| "kind_complexity c KBool = 0"
| "kind_complexity c KNil = 0"
| "kind_complexity c (KInteger i) = 0"
| "kind_complexity c (KFixedPoint neg i f s) = 0"
| "kind_complexity c KString = 0"
| "kind_complexity c KPath = 0"
| "kind_complexity c (KIdentifier name) = 0"
| "kind_complexity c KAttach = 0"

section \<open>The analyzer\<close>

text \<open>The function an element declares, if the analyzer looks at its body.\<close>

definition analyzed_function :: "element_kind \<Rightarrow> (ident \<times> block) option" where
  "analyzed_function k =
     (case k of
        ElementFunction f \<Rightarrow> map_option (Pair (lf_identifier f)) (lf_block f)
      | ElementSpecialFunction (Some f) \<Rightarrow> map_option (Pair (lf_identifier f)) (lf_block f)
      | _ \<Rightarrow> None)"

definition function_element :: "element_kind \<Rightarrow> bool" where
  "function_element k \<longleftrightarrow>
     (case k of ElementFunction _ \<Rightarrow> True | ElementSpecialFunction _ \<Rightarrow> True | _ \<Rightarrow> False)"

definition complexity_visit :: "int \<Rightarrow> bool \<Rightarrow> element \<Rightarrow> lint_diagnostic list" where
  "complexity_visit threshold c el =
     (case analyzed_function (el_kind el) of
        None \<Rightarrow> []
      | Some (i, b) \<Rightarrow>
          (let complexity = 1 + int (block_complexity c b)
           in if complexity > threshold
              then [with_category ''complexity''
                     (new_diagnostic
                        (''function '' @ go_quote (id_name i) @ '' has cyclomatic complexity '' @ itoa (nat complexity) @
                         '' (threshold: '' @ (if threshold < 0 then ''-'' else '''') @ itoa (nat \<bar>threshold\<bar>) @ '')'')
                        (id_start i, id_end i))]
              else []))"

definition complexity_analyzer :: "int \<Rightarrow> bool \<Rightarrow> element \<Rightarrow> lint_diagnostic list" where
  "complexity_analyzer threshold c program =
     concat (map (complexity_visit threshold c) (preorder_elements function_element program))"

section \<open>Against the documented count\<close>

text \<open>
  The count that the documentation of the analyzer describes: one for each if, for, while, switch and
  case, one for each logical operator if these count, and what function expressions contain, wherever
  in the statements and expressions of the block they are.
\<close>

primrec block_decisions :: "bool \<Rightarrow> block \<Rightarrow> nat"
and statement_decisions :: "bool \<Rightarrow> statement \<Rightarrow> nat"
and test_decisions :: "bool \<Rightarrow> if_test \<Rightarrow> nat"
and expression_decisions :: "bool \<Rightarrow> expression \<Rightarrow> nat"
and kind_decisions :: "bool \<Rightarrow> expr_kind \<Rightarrow> nat" where
  "block_decisions c (Block ss) = sum_list (map (statement_decisions c) ss)"
| "statement_decisions c (SIf t b e) =
     1 + test_decisions c t + block_decisions c b + optional 0 (map_option (block_decisions c) e)"
| "statement_decisions c (SWhile t b) = 1 + expression_decisions c t + block_decisions c b"
| "statement_decisions c (SFor v b) = 1 + expression_decisions c v + block_decisions c b"
| "statement_decisions c (SSwitch v cs) =
     1 + expression_decisions c v +
     sum_list (map (\<lambda>x. 1 + optional 0 (fst x) + sum_list (snd x))
       (map (map_prod (map_option (expression_decisions c)) (map (statement_decisions c))) cs))"
| "statement_decisions c (SExpression x) = expression_decisions c x"
| "statement_decisions c (SReturn x) = optional 0 (map_option (expression_decisions c) x)"
| "statement_decisions c (SAssignment t x) = expression_decisions c t + expression_decisions c x"
| "statement_decisions c (SVariable x y) =
     expression_decisions c x + optional 0 (map_option (expression_decisions c) y)"
| "statement_decisions c (SEmit x) = expression_decisions c x"
| "statement_decisions c (SSwap x y) = expression_decisions c x + expression_decisions c y"
| "statement_decisions c (SRemove x) = expression_decisions c x"
| "statement_decisions c SOther = 0"
| "test_decisions c (TestVariable x y) =
     expression_decisions c x + optional 0 (map_option (expression_decisions c) y)"
| "test_decisions c (TestExpression x) = expression_decisions c x"
| "expression_decisions c (Expression n k) = kind_decisions c k"
| "kind_decisions c (KFunction b) = block_decisions c b"
| "kind_decisions c (KBinary op l r) =
     (if c \<and> (op = OpAnd \<or> op = OpOr) then 1 else 0) + expression_decisions c l + expression_decisions c r"
| "kind_decisions c (KConditional t x y) = expression_decisions c t + expression_decisions c x + expression_decisions c y"
| "kind_decisions c (KInvocation f xs ts) = expression_decisions c f + sum_list (map (expression_decisions c) xs)"
| "kind_decisions c (KIndex x i) = expression_decisions c x + expression_decisions c i"
| "kind_decisions c (KMember x m q) = expression_decisions c x"
| "kind_decisions c (KUnary x) = expression_decisions c x"
| "kind_decisions c (KCasting op x t) = expression_decisions c x"
| "kind_decisions c (KCreate x) = expression_decisions c x"
| "kind_decisions c (KDestroy x) = expression_decisions c x"
| "kind_decisions c (KReference x) = expression_decisions c x"
| "kind_decisions c (KForce x) = expression_decisions c x"
| "kind_decisions c (KArray xs) = sum_list (map (expression_decisions c) xs)"
| "kind_decisions c (KDictionary es) =
     sum_list (map (\<lambda>x. fst x + snd x) (map (map_prod (expression_decisions c) (expression_decisions c)) es))"
| "kind_decisions c (KTemplate xs) = sum_list (map (expression_decisions c) xs)"
| "kind_decisions c KVoid = 0"
| "kind_decisions c KBool = 0"
| "kind_decisions c KNil = 0"
| "kind_decisions c (KInteger i) = 0"
| "kind_decisions c (KFixedPoint neg i f s) = 0"
| "kind_decisions c KString = 0"
| "kind_decisions c KPath = 0"
| "kind_decisions c (KIdentifier name) = 0"
| "kind_decisions c KAttach = 0"

lemma sum_list_map_le: "(\<And>x. x \<in> set xs \<Longrightarrow> f x \<le> g x) \<Longrightarrow> sum_list (map f xs) \<le> (sum_list (map g xs) :: nat)"
  by (induction xs) (auto intro: add_mono)

lemma optional_le: "(\<And>y. y \<in> set_option x \<Longrightarrow> f y \<le> g y) \<Longrightarrow> optional 0 (map_option f x) \<le> (optional 0 (map_option g x) :: nat)"
  by (cases x) auto

text \<open>Both counts of a block without operators that count, and all with them, are below the documented one.\<close>

lemma complexity_le_decisions:
  "expression_complexity c e \<le> expression_decisions c e"
  "kind_complexity c k \<le> kind_decisions c k"
  "test_complexity c t \<le> test_decisions c t"
  "statement_complexity c s \<le> statement_decisions c s"
  "block_complexity c b \<le> block_decisions c b"
proof (induction e and k and t and s and b)
  case (SSwitch v cs)
  have "sum_list (map (\<lambda>x. 1 + sum_list (map (statement_complexity c) (snd x))) cs)
      \<le> sum_list (map (\<lambda>x. 1 + optional 0 (map_option (expression_decisions c) (fst x)) +
           sum_list (map (statement_decisions c) (snd x))) cs)"
  proof (rule sum_list_map_le)
    fix x assume "x \<in> set cs"
    moreover have "snd x \<in> Basic_BNFs.snds x" by (simp add: Basic_BNFs.snds.simps)
    ultimately have "statement_complexity c s \<le> statement_decisions c s" if "s \<in> set (snd x)" for s
      using SSwitch(3) that by blast
    then show "1 + sum_list (map (statement_complexity c) (snd x)) \<le>
        1 + optional 0 (map_option (expression_decisions c) (fst x)) + sum_list (map (statement_decisions c) (snd x))"
      using sum_list_map_le [of "snd x" "statement_complexity c" "statement_decisions c"] by simp
  qed
  then show ?case by (simp add: comp_def)
next
  case (KDictionary es)
  have "sum_list (map (\<lambda>x. expression_complexity c (fst x) + expression_complexity c (snd x)) es)
      \<le> sum_list (map (\<lambda>x. expression_decisions c (fst x) + expression_decisions c (snd x)) es)"
  proof (rule sum_list_map_le)
    fix x assume "x \<in> set es"
    then show "expression_complexity c (fst x) + expression_complexity c (snd x) \<le>
        expression_decisions c (fst x) + expression_decisions c (snd x)"
      using KDictionary(1) [of x "fst x"] KDictionary(2) [of x "snd x"]
      by (simp add: Basic_BNFs.fsts.simps Basic_BNFs.snds.simps add_mono)
  qed
  then show ?case by (cases c) (simp_all add: comp_def)
next
  case (SIf t b e)
  have "optional 0 (map_option (block_complexity c) e) \<le> optional 0 (map_option (block_decisions c) e)"
    by (rule optional_le) (rule SIf)
  with SIf(1,2) show ?case by simp
next
  case (SReturn x)
  show ?case using optional_le [OF SReturn] by simp
next
  case (SVariable x y)
  have "optional 0 (map_option (expression_complexity c) y) \<le> optional 0 (map_option (expression_decisions c) y)"
    by (rule optional_le) (rule SVariable)
  with SVariable(1) show ?case by simp
next
  case (KInvocation f xs ts)
  have "sum_list (map (expression_complexity c) xs) \<le> sum_list (map (expression_decisions c) xs)"
    by (rule sum_list_map_le) (rule KInvocation)
  with KInvocation(1) show ?case by (cases c) simp_all
next
  case (KArray xs)
  have "sum_list (map (expression_complexity c) xs) \<le> sum_list (map (expression_decisions c) xs)"
    by (rule sum_list_map_le) (rule KArray)
  then show ?case by (cases c) simp_all
next
  case (KTemplate xs)
  have "sum_list (map (expression_complexity c) xs) \<le> sum_list (map (expression_decisions c) xs)"
    by (rule sum_list_map_le) (rule KTemplate)
  then show ?case by (cases c) simp_all
next
  case (Block ss)
  have "sum_list (map (statement_complexity c) ss) \<le> sum_list (map (statement_decisions c) ss)"
    by (rule sum_list_map_le) (rule Block)
  then show ?case by simp
qed (simp; cases c; simp)+

text \<open>
  A function is only reported for its complexity when the count that the documentation describes,
  over everything in its body, exceeds the threshold: the calculator never counts more than the
  decisions that are there. It does count less: what a call contains is skipped when logical
  operators do not count, also the function expressions that are documented to count always.
\<close>

theorem complexity_reports_justified:
  assumes "d \<in> set (complexity_analyzer threshold c program)"
  shows "\<exists>el i b. el \<in> set (preorder_elements function_element program) \<and>
    analyzed_function (el_kind el) = Some (i, b) \<and> ld_range d = (id_start i, id_end i) \<and>
    threshold < 1 + int (block_decisions c b) \<and>
    block_complexity False (Block [SExpression (Expression n (KInvocation f [Expression m (KFunction b)] []))]) = 0"
proof -
  obtain el where el: "el \<in> set (preorder_elements function_element program)"
      "d \<in> set (complexity_visit threshold c el)"
    using assms by (auto simp: complexity_analyzer_def)
  then obtain i b where f: "analyzed_function (el_kind el) = Some (i, b)"
    by (cases "analyzed_function (el_kind el)") (auto simp: complexity_visit_def)
  then have "ld_range d = (id_start i, id_end i) \<and> threshold < 1 + int (block_complexity c b)"
    using el(2) unfolding complexity_visit_def f
    by (simp add: Let_def with_category_def new_diagnostic_def split: if_splits)
  moreover have "block_complexity c b \<le> block_decisions c b" by (rule complexity_le_decisions)
  ultimately show ?thesis using el(1) f by (intro exI [of _ el] exI [of _ i] exI [of _ b]) simp
qed

text \<open>A function with a conditional and a logical operator, and a threshold of two.\<close>

definition demo_node :: lint_node where
  "demo_node = \<lparr>nd_id = 0, nd_start = \<lparr>pos_offset = 0, pos_line = 1, pos_column = 0\<rparr>,
     nd_end = \<lparr>pos_offset = 9, pos_line = 1, pos_column = 9\<rparr>\<rparr>"

definition demo_function :: element where
  "demo_function =
     (let x = Expression demo_node KBool; p = nd_start demo_node
      in Element (ElementFunction \<lparr>lf_identifier = Ident ''f'' p p, lf_parameters = Some [], lf_return = None,
             lf_block = Some (Block [SIf (TestExpression (Expression demo_node (KBinary OpAnd x x))) (Block []) None])\<rparr>)
           demo_node [])"

theorem complexity_reports_justified_witness:
  "\<exists>d. d \<in> set (complexity_analyzer 2 True demo_function) \<and> complexity_analyzer 2 False demo_function = [] \<and>
     (\<exists>i b. analyzed_function (el_kind demo_function) = Some (i, b) \<and> block_decisions True b = 2)"
proof -
  have run: "length (complexity_analyzer 2 True demo_function) = 1" "complexity_analyzer 2 False demo_function = []"
    "set (preorder_elements function_element demo_function) = {demo_function}"
    by (simp_all add: complexity_analyzer_def demo_function_def function_element_def complexity_visit_def
        analyzed_function_def Let_def)
  then obtain d where d: "d \<in> set (complexity_analyzer 2 True demo_function)" by (cases "complexity_analyzer 2 True demo_function") auto
  from complexity_reports_justified [OF d]
  obtain i b where "analyzed_function (el_kind demo_function) = Some (i, b)" "2 < 1 + int (block_decisions True b)"
    using run(3) by auto
  then have "block_decisions True b = 2"
    by (auto simp: demo_function_def analyzed_function_def Let_def)
  then show ?thesis using d run(2) \<open>analyzed_function (el_kind demo_function) = Some (i, b)\<close> by blast
qed

end
