(* ===== verification/LintTypes.thy ===== *)
theory LintTypes
  imports LintComplexity
begin

text \<open>
  The analyzers that decide on types (src/lint): unused results, unnecessary force operators,
  redundant casts and type annotations, number conversions and authority leaks. The checker's types
  are a library; the datatype has the constructors that the analyzers take apart, and every other
  type is its name. Two types are equal here when the library's \<^verbatim>\<open>Equal\<close> says so. What the
  elaboration records about a node is a parameter of the analyzer that reads it.
\<close>

section \<open>Types of the checker\<close>

datatype authorization = AuthEntitlements "string list" | AuthMapping string | Unauthorized

datatype sema_ty =
    TyNamed string
  | TyVariableSized sema_ty
  | TyConstantSized sema_ty nat
  | TyDictionary sema_ty sema_ty
  | TyOptional sema_ty
  | TyReference authorization sema_ty
  | TyCapability "sema_ty option"

definition void_type :: sema_ty where "void_type = TyNamed ''Void''"
definition never_type :: sema_ty where "never_type = TyNamed ''Never''"
definition invalid_type :: sema_ty where "invalid_type = TyNamed ''invalid''"
definition nil_type :: sema_ty where "nil_type = TyOptional never_type"
definition bool_type :: sema_ty where "bool_type = TyNamed ''Bool''"
definition string_type :: sema_ty where "string_type = TyNamed ''String''"
definition account_type :: sema_ty where "account_type = TyNamed ''Account''"
definition int_type :: sema_ty where "int_type = TyNamed ''Int''"
definition fix64_type :: sema_ty where "fix64_type = TyNamed ''Fix64''"
definition ufix64_type :: sema_ty where "ufix64_type = TyNamed ''UFix64''"
definition integer_type :: sema_ty where "integer_type = TyNamed ''Integer''"
definition fixed_point_type :: sema_ty where "fixed_point_type = TyNamed ''FixedPoint''"
definition signed_fixed_point_type :: sema_ty where "signed_fixed_point_type = TyNamed ''SignedFixedPoint''"

lemmas type_defs = void_type_def never_type_def invalid_type_def nil_type_def bool_type_def string_type_def
  int_type_def fix64_type_def ufix64_type_def integer_type_def fixed_point_type_def signed_fixed_point_type_def

section \<open>Unused results (unused_result_analyzer.go)\<close>

fun report_unused_result_type :: "sema_ty option \<Rightarrow> bool" where
  "report_unused_result_type None = False"
| "report_unused_result_type (Some (TyOptional t)) = report_unused_result_type (Some t)"
| "report_unused_result_type (Some t) \<longleftrightarrow> t \<notin> {void_type, never_type, invalid_type}"

definition expression_statement_element :: "element_kind \<Rightarrow> bool" where
  "expression_statement_element k \<longleftrightarrow> (case k of ElementExpressionStatement _ \<Rightarrow> True | _ \<Rightarrow> False)"

definition unused_result_visit :: "(expression \<Rightarrow> sema_ty option) \<Rightarrow> element \<Rightarrow> lint_diagnostic list" where
  "unused_result_visit actual_type el =
     (case el_kind el of
        ElementExpressionStatement x \<Rightarrow>
          (if report_unused_result_type (actual_type x)
           then [with_category ''unused-result-hint'' (new_diagnostic ''unused result'' (node_extent (el_node el)))]
           else [])
      | _ \<Rightarrow> [])"

definition unused_result_analyzer :: "(expression \<Rightarrow> sema_ty option) \<Rightarrow> element \<Rightarrow> lint_diagnostic list" where
  "unused_result_analyzer actual_type program =
     concat (map (unused_result_visit actual_type) (preorder_elements expression_statement_element program))"

section \<open>Unnecessary force operators (unnecessary_force_analyzer.go)\<close>

definition force_element :: "element_kind \<Rightarrow> bool" where
  "force_element k \<longleftrightarrow> (case k of ElementExpression (Expression _ (KForce _)) \<Rightarrow> True | _ \<Rightarrow> False)"

definition is_optional :: "sema_ty \<Rightarrow> bool" where
  "is_optional t \<longleftrightarrow> (case t of TyOptional _ \<Rightarrow> True | _ \<Rightarrow> False)"

definition unnecessary_force_visit :: "(lint_node \<Rightarrow> sema_ty option) \<Rightarrow> element \<Rightarrow> lint_diagnostic list" where
  "unnecessary_force_visit force_type el =
     (case force_type (el_node el) of
        None \<Rightarrow> []
      | Some t \<Rightarrow>
          (if \<not> is_optional t
           then [with_category ''removal-hint''
                   (new_diagnostic ''unnecessary force operator'' (node_extent (el_node el)))]
           else []))"

definition unnecessary_force_analyzer :: "(lint_node \<Rightarrow> sema_ty option) \<Rightarrow> element \<Rightarrow> lint_diagnostic list" where
  "unnecessary_force_analyzer force_type program =
     concat (map (unnecessary_force_visit force_type) (preorder_elements force_element program))"

section \<open>Redundant casts (redundant_cast_analyzer.go)\<close>

text \<open>
  The visitor: the fields \<^verbatim>\<open>exprInferredType\<close> and \<^verbatim>\<open>targetType\<close>, which \<^verbatim>\<open>IsRedundantCast\<close> sets for
  its call and restores, are the arguments \<open>i\<close> and \<open>t\<close>. An inferred type may be missing.
\<close>

definition is_type_redundant :: "sema_ty option \<Rightarrow> sema_ty \<Rightarrow> bool" where
  "is_type_redundant i t \<longleftrightarrow> i = Some t"

definition array_element_type :: "sema_ty option \<Rightarrow> sema_ty option" where
  "array_element_type i =
     (case i of Some (TyVariableSized e) \<Rightarrow> Some e | Some (TyConstantSized e n) \<Rightarrow> Some e | _ \<Rightarrow> None)"

definition dictionary_types :: "sema_ty option \<Rightarrow> (sema_ty \<times> sema_ty) option" where
  "dictionary_types i = (case i of Some (TyDictionary k v) \<Rightarrow> Some (k, v) | _ \<Rightarrow> None)"

primrec cast_redundant :: "expression \<Rightarrow> sema_ty option \<Rightarrow> sema_ty \<Rightarrow> bool"
and kind_redundant :: "expr_kind \<Rightarrow> sema_ty option \<Rightarrow> sema_ty \<Rightarrow> bool" where
  "cast_redundant (Expression n k) = kind_redundant k"
| "kind_redundant KVoid = (\<lambda>i t. is_type_redundant (Some void_type) t)"
| "kind_redundant KBool = (\<lambda>i t. is_type_redundant (Some bool_type) t)"
| "kind_redundant KNil = (\<lambda>i t. is_type_redundant (Some nil_type) t)"
| "kind_redundant (KInteger v) = (\<lambda>i t. is_type_redundant (Some int_type) t)"
| "kind_redundant (KFixedPoint neg w f s) =
     (\<lambda>i t. is_type_redundant (Some (if neg then fix64_type else ufix64_type)) t)"
| "kind_redundant KString = (\<lambda>i t. is_type_redundant (Some string_type) t)"
| "kind_redundant KPath = is_type_redundant"
| "kind_redundant (KIdentifier name) = is_type_redundant"
| "kind_redundant (KArray xs) =
     (\<lambda>i t. case t of
        TyVariableSized te \<Rightarrow>
          (case array_element_type i of
             None \<Rightarrow> False
           | Some ie \<Rightarrow> list_all (\<lambda>f. f (Some ie) te) (map cast_redundant xs))
      | _ \<Rightarrow> False)"
| "kind_redundant (KDictionary es) =
     (\<lambda>i t. case t of
        TyDictionary tk tv \<Rightarrow>
          (case dictionary_types i of
             None \<Rightarrow> False
           | Some (ik, iv) \<Rightarrow>
               list_all (\<lambda>e. fst e (Some ik) tk \<and> snd e (Some iv) tv)
                 (map (map_prod cast_redundant cast_redundant) es))
      | _ \<Rightarrow> False)"
| "kind_redundant (KInvocation f xs ts) = is_type_redundant"
| "kind_redundant (KMember x m q) = is_type_redundant"
| "kind_redundant (KIndex x j) = is_type_redundant"
| "kind_redundant (KConditional c x y) = (\<lambda>i t. cast_redundant x i t \<and> cast_redundant y i t)"
| "kind_redundant (KUnary x) = is_type_redundant"
| "kind_redundant (KBinary op x y) = (\<lambda>i t. False)"
| "kind_redundant (KFunction b) = is_type_redundant"
| "kind_redundant (KTemplate xs) = (\<lambda>i t. is_type_redundant (Some string_type) t)"
| "kind_redundant (KCasting op x ty) = (\<lambda>i t. False)"
| "kind_redundant (KCreate x) = is_type_redundant"
| "kind_redundant (KDestroy x) = is_type_redundant"
| "kind_redundant (KReference x) = (\<lambda>i t. False)"
| "kind_redundant (KForce x) = is_type_redundant"
| "kind_redundant KAttach = is_type_redundant"

definition empty_collection :: "expression \<Rightarrow> bool" where
  "empty_collection x \<longleftrightarrow> ex_kind x = KArray [] \<or> ex_kind x = KDictionary []"

definition is_redundant_cast ::
    "(sema_ty \<Rightarrow> bool) \<Rightarrow> expression \<Rightarrow> sema_ty \<Rightarrow> sema_ty \<Rightarrow> sema_ty option \<Rightarrow> bool" where
  "is_redundant_cast invalid x inferred target expected =
     (if empty_collection x then False
      else if (case expected of None \<Rightarrow> False | Some e \<Rightarrow> \<not> invalid e \<and> e = target) then True
      else cast_redundant x (Some inferred) target)"

record cast_types =
  ct_actual :: sema_ty
  ct_target :: sema_ty
  ct_expected :: "sema_ty option"

text \<open>What the elaboration and the checker's library answer about casts.\<close>

record cast_info =
  ci_invalid :: "sema_ty \<Rightarrow> bool"
  ci_static :: "lint_node \<Rightarrow> cast_types option"
  ci_runtime :: "lint_node \<Rightarrow> (sema_ty \<times> sema_ty) option"
  ci_subtype :: "sema_ty \<Rightarrow> sema_ty \<Rightarrow> bool"
  ci_string :: "sema_ty \<Rightarrow> string"

definition casting_element :: "element_kind \<Rightarrow> bool" where
  "casting_element k \<longleftrightarrow> (case k of ElementExpression (Expression _ (KCasting _ _ _)) \<Rightarrow> True | _ \<Rightarrow> False)"

definition removal_fix :: "string \<Rightarrow> extent \<Rightarrow> lint_fix" where
  "removal_fix msg r = \<lparr>fx_message = msg, fx_edits = [(r, '''')]\<rparr>"

definition redundant_static_cast :: "extent \<Rightarrow> lint_diagnostic" where
  "redundant_static_cast r =
     (with_category ''unnecessary-cast-hint'' (new_diagnostic ''static cast is redundant'' r))
       \<lparr>ld_fixes := [removal_fix ''Remove redundant cast'' r]\<rparr>"

definition succeeding_cast :: "cast_info \<Rightarrow> string \<Rightarrow> sema_ty \<Rightarrow> sema_ty \<Rightarrow> lint_node \<Rightarrow> lint_diagnostic" where
  "succeeding_cast ci prefix l r n =
     with_category ''unnecessary-cast-hint''
       (new_diagnostic
          (prefix @ '' from `'' @ ci_string ci l @ ''` to `'' @ ci_string ci r @ ''` always succeeds'')
          (node_extent n))"

text \<open>\<open>None\<close> is the panic of an unreachable operation.\<close>

definition redundant_cast_visit :: "cast_info \<Rightarrow> element \<Rightarrow> lint_diagnostic list option" where
  "redundant_cast_visit ci el =
     (case el_kind el of
        ElementExpression (Expression n (KCasting op x ty)) \<Rightarrow>
          (if (case ci_static ci n of
                 None \<Rightarrow> False
               | Some ct \<Rightarrow> is_redundant_cast (ci_invalid ci) x (ct_actual ct) (ct_target ct) (ct_expected ct))
           then Some [redundant_static_cast (shifted (nd_end (ex_node x)) 1, nd_end (ta_node ty))]
           else case ci_runtime ci n of
             None \<Rightarrow> Some []
           | Some (l, r) \<Rightarrow>
               (if \<not> ci_subtype ci l r then Some []
                else case op of
                  FailableCast \<Rightarrow> Some [succeeding_cast ci ''failable cast ('as?')'' l r n]
                | ForceCast \<Rightarrow> Some [succeeding_cast ci ''force cast ('as!')'' l r n]
                | StaticCast \<Rightarrow> None))
      | _ \<Rightarrow> Some [])"

fun collect_reports :: "('a \<Rightarrow> 'b list option) \<Rightarrow> 'a list \<Rightarrow> 'b list option" where
  "collect_reports f [] = Some []"
| "collect_reports f (x # xs) =
     (case f x of
        None \<Rightarrow> None
      | Some ds \<Rightarrow> map_option (\<lambda>es. ds @ es) (collect_reports f xs))"

definition redundant_cast_analyzer :: "cast_info \<Rightarrow> element \<Rightarrow> lint_diagnostic list option" where
  "redundant_cast_analyzer ci program =
     collect_reports (redundant_cast_visit ci) (preorder_elements casting_element program)"

section \<open>Redundant type annotations (redundant_type_annotation_analyzer.go)\<close>

definition variable_element :: "element_kind \<Rightarrow> bool" where
  "variable_element k \<longleftrightarrow> (case k of ElementVariable _ _ _ \<Rightarrow> True | _ \<Rightarrow> False)"

definition redundant_annotation :: "extent \<Rightarrow> lint_diagnostic" where
  "redundant_annotation r =
     (with_category ''unnecessary-type-annotation-hint''
        (new_diagnostic ''type annotation is redundant, type can be inferred'' r))
       \<lparr>ld_fixes := [removal_fix ''Remove redundant type annotation'' r]\<rparr>"

text \<open>\<open>types\<close> is the elaboration's actual type of the value and target type of a declaration.\<close>

definition redundant_annotation_visit ::
    "(sema_ty \<Rightarrow> bool) \<Rightarrow> (lint_node \<Rightarrow> (sema_ty \<times> sema_ty) option) \<Rightarrow> element \<Rightarrow> lint_diagnostic list" where
  "redundant_annotation_visit invalid types el =
     (case el_kind el of
        ElementVariable i (Some ty) x \<Rightarrow>
          (case types (el_node el) of
             None \<Rightarrow> []
           | Some (actual, target) \<Rightarrow>
               (if is_redundant_cast invalid x actual target None
                then [redundant_annotation (shifted (id_end i) 1, nd_end (ta_node ty))] else []))
      | _ \<Rightarrow> [])"

definition redundant_annotation_analyzer ::
    "(sema_ty \<Rightarrow> bool) \<Rightarrow> (lint_node \<Rightarrow> (sema_ty \<times> sema_ty) option) \<Rightarrow> element \<Rightarrow> lint_diagnostic list" where
  "redundant_annotation_analyzer invalid types program =
     concat (map (redundant_annotation_visit invalid types) (preorder_elements variable_element program))"

section \<open>The types of literals\<close>

text \<open>
  The type that Cadence infers for a literal without an annotation: \<open>Int\<close>, \<open>Fix64\<close> or \<open>UFix64\<close> for
  numbers, a variable-sized array or a dictionary of the common type of the elements, and nothing for
  an empty collection, for elements of different types and for what is not a literal.
\<close>

fun common_type :: "sema_ty option list \<Rightarrow> sema_ty option" where
  "common_type [] = None"
| "common_type (t # ts) = (if list_all (\<lambda>u. u = t) ts then t else None)"

definition dictionary_of :: "sema_ty option \<Rightarrow> sema_ty option \<Rightarrow> sema_ty option" where
  "dictionary_of k v =
     (case k of None \<Rightarrow> None | Some tk \<Rightarrow> (case v of None \<Rightarrow> None | Some tv \<Rightarrow> Some (TyDictionary tk tv)))"

primrec literal_type :: "expression \<Rightarrow> sema_ty option"
and literal_kind_type :: "expr_kind \<Rightarrow> sema_ty option" where
  "literal_type (Expression n k) = literal_kind_type k"
| "literal_kind_type KVoid = Some void_type"
| "literal_kind_type KBool = Some bool_type"
| "literal_kind_type KNil = Some nil_type"
| "literal_kind_type (KInteger v) = Some int_type"
| "literal_kind_type (KFixedPoint neg w f s) = Some (if neg then fix64_type else ufix64_type)"
| "literal_kind_type KString = Some string_type"
| "literal_kind_type KPath = None"
| "literal_kind_type (KIdentifier name) = None"
| "literal_kind_type (KArray xs) = map_option TyVariableSized (common_type (map literal_type xs))"
| "literal_kind_type (KDictionary es) =
     (let ts = map (map_prod literal_type literal_type) es
      in dictionary_of (common_type (map fst ts)) (common_type (map snd ts)))"
| "literal_kind_type (KInvocation f xs ts) = None"
| "literal_kind_type (KMember x m q) = None"
| "literal_kind_type (KIndex x j) = None"
| "literal_kind_type (KConditional c x y) = (if literal_type x = literal_type y then literal_type x else None)"
| "literal_kind_type (KUnary x) = None"
| "literal_kind_type (KBinary op x y) = None"
| "literal_kind_type (KFunction b) = None"
| "literal_kind_type (KTemplate xs) = Some string_type"
| "literal_kind_type (KCasting op x ty) = None"
| "literal_kind_type (KCreate x) = None"
| "literal_kind_type (KDestroy x) = None"
| "literal_kind_type (KReference x) = None"
| "literal_kind_type (KForce x) = None"
| "literal_kind_type KAttach = None"

text \<open>Built from literals and conditionals, without an empty collection.\<close>

primrec literal_only :: "expression \<Rightarrow> bool"
and literal_only_kind :: "expr_kind \<Rightarrow> bool" where
  "literal_only (Expression n k) = literal_only_kind k"
| "literal_only_kind KVoid = True"
| "literal_only_kind KBool = True"
| "literal_only_kind KNil = True"
| "literal_only_kind (KInteger v) = True"
| "literal_only_kind (KFixedPoint neg w f s) = True"
| "literal_only_kind KString = True"
| "literal_only_kind KPath = False"
| "literal_only_kind (KIdentifier name) = False"
| "literal_only_kind (KArray xs) = (xs \<noteq> [] \<and> list_all id (map literal_only xs))"
| "literal_only_kind (KDictionary es) =
     (es \<noteq> [] \<and> list_all (\<lambda>e. fst e \<and> snd e) (map (map_prod literal_only literal_only) es))"
| "literal_only_kind (KInvocation f xs ts) = False"
| "literal_only_kind (KMember x m q) = False"
| "literal_only_kind (KIndex x j) = False"
| "literal_only_kind (KConditional c x y) = (literal_only x \<and> literal_only y)"
| "literal_only_kind (KUnary x) = False"
| "literal_only_kind (KBinary op x y) = False"
| "literal_only_kind (KFunction b) = False"
| "literal_only_kind (KTemplate xs) = True"
| "literal_only_kind (KCasting op x ty) = False"
| "literal_only_kind (KCreate x) = False"
| "literal_only_kind (KDestroy x) = False"
| "literal_only_kind (KReference x) = False"
| "literal_only_kind (KForce x) = False"
| "literal_only_kind KAttach = False"

lemma common_type_all: "xs \<noteq> [] \<Longrightarrow> (\<And>x. x \<in> set xs \<Longrightarrow> x = Some t) \<Longrightarrow> common_type xs = Some t"
  by (cases xs) (auto simp: list_all_iff)

lemma common_type_SomeD: "common_type xs = Some t \<Longrightarrow> xs \<noteq> [] \<and> (\<forall>x \<in> set xs. x = Some t)"
  by (cases xs) (auto simp: list_all_iff split: if_splits)

lemma dictionary_of_Some: "dictionary_of k v = Some t \<longleftrightarrow> (\<exists>a b. k = Some a \<and> v = Some b \<and> t = TyDictionary a b)"
  by (auto simp: dictionary_of_def split: option.splits)

lemma redundant_literal_type:
  "literal_only e \<Longrightarrow> cast_redundant e i t \<Longrightarrow> literal_type e = Some t"
  "literal_only_kind k \<Longrightarrow> kind_redundant k i t \<Longrightarrow> literal_kind_type k = Some t"
proof (induction e and k arbitrary: i t and i t)
  case (KArray xs)
  from KArray.prems(2) obtain te ie where t: "t = TyVariableSized te"
      and each: "\<And>x. x \<in> set xs \<Longrightarrow> cast_redundant x (Some ie) te"
    by (auto simp: list_all_iff split: sema_ty.splits option.splits)
  have "common_type (map literal_type xs) = Some te"
    by (rule common_type_all) (use KArray each in \<open>auto simp: list_all_iff\<close>)
  then show ?case by (simp add: t)
next
  case (KDictionary es)
  from KDictionary.prems(2) obtain tk tv ik iv where t: "t = TyDictionary tk tv"
      and each: "\<And>x. x \<in> set es \<Longrightarrow> cast_redundant (fst x) (Some ik) tk \<and> cast_redundant (snd x) (Some iv) tv"
    by (auto simp: list_all_iff split: sema_ty.splits option.splits prod.splits)
  have only: "\<And>x. x \<in> set es \<Longrightarrow> literal_only (fst x) \<and> literal_only (snd x)" and "es \<noteq> []"
    using KDictionary.prems(1) by (auto simp: list_all_iff)
  have "literal_type (fst x) = Some tk" "literal_type (snd x) = Some tv" if "x \<in> set es" for x
    using KDictionary.IH(1) [of x "fst x"] KDictionary.IH(2) [of x "snd x"] each [OF that] only [OF that] that
    by (auto simp: Basic_BNFs.fsts.simps Basic_BNFs.snds.simps)
  then have "common_type (map fst (map (map_prod literal_type literal_type) es)) = Some tk"
      "common_type (map snd (map (map_prod literal_type literal_type) es)) = Some tv"
    using \<open>es \<noteq> []\<close> by (auto intro!: common_type_all)
  then show ?case by (simp add: t dictionary_of_def)
next
  case (KConditional c x y)
  then have "literal_type x = Some t" "literal_type y = Some t" by auto
  then show ?case by simp
qed (simp_all add: is_type_redundant_def)

lemma literal_type_redundant:
  "literal_type e = Some t \<Longrightarrow> cast_redundant e (Some t) t"
  "literal_kind_type k = Some t \<Longrightarrow> kind_redundant k (Some t) t"
proof (induction e and k arbitrary: t and t)
  case (KArray xs)
  then obtain te where "t = TyVariableSized te" "\<forall>x \<in> set xs. literal_type x = Some te"
    by (auto dest: common_type_SomeD)
  then show ?case using KArray.IH by (auto simp: list_all_iff array_element_type_def)
next
  case (KDictionary es)
  then obtain tk tv where t: "t = TyDictionary tk tv"
      and each: "\<forall>x \<in> set es. literal_type (fst x) = Some tk \<and> literal_type (snd x) = Some tv"
    by (auto simp: Let_def dictionary_of_Some dest!: common_type_SomeD)
  have "cast_redundant (fst x) (Some tk) tk" "cast_redundant (snd x) (Some tv) tv" if "x \<in> set es" for x
    using KDictionary.IH(1) [of x "fst x"] KDictionary.IH(2) [of x "snd x"] each that
    by (auto simp: Basic_BNFs.fsts.simps Basic_BNFs.snds.simps)
  then show ?case by (auto simp: t list_all_iff dictionary_types_def)
next
  case (KConditional c x y)
  then have "literal_type x = Some t" "literal_type y = Some t" by (auto split: if_splits)
  with KConditional show ?case by simp
qed (simp_all add: is_type_redundant_def split: if_splits)

section \<open>Casts and annotations of literals\<close>


text \<open>The array of a dictionary from a string to a negative fixed-point number.\<close>

definition demo_literal :: expression where
  "demo_literal =
     (let e = Expression demo_node
      in e (KArray [e (KDictionary [(e KString, e (KFixedPoint True 1 0 1))])]))"


text \<open>
  An empty array literal needs its annotation and is never reported itself, but inside another
  array it is: the declaration of a variable with an empty array in an array is reported for every
  element type, and so is the same value in a conditional. The fix removes the only place
  that says the type, and the literal alone has no type.
\<close>

theorem nested_empty_array_reported:
  "redundant_annotation_analyzer invalid (\<lambda>n. Some (TyVariableSized (TyVariableSized e), TyVariableSized (TyVariableSized e)))
     (Element (ElementVariable name (Some ty) (Expression m (KArray [Expression m' (KArray [])]))) n []) =
   [redundant_annotation (shifted (id_end name) 1, nd_end (ta_node ty))] \<and>
   redundant_annotation_analyzer invalid (\<lambda>n. Some (TyVariableSized e, TyVariableSized e))
     (Element (ElementVariable name (Some ty)
        (Expression m (KConditional c (Expression m' (KArray [])) (Expression m' (KArray []))))) n []) =
   [redundant_annotation (shifted (id_end name) 1, nd_end (ta_node ty))] \<and>
   redundant_annotation_analyzer invalid (\<lambda>n. Some (TyVariableSized e, TyVariableSized e))
     (Element (ElementVariable name (Some ty) (Expression m (KArray []))) n []) = [] \<and>
   literal_type (Expression m (KArray [Expression m' (KArray [])])) = None"
  by (simp add: redundant_annotation_analyzer_def variable_element_def redundant_annotation_visit_def
      is_redundant_cast_def empty_collection_def array_element_type_def)

section \<open>Number conversions (number_function_argument_analyzer.go)\<close>

text \<open>
  \<open>kind\<close> is the library's \<^verbatim>\<open>IsSameTypeKind\<close> and \<open>ts\<close> the text of a type. The suggested expressions
  carry the extent of the literal they are made from.
\<close>

definition type_cast_hint :: "(sema_ty \<Rightarrow> string) \<Rightarrow> lint_node \<Rightarrow> expression \<Rightarrow> sema_ty \<Rightarrow> expression" where
  "type_cast_hint ts n x t = Expression n (KCasting StaticCast x (TypeAnnotation (ts t) n None))"

definition integer_literal_hint ::
    "(sema_ty \<Rightarrow> sema_ty \<Rightarrow> bool) \<Rightarrow> (sema_ty \<Rightarrow> string) \<Rightarrow> lint_node \<Rightarrow> int \<Rightarrow> sema_ty \<Rightarrow> expression option" where
  "integer_literal_hint kind ts n v t =
     (if kind t fixed_point_type
      then (let negative = v < 0;
                signed = kind t signed_fixed_point_type;
                hint = Expression n (KFixedPoint negative (nat \<bar>v\<bar>) 0 1)
            in Some (if \<not> negative \<and> signed then type_cast_hint ts n hint t else hint))
      else if kind t integer_type
      then (let hint = Expression n (KInteger v)
            in Some (if \<not> kind t int_type then type_cast_hint ts n hint t else hint))
      else None)"

definition fixed_literal_hint ::
    "(sema_ty \<Rightarrow> sema_ty \<Rightarrow> bool) \<Rightarrow> expression \<Rightarrow> bool \<Rightarrow> sema_ty \<Rightarrow> expression option" where
  "fixed_literal_hint kind argument negative t =
     (if \<not> kind t fixed_point_type then None
      else let signed = kind t signed_fixed_point_type
           in if \<not> negative \<and> \<not> signed \<or> negative \<and> signed then Some argument else None)"

definition replacement_hint :: "(expression \<Rightarrow> string) \<Rightarrow> expression \<Rightarrow> extent \<Rightarrow> lint_diagnostic" where
  "replacement_hint str x r =
     (with_category ''replacement-hint'' (new_diagnostic ''consider replacing with:'' r))\<lparr>ld_secondary := str x\<rparr>"

definition number_literal_element :: "element_kind \<Rightarrow> bool" where
  "number_literal_element k \<longleftrightarrow>
     (case k of
        ElementExpression (Expression _ (KInteger _)) \<Rightarrow> True
      | ElementExpression (Expression _ (KFixedPoint _ _ _ _)) \<Rightarrow> True | _ \<Rightarrow> False)"

text \<open>\<open>argument\<close> is the elaboration's target type and extent of the conversion a literal is the argument of.\<close>

definition number_argument_visit ::
    "(sema_ty \<Rightarrow> sema_ty \<Rightarrow> bool) \<Rightarrow> (sema_ty \<Rightarrow> string) \<Rightarrow> (expression \<Rightarrow> string) \<Rightarrow>
     (lint_node \<Rightarrow> (sema_ty \<times> extent) option) \<Rightarrow> element \<Rightarrow> lint_diagnostic list" where
  "number_argument_visit kind ts str argument el =
     (case el_kind el of
        ElementExpression (Expression n k) \<Rightarrow>
          (case argument n of
             None \<Rightarrow> []
           | Some (t, r) \<Rightarrow>
               (case (case k of
                        KInteger v \<Rightarrow> integer_literal_hint kind ts n v t
                      | KFixedPoint negative w f s \<Rightarrow> fixed_literal_hint kind (Expression n k) negative t
                      | _ \<Rightarrow> None) of
                  None \<Rightarrow> []
                | Some x \<Rightarrow> [replacement_hint str x r]))
      | _ \<Rightarrow> [])"

definition number_argument_analyzer ::
    "(sema_ty \<Rightarrow> sema_ty \<Rightarrow> bool) \<Rightarrow> (sema_ty \<Rightarrow> string) \<Rightarrow> (expression \<Rightarrow> string) \<Rightarrow>
     (lint_node \<Rightarrow> (sema_ty \<times> extent) option) \<Rightarrow> element \<Rightarrow> lint_diagnostic list" where
  "number_argument_analyzer kind ts str argument program =
     concat (map (number_argument_visit kind ts str argument) (preorder_elements number_literal_element program))"

text \<open>The type of a suggested expression: that of the cast, or that of the literal.\<close>

fun hint_type :: "expression \<Rightarrow> sema_ty option" where
  "hint_type (Expression n (KCasting op x ty)) = Some (TyNamed (ta_text ty))"
| "hint_type x = literal_type x"

text \<open>
  What is suggested instead of a number conversion has the type of the conversion for every
  integer type, and for an integer converted to a signed fixed-point type if it is not negative,
  since then the suggestion has a cast. All other suggestions are bare fixed-point literals, which
  are of type Fix64 or UFix64: they are right for these two types, and for no other fixed-point type.
\<close>

theorem number_hint_type_iff:
  assumes named: "ts (TyNamed name) = name"
    and int: "kind (TyNamed name) int_type \<longrightarrow> TyNamed name = int_type"
    and hint: "integer_literal_hint kind ts n v (TyNamed name) = Some x"
  shows "(hint_type x = Some (TyNamed name) \<longleftrightarrow>
      \<not> kind (TyNamed name) fixed_point_type \<or> 0 \<le> v \<and> kind (TyNamed name) signed_fixed_point_type \<or>
      TyNamed name = (if v < 0 then fix64_type else ufix64_type)) \<and>
    (fixed_literal_hint kind (Expression n (KFixedPoint negative w f s)) negative (TyNamed name) = Some y \<longrightarrow>
      (hint_type y = Some (TyNamed name) \<longleftrightarrow> TyNamed name = (if negative then fix64_type else ufix64_type)))"
  using assms
  by (auto simp: integer_literal_hint_def fixed_literal_hint_def type_cast_hint_def Let_def split: if_splits)

text \<open>
  The kinds of some number types. A conversion of 1 to UFix128 is to be replaced by a literal of another
  type, and the conversion to Fix64 by a cast of the literal.
\<close>

definition demo_type_kind :: "sema_ty \<Rightarrow> sema_ty \<Rightarrow> bool" where
  "demo_type_kind t u \<longleftrightarrow>
     t = u \<or> u = fixed_point_type \<and> t \<in> {fix64_type, ufix64_type, TyNamed ''Fix128'', TyNamed ''UFix128''} \<or>
     u = signed_fixed_point_type \<and> t \<in> {fix64_type, TyNamed ''Fix128''} \<or>
     u = integer_type \<and> t \<in> {int_type, TyNamed ''Int8''}"

definition demo_type_text :: "sema_ty \<Rightarrow> string" where
  "demo_type_text t = (case t of TyNamed s \<Rightarrow> s | _ \<Rightarrow> '''')"

theorem number_hint_type_iff_witness:
  "(\<exists>x. integer_literal_hint demo_type_kind demo_type_text demo_node 1 (TyNamed ''UFix128'') = Some x \<and>
      hint_type x \<noteq> Some (TyNamed ''UFix128'')) \<and>
   (\<exists>x. integer_literal_hint demo_type_kind demo_type_text demo_node 1 (TyNamed ''Fix64'') = Some x \<and>
      hint_type x = Some (TyNamed ''Fix64''))"
proof -
  have kinds: "demo_type_kind (TyNamed ''UFix128'') fixed_point_type" "demo_type_kind (TyNamed ''Fix64'') fixed_point_type"
    "demo_type_kind (TyNamed ''Fix64'') signed_fixed_point_type" "\<not> demo_type_kind (TyNamed ''UFix128'') signed_fixed_point_type"
    "\<not> demo_type_kind (TyNamed ''UFix128'') int_type" "\<not> demo_type_kind (TyNamed ''Fix64'') int_type"
    "TyNamed ''UFix128'' \<noteq> ufix64_type"
    by (simp_all add: demo_type_kind_def type_defs)
  obtain x y where
      x: "integer_literal_hint demo_type_kind demo_type_text demo_node 1 (TyNamed ''UFix128'') = Some x" and
      y: "integer_literal_hint demo_type_kind demo_type_text demo_node 1 (TyNamed ''Fix64'') = Some y"
    using kinds(1,2) by (auto simp: integer_literal_hint_def Let_def)
  have "hint_type x \<noteq> Some (TyNamed ''UFix128'')"
    using number_hint_type_iff [OF _ _ x] kinds by (simp add: demo_type_text_def)
  moreover have "hint_type y = Some (TyNamed ''Fix64'')"
    using number_hint_type_iff [OF _ _ y] kinds by (simp add: demo_type_text_def)
  ultimately show ?thesis using x y by blast
qed

section \<open>Authority leaks (authority_leak_analyzer.go)\<close>

fun is_or_contains_type :: "(sema_ty \<Rightarrow> bool) \<Rightarrow> sema_ty \<Rightarrow> bool" where
  "is_or_contains_type f t =
     (f t \<or>
      (case t of
         TyVariableSized e \<Rightarrow> is_or_contains_type f e
       | TyConstantSized e n \<Rightarrow> is_or_contains_type f e
       | TyDictionary k v \<Rightarrow> is_or_contains_type f k \<or> is_or_contains_type f v
       | TyOptional e \<Rightarrow> is_or_contains_type f e
       | _ \<Rightarrow> False))"

declare is_or_contains_type.simps [simp del]

definition is_entitled :: "authorization \<Rightarrow> bool" where
  "is_entitled a \<longleftrightarrow> (case a of AuthEntitlements es \<Rightarrow> True | AuthMapping m \<Rightarrow> True | Unauthorized \<Rightarrow> False)"

definition is_entitled_reference_or_capability :: "sema_ty \<Rightarrow> bool" where
  "is_entitled_reference_or_capability t \<longleftrightarrow>
     (case t of
        TyCapability (Some (TyReference a u)) \<Rightarrow> is_entitled a
      | TyReference a u \<Rightarrow> is_entitled a
      | _ \<Rightarrow> False)"

definition single_quoted :: "string \<Rightarrow> string" where "single_quoted s = [CHR 0x27] @ s @ [CHR 0x27]"

record lint_member =
  lm_is_field :: bool
  lm_access_all :: bool
  lm_type :: sema_ty

text \<open>A composite declaration: its kind's name, its type if it has one, and its fields by name.\<close>

record lint_composite =
  lc_kind_name :: string
  lc_type :: "(string \<times> (string \<times> lint_member) list) option"
  lc_fields :: "string \<Rightarrow> extent option"

definition authority_leak_member :: "lint_composite \<Rightarrow> string \<Rightarrow> string \<times> lint_member \<Rightarrow> lint_diagnostic list" where
  "authority_leak_member c qualified m =
     (if \<not> lm_is_field (snd m) \<or> \<not> lm_access_all (snd m) then []
      else if is_or_contains_type is_entitled_reference_or_capability (lm_type (snd m))
      then (case lc_fields c (fst m) of
              None \<Rightarrow> []
            | Some r \<Rightarrow>
                [(with_category ''security''
                    (new_diagnostic
                       (''field '' @ single_quoted (fst m) @ '' of '' @ lc_kind_name c @ '' '' @ single_quoted qualified @
                        '' exposes (a capability of) an entitled reference, which may lead to authority leaks'') r))
                   \<lparr>ld_secondary := ''consider restricting access to the field or changing its type to avoid authority leaks''\<rparr>])
      else [])"

definition authority_leak_analyzer :: "lint_composite list \<Rightarrow> lint_diagnostic list" where
  "authority_leak_analyzer cs =
     concat (map (\<lambda>c.
        case lc_type c of
          None \<Rightarrow> []
        | Some (qualified, ms) \<Rightarrow> concat (map (authority_leak_member c qualified) ms)) cs)"

text \<open>The types of the values that a value of a type holds.\<close>

inductive holds_type :: "sema_ty \<Rightarrow> sema_ty \<Rightarrow> bool" where
  holds_itself: "holds_type t t"
| holds_element: "holds_type e u \<Longrightarrow> holds_type (TyVariableSized e) u"
| holds_constant: "holds_type e u \<Longrightarrow> holds_type (TyConstantSized e n) u"
| holds_key: "holds_type k u \<Longrightarrow> holds_type (TyDictionary k v) u"
| holds_value: "holds_type v u \<Longrightarrow> holds_type (TyDictionary k v) u"
| holds_some: "holds_type e u \<Longrightarrow> holds_type (TyOptional e) u"

inductive_simps holds_type_simps [simp]:
  "holds_type (TyNamed s) u" "holds_type (TyReference a t) u" "holds_type (TyCapability b) u"
  "holds_type (TyVariableSized e) u" "holds_type (TyConstantSized e n) u" "holds_type (TyDictionary k v) u"
  "holds_type (TyOptional e) u"

lemma is_or_contains_iff: "is_or_contains_type f t \<longleftrightarrow> (\<exists>u. holds_type t u \<and> f u)"
proof (induction t)
  case (TyDictionary k v)
  then show ?case by (subst is_or_contains_type.simps) (simp, blast)
qed (subst is_or_contains_type.simps, simp, blast?)+

end
