(* ===== verification/LintStrings.thy ===== *)
theory LintStrings
  imports LintTypes
begin

text \<open>
  The analyzers that produce and read text (src/lint): string concatenations to be replaced by string
  templates, uses of members whose documentation says that they are deprecated, and unused
  variables and parameters with the renaming that silences the report.
\<close>

section \<open>String concatenation (string_concat_analyzer.go)\<close>

text \<open>
  The receiver and the arguments of a call of \<^verbatim>\<open>String.concat\<close>. \<open>accessed\<close> is the elaboration's
  information about a member expression: the accessed type, if there is one.
\<close>

type_synonym accessed = "lint_node \<Rightarrow> sema_ty option option"

definition concat_receiver :: "accessed \<Rightarrow> expression \<Rightarrow> (expression \<times> expression list) option" where
  "concat_receiver accessed x =
     (case ex_kind x of
        KInvocation f xs ts \<Rightarrow>
          (case ex_kind f of
             KMember b i opt \<Rightarrow>
               (if id_name i \<noteq> ''concat'' \<or> opt then None
                else case accessed (ex_node f) of
                  Some (Some t) \<Rightarrow> (if t = string_type then Some (b, xs) else None)
                | _ \<Rightarrow> None)
           | _ \<Rightarrow> None)
      | _ \<Rightarrow> None)"

datatype concat_part = ConcatPart (part_literal: bool) (part_code: string)

text \<open>\<open>None\<close> is the panic of a slice out of bounds.\<close>

definition extract_string_concat_part :: "string \<Rightarrow> expression \<Rightarrow> concat_part option" where
  "extract_string_concat_part code x =
     (let s = pos_offset (nd_start (ex_node x)); e = pos_offset (nd_end (ex_node x))
      in case ex_kind x of
           KString \<Rightarrow> map_option (ConcatPart True) (go_slice code (s + 1) e)
         | _ \<Rightarrow> map_option (ConcatPart False) (go_slice code s (e + 1)))"

lemma concat_receiver_size: "concat_receiver accessed x = Some (b, xs) \<Longrightarrow> size b < size x"
proof -
  assume r: "concat_receiver accessed x = Some (b, xs)"
  then obtain f ts i opt where k: "ex_kind x = KInvocation f xs ts" "ex_kind f = KMember b i opt"
    by (auto simp: concat_receiver_def split: expr_kind.splits if_splits option.splits)
  obtain n m where "x = Expression n (KInvocation (Expression m (KMember b i opt)) xs ts)"
    using k by (cases x; cases f) auto
  then show ?thesis by simp
qed

function collect_string_concat_parts :: "accessed \<Rightarrow> string \<Rightarrow> expression \<Rightarrow> concat_part list option" where
  "collect_string_concat_parts accessed code x =
     (case concat_receiver accessed x of
        None \<Rightarrow> map_option (\<lambda>p. [p]) (extract_string_concat_part code x)
      | Some (b, xs) \<Rightarrow>
          (case collect_string_concat_parts accessed code b of
             None \<Rightarrow> None
           | Some parts \<Rightarrow>
               (case xs of
                  [] \<Rightarrow> Some parts
                | a # as \<Rightarrow> map_option (\<lambda>p. parts @ [p]) (extract_string_concat_part code a))))"
  by pat_completeness auto
termination by (relation "measure (\<lambda>(accessed, code, x). size x)") (auto dest: concat_receiver_size)

declare collect_string_concat_parts.simps [simp del]

definition build_string_template :: "concat_part list \<Rightarrow> string" where
  "build_string_template parts =
     [CHR 0x22] @
     concat (map (\<lambda>p. if part_literal p then part_code p else [CHR 0x5C, CHR ''(''] @ part_code p @ '')'') parts) @
     [CHR 0x22]"

definition invocation_element :: "element_kind \<Rightarrow> bool" where
  "invocation_element k \<longleftrightarrow> (case k of ElementExpression (Expression _ (KInvocation _ _ _)) \<Rightarrow> True | _ \<Rightarrow> False)"

definition string_concat_diagnostic :: "concat_part list \<Rightarrow> extent \<Rightarrow> lint_diagnostic" where
  "string_concat_diagnostic parts r =
     with_simple_replacement (build_string_template parts)
       (with_category ''replacement-hint''
         (new_diagnostic ''string concatenation can be replaced with string template'' r))"

definition string_concat_visit ::
    "accessed \<Rightarrow> string \<Rightarrow> element \<Rightarrow> bool \<Rightarrow> lint_diagnostic list option \<Rightarrow> lint_diagnostic list option \<times> bool" where
  "string_concat_visit accessed code el push st =
     (case st of
        None \<Rightarrow> (None, True)
      | Some ds \<Rightarrow>
          (if \<not> push then (Some ds, True)
           else case el_kind el of
             ElementExpression x \<Rightarrow>
               (if concat_receiver accessed x = None then (Some ds, True)
                else (map_option (\<lambda>parts. ds @ [string_concat_diagnostic parts (node_extent (ex_node x))])
                        (collect_string_concat_parts accessed code x), False))
           | _ \<Rightarrow> (Some ds, True)))"

definition string_concat_analyzer :: "accessed \<Rightarrow> string \<Rightarrow> element \<Rightarrow> lint_diagnostic list option" where
  "string_concat_analyzer accessed code program =
     elements invocation_element (string_concat_visit accessed code) program (Some [])"

section \<open>Deprecated members (deprecated_member_analyzer.go)\<close>

text \<open>
  The pattern \<^verbatim>\<open>(?i)[\t *_]*deprecated\b(?:[*_]*: (.*))?\<close> at the beginning of a string, with the text
  of its group, empty if the group did not take part: no letter of the word is in the class before
  it, and the class after it has no colon, so that the repetitions take all they can.
\<close>

definition deprecated_tail :: "string \<Rightarrow> string" where
  "deprecated_tail s =
     (let r = dropWhile (\<lambda>c. c \<in> {CHR ''*'', CHR ''_''}) s
      in if has_prefix r '': '' then takeWhile (\<lambda>c. c \<noteq> CHR 0x0A) (drop 2 r) else '''')"

definition says_deprecated :: "string \<Rightarrow> bool" where
  "says_deprecated w \<longleftrightarrow> map lower_char w = ''deprecated''"

text \<open>A word boundary behind a word character, with the string behind it.\<close>

definition word_ends :: "string \<Rightarrow> bool" where
  "word_ends s \<longleftrightarrow> (case s of [] \<Rightarrow> True | c # _ \<Rightarrow> \<not> word_char c)"

definition starts_deprecated :: "string \<Rightarrow> bool" where
  "starts_deprecated s \<longleftrightarrow>
     says_deprecated (take 10 s) \<and> word_ends (drop 10 s)"

definition deprecated_here :: "string \<Rightarrow> string option" where
  "deprecated_here s =
     (let r = dropWhile (\<lambda>c. c \<in> {CHR 0x09, CHR '' '', CHR ''*'', CHR ''_''}) s
      in if starts_deprecated r then Some (deprecated_tail (drop 10 r)) else None)"

fun deprecation_match :: "string \<Rightarrow> string option" where
  "deprecation_match [] = deprecated_here []"
| "deprecation_match (c # s) =
     (case deprecated_here (c # s) of Some g \<Rightarrow> Some g | None \<Rightarrow> deprecation_match s)"

definition member_is_deprecated :: "string \<Rightarrow> bool" where
  "member_is_deprecated doc \<longleftrightarrow> deprecation_match doc \<noteq> None"

record accessed_member =
  am_doc :: string
  am_kind_name :: string
  am_name :: string

definition member_element :: "element_kind \<Rightarrow> bool" where
  "member_element k \<longleftrightarrow> (case k of ElementExpression (Expression _ (KMember _ _ _)) \<Rightarrow> True | _ \<Rightarrow> False)"

definition deprecated_visit :: "(lint_node \<Rightarrow> accessed_member option) \<Rightarrow> element \<Rightarrow> lint_diagnostic list" where
  "deprecated_visit member el =
     (case el_kind el of
        ElementExpression (Expression n (KMember x i opt)) \<Rightarrow>
          (case member n of
             None \<Rightarrow> []
           | Some m \<Rightarrow>
               (case deprecation_match (am_doc m) of
                  None \<Rightarrow> []
                | Some g \<Rightarrow>
                    [(with_category ''deprecated''
                       (new_diagnostic (am_kind_name m @ '' '' @ single_quoted (am_name m) @ '' is deprecated'')
                          (id_start i, id_end i)))\<lparr>ld_secondary := g\<rparr>]))
      | _ \<Rightarrow> [])"

definition deprecated_member_analyzer :: "(lint_node \<Rightarrow> accessed_member option) \<Rightarrow> element \<Rightarrow> lint_diagnostic list" where
  "deprecated_member_analyzer member program =
     concat (map (deprecated_visit member) (preorder_elements member_element program))"

section \<open>Reading a template back\<close>

text \<open>
  A reader of string templates: an escape is two characters, \<^verbatim>\<open>\(\<close> begins an expression, which ends at
  the parenthesis that closes it, and a quote ends the template. The result alternates literals
  and expressions.
\<close>

definition quote :: char where "quote = CHR 0x22"
definition backslash :: char where "backslash = CHR 0x5C"

fun read_template :: "nat option \<Rightarrow> string \<Rightarrow> string \<Rightarrow> concat_part list option" where
  "read_template None acc [] = None"
| "read_template None acc (c # cs) =
     (if c = quote then (if cs = [] then Some [ConcatPart True acc] else None)
      else if c = backslash
      then (case cs of
              [] \<Rightarrow> None
            | d # ds \<Rightarrow>
                (if d = CHR ''('' then map_option (\<lambda>ps. ConcatPart True acc # ps) (read_template (Some 0) [] ds)
                 else read_template None (acc @ [c, d]) ds))
      else read_template None (acc @ [c]) cs)"
| "read_template (Some depth) acc [] = None"
| "read_template (Some depth) acc (c # cs) =
     (if c = CHR ''('' then read_template (Some (Suc depth)) (acc @ [c]) cs
      else if c = CHR '')''
      then (case depth of
              0 \<Rightarrow> map_option (\<lambda>ps. ConcatPart False acc # ps) (read_template None [] cs)
            | Suc n \<Rightarrow> read_template (Some n) (acc @ [c]) cs)
      else read_template (Some depth) (acc @ [c]) cs)"

text \<open>What may stand in a literal without an expression, and code with balanced parentheses.\<close>

fun literal_code :: "string \<Rightarrow> bool" where
  "literal_code [] = True"
| "literal_code (c # cs) =
     (if c = quote then False
      else if c = backslash then (case cs of [] \<Rightarrow> False | d # ds \<Rightarrow> d \<noteq> CHR ''('' \<and> literal_code ds)
      else literal_code cs)"

fun balanced_code :: "nat \<Rightarrow> string \<Rightarrow> bool" where
  "balanced_code depth [] \<longleftrightarrow> depth = 0"
| "balanced_code depth (c # cs) =
     (if c = CHR ''('' then balanced_code (Suc depth) cs
      else if c = CHR '')'' then (case depth of 0 \<Rightarrow> False | Suc n \<Rightarrow> balanced_code n cs)
      else balanced_code depth cs)"

definition part_ok :: "concat_part \<Rightarrow> bool" where
  "part_ok p \<longleftrightarrow> (if part_literal p then literal_code (part_code p) else balanced_code 0 (part_code p))"

text \<open>The parts as a template shows them: neighbouring literals are one.\<close>

fun merged_parts :: "string \<Rightarrow> concat_part list \<Rightarrow> concat_part list" where
  "merged_parts acc [] = [ConcatPart True acc]"
| "merged_parts acc (ConcatPart True c # ps) = merged_parts (acc @ c) ps"
| "merged_parts acc (ConcatPart False c # ps) = ConcatPart True acc # ConcatPart False c # merged_parts [] ps"

lemma template_chars [simp]: "backslash \<noteq> quote" "backslash \<noteq> CHR ''(''"
  by (simp_all add: backslash_def quote_def)

lemma read_literal:
  "literal_code s \<Longrightarrow> read_template None acc (s @ cs) = read_template None (acc @ s) cs"
proof (induction s arbitrary: acc rule: literal_code.induct)
  case (2 c s)
  show ?case
  proof (cases "c = backslash")
    case True
    with 2 show ?thesis by (cases s) auto
  next
    case False
    with 2 show ?thesis by (auto split: if_splits)
  qed
qed simp

lemma read_code:
  "balanced_code depth s \<Longrightarrow>
   read_template (Some depth) acc (s @ CHR '')'' # cs) =
     map_option (\<lambda>ps. ConcatPart False (acc @ s) # ps) (read_template None [] cs)"
proof (induction depth s arbitrary: acc rule: balanced_code.induct)
  case (2 depth c s)
  then show ?case by (cases depth) (auto split: if_splits)
qed simp

definition template_body :: "concat_part list \<Rightarrow> string" where
  "template_body parts =
     concat (map (\<lambda>p. if part_literal p then part_code p else [backslash, CHR ''(''] @ part_code p @ '')'') parts)"

lemma build_string_template_eq: "build_string_template parts = [quote] @ template_body parts @ [quote]"
  by (simp add: build_string_template_def template_body_def quote_def backslash_def cong: if_cong)

lemma template_body_simps [simp]:
  "template_body [] = []"
  "template_body (ConcatPart True c # ps) = c @ template_body ps"
  "template_body (ConcatPart False c # ps) = [backslash, CHR ''(''] @ c @ '')'' @ template_body ps"
  by (simp_all add: template_body_def)

lemma read_template_body:
  "list_all part_ok parts \<Longrightarrow> read_template None acc (template_body parts @ [quote]) = Some (merged_parts acc parts)"
proof (induction acc parts rule: merged_parts.induct)
  case (2 acc c ps)
  then show ?case by (simp add: part_ok_def read_literal)
next
  case (3 acc c ps)
  then show ?case by (simp add: part_ok_def read_code)
qed simp

section \<open>A template has the value of the concatenation\<close>

text \<open>The expressions that a chain of calls concatenates.\<close>

function concat_operands :: "accessed \<Rightarrow> expression \<Rightarrow> expression list" where
  "concat_operands accessed x =
     (case concat_receiver accessed x of
        None \<Rightarrow> [x]
      | Some (b, xs) \<Rightarrow> concat_operands accessed b @ take 1 xs)"
  by pat_completeness auto
termination by (relation "measure (\<lambda>(accessed, x). size x)") (auto dest: concat_receiver_size)

declare concat_operands.simps [simp del]

text \<open>
  The value of a part and of a template, from the values that the program's literals and
  expressions have by their text.
\<close>

definition part_value :: "(string \<Rightarrow> string) \<Rightarrow> (string \<Rightarrow> string) \<Rightarrow> concat_part \<Rightarrow> string" where
  "part_value lit ev p = (if part_literal p then lit (part_code p) else ev (part_code p))"

definition template_value :: "(string \<Rightarrow> string) \<Rightarrow> (string \<Rightarrow> string) \<Rightarrow> string \<Rightarrow> string option" where
  "template_value lit ev s =
     (case s of
        c # cs \<Rightarrow>
          (if c = quote then map_option (\<lambda>ps. concat (map (part_value lit ev) ps)) (read_template None [] cs) else None)
      | [] \<Rightarrow> None)"

definition joins_literals :: "(string \<Rightarrow> string) \<Rightarrow> bool" where
  "joins_literals lit \<longleftrightarrow>
     lit [] = [] \<and> (\<forall>a b. literal_code a \<longrightarrow> literal_code b \<longrightarrow> lit (a @ b) = lit a @ lit b)"

lemma literal_code_append: "literal_code a \<Longrightarrow> literal_code b \<Longrightarrow> literal_code (a @ b)"
proof (induction a rule: literal_code.induct)
  case (2 c s)
  show ?case
  proof (cases "c = backslash")
    case True
    with 2 show ?thesis by (cases s) auto
  next
    case False
    with 2 show ?thesis by (auto split: if_splits)
  qed
qed simp

lemma merged_parts_value:
  "joins_literals lit \<Longrightarrow> list_all part_ok parts \<Longrightarrow> literal_code acc \<Longrightarrow>
   concat (map (part_value lit ev) (merged_parts acc parts)) =
     lit acc @ concat (map (part_value lit ev) parts)"
proof (induction acc parts rule: merged_parts.induct)
  case (2 acc c ps)
  then show ?case by (simp add: part_ok_def part_value_def literal_code_append joins_literals_def)
next
  case (3 acc c ps)
  then show ?case by (simp add: part_ok_def part_value_def) (simp add: joins_literals_def)
qed (simp add: part_value_def)

lemma collect_operands:
  "collect_string_concat_parts accessed code x = Some parts \<Longrightarrow>
   list_all2 (\<lambda>o' p. extract_string_concat_part code o' = Some p) (concat_operands accessed x) parts"
proof (induction accessed code x arbitrary: parts rule: collect_string_concat_parts.induct)
  case (1 accessed code x)
  show ?case
  proof (cases "concat_receiver accessed x")
    case None
    then show ?thesis using "1.prems"
      by (auto simp: collect_string_concat_parts.simps [of accessed code x] concat_operands.simps [of accessed x])
  next
    case (Some c)
    then obtain b xs where c: "concat_receiver accessed x = Some (b, xs)" by (cases c) auto
    with "1.prems" obtain ps where ps: "collect_string_concat_parts accessed code b = Some ps"
      by (auto simp: collect_string_concat_parts.simps [of accessed code x] split: option.splits)
    have "list_all2 (\<lambda>o' p. extract_string_concat_part code o' = Some p) (concat_operands accessed b) ps"
      using "1.IH" [OF c] ps by simp
    with "1.prems" c ps show ?thesis
      by (cases xs)
         (auto simp: collect_string_concat_parts.simps [of accessed code x] concat_operands.simps [of accessed x]
           intro!: list_all2_appendI)
  qed
qed

text \<open>
  C28. The template suggested for a chain of \<^verbatim>\<open>concat\<close> calls is read back, by the syntax of string
  templates, as the literals and the expressions of the chain in their order, and its value is the
  value of the chain: provided that a chain's value is the concatenation of its operands' values,
  that the value of an operand is the one its text has in the source, and that the literals'
  texts are free of unescaped quotes and the other operands' parentheses balance.
\<close>

theorem string_template_value:
  assumes parts: "collect_string_concat_parts accessed code x = Some parts"
    and chain: "val x = concat (map val (concat_operands accessed x))"
    and operands: "\<forall>y \<in> set (concat_operands accessed x). \<forall>p. extract_string_concat_part code y = Some p \<longrightarrow>
      part_ok p \<and> val y = part_value lit ev p"
    and lit: "joins_literals lit"
  shows "template_value lit ev (build_string_template parts) = Some (val x) \<and>
    length parts = length (concat_operands accessed x) \<and>
    read_template None [] (tl (build_string_template parts)) = Some (merged_parts [] parts)"
proof -
  have "list_all2 (\<lambda>y p. part_ok p \<and> val y = part_value lit ev p) (concat_operands accessed x) parts"
    by (rule list.rel_mono_strong [OF collect_operands [OF parts]]) (use operands in auto)
  then have ok: "list_all part_ok parts"
      and vals: "map val (concat_operands accessed x) = map (part_value lit ev) parts"
      and len: "length parts = length (concat_operands accessed x)"
    by (auto simp: list_all2_conv_all_nth list_all_length intro: nth_equalityI)
  have "read_template None [] (template_body parts @ [quote]) = Some (merged_parts [] parts)"
    by (rule read_template_body [OF ok])
  then show ?thesis
    using merged_parts_value [OF lit ok, of "[]" ev] lit len
    by (simp add: template_value_def build_string_template_eq chain vals joins_literals_def)
qed

text \<open>The concatenation of a variable and a literal.\<close>

definition demo_source :: string where
  "demo_source = ''a.concat('' @ [quote, CHR ''b'', quote] @ '')''"

definition demo_at :: "nat \<Rightarrow> int \<Rightarrow> int \<Rightarrow> lint_node" where
  "demo_at i s e = \<lparr>nd_id = i, nd_start = \<lparr>pos_offset = s, pos_line = 1, pos_column = s\<rparr>,
     nd_end = \<lparr>pos_offset = e, pos_line = 1, pos_column = e\<rparr>\<rparr>"

definition demo_variable :: expression where
  "demo_variable = Expression (demo_at 1 0 0) (KIdentifier ''a'')"

definition demo_string :: expression where
  "demo_string = Expression (demo_at 3 9 11) KString"

definition demo_concat :: expression where
  "demo_concat =
     Expression (demo_at 4 0 12)
       (KInvocation
          (Expression (demo_at 2 0 7) (KMember demo_variable (Ident ''concat'' (nd_start demo_node) (nd_end demo_node)) False))
          [demo_string] [])"

definition demo_value :: "expression \<Rightarrow> string" where
  "demo_value x = (if x = demo_string then ''b'' else if x = demo_variable then ''(a)'' else ''(a)b'')"

theorem string_template_value_witness:
  "template_value (\<lambda>s. s) (\<lambda>s. ''('' @ s @ '')'')
     (build_string_template [ConcatPart False ''a'', ConcatPart True ''b'']) = Some ''(a)b''"
proof -
  let ?acc = "\<lambda>n. Some (Some string_type)"
  have receiver: "concat_receiver ?acc demo_concat = Some (demo_variable, [demo_string])"
      "concat_receiver ?acc demo_variable = None"
    by (simp_all add: concat_receiver_def demo_concat_def demo_variable_def)
  have slices: "extract_string_concat_part demo_source demo_variable = Some (ConcatPart False ''a'')"
      "extract_string_concat_part demo_source demo_string = Some (ConcatPart True ''b'')"
    by (simp_all add: extract_string_concat_part_def demo_source_def demo_variable_def demo_string_def demo_at_def
        go_slice_def numeral_eq_Suc)
  have parts: "collect_string_concat_parts ?acc demo_source demo_concat = Some [ConcatPart False ''a'', ConcatPart True ''b'']"
    using receiver slices by (simp add: collect_string_concat_parts.simps)
  have operands: "concat_operands ?acc demo_concat = [demo_variable, demo_string]"
    using receiver by (simp add: concat_operands.simps)
  have distinct: "demo_variable \<noteq> demo_string" "demo_concat \<noteq> demo_variable" "demo_concat \<noteq> demo_string"
    by (simp_all add: demo_variable_def demo_string_def demo_concat_def)
  have ok: "\<forall>y \<in> set (concat_operands ?acc demo_concat). \<forall>p. extract_string_concat_part demo_source y = Some p \<longrightarrow>
      part_ok p \<and> demo_value y = part_value (\<lambda>s. s) (\<lambda>s. ''('' @ s @ '')'') p"
    unfolding operands
    using slices distinct by (auto simp: part_ok_def part_value_def demo_value_def quote_def backslash_def)
  have "demo_value demo_concat = concat (map demo_value (concat_operands ?acc demo_concat))"
    unfolding operands using distinct by (simp add: demo_value_def)
  from string_template_value [OF parts this ok]
  show ?thesis using distinct by (simp add: joins_literals_def demo_value_def)
qed

section \<open>Documentation that deprecates\<close>

lemma deprecation_match_iff: "deprecation_match s \<noteq> None \<longleftrightarrow> (\<exists>a b. s = a @ b \<and> deprecated_here b \<noteq> None)"
proof (induction s)
  case (Cons c s)
  have "(\<exists>a b. c # s = a @ b \<and> deprecated_here b \<noteq> None) \<longleftrightarrow>
      deprecated_here (c # s) \<noteq> None \<or> (\<exists>a b. s = a @ b \<and> deprecated_here b \<noteq> None)"
    by (auto simp: Cons_eq_append_conv)
  with Cons.IH show ?case by (auto split: option.splits)
qed simp

lemma says_deprecated_length: "says_deprecated w \<Longrightarrow> length w = 10"
  by (auto simp: says_deprecated_def dest: arg_cong [where f = length])

lemma starts_deprecated_iff: "starts_deprecated s \<longleftrightarrow> (\<exists>w b. s = w @ b \<and> says_deprecated w \<and> word_ends b)"
proof
  assume "starts_deprecated s"
  then have "says_deprecated (take 10 s) \<and> word_ends (drop 10 s)" by (simp add: starts_deprecated_def)
  moreover have "s = take 10 s @ drop 10 s" by simp
  ultimately show "\<exists>w b. s = w @ b \<and> says_deprecated w \<and> word_ends b" by blast
next
  assume "\<exists>w b. s = w @ b \<and> says_deprecated w \<and> word_ends b"
  then obtain w b where s: "s = w @ b" "says_deprecated w" "word_ends b" by blast
  then show "starts_deprecated s" by (simp add: starts_deprecated_def says_deprecated_length)
qed

lemma starts_deprecated_head: "starts_deprecated (c # s) \<Longrightarrow> c \<notin> {CHR 0x09, CHR '' '', CHR ''*'', CHR ''_''}"
proof -
  assume "starts_deprecated (c # s)"
  then have "lower_char c = CHR ''d''" by (simp add: starts_deprecated_def says_deprecated_def)
  moreover have "lower_char (CHR 0x09) \<noteq> CHR ''d''" "lower_char (CHR '' '') \<noteq> CHR ''d''"
      "lower_char (CHR ''*'') \<noteq> CHR ''d''" "lower_char (CHR ''_'') \<noteq> CHR ''d''"
    by (simp_all add: lower_char_def)
  ultimately show ?thesis by auto
qed

lemma deprecated_here_suffix:
  "(\<exists>a b. s = a @ b \<and> deprecated_here b \<noteq> None) \<longleftrightarrow> (\<exists>a b. s = a @ b \<and> starts_deprecated b)"
proof
  assume "\<exists>a b. s = a @ b \<and> deprecated_here b \<noteq> None"
  then obtain a b where s: "s = a @ b" and
      b: "starts_deprecated (dropWhile (\<lambda>c. c \<in> {CHR 0x09, CHR '' '', CHR ''*'', CHR ''_''}) b)"
    by (auto simp: deprecated_here_def Let_def split: if_splits)
  have "s = (a @ takeWhile (\<lambda>c. c \<in> {CHR 0x09, CHR '' '', CHR ''*'', CHR ''_''}) b) @
      dropWhile (\<lambda>c. c \<in> {CHR 0x09, CHR '' '', CHR ''*'', CHR ''_''}) b"
    using s by simp
  with b show "\<exists>a b. s = a @ b \<and> starts_deprecated b" by blast
next
  assume "\<exists>a b. s = a @ b \<and> starts_deprecated b"
  then obtain a b where s: "s = a @ b" "starts_deprecated b" by blast
  then have "dropWhile (\<lambda>c. c \<in> {CHR 0x09, CHR '' '', CHR ''*'', CHR ''_''}) b = b"
    using starts_deprecated_head by (cases b) auto
  with s show "\<exists>a b. s = a @ b \<and> deprecated_here b \<noteq> None"
    by (intro exI [of _ a] exI [of _ b]) (simp add: deprecated_here_def)
qed

text \<open>
  A member counts as deprecated exactly when its documentation has the word in any capitalisation,
  also as the end of a longer word, before a character that no word has or at the end. An underscore
  is such a word character: so the emphasis with stars is understood, with the reason as the
  secondary message, but the emphasis with underscores that the pattern provides for is not.
\<close>

theorem member_is_deprecated_iff:
  "(member_is_deprecated doc \<longleftrightarrow>
      (\<exists>a w b. doc = a @ w @ b \<and> says_deprecated w \<and> word_ends b)) \<and>
   deprecation_match ''**Deprecated**: use b'' = Some ''use b'' \<and>
   deprecation_match ''_Deprecated_: use b'' = None"
proof -
  have "member_is_deprecated doc \<longleftrightarrow> (\<exists>a b. doc = a @ b \<and> starts_deprecated b)"
    by (simp only: member_is_deprecated_def deprecation_match_iff deprecated_here_suffix)
  then have "member_is_deprecated doc \<longleftrightarrow>
      (\<exists>a w b. doc = a @ w @ b \<and> says_deprecated w \<and> word_ends b)"
    unfolding starts_deprecated_iff by blast
  moreover have "deprecation_match ''**Deprecated**: use b'' = Some ''use b''"
    by code_simp
  moreover have "deprecation_match ''_Deprecated_: use b'' = None"
    by code_simp
  ultimately show ?thesis by (intro conjI)
qed

section \<open>Unused variables and parameters (unused_variable_analyzer.go)\<close>

datatype identifier_to_check = CheckVariable ident | CheckParameter lint_parameter

definition checked_identifier :: "identifier_to_check \<Rightarrow> ident" where
  "checked_identifier c = (case c of CheckVariable i \<Rightarrow> i | CheckParameter p \<Rightarrow> lp_identifier p)"

definition declaring_element :: "element_kind \<Rightarrow> bool" where
  "declaring_element k \<longleftrightarrow>
     (case k of ElementVariable _ _ _ \<Rightarrow> True | ElementFunction _ \<Rightarrow> True | _ \<Rightarrow> False)"

text \<open>\<open>None\<close> is the panic of a function declaration without a parameter list.\<close>

definition collect_identifiers :: "element \<Rightarrow> identifier_to_check list option" where
  "collect_identifiers el =
     (case el_kind el of
        ElementFunction f \<Rightarrow> map_option (map CheckParameter) (lf_parameters f)
      | ElementVariable i ty x \<Rightarrow> Some [CheckVariable i]
      | _ \<Rightarrow> Some [])"

definition unused_fix :: "identifier_to_check \<Rightarrow> lint_fix" where
  "unused_fix c =
     (let i = checked_identifier c; r = (id_start i, id_end i); name = id_name i
      in case c of
           CheckVariable _ \<Rightarrow>
             \<lparr>fx_message = ''Prefix with underscore to mark as intentionally unused'', fx_edits = [(r, ''_'' @ name)]\<rparr>
         | CheckParameter p \<Rightarrow>
             (if lp_label p \<noteq> ''''
              then \<lparr>fx_message = ''Prefix parameter name with underscore'', fx_edits = [(r, ''_'' @ name)]\<rparr>
              else \<lparr>fx_message = ''Add parameter name with underscore prefix'', fx_edits = [(r, name @ '' _'' @ name)]\<rparr>))"

definition kind_text :: "identifier_to_check \<Rightarrow> string" where
  "kind_text c = (case c of CheckVariable _ \<Rightarrow> ''variable'' | CheckParameter _ \<Rightarrow> ''parameter'')"

definition ast_to_sema_position :: "ast_pos \<Rightarrow> sema_pos" where
  "ast_to_sema_position p = \<lparr>sp_line = pos_line p, sp_column = pos_column p\<rparr>"

definition unused_diagnostic :: "identifier_to_check \<Rightarrow> lint_diagnostic" where
  "unused_diagnostic c =
     (let i = checked_identifier c
      in (with_category ''unused-variable-hint''
           (new_diagnostic (kind_text c @ '' '' @ single_quoted (id_name i) @ '' is declared but never used'')
              (id_start i, id_end i)))\<lparr>ld_fixes := [unused_fix c]\<rparr>)"

definition unused_visit :: "(sema_pos \<Rightarrow> occurrence option) \<Rightarrow> identifier_to_check \<Rightarrow> lint_diagnostic list" where
  "unused_visit occs c =
     (let i = checked_identifier c
      in if id_name i = ''_'' \<or> has_prefix (id_name i) ''_'' then []
         else case occs (ast_to_sema_position (id_start i)) of
           None \<Rightarrow> []
         | Some occ \<Rightarrow>
             (case occ_origin occ of
                None \<Rightarrow> []
              | Some org \<Rightarrow> (if length (org_occurrences org) = 1 then [unused_diagnostic c] else [])))"

definition unused_variable_analyzer :: "(sema_pos \<Rightarrow> occurrence option) \<Rightarrow> element \<Rightarrow> lint_diagnostic list option" where
  "unused_variable_analyzer occs program =
     map_option (\<lambda>cs. concat (map (unused_visit occs) cs))
       (collect_reports collect_identifiers (preorder_elements declaring_element program))"

text \<open>
  The text of a parameter's names, what it is after the fix, and the label for callers: a label is
  the name if there is no other.
\<close>

definition parameter_text :: "lint_parameter \<Rightarrow> string \<Rightarrow> string" where
  "parameter_text p name = (if lp_label p = '''' then name else lp_label p @ '' '' @ name)"

definition argument_label :: "lint_parameter \<Rightarrow> string" where
  "argument_label p = (if lp_label p = '''' then id_name (lp_identifier p) else lp_label p)"

lemma split_on_free: "c \<notin> set s \<Longrightarrow> split_on c s = [s]"
  by (induction s) auto

lemma split_on_append: "c \<notin> set a \<Longrightarrow> split_on c (a @ c # b) = a # split_on c b"
  by (induction a) auto

text \<open>
  The fix for an unused parameter keeps what its callers write: the text behind the edit is the
  argument label followed by the name with an underscore, so that the label is the same and
  the analyzer does not report the renamed parameter; a reported name never has one.
\<close>

theorem unused_parameter_fix_keeps_label:
  assumes reported: "d \<in> set (unused_visit occs (CheckParameter p))"
    and words: "CHR '' '' \<notin> set (id_name (lp_identifier p))" "CHR '' '' \<notin> set (lp_label p)"
    and fix': "ld_fixes d = [f]" "fx_edits f = [(r, replacement)]"
  shows "split_on (CHR '' '') (parameter_text p replacement) =
      [argument_label p, ''_'' @ id_name (lp_identifier p)] \<and>
    r = (id_start (lp_identifier p), id_end (lp_identifier p)) \<and>
    \<not> has_prefix (id_name (lp_identifier p)) ''_'' \<and>
    unused_visit occs' (CheckParameter (p\<lparr>lp_label := argument_label p,
      lp_identifier := Ident (''_'' @ id_name (lp_identifier p)) s e\<rparr>)) = []"
proof -
  have d: "d = unused_diagnostic (CheckParameter p)" and name: "\<not> has_prefix (id_name (lp_identifier p)) ''_''"
    using reported by (auto simp: unused_visit_def Let_def checked_identifier_def split: if_splits option.splits)
  then have f: "f = unused_fix (CheckParameter p)"
    using fix'(1) by (simp add: unused_diagnostic_def Let_def)
  have edit: "r = (id_start (lp_identifier p), id_end (lp_identifier p)) \<and>
      replacement = (if lp_label p = '''' then id_name (lp_identifier p) @ '' _'' @ id_name (lp_identifier p)
        else ''_'' @ id_name (lp_identifier p))"
    using fix'(2) unfolding f by (auto simp: unused_fix_def Let_def checked_identifier_def split: if_splits)
  have sep: "CHR '' '' \<notin> set (''_'' @ id_name (lp_identifier p))" using words by simp
  have "split_on (CHR '' '') (parameter_text p replacement) = [argument_label p, ''_'' @ id_name (lp_identifier p)]"
  proof (cases "lp_label p = ''''")
    case True
    then show ?thesis
      using edit split_on_append [OF words(1), of "''_'' @ id_name (lp_identifier p)"] split_on_free [OF sep]
      by (simp add: parameter_text_def argument_label_def)
  next
    case False
    then show ?thesis
      using edit split_on_append [OF words(2), of "''_'' @ id_name (lp_identifier p)"] split_on_free [OF sep]
      by (simp add: parameter_text_def argument_label_def)
  qed
  then show ?thesis
    using edit name by (simp add: unused_visit_def checked_identifier_def has_prefix_def)
qed

definition demo_parameter :: lint_parameter where
  "demo_parameter = \<lparr>lp_label = '''', lp_identifier = Ident ''amount'' (nd_start demo_node) (nd_end demo_node), lp_annotation = None\<rparr>"

definition demo_find :: "sema_pos \<Rightarrow> occurrence option" where
  "demo_find p =
     (let o' = \<lparr>org_id = 0,
          org_type = \<lparr>ty_qualified = ''Int'', ty_string = ''Int'', ty_annotation = ''Int'', ty_invalid = False, ty_function = None\<rparr>,
          org_doc = '''', org_start = None, org_end = None, org_occurrences = [(nd_start demo_node, nd_end demo_node)]\<rparr>
      in Some \<lparr>occ_start = p, occ_end = p, occ_origin = Some o'\<rparr>)"

theorem unused_parameter_fix_keeps_label_witness:
  "unused_visit demo_find (CheckParameter demo_parameter) = [unused_diagnostic (CheckParameter demo_parameter)] \<and>
   split_on (CHR '' '') (parameter_text demo_parameter ''amount _amount'') = [''amount'', ''_amount'']"
proof -
  have visit: "unused_visit demo_find (CheckParameter demo_parameter) = [unused_diagnostic (CheckParameter demo_parameter)]"
    by (simp add: unused_visit_def demo_find_def demo_parameter_def checked_identifier_def has_prefix_def Let_def)
  have fields: "id_name (lp_identifier demo_parameter) = ''amount''" "lp_label demo_parameter = ''''"
    by (simp_all add: demo_parameter_def)
  have fix1: "ld_fixes (unused_diagnostic (CheckParameter demo_parameter)) = [unused_fix (CheckParameter demo_parameter)]"
    by (simp add: unused_diagnostic_def Let_def)
  have fix2: "fx_edits (unused_fix (CheckParameter demo_parameter)) =
      [((id_start (lp_identifier demo_parameter), id_end (lp_identifier demo_parameter)), ''amount _amount'')]"
    by (simp add: unused_fix_def checked_identifier_def fields Let_def)
  show ?thesis
    using visit unused_parameter_fix_keeps_label [OF _ _ _ fix1 fix2, of demo_find] fields
    by (simp add: argument_label_def)
qed

end
