(* ===== verification/LintV1.thy ===== *)
theory LintV1
  imports LintTypes
begin

text \<open>
  The analyzer of features that Cadence 1.0 removed (src/lint/cadence_v1_analyzer.go): members of
  accounts, type identifiers in annotations, and destructors of resources, with what the fixes
  remove or replace.
\<close>

section \<open>Diagnostics\<close>

definition v1_diagnostic :: "extent \<Rightarrow> string \<Rightarrow> string \<Rightarrow> string \<Rightarrow> lint_diagnostic" where
  "v1_diagnostic r msg code url =
     with_category ''cadence-v1'' (with_url url (with_code code (new_diagnostic msg r)))"

definition forum :: "string \<Rightarrow> string" where
  "forum anchor = ''https://forum.flow.com/t/update-on-cadence-1-0/5197#'' @ anchor"

definition controllers :: string where
  "controllers = forum ''capability-controller-api-replaced-existing-linking-based-capability-api-82''"

section \<open>Removed members of accounts\<close>

definition unwrap_reference_type :: "sema_ty \<Rightarrow> sema_ty" where
  "unwrap_reference_type t = (case t of TyReference a u \<Rightarrow> u | _ \<Rightarrow> t)"

text \<open>The member, the message without the quoted name in front, the code, the page and the replacement.\<close>

definition removed_account_member :: "string \<Rightarrow> (string \<times> string \<times> string \<times> string option) option" where
  "removed_account_member name =
     map_of
       [(''save'', '' has been replaced by the new Storage API.'', ''C1.0-StorageAPI-Save'',
           forum ''account-access-got-improved-55'', Some ''storage.save''),
        (''linkAccount'', '' has been replaced by the Capability Controller API.'', ''C1.0-StorageAPI-LinkAccount'',
           controllers, None),
        (''link'', '' has been replaced by the Capability Controller API.'', ''C1.0-StorageAPI-Link'', controllers, None),
        (''unlink'', '' has been replaced by the Capability Controller API.'', ''C1.0-StorageAPI-Unlink'', controllers, None),
        (''getCapability'', '' has been replaced by the Capability Controller API.'', ''C1.0-CapabilityAPI-GetCapability'',
           controllers, Some ''capabilities.get''),
        (''getLinkTarget'', '' has been replaced by the Capability Controller API.'', ''C1.0-CapabilityAPI-GetLinkTarget'',
           controllers, None),
        (''addPublicKey'',
           '' has been removed in favour of the new Key Management API. Please use `keys.add` instead.'',
           ''C1.0-KeyAPI-AddPublicKey'', controllers, None),
        (''removePublicKey'',
           '' has been removed in favour of the new Key Management API.'' @ [CHR 0x0A] @ ''Please use `keys.revoke` instead.'',
           ''C1.0-KeyAPI-RemovePublicKey'', forum ''deprecated-key-management-api-got-removed-60'', Some ''keys.revoke'')]
       name"

definition v1_member_element :: "element_kind \<Rightarrow> bool" where
  "v1_member_element k \<longleftrightarrow> (case k of ElementExpression (Expression _ (KMember _ _ _)) \<Rightarrow> True | _ \<Rightarrow> False)"

text \<open>\<open>accessed\<close>: the type of what a member expression accesses, if the elaboration has one.\<close>

definition removed_member_visit :: "(lint_node \<Rightarrow> sema_ty option) \<Rightarrow> element \<Rightarrow> lint_diagnostic list" where
  "removed_member_visit accessed el =
     (case el_kind el of
        ElementExpression (Expression n (KMember x i opt)) \<Rightarrow>
          (if map_option unwrap_reference_type (accessed n) \<noteq> Some account_type then []
           else case removed_account_member (id_name i) of
             None \<Rightarrow> []
           | Some (msg, code, url, replacement) \<Rightarrow>
               (let d = v1_diagnostic (id_start i, id_end i) (''`'' @ id_name i @ ''`'' @ msg) code url
                in [case replacement of None \<Rightarrow> d | Some r \<Rightarrow> with_simple_replacement r d]))
      | _ \<Rightarrow> [])"

definition analyze_removed_account_members :: "(lint_node \<Rightarrow> sema_ty option) \<Rightarrow> element \<Rightarrow> lint_diagnostic list" where
  "analyze_removed_account_members accessed program =
     concat (map (removed_member_visit accessed) (preorder_elements v1_member_element program))"

section \<open>Removed type identifiers\<close>

text \<open>The arguments of an instantiation come before the annotation itself.\<close>

fun process_annotation :: "type_annotation \<Rightarrow> type_annotation list" where
  "process_annotation (TypeAnnotation s n args) =
     (case args of None \<Rightarrow> [] | Some ts \<Rightarrow> concat (map process_annotation ts)) @ [TypeAnnotation s n args]"

definition process_optional :: "type_annotation option \<Rightarrow> type_annotation list" where
  "process_optional t = (case t of None \<Rightarrow> [] | Some a \<Rightarrow> process_annotation a)"

definition process_parameter_list :: "lint_parameter list option \<Rightarrow> type_annotation list" where
  "process_parameter_list ps =
     (case ps of None \<Rightarrow> [] | Some qs \<Rightarrow> concat (map (\<lambda>p. process_optional (lp_annotation p)) qs))"

definition annotated_element :: "element_kind \<Rightarrow> bool" where
  "annotated_element k \<longleftrightarrow>
     (case k of
        ElementField _ \<Rightarrow> True
      | ElementFunctionExpression _ _ \<Rightarrow> True
      | ElementExpression (Expression _ (KCasting _ _ _)) \<Rightarrow> True
      | ElementFunction _ \<Rightarrow> True
      | ElementTransaction _ \<Rightarrow> True
      | ElementVariable _ _ _ \<Rightarrow> True
      | ElementSpecialFunction _ \<Rightarrow> True
      | ElementExpression (Expression _ (KInvocation _ _ _)) \<Rightarrow> True
      | _ \<Rightarrow> False)"

text \<open>\<open>None\<close> is the panic of a special function without a function declaration.\<close>

definition element_annotations :: "element \<Rightarrow> type_annotation list option" where
  "element_annotations el =
     (case el_kind el of
        ElementField t \<Rightarrow> Some (process_optional t)
      | ElementFunctionExpression ps r \<Rightarrow> Some (process_optional r @ process_parameter_list ps)
      | ElementExpression (Expression n k) \<Rightarrow>
          (case k of
             KCasting op x t \<Rightarrow> Some (process_annotation t)
           | KInvocation f xs ts \<Rightarrow> Some (concat (map process_annotation ts))
           | _ \<Rightarrow> Some [])
      | ElementFunction f \<Rightarrow> Some (process_optional (lf_return f) @ process_parameter_list (lf_parameters f))
      | ElementTransaction ps \<Rightarrow> Some (process_parameter_list ps)
      | ElementVariable i t x \<Rightarrow> Some (process_optional t)
      | ElementSpecialFunction f \<Rightarrow> map_option (\<lambda>g. process_parameter_list (lf_parameters g)) f
      | _ \<Rightarrow> Some [])"

definition inspect_type_annotations :: "element \<Rightarrow> type_annotation list option" where
  "inspect_type_annotations program =
     collect_reports element_annotations (preorder_elements annotated_element program)"

definition removed_type_visit :: "type_annotation \<Rightarrow> lint_diagnostic list" where
  "removed_type_visit t =
     (let report = (\<lambda>msg code.
            [with_simple_replacement ''&Account''
               (v1_diagnostic (node_extent (ta_node t)) msg code (forum ''account-access-got-improved-55''))])
      in if ta_text t = ''AuthAccount''
         then report (''`AuthAccount` has been removed in Cadence 1.0.  Please use an authorized `&Account` '' @
                      ''reference with necessary entitlements instead.'') ''C1.0-AuthAccount''
         else if ta_text t = ''PublicAccount''
         then report (''`PublicAccount` has been removed in Cadence 1.0.  Please use an `&Account` reference instead.'')
                ''C1.0-PublicAccount''
         else [])"

definition analyze_removed_type_identifiers :: "element \<Rightarrow> lint_diagnostic list option" where
  "analyze_removed_type_identifiers program =
     map_option (\<lambda>ts. concat (map removed_type_visit ts)) (inspect_type_annotations program)"

section \<open>Destructors of resources\<close>

text \<open>
  \<^verbatim>\<open>Inspector.WithStack\<close>: the callback also gets the elements from the root to the current one, the
  current one first here.
\<close>

fun elements_with_stack ::
    "(element_kind \<Rightarrow> bool) \<Rightarrow> (element \<Rightarrow> bool \<Rightarrow> element list \<Rightarrow> 's \<Rightarrow> 's \<times> bool) \<Rightarrow> element list \<Rightarrow> element \<Rightarrow> 's \<Rightarrow> 's"
and elements_with_stack_list ::
    "(element_kind \<Rightarrow> bool) \<Rightarrow> (element \<Rightarrow> bool \<Rightarrow> element list \<Rightarrow> 's \<Rightarrow> 's \<times> bool) \<Rightarrow> element list \<Rightarrow> element list \<Rightarrow> 's \<Rightarrow> 's" where
  "elements_with_stack sel f stack (Element k n cs) st =
     (let el = Element k n cs; stack' = el # stack
      in if \<not> sel k then elements_with_stack_list sel f stack' cs st
         else let (st1, cont) = f el True stack' st
              in if cont then fst (f el False stack' (elements_with_stack_list sel f stack' cs st1)) else st1)"
| "elements_with_stack_list sel f stack [] st = st"
| "elements_with_stack_list sel f stack (c # cs) st =
     elements_with_stack_list sel f stack cs (elements_with_stack sel f stack c st)"

definition special_function_element :: "element_kind \<Rightarrow> bool" where
  "special_function_element k \<longleftrightarrow> (case k of ElementSpecialFunction _ \<Rightarrow> True | _ \<Rightarrow> False)"

definition is_destroy_statement :: "statement \<Rightarrow> bool" where
  "is_destroy_statement s \<longleftrightarrow>
     (case s of SExpression x \<Rightarrow> (case ex_kind x of KDestroy _ \<Rightarrow> True | _ \<Rightarrow> False) | _ \<Rightarrow> False)"

definition should_suggest_removal :: "lint_function \<Rightarrow> bool" where
  "should_suggest_removal f \<longleftrightarrow>
     (case lf_block f of
        None \<Rightarrow> True
      | Some (Block ss) \<Rightarrow> (if ss = [] then True else list_all is_destroy_statement ss))"

definition destructor_diagnostic :: "lint_function \<Rightarrow> lint_node \<Rightarrow> lint_diagnostic" where
  "destructor_diagnostic f n =
     (let d = v1_diagnostic (node_extent n)
            (''`destroy` keyword has been removed.  Nested resources will now be implicitly destroyed with their parent.  '' @
             ''A `ResourceDestroyed` event can be configured to be emitted to notify clients of the destruction.'')
            ''C1.0-ResourceDestruction'' (forum ''force-destruction-of-resources-101'')
      in if should_suggest_removal f then with_simple_replacement '''' d else d)"

text \<open>\<open>None\<close> is the panic of a special function without a function declaration.\<close>

definition destructor_visit ::
    "element \<Rightarrow> bool \<Rightarrow> element list \<Rightarrow> lint_diagnostic list option \<Rightarrow> lint_diagnostic list option \<times> bool" where
  "destructor_visit el push stack st =
     (case st of
        None \<Rightarrow> (None, True)
      | Some ds \<Rightarrow>
          (case el_kind el of
             ElementSpecialFunction None \<Rightarrow> (None, True)
           | ElementSpecialFunction (Some f) \<Rightarrow>
               (if id_name (lf_identifier f) \<noteq> ''destroy'' then (Some ds, True)
                else case stack of
                  _ # parent # _ \<Rightarrow>
                    (if el_kind parent = ElementComposite True
                     then (Some (ds @ [destructor_diagnostic f (el_node el)]), False)
                     else (Some ds, True))
                | _ \<Rightarrow> (Some ds, True))
           | _ \<Rightarrow> (Some ds, True)))"

definition analyze_resource_destructors :: "element \<Rightarrow> lint_diagnostic list option" where
  "analyze_resource_destructors program =
     elements_with_stack special_function_element destructor_visit [] program (Some [])"

definition cadence_v1_analyzer :: "(lint_node \<Rightarrow> sema_ty option) \<Rightarrow> element \<Rightarrow> lint_diagnostic list option" where
  "cadence_v1_analyzer accessed program =
     (case analyze_removed_type_identifiers program of
        None \<Rightarrow> None
      | Some ts \<Rightarrow>
          map_option (\<lambda>ds. analyze_removed_account_members accessed program @ ts @ ds)
            (analyze_resource_destructors program))"

section \<open>Every destructor of a resource once\<close>

text \<open>
  The destructors in a tree: special functions named destroy directly within a resource. What is
  inside of a destructor is not looked at. The flag says whether the element around is a resource.
\<close>

definition destructor :: "bool \<Rightarrow> element_kind \<Rightarrow> lint_function option" where
  "destructor resource k =
     (case k of
        ElementSpecialFunction (Some f) \<Rightarrow> if resource \<and> id_name (lf_identifier f) = ''destroy'' then Some f else None
      | _ \<Rightarrow> None)"

fun destructor_sites :: "bool \<Rightarrow> element \<Rightarrow> (lint_function \<times> lint_node) list"
and destructor_sites_list :: "bool \<Rightarrow> element list \<Rightarrow> (lint_function \<times> lint_node) list" where
  "destructor_sites resource (Element k n cs) =
     (case destructor resource k of
        Some f \<Rightarrow> [(f, n)]
      | None \<Rightarrow> destructor_sites_list (k = ElementComposite True) cs)"
| "destructor_sites_list resource [] = []"
| "destructor_sites_list resource (c # cs) = destructor_sites resource c @ destructor_sites_list resource cs"

fun functions_declared :: "element \<Rightarrow> bool" where
  "functions_declared (Element k n cs) \<longleftrightarrow> k \<noteq> ElementSpecialFunction None \<and> list_all functions_declared cs"

definition in_resource :: "element list \<Rightarrow> bool" where
  "in_resource stack \<longleftrightarrow> stack \<noteq> [] \<and> el_kind (hd stack) = ElementComposite True"

abbreviation destructor_diagnostics :: "(lint_function \<times> lint_node) list \<Rightarrow> lint_diagnostic list" where
  "destructor_diagnostics \<equiv> map (\<lambda>(f, n). destructor_diagnostic f n)"

lemma destructor_visit_push:
  "k \<noteq> ElementSpecialFunction None \<Longrightarrow>
   destructor_visit (Element k n cs) push (Element k n cs # stack) (Some ds) =
     (case destructor (in_resource stack) k of
        Some f \<Rightarrow> (Some (ds @ [destructor_diagnostic f n]), False)
      | None \<Rightarrow> (Some ds, True))"
  by (cases stack) (auto simp: destructor_visit_def destructor_def in_resource_def split: element_kind.splits option.splits)

lemma destructor_unselected: "\<not> special_function_element k \<Longrightarrow> destructor resource k = None"
  by (auto simp: special_function_element_def destructor_def split: element_kind.splits)

lemma destructor_walk:
  "functions_declared e \<Longrightarrow> in_resource stack = resource \<Longrightarrow>
   elements_with_stack special_function_element destructor_visit stack e (Some ds) =
     Some (ds @ destructor_diagnostics (destructor_sites resource e))"
  "list_all functions_declared es \<Longrightarrow> in_resource stack = resource \<Longrightarrow>
   elements_with_stack_list special_function_element destructor_visit stack es (Some ds) =
     Some (ds @ destructor_diagnostics (destructor_sites_list resource es))"
proof (induction resource e and resource es arbitrary: stack ds and stack ds
    rule: destructor_sites_destructor_sites_list.induct)
  case (1 resource k n cs)
  have k: "k \<noteq> ElementSpecialFunction None" and cs: "list_all functions_declared cs"
    using "1.prems" by simp_all
  note visit = destructor_visit_push [OF k, of n cs _ stack]
  show ?case
  proof (cases "destructor resource k")
    case (Some f)
    then have "special_function_element k" using destructor_unselected by fastforce
    with Some "1.prems" visit show ?thesis by (simp add: Let_def)
  next
    case None
    have "in_resource (Element k n cs # stack) = (k = ElementComposite True)"
      by (simp add: in_resource_def)
    with "1.IH" [OF None cs] None "1.prems" visit show ?thesis
      by (auto simp: Let_def)
  qed
qed simp_all

text \<open>
  The analyzer reports exactly the destructors of resources, each once and in the order of the
  program, and nothing inside of them; and it offers to remove a destructor exactly when each of
  its statements is a destroy expression.
\<close>

theorem resource_destructors_reported:
  assumes "functions_declared program"
  shows "analyze_resource_destructors program = Some (destructor_diagnostics (destructor_sites False program)) \<and>
    (ld_fixes (destructor_diagnostic f n) \<noteq> [] \<longleftrightarrow>
      (\<forall>b ss. lf_block f = Some b \<longrightarrow> b = Block ss \<longrightarrow> (\<forall>s \<in> set ss. is_destroy_statement s)))"
proof -
  have "should_suggest_removal f \<longleftrightarrow>
      (\<forall>b ss. lf_block f = Some b \<longrightarrow> b = Block ss \<longrightarrow> (\<forall>s \<in> set ss. is_destroy_statement s))"
    by (auto simp: should_suggest_removal_def list_all_iff split: option.splits block.splits)
  then have "ld_fixes (destructor_diagnostic f n) \<noteq> [] \<longleftrightarrow>
      (\<forall>b ss. lf_block f = Some b \<longrightarrow> b = Block ss \<longrightarrow> (\<forall>s \<in> set ss. is_destroy_statement s))"
    by (simp add: destructor_diagnostic_def Let_def with_simple_replacement_def v1_diagnostic_def with_category_def
        with_url_def with_code_def new_diagnostic_def)
  then show ?thesis
    using destructor_walk(1) [OF assms, of "[]" False "[]"]
    by (simp add: analyze_resource_destructors_def in_resource_def)
qed

definition demo_destroy :: lint_function where
  "demo_destroy =
     \<lparr>lf_identifier = Ident ''destroy'' (nd_start demo_node) (nd_end demo_node), lf_parameters = Some [], lf_return = None,
      lf_block = Some (Block [SExpression (Expression demo_node (KDestroy (Expression demo_node (KIdentifier ''vault''))))])\<rparr>"

definition demo_resource :: element where
  "demo_resource =
     Element ElementOther demo_node
       [Element (ElementComposite True) demo_node [Element (ElementSpecialFunction (Some demo_destroy)) demo_node []],
        Element (ElementComposite False) demo_node [Element (ElementSpecialFunction (Some demo_destroy)) demo_node []]]"

theorem resource_destructors_reported_witness:
  "analyze_resource_destructors demo_resource = Some [destructor_diagnostic demo_destroy demo_node] \<and>
   ld_fixes (destructor_diagnostic demo_destroy demo_node) \<noteq> []"
proof -
  have fields: "id_name (lf_identifier demo_destroy) = ''destroy''"
    "lf_block demo_destroy =
       Some (Block [SExpression (Expression demo_node (KDestroy (Expression demo_node (KIdentifier ''vault''))))])"
    by (simp_all add: demo_destroy_def)
  have declared: "functions_declared demo_resource" by (simp add: demo_resource_def)
  have "destructor_sites False demo_resource = [(demo_destroy, demo_node)]"
    by (simp add: demo_resource_def destructor_def fields)
  then show ?thesis
    using resource_destructors_reported [OF declared, of demo_destroy demo_node]
    by (simp add: fields is_destroy_statement_def)
qed

end
