(* ===== verification/LintDriver.thy ===== *)
theory LintDriver
  imports LintSyntax Dispatch
begin

text \<open>
  The linter itself (src/lint/lint.go, error.go) and its command (src/lint/cmd/lint/main.go): the
  sources of programs, which are a file of comma-separated values, a directory, an account or a
  transaction, and the run of the analyzers over the programs that load. The files, the network and
  the library that loads and checks programs are parameters. A panic is the left value of a result.
\<close>

section \<open>The linter's state\<close>

text \<open>A location may be nil; the codes are keyed by locations.\<close>

type_synonym lint_codes = "(location option, string) gomap"
type_synonym contract_names = "(string, string list) gomap"

record 'an linter =
  ln_analyzers :: "'an list"
  ln_silent :: bool
  ln_codes :: lint_codes

datatype lint_event =
    Logged string
  | PrintedError string "location option"
  | PrintedDiagnostic lint_diagnostic location

text \<open>\<^verbatim>\<open>analysis.Config\<close>: the names of contracts and how the contracts of an address are fetched.\<close>

record analysis_config =
  cf_contract_names :: contract_names
  cf_contracts :: "(string \<Rightarrow> (string, (string, string) gomap) result) option"

text \<open>
  \<^verbatim>\<open>analysis.Programs\<close>: loading a location may fail with an error and may add codes; a loaded program
  is run with the analyzers and reports diagnostics with their locations.
\<close>

record ('p, 'prog, 'an) programs_library =
  pl_empty :: 'p
  pl_load :: "analysis_config \<Rightarrow> location \<Rightarrow> 'p \<times> lint_codes \<Rightarrow> string option \<times> ('p \<times> lint_codes)"
  pl_get :: "'p \<Rightarrow> location \<Rightarrow> 'prog option"
  pl_run :: "'an list \<Rightarrow> 'prog \<Rightarrow> (location \<times> lint_diagnostic) list"
  pl_description :: "location \<Rightarrow> string"
  pl_text :: "location \<Rightarrow> string"

definition nil_dereference :: string where
  "nil_dereference = ''invalid memory address or nil pointer dereference''"

section \<open>Loading and analyzing (analyze)\<close>

fun load_locations ::
    "('p, 'prog, 'an) programs_library \<Rightarrow> analysis_config \<Rightarrow> bool \<Rightarrow> location option list \<Rightarrow>
     'p \<times> lint_codes \<Rightarrow> (string, ('p \<times> lint_codes) \<times> lint_event list) result" where
  "load_locations lib cfg silent [] st = Inr (st, [])"
| "load_locations lib cfg silent (None # locs) st = Inl nil_dereference"
| "load_locations lib cfg silent (Some l # locs) st =
     (let (err, st') = pl_load lib cfg l st;
          evs = (case err of
                   None \<Rightarrow> []
                 | Some e \<Rightarrow> [if silent then Logged (''Failed: '' @ pl_description lib l) else PrintedError e (Some l)])
      in map_sum id (map_prod id (\<lambda>es. Logged (''Loading '' @ pl_description lib l) # evs @ es))
           (load_locations lib cfg silent locs st'))"

definition analyze_location :: "('p, 'prog, 'an) programs_library \<Rightarrow> 'an list \<Rightarrow> 'p \<Rightarrow> location \<Rightarrow> lint_event list" where
  "analyze_location lib ans p l =
     (case pl_get lib p l of
        None \<Rightarrow> []
      | Some prog \<Rightarrow>
          Logged (''Analyzing '' @ pl_text lib l) # map (\<lambda>(loc, d). PrintedDiagnostic d loc) (pl_run lib ans prog))"

definition lint_analyze ::
    "('p, 'prog, 'an) programs_library \<Rightarrow> analysis_config \<Rightarrow> location option list \<Rightarrow> 'an linter \<Rightarrow>
     (string, 'an linter \<times> lint_event list) result" where
  "lint_analyze lib cfg locs ln =
     (case load_locations lib cfg (ln_silent ln) locs (pl_empty lib, ln_codes ln) of
        Inl e \<Rightarrow> Inl e
      | Inr ((p, codes), evs) \<Rightarrow>
          Inr (ln\<lparr>ln_codes := codes\<rparr>,
            Logged ''Loading ...'' # evs @
            (if ln_analyzers ln = [] then []
             else concat (map (analyze_location lib (ln_analyzers ln) p) (List.map_filter id locs)))))"

section \<open>Sources of programs (readDirectoryEntries, readCSV)\<close>

text \<open>
  \<open>decode\<close> is the library's \<^verbatim>\<open>DecodeTypeID\<close>. The state of both loops: the locations, the contract
  names and the linter's codes.
\<close>

type_synonym type_decoder = "string \<Rightarrow> (string, location option \<times> string) result"

record source_state =
  src_locations :: "location option list"
  src_names :: contract_names
  src_codes :: lint_codes

definition add_source :: "location option \<Rightarrow> string \<Rightarrow> source_state \<Rightarrow> source_state" where
  "add_source loc code st =
     st\<lparr>src_locations := src_locations st @ [loc],
        src_codes := AList.update loc code (src_codes st),
        src_names :=
          (case loc of
             Some (AddressLocation a name) \<Rightarrow> AList.update a (keys_at (src_names st) a @ [name]) (src_names st)
           | _ \<Rightarrow> src_names st)\<rparr>"

text \<open>\<^verbatim>\<open>path.Ext\<close>: from the last dot behind the last slash.\<close>

definition path_ext :: "string \<Rightarrow> string" where
  "path_ext s =
     (let base = rev (takeWhile (\<lambda>c. c \<noteq> CHR ''/'') (rev s));
          tail = takeWhile (\<lambda>c. c \<noteq> CHR ''.'') (rev base)
      in if length tail < length base then CHR ''.'' # rev tail else '''')"

record dir_entry =
  de_name :: string
  de_is_dir :: bool

definition read_directory_entry ::
    "type_decoder \<Rightarrow> (string \<Rightarrow> (string, string) result) \<Rightarrow> string \<Rightarrow> dir_entry \<Rightarrow> source_state \<Rightarrow>
     (string, source_state) result" where
  "read_directory_entry decode file directory entry st =
     (let name = de_name entry; ext = path_ext name
      in if de_is_dir entry \<or> ext \<noteq> ''.cdc'' then Inr st
         else case decode (take (length name - length ext) name) of
           Inl e \<Rightarrow> Inl (''invalid location in file '' @ go_quote name @ '': '' @ e)
         | Inr (None, q) \<Rightarrow> Inl (''invalid location in file '' @ go_quote name @ '': missing location'')
         | Inr (Some loc, q) \<Rightarrow>
             (if length (split_on (CHR ''.'') q) > 1
              then Inl (''invalid location in file '' @ go_quote name @ '': invalid qualified identifier: '' @ q)
              else case file (go_join [directory, name]) of
                Inl e \<Rightarrow> Inl (''failed to read file '' @ go_quote name @ '': '' @ e)
              | Inr code \<Rightarrow> Inr (add_source (Some loc) code st)))"

fun read_directory_entries ::
    "type_decoder \<Rightarrow> (string \<Rightarrow> (string, string) result) \<Rightarrow> string \<Rightarrow> dir_entry list \<Rightarrow> source_state \<Rightarrow>
     (string, source_state) result" where
  "read_directory_entries decode file directory [] st = Inr st"
| "read_directory_entries decode file directory (x # xs) st =
     (case read_directory_entry decode file directory x st of
        Inl e \<Rightarrow> Inl e
      | Inr st' \<Rightarrow> read_directory_entries decode file directory xs st')"

text \<open>
  The reader's results up to the end of the file: a record, nil or not, and an error, which is not
  looked at. A row's first field is decoded and the second is the code.
\<close>

type_synonym csv_read = "string list option \<times> string option"

definition read_csv_row :: "type_decoder \<Rightarrow> nat \<Rightarrow> string list option \<Rightarrow> source_state \<Rightarrow> (string, source_state) result" where
  "read_csv_row decode row cols st =
     (case cols of
        None \<Rightarrow> Inl ''index out of range''
      | Some [] \<Rightarrow> Inl ''index out of range''
      | Some (t # rest) \<Rightarrow>
          (case decode t of
             Inl e \<Rightarrow> Inl (''invalid location in row '' @ itoa row @ '': '' @ e)
           | Inr (loc, q) \<Rightarrow>
               (if length (split_on (CHR ''.'') q) > 1
                then Inl (''invalid location in row '' @ itoa row @ '': invalid qualified identifier: '' @ q)
                else case rest of
                  [] \<Rightarrow> Inl ''index out of range''
                | code # _ \<Rightarrow> Inr (add_source loc code st))))"

fun csv_rows :: "type_decoder \<Rightarrow> nat \<Rightarrow> string list option \<Rightarrow> csv_read list \<Rightarrow> source_state \<Rightarrow> (string, source_state) result" where
  "csv_rows decode row previous [] st = Inr st"
| "csv_rows decode row previous ((cols, err) # rs) st =
     (if previous = None then csv_rows decode (Suc row) cols rs st
      else case read_csv_row decode row cols st of
        Inl e \<Rightarrow> Inl e
      | Inr st' \<Rightarrow> csv_rows decode (Suc row) cols rs st')"

definition read_csv :: "type_decoder \<Rightarrow> csv_read list \<Rightarrow> source_state \<Rightarrow> (string, source_state) result" where
  "read_csv decode rs st = csv_rows decode 1 None rs st"

definition source_state_of :: "'an linter \<Rightarrow> source_state" where
  "source_state_of ln = \<lparr>src_locations = [], src_names = [], src_codes = ln_codes ln\<rparr>"

definition analyze_sources ::
    "('p, 'prog, 'an) programs_library \<Rightarrow> 'an linter \<Rightarrow> (string, source_state) result \<Rightarrow>
     (string, 'an linter \<times> lint_event list) result" where
  "analyze_sources lib ln r =
     (case r of
        Inl e \<Rightarrow> Inl e
      | Inr st \<Rightarrow>
          lint_analyze lib \<lparr>cf_contract_names = src_names st, cf_contracts = None\<rparr> (src_locations st)
            (ln\<lparr>ln_codes := src_codes st\<rparr>))"

text \<open>The files of the host: reading a directory, a file, and a file as rows.\<close>

record lint_files =
  fs_directory :: "string \<Rightarrow> (string, dir_entry list) result"
  fs_file :: "string \<Rightarrow> (string, string) result"
  fs_rows :: "string \<Rightarrow> (string, csv_read list) result"

definition analyze_csv ::
    "('p, 'prog, 'an) programs_library \<Rightarrow> type_decoder \<Rightarrow> lint_files \<Rightarrow> string \<Rightarrow> 'an linter \<Rightarrow>
     (string, 'an linter \<times> lint_event list) result" where
  "analyze_csv lib decode fs path ln =
     (case fs_rows fs path of
        Inl e \<Rightarrow> Inl e
      | Inr rs \<Rightarrow> analyze_sources lib ln (read_csv decode rs (source_state_of ln)))"

definition analyze_directory ::
    "('p, 'prog, 'an) programs_library \<Rightarrow> type_decoder \<Rightarrow> lint_files \<Rightarrow> string \<Rightarrow> 'an linter \<Rightarrow>
     (string, 'an linter \<times> lint_event list) result" where
  "analyze_directory lib decode fs directory ln =
     (case fs_directory fs directory of
        Inl e \<Rightarrow> Inl e
      | Inr entries \<Rightarrow>
          analyze_sources lib ln
            (read_directory_entries decode (fs_file fs) directory entries (source_state_of ln)))"

section \<open>Accounts and transactions of a network (newFlowAccess, AnalyzeAccount, AnalyzeTransaction)\<close>

record flow_hosts =
  fh_mainnet :: string
  fh_testnet :: string
  fh_emulator :: string

text \<open>A client of the access node: the contracts of an account and the script of a transaction.\<close>

record access_client =
  ac_contracts :: "string \<Rightarrow> (string, (string, string) gomap) result"
  ac_script :: "string \<Rightarrow> (string, string) result"

definition network_map :: "flow_hosts \<Rightarrow> (string \<times> string) list" where
  "network_map h =
     [(''mainnet'', fh_mainnet h), (''testnet'', fh_testnet h), (''emulator'', fh_emulator h), ('''', fh_emulator h)]"

text \<open>The names of the network map in the error are sorted; the empty name is the first.\<close>

definition new_flow_access ::
    "flow_hosts \<Rightarrow> (string \<Rightarrow> (string, access_client) result) \<Rightarrow> string \<Rightarrow> (string, access_client) result" where
  "new_flow_access h connect network_name =
     (let network = (case map_of (network_map h) network_name of None \<Rightarrow> '''' | Some n \<Rightarrow> n)
      in if network = ''''
         then Inl (''missing network name. expected one of: '' @ str_join '','' ['''', ''emulator'', ''mainnet'', ''testnet''])
         else connect network)"

text \<open>The locations are in the order in which the map of contracts is ranged over.\<close>

definition analyze_account ::
    "('p, 'prog, 'an) programs_library \<Rightarrow> flow_hosts \<Rightarrow> (string \<Rightarrow> (string, access_client) result) \<Rightarrow>
     (string \<Rightarrow> string) \<Rightarrow> string \<Rightarrow> string \<Rightarrow> 'an linter \<Rightarrow> (string, 'an linter \<times> lint_event list) result" where
  "analyze_account lib h connect hex_to_address address network_name ln =
     (case new_flow_access h connect network_name of
        Inl e \<Rightarrow> Inl e
      | Inr access \<Rightarrow>
          (let a = hex_to_address address
           in case ac_contracts access a of
                Inl e \<Rightarrow> Inl e
              | Inr cts \<Rightarrow>
                  lint_analyze lib \<lparr>cf_contract_names = [], cf_contracts = Some (ac_contracts access)\<rparr>
                    (map (\<lambda>(name, code). Some (AddressLocation a name)) cts) ln))"

definition analyze_transaction ::
    "('p, 'prog, 'an) programs_library \<Rightarrow> flow_hosts \<Rightarrow> (string \<Rightarrow> (string, access_client) result) \<Rightarrow>
     (string \<Rightarrow> location) \<Rightarrow> string \<Rightarrow> string \<Rightarrow> 'an linter \<Rightarrow> (string, 'an linter \<times> lint_event list) result" where
  "analyze_transaction lib h connect transaction_location tid network_name ln =
     (case new_flow_access h connect network_name of
        Inl e \<Rightarrow> Inl e
      | Inr access \<Rightarrow>
          (case ac_script access tid of
             Inl e \<Rightarrow> Inl e
           | Inr script \<Rightarrow>
               (let loc = Some (transaction_location tid)
                in lint_analyze lib \<lparr>cf_contract_names = [], cf_contracts = Some (ac_contracts access)\<rparr> [loc]
                     (ln\<lparr>ln_codes := AList.update loc script (ln_codes ln)\<rparr>))))"

section \<open>The command (main.go)\<close>

record lint_flags =
  fl_csv :: string
  fl_directory :: string
  fl_address :: string
  fl_transaction :: string
  fl_network :: string
  fl_load_only :: bool
  fl_silent :: bool
  fl_analyzers :: "string list"

fun named_analyzers :: "(string, 'an) gomap \<Rightarrow> string list \<Rightarrow> (string, 'an list) result" where
  "named_analyzers table [] = Inr []"
| "named_analyzers table (x # xs) =
     (case map_of table x of
        None \<Rightarrow> Inl (''unknown analyzer: '' @ x)
      | Some a \<Rightarrow> map_sum id (\<lambda>as. a # as) (named_analyzers table xs))"

definition enabled_analyzers :: "lint_flags \<Rightarrow> (string, 'an) gomap \<Rightarrow> (string, 'an list) result" where
  "enabled_analyzers fl table =
     (if fl_load_only fl then Inr []
      else if length (fl_analyzers fl) > 0 then named_analyzers table (fl_analyzers fl)
      else Inr (map snd table))"

text \<open>
  \<open>Inr None\<close>: nothing to do. \<open>complexity\<close> is the complexity analyzer with the threshold of the flags;
  a name that is taken panics.
\<close>

definition lint_main ::
    "('p, 'prog, 'an) programs_library \<Rightarrow> type_decoder \<Rightarrow> lint_files \<Rightarrow> flow_hosts \<Rightarrow>
     (string \<Rightarrow> (string, access_client) result) \<Rightarrow> (string \<Rightarrow> string) \<Rightarrow> (string \<Rightarrow> location) \<Rightarrow> (string \<Rightarrow> string) \<Rightarrow>
     'an \<Rightarrow> (string, 'an) gomap \<Rightarrow> lint_flags \<Rightarrow> (string, ('an linter \<times> lint_event list) option) result" where
  "lint_main lib decode fs h connect hex_to_address transaction_location hex_to_id complexity table0 fl =
     (case register_analyzer ''cyclomatic-complexity'' complexity table0 of
        None \<Rightarrow> Inl ''analyzer already exists: cyclomatic-complexity''
      | Some table \<Rightarrow>
          (case enabled_analyzers fl table of
             Inl e \<Rightarrow> Inl e
           | Inr ans \<Rightarrow>
               (let ln = \<lparr>ln_analyzers = ans, ln_silent = fl_silent fl, ln_codes = []\<rparr>
                in if fl_csv fl \<noteq> '''' then map_sum id Some (analyze_csv lib decode fs (fl_csv fl) ln)
                   else if fl_directory fl \<noteq> ''''
                   then map_sum id Some (analyze_directory lib decode fs (fl_directory fl) ln)
                   else if fl_address fl \<noteq> ''''
                   then map_sum id Some
                          (analyze_account lib h connect hex_to_address (fl_address fl) (fl_network fl) ln)
                   else if fl_transaction fl \<noteq> ''''
                   then map_sum id Some
                          (analyze_transaction lib h connect transaction_location (hex_to_id (fl_transaction fl))
                             (fl_network fl) ln)
                   else Inr None)))"

section \<open>Directories and rows give the same programs\<close>

lemma path_ext_cdc: "path_ext (t @ ''.cdc'') = ''.cdc''"
  by (simp add: path_ext_def Let_def)

definition decodes :: "type_decoder \<Rightarrow> string \<Rightarrow> bool" where
  "decodes decode t \<longleftrightarrow> (\<exists>l q. decode t = Inr (Some l, q) \<and> CHR ''.'' \<notin> set q)"

lemma split_on_single: "c \<notin> set s \<Longrightarrow> length (split_on c s) = 1"
  by (induction s) (auto split: list.splits)

lemma directory_entry_is_row:
  assumes "decodes decode t" "file (go_join [directory, t @ ''.cdc'']) = Inr code"
  shows "read_directory_entry decode file directory \<lparr>de_name = t @ ''.cdc'', de_is_dir = False\<rparr> st =
    read_csv_row decode row (Some [t, code]) st"
  using assms by (auto simp: decodes_def read_directory_entry_def read_csv_row_def path_ext_cdc split_on_single)

text \<open>
  A directory with a file for every program, named by the program's type identifier, and a file of
  rows with a header and a row for every program give the linter the same locations, contract
  names and codes, if every identifier decodes to a location without a qualified name; whatever
  errors the reader of the rows had: they are not looked at.
\<close>

theorem directory_and_csv_agree:
  assumes "\<forall>(t, code) \<in> set sources. decodes decode t \<and> file (go_join [directory, t @ ''.cdc'']) = Inr code"
    and "length errs = length sources"
  shows "read_directory_entries decode file directory
      (map (\<lambda>(t, code). \<lparr>de_name = t @ ''.cdc'', de_is_dir = False\<rparr>) sources) st =
    read_csv decode ((Some header, e) # zip (map (\<lambda>(t, code). Some [t, code]) sources) errs) st"
proof -
  have "read_directory_entries decode file directory
      (map (\<lambda>(t, code). \<lparr>de_name = t @ ''.cdc'', de_is_dir = False\<rparr>) sources) st =
    csv_rows decode row (Some prev) (zip (map (\<lambda>(t, code). Some [t, code]) sources) errs) st" for row prev
    using assms
  proof (induction sources arbitrary: st row prev errs)
    case (Cons x xs)
    obtain t code where x: "x = (t, code)" by (cases x)
    obtain er ers where errs: "errs = er # ers" using Cons.prems(2) by (cases errs) auto
    have step: "read_directory_entry decode file directory \<lparr>de_name = t @ ''.cdc'', de_is_dir = False\<rparr> st =
        read_csv_row decode row (Some [t, code]) st"
      using Cons.prems(1) by (intro directory_entry_is_row) (auto simp: x)
    show ?case
      using Cons.IH [of ers] Cons.prems by (simp add: x errs step split: sum.split)
  qed simp
  then show ?thesis by (simp add: read_csv_def)
qed

definition demo_decode :: type_decoder where
  "demo_decode t =
     (if t = ''A.01.Foo'' then Inr (Some (AddressLocation ''01'' ''Foo''), ''Foo'') else Inl ''invalid type ID'')"

theorem directory_and_csv_agree_witness:
  "read_directory_entries demo_decode (\<lambda>p. Inr ''code'') ''dir''
      [\<lparr>de_name = ''A.01.Foo.cdc'', de_is_dir = False\<rparr>] \<lparr>src_locations = [], src_names = [], src_codes = []\<rparr> =
    Inr \<lparr>src_locations = [Some (AddressLocation ''01'' ''Foo'')], src_names = [(''01'', [''Foo''])],
      src_codes = [(Some (AddressLocation ''01'' ''Foo''), ''code'')]\<rparr>"
proof -
  have decode: "demo_decode ''A.01.Foo'' = Inr (Some (AddressLocation ''01'' ''Foo''), ''Foo'')"
    by (simp add: demo_decode_def)
  have hyp: "\<forall>(t, code) \<in> set [(''A.01.Foo'', ''code'')]. decodes demo_decode t \<and>
      (\<lambda>p. Inr ''code'') (go_join [''dir'', t @ ''.cdc'']) = Inr code"
    by (auto simp: decodes_def decode)
  from directory_and_csv_agree [OF hyp, where errs = "[Some ''ignored'']" and header = "[]" and e = None
    and st = "\<lparr>src_locations = [], src_names = [], src_codes = []\<rparr>"]
  show ?thesis
    by (simp add: read_csv_def read_csv_row_def decode add_source_def)
qed

section \<open>What silence hides\<close>

definition is_diagnostic_event :: "lint_event \<Rightarrow> bool" where
  "is_diagnostic_event ev \<longleftrightarrow> (case ev of PrintedDiagnostic _ _ \<Rightarrow> True | _ \<Rightarrow> False)"

definition is_error_event :: "lint_event \<Rightarrow> bool" where
  "is_error_event ev \<longleftrightarrow> (case ev of PrintedError _ _ \<Rightarrow> True | _ \<Rightarrow> False)"

lemma event_simps [simp]:
  "\<not> is_diagnostic_event (Logged s)" "\<not> is_diagnostic_event (PrintedError e l)" "is_diagnostic_event (PrintedDiagnostic d l')"
  "\<not> is_error_event (Logged s)" "is_error_event (PrintedError e l)" "\<not> is_error_event (PrintedDiagnostic d l')"
  by (simp_all add: is_diagnostic_event_def is_error_event_def)

lemma loading_prints_no_diagnostic:
  "load_locations lib cfg silent locs st = Inr (st', evs) \<Longrightarrow> filter is_diagnostic_event evs = []"
proof (induction lib cfg silent locs st arbitrary: st' evs rule: load_locations.induct)
  case (3 lib cfg silent l locs st)
  obtain err st1 where load: "pl_load lib cfg l st = (err, st1)" by (cases "pl_load lib cfg l st")
  show ?case
  proof (cases "load_locations lib cfg silent locs st1")
    case (Inl e)
    with "3.prems" load show ?thesis by (simp add: Let_def)
  next
    case (Inr r)
    obtain st2 es where r: "r = (st2, es)" by (cases r)
    have "filter is_diagnostic_event es = []"
      using "3.IH" [OF load [symmetric] refl] Inr r by blast
    with "3.prems" load Inr r show ?thesis by (auto simp: Let_def split: option.splits)
  qed
qed simp_all

lemma silence_loads_the_same:
  "(case load_locations lib cfg True locs st of Inl e \<Rightarrow> Inl e | Inr (st', evs) \<Rightarrow> Inr st') =
   (case load_locations lib cfg False locs st of Inl e \<Rightarrow> Inl e | Inr (st', evs) \<Rightarrow> Inr st')"
proof (induction lib cfg True locs st rule: load_locations.induct)
  case (3 lib cfg l locs st)
  obtain err st1 where load: "pl_load lib cfg l st = (err, st1)" by (cases "pl_load lib cfg l st")
  from "3.hyps" [OF load [symmetric] refl]
  show ?case using load by (auto simp: Let_def split: sum.splits prod.splits)
qed simp_all

lemma silence_prints_no_error:
  "load_locations lib cfg True locs st = Inr (st', evs) \<Longrightarrow> filter is_error_event evs = []"
proof (induction lib cfg True locs st arbitrary: st' evs rule: load_locations.induct)
  case (3 lib cfg l locs st)
  obtain err st1 where load: "pl_load lib cfg l st = (err, st1)" by (cases "pl_load lib cfg l st")
  show ?case
  proof (cases "load_locations lib cfg True locs st1")
    case (Inl e)
    with "3.prems" load show ?thesis by (simp add: Let_def)
  next
    case (Inr r)
    obtain st2 es where r: "r = (st2, es)" by (cases r)
    have "filter is_error_event es = []"
      using "3.hyps" [OF load [symmetric] refl] Inr r by blast
    with "3.prems" load Inr r show ?thesis by (auto simp: Let_def split: option.splits)
  qed
qed simp_all

lemma analysis_prints_no_error: "filter is_error_event (analyze_location lib ans p l) = []"
  by (auto simp: analyze_location_def filter_empty_conv split: option.splits)

text \<open>
  Silence, which the command documents as showing only whether parsing and checking succeed, hides
  the errors of programs that do not load and nothing else: the linter prints the same
  diagnostics and ends in the same codes, or in the same panic, as without it.
\<close>

theorem silence_keeps_diagnostics:
  "(case lint_analyze lib cfg locs (ln\<lparr>ln_silent := True\<rparr>) of
      Inl e \<Rightarrow> lint_analyze lib cfg locs (ln\<lparr>ln_silent := False\<rparr>) = Inl e
    | Inr (quiet, evs) \<Rightarrow>
        filter is_error_event evs = [] \<and>
        (\<exists>loud evs'. lint_analyze lib cfg locs (ln\<lparr>ln_silent := False\<rparr>) = Inr (loud, evs') \<and>
          ln_codes quiet = ln_codes loud \<and> filter is_diagnostic_event evs = filter is_diagnostic_event evs'))"
proof (cases "load_locations lib cfg True locs (pl_empty lib, ln_codes ln)")
  case (Inl e)
  with silence_loads_the_same [of lib cfg locs "(pl_empty lib, ln_codes ln)"]
  show ?thesis by (simp add: lint_analyze_def split: sum.splits prod.splits)
next
  case (Inr r)
  obtain p codes evs where r: "r = ((p, codes), evs)" by (cases r) auto
  with Inr silence_loads_the_same [of lib cfg locs "(pl_empty lib, ln_codes ln)"]
  obtain evs' where loud: "load_locations lib cfg False locs (pl_empty lib, ln_codes ln) = Inr ((p, codes), evs')"
    by (simp split: sum.splits prod.splits) 
  show ?thesis
    using Inr r loud silence_prints_no_error [of lib cfg locs "(pl_empty lib, ln_codes ln)" _ evs]
      loading_prints_no_diagnostic [of lib cfg True locs "(pl_empty lib, ln_codes ln)" _ evs]
      loading_prints_no_diagnostic [of lib cfg False locs "(pl_empty lib, ln_codes ln)" _ evs']
    by (simp add: lint_analyze_def analysis_prints_no_error filter_concat comp_def concat_eq_Nil_conv)
qed

end
