(* ===== verification/DocText.thy ===== *)
theory DocText
  imports Prelude "HOL-Library.Sublist"
begin

text \<open>
  How the documentation generator formats documentation strings (\<^verbatim>\<open>formatDoc\<close> and \<^verbatim>\<open>formatFuncDoc\<close> of
  src/docgen/doc_generator.go), with \<^verbatim>\<open>strings.TrimSpace\<close> on UTF-8 bytes.
\<close>

section \<open>Trimming\<close>

definition utf8 :: "nat list \<Rightarrow> string" where "utf8 = map char_of"

text \<open>The white space characters of Unicode, in UTF-8.\<close>

definition space_runes :: "string list" where
  "space_runes =
     map utf8
       ([[0x09], [0x0A], [0x0B], [0x0C], [0x0D], [0x20], [0xC2, 0x85], [0xC2, 0xA0], [0xE1, 0x9A, 0x80]] @
        map (\<lambda>n. [0xE2, 0x80, n]) [0x80..<0x8B] @
        [[0xE2, 0x80, 0xA8], [0xE2, 0x80, 0xA9], [0xE2, 0x80, 0xAF], [0xE2, 0x81, 0x9F], [0xE3, 0x80, 0x80]])"

lemma space_rune_nonempty: "r \<in> set space_runes \<Longrightarrow> r \<noteq> []"
  by (auto simp: space_runes_def utf8_def)

lemma find_space_length: "find P space_runes = Some r \<Longrightarrow> 0 < length r"
  by (auto simp: find_Some_iff dest!: nth_mem dest: space_rune_nonempty)

function trim_left :: "string \<Rightarrow> string" where
  "trim_left s =
     (case find (\<lambda>r. has_prefix s r) space_runes of
        None \<Rightarrow> s
      | Some r \<Rightarrow> trim_left (drop (length r) s))"
  by pat_completeness auto
termination
proof (relation "measure length", simp)
  fix s r
  assume r: "find (\<lambda>r. has_prefix s r) space_runes = Some r"
  then have "has_prefix s r" by (auto simp: find_Some_iff)
  then show "(drop (length r) s, s) \<in> measure length"
    using find_space_length [OF r] by (auto simp: has_prefix_iff)
qed

function trim_right :: "string \<Rightarrow> string" where
  "trim_right s =
     (case find (\<lambda>r. has_suffix s r) space_runes of
        None \<Rightarrow> s
      | Some r \<Rightarrow> trim_right (take (length s - length r) s))"
  by pat_completeness auto
termination
proof (relation "measure length", simp)
  fix s r
  assume r: "find (\<lambda>r. has_suffix s r) space_runes = Some r"
  then have "has_suffix s r" by (auto simp: find_Some_iff)
  then show "(take (length s - length r) s, s) \<in> measure length"
    using find_space_length [OF r] by (auto simp: has_suffix_iff)
qed

declare trim_left.simps [simp del] trim_right.simps [simp del]

definition trim_space :: "string \<Rightarrow> string" where "trim_space s = trim_right (trim_left s)"

text \<open>No white space in front and behind.\<close>

definition space_free_start :: "string \<Rightarrow> bool" where
  "space_free_start s \<longleftrightarrow> (\<forall>r \<in> set space_runes. \<not> prefix r s)"

definition space_free_end :: "string \<Rightarrow> bool" where
  "space_free_end s \<longleftrightarrow> (\<forall>r \<in> set space_runes. \<not> suffix r s)"

lemma has_prefix_prefix: "has_prefix s r \<longleftrightarrow> prefix r s"
  by (auto simp: has_prefix_iff prefix_def)

lemma has_suffix_suffix: "has_suffix s r \<longleftrightarrow> suffix r s"
  by (auto simp: has_suffix_iff suffix_def)

lemma trim_left_free: "space_free_start (trim_left s)"
proof (induction s rule: trim_left.induct)
  case (1 s)
  show ?case
  proof (cases "find (\<lambda>r. has_prefix s r) space_runes")
    case None
    then have "trim_left s = s" by (simp add: trim_left.simps [of s])
    with None show ?thesis by (auto simp: space_free_start_def find_None_iff has_prefix_prefix)
  next
    case (Some r)
    with 1 show ?thesis by (simp add: trim_left.simps [of s])
  qed
qed

lemma trim_right_free: "space_free_end (trim_right s)"
proof (induction s rule: trim_right.induct)
  case (1 s)
  show ?case
  proof (cases "find (\<lambda>r. has_suffix s r) space_runes")
    case None
    then have "trim_right s = s" by (simp add: trim_right.simps [of s])
    with None show ?thesis by (auto simp: space_free_end_def find_None_iff has_suffix_suffix)
  next
    case (Some r)
    with 1 show ?thesis by (simp add: trim_right.simps [of s])
  qed
qed

lemma trim_right_prefix: "prefix (trim_right s) s"
proof (induction s rule: trim_right.induct)
  case (1 s)
  show ?case
  proof (cases "find (\<lambda>r. has_suffix s r) space_runes")
    case (Some r)
    with 1 have "prefix (trim_right s) (take (length s - length r) s)" by (simp add: trim_right.simps [of s])
    also have "prefix (take (length s - length r) s) s" by (rule take_is_prefix)
    finally show ?thesis .
  qed (simp add: trim_right.simps [of s])
qed

lemma trim_left_suffix: "suffix (trim_left s) s"
proof (induction s rule: trim_left.induct)
  case (1 s)
  show ?case
  proof (cases "find (\<lambda>r. has_prefix s r) space_runes")
    case (Some r)
    with 1 have "suffix (trim_left s) (drop (length r) s)" by (simp add: trim_left.simps [of s])
    also have "suffix (drop (length r) s) s" by (rule suffix_drop)
    finally show ?thesis .
  qed (simp add: trim_left.simps [of s])
qed

lemma space_free_start_prefix: "space_free_start s \<Longrightarrow> prefix t s \<Longrightarrow> space_free_start t"
  by (meson space_free_start_def prefix_order.trans)

lemma trim_space_free [simp]: "space_free_start (trim_space s)" "space_free_end (trim_space s)"
  using space_free_start_prefix [OF trim_left_free trim_right_prefix] trim_right_free
  by (simp_all add: trim_space_def)

lemma trim_left_id: "space_free_start s \<Longrightarrow> trim_left s = s"
proof -
  assume "space_free_start s"
  then have "find (\<lambda>r. has_prefix s r) space_runes = None"
    by (simp add: find_None_iff space_free_start_def has_prefix_prefix)
  then show ?thesis by (simp add: trim_left.simps)
qed

lemma trim_right_id: "space_free_end s \<Longrightarrow> trim_right s = s"
proof -
  assume "space_free_end s"
  then have "find (\<lambda>r. has_suffix s r) space_runes = None"
    by (simp add: find_None_iff space_free_end_def has_suffix_suffix)
  then show ?thesis by (simp add: trim_right.simps)
qed

lemma trim_space_id: "space_free_start s \<Longrightarrow> space_free_end s \<Longrightarrow> trim_space s = s"
  by (simp add: trim_space_def trim_left_id trim_right_id)

lemma trim_space_subset: "set (trim_space s) \<subseteq> set s"
  using set_mono_prefix [OF trim_right_prefix] set_mono_suffix [OF trim_left_suffix]
  unfolding trim_space_def by blast

section \<open>Formatting (formatDoc, formatFuncDoc)\<close>

definition newline_char :: char where "newline_char = CHR 0x0A"

definition format_doc :: "string \<Rightarrow> string" where
  "format_doc doc = str_join [newline_char] (map trim_space (split_on newline_char (trim_space doc)))"

definition param_prefix :: string where "param_prefix = ''@param ''"
definition return_prefix :: string where "return_prefix = ''@return ''"

text \<open>The loop's variables: the builder, the parameters, whether the previous line was empty, lines, return.\<close>

record func_doc =
  fd_builder :: string
  fd_params :: "string list"
  fd_empty :: bool
  fd_lines :: nat
  fd_return :: string

definition index_of :: "char \<Rightarrow> string \<Rightarrow> nat option" where
  "index_of c s = str_index s [c]"

text \<open>A parameter's line, or \<open>None\<close> for a line that is treated as text.\<close>

definition format_param :: "string \<Rightarrow> string option" where
  "format_param line =
     (let info = drop (length param_prefix) line
      in case index_of (CHR '':'') info of
           None \<Rightarrow> None
         | Some colon \<Rightarrow>
             (let name = trim_space (take colon info); doc = trim_space (drop (colon + 1) info)
              in if length name > 0
                 then Some (if length doc > 0 then ''  - '' @ name @ '' : _'' @ doc @ ''_'' else ''  - '' @ name)
                 else None))"

definition text_line :: "string \<Rightarrow> func_doc \<Rightarrow> func_doc" where
  "text_line line fd =
     (let empty = (length line = 0)
      in if fd_empty fd \<and> empty then fd
         else fd\<lparr>fd_builder := fd_builder fd @ (if fd_lines fd > 0 then [newline_char] else []) @ line,
                 fd_empty := empty, fd_lines := fd_lines fd + 1\<rparr>)"

definition func_doc_line :: "bool \<Rightarrow> string \<Rightarrow> func_doc \<Rightarrow> func_doc" where
  "func_doc_line gen_return raw fd =
     (let line = trim_space raw
      in if has_prefix line param_prefix
         then (case format_param line of
                 Some p \<Rightarrow> fd\<lparr>fd_params := fd_params fd @ [p]\<rparr>
               | None \<Rightarrow> text_line line fd)
         else if gen_return \<and> has_prefix line return_prefix then fd\<lparr>fd_return := line\<rparr>
         else text_line line fd)"

definition print_params :: "func_doc \<Rightarrow> func_doc" where
  "print_params fd =
     (if fd_params fd = [] then fd
      else fd\<lparr>fd_builder := fd_builder fd @ (if \<not> fd_empty fd then [newline_char] else []) @ [newline_char] @ ''Parameters:'' @
                 concat (map (\<lambda>p. newline_char # p) (fd_params fd)),
              fd_empty := False\<rparr>)"

definition print_return :: "func_doc \<Rightarrow> string" where
  "print_return fd =
     (if length (fd_return fd) > 0
      then fd_builder fd @ (if \<not> fd_empty fd then [newline_char] else []) @ [newline_char] @
             ''Returns: '' @ trim_space (drop (length return_prefix) (fd_return fd))
      else fd_builder fd)"

definition func_doc_lines :: "bool \<Rightarrow> string list \<Rightarrow> func_doc" where
  "func_doc_lines gen_return ls =
     fold (func_doc_line gen_return) ls
       \<lparr>fd_builder = '''', fd_params = [], fd_empty = False, fd_lines = 0, fd_return = ''''\<rparr>"

definition format_func_doc :: "string \<Rightarrow> bool \<Rightarrow> string" where
  "format_func_doc doc gen_return =
     print_return (print_params (func_doc_lines gen_return (split_on newline_char (trim_space doc))))"

section \<open>Formatting twice is formatting once\<close>

lemma newline_is_space: "[newline_char] \<in> set space_runes"
  by code_simp

lemma newline_only_rune: "\<forall>r \<in> set space_runes. newline_char \<in> set r \<longrightarrow> r = [newline_char]"
  by code_simp

lemma split_join:
  "ls \<noteq> [] \<Longrightarrow> \<forall>l \<in> set ls. c \<notin> set l \<Longrightarrow> split_on c (str_join [c] ls) = ls"
proof (induction ls)
  case (Cons l ls)
  have free: "split_on c l = [l]" if "c \<notin> set l" for l using that by (induction l) auto
  have step: "split_on c (l @ c # s) = l # split_on c s" if "c \<notin> set l" for l s using that by (induction l) auto
  show ?case
    using Cons by (cases ls) (auto simp: free step)
qed simp

lemma rune_within_line:
  assumes "r \<in> set space_runes" "prefix r (t @ newline_char # rest)" "t \<noteq> []"
  shows "prefix r t"
proof (rule ccontr)
  assume no: "\<not> prefix r t"
  with assms(2) obtain us where us: "r = t @ us" "prefix us (newline_char # rest)"
    by (auto simp: prefix_append)
  with no have "newline_char \<in> set r" by (cases us) auto
  with newline_only_rune assms(1) have "r = [newline_char]" by blast
  with us(1) assms(3) no show False by (auto simp: Cons_eq_append_conv)
qed

lemma rune_within_last_line:
  assumes "r \<in> set space_runes" "suffix r (rest @ newline_char # t)" "t \<noteq> []"
  shows "suffix r t"
proof (rule ccontr)
  assume no: "\<not> suffix r t"
  with assms(2) obtain us where us: "r = us @ t" "suffix us (rest @ [newline_char])"
    using suffix_append [of r "rest @ [newline_char]" t] by auto
  with no have "newline_char \<in> set r" by (cases us rule: rev_cases) (auto simp: suffix_def)
  with newline_only_rune assms(1) have "r = [newline_char]" by blast
  with us(1) assms(3) no show False by (auto simp: Cons_eq_append_conv)
qed

lemma join_free_start:
  assumes "ls \<noteq> []" "hd ls \<noteq> []" "space_free_start (hd ls)"
  shows "space_free_start (str_join [newline_char] ls)"
proof (cases ls rule: list.exhaust)
  case (Cons l ks)
  show ?thesis
  proof (cases ks)
    case Nil
    with Cons assms show ?thesis by simp
  next
    case (Cons k ks')
    then have "str_join [newline_char] ls = l @ newline_char # str_join [newline_char] ks"
      using \<open>ls = l # ks\<close> by simp
    moreover have "\<not> prefix r (l @ newline_char # rest)" if "r \<in> set space_runes" for r rest
      using rune_within_line [OF that] that assms(2,3) \<open>ls = l # ks\<close> by (auto simp: space_free_start_def)
    ultimately show ?thesis using \<open>ls = l # ks\<close> by (simp add: space_free_start_def)
  qed
qed (use assms in simp)

lemma join_free_end:
  "ls \<noteq> [] \<Longrightarrow> last ls \<noteq> [] \<Longrightarrow> space_free_end (last ls) \<Longrightarrow> space_free_end (str_join [newline_char] ls)"
proof (induction ls)
  case (Cons l ks)
  show ?case
  proof (cases ks)
    case Nil
    with Cons show ?thesis by simp
  next
    case (Cons k ks')
    let ?s = "str_join [newline_char] ks"
    have "?s \<noteq> []"
    proof
      assume s: "?s = []"
      then have "ks' = []" "k = []" using Cons by (cases ks'; simp)+
      then show False using Cons.prems Cons by simp
    qed
    moreover have "str_join [newline_char] (l # ks) = l @ newline_char # ?s" using Cons by simp
    moreover have "space_free_end ?s" using Cons.IH Cons.prems Cons by simp
    ultimately show ?thesis
      unfolding space_free_end_def using rune_within_last_line by metis
  qed
qed simp

lemma join_first: "str_join [c] (l # ks) = l \<or> (\<exists>r. str_join [c] (l # ks) = l @ c # r)"
  by (cases ks) auto

lemma join_last: "str_join [c] (ks @ [l]) = l \<or> (\<exists>r. str_join [c] (ks @ [l]) = r @ c # l)"
  by (cases "ks = []") (auto simp: str_join_snoc)

lemma space_free_end_suffix: "space_free_end s \<Longrightarrow> suffix t s \<Longrightarrow> space_free_end t"
  by (meson space_free_end_def suffix_order.trans)

lemma trim_right_empty: "trim_right s = [] \<Longrightarrow> s = [] \<or> \<not> space_free_start s"
proof (induction s rule: trim_right.induct)
  case (1 s)
  show ?case
  proof (cases "find (\<lambda>r. has_suffix s r) space_runes")
    case None
    with "1.prems" show ?thesis by (simp add: trim_right.simps [of s])
  next
    case (Some r)
    then have r: "r \<in> set space_runes" "suffix r s" by (auto simp: find_Some_iff has_suffix_suffix)
    then obtain h where h: "s = h @ r" by (auto simp: suffix_def)
    have "trim_right s = trim_right h" using Some h trim_right.simps [of s] by simp
    with "1.IH" [OF Some] "1.prems" h have "h = [] \<or> \<not> space_free_start h" by simp
    moreover have "prefix h s" using h by (simp add: prefix_def)
    ultimately have "space_free_start s \<Longrightarrow> h = []" using space_free_start_prefix by blast
    then show ?thesis using r h by (auto simp: space_free_start_def)
  qed
qed

lemma trim_left_empty: "trim_left s = [] \<Longrightarrow> s = [] \<or> \<not> space_free_end s"
proof (induction s rule: trim_left.induct)
  case (1 s)
  show ?case
  proof (cases "find (\<lambda>r. has_prefix s r) space_runes")
    case None
    with "1.prems" show ?thesis by (simp add: trim_left.simps [of s])
  next
    case (Some r)
    then have r: "r \<in> set space_runes" "prefix r s" by (auto simp: find_Some_iff has_prefix_prefix)
    then obtain h where h: "s = r @ h" by (auto simp: prefix_def)
    have "trim_left s = trim_left h" using Some h trim_left.simps [of s] by simp
    with "1.IH" [OF Some] "1.prems" h have "h = [] \<or> \<not> space_free_end h" by simp
    moreover have "suffix h s" using h by (simp add: suffix_def)
    ultimately have "space_free_end s \<Longrightarrow> h = []" using space_free_end_suffix by blast
    then show ?thesis using r h by (auto simp: space_free_end_def)
  qed
qed

lemma trimmed_line_start: "space_free_start l \<Longrightarrow> l \<noteq> [] \<Longrightarrow> trim_space l \<noteq> []"
  using trim_right_empty by (auto simp: trim_space_def trim_left_id)

lemma trimmed_line_end:
  assumes "space_free_end l" "l \<noteq> []"
  shows "trim_space l \<noteq> []"
proof -
  have "space_free_end (trim_left l)" using assms(1) trim_left_suffix by (rule space_free_end_suffix)
  then have "trim_space l = trim_left l" by (simp add: trim_space_def trim_right_id)
  with assms trim_left_empty [of l] show ?thesis by auto
qed

lemma trimmed_lines_free:
  assumes "space_free_start d" "space_free_end d" "d \<noteq> []"
  shows "space_free_start (str_join [newline_char] (map trim_space (split_on newline_char d))) \<and>
    space_free_end (str_join [newline_char] (map trim_space (split_on newline_char d)))"
proof -
  let ?ls = "split_on newline_char d"
  have d: "d = str_join [newline_char] ?ls" by (simp add: str_join_split_on)
  obtain l ks where l: "?ls = l # ks" by (cases ?ls) auto
  obtain js m where m: "?ls = js @ [m]" by (cases ?ls rule: rev_cases) auto
  have "prefix l d" using d join_first [of newline_char l ks] unfolding l by (auto simp: prefix_def)
  moreover have "l \<noteq> []"
  proof
    assume "l = []"
    with d assms(3) join_first [of newline_char l ks] have "prefix [newline_char] d" unfolding l by auto
    with assms(1) newline_is_space show False by (auto simp: space_free_start_def)
  qed
  ultimately have first: "trim_space l \<noteq> []"
    using assms(1) space_free_start_prefix trimmed_line_start by blast
  have "suffix m d" using d join_last [of newline_char js m] unfolding m by (auto simp: suffix_def)
  moreover have "m \<noteq> []"
  proof
    assume "m = []"
    with d assms(3) join_last [of newline_char js m] have "suffix [newline_char] d" unfolding m by (auto simp: suffix_def)
    with assms(2) newline_is_space show False by (auto simp: space_free_end_def)
  qed
  ultimately have final: "trim_space m \<noteq> []"
    using assms(2) space_free_end_suffix trimmed_line_end by blast
  show ?thesis
    using join_free_start [of "map trim_space ?ls"] join_free_end [of "map trim_space ?ls"] first final
    by (simp add: l [symmetric] hd_map last_map) (metis l m list.sel(1) last_snoc list.distinct(1))
qed

lemma trim_lines_id: "map trim_space (map trim_space ls) = map trim_space ls"
  by (simp add: trim_space_id)

lemma trimmed_lines_have_no_newline: "l \<in> set (map trim_space (split_on newline_char d)) \<Longrightarrow> newline_char \<notin> set l"
  using trim_space_subset split_on_no_sep by fastforce

text \<open>
  Formatting a documentation string is idempotent: the formatted text has no white space around it
  or around a line, so formatting it again changes nothing.
\<close>

theorem format_doc_idempotent: "format_doc (format_doc doc) = format_doc doc"
proof (cases "trim_space doc = []")
  case True
  have nil: "trim_space [] = []" using space_rune_nonempty by (intro trim_space_id) (auto simp: space_free_start_def space_free_end_def)
  show ?thesis by (simp add: format_doc_def True nil)
next
  case False
  let ?ls = "map trim_space (split_on newline_char (trim_space doc))"
  have "trim_space (str_join [newline_char] ?ls) = str_join [newline_char] ?ls"
    using trimmed_lines_free [OF trim_space_free False] by (intro trim_space_id) auto
  moreover have "split_on newline_char (str_join [newline_char] ?ls) = ?ls"
    using trimmed_lines_have_no_newline by (intro split_join) auto
  ultimately show ?thesis by (simp only: format_doc_def trim_lines_id)
qed

section \<open>Never two blank lines\<close>

text \<open>The number of line breaks at the end, and whether no more than two stand together.\<close>

fun breaks_after :: "nat \<Rightarrow> string \<Rightarrow> nat" where
  "breaks_after n [] = n"
| "breaks_after n (c # s) = (if c = newline_char then breaks_after (Suc n) s else breaks_after 0 s)"

fun breaks_ok :: "nat \<Rightarrow> string \<Rightarrow> bool" where
  "breaks_ok n [] = True"
| "breaks_ok n (c # s) = (if c = newline_char then n < 2 \<and> breaks_ok (Suc n) s else breaks_ok 0 s)"

lemma breaks_append [simp]:
  "breaks_after n (s @ t) = breaks_after (breaks_after n s) t"
  "breaks_ok n (s @ t) \<longleftrightarrow> breaks_ok n s \<and> breaks_ok (breaks_after n s) t"
  by (induction n s rule: breaks_ok.induct) auto

lemma breaks_line: "newline_char \<notin> set l \<Longrightarrow> breaks_ok n l \<and> breaks_after n l = (if l = [] then n else 0)"
  by (induction l arbitrary: n) auto

lemma breaks_ok_no_triple: "breaks_ok 0 s \<Longrightarrow> s \<noteq> a @ [newline_char, newline_char, newline_char] @ b"
  by auto

definition func_doc_inv :: "func_doc \<Rightarrow> bool" where
  "func_doc_inv fd \<longleftrightarrow>
     breaks_ok 0 (fd_builder fd) \<and> breaks_after 0 (fd_builder fd) \<le> (if fd_empty fd then 1 else 0) \<and>
     (\<forall>p \<in> set (fd_params fd). p \<noteq> [] \<and> newline_char \<notin> set p) \<and> newline_char \<notin> set (fd_return fd)"

lemma text_line_inv:
  assumes "func_doc_inv fd" "newline_char \<notin> set line"
  shows "func_doc_inv (text_line line fd)"
  using assms breaks_line [OF assms(2)]
  by (auto simp: func_doc_inv_def text_line_def Let_def le_Suc_eq split: if_splits)

lemma format_param_line: "format_param line = Some p \<Longrightarrow> newline_char \<notin> set line \<Longrightarrow> p \<noteq> [] \<and> newline_char \<notin> set p"
proof -
  assume p: "format_param line = Some p" and free: "newline_char \<notin> set line"
  have "newline_char \<notin> set (trim_space (take n (drop m line)))" "newline_char \<notin> set (trim_space (drop n line))" for n m
    using free trim_space_subset [of "take n (drop m line)"] trim_space_subset [of "drop n line"]
    by (auto dest: in_set_takeD in_set_dropD)
  then show ?thesis
    using p by (auto simp: format_param_def Let_def newline_char_def split: option.splits if_splits)
qed

lemma func_doc_line_inv:
  assumes "func_doc_inv fd" "newline_char \<notin> set raw"
  shows "func_doc_inv (func_doc_line gen_return raw fd)"
proof -
  have line: "newline_char \<notin> set (trim_space raw)" using assms(2) trim_space_subset by blast
  show ?thesis
    using assms(1) text_line_inv [OF assms(1) line] format_param_line [OF _ line] line
    by (auto simp: func_doc_line_def Let_def func_doc_inv_def split: option.split)
qed

lemma func_doc_lines_inv: "\<forall>l \<in> set ls. newline_char \<notin> set l \<Longrightarrow> func_doc_inv (func_doc_lines gen_return ls)"
proof -
  have "func_doc_inv fd \<Longrightarrow> \<forall>l \<in> set ls. newline_char \<notin> set l \<Longrightarrow> func_doc_inv (fold (func_doc_line gen_return) ls fd)" for fd
    by (induction ls arbitrary: fd) (simp_all add: func_doc_line_inv)
  moreover have "func_doc_inv \<lparr>fd_builder = [], fd_params = [], fd_empty = False, fd_lines = 0, fd_return = []\<rparr>"
    by (simp add: func_doc_inv_def)
  ultimately show "\<forall>l \<in> set ls. newline_char \<notin> set l \<Longrightarrow> ?thesis"
    by (simp add: func_doc_lines_def)
qed

lemma params_breaks:
  "\<forall>p \<in> set ps. p \<noteq> [] \<and> newline_char \<notin> set p \<Longrightarrow>
   breaks_ok 0 (concat (map (\<lambda>p. newline_char # p) ps)) \<and> breaks_after 0 (concat (map (\<lambda>p. newline_char # p) ps)) = 0"
  by (induction ps) (auto simp: breaks_line)

lemma print_params_inv: "func_doc_inv fd \<Longrightarrow> func_doc_inv (print_params fd)"
  using params_breaks [of "fd_params fd"]
  by (auto simp: func_doc_inv_def print_params_def newline_char_def le_Suc_eq)

lemma print_return_breaks: "func_doc_inv fd \<Longrightarrow> breaks_ok 0 (print_return fd)"
proof -
  assume inv: "func_doc_inv fd"
  have "newline_char \<notin> set (trim_space (drop (length return_prefix) (fd_return fd)))"
    using inv trim_space_subset by (auto simp: func_doc_inv_def dest: in_set_dropD)
  then show ?thesis
    using inv breaks_line by (auto simp: func_doc_inv_def print_return_def newline_char_def le_Suc_eq)
qed

text \<open>
  However the documentation of a function is laid out, its formatted text never has two blank
  lines in a row, neither in the text nor before the parameters and the result.
\<close>

theorem func_doc_no_double_blank:
  "format_func_doc doc gen_return \<noteq> a @ [newline_char, newline_char, newline_char] @ b"
proof -
  have "\<forall>l \<in> set (split_on newline_char (trim_space doc)). newline_char \<notin> set l" using split_on_no_sep by blast
  then show ?thesis
    unfolding format_func_doc_def
    by (intro breaks_ok_no_triple print_return_breaks print_params_inv func_doc_lines_inv)
qed

end
