(* ===== verification/DocGen.thy ===== *)
theory DocGen
  imports DocText GoPaths
begin

text \<open>
  The documentation generator (src/docgen/doc_generator.go): the pages for the declarations of a
  program, their names and links, and the two kinds of output. The parser and the rendering of
  the templates are parameters: a rendered page is what was written of it and perhaps an error. What the
  templates link to is modelled after the template files (src/docgen/templates/markdown).
\<close>

section \<open>Declarations\<close>

datatype doc_kind =
    DocStructure | DocResource | DocContract | DocEnum | DocEvent | DocField | DocFunction | DocOtherKind

datatype doc_class = ClassComposite | ClassInterface | ClassOther

text \<open>The keywords of a declaration: of its access, of its kind, and of a field's variable kind.\<close>

record doc_info =
  di_name :: string
  di_class :: doc_class
  di_kind :: doc_kind
  di_access_keyword :: string
  di_kind_keywords :: string
  di_variable_keyword :: string

datatype doc_decl = DocDecl (doc_info: doc_info) (doc_members: "doc_decl list")

record doc_program =
  dp_sole_contract :: bool
  dp_declarations :: "doc_decl list"

section \<open>Functions of the templates (ASTDeclarationTemplateFunctions)\<close>

definition decl_kind_of :: "doc_decl \<Rightarrow> doc_kind" where "decl_kind_of d = di_kind (doc_info d)"

definition has_conformance :: "doc_decl \<Rightarrow> bool" where
  "has_conformance d \<longleftrightarrow> decl_kind_of d \<in> {DocStructure, DocResource, DocContract, DocEnum}"

definition is_enum :: "doc_decl \<Rightarrow> bool" where "is_enum d \<longleftrightarrow> decl_kind_of d = DocEnum"

definition decl_keywords :: "doc_decl \<Rightarrow> string" where
  "decl_keywords d =
     (let access = di_access_keyword (doc_info d);
          kind = (if decl_kind_of d = DocField then di_variable_keyword (doc_info d) else di_kind_keywords (doc_info d))
      in str_join '' '' ((if length access > 0 then [access] else []) @ (if length kind > 0 then [kind] else [])))"

text \<open>\<open>title\<close> is the English title case of the text library.\<close>

definition decl_type_title :: "(string \<Rightarrow> string) \<Rightarrow> doc_decl \<Rightarrow> string" where
  "decl_type_title title d = title (di_kind_keywords (doc_info d))"

definition gen_initializer :: "doc_decl \<Rightarrow> bool" where
  "gen_initializer d \<longleftrightarrow> decl_kind_of d \<in> {DocStructure, DocResource}"

definition doc_enums :: "doc_decl list \<Rightarrow> doc_decl list" where
  "doc_enums ds = filter (\<lambda>d. decl_kind_of d = DocEnum) ds"

definition structs_and_resources :: "doc_decl list \<Rightarrow> doc_decl list" where
  "structs_and_resources ds = filter (\<lambda>d. decl_kind_of d \<in> {DocStructure, DocResource}) ds"

definition doc_events :: "doc_decl list \<Rightarrow> doc_decl list" where
  "doc_events ds = filter (\<lambda>d. decl_kind_of d = DocEvent) ds"

text \<open>The declarations a page with these members links to: its interfaces, structs and resources.\<close>

definition linked_declarations :: "doc_decl list \<Rightarrow> doc_decl list" where
  "linked_declarations ds = filter (\<lambda>d. di_class (doc_info d) = ClassInterface) ds @ structs_and_resources ds"

section \<open>The generator\<close>

definition md_file_ext :: string where "md_file_ext = ''.md''"

text \<open>\<open>None\<close>: the files are written to the output directory.\<close>

record doc_generator =
  dg_type_names :: "string list"
  dg_output_dir :: string
  dg_files :: "(string, string) gomap option"

definition new_doc_generator :: doc_generator where
  "new_doc_generator = \<lparr>dg_type_names = [], dg_output_dir = '''', dg_files = None\<rparr>"

text \<open>The generator and the files on disk.\<close>

record doc_state =
  ds_gen :: doc_generator
  ds_disk :: "(string, string) gomap"

definition current_file_name :: "doc_generator \<Rightarrow> string" where
  "current_file_name gen = str_join ''_'' (dg_type_names gen)"

text \<open>The function that the templates use for links.\<close>

definition doc_file_name :: "doc_generator \<Rightarrow> doc_decl \<Rightarrow> string" where
  "doc_file_name gen d =
     (let p = current_file_name gen
      in if length p = 0 then di_name (doc_info d) @ md_file_ext
         else p @ ''_'' @ di_name (doc_info d) @ md_file_ext)"

text \<open>
  What is not the repository's code: creating a file, which may fail, and the two templates, with the
  links as an argument.
\<close>

record doc_env =
  dn_create_error :: "string \<Rightarrow> string option"
  dn_entry_page :: "(doc_decl \<Rightarrow> string) \<Rightarrow> doc_program \<Rightarrow> string \<times> string option"
  dn_composite_page :: "(doc_decl \<Rightarrow> string) \<Rightarrow> doc_decl \<Rightarrow> string \<times> string option"

text \<open>
  A writer: creating a file on disk truncates it; a writer in memory holds a buffer that it stores when
  it is closed, which the deferred calls do after everything else.
\<close>

definition disk_path :: "doc_generator \<Rightarrow> string \<Rightarrow> string" where
  "disk_path gen name = go_join [dg_output_dir gen, name]"

definition file_writer :: "doc_env \<Rightarrow> string \<Rightarrow> doc_state \<Rightarrow> (string, doc_state) result" where
  "file_writer env name st =
     (case dg_files (ds_gen st) of
        Some fs \<Rightarrow> Inr st
      | None \<Rightarrow>
          (let p = disk_path (ds_gen st) name
           in case dn_create_error env p of
                Some e \<Rightarrow> Inl e
              | None \<Rightarrow> Inr (st\<lparr>ds_disk := AList.update p '''' (ds_disk st)\<rparr>)))"

definition write_page :: "string \<Rightarrow> string \<Rightarrow> doc_state \<Rightarrow> doc_state" where
  "write_page name content st =
     (case dg_files (ds_gen st) of
        Some fs \<Rightarrow> st
      | None \<Rightarrow> st\<lparr>ds_disk := AList.update (disk_path (ds_gen st) name) content (ds_disk st)\<rparr>)"

definition close_page :: "string \<Rightarrow> string \<Rightarrow> doc_state \<Rightarrow> doc_state" where
  "close_page name content st =
     (case dg_files (ds_gen st) of
        Some fs \<Rightarrow> st\<lparr>ds_gen := (ds_gen st)\<lparr>dg_files := Some (AList.update name content fs)\<rparr>\<rparr>
      | None \<Rightarrow> st)"

definition push_name :: "string \<Rightarrow> doc_state \<Rightarrow> doc_state" where
  "push_name n st = st\<lparr>ds_gen := (ds_gen st)\<lparr>dg_type_names := dg_type_names (ds_gen st) @ [n]\<rparr>\<rparr>"

definition pop_name :: "doc_state \<Rightarrow> doc_state" where
  "pop_name st = st\<lparr>ds_gen := (ds_gen st)\<lparr>dg_type_names := butlast (dg_type_names (ds_gen st))\<rparr>\<rparr>"

definition has_page :: "doc_decl \<Rightarrow> bool" where
  "has_page d \<longleftrightarrow>
     (case di_class (doc_info d) of
        ClassComposite \<Rightarrow> decl_kind_of d \<noteq> DocEvent
      | ClassInterface \<Rightarrow> True
      | ClassOther \<Rightarrow> False)"

text \<open>An error of a call and the state after it, with the deferred calls done.\<close>

fun gen_declaration :: "doc_env \<Rightarrow> doc_decl \<Rightarrow> doc_state \<Rightarrow> string option \<times> doc_state"
and gen_declarations :: "doc_env \<Rightarrow> doc_decl list \<Rightarrow> doc_state \<Rightarrow> string option \<times> doc_state" where
  "gen_declaration env (DocDecl i ms) st =
     (if \<not> has_page (DocDecl i ms) then (None, st)
      else let st1 = push_name (di_name i) st;
               name = current_file_name (ds_gen st1) @ md_file_ext
           in case file_writer env name st1 of
                Inl e \<Rightarrow> (Some e, pop_name st1)
              | Inr st2 \<Rightarrow>
                  (let (content, err) = dn_composite_page env (doc_file_name (ds_gen st2)) (DocDecl i ms);
                       st3 = write_page name content st2;
                       (err', st4) = (case err of None \<Rightarrow> gen_declarations env ms st3 | Some e \<Rightarrow> (Some e, st3))
                   in (err', pop_name (close_page name content st4))))"
| "gen_declarations env [] st = (None, st)"
| "gen_declarations env (d # ds) st =
     (let (err, st1) = gen_declaration env d st
      in case err of Some e \<Rightarrow> (Some e, st1) | None \<Rightarrow> gen_declarations env ds st1)"

definition gen_program :: "doc_env \<Rightarrow> doc_program \<Rightarrow> doc_state \<Rightarrow> string option \<times> doc_state" where
  "gen_program env prg st =
     (if dp_sole_contract prg then gen_declarations env (dp_declarations prg) st
      else case file_writer env ''index.md'' st of
        Inl e \<Rightarrow> (Some e, st)
      | Inr st1 \<Rightarrow>
          (let (content, err) = dn_entry_page env (doc_file_name (ds_gen st1)) prg;
               st2 = write_page ''index.md'' content st1;
               (err', st3) =
                 (case err of None \<Rightarrow> gen_declarations env (dp_declarations prg) st2 | Some e \<Rightarrow> (Some e, st2))
           in (err', close_page ''index.md'' content st3)))"

definition doc_generate ::
    "doc_env \<Rightarrow> (string \<Rightarrow> (string, doc_program) result) \<Rightarrow> string \<Rightarrow> string \<Rightarrow> doc_state \<Rightarrow> string option \<times> doc_state" where
  "doc_generate env parse source output_dir st =
     (let st1 = st\<lparr>ds_gen := (ds_gen st)\<lparr>dg_output_dir := output_dir, dg_type_names := []\<rparr>\<rparr>
      in case parse source of
           Inl e \<Rightarrow> (Some e, st1)
         | Inr prg \<Rightarrow> gen_program env prg st1)"

definition doc_generate_in_memory ::
    "doc_env \<Rightarrow> (string \<Rightarrow> (string, doc_program) result) \<Rightarrow> string \<Rightarrow> doc_state \<Rightarrow>
     (string, (string, string) gomap) result \<times> doc_state" where
  "doc_generate_in_memory env parse source st =
     (let st1 = st\<lparr>ds_gen := (ds_gen st)\<lparr>dg_files := Some [], dg_type_names := []\<rparr>\<rparr>
      in case parse source of
           Inl e \<Rightarrow> (Inl e, st1)
         | Inr prg \<Rightarrow>
             (let (err, st2) = gen_program env prg st1
              in case err of
                   Some e \<Rightarrow> (Inl e, st2)
                 | None \<Rightarrow> (Inr (case dg_files (ds_gen st2) of None \<Rightarrow> [] | Some fs \<Rightarrow> fs), st2)))"

section \<open>What is written\<close>

text \<open>The link to a declaration and the name of a page, from the names of the types around.\<close>

definition link_in :: "string list \<Rightarrow> doc_decl \<Rightarrow> string" where
  "link_in ns d = doc_file_name \<lparr>dg_type_names = ns, dg_output_dir = '''', dg_files = None\<rparr> d"

definition page_name :: "string list \<Rightarrow> string" where "page_name ns = str_join ''_'' ns @ md_file_ext"

definition page_text :: "doc_env \<Rightarrow> string list \<Rightarrow> doc_decl \<Rightarrow> string" where
  "page_text env ns d = fst (dn_composite_page env (link_in ns) d)"

lemma doc_file_name_link: "doc_file_name gen = link_in (dg_type_names gen)"
  by (rule ext) (simp add: doc_file_name_def link_in_def current_file_name_def Let_def)

text \<open>The pages: the names of the types around and the declaration; and the files in two orders.\<close>

fun doc_pages :: "string list \<Rightarrow> doc_decl \<Rightarrow> (string list \<times> doc_decl) list"
and doc_pages_list :: "string list \<Rightarrow> doc_decl list \<Rightarrow> (string list \<times> doc_decl) list" where
  "doc_pages ns (DocDecl i ms) =
     (if \<not> has_page (DocDecl i ms) then []
      else (ns @ [di_name i], DocDecl i ms) # doc_pages_list (ns @ [di_name i]) ms)"
| "doc_pages_list ns [] = []"
| "doc_pages_list ns (d # ds) = doc_pages ns d @ doc_pages_list ns ds"

fun inner_first :: "doc_env \<Rightarrow> string list \<Rightarrow> doc_decl \<Rightarrow> (string \<times> string) list"
and inner_first_list :: "doc_env \<Rightarrow> string list \<Rightarrow> doc_decl list \<Rightarrow> (string \<times> string) list" where
  "inner_first env ns (DocDecl i ms) =
     (if \<not> has_page (DocDecl i ms) then []
      else inner_first_list env (ns @ [di_name i]) ms @
           [(page_name (ns @ [di_name i]), page_text env (ns @ [di_name i]) (DocDecl i ms))])"
| "inner_first_list env ns [] = []"
| "inner_first_list env ns (d # ds) = inner_first env ns d @ inner_first_list env ns ds"

definition page_file :: "doc_env \<Rightarrow> string list \<times> doc_decl \<Rightarrow> string \<times> string" where
  "page_file env p = (page_name (fst p), page_text env (fst p) (snd p))"

lemma set_inner_first:
  "set (inner_first env ns d) = page_file env ` set (doc_pages ns d)"
  "set (inner_first_list env ns ds) = page_file env ` set (doc_pages_list ns ds)"
  by (induction ns d and ns ds rule: doc_pages_doc_pages_list.induct) (auto simp: page_file_def)

definition store_all :: "(string \<times> string) list \<Rightarrow> (string, string) gomap \<Rightarrow> (string, string) gomap" where
  "store_all ws m = fold (\<lambda>(k, v) m. AList.update k v m) ws m"

lemma store_all_simps [simp]:
  "store_all [] m = m" "store_all ((k, v) # ws) m = store_all ws (AList.update k v m)"
  "store_all (ws @ ws') m = store_all ws' (store_all ws m)"
  by (simp_all add: store_all_def)

lemma map_of_store_all: "map_of (store_all ws m) = map_of m ++ map_of (rev ws)"
  by (induction ws arbitrary: m) (auto simp: update_conv' map_add_upd_left split: prod.split)

text \<open>The templates do not fail.\<close>

definition renders :: "doc_env \<Rightarrow> bool" where
  "renders env \<longleftrightarrow>
     (\<forall>f d. snd (dn_composite_page env f d) = None) \<and> (\<forall>f p. snd (dn_entry_page env f p) = None)"

definition with_files :: "(string, string) gomap \<Rightarrow> doc_state \<Rightarrow> doc_state" where
  "with_files fs st = st\<lparr>ds_gen := (ds_gen st)\<lparr>dg_files := Some fs\<rparr>\<rparr>"

lemma with_files_simps [simp]:
  "dg_files (ds_gen (with_files fs st)) = Some fs" "dg_type_names (ds_gen (with_files fs st)) = dg_type_names (ds_gen st)"
  "with_files fs (with_files fs' st) = with_files fs st" "ds_disk (with_files fs st) = ds_disk st"
  by (simp_all add: with_files_def)

lemma name_stack_simps [simp]:
  "dg_type_names (ds_gen (push_name n st)) = dg_type_names (ds_gen st) @ [n]"
  "dg_files (ds_gen (push_name n st)) = dg_files (ds_gen st)"
  "ds_disk (push_name n st) = ds_disk st" "ds_disk (pop_name st) = ds_disk st"
  "dg_output_dir (ds_gen (push_name n st)) = dg_output_dir (ds_gen st)"
  "pop_name (with_files fs (push_name n st)) = with_files fs st"
  by (simp_all add: push_name_def pop_name_def with_files_def)

text \<open>In memory a page is stored after the pages inside of it.\<close>

lemma memory_pages:
  "renders env \<Longrightarrow> dg_type_names (ds_gen st) = ns \<Longrightarrow> dg_files (ds_gen st) = Some fs \<Longrightarrow>
   gen_declaration env d st = (None, with_files (store_all (inner_first env ns d) fs) st)"
  "renders env \<Longrightarrow> dg_type_names (ds_gen st) = ns \<Longrightarrow> dg_files (ds_gen st) = Some fs \<Longrightarrow>
   gen_declarations env ds st = (None, with_files (store_all (inner_first_list env ns ds) fs) st)"
proof (induction ns d and ns ds arbitrary: st fs and st fs rule: doc_pages_doc_pages_list.induct)
  case (1 ns i ms)
  show ?case
  proof (cases "has_page (DocDecl i ms)")
    case False
    with 1 show ?thesis by (simp add: with_files_def)
  next
    case True
    let ?st = "push_name (di_name i) st"
    have "gen_declarations env ms ?st = (None, with_files (store_all (inner_first_list env (ns @ [di_name i]) ms) fs) ?st)"
      using 1 True by simp
    moreover have "snd (dn_composite_page env (link_in (ns @ [di_name i])) (DocDecl i ms)) = None"
      using "1.prems"(1) by (simp add: renders_def)
    moreover have "file_writer env name ?st = Inr ?st" "write_page name content ?st = ?st" for name content
      using "1.prems"(3) by (simp_all add: file_writer_def write_page_def)
    ultimately show ?thesis
      using True "1.prems"
      by (auto simp: doc_file_name_link current_file_name_def page_name_def page_text_def Let_def close_page_def
          case_prod_unfold with_files_def [symmetric])
  qed
next
  case (2 ns)
  then show ?case by (simp add: with_files_def)
next
  case (3 ns d ds)
  then show ?case by simp
qed

text \<open>On disk a page is written before the pages inside of it.\<close>

definition creates :: "doc_env \<Rightarrow> bool" where "creates env \<longleftrightarrow> (\<forall>p. dn_create_error env p = None)"

definition outer_first :: "doc_env \<Rightarrow> doc_generator \<Rightarrow> (string list \<times> doc_decl) list \<Rightarrow> (string \<times> string) list" where
  "outer_first env gen ps = map (\<lambda>p. (disk_path gen (fst (page_file env p)), snd (page_file env p))) ps"

lemma outer_first_simps [simp]:
  "outer_first env gen [] = []"
  "outer_first env gen (ps @ qs) = outer_first env gen ps @ outer_first env gen qs"
  "outer_first env gen ((ns, d) # ps) = (disk_path gen (page_name ns), page_text env ns d) # outer_first env gen ps"
  by (simp_all add: outer_first_def page_file_def)

lemma update_twice: "AList.update k v (AList.update k w m) = AList.update k v m"
  by (induction m) auto

lemma outer_first_output: "dg_output_dir g = dg_output_dir h \<Longrightarrow> outer_first env g = outer_first env h"
  by (rule ext) (simp add: outer_first_def disk_path_def)

lemma disk_pages:
  "renders env \<Longrightarrow> creates env \<Longrightarrow> dg_type_names (ds_gen st) = ns \<Longrightarrow> dg_files (ds_gen st) = None \<Longrightarrow>
   gen_declaration env d st =
     (None, st\<lparr>ds_disk := store_all (outer_first env (ds_gen st) (doc_pages ns d)) (ds_disk st)\<rparr>)"
  "renders env \<Longrightarrow> creates env \<Longrightarrow> dg_type_names (ds_gen st) = ns \<Longrightarrow> dg_files (ds_gen st) = None \<Longrightarrow>
   gen_declarations env ds st =
     (None, st\<lparr>ds_disk := store_all (outer_first env (ds_gen st) (doc_pages_list ns ds)) (ds_disk st)\<rparr>)"
proof (induction ns d and ns ds arbitrary: st and st rule: doc_pages_doc_pages_list.induct)
  case (1 ns i ms)
  show ?case
  proof (cases "has_page (DocDecl i ms)")
    case False
    with 1 show ?thesis by simp
  next
    case True
    let ?st = "push_name (di_name i) st" and ?ns = "ns @ [di_name i]"
    let ?disk = "AList.update (disk_path (ds_gen st) (page_name ?ns)) (page_text env ?ns (DocDecl i ms)) (ds_disk st)"
    have paths: "disk_path (ds_gen ?st) = disk_path (ds_gen st)" by (rule ext) (simp add: disk_path_def)
    have inner: "gen_declarations env ms (?st\<lparr>ds_disk := ?disk\<rparr>) =
        (None, ?st\<lparr>ds_disk := store_all (outer_first env (ds_gen st) (doc_pages_list ?ns ms)) ?disk\<rparr>)"
      using 1 True outer_first_output [of "ds_gen ?st" "ds_gen st" env] by simp
    have "snd (dn_composite_page env (link_in ?ns) (DocDecl i ms)) = None"
      using "1.prems"(1) by (simp add: renders_def)
    moreover have "file_writer env (page_name ?ns) ?st =
        Inr (?st\<lparr>ds_disk := AList.update (disk_path (ds_gen st) (page_name ?ns)) '''' (ds_disk st)\<rparr>)"
      using "1.prems" by (simp add: file_writer_def creates_def Let_def paths)
    moreover have "write_page (page_name ?ns) (page_text env ?ns (DocDecl i ms))
        (?st\<lparr>ds_disk := AList.update (disk_path (ds_gen st) (page_name ?ns)) '''' (ds_disk st)\<rparr>) = ?st\<lparr>ds_disk := ?disk\<rparr>"
      using "1.prems" by (simp add: write_page_def paths update_twice)
    moreover have "pop_name (close_page name content (?st\<lparr>ds_disk := dk\<rparr>)) = st\<lparr>ds_disk := dk\<rparr>" for name content dk
      using "1.prems" by (simp add: close_page_def pop_name_def push_name_def)
    ultimately show ?thesis
      using True "1.prems" inner
      by (auto simp: doc_file_name_link current_file_name_def page_name_def [symmetric] page_text_def [symmetric] Let_def
          case_prod_unfold)
  qed
next
  case (2 ns)
  then show ?case by simp
next
  case (3 ns d ds)
  then show ?case by simp
qed

section \<open>Whole programs\<close>

definition entry_text :: "doc_env \<Rightarrow> doc_program \<Rightarrow> string" where
  "entry_text env prg = fst (dn_entry_page env (link_in []) prg)"

definition entry_file :: "doc_env \<Rightarrow> doc_program \<Rightarrow> (string \<times> string) list" where
  "entry_file env prg = (if dp_sole_contract prg then [] else [(''index.md'', entry_text env prg)])"

definition program_pages :: "doc_program \<Rightarrow> (string list \<times> doc_decl) list" where
  "program_pages prg = doc_pages_list [] (dp_declarations prg)"

lemma memory_program:
  assumes "renders env" "parse source = Inr prg"
  shows "\<exists>st'. doc_generate_in_memory env parse source st =
    (Inr (store_all (inner_first_list env [] (dp_declarations prg) @ entry_file env prg) []), st')"
proof -
  let ?st = "st\<lparr>ds_gen := (ds_gen st)\<lparr>dg_files := Some [], dg_type_names := []\<rparr>\<rparr>"
  have decls: "gen_declarations env (dp_declarations prg) ?st =
      (None, with_files (store_all (inner_first_list env [] (dp_declarations prg)) []) ?st)"
    by (rule memory_pages) (use assms in simp_all)
  have "snd (dn_entry_page env (link_in []) prg) = None" using assms(1) by (simp add: renders_def)
  moreover have "file_writer env name ?st = Inr ?st" "write_page name content ?st = ?st" for name content
    by (simp_all add: file_writer_def write_page_def)
  ultimately show ?thesis
    using decls assms(2)
    by (simp add: doc_generate_in_memory_def gen_program_def Let_def doc_file_name_link entry_file_def entry_text_def
        close_page_def case_prod_unfold)
qed

lemma disk_program:
  assumes "renders env" "creates env" "parse source = Inr prg" "dg_files (ds_gen st) = None"
  shows "\<exists>st'. doc_generate env parse source dir st = (None, st') \<and>
    ds_disk st' = store_all (map (\<lambda>(k, v). (disk_path ((ds_gen st)\<lparr>dg_output_dir := dir\<rparr>) k, v)) (entry_file env prg) @
      outer_first env ((ds_gen st)\<lparr>dg_output_dir := dir\<rparr>) (program_pages prg)) (ds_disk st)"
proof -
  let ?st = "st\<lparr>ds_gen := (ds_gen st)\<lparr>dg_output_dir := dir, dg_type_names := []\<rparr>\<rparr>"
  let ?g = "(ds_gen st)\<lparr>dg_output_dir := dir\<rparr>"
  have paths: "disk_path (ds_gen ?st) = disk_path ?g" by (rule ext) (simp add: disk_path_def)
  have outer: "outer_first env (ds_gen ?st) = outer_first env ?g" by (rule outer_first_output) simp
  have decls: "gen_declarations env (dp_declarations prg) (?st\<lparr>ds_disk := dk\<rparr>) =
      (None, ?st\<lparr>ds_disk := store_all (outer_first env ?g (program_pages prg)) dk\<rparr>)" for dk
    using disk_pages(2) [of env "?st\<lparr>ds_disk := dk\<rparr>" "[]" "dp_declarations prg"] assms outer
    by (simp add: program_pages_def)
  have "snd (dn_entry_page env (link_in []) prg) = None" using assms(1) by (simp add: renders_def)
  moreover have "file_writer env ''index.md'' ?st = Inr (?st\<lparr>ds_disk := AList.update (disk_path ?g ''index.md'') '''' (ds_disk st)\<rparr>)"
    using assms by (simp add: file_writer_def creates_def Let_def disk_path_def)
  moreover have "write_page ''index.md'' content (?st\<lparr>ds_disk := AList.update (disk_path ?g ''index.md'') '''' (ds_disk st)\<rparr>) =
      ?st\<lparr>ds_disk := AList.update (disk_path ?g ''index.md'') content (ds_disk st)\<rparr>" for content
    using assms by (simp add: write_page_def update_twice disk_path_def)
  moreover have "close_page name content (?st\<lparr>ds_disk := dk\<rparr>) = ?st\<lparr>ds_disk := dk\<rparr>" for name content dk
    using assms by (simp add: close_page_def)
  ultimately show ?thesis
    using decls [of "ds_disk st"] decls assms(3)
    by (cases "dp_sole_contract prg")
       (simp_all add: doc_generate_def gen_program_def Let_def doc_file_name_link entry_file_def entry_text_def case_prod_unfold)
qed

section \<open>Links and files\<close>

text \<open>Identifiers are not empty, and structures and resources are composite declarations.\<close>

fun decl_ok :: "doc_decl \<Rightarrow> bool" where
  "decl_ok (DocDecl i ms) \<longleftrightarrow>
     di_name i \<noteq> '''' \<and> (di_kind i \<in> {DocStructure, DocResource} \<longrightarrow> di_class i = ClassComposite) \<and> list_all decl_ok ms"

lemma linked_has_page: "l \<in> set (linked_declarations ds) \<Longrightarrow> list_all decl_ok ds \<Longrightarrow> l \<in> set ds \<and> has_page l \<and> decl_ok l"
  by (cases l) (auto simp: linked_declarations_def structs_and_resources_def has_page_def decl_kind_of_def list_all_iff
      split: doc_class.split)

lemma page_of_declaration: "d \<in> set ds \<Longrightarrow> has_page d \<Longrightarrow> (ns @ [di_name (doc_info d)], d) \<in> set (doc_pages_list ns ds)"
proof (induction ds)
  case (Cons e ds)
  then show ?case by (cases d) auto
qed simp

lemma pages_inside:
  "(ns', d) \<in> set (doc_pages ns e) \<Longrightarrow> decl_ok e \<Longrightarrow>
     ns' \<noteq> [] \<and> last ns' \<noteq> '''' \<and> list_all decl_ok (doc_members d) \<and>
     set (doc_pages_list ns' (doc_members d)) \<subseteq> set (doc_pages ns e)"
  "(ns', d) \<in> set (doc_pages_list ns es) \<Longrightarrow> list_all decl_ok es \<Longrightarrow>
     ns' \<noteq> [] \<and> last ns' \<noteq> '''' \<and> list_all decl_ok (doc_members d) \<and>
     set (doc_pages_list ns' (doc_members d)) \<subseteq> set (doc_pages_list ns es)"
  by (induction ns e and ns es rule: doc_pages_doc_pages_list.induct) (auto split: if_splits)

lemma str_join_last: "ns \<noteq> [] \<Longrightarrow> last ns \<noteq> [] \<Longrightarrow> str_join sep ns \<noteq> []"
  by (induction sep ns rule: str_join.induct) (auto split: if_splits)

lemma link_is_page: "ns \<noteq> [] \<Longrightarrow> last ns \<noteq> '''' \<Longrightarrow> link_in ns d = page_name (ns @ [di_name (doc_info d)])"
  by (simp add: link_in_def doc_file_name_def current_file_name_def Let_def page_name_def str_join_last str_join_snoc)

lemma stored: "k \<in> fst ` set ws \<Longrightarrow> map_of (store_all ws m) k \<noteq> None"
  by (induction ws arbitrary: m) (auto simp: map_of_store_all map_add_def map_of_eq_None_iff split: option.splits)

text \<open>
  C30. When documentation has been generated in memory, the file of every page is there, and every link
  on every page, also on the entry page, is the name of a file that is there.
\<close>

theorem doc_links_resolve:
  assumes "renders env" "parse source = Inr prg" "list_all decl_ok (dp_declarations prg)"
    and "doc_generate_in_memory env parse source st = (Inr files, st')"
  shows "(\<forall>(ns, d) \<in> set (program_pages prg).
      map_of files (page_name ns) \<noteq> None \<and>
      (\<forall>l \<in> set (linked_declarations (doc_members d)). map_of files (link_in ns l) \<noteq> None)) \<and>
    (\<not> dp_sole_contract prg \<longrightarrow>
      map_of files ''index.md'' \<noteq> None \<and>
      (\<forall>l \<in> set (linked_declarations (dp_declarations prg)). map_of files (link_in [] l) \<noteq> None))"
proof -
  let ?ws = "inner_first_list env [] (dp_declarations prg) @ entry_file env prg"
  have files: "files = store_all ?ws []"
    using memory_program [where parse = parse and source = source and st = st, OF assms(1,2)] assms(4) by auto
  have page: "map_of files (page_name ns) \<noteq> None" if "(ns, d) \<in> set (program_pages prg)" for ns d
    unfolding files
    by (rule stored) (use that set_inner_first(2) [of env "[]" "dp_declarations prg"] in
      \<open>force simp: program_pages_def page_file_def image_image\<close>)
  have links: "map_of files (link_in ns l) \<noteq> None"
    if p: "(ns, d) \<in> set (program_pages prg)" and l: "l \<in> set (linked_declarations (doc_members d))" for ns d l
  proof -
    from pages_inside(2) [of ns d "[]" "dp_declarations prg"] p assms(3)
    have ns: "ns \<noteq> []" "last ns \<noteq> ''''" "list_all decl_ok (doc_members d)"
        "set (doc_pages_list ns (doc_members d)) \<subseteq> set (program_pages prg)"
      by (auto simp: program_pages_def)
    with linked_has_page [OF l] page_of_declaration [of l "doc_members d" ns]
    have "(ns @ [di_name (doc_info l)], l) \<in> set (program_pages prg)" by blast
    then show ?thesis using page ns(1,2) by (simp add: link_is_page)
  qed
  have entry: "map_of files (link_in [] l) \<noteq> None" if "l \<in> set (linked_declarations (dp_declarations prg))" for l
  proof -
    have "(([] :: string list) @ [di_name (doc_info l)], l) \<in> set (program_pages prg)"
      using linked_has_page [OF that assms(3)] page_of_declaration [of l "dp_declarations prg" "[]"]
      by (simp add: program_pages_def)
    from page [OF this] show ?thesis
      by (simp add: link_in_def doc_file_name_def current_file_name_def page_name_def)
  qed
  have index: "\<not> dp_sole_contract prg \<Longrightarrow> map_of files ''index.md'' \<noteq> None"
    unfolding files by (rule stored) (simp add: entry_file_def)
  show ?thesis using page links entry index by blast
qed

definition demo_decl :: "string \<Rightarrow> doc_decl list \<Rightarrow> doc_decl" where
  "demo_decl name ms =
     DocDecl \<lparr>di_name = name, di_class = ClassComposite, di_kind = DocStructure, di_access_keyword = ''access(all)'',
       di_kind_keywords = ''struct'', di_variable_keyword = ''''\<rparr> ms"

definition demo_docs :: doc_program where
  "demo_docs = \<lparr>dp_sole_contract = False, dp_declarations = [demo_decl ''A'' [demo_decl ''B'' []]]\<rparr>"

definition demo_doc_env :: doc_env where
  "demo_doc_env =
     \<lparr>dn_create_error = (\<lambda>p. None),
      dn_entry_page = (\<lambda>link p. (concat (map link (linked_declarations (dp_declarations p))), None)),
      dn_composite_page = (\<lambda>link d. (di_name (doc_info d) @ concat (map link (linked_declarations (doc_members d))), None))\<rparr>"

definition new_doc_state :: doc_state where "new_doc_state = \<lparr>ds_gen = new_doc_generator, ds_disk = []\<rparr>"

lemma demo_doc_env_ok: "renders demo_doc_env" "creates demo_doc_env"
  by (simp_all add: renders_def creates_def demo_doc_env_def)

lemma demo_docs_ok: "list_all decl_ok (dp_declarations demo_docs)" "\<not> dp_sole_contract demo_docs"
    "linked_declarations (dp_declarations demo_docs) = dp_declarations demo_docs"
  by (simp_all add: demo_docs_def demo_decl_def linked_declarations_def structs_and_resources_def decl_kind_of_def)

theorem doc_links_resolve_witness:
  "\<exists>files st'. doc_generate_in_memory demo_doc_env (\<lambda>s. Inr demo_docs) [] new_doc_state = (Inr files, st') \<and>
     map_of files ''A.md'' \<noteq> None \<and> map_of files ''index.md'' \<noteq> None"
proof -
  obtain files st' where run: "doc_generate_in_memory demo_doc_env (\<lambda>s. Inr demo_docs) [] new_doc_state = (Inr files, st')"
    using memory_program [where env = demo_doc_env and parse = "\<lambda>s. Inr demo_docs" and source = "[]" and prg = demo_docs
      and st = new_doc_state] demo_doc_env_ok by auto
  have ok: "(\<lambda>s. Inr demo_docs :: (string, doc_program) result) ([] :: string) = Inr demo_docs" by simp
  note all = doc_links_resolve [OF demo_doc_env_ok(1) ok demo_docs_ok(1) run]
  have "demo_decl ''A'' [demo_decl ''B'' []] \<in> set (linked_declarations (dp_declarations demo_docs))"
    unfolding demo_docs_ok(3) by (simp add: demo_docs_def)
  with all demo_docs_ok(2) have "map_of files (link_in [] (demo_decl ''A'' [demo_decl ''B'' []])) \<noteq> None" by blast
  moreover have "link_in [] (demo_decl ''A'' [demo_decl ''B'' []]) = ''A.md''"
    by (simp add: link_in_def doc_file_name_def current_file_name_def demo_decl_def md_file_ext_def)
  ultimately show ?thesis using run all demo_docs_ok(2) by auto
qed

section \<open>Memory and disk\<close>

lemma length_inner_first:
  "length (inner_first env ns d) = length (doc_pages ns d)"
  "length (inner_first_list env ns ds) = length (doc_pages_list ns ds)"
  by (induction ns d and ns ds rule: doc_pages_doc_pages_list.induct) auto

lemma distinct_of_set: "distinct ys \<Longrightarrow> set xs = set ys \<Longrightarrow> length xs = length ys \<Longrightarrow> distinct xs"
  by (metis card_distinct distinct_card)

lemma map_of_rev_distinct: "distinct (map fst ws) \<Longrightarrow> (k, v) \<in> set ws \<Longrightarrow> map_of (rev ws) k = Some v"
  by (simp add: map_of_is_SomeI rev_map [symmetric])

definition doc_file_names :: "doc_program \<Rightarrow> string list" where
  "doc_file_names prg = (if dp_sole_contract prg then [] else [''index.md'']) @ map (\<lambda>p. page_name (fst p)) (program_pages prg)"

text \<open>
  C31. If no two pages have the same file, generating documentation in memory and on disk gives the same
  text for every page.
\<close>

theorem memory_and_disk_agree:
  assumes "renders env" "creates env" "parse source = Inr prg" "dg_files (ds_gen st) = None"
    and names: "distinct (map (\<lambda>n. go_join [dir, n]) (doc_file_names prg))"
    and memory: "doc_generate_in_memory env parse source st = (Inr files, sm)"
    and disk: "doc_generate env parse source dir st = (err, sd)"
  shows "err = None \<and> (\<forall>n \<in> set (doc_file_names prg).
    map_of files n \<noteq> None \<and> map_of (ds_disk sd) (go_join [dir, n]) = map_of files n)"
proof -
  let ?path = "\<lambda>n. go_join [dir, n]"
  let ?ws = "inner_first_list env [] (dp_declarations prg) @ entry_file env prg"
  let ?us = "entry_file env prg @ map (page_file env) (program_pages prg)"
  have files: "files = store_all ?ws []"
    using memory_program [where parse = parse and source = source and st = st, OF assms(1,3)] memory by auto
  have path: "disk_path ((ds_gen st)\<lparr>dg_output_dir := dir\<rparr>) = ?path" by (rule ext) (simp add: disk_path_def)
  have sd: "err = None" "ds_disk sd = store_all (map (\<lambda>(k, v). (?path k, v)) ?us) (ds_disk st)"
    using disk_program [where parse = parse and source = source and st = st and dir = dir, OF assms(1-4)] disk
    by (auto simp: path outer_first_def comp_def case_prod_unfold)
  have sets: "set ?ws = set ?us"
    using set_inner_first(2) [of env "[]" "dp_declarations prg"] by (auto simp: program_pages_def)
  have keys: "map fst ?us = doc_file_names prg"
    by (simp add: doc_file_names_def entry_file_def page_file_def)
  have "distinct (map fst ?us)" using names unfolding keys by (simp add: distinct_map)
  moreover have "length (map fst ?ws) = length (map fst ?us)"
    by (simp add: length_inner_first program_pages_def)
  moreover have "set (map fst ?ws) = set (map fst ?us)" using sets by (simp only: set_map)
  ultimately have mem_keys: "distinct (map fst ?ws)" using distinct_of_set by blast
  have disk_keys: "distinct (map fst (map (\<lambda>(k, v). (?path k, v)) ?us))"
  proof -
    have "map fst (map (\<lambda>(k, v). (?path k, v)) ?us) = map ?path (map fst ?us)"
      by (simp add: comp_def case_prod_unfold)
    then show ?thesis using names unfolding keys by simp
  qed
  have "map_of files n \<noteq> None \<and> map_of (ds_disk sd) (?path n) = map_of files n" if "n \<in> set (doc_file_names prg)" for n
  proof -
    from that have "n \<in> fst ` set ?us" unfolding keys [symmetric] by (simp only: set_map)
    then obtain v where v: "(n, v) \<in> set ?us" by (metis imageE prod.collapse)
    then have "map_of (rev ?ws) n = Some v" using map_of_rev_distinct [OF mem_keys] sets by blast
    moreover have "(?path n, v) \<in> set (map (\<lambda>(k, v). (?path k, v)) ?us)"
      using imageI [OF v, of "\<lambda>(k, v). (?path k, v)"] by (simp only: set_map prod.case)
    then have "map_of (rev (map (\<lambda>(k, v). (?path k, v)) ?us)) (?path n) = Some v"
      by (rule map_of_rev_distinct [OF disk_keys])
    ultimately show ?thesis
      unfolding files sd(2) map_of_store_all by (simp add: map_add_def)
  qed
  then show ?thesis using sd(1) by blast
qed

theorem memory_and_disk_agree_witness:
  "\<exists>files sm sd. doc_generate_in_memory demo_doc_env (\<lambda>s. Inr demo_docs) [] new_doc_state = (Inr files, sm) \<and>
     doc_generate demo_doc_env (\<lambda>s. Inr demo_docs) [] ''docs'' new_doc_state = (None, sd) \<and>
     map_of (ds_disk sd) ''docs/A_B.md'' = map_of files ''A_B.md'' \<and> map_of files ''A_B.md'' \<noteq> None"
proof -
  have ok: "(\<lambda>s. Inr demo_docs :: (string, doc_program) result) ([] :: string) = Inr demo_docs" by simp
  have none: "dg_files (ds_gen new_doc_state) = None" by (simp add: new_doc_state_def new_doc_generator_def)
  obtain files sm where memory: "doc_generate_in_memory demo_doc_env (\<lambda>s. Inr demo_docs) [] new_doc_state = (Inr files, sm)"
    using memory_program [where env = demo_doc_env and parse = "\<lambda>s. Inr demo_docs" and source = "[]" and prg = demo_docs
      and st = new_doc_state] demo_doc_env_ok by auto
  obtain sd where disk: "doc_generate demo_doc_env (\<lambda>s. Inr demo_docs) [] ''docs'' new_doc_state = (None, sd)"
    using disk_program [where env = demo_doc_env and parse = "\<lambda>s. Inr demo_docs" and source = "[]" and prg = demo_docs
      and st = new_doc_state and dir = "''docs''"] demo_doc_env_ok none by auto
  have names: "doc_file_names demo_docs = [''index.md'', ''A.md'', ''A_B.md'']"
    by (simp add: doc_file_names_def program_pages_def demo_docs_def demo_decl_def has_page_def decl_kind_of_def
        page_name_def md_file_ext_def)
  have paths: "map (\<lambda>n. go_join [''docs'', n]) (doc_file_names demo_docs) = [''docs/index.md'', ''docs/A.md'', ''docs/A_B.md'']"
    unfolding names by code_simp
  have "distinct (map (\<lambda>n. go_join [''docs'', n]) (doc_file_names demo_docs))"
    unfolding paths by simp
  from memory_and_disk_agree [OF demo_doc_env_ok ok none this memory disk]
  have "map_of files ''A_B.md'' \<noteq> None \<and> map_of (ds_disk sd) (go_join [''docs'', ''A_B.md'']) = map_of files ''A_B.md''"
    by (simp add: names)
  moreover have "go_join [''docs'', ''A_B.md''] = ''docs/A_B.md''" by code_simp
  ultimately show ?thesis using memory disk by auto
qed

text \<open>
  Where names clash they differ: a structure named index is described by the file of the entry page on
  disk, and in memory the entry page replaces it.
\<close>

definition clashing_docs :: doc_program where
  "clashing_docs = \<lparr>dp_sole_contract = False, dp_declarations = [demo_decl ''index'' []]\<rparr>"

theorem index_page_clash:
  "\<exists>files sm sd. doc_generate_in_memory demo_doc_env (\<lambda>s. Inr clashing_docs) [] new_doc_state = (Inr files, sm) \<and>
     doc_generate demo_doc_env (\<lambda>s. Inr clashing_docs) [] ''docs'' new_doc_state = (None, sd) \<and>
     map_of files ''index.md'' = Some ''index.md'' \<and> map_of (ds_disk sd) ''docs/index.md'' = Some ''index''"
proof -
  have none: "dg_files (ds_gen new_doc_state) = None" by (simp add: new_doc_state_def new_doc_generator_def)
  have path: "go_join [''docs'', ''index.md''] = ''docs/index.md''" by code_simp
  obtain sm where memory: "doc_generate_in_memory demo_doc_env (\<lambda>s. Inr clashing_docs) [] new_doc_state =
      (Inr (store_all (inner_first_list demo_doc_env [] (dp_declarations clashing_docs) @ entry_file demo_doc_env clashing_docs) []), sm)"
    using memory_program [where env = demo_doc_env and parse = "\<lambda>s. Inr clashing_docs" and source = "[]" and prg = clashing_docs
      and st = new_doc_state] demo_doc_env_ok by auto
  obtain sd where disk: "doc_generate demo_doc_env (\<lambda>s. Inr clashing_docs) [] ''docs'' new_doc_state = (None, sd)"
      "ds_disk sd = store_all (map (\<lambda>(k, v). (disk_path ((ds_gen new_doc_state)\<lparr>dg_output_dir := ''docs''\<rparr>) k, v))
          (entry_file demo_doc_env clashing_docs) @
        outer_first demo_doc_env ((ds_gen new_doc_state)\<lparr>dg_output_dir := ''docs''\<rparr>) (program_pages clashing_docs)) (ds_disk new_doc_state)"
    using disk_program [where env = demo_doc_env and parse = "\<lambda>s. Inr clashing_docs" and source = "[]" and prg = clashing_docs
      and st = new_doc_state and dir = "''docs''"] demo_doc_env_ok none by auto
  have link: "link_in [] (demo_decl ''index'' []) = ''index.md''"
    by (simp add: link_in_def doc_file_name_def current_file_name_def demo_decl_def md_file_ext_def)
  have entry: "entry_file demo_doc_env clashing_docs = [(''index.md'', ''index.md'')]"
    by (simp add: entry_file_def clashing_docs_def entry_text_def demo_doc_env_def linked_declarations_def
        structs_and_resources_def decl_kind_of_def link) (simp add: demo_decl_def link [unfolded demo_decl_def])
  have page: "page_text demo_doc_env [''index''] (demo_decl ''index'' []) = ''index''"
    by (simp add: page_text_def demo_doc_env_def demo_decl_def linked_declarations_def structs_and_resources_def)
  have pages: "program_pages clashing_docs = [([''index''], demo_decl ''index'' [])]"
    by (simp add: program_pages_def clashing_docs_def demo_decl_def has_page_def decl_kind_of_def)
  have inner: "inner_first_list demo_doc_env [] (dp_declarations clashing_docs) = [(''index.md'', ''index'')]"
    using page by (simp add: clashing_docs_def demo_decl_def has_page_def decl_kind_of_def page_name_def md_file_ext_def)
  have "disk_path ((ds_gen new_doc_state)\<lparr>dg_output_dir := ''docs''\<rparr>) ''index.md'' = ''docs/index.md''"
    by (simp add: disk_path_def path)
  moreover have "page_name [''index''] = ''index.md''" by (simp add: page_name_def md_file_ext_def)
  ultimately show ?thesis
    using memory disk by (auto simp: inner entry pages page update_conv')
qed

section \<open>Using a generator again\<close>

lemma in_memory_kept:
  "dg_files (ds_gen st) \<noteq> None \<Longrightarrow> dg_files (ds_gen (push_name n st)) \<noteq> None"
  "dg_files (ds_gen st) \<noteq> None \<Longrightarrow> dg_files (ds_gen (pop_name (close_page name content st))) \<noteq> None"
  "dg_files (ds_gen st) \<noteq> None \<Longrightarrow> ds_disk (close_page name content st) = ds_disk st"
  "dg_files (ds_gen st) \<noteq> None \<Longrightarrow> file_writer env name st = Inr st"
  "dg_files (ds_gen st) \<noteq> None \<Longrightarrow> write_page name content st = st"
  by (auto simp: pop_name_def close_page_def file_writer_def write_page_def)

definition keeps_disk :: "doc_state \<Rightarrow> doc_state \<Rightarrow> bool" where
  "keeps_disk st st' \<longleftrightarrow> (dg_files (ds_gen st) \<noteq> None \<longrightarrow> dg_files (ds_gen st') \<noteq> None \<and> ds_disk st' = ds_disk st)"

lemma memory_writes_no_disk:
  fixes ns :: "string list"
  shows "keeps_disk st (snd (gen_declaration env d st))"
    and "keeps_disk st (snd (gen_declarations env ds st))"
proof (induction ns d and ns ds arbitrary: st and st rule: doc_pages_doc_pages_list.induct)
  case (1 ns i ms)
  show ?case
  proof (cases "has_page (DocDecl i ms) \<and> dg_files (ds_gen st) \<noteq> None")
    case True
    let ?st = "push_name (di_name i) st"
    have st: "dg_files (ds_gen ?st) \<noteq> None" using True by simp
    have inner: "keeps_disk ?st (snd (gen_declarations env ms ?st))" using 1 True by simp
    show ?thesis
      using True st inner
      by (auto simp: keeps_disk_def Let_def case_prod_unfold in_memory_kept split: option.split)
  qed (auto simp: keeps_disk_def)
next
  case (2 ns)
  then show ?case by (simp add: keeps_disk_def)
next
  case (3 ns d ds)
  then show ?case
    by (auto simp: Let_def case_prod_unfold keeps_disk_def split: option.split)
qed

lemma memory_program_keeps_disk: "keeps_disk st (snd (gen_program env prg st))"
  using memory_writes_no_disk(2) [of st env "dp_declarations prg"]
  by (auto simp: gen_program_def keeps_disk_def Let_def case_prod_unfold in_memory_kept close_page_def split: option.split)

text \<open>
  A generator that has been used in memory stays in memory: generating to a directory with it
  later, whatever the two programs are, writes no file.
\<close>

theorem reused_generator_writes_nothing:
  "ds_disk (snd (doc_generate env parse source dir (snd (doc_generate_in_memory env parse source' st)))) = ds_disk st"
proof -
  let ?s = "\<lambda>st. st\<lparr>ds_gen := (ds_gen st)\<lparr>dg_files := Some [], dg_type_names := []\<rparr>\<rparr>"
  let ?t = "\<lambda>st. st\<lparr>ds_gen := (ds_gen st)\<lparr>dg_output_dir := dir, dg_type_names := []\<rparr>\<rparr>"
  define sm where "sm = snd (doc_generate_in_memory env parse source' st)"
  have sm: "dg_files (ds_gen sm) \<noteq> None \<and> ds_disk sm = ds_disk st"
    using memory_program_keeps_disk [of "?s st" env]
    by (auto simp: sm_def doc_generate_in_memory_def Let_def case_prod_unfold keeps_disk_def split: option.split sum.split)
  moreover have "ds_disk (snd (doc_generate env parse source dir sm)) = ds_disk sm" if "dg_files (ds_gen sm) \<noteq> None"
    using memory_program_keeps_disk [of "?t sm" env] that
    by (auto simp: doc_generate_def Let_def keeps_disk_def split: sum.split)
  ultimately show ?thesis by (simp add: sm_def)
qed

text \<open>A fresh generator does write.\<close>

theorem fresh_generator_writes:
  "\<exists>sd. doc_generate demo_doc_env (\<lambda>s. Inr clashing_docs) [] ''docs'' new_doc_state = (None, sd) \<and>
     ds_disk sd \<noteq> ds_disk new_doc_state"
  using index_page_clash by (auto simp: new_doc_state_def)

section \<open>The programs around the generator\<close>

text \<open>
  The command (src/docgen/cmd/main.go): what it reads of the system is a parameter. \<^verbatim>\<open>os.Stat\<close> gives an error, which may
  be that the file does not exist, or whether it is a directory. The result \<open>None\<close> is a panic: a failed
  \<^verbatim>\<open>os.Stat\<close> leaves a nil file information.
\<close>

record doc_system =
  dy_read_file :: "string \<Rightarrow> (string, string) result"
  dy_stat :: "string \<Rightarrow> (bool, bool) result"

definition docgen_main ::
    "doc_env \<Rightarrow> (string \<Rightarrow> (string, doc_program) result) \<Rightarrow> doc_system \<Rightarrow> string list \<Rightarrow> (string, string) gomap \<Rightarrow>
     (string, string) result option \<times> (string, string) gomap" where
  "docgen_main env parse sys args disk =
     (if length args < 2 then (Some (Inl ''Not enough arguments''), disk)
      else if length args > 2 then (Some (Inl ''Too many arguments''), disk)
      else case dy_read_file sys (args ! 0) of
        Inl e \<Rightarrow> (Some (Inl e), disk)
      | Inr content \<Rightarrow>
          (case dy_stat sys (args ! 1) of
             Inl not_exist \<Rightarrow> (if not_exist then Some (Inl (''No such file or directory: '' @ args ! 1)) else None, disk)
           | Inr is_dir \<Rightarrow>
               (if \<not> is_dir then (Some (Inl (''Not a directory: '' @ args ! 1)), disk)
                else let (err, st) = doc_generate env parse content (args ! 1) \<lparr>ds_gen = new_doc_generator, ds_disk = disk\<rparr>
                     in (Some (case err of Some e \<Rightarrow> Inl e | None \<Rightarrow> Inr (''Docs generated at: '' @ args ! 1)),
                         ds_disk st))))"

text \<open>
  The function for JavaScript (src/docgen/wasm/main.go), without the final encoding. The generator may panic, which is
  \<open>None\<close> of the run and caught; the documents are then still absent.
\<close>

record doc_result =
  dr_docs :: "(string, string) gomap option"
  dr_error :: "string option"

definition generate_docs ::
    "(string \<Rightarrow> (string, (string, string) gomap) result option) \<Rightarrow> string \<Rightarrow> string list \<Rightarrow> doc_result" where
  "generate_docs generate stack args =
     (if length args < 1 then \<lparr>dr_docs = None, dr_error = Some ''not enough arguments''\<rparr>
      else if length args > 1 then \<lparr>dr_docs = None, dr_error = Some ''too many arguments''\<rparr>
      else case generate (args ! 0) of
        None \<Rightarrow> \<lparr>dr_docs = None, dr_error = Some stack\<rparr>
      | Some (Inl e) \<Rightarrow> \<lparr>dr_docs = None, dr_error = Some e\<rparr>
      | Some (Inr docs) \<Rightarrow> \<lparr>dr_docs = Some docs, dr_error = None\<rparr>)"

text \<open>
  The command touches the disk only after all its checks, and when it fails before the generator runs
  nothing is written.
\<close>

lemma docgen_main_writes_checked:
  "snd (docgen_main env parse sys args disk) \<noteq> disk \<Longrightarrow>
     length args = 2 \<and> dy_stat sys (args ! 1) = Inr True \<and> (\<exists>content. dy_read_file sys (args ! 0) = Inr content)"
  by (auto simp: docgen_main_def split: if_splits sum.splits)

end
