(* ===== verification/TestText.thy ===== *)
theory TestText
  imports Host
begin

text \<open>
  What the test framework (src/test) reads and writes of texts: the pragma that selects a network to
  fork from, the log messages it collects, the report of results (test_runner.go) and the
  rewriting of imports (emulator_backend.go). A run-time panic is \<open>None\<close>.
\<close>

section \<open>The fork pragma (extractForkPragma)\<close>

datatype pragma_argument = StringLiteral string | NilLiteral | IntegerLiteral int | OtherArgument

text \<open>An invocation; its callee's name if that is an identifier. A pragma that is no invocation is \<open>None\<close>.\<close>

record pragma_invocation =
  pv_callee :: "string option"
  pv_arguments :: "(string \<times> pragma_argument) list"

definition fork_pragma_name :: string where "fork_pragma_name = ''test_fork''"

datatype pragma_error =
    MultiplePragmas
  | ArgumentCount nat
  | FirstLabel string
  | NetworkEmpty
  | NetworkNotString
  | SecondLabel string
  | HeightNotInteger

text \<open>\<^verbatim>\<open>strconv.ParseUint\<close> on the decimal form of an integer.\<close>

definition parse_uint64 :: "int \<Rightarrow> u64 option" where
  "parse_uint64 n = (if 0 \<le> n \<and> n < 2 ^ 64 then Some (word_of_int n) else None)"

definition fork_height :: "pragma_argument \<Rightarrow> (pragma_error, u64 option) result" where
  "fork_height a =
     (case a of
        NilLiteral \<Rightarrow> Inr None
      | IntegerLiteral n \<Rightarrow> (case parse_uint64 n of None \<Rightarrow> Inl HeightNotInteger | Some h \<Rightarrow> Inr (Some h))
      | _ \<Rightarrow> Inl HeightNotInteger)"

definition fork_arguments :: "(string \<times> pragma_argument) list \<Rightarrow> (pragma_error, string \<times> u64 option) result" where
  "fork_arguments args =
     (if length args \<noteq> 2 then Inl (ArgumentCount (length args))
      else let (label1, arg1) = args ! 0; (label2, arg2) = args ! 1
      in if label1 \<noteq> ''network'' then Inl (FirstLabel label1)
         else case arg1 of
           StringLiteral network \<Rightarrow>
             (if network = '''' then Inl NetworkEmpty
              else if label2 \<noteq> ''height'' then Inl (SecondLabel label2)
              else map_sum id (Pair network) (fork_height arg2))
         | _ \<Rightarrow> Inl NetworkNotString)"

definition is_fork_pragma :: "pragma_invocation \<Rightarrow> bool" where
  "is_fork_pragma p \<longleftrightarrow> pv_callee p = Some fork_pragma_name"

text \<open>The loop, with the variables \<^verbatim>\<open>foundPragma\<close>, \<^verbatim>\<open>network\<close> and \<^verbatim>\<open>height\<close>.\<close>

fun fork_pragma_loop ::
    "pragma_invocation option list \<Rightarrow> bool \<Rightarrow> string \<Rightarrow> u64 option \<Rightarrow> (pragma_error, string \<times> u64 option) result" where
  "fork_pragma_loop [] found network height = Inr (network, height)"
| "fork_pragma_loop (None # ps) found network height = fork_pragma_loop ps found network height"
| "fork_pragma_loop (Some p # ps) found network height =
     (if \<not> is_fork_pragma p then fork_pragma_loop ps found network height
      else if found then Inl MultiplePragmas
      else case fork_arguments (pv_arguments p) of
        Inl e \<Rightarrow> Inl e
      | Inr (network', height') \<Rightarrow> fork_pragma_loop ps True network' height')"

definition extract_fork_pragma :: "pragma_invocation option list \<Rightarrow> (pragma_error, string \<times> u64 option) result" where
  "extract_fork_pragma ps = (if ps = [] then Inr ('''', None) else fork_pragma_loop ps False '''' None)"

text \<open>The fork pragmas of a program.\<close>

definition fork_pragmas :: "pragma_invocation option list \<Rightarrow> pragma_invocation list" where
  "fork_pragmas ps = filter is_fork_pragma (List.map_filter id ps)"

lemma fork_pragmas_simps [simp]:
  "fork_pragmas [] = []" "fork_pragmas (None # ps) = fork_pragmas ps"
  "fork_pragmas (Some p # ps) = (if is_fork_pragma p then p # fork_pragmas ps else fork_pragmas ps)"
  by (simp_all add: fork_pragmas_def map_filter_simps)

lemma fork_pragma_loop_found:
  "fork_pragma_loop ps True network height = (if fork_pragmas ps = [] then Inr (network, height) else Inl MultiplePragmas)"
  by (induction ps True network height rule: fork_pragma_loop.induct) auto

lemma fork_pragma_loop_first:
  "fork_pragma_loop ps False network height =
     (case fork_pragmas ps of
        [] \<Rightarrow> Inr (network, height)
      | p # qs \<Rightarrow> (case fork_arguments (pv_arguments p) of
          Inl e \<Rightarrow> Inl e
        | Inr r \<Rightarrow> if qs = [] then Inr r else Inl MultiplePragmas))"
  by (induction ps False network height rule: fork_pragma_loop.induct)
     (auto simp: fork_pragma_loop_found split: sum.split)

lemma extract_fork_pragma_cases:
  "extract_fork_pragma ps =
     (case fork_pragmas ps of
        [] \<Rightarrow> Inr ('''', None)
      | p # qs \<Rightarrow> (case fork_arguments (pv_arguments p) of
          Inl e \<Rightarrow> Inl e
        | Inr r \<Rightarrow> if qs = [] then Inr r else Inl MultiplePragmas))"
  by (cases ps) (simp_all add: extract_fork_pragma_def fork_pragma_loop_first del: fork_pragma_loop.simps)

lemma parse_uint64_Some: "parse_uint64 n = Some h \<longleftrightarrow> n = uint h"
proof
  assume "parse_uint64 n = Some h"
  then have "0 \<le> n" "n < 2 ^ 64" and h: "h = word_of_int n"
    by (auto simp: parse_uint64_def split: if_splits)
  then show "n = uint h" by (simp add: uint_word_of_int_eq take_bit_int_eq_self)
next
  assume "n = uint h"
  moreover have "0 \<le> uint h" "uint h < 2 ^ 64" using unsigned_less [of h, where ?'a = int] by auto
  ultimately show "parse_uint64 n = Some h" by (simp add: parse_uint64_def)
qed

lemma parse_uint64_uint [simp]: "parse_uint64 (uint h) = Some h"
  by (simp add: parse_uint64_Some)

definition height_argument :: "u64 option \<Rightarrow> pragma_argument" where
  "height_argument height = (case height of None \<Rightarrow> NilLiteral | Some h \<Rightarrow> IntegerLiteral (uint h))"

lemma fork_height_Inr: "fork_height a = Inr h \<longleftrightarrow> a = height_argument h"
proof (cases a)
  case (IntegerLiteral n)
  then show ?thesis
    by (cases "parse_uint64 n"; cases h) (auto simp: fork_height_def parse_uint64_Some height_argument_def word_uint_eq_iff)
qed (cases h; auto simp: fork_height_def height_argument_def)+

lemma map_sum_Inr: "map_sum id f r = Inr y \<longleftrightarrow> (\<exists>x. r = Inr x \<and> f x = y)"
  by (cases r) auto

lemma fork_arguments_Inr:
  "fork_arguments args = Inr (network, height) \<longleftrightarrow>
     network \<noteq> '''' \<and> args = [(''network'', StringLiteral network), (''height'', height_argument height)]"
proof (cases "\<exists>l1 a1 l2 a2. args = [(l1, a1), (l2, a2)]")
  case True
  then obtain l1 a1 l2 a2 where args: "args = [(l1, a1), (l2, a2)]" by blast
  show ?thesis
    by (cases a1) (auto simp: args fork_arguments_def map_sum_Inr fork_height_Inr)
next
  case False
  then have "length args \<noteq> 2" by (auto simp: length_Suc_conv numeral_2_eq_2)
  then show ?thesis using False by (auto simp: fork_arguments_def)
qed

text \<open>
  A program without a fork pragma selects no network. A network is selected exactly by a single fork pragma
  whose two arguments are a network that is not empty and a height that is nil or fits 64 bits,
  in this order and with these labels; everything else is an error.
\<close>

theorem extract_fork_pragma_iff:
  "extract_fork_pragma ps = Inr (network, height) \<longleftrightarrow>
     (if fork_pragmas ps = [] then network = '''' \<and> height = None
      else network \<noteq> '''' \<and>
        map pv_arguments (fork_pragmas ps) =
          [[(''network'', StringLiteral network), (''height'', height_argument height)]])"
proof (cases "fork_pragmas ps")
  case (Cons p qs)
  have "extract_fork_pragma ps = Inr (network, height) \<longleftrightarrow>
      fork_arguments (pv_arguments p) = Inr (network, height) \<and> qs = []"
    by (cases "fork_arguments (pv_arguments p)") (auto simp: extract_fork_pragma_cases Cons)
  then show ?thesis unfolding fork_arguments_Inr by (auto simp: Cons)
qed (auto simp: extract_fork_pragma_cases)

section \<open>Collected log messages (logCollectionHook)\<close>

definition double_quote :: char where "double_quote = CHR 0x22"
definition line_feed :: char where "line_feed = CHR 0x0A"

text \<open>\<^verbatim>\<open>strings.Replace(msg, "LOG:", "", 1)\<close>\<close>

definition drop_log_prefix :: "string \<Rightarrow> string" where
  "drop_log_prefix msg = (case str_index msg ''LOG:'' of None \<Rightarrow> msg | Some i \<Rightarrow> take i msg @ drop (i + 4) msg)"

definition before_last :: "char \<Rightarrow> string \<Rightarrow> string option" where
  "before_last c s = (if c \<in> set s then Some (rev (tl (dropWhile (\<lambda>d. d \<noteq> c) (rev s)))) else None)"

text \<open>
  The first group of the leftmost match of a quote, anything but line feeds, and a quote; it is
  as long as possible.
\<close>

fun quoted_match :: "string \<Rightarrow> string option" where
  "quoted_match [] = None"
| "quoted_match (c # s) =
     (case (if c = double_quote then before_last double_quote (takeWhile (\<lambda>d. d \<noteq> line_feed) s) else None) of
        Some m \<Rightarrow> Some m
      | None \<Rightarrow> quoted_match s)"

definition log_hook_run :: "bool \<Rightarrow> string \<Rightarrow> string list \<Rightarrow> string list" where
  "log_hook_run no_level msg logs =
     (if no_level then logs
      else let m = drop_log_prefix msg
           in logs @ [case quoted_match m of Some q \<Rightarrow> q | None \<Rightarrow> m])"

lemma before_last_append: "before_last c (s @ [c]) = Some s"
  by (simp add: before_last_def)

lemma before_last_None: "c \<notin> set s \<Longrightarrow> before_last c s = None"
  by (simp add: before_last_def)

lemma quoted_match_None: "double_quote \<notin> set s \<Longrightarrow> quoted_match s = None"
  by (induction s) auto

lemma quoted_match_skip: "double_quote \<notin> set p \<Longrightarrow> quoted_match (p @ s) = quoted_match s"
  by (induction p) auto

lemma takeWhile_line: "line_feed \<notin> set s \<Longrightarrow> takeWhile (\<lambda>d. d \<noteq> line_feed) s = s"
  by (simp add: takeWhile_eq_all_conv) blast

lemma drop_log_prefix_simp: "drop_log_prefix (''LOG:'' @ s) = s"
  by (simp add: drop_log_prefix_def has_prefix_iff)

text \<open>
  What is collected of a message is only what is between the first and the last quote, so a logged string is
  collected as it is; but what stands around the quotes of any other value is lost: a list of one
  string is collected like the string.
\<close>

theorem logged_text_between_quotes:
  assumes "double_quote \<notin> set p" "double_quote \<notin> set r" "line_feed \<notin> set s" "line_feed \<notin> set r"
  shows "log_hook_run False (''LOG:'' @ p @ [double_quote] @ s @ [double_quote] @ r) logs = logs @ [s]"
proof -
  have line: "takeWhile (\<lambda>d. d \<noteq> line_feed) (s @ double_quote # r) = (s @ [double_quote]) @ r"
    using takeWhile_line [of "s @ double_quote # r"] assms(3,4) by (simp add: double_quote_def line_feed_def)
  have "dropWhile (\<lambda>d. d \<noteq> double_quote) (rev r @ double_quote # rev s) = double_quote # rev s"
    using assms(2) by (subst dropWhile_append2) auto
  then have "before_last double_quote ((s @ [double_quote]) @ r) = Some s"
    by (simp add: before_last_def)
  then have "quoted_match (p @ [double_quote] @ s @ [double_quote] @ r) = Some s"
    unfolding quoted_match_skip [OF assms(1)] using line by (simp add: takeWhile_line [OF assms(4)])
  then show ?thesis
    unfolding log_hook_run_def drop_log_prefix_simp by simp
qed

theorem logged_text_between_quotes_witness:
  "log_hook_run False (''LOG: '' @ [double_quote] @ ''a'' @ [double_quote]) [] = [''a''] \<and>
   log_hook_run False (''LOG: ['' @ [double_quote] @ ''a'' @ [double_quote] @ '']'') [] = [''a'']"
  using logged_text_between_quotes [of "'' ''" "''''" "''a''" "[]"]
    logged_text_between_quotes [of "'' [''" "'']''" "''a''" "[]"]
  by (simp add: double_quote_def line_feed_def)

lemma logged_value_without_quotes:
  "double_quote \<notin> set v \<Longrightarrow> log_hook_run False (''LOG:'' @ v) logs = logs @ [v]"
  unfolding log_hook_run_def drop_log_prefix_simp by (simp add: quoted_match_None)

section \<open>Reports (PrettyPrintResult, PrettyPrintResults)\<close>

text \<open>
  The width of the first character of a string, after the decoder of UTF-8 of Go: a byte that starts no
  valid character is a character by itself.
\<close>

definition byte_in :: "nat \<Rightarrow> nat \<Rightarrow> string \<Rightarrow> nat \<Rightarrow> bool" where
  "byte_in lo hi s i \<longleftrightarrow> i < length s \<and> lo \<le> of_char (s ! i) \<and> of_char (s ! i) \<le> hi"

definition rune_width :: "string \<Rightarrow> nat" where
  "rune_width s =
     (let cont = byte_in 0x80 0xBF s
      in if byte_in 0xC2 0xDF s 0 \<and> cont 1 then 2
         else if (byte_in 0xE0 0xE0 s 0 \<and> byte_in 0xA0 0xBF s 1
                  \<or> byte_in 0xE1 0xEC s 0 \<and> cont 1 \<or> byte_in 0xED 0xED s 0 \<and> byte_in 0x80 0x9F s 1
                  \<or> byte_in 0xEE 0xEF s 0 \<and> cont 1) \<and> cont 2 then 3
         else if (byte_in 0xF0 0xF0 s 0 \<and> byte_in 0x90 0xBF s 1 \<or> byte_in 0xF1 0xF3 s 0 \<and> cont 1
                  \<or> byte_in 0xF4 0xF4 s 0 \<and> byte_in 0x80 0x8F s 1) \<and> cont 2 \<and> cont 3 then 4
         else 1)"

lemma rune_width_pos [simp]: "0 < rune_width s"
  by (simp add: rune_width_def Let_def)

text \<open>\<^verbatim>\<open>strings.ReplaceAll\<close>; an empty old text is found in front of every character and at the end.\<close>

function replace_all :: "string \<Rightarrow> string \<Rightarrow> string \<Rightarrow> string" where
  "replace_all old new s =
     (if old = [] then
        (if s = [] then new else new @ take (rune_width s) s @ replace_all old new (drop (rune_width s) s))
      else if s = [] then []
      else if has_prefix s old then new @ replace_all old new (drop (length old) s)
      else hd s # replace_all old new (tl s))"
  by pat_completeness auto
termination
  by (relation "measure (\<lambda>(old, new, s). length s)") (auto simp: has_prefix_iff)

declare replace_all.simps [simp del]

text \<open>An error of a test: the message, and the location if it is an error of the interpreter.\<close>

record test_error =
  te_message :: string
  te_location :: "string option"

definition pretty_print_result :: "string \<Rightarrow> string \<Rightarrow> test_error option \<Rightarrow> string option" where
  "pretty_print_result script_path func_name err =
     (case err of
        None \<Rightarrow> Some (''- PASS: '' @ func_name)
      | Some e \<Rightarrow>
          (case te_location e of
             None \<Rightarrow> None
           | Some l \<Rightarrow>
               (let err_string = replace_all l script_path (te_message e);
                    indented = replace_all [line_feed] ([line_feed] @ replicate 3 (CHR 0x09)) err_string
                in Some (''- FAIL: '' @ func_name @ [line_feed] @ replicate 2 (CHR 0x09) @ indented))))"

text \<open>\<open>quote\<close> is \<^verbatim>\<open>strconv.Quote\<close>, with Unicode's table of printable characters.\<close>

fun pretty_print_loop :: "string \<Rightarrow> (string \<times> test_error option) list \<Rightarrow> string \<Rightarrow> string option" where
  "pretty_print_loop script_path [] sb = Some sb"
| "pretty_print_loop script_path ((name, err) # rs) sb =
     (case pretty_print_result script_path name err of
        None \<Rightarrow> None
      | Some t \<Rightarrow> pretty_print_loop script_path rs (sb @ t @ [line_feed]))"

definition pretty_print_results :: "(string \<Rightarrow> string) \<Rightarrow> (string \<times> test_error option) list \<Rightarrow> string \<Rightarrow> string option" where
  "pretty_print_results quote results script_path =
     pretty_print_loop script_path results (''Test results: '' @ quote script_path @ [line_feed])"

lemma split_on_line: "c \<notin> set p \<Longrightarrow> split_on c (p @ c # t) = p # split_on c t"
  by (induction p) auto

lemma split_on_indented:
  "c \<notin> set p \<Longrightarrow> split_on c (p @ t) = (case split_on c t of l # ls \<Rightarrow> (p @ l) # ls | [] \<Rightarrow> [])"
  by (induction p) (auto split: list.splits)

lemma replace_line_feeds:
  "split_on line_feed (replace_all [line_feed] (line_feed # new) s) =
     (case split_on line_feed s of l # ls \<Rightarrow> l # map (\<lambda>l. new @ l) ls | [] \<Rightarrow> [])"
  if "line_feed \<notin> set new"
proof (induction s)
  case Nil
  then show ?case by (simp add: replace_all.simps)
next
  case (Cons c s)
  note pre = split_on_indented [OF that]
  obtain l ls where l: "split_on line_feed s = l # ls" by (cases "split_on line_feed s") auto
  show ?case
    using Cons by (simp add: replace_all.simps [of _ _ "c # s"] has_prefix_def pre l)
qed

text \<open>
  The report of a failed test is the line with its name and the lines of the message, in which the
  path of the script stands for its location, each with its indentation: two tabs for the first
  line, three for the others.
\<close>

theorem failure_report_lines:
  assumes "te_location e = Some l" "line_feed \<notin> set name"
    and "split_on line_feed (replace_all l path (te_message e)) = m # ms"
  shows "\<exists>report. pretty_print_result path name (Some e) = Some report \<and>
    split_on line_feed report =
      (''- FAIL: '' @ name) # (replicate 2 (CHR 0x09) @ m) # map (\<lambda>m. replicate 3 (CHR 0x09) @ m) ms"
proof -
  have tabs: "line_feed \<notin> set (replicate n (CHR 0x09))" for n by (simp add: line_feed_def)
  have "line_feed \<notin> set (''- FAIL: '' @ name)" using assms(2) by (simp add: line_feed_def)
  from split_on_line [OF this] split_on_indented [OF tabs] replace_line_feeds [OF tabs] show ?thesis
    using assms(1,3) by (simp add: pretty_print_result_def Let_def)
qed

theorem failure_report_lines_witness:
  "\<exists>report. pretty_print_result ''a.cdc'' ''testA''
       (Some \<lparr>te_message = ''bad'' @ [line_feed] @ ''at x'', te_location = Some ''x''\<rparr>) = Some report \<and>
     split_on line_feed report = [''- FAIL: testA'', replicate 2 (CHR 0x09) @ ''bad'', replicate 3 (CHR 0x09) @ ''at a.cdc'']"
proof -
  let ?e = "\<lparr>te_message = ''bad'' @ [line_feed] @ ''at x'', te_location = Some ''x''\<rparr>"
  have lines: "split_on line_feed (replace_all ''x'' ''a.cdc'' (te_message ?e)) = [''bad'', ''at a.cdc'']"
    by (simp add: replace_all.simps has_prefix_def line_feed_def)
  have "te_location ?e = Some ''x''" "line_feed \<notin> set ''testA''" by (simp_all add: line_feed_def)
  from failure_report_lines [OF this lines] show ?thesis by simp
qed

text \<open>The report of a whole file is written exactly when every failure is an error of the interpreter.\<close>

lemma pretty_print_result_returns:
  "pretty_print_result path name err \<noteq> None \<longleftrightarrow> (case err of None \<Rightarrow> True | Some e \<Rightarrow> te_location e \<noteq> None)"
  by (auto simp: pretty_print_result_def Let_def split: option.splits)

lemma pretty_print_loop_returns:
  "pretty_print_loop path rs sb \<noteq> None \<longleftrightarrow> list_all (\<lambda>(name, err). pretty_print_result path name err \<noteq> None) rs"
  by (induction path rs sb rule: pretty_print_loop.induct) (auto split: option.splits)

text \<open>
  The report of a script is written exactly when every failed test failed with an error of the
  interpreter; any other error, as of a recovered panic, makes the report panic.
\<close>

theorem report_needs_interpreter_errors:
  "pretty_print_results quote results path \<noteq> None \<longleftrightarrow>
     list_all (\<lambda>(name, err). case err of None \<Rightarrow> True | Some e \<Rightarrow> te_location e \<noteq> None) results"
  unfolding pretty_print_results_def pretty_print_loop_returns pretty_print_result_returns ..

section \<open>Rewriting of imports (replaceImports)\<close>

text \<open>
  An import of a parsed program, with the offsets of its location and of its last byte, and its text as
  the syntax tree prints it. An address is written by its hexadecimal digits.
\<close>

record import_declaration =
  im_names :: "string list"
  im_location :: location
  im_location_offset :: int
  im_end_offset :: int
  im_text :: string

type_synonym address_resolver = "string \<Rightarrow> string \<Rightarrow> (string, string) result"

definition default_network_label :: string where "default_network_label = ''testing''"

definition network_or_default :: "string \<Rightarrow> string" where
  "network_or_default label = (if label \<noteq> '''' then label else default_network_label)"

text \<open>The text that replaces an import from its location on, if it is to be replaced.\<close>

definition import_replacement :: "address_resolver option \<Rightarrow> string \<Rightarrow> import_declaration \<Rightarrow> string option" where
  "import_replacement resolver label im =
     (case im_location im of
        StringLocation l \<Rightarrow>
          (let contract_name = (if length (im_names im) > 0 then im_names im ! 0 else l)
           in case resolver of
                None \<Rightarrow> None
              | Some resolve \<Rightarrow>
                  (case resolve (network_or_default label) contract_name of
                     Inl e \<Rightarrow> None
                   | Inr address \<Rightarrow>
                       (if str_index (im_text im) ''from'' \<noteq> None then Some (''0x'' @ address)
                        else Some (l @ '' from 0x'' @ address))))
      | _ \<Rightarrow> None)"

text \<open>The loop over the imports, from the end of the one before.\<close>

fun replace_loop ::
    "address_resolver option \<Rightarrow> string \<Rightarrow> string \<Rightarrow> int \<Rightarrow> import_declaration list \<Rightarrow> string \<Rightarrow> string option" where
  "replace_loop resolver label code prev [] sb =
     (case go_slice code prev (int (length code)) of None \<Rightarrow> None | Some t \<Rightarrow> Some (sb @ t))"
| "replace_loop resolver label code prev (im # ims) sb =
     (let import_end = im_end_offset im + 1
      in case import_replacement resolver label im of
           None \<Rightarrow>
             (case go_slice code prev import_end of
                None \<Rightarrow> None
              | Some t \<Rightarrow> replace_loop resolver label code import_end ims (sb @ t))
         | Some r \<Rightarrow>
             (case go_slice code prev (im_location_offset im) of
                None \<Rightarrow> None
              | Some t \<Rightarrow> replace_loop resolver label code import_end ims (sb @ t @ r)))"

text \<open>A program that does not parse makes it panic.\<close>

definition replace_imports ::
    "(string \<Rightarrow> (string, import_declaration list) result) \<Rightarrow> address_resolver option \<Rightarrow> string \<Rightarrow> string \<Rightarrow>
     string option" where
  "replace_imports parse resolver label code =
     (case parse code of Inl e \<Rightarrow> None | Inr ims \<Rightarrow> replace_loop resolver label code 0 ims '''')"

text \<open>The positions of imports that a parser gives: one after the other, within the text.\<close>

fun imports_within :: "int \<Rightarrow> int \<Rightarrow> import_declaration list \<Rightarrow> bool" where
  "imports_within prev n [] \<longleftrightarrow> prev \<le> n"
| "imports_within prev n (im # ims) \<longleftrightarrow>
     prev \<le> im_location_offset im \<and> im_location_offset im \<le> im_end_offset im + 1 \<and>
     imports_within (im_end_offset im + 1) n ims"

lemma imports_within_le: "imports_within prev n ims \<Longrightarrow> prev \<le> n"
  by (induction prev n ims rule: imports_within.induct) auto

text \<open>The same as edits of the text, made from the last one to the first so that no offset moves.\<close>

definition import_edit :: "address_resolver option \<Rightarrow> string \<Rightarrow> import_declaration \<Rightarrow> string \<Rightarrow> string" where
  "import_edit resolver label im code =
     (case import_replacement resolver label im of
        None \<Rightarrow> code
      | Some r \<Rightarrow> take (nat (im_location_offset im)) code @ r @ drop (nat (im_end_offset im + 1)) code)"

lemma import_edit_simps:
  "import_replacement resolver label im = None \<Longrightarrow> import_edit resolver label im code = code"
  "import_replacement resolver label im = Some r \<Longrightarrow>
     import_edit resolver label im code =
       take (nat (im_location_offset im)) code @ r @ drop (nat (im_end_offset im + 1)) code"
  by (simp_all add: import_edit_def)

lemma import_edits_keep_front:
  "imports_within prev n ims \<Longrightarrow> 0 \<le> prev \<Longrightarrow> n \<le> int (length code) \<Longrightarrow>
   take (nat prev) (foldr (import_edit resolver label) ims code) = take (nat prev) code \<and>
   nat prev \<le> length (foldr (import_edit resolver label) ims code)"
proof (induction prev n ims rule: imports_within.induct)
  case (2 prev n im ims)
  define rest where "rest = foldr (import_edit resolver label) ims code"
  have rest: "take (nat (im_end_offset im + 1)) rest = take (nat (im_end_offset im + 1)) code"
      "nat (im_end_offset im + 1) \<le> length rest"
    using 2 by (auto simp: rest_def)
  have le: "nat prev \<le> nat (im_location_offset im)" "nat (im_location_offset im) \<le> nat (im_end_offset im + 1)"
    using 2 by auto
  then have front: "take (nat prev) rest = take (nat prev) code"
    using rest(1) by (metis min.absorb1 order.trans take_take)
  have "take (nat prev) (import_edit resolver label im rest) = take (nat prev) rest \<and>
      nat prev \<le> length (import_edit resolver label im rest)"
    using le rest(2) by (cases "import_replacement resolver label im"; simp add: import_edit_def; linarith)
  then show ?case using front by (simp add: rest_def)
qed auto

lemma replace_loop_edits:
  "imports_within prev (int (length code)) ims \<Longrightarrow> 0 \<le> prev \<Longrightarrow>
   replace_loop resolver label code prev ims sb =
     Some (sb @ drop (nat prev) (foldr (import_edit resolver label) ims code))"
proof (induction ims arbitrary: prev sb)
  case Nil
  then show ?case by (simp add: go_slice_def)
next
  case (Cons im ims)
  define e where "e = im_end_offset im + 1"
  define l where "l = im_location_offset im"
  define rest where "rest = foldr (import_edit resolver label) ims code"
  have w: "imports_within e (int (length code)) ims" "prev \<le> l" "l \<le> e" "0 \<le> prev"
    using Cons.prems by (auto simp: e_def l_def)
  have n: "e \<le> int (length code)" using imports_within_le [OF w(1)] .
  have front: "take (nat e) rest = take (nat e) code" "nat e \<le> length rest"
    using import_edits_keep_front [OF w(1), of code resolver label] w by (auto simp: rest_def)
  have slice: "go_slice code prev i = Some (drop (nat prev) (take (nat i) code))" if "prev \<le> i" "i \<le> e" for i
    using that w n by (simp add: go_slice_def drop_take nat_diff_distrib)
  have IH: "replace_loop resolver label code e ims sb' = Some (sb' @ drop (nat e) rest)" for sb'
    using Cons.IH [OF w(1)] w by (simp add: rest_def)
  show ?case
  proof (cases "import_replacement resolver label im")
    case None
    have "replace_loop resolver label code prev (im # ims) sb =
        Some (sb @ drop (nat prev) (take (nat e) rest) @ drop (nat e) rest)"
      using IH w slice [of e] by (simp add: None Let_def e_def [symmetric] front)
    also have "drop (nat prev) (take (nat e) rest) @ drop (nat e) rest = drop (nat prev) rest"
      using drop_append [of "nat prev" "take (nat e) rest" "drop (nat e) rest"] front(2) w by simp
    finally show ?thesis using None by (simp add: import_edit_simps rest_def)
  next
    case (Some r)
    have locs: "take (nat l) rest = take (nat l) code"
      using front(1) w by (metis min.absorb1 nat_mono take_take)
    have "replace_loop resolver label code prev (im # ims) sb =
        Some (sb @ drop (nat prev) (take (nat l) rest) @ r @ drop (nat e) rest)"
      using IH w slice [of l] by (simp add: Some Let_def e_def [symmetric] l_def [symmetric] locs)
    also have "drop (nat prev) (take (nat l) rest) @ r @ drop (nat e) rest =
        drop (nat prev) (take (nat l) rest @ r @ drop (nat e) rest)"
      using w n front(2) by simp
    finally show ?thesis using Some by (simp add: import_edit_simps rest_def e_def l_def)
  qed
qed

text \<open>
  C36. Rewriting the imports of a program replaces, in every import of a known contract by name, what
  stands from the location to the end of the import, and changes nothing else of the text; it is
  the same as editing the imports one by one from the last to the first.
\<close>

theorem replace_imports_edits:
  assumes "parse code = Inr ims" "imports_within 0 (int (length code)) ims"
  shows "replace_imports parse resolver label code = Some (foldr (import_edit resolver label) ims code)"
  using replace_loop_edits [OF assms(2)] assms(1) by (simp add: replace_imports_def)

definition demo_import :: "string \<Rightarrow> string \<Rightarrow> import_declaration" where
  "demo_import name t =
     \<lparr>im_names = [], im_location = StringLocation name, im_location_offset = 7,
      im_end_offset = int (length t) - 1, im_text = t\<rparr>"

definition demo_resolver :: address_resolver where
  "demo_resolver network name = (if name = ''Unknown'' then Inl ''not found'' else Inr ''0000000000000007'')"

theorem replace_imports_edits_witness:
  "replace_imports (\<lambda>s. Inr [demo_import ''Foo'' (''import '' @ [double_quote] @ ''Foo'' @ [double_quote])]) (Some demo_resolver) ''''
     (''import '' @ [double_quote] @ ''Foo'' @ [double_quote] @ '' // x'') =
   Some ''import Foo from 0x0000000000000007 // x''"
  using replace_imports_edits [of "\<lambda>s. Inr [demo_import ''Foo'' (''import '' @ [double_quote] @ ''Foo'' @ [double_quote])]"
      "''import '' @ [double_quote] @ ''Foo'' @ [double_quote] @ '' // x''"
      "[demo_import ''Foo'' (''import '' @ [double_quote] @ ''Foo'' @ [double_quote])]" "Some demo_resolver" "''''"]
  by (simp add: demo_import_def import_edit_def import_replacement_def demo_resolver_def double_quote_def has_prefix_iff)

text \<open>
  Whether an import has a from clause is decided by the word anywhere in its text: an import of a
  contract whose name contains it loses the name.
\<close>

theorem from_in_name_breaks_import:
  "import_replacement (Some demo_resolver) '''' (demo_import ''Afrom'' (''import '' @ [double_quote] @ ''Afrom'' @ [double_quote])) =
     Some ''0x0000000000000007''"
  by (simp add: import_replacement_def demo_import_def demo_resolver_def double_quote_def has_prefix_iff)

text \<open>An import without a from clause, in whose text the word does not occur, keeps the name.\<close>

lemma import_by_name:
  "im_location im = StringLocation l \<Longrightarrow> im_names im = [] \<Longrightarrow> str_index (im_text im) ''from'' = None \<Longrightarrow>
   resolve (network_or_default label) l = Inr a \<Longrightarrow>
   import_replacement (Some resolve) label im = Some (l @ '' from 0x'' @ a)"
  by (simp add: import_replacement_def)

section \<open>Built-in contracts (systemAddressLocationsForChain, newContractResolverWithBuiltins)\<close>

text \<open>The addresses of a chain that the code reads, and the contracts the emulator deploys on it.\<close>

record flow_chain =
  ch_id :: string
  ch_service :: string
  ch_flow_token :: string
  ch_fungible_token :: string
  ch_flow_fees :: string
  ch_non_fungible_token :: string
  ch_execution_parameters :: string
  ch_migration :: string
  ch_common_contracts :: "(string \<times> string) list"

definition service_contracts :: "string list" where
  "service_contracts =
     [''FlowServiceAccount'', ''FlowStorageFees'', ''FlowClusterQC'', ''FlowDKG'', ''FlowEpoch'', ''FlowIDTableStaking'',
      ''FlowStakingCollection'', ''LockedTokens'', ''NodeVersionBeacon'', ''StakingProxy'', ''NonFungibleToken'',
      ''MetadataViews'', ''ViewResolver'', ''RandomBeaconHistory'', ''EVM'', ''Burner'', ''Crypto'',
      ''CrossVMMetadataViews'', ''CrossVMNFT'', ''CrossVMToken'', ''FlowEVMBridge'', ''FlowEVMBridgeAccessor'',
      ''FlowEVMBridgeConfig'', ''FlowEVMBridgeHandlerInterfaces'', ''FlowEVMBridgeHandlers'',
      ''FlowEVMBridgeNFTEscrow'', ''FlowEVMBridgeResolver'', ''FlowEVMBridgeTemplates'',
      ''FlowEVMBridgeTokenEscrow'', ''FlowEVMBridgeUtils'', ''IBridgePermissions'', ''ICrossVM'', ''ICrossVMAsset'',
      ''IEVMBridgeNFTMinter'', ''IEVMBridgeTokenMinter'', ''IFlowEVMNFTBridge'', ''IFlowEVMTokenBridge'',
      ''FlowTransactionScheduler'', ''FlowTransactionSchedulerUtils'']"

definition system_contracts :: "flow_chain \<Rightarrow> (string \<times> string) list" where
  "system_contracts ch =
     map (\<lambda>n. (n, ch_service ch)) service_contracts @
     [(''FlowToken'', ch_flow_token ch), (''FungibleToken'', ch_fungible_token ch),
      (''FungibleTokenMetadataViews'', ch_fungible_token ch), (''FlowFees'', ch_flow_fees ch),
      (''FungibleTokenSwitchboard'', ch_fungible_token ch), (''NFTStorefrontV2'', ch_non_fungible_token ch),
      (''USDCFlow'', ch_fungible_token ch), (''FlowExecutionParameters'', ch_execution_parameters ch),
      (''Migration'', ch_migration ch)]"

definition system_address_locations :: "flow_chain \<Rightarrow> location list" where
  "system_address_locations ch = map (\<lambda>(n, a). AddressLocation a n) (system_contracts ch)"

definition builtin_contracts :: "flow_chain \<Rightarrow> (string, string) gomap" where
  "builtin_contracts ch = fold (\<lambda>(n, a) m. AList.update n a m) (system_contracts ch @ ch_common_contracts ch) []"

definition resolver_with_builtins :: "flow_chain \<Rightarrow> address_resolver option \<Rightarrow> address_resolver" where
  "resolver_with_builtins ch user network contract_name =
     (let builtin = (case map_of (builtin_contracts ch) contract_name of
                       Some a \<Rightarrow> Inr a
                     | None \<Rightarrow> Inl (''contract '' @ contract_name @ '' not found''))
      in case user of
           None \<Rightarrow> builtin
         | Some resolve \<Rightarrow>
             (case resolve network contract_name of Inr a \<Rightarrow> Inr a | Inl e \<Rightarrow> builtin))"

definition excluded_locations :: "flow_chain \<Rightarrow> location list" where
  "excluded_locations ch =
     system_address_locations ch @ map (\<lambda>(n, a). AddressLocation a n) (ch_common_contracts ch)"

lemma map_of_fold_update:
  "map_of (fold (\<lambda>(n, a) m. AList.update n a m) ws m) = map_of m ++ map_of (rev ws)"
  by (induction ws arbitrary: m) (auto simp: update_conv' map_add_upd_left split: prod.split)

lemma system_contract_names: "distinct (map fst (system_contracts ch))"
  by (simp add: system_contracts_def service_contracts_def)

text \<open>
  A contract of the framework is known everywhere: with the resolver that the framework uses, every
  contract that is left out of coverage reports resolves to its address when the user's
  resolver does not know it; one that the emulator deploys wins over a system contract of its name.
\<close>

theorem builtin_contracts_resolve:
  assumes excluded: "AddressLocation a n \<in> set (excluded_locations ch)"
    and common: "distinct (map fst (ch_common_contracts ch))"
    and wins: "n \<in> fst ` set (ch_common_contracts ch) \<Longrightarrow> (n, a) \<in> set (ch_common_contracts ch)"
    and user: "\<And>resolve. user = Some resolve \<Longrightarrow> \<not> is_ok (resolve network n)"
  shows "resolver_with_builtins ch user network n = Inr a"
proof -
  have rev: "map_of (rev ws) n = Some a" if "distinct (map fst ws)" "(n, a) \<in> set ws" for ws :: "(string \<times> string) list"
    using that by (simp add: map_of_is_SomeI rev_map [symmetric])
  have "map_of (builtin_contracts ch) n =
      (map_of (rev (system_contracts ch)) ++ map_of (rev (ch_common_contracts ch))) n"
    unfolding builtin_contracts_def map_of_fold_update by (simp add: map_add_def)
  also have "\<dots> = Some a"
  proof (cases "n \<in> fst ` set (ch_common_contracts ch)")
    case True
    then show ?thesis using rev [OF common wins] by (simp add: map_add_def)
  next
    case False
    then have "(n, a) \<in> set (system_contracts ch)"
      using excluded by (force simp: excluded_locations_def system_address_locations_def)
    moreover have "map_of (rev (ch_common_contracts ch)) n = None" using False by (simp add: map_of_eq_None_iff)
    ultimately show ?thesis using rev [OF system_contract_names] by (simp add: map_add_def)
  qed
  finally show ?thesis
    using user by (auto simp: resolver_with_builtins_def Let_def is_ok_def split: option.split sum.splits)
qed

definition demo_flow_chain :: flow_chain where
  "demo_flow_chain =
     \<lparr>ch_id = ''flow-emulator'', ch_service = ''01'', ch_flow_token = ''03'', ch_fungible_token = ''02'', ch_flow_fees = ''04'',
      ch_non_fungible_token = ''01'', ch_execution_parameters = ''01'', ch_migration = ''01'',
      ch_common_contracts = [(''ExampleNFT'', ''01'')]\<rparr>"

theorem builtin_contracts_resolve_witness:
  "resolver_with_builtins demo_flow_chain (Some (\<lambda>network n. Inl ''unknown'')) ''testing'' ''FlowToken'' = Inr ''03''"
  by (rule builtin_contracts_resolve)
     (auto simp: demo_flow_chain_def excluded_locations_def system_address_locations_def system_contracts_def)

end
