(* ===== verification/EmulatorBackend.thy ===== *)
theory EmulatorBackend
  imports TestText "HOL-Library.List_Lexorder"
begin

text \<open>
  The backend of the test framework (src/test/emulator_backend.go, test_framework_provider.go): accounts
  and their keys, transactions, deployments, events, and its construction. The emulator, the
  conversion of values and the network are parameters; the emulator's state is threaded through the
  calls. A run-time panic is \<open>None\<close>; strings of errors are messages.
\<close>

section \<open>State\<close>

type_synonym flow_addr = string

record pub_key =
  pk_bytes :: string
  pk_algorithm :: nat

record test_account =
  ta_address :: flow_addr
  ta_key :: pub_key

record 'k service_key =
  vk_address :: flow_addr
  vk_index :: u32
  vk_sequence :: u64
  vk_signer :: "(string, 'k) result"

record 'k key_info =
  ki_account_key :: string
  ki_signer :: 'k

text \<open>
  A transaction of the SDK. The proposal key is an address, a key index and a sequence number. A payload
  signature has no signer in fork mode, where it is a dummy.
\<close>

record 'k test_tx =
  tt_script :: string
  tt_proposer :: "flow_addr \<times> u32 \<times> u64"
  tt_payer :: flow_addr
  tt_authorizers :: "flow_addr list"
  tt_arguments :: "string list"
  tt_payload :: "(flow_addr \<times> 'k option) list"
  tt_envelope :: "(flow_addr \<times> u32 \<times> 'k) list"

text \<open>The execution of the next transaction of the pending block: an error of the emulator or the result.\<close>

datatype execution = TransactionsExhausted | ExecutionFailed string | ExecutionDone "string option"

record ('b, 'k) test_emulator =
  em_service_key :: "'b \<Rightarrow> 'k service_key"
  em_public_key :: "'k \<Rightarrow> pub_key"
  em_new_key :: "'b \<Rightarrow> 'k \<times> 'b"
  em_create_account :: "'k \<Rightarrow> 'b \<Rightarrow> (string, flow_addr) result \<times> 'b"
  em_contract_names :: "flow_addr \<Rightarrow> 'b \<Rightarrow> (string, string list) result"
  em_contract_code :: "flow_addr \<Rightarrow> string \<Rightarrow> 'b \<Rightarrow> (string, string) result"
  em_sign_error :: "'k \<Rightarrow> 'k test_tx \<Rightarrow> string option"
  em_add_transaction :: "'k test_tx \<Rightarrow> 'b \<Rightarrow> string option \<times> 'b"
  em_execute_next :: "'b \<Rightarrow> execution \<times> 'b"
  em_commit :: "'b \<Rightarrow> string option \<times> 'b"
  em_execute_commit :: "'b \<Rightarrow> string option \<times> 'b"
  em_latest_height :: "'b \<Rightarrow> (string, u64) result"
  em_rollback :: "u64 \<Rightarrow> 'b \<Rightarrow> string option \<times> 'b"
  em_events :: "u64 \<Rightarrow> string \<Rightarrow> 'b \<Rightarrow> (string, string list) result"
  em_execute_script :: "string \<Rightarrow> string list \<Rightarrow> 'b \<Rightarrow> (string, (string, string) result) result"
  em_set_clock :: "64 word \<Rightarrow> 'b \<Rightarrow> 'b"
  em_create_snapshot :: "string \<Rightarrow> 'b \<Rightarrow> string option \<times> 'b"
  em_load_snapshot :: "string \<Rightarrow> 'b \<Rightarrow> string option \<times> 'b"

text \<open>Conversions between the values of the test script and those of the chain, and the parser of imports.\<close>

record 'v test_conversions =
  cv_export :: "'v \<Rightarrow> (string, string) result"
  cv_encode :: "string \<Rightarrow> (string, string) result"
  cv_type_id :: "string \<Rightarrow> string"
  cv_sema_type :: "string \<Rightarrow> (string, string) result"
  cv_import :: "string \<Rightarrow> string option \<Rightarrow> (string, 'v) result"
  cv_imports :: "string \<Rightarrow> (string, import_declaration list) result"

record ('b, 'k) backend =
  bk_blockchain :: 'b
  bk_offset :: u64
  bk_account_keys :: "(flow_addr, (string, 'k key_info) gomap) gomap"
  bk_logs :: "string list"
  bk_time_delta :: "64 word"
  bk_keys :: "(flow_addr, pub_key) gomap"
  bk_file_resolver :: "(string \<Rightarrow> (string, string) result) option"
  bk_chain :: flow_chain
  bk_fork :: bool
  bk_label :: string
  bk_resolver :: "address_resolver option"
  bk_fork_start :: u64

section \<open>Accounts\<close>

definition account_contract_names ::
    "('b, 'k) test_emulator \<Rightarrow> 'b \<Rightarrow> flow_addr \<Rightarrow> (string, string list) result" where
  "account_contract_names em b address =
     map_sum id (sort_key (map (of_char :: char \<Rightarrow> nat))) (em_contract_names em address b)"

definition store_account_key :: "flow_addr \<Rightarrow> string \<Rightarrow> 'k key_info \<Rightarrow> ('b, 'k) backend \<Rightarrow> ('b, 'k) backend" where
  "store_account_key a encoded info bk =
     bk\<lparr>bk_account_keys := AList.update a [(encoded, info)] (bk_account_keys bk)\<rparr>"

definition service_account ::
    "('b, 'k) test_emulator \<Rightarrow> ('b, 'k) backend \<Rightarrow> (string, test_account) result \<times> ('b, 'k) backend" where
  "service_account em bk =
     (let key = em_service_key em (bk_blockchain bk)
      in case vk_signer key of
           Inl e \<Rightarrow> (Inl e, bk)
         | Inr signer \<Rightarrow>
             (let pub = em_public_key em signer
              in (Inr \<lparr>ta_address = vk_address key, ta_key = pub\<rparr>,
                  store_account_key (vk_address key) (pk_bytes pub)
                    \<lparr>ki_account_key = pk_bytes pub, ki_signer = signer\<rparr> bk)))"

definition create_test_account ::
    "('b, 'k) test_emulator \<Rightarrow> ('b, 'k) backend \<Rightarrow> (string, test_account) result \<times> ('b, 'k) backend" where
  "create_test_account em bk =
     (let (signer, b1) = em_new_key em (bk_blockchain bk);
          (res, b2) = em_create_account em signer b1;
          bk1 = bk\<lparr>bk_blockchain := b2\<rparr>
      in case res of
           Inl e \<Rightarrow> (Inl e, bk1)
         | Inr address \<Rightarrow>
             (let pub = em_public_key em signer;
                  bk2 = store_account_key address (pk_bytes pub)
                          \<lparr>ki_account_key = pk_bytes pub, ki_signer = signer\<rparr> bk1
              in (Inr \<lparr>ta_address = address, ta_key = pub\<rparr>, bk2\<lparr>bk_keys := AList.update address pub (bk_keys bk2)\<rparr>)))"

text \<open>In fork mode every account is known, with a dummy key of one zero byte and unknown algorithm.\<close>

definition dummy_key :: pub_key where "dummy_key = \<lparr>pk_bytes = [CHR 0x00], pk_algorithm = 0\<rparr>"

definition get_test_account :: "('b, 'k) backend \<Rightarrow> flow_addr \<Rightarrow> (string, test_account) result" where
  "get_test_account bk address =
     (if bk_fork bk then Inr \<lparr>ta_address = address, ta_key = dummy_key\<rparr>
      else case map_of (bk_keys bk) address of
        None \<Rightarrow> Inl (''account with address '' @ address @ '' not found'')
      | Some key \<Rightarrow> Inr \<lparr>ta_address = address, ta_key = key\<rparr>)"

section \<open>Transactions\<close>

definition new_transaction ::
    "('b, 'k) test_emulator \<Rightarrow> ('b, 'k) backend \<Rightarrow> string \<Rightarrow> flow_addr list \<Rightarrow> 'k test_tx" where
  "new_transaction em bk code authorizers =
     (let key = em_service_key em (bk_blockchain bk)
      in \<lparr>tt_script = code, tt_proposer = (vk_address key, vk_index key, vk_sequence key + bk_offset bk),
          tt_payer = vk_address key, tt_authorizers = authorizers, tt_arguments = [], tt_payload = [],
          tt_envelope = []\<rparr>)"

text \<open>
  The loop over the signers, which it is given from the last to the first. A signer that is not known is
  a nil interface, which panics when it is asked to sign.
\<close>

definition known_signer :: "('b, 'k) backend \<Rightarrow> test_account \<Rightarrow> 'k option" where
  "known_signer bk acc =
     (case map_of (bk_account_keys bk) (ta_address acc) of
        None \<Rightarrow> None
      | Some ks \<Rightarrow> map_option ki_signer (map_of ks (pk_bytes (ta_key acc))))"

fun sign_payloads ::
    "('b, 'k) test_emulator \<Rightarrow> ('b, 'k) backend \<Rightarrow> test_account list \<Rightarrow> 'k test_tx \<Rightarrow>
     (string, 'k test_tx) result option" where
  "sign_payloads em bk [] tx = Some (Inr tx)"
| "sign_payloads em bk (acc # accs) tx =
     (if ta_address acc = vk_address (em_service_key em (bk_blockchain bk)) then sign_payloads em bk accs tx
      else if ta_address acc \<notin> set (tt_authorizers tx) then sign_payloads em bk accs tx
      else if bk_fork bk
      then sign_payloads em bk accs (tx\<lparr>tt_payload := tt_payload tx @ [(ta_address acc, None)]\<rparr>)
      else case known_signer bk acc of
        None \<Rightarrow> None
      | Some signer \<Rightarrow>
          (case em_sign_error em signer tx of
             Some e \<Rightarrow> Some (Inl e)
           | None \<Rightarrow>
               sign_payloads em bk accs (tx\<lparr>tt_payload := tt_payload tx @ [(ta_address acc, Some signer)]\<rparr>)))"

definition sign_transaction ::
    "('b, 'k) test_emulator \<Rightarrow> ('b, 'k) backend \<Rightarrow> 'k test_tx \<Rightarrow> test_account list \<Rightarrow>
     (string, 'k test_tx) result option" where
  "sign_transaction em bk tx signers =
     (case sign_payloads em bk (rev signers) tx of
        None \<Rightarrow> None
      | Some (Inl e) \<Rightarrow> Some (Inl e)
      | Some (Inr tx1) \<Rightarrow>
          (let key = em_service_key em (bk_blockchain bk)
           in case vk_signer key of
                Inl e \<Rightarrow> Some (Inl e)
              | Inr signer \<Rightarrow>
                  (case em_sign_error em signer tx1 of
                     Some e \<Rightarrow> Some (Inl e)
                   | None \<Rightarrow>
                       Some (Inr (tx1\<lparr>tt_envelope := tt_envelope tx1 @ [(vk_address key, vk_index key, signer)]\<rparr>)))))"

text \<open>The arguments: exported, and encoded when they are added.\<close>

fun add_arguments :: "'v test_conversions \<Rightarrow> string list \<Rightarrow> 'k test_tx \<Rightarrow> (string, 'k test_tx) result" where
  "add_arguments cv [] tx = Inr tx"
| "add_arguments cv (x # xs) tx =
     (case cv_encode cv x of
        Inl e \<Rightarrow> Inl e
      | Inr enc \<Rightarrow> add_arguments cv xs (tx\<lparr>tt_arguments := tt_arguments tx @ [enc]\<rparr>))"

fun export_and_add :: "'v test_conversions \<Rightarrow> 'v list \<Rightarrow> 'k test_tx \<Rightarrow> (string, 'k test_tx) result" where
  "export_and_add cv [] tx = Inr tx"
| "export_and_add cv (v # vs) tx =
     (case cv_export cv v of
        Inl e \<Rightarrow> Inl e
      | Inr x \<Rightarrow> (case add_arguments cv [x] tx of Inl e \<Rightarrow> Inl e | Inr tx1 \<Rightarrow> export_and_add cv vs tx1))"

definition backend_imports :: "'v test_conversions \<Rightarrow> ('b, 'k) backend \<Rightarrow> string \<Rightarrow> string option" where
  "backend_imports cv bk code = replace_imports (cv_imports cv) (bk_resolver bk) (bk_label bk) code"

text \<open>Signing, handing over to the emulator and counting.\<close>

definition submit_transaction ::
    "('b, 'k) test_emulator \<Rightarrow> ('b, 'k) backend \<Rightarrow> 'k test_tx \<Rightarrow> test_account list \<Rightarrow>
     (string option \<times> ('b, 'k) backend) option" where
  "submit_transaction em bk tx signers =
     (case sign_transaction em bk tx signers of
        None \<Rightarrow> None
      | Some (Inl e) \<Rightarrow> Some (Some e, bk)
      | Some (Inr tx1) \<Rightarrow>
          (case em_add_transaction em tx1 (bk_blockchain bk) of
             (Some e, b) \<Rightarrow> Some (Some e, bk\<lparr>bk_blockchain := b\<rparr>)
           | (None, b) \<Rightarrow> Some (None, bk\<lparr>bk_blockchain := b, bk_offset := bk_offset bk + 1\<rparr>)))"

definition add_test_transaction ::
    "('b, 'k) test_emulator \<Rightarrow> 'v test_conversions \<Rightarrow> ('b, 'k) backend \<Rightarrow> string \<Rightarrow> flow_addr list \<Rightarrow>
     test_account list \<Rightarrow> 'v list \<Rightarrow> (string option \<times> ('b, 'k) backend) option" where
  "add_test_transaction em cv bk code authorizers signers args =
     (case backend_imports cv bk code of
        None \<Rightarrow> None
      | Some code1 \<Rightarrow>
          (case export_and_add cv args (new_transaction em bk code1 authorizers) of
             Inl e \<Rightarrow> Some (Some e, bk)
           | Inr tx \<Rightarrow> submit_transaction em bk tx signers))"

text \<open>The result is nil if there is no transaction; otherwise it may hold an error.\<close>

definition execute_next_transaction ::
    "('b, 'k) test_emulator \<Rightarrow> ('b, 'k) backend \<Rightarrow> string option option \<times> ('b, 'k) backend" where
  "execute_next_transaction em bk =
     (let (res, b) = em_execute_next em (bk_blockchain bk)
      in (case res of
            TransactionsExhausted \<Rightarrow> None
          | ExecutionFailed e \<Rightarrow> Some (Some e)
          | ExecutionDone err \<Rightarrow> Some err,
          bk\<lparr>bk_blockchain := b\<rparr>))"

definition commit_block :: "('b, 'k) test_emulator \<Rightarrow> ('b, 'k) backend \<Rightarrow> string option \<times> ('b, 'k) backend" where
  "commit_block em bk =
     (let bk1 = bk\<lparr>bk_offset := 0\<rparr>; (err, b) = em_commit em (bk_blockchain bk1)
      in (err, bk1\<lparr>bk_blockchain := b\<rparr>))"

section \<open>Scripts (RunScript)\<close>

fun script_arguments :: "'v test_conversions \<Rightarrow> 'v list \<Rightarrow> (string, string list) result" where
  "script_arguments cv [] = Inr []"
| "script_arguments cv (v # vs) =
     (case cv_export cv v of
        Inl e \<Rightarrow> Inl e
      | Inr x \<Rightarrow>
          (case cv_encode cv x of
             Inl e \<Rightarrow> Inl e
           | Inr enc \<Rightarrow> map_sum id (Cons enc) (script_arguments cv vs)))"

definition run_script ::
    "('b, 'k) test_emulator \<Rightarrow> 'v test_conversions \<Rightarrow> ('b, 'k) backend \<Rightarrow> string \<Rightarrow> 'v list \<Rightarrow>
     (string, 'v) result option" where
  "run_script em cv bk code args =
     (case script_arguments cv args of
        Inl e \<Rightarrow> Some (Inl e)
      | Inr arguments \<Rightarrow>
          (case backend_imports cv bk code of
             None \<Rightarrow> None
           | Some code1 \<Rightarrow>
               (case em_execute_script em code1 arguments (bk_blockchain bk) of
                  Inl e \<Rightarrow> Some (Inl e)
                | Inr (Inl e) \<Rightarrow> Some (Inl e)
                | Inr (Inr val) \<Rightarrow>
                    (case cv_sema_type cv val of
                       Inl e \<Rightarrow> Some (Inl e)
                     | Inr expected \<Rightarrow> Some (cv_import cv val (Some expected))))))"

section \<open>Deployment (DeployContract)\<close>

definition nibble_char :: "nat \<Rightarrow> char" where
  "nibble_char d = (if d < 10 then digit_char d else char_of (87 + d))"

definition hex_encode :: "string \<Rightarrow> string" where
  "hex_encode s = concat (map (\<lambda>c. [nibble_char (of_char c div 16), nibble_char (of_char c mod 16)]) s)"

definition indent :: "nat \<Rightarrow> string \<Rightarrow> string" where "indent n s = replicate n (CHR 0x20) @ s"

definition deploy_script :: "string \<Rightarrow> string \<Rightarrow> string \<Rightarrow> string \<Rightarrow> string" where
  "deploy_script tx_args name hex add_args =
     (let q = (\<lambda>s. [double_quote] @ s @ [double_quote])
      in str_join [line_feed]
           [[],
            indent 8 (''transaction('' @ tx_args @ '') {''),
            indent 12 ''prepare(signer: auth(AddContract, UpdateContract) &Account) {'',
            indent 16 (''if signer.contracts.get(name: '' @ q name @ '') == nil {''),
            indent 20 (''signer.contracts.add(name: '' @ q name @ '', code: '' @ q hex @ ''.decodeHex()'' @ add_args @ '')''),
            indent 16 ''} else {'',
            indent 20 (''signer.contracts.update(name: '' @ q name @ '', code: '' @ q hex @ ''.decodeHex())''),
            indent 16 ''}'',
            indent 12 ''}'',
            indent 8 ''}'',
            [CHR 0x09]])"

text \<open>The loop over the arguments, with the two builders and the index.\<close>

fun deploy_arguments ::
    "'v test_conversions \<Rightarrow> nat \<Rightarrow> 'v list \<Rightarrow> (string, string \<times> string \<times> string list) result" where
  "deploy_arguments cv i [] = Inr ('''', '''', [])"
| "deploy_arguments cv i (v # vs) =
     (case cv_export cv v of
        Inl e \<Rightarrow> Inl e
      | Inr x \<Rightarrow>
          map_sum id
            (\<lambda>(tx_args, add_args, xs).
               ((if i > 0 then '', '' else []) @ ''arg'' @ itoa i @ '': '' @ cv_type_id cv x @ tx_args,
                '', arg'' @ itoa i @ add_args, x # xs))
            (deploy_arguments cv (i + 1) vs))"

text \<open>The address a contract is deployed to.\<close>

definition deploy_address :: "('b, 'k) backend \<Rightarrow> string \<Rightarrow> (string, flow_addr) result" where
  "deploy_address bk name =
     (case bk_resolver bk of
        None \<Rightarrow> Inl (''could not find the address of contract: '' @ name @ '' (no resolver provided)'')
      | Some resolve \<Rightarrow>
          (case resolve (network_or_default (bk_label bk)) name of
             Inl e \<Rightarrow> Inl (''could not resolve address of contract '' @ name @ '': '' @ e)
           | Inr a \<Rightarrow> Inr a))"

text \<open>After the transaction is handed over: execute the next one and commit.\<close>

definition execute_and_commit ::
    "('b, 'k) test_emulator \<Rightarrow> ('b, 'k) backend \<Rightarrow> string option \<times> ('b, 'k) backend" where
  "execute_and_commit em bk =
     (let (res, bk1) = execute_next_transaction em bk
      in case res of Some (Some e) \<Rightarrow> (Some e, bk1) | _ \<Rightarrow> commit_block em bk1)"

definition deploy_test_contract ::
    "('b, 'k) test_emulator \<Rightarrow> 'v test_conversions \<Rightarrow> ('b, 'k) backend \<Rightarrow> string \<Rightarrow> string \<Rightarrow> 'v list \<Rightarrow>
     (string option \<times> ('b, 'k) backend) option" where
  "deploy_test_contract em cv bk name path args =
     (case bk_file_resolver bk of
        None \<Rightarrow> None
      | Some resolve \<Rightarrow>
     (case resolve path of
        Inl e \<Rightarrow> None
      | Inr code \<Rightarrow>
     (case backend_imports cv bk code of
        None \<Rightarrow> None
      | Some code1 \<Rightarrow>
     (case deploy_arguments cv 0 args of
        Inl e \<Rightarrow> Some (Some e, bk)
      | Inr (tx_args, add_args, xs) \<Rightarrow>
     (case deploy_address bk name of
        Inl e \<Rightarrow> Some (Some e, bk)
      | Inr address \<Rightarrow>
     (case get_test_account bk address of
        Inl e \<Rightarrow> Some (Some e, bk)
      | Inr account \<Rightarrow>
     (case add_arguments cv xs
             (new_transaction em bk (deploy_script tx_args name (hex_encode code1) add_args) [ta_address account]) of
        Inl e \<Rightarrow> Some (Some e, bk)
      | Inr tx \<Rightarrow>
     (case submit_transaction em bk tx [account] of
        None \<Rightarrow> None
      | Some (Some e, bk1) \<Rightarrow> Some (Some e, bk1)
      | Some (None, bk1) \<Rightarrow> Some (execute_and_commit em bk1)))))))))"

section \<open>Heights, clock and snapshots\<close>

definition reset_height :: "('b, 'k) test_emulator \<Rightarrow> ('b, 'k) backend \<Rightarrow> u64 \<Rightarrow> ('b, 'k) backend option" where
  "reset_height em bk height =
     (case em_rollback em height (bk_blockchain bk) of
        (Some e, b) \<Rightarrow> None
      | (None, b) \<Rightarrow> Some (bk\<lparr>bk_blockchain := b, bk_offset := 0\<rparr>))"

definition move_time :: "('b, 'k) test_emulator \<Rightarrow> ('b, 'k) backend \<Rightarrow> 64 word \<Rightarrow> ('b, 'k) backend option" where
  "move_time em bk delta =
     (let d = bk_time_delta bk + delta;
          bk1 = bk\<lparr>bk_time_delta := d, bk_blockchain := em_set_clock em d (bk_blockchain bk)\<rparr>
      in case commit_block em bk1 of (Some e, bk2) \<Rightarrow> None | (None, bk2) \<Rightarrow> Some bk2)"

definition create_snapshot ::
    "('b, 'k) test_emulator \<Rightarrow> ('b, 'k) backend \<Rightarrow> string \<Rightarrow> string option \<times> ('b, 'k) backend" where
  "create_snapshot em bk name =
     (let (err, b) = em_create_snapshot em name (bk_blockchain bk) in (err, bk\<lparr>bk_blockchain := b\<rparr>))"

definition load_snapshot ::
    "('b, 'k) test_emulator \<Rightarrow> ('b, 'k) backend \<Rightarrow> string \<Rightarrow> string option \<times> ('b, 'k) backend" where
  "load_snapshot em bk name =
     (let (err, b) = em_load_snapshot em name (bk_blockchain bk) in (err, bk\<lparr>bk_blockchain := b\<rparr>))"

text \<open>
  Events. The loop counts a 64 bit height up to the latest one; it does not end when that is the
  greatest number, and then has no value. Inside, \<open>None\<close> is a panic. The last argument is what
  has been collected.
\<close>

fun import_events :: "'v test_conversions \<Rightarrow> string list \<Rightarrow> 'v list option" where
  "import_events cv [] = Some []"
| "import_events cv (x # xs) =
     (case cv_import cv x None of
        Inl e \<Rightarrow> None
      | Inr v \<Rightarrow> map_option (Cons v) (import_events cv xs))"

definition events_at ::
    "('b, 'k) test_emulator \<Rightarrow> 'v test_conversions \<Rightarrow> ('b, 'k) backend \<Rightarrow> string \<Rightarrow> u64 \<Rightarrow> 'v list option" where
  "events_at em cv bk event_type height =
     (case em_events em height event_type (bk_blockchain bk) of
        Inl e \<Rightarrow> None
      | Inr es \<Rightarrow> import_events cv es)"

partial_function (option) events_loop ::
    "(u64 \<Rightarrow> 'v list option) \<Rightarrow> u64 \<Rightarrow> u64 \<Rightarrow> 'v list \<Rightarrow> 'v list option option" where
  "events_loop at_height height latest acc =
     (if \<not> height \<le> latest then Some (Some acc)
      else case at_height height of
        None \<Rightarrow> Some None
      | Some vs \<Rightarrow> events_loop at_height (height + 1) latest (acc @ vs))"

definition events_start :: "('b, 'k) backend \<Rightarrow> u64" where
  "events_start bk = (if bk_fork bk then bk_fork_start bk + 1 else 0)"

text \<open>\<open>event_type\<close> is \<open>None\<close> for all events; another static type than a composite panics.\<close>

definition backend_events ::
    "('b, 'k) test_emulator \<Rightarrow> 'v test_conversions \<Rightarrow> ('b, 'k) backend \<Rightarrow> string option option \<Rightarrow>
     'v list option option" where
  "backend_events em cv bk event_type =
     (case em_latest_height em (bk_blockchain bk) of
        Inl e \<Rightarrow> Some None
      | Inr latest \<Rightarrow>
          (case event_type of
             Some None \<Rightarrow> Some None
           | Some (Some t) \<Rightarrow> events_loop (events_at em cv bk t) (events_start bk) latest []
           | None \<Rightarrow> events_loop (events_at em cv bk '''') (events_start bk) latest []))"

section \<open>Construction (NewEmulatorBackend)\<close>

definition initial_accounts_number :: nat where "initial_accounts_number = 20"

primrec create_accounts :: "('b, 'k) test_emulator \<Rightarrow> nat \<Rightarrow> ('b, 'k) backend \<Rightarrow> ('b, 'k) backend option" where
  "create_accounts em 0 bk = Some bk"
| "create_accounts em (Suc n) bk =
     (case create_test_account em bk of
        (Inl e, bk1) \<Rightarrow> None
      | (Inr acc, bk1) \<Rightarrow> create_accounts em n bk1)"

definition bootstrap_accounts :: "('b, 'k) test_emulator \<Rightarrow> ('b, 'k) backend \<Rightarrow> ('b, 'k) backend option" where
  "bootstrap_accounts em bk =
     (case service_account em bk of
        (Inl e, bk1) \<Rightarrow> None
      | (Inr acc, bk1) \<Rightarrow>
          create_accounts em initial_accounts_number
            (bk1\<lparr>bk_keys := AList.update (ta_address acc) (ta_key acc) (bk_keys bk1)\<rparr>))"

record backend_options =
  bo_fork_host :: string
  bo_fork_height :: u64
  bo_label :: string
  bo_chain_id :: string
  bo_resolver :: "address_resolver option"

text \<open>What the emulator is created with: the remote store and the checks of transactions, among others.\<close>

record emulator_options =
  eo_coverage :: bool
  eo_store :: "(string \<times> u64) option"
  eo_validation :: bool
  eo_common_contracts :: bool
  eo_chain_id :: string

text \<open>
  The network: opening the local and the remote store, and asking a network for its chain. A chain's
  name that is not known panics. \<open>nt_monotonic\<close> is the default chain, \<open>nt_make\<close> creates the emulator.
\<close>

record 'b test_network =
  nt_store_error :: "string option"
  nt_connect_error :: "string \<Rightarrow> string option"
  nt_remote_error :: "string \<Rightarrow> u64 \<Rightarrow> string option"
  nt_detect_chain :: "string \<Rightarrow> (string, string) result"
  nt_chain :: "string \<Rightarrow> flow_chain option"
  nt_monotonic :: flow_chain
  nt_make :: "emulator_options \<Rightarrow> (string, 'b) result"

definition configure_fork_mode :: "'b test_network \<Rightarrow> backend_options \<Rightarrow> (string, flow_chain) result option" where
  "configure_fork_mode net opts =
     (case nt_store_error net of
        Some e \<Rightarrow> Some (Inl e)
      | None \<Rightarrow>
     (case nt_connect_error net (bo_fork_host opts) of
        Some e \<Rightarrow> Some (Inl (''failed to create gRPC connection: '' @ e))
      | None \<Rightarrow>
     (case nt_remote_error net (bo_fork_host opts) (bo_fork_height opts) of
        Some e \<Rightarrow> Some (Inl e)
      | None \<Rightarrow>
          (if bo_chain_id opts \<noteq> '''' then map_option Inr (nt_chain net (bo_chain_id opts))
           else case nt_detect_chain net (bo_fork_host opts) of
             Inl e \<Rightarrow> Some (Inl (''failed to detect remote chain ID: '' @ e))
           | Inr i \<Rightarrow> map_option Inr (nt_chain net i)))))"

text \<open>The chain and the fork's part of the options. An error panics.\<close>

definition select_chain :: "'b test_network \<Rightarrow> backend_options option \<Rightarrow> flow_chain option" where
  "select_chain net opts =
     (case opts of
        Some bo \<Rightarrow>
          (if bo_fork_host bo \<noteq> ''''
           then (case configure_fork_mode net bo of Some (Inr ch) \<Rightarrow> Some ch | _ \<Rightarrow> None)
           else if bo_chain_id bo \<noteq> '''' then nt_chain net (bo_chain_id bo)
           else Some (nt_monotonic net))
      | None \<Rightarrow> Some (nt_monotonic net))"

definition fork_enabled :: "backend_options option \<Rightarrow> bool" where
  "fork_enabled opts = (case opts of None \<Rightarrow> False | Some bo \<Rightarrow> bo_fork_host bo \<noteq> '''')"

definition emulator_options_for :: "bool \<Rightarrow> backend_options option \<Rightarrow> flow_chain \<Rightarrow> emulator_options" where
  "emulator_options_for coverage opts ch =
     (let fork = fork_enabled opts
      in \<lparr>eo_coverage = coverage,
          eo_store = (if fork then map_option (\<lambda>bo. (bo_fork_host bo, bo_fork_height bo)) opts else None),
          eo_validation = (\<not> fork), eo_common_contracts = (\<not> fork), eo_chain_id = ch_id ch\<rparr>)"

text \<open>In fork mode the first local block is made, and the height before it is where the fork starts.\<close>

definition start_fork :: "('b, 'k) test_emulator \<Rightarrow> ('b, 'k) backend \<Rightarrow> ('b, 'k) backend option" where
  "start_fork em bk =
     (case em_execute_commit em (bk_blockchain bk) of
        (Some e, b) \<Rightarrow> None
      | (None, b) \<Rightarrow>
          (case em_latest_height em b of
             Inl e \<Rightarrow> None
           | Inr height \<Rightarrow> Some (bk\<lparr>bk_blockchain := b, bk_fork_start := height - 1\<rparr>)))"

definition initial_backend ::
    "('b, 'k) test_emulator \<Rightarrow> backend_options option \<Rightarrow> flow_chain \<Rightarrow> 'b \<Rightarrow> ('b, 'k) backend" where
  "initial_backend em opts ch b =
     \<lparr>bk_blockchain = em_set_clock em 0 b, bk_offset = 0, bk_account_keys = [], bk_logs = [],
      bk_time_delta = 0, bk_keys = [], bk_file_resolver = None, bk_chain = ch, bk_fork = fork_enabled opts,
      bk_label = (case opts of None \<Rightarrow> '''' | Some bo \<Rightarrow> bo_label bo),
      bk_resolver = Some (resolver_with_builtins ch (case opts of None \<Rightarrow> None | Some bo \<Rightarrow> bo_resolver bo)),
      bk_fork_start = 0\<rparr>"

definition new_emulator_backend ::
    "('b, 'k) test_emulator \<Rightarrow> 'b test_network \<Rightarrow> bool \<Rightarrow> backend_options option \<Rightarrow> ('b, 'k) backend option" where
  "new_emulator_backend em net coverage opts =
     (case select_chain net opts of
        None \<Rightarrow> None
      | Some ch \<Rightarrow>
          (case nt_make net (emulator_options_for coverage opts ch) of
             Inl e \<Rightarrow> None
           | Inr b \<Rightarrow>
               (let bk = initial_backend em opts ch b
                in if fork_enabled opts then start_fork em bk else bootstrap_accounts em bk)))"

lemma initial_backend_simps [simp]:
  "bk_keys (initial_backend em opts ch b) = []" "bk_fork (initial_backend em opts ch b) = fork_enabled opts"
  "bk_chain (initial_backend em opts ch b) = ch" "bk_offset (initial_backend em opts ch b) = 0"
  "bk_blockchain (initial_backend em opts ch b) = em_set_clock em 0 b"
  by (simp_all add: initial_backend_def)

lemma new_emulator_backend_cases:
  "new_emulator_backend em net coverage opts = Some bk \<longleftrightarrow>
     (\<exists>ch b. select_chain net opts = Some ch \<and> nt_make net (emulator_options_for coverage opts ch) = Inr b \<and>
        (if fork_enabled opts then start_fork em (initial_backend em opts ch b)
         else bootstrap_accounts em (initial_backend em opts ch b)) = Some bk)"
  by (simp add: new_emulator_backend_def Let_def split: option.split sum.split)

section \<open>Files (TestFrameworkProvider.ReadFile)\<close>

definition helper_file_prefix :: string where "helper_file_prefix = CHR 0x00 # ''helper/''"

text \<open>\<open>helper\<close> gives the embedded texts.\<close>

definition read_test_file ::
    "(string \<Rightarrow> string) \<Rightarrow> (string \<Rightarrow> (string, string) result) option \<Rightarrow> string \<Rightarrow> (string, string) result" where
  "read_test_file helper resolver path =
     (if has_prefix path helper_file_prefix \<and>
         drop (length helper_file_prefix) path \<in>
           {''mint_flow.cdc'', ''get_flow_balance.cdc'', ''get_current_block_height.cdc'', ''burn_flow.cdc''}
      then Inr (helper (drop (length helper_file_prefix) path))
      else case resolver of
        None \<Rightarrow> Inl ''file resolver not provided''
      | Some resolve \<Rightarrow> resolve path)"

section \<open>Signatures\<close>

text \<open>Who signs a payload: the signers that authorize, without the service account, from the last to the first.\<close>

definition payload_signers ::
    "('b, 'k) test_emulator \<Rightarrow> ('b, 'k) backend \<Rightarrow> 'k test_tx \<Rightarrow> test_account list \<Rightarrow> test_account list" where
  "payload_signers em bk tx signers =
     filter (\<lambda>acc. ta_address acc \<noteq> vk_address (em_service_key em (bk_blockchain bk)) \<and>
                   ta_address acc \<in> set (tt_authorizers tx)) (rev signers)"

definition payload_signature :: "('b, 'k) backend \<Rightarrow> test_account \<Rightarrow> flow_addr \<times> 'k option" where
  "payload_signature bk acc = (ta_address acc, if bk_fork bk then None else known_signer bk acc)"

lemma sign_payloads_spec:
  assumes "\<And>k tx. em_sign_error em k tx = None"
  shows "sign_payloads em bk accs tx =
    (if bk_fork bk \<or> list_all (\<lambda>acc. known_signer bk acc \<noteq> None) (payload_signers em bk tx (rev accs))
     then Some (Inr (tx\<lparr>tt_payload := tt_payload tx @ map (payload_signature bk) (payload_signers em bk tx (rev accs))\<rparr>))
     else None)"
proof (induction accs arbitrary: tx)
  case Nil
  then show ?case by (simp add: payload_signers_def)
next
  case (Cons acc accs)
  then show ?case
    by (auto simp: payload_signers_def payload_signature_def assms split: option.splits)
qed

text \<open>
  A transaction is signed by exactly those signers that are authorizers and not the service
  account, from the last to the first and as often as they are named, with their own keys (dummies in fork mode), and then
  by the service account for the envelope; outside of fork mode a signer whose key the backend does not
  know makes it panic.
\<close>

theorem signatures_of_transaction:
  assumes "\<And>k tx. em_sign_error em k tx = None" "vk_signer (em_service_key em (bk_blockchain bk)) = Inr service"
  shows "sign_transaction em bk tx signers =
    (if bk_fork bk \<or> list_all (\<lambda>acc. known_signer bk acc \<noteq> None) (payload_signers em bk tx signers)
     then Some (Inr (tx\<lparr>tt_payload := tt_payload tx @ map (payload_signature bk) (payload_signers em bk tx signers),
            tt_envelope := tt_envelope tx @
              [(vk_address (em_service_key em (bk_blockchain bk)), vk_index (em_service_key em (bk_blockchain bk)), service)]\<rparr>))
     else None)"
  by (simp add: sign_transaction_def sign_payloads_spec [OF assms(1)] assms Let_def)

section \<open>Operations in any order\<close>

text \<open>One operation of a test script, or the runner's new resolvers and label.\<close>

inductive backend_step ::
    "('b, 'k) test_emulator \<Rightarrow> 'v test_conversions \<Rightarrow> ('b, 'k) backend \<Rightarrow> ('b, 'k) backend \<Rightarrow> bool" for em cv where
  service: "backend_step em cv bk (snd (service_account em bk))"
| create: "backend_step em cv bk (snd (create_test_account em bk))"
| add: "add_test_transaction em cv bk code authorizers signers args = Some (err, bk') \<Longrightarrow> backend_step em cv bk bk'"
| execute: "backend_step em cv bk (snd (execute_next_transaction em bk))"
| commit: "backend_step em cv bk (snd (commit_block em bk))"
| deploy: "deploy_test_contract em cv bk name path args = Some (err, bk') \<Longrightarrow> backend_step em cv bk bk'"
| reset: "reset_height em bk height = Some bk' \<Longrightarrow> backend_step em cv bk bk'"
| move: "move_time em bk delta = Some bk' \<Longrightarrow> backend_step em cv bk bk'"
| snapshot: "backend_step em cv bk (snd (create_snapshot em bk name))"
| restore: "backend_step em cv bk (snd (load_snapshot em bk name))"
| runner: "backend_step em cv bk (bk\<lparr>bk_file_resolver := fr, bk_resolver := res, bk_label := label\<rparr>)"

inductive backend_reachable ::
    "('b, 'k) test_emulator \<Rightarrow> 'v test_conversions \<Rightarrow> 'b test_network \<Rightarrow> ('b, 'k) backend \<Rightarrow> bool" for em cv net where
  new: "new_emulator_backend em net coverage opts = Some bk \<Longrightarrow> backend_reachable em cv net bk"
| step: "backend_reachable em cv net bk \<Longrightarrow> backend_step em cv bk bk' \<Longrightarrow> backend_reachable em cv net bk'"

text \<open>Every account that the backend gives out, but the service account, has a known signer.\<close>

definition keys_known :: "flow_addr \<Rightarrow> ('b, 'k) backend \<Rightarrow> bool" where
  "keys_known sv bk \<longleftrightarrow>
     (\<forall>a key. map_of (bk_keys bk) a = Some key \<longrightarrow> a \<noteq> sv \<longrightarrow> known_signer bk \<lparr>ta_address = a, ta_key = key\<rparr> \<noteq> None)"

lemma keys_known_cong:
  "bk_keys bk' = bk_keys bk \<Longrightarrow> bk_account_keys bk' = bk_account_keys bk \<Longrightarrow> keys_known sv bk' = keys_known sv bk"
  by (simp add: keys_known_def known_signer_def)

text \<open>All other operations leave the keys alone.\<close>

definition same_keys :: "('b, 'k) backend \<Rightarrow> ('b, 'k) backend \<Rightarrow> bool" where
  "same_keys bk bk' \<longleftrightarrow> bk_keys bk' = bk_keys bk \<and> bk_account_keys bk' = bk_account_keys bk \<and> bk_fork bk' = bk_fork bk"

lemma submit_same_keys: "submit_transaction em bk tx signers = Some (err, bk') \<Longrightarrow> same_keys bk bk'"
  by (auto simp: submit_transaction_def same_keys_def split: option.splits sum.splits prod.splits)

lemma execute_same_keys: "same_keys bk (snd (execute_next_transaction em bk))"
  by (simp add: execute_next_transaction_def same_keys_def case_prod_unfold Let_def)

lemma commit_same_keys: "same_keys bk (snd (commit_block em bk))"
  by (simp add: commit_block_def same_keys_def case_prod_unfold Let_def)

lemma same_keys_trans: "same_keys a b \<Longrightarrow> same_keys b c \<Longrightarrow> same_keys a c"
  by (simp add: same_keys_def)

lemma execute_and_commit_same_keys: "same_keys bk (snd (execute_and_commit em bk))"
  using execute_same_keys [of bk em] commit_same_keys [of "snd (execute_next_transaction em bk)" em]
  by (auto simp: execute_and_commit_def case_prod_unfold Let_def intro: same_keys_trans split: option.split)

lemma deploy_same_keys: "deploy_test_contract em cv bk name path args = Some (err, bk') \<Longrightarrow> same_keys bk bk'"
proof -
  assume "deploy_test_contract em cv bk name path args = Some (err, bk')"
  then consider "bk' = bk"
    | tx acc where "submit_transaction em bk tx [acc] = Some (err, bk')"
    | tx acc bk1 where "submit_transaction em bk tx [acc] = Some (None, bk1)" "(err, bk') = execute_and_commit em bk1"
    unfolding deploy_test_contract_def
    by (auto split: option.splits sum.splits prod.splits)
  then show ?thesis
  proof cases
    case 1
    then show ?thesis by (simp add: same_keys_def)
  next
    case 2
    then show ?thesis by (rule submit_same_keys)
  next
    case 3
    then show ?thesis
      using submit_same_keys [OF 3(1)] execute_and_commit_same_keys [of bk1 em] same_keys_trans by (metis snd_conv)
  qed
qed

lemma other_steps_same_keys:
  "add_test_transaction em cv bk code authorizers signers args = Some (err, bk') \<Longrightarrow> same_keys bk bk'"
  "reset_height em bk height = Some bk' \<Longrightarrow> same_keys bk bk'"
  "move_time em bk delta = Some bk' \<Longrightarrow> same_keys bk bk'"
  "same_keys bk (snd (create_snapshot em bk name))" "same_keys bk (snd (load_snapshot em bk name))"
  by (auto simp: add_test_transaction_def reset_height_def move_time_def create_snapshot_def load_snapshot_def
      case_prod_unfold Let_def commit_block_def same_keys_def dest!: submit_same_keys
      split: option.splits sum.splits prod.splits)

lemma service_account_keys:
  assumes "\<And>b. vk_address (em_service_key em b) = sv" "keys_known sv bk"
  shows "keys_known sv (snd (service_account em bk))"
  using assms by (auto simp: service_account_def Let_def keys_known_def known_signer_def store_account_key_def
      update_conv' split: sum.split)

lemma create_account_keys: "keys_known sv bk \<Longrightarrow> keys_known sv (snd (create_test_account em bk))"
  by (auto simp: create_test_account_def Let_def keys_known_def known_signer_def store_account_key_def
      update_conv' case_prod_unfold split: sum.split)

lemma keys_known_same: "same_keys bk bk' \<Longrightarrow> keys_known sv bk \<Longrightarrow> keys_known sv bk'"
  by (simp add: same_keys_def keys_known_def known_signer_def)

lemma backend_step_keys:
  assumes "\<And>b. vk_address (em_service_key em b) = sv"
  shows "backend_step em cv bk bk' \<Longrightarrow> keys_known sv bk \<Longrightarrow> keys_known sv bk'"
proof (induction rule: backend_step.induct)
  case (service bk)
  then show ?case by (rule service_account_keys [OF assms])
next
  case (create bk)
  then show ?case by (rule create_account_keys)
next
  case (runner bk fr res label)
  then show ?case by (simp add: keys_known_def known_signer_def)
qed (auto dest: keys_known_same other_steps_same_keys(1-3) deploy_same_keys
    intro: keys_known_same [OF execute_same_keys] keys_known_same [OF commit_same_keys]
      keys_known_same [OF other_steps_same_keys(4)] keys_known_same [OF other_steps_same_keys(5)])

lemma create_accounts_keys: "create_accounts em n bk = Some bk' \<Longrightarrow> keys_known sv bk \<Longrightarrow> keys_known sv bk'"
proof (induction n arbitrary: bk)
  case (Suc n)
  then obtain acc bk1 where "create_test_account em bk = (Inr acc, bk1)" "create_accounts em n bk1 = Some bk'"
    by (auto split: prod.splits sum.splits)
  with Suc.IH Suc.prems(2) create_account_keys [of sv bk em] show ?case by simp
qed simp

lemma service_account_result:
  "service_account em bk = (Inr acc, bk1) \<Longrightarrow>
     ta_address acc = vk_address (em_service_key em (bk_blockchain bk)) \<and> bk_keys bk1 = bk_keys bk"
  by (auto simp: service_account_def Let_def store_account_key_def split: sum.splits)

lemma new_backend_keys:
  assumes sv: "\<And>b. vk_address (em_service_key em b) = sv"
    and new: "new_emulator_backend em net coverage opts = Some bk"
  shows "keys_known sv bk"
proof -
  obtain bk0 where bk0: "bk_keys bk0 = []"
      "(if fork_enabled opts then start_fork em bk0 else bootstrap_accounts em bk0) = Some bk"
    using new unfolding new_emulator_backend_cases by (metis initial_backend_simps(1))
  show ?thesis
  proof (cases "fork_enabled opts")
    case True
    then have "bk_keys bk = []"
      using bk0 by (auto simp: start_fork_def split: prod.splits option.splits sum.splits)
    then show ?thesis by (simp add: keys_known_def)
  next
    case False
    then obtain acc bk1 where one: "service_account em bk0 = (Inr acc, bk1)"
        "create_accounts em initial_accounts_number
           (bk1\<lparr>bk_keys := AList.update (ta_address acc) (ta_key acc) (bk_keys bk1)\<rparr>) = Some bk"
      using bk0 by (auto simp: bootstrap_accounts_def split: prod.splits sum.splits)
    have "keys_known sv (bk1\<lparr>bk_keys := AList.update (ta_address acc) (ta_key acc) (bk_keys bk1)\<rparr>)"
      using service_account_result [OF one(1)] bk0(1) sv by (simp add: keys_known_def)
    then show ?thesis using create_accounts_keys [OF one(2)] by blast
  qed
qed

lemma reachable_keys_known:
  assumes "\<And>b. vk_address (em_service_key em b) = sv"
  shows "backend_reachable em cv net bk \<Longrightarrow> keys_known sv bk"
  by (induction rule: backend_reachable.induct) (auto intro: new_backend_keys [OF assms] backend_step_keys [OF assms])

lemma sign_payloads_returns:
  "\<forall>acc \<in> set accs. ta_address acc = vk_address (em_service_key em (bk_blockchain bk)) \<or> bk_fork bk \<or> known_signer bk acc \<noteq> None \<Longrightarrow>
   sign_payloads em bk accs tx \<noteq> None"
  by (induction accs arbitrary: tx) (auto split: option.splits)

text \<open>
  C33. Whatever operations a test script has run, signing a transaction never panics as long as every signer
  is an account that the backend gives for its address.
\<close>

theorem given_accounts_can_sign:
  assumes "\<And>b. vk_address (em_service_key em b) = sv" "backend_reachable em cv net bk"
    and signers: "\<And>acc. acc \<in> set signers \<Longrightarrow> get_test_account bk (ta_address acc) = Inr acc"
  shows "sign_transaction em bk tx signers \<noteq> None"
proof -
  have "ta_address acc = sv \<or> bk_fork bk \<or> known_signer bk acc \<noteq> None" if "acc \<in> set signers" for acc
    using signers [OF that] reachable_keys_known [OF assms(1,2)]
    by (cases acc) (auto simp: get_test_account_def keys_known_def split: if_splits option.splits)
  then have "sign_payloads em bk (rev signers) tx \<noteq> None"
    by (intro sign_payloads_returns) (auto simp: assms(1))
  then show ?thesis by (auto simp: sign_transaction_def Let_def split: option.splits sum.splits)
qed

section \<open>Sequence numbers\<close>

text \<open>
  What the emulator documents of its pending block; \<open>pending\<close> is the number of its transactions. Creating
  an account and loading a snapshot leave an empty block empty.
\<close>

definition counts_pending :: "('b, 'k) test_emulator \<Rightarrow> ('b \<Rightarrow> nat) \<Rightarrow> bool" where
  "counts_pending em pending \<longleftrightarrow>
     (\<forall>tx b. pending (snd (em_add_transaction em tx b)) =
        (case fst (em_add_transaction em tx b) of None \<Rightarrow> Suc (pending b) | Some e \<Rightarrow> pending b)) \<and>
     (\<forall>b. pending (snd (em_execute_next em b)) = pending b) \<and>
     (\<forall>b. fst (em_commit em b) = None \<longrightarrow> pending (snd (em_commit em b)) = 0) \<and>
     (\<forall>h b. fst (em_rollback em h b) = None \<longrightarrow> pending (snd (em_rollback em h b)) = 0) \<and>
     (\<forall>d b. pending (em_set_clock em d b) = pending b) \<and>
     (\<forall>n b. pending (snd (em_create_snapshot em n b)) = pending b) \<and>
     (\<forall>n b. pending b = 0 \<longrightarrow> pending (snd (em_load_snapshot em n b)) = 0) \<and>
     (\<forall>k b. pending b = 0 \<longrightarrow> pending (snd (em_create_account em k (snd (em_new_key em b)))) = 0)"

text \<open>
  Runs in which commits succeed, and accounts are created and snapshots loaded only while no transaction is
  pending.
\<close>

inductive orderly_run ::
    "('b, 'k) test_emulator \<Rightarrow> 'v test_conversions \<Rightarrow> ('b \<Rightarrow> nat) \<Rightarrow> ('b, 'k) backend \<Rightarrow> bool" for em cv pending where
  start: "pending (bk_blockchain bk) = 0 \<Longrightarrow> bk_offset bk = 0 \<Longrightarrow> orderly_run em cv pending bk"
| service: "orderly_run em cv pending bk \<Longrightarrow> orderly_run em cv pending (snd (service_account em bk))"
| create: "orderly_run em cv pending bk \<Longrightarrow> pending (bk_blockchain bk) = 0 \<Longrightarrow>
    orderly_run em cv pending (snd (create_test_account em bk))"
| add: "orderly_run em cv pending bk \<Longrightarrow>
    add_test_transaction em cv bk code authorizers signers args = Some (err, bk') \<Longrightarrow> orderly_run em cv pending bk'"
| execute: "orderly_run em cv pending bk \<Longrightarrow> orderly_run em cv pending (snd (execute_next_transaction em bk))"
| commit: "orderly_run em cv pending bk \<Longrightarrow> commit_block em bk = (None, bk') \<Longrightarrow> orderly_run em cv pending bk'"
| deploy: "orderly_run em cv pending bk \<Longrightarrow> deploy_test_contract em cv bk name path args = Some (None, bk') \<Longrightarrow>
    orderly_run em cv pending bk'"
| reset: "orderly_run em cv pending bk \<Longrightarrow> reset_height em bk height = Some bk' \<Longrightarrow> orderly_run em cv pending bk'"
| move: "orderly_run em cv pending bk \<Longrightarrow> move_time em bk delta = Some bk' \<Longrightarrow> orderly_run em cv pending bk'"
| snapshot: "orderly_run em cv pending bk \<Longrightarrow> orderly_run em cv pending (snd (create_snapshot em bk name))"
| restore: "orderly_run em cv pending bk \<Longrightarrow> pending (bk_blockchain bk) = 0 \<Longrightarrow>
    orderly_run em cv pending (snd (load_snapshot em bk name))"

definition offset_counts :: "('b \<Rightarrow> nat) \<Rightarrow> ('b, 'k) backend \<Rightarrow> bool" where
  "offset_counts pending bk \<longleftrightarrow> bk_offset bk = of_nat (pending (bk_blockchain bk))"

lemma submit_offset:
  assumes "counts_pending em pending" "submit_transaction em bk tx signers = Some (err, bk')"
  shows "offset_counts pending bk \<Longrightarrow> offset_counts pending bk'"
proof -
  have add: "pending (snd (em_add_transaction em tx b)) =
      (case fst (em_add_transaction em tx b) of None \<Rightarrow> Suc (pending b) | Some e \<Rightarrow> pending b)" for tx b
    using assms(1) by (simp add: counts_pending_def)
  show "offset_counts pending bk \<Longrightarrow> offset_counts pending bk'"
    using assms(2)
    by (auto simp: submit_transaction_def offset_counts_def split: option.splits sum.splits prod.splits)
       (metis add fst_conv snd_conv option.simps(4) option.simps(5) of_nat_Suc add.commute)+
qed

lemma commit_offset:
  assumes "counts_pending em pending" "commit_block em bk = (None, bk')"
  shows "offset_counts pending bk'"
proof -
  have "fst (em_commit em (bk_blockchain bk)) = None"
      "bk' = bk\<lparr>bk_offset := 0, bk_blockchain := snd (em_commit em (bk_blockchain bk))\<rparr>"
    using assms(2) by (auto simp: commit_block_def Let_def case_prod_unfold)
  then show ?thesis using assms(1) by (simp add: offset_counts_def counts_pending_def)
qed

lemma orderly_offset:
  assumes laws: "counts_pending em pending"
  shows "orderly_run em cv pending bk \<Longrightarrow> offset_counts pending bk"
proof (induction rule: orderly_run.induct)
  case (start bk)
  then show ?case by (simp add: offset_counts_def)
next
  case (service bk)
  then show ?case by (simp add: service_account_def Let_def offset_counts_def store_account_key_def split: sum.split)
next
  case (create bk)
  have "pending (snd (em_create_account em k (snd (em_new_key em (bk_blockchain bk))))) = 0" for k
    using laws create(2) by (simp add: counts_pending_def)
  then show ?case
    using create by (simp add: create_test_account_def Let_def offset_counts_def store_account_key_def
        case_prod_unfold split: sum.split)
next
  case (add bk code authorizers signers args err bk')
  then show ?case
    using submit_offset [OF laws] by (auto simp: add_test_transaction_def split: option.splits sum.splits)
next
  case (execute bk)
  then show ?case
    using laws by (simp add: execute_next_transaction_def Let_def case_prod_unfold offset_counts_def counts_pending_def)
next
  case (commit bk bk')
  then show ?case using commit_offset [OF laws] by blast
next
  case (deploy bk name path args bk')
  then obtain bk1 where "execute_and_commit em bk1 = (None, bk')"
    by (auto simp: deploy_test_contract_def split: option.splits sum.splits prod.splits)
  then obtain bk2 where "commit_block em bk2 = (None, bk')"
    by (auto simp: execute_and_commit_def split: prod.splits option.splits)
  then show ?case using commit_offset [OF laws] by blast
next
  case (reset bk height bk')
  then have "fst (em_rollback em height (bk_blockchain bk)) = None"
      "bk' = bk\<lparr>bk_blockchain := snd (em_rollback em height (bk_blockchain bk)), bk_offset := 0\<rparr>"
    by (auto simp: reset_height_def split: prod.splits option.splits)
  then show ?case using laws by (simp add: offset_counts_def counts_pending_def)
next
  case (move bk delta bk')
  then obtain bk1 where "commit_block em bk1 = (None, bk')"
    by (auto simp: move_time_def Let_def split: prod.splits option.splits)
  then show ?case using commit_offset [OF laws] by blast
next
  case (snapshot bk name)
  then show ?case
    using laws by (simp add: create_snapshot_def Let_def case_prod_unfold offset_counts_def counts_pending_def)
next
  case (restore bk name)
  then show ?case
    using laws by (simp add: load_snapshot_def Let_def case_prod_unfold offset_counts_def counts_pending_def)
qed

text \<open>
  C34. In an orderly run the next transaction proposes the sequence number of the service key plus
  the number of pending transactions, so that pending transactions have consecutive numbers.
\<close>

theorem transaction_sequence_number:
  assumes "counts_pending em pending" "orderly_run em cv pending bk"
  shows "tt_proposer (new_transaction em bk code authorizers) =
    (let key = em_service_key em (bk_blockchain bk)
     in (vk_address key, vk_index key, vk_sequence key + of_nat (pending (bk_blockchain bk))))"
  using orderly_offset [OF assms] by (simp add: new_transaction_def Let_def offset_counts_def)

section \<open>Deploying while transactions are pending\<close>

text \<open>
  What the emulator documents of the transactions that wait for their execution, \<open>waiting\<close>: they
  are executed in order, and a block with one of them cannot be committed.
\<close>

definition executes_in_order :: "('b, 'k) test_emulator \<Rightarrow> ('b \<Rightarrow> 'k test_tx list) \<Rightarrow> bool" where
  "executes_in_order em waiting \<longleftrightarrow>
     (\<forall>tx b. fst (em_add_transaction em tx b) = None \<longrightarrow>
        waiting (snd (em_add_transaction em tx b)) = waiting b @ [tx]) \<and>
     (\<forall>b. waiting b \<noteq> [] \<longrightarrow> waiting (snd (em_execute_next em b)) = tl (waiting b)) \<and>
     (\<forall>b. waiting b \<noteq> [] \<longrightarrow> fst (em_commit em b) \<noteq> None)"

lemma submit_transaction_ok:
  assumes "submit_transaction em bk tx signers = Some (None, bk1)"
  shows "\<exists>tx1 b. em_add_transaction em tx1 (bk_blockchain bk) = (None, b) \<and>
    bk1 = bk\<lparr>bk_blockchain := b, bk_offset := bk_offset bk + 1\<rparr>"
  using assms by (auto simp: submit_transaction_def split: option.splits sum.splits prod.splits)

text \<open>
  C35. A deployment executes the next transaction of the block, which is its own only if none is waiting;
  with a waiting transaction it never succeeds.
\<close>

theorem deploy_with_waiting_transaction_fails:
  assumes laws: "executes_in_order em waiting" and waiting: "waiting (bk_blockchain bk) \<noteq> []"
    and deploy: "deploy_test_contract em cv bk name path args = Some (err, bk')"
  shows "err \<noteq> None"
proof
  assume "err = None"
  with deploy obtain tx acc bk1 where submit: "submit_transaction em bk tx [acc] = Some (None, bk1)"
      and run: "execute_and_commit em bk1 = (None, bk')"
    by (auto simp: deploy_test_contract_def split: option.splits sum.splits prod.splits)
  from submit_transaction_ok [OF submit] obtain tx1 b where tx1:
      "em_add_transaction em tx1 (bk_blockchain bk) = (None, b)"
      "bk1 = bk\<lparr>bk_blockchain := b, bk_offset := bk_offset bk + 1\<rparr>"
    by blast
  have "waiting (snd (em_add_transaction em tx1 (bk_blockchain bk))) = waiting (bk_blockchain bk) @ [tx1]"
    using laws tx1(1) unfolding executes_in_order_def by (metis fst_conv)
  then have w1: "waiting (bk_blockchain bk1) = waiting (bk_blockchain bk) @ [tx1]"
    by (simp add: tx1)
  from run obtain bk2 where bk2: "bk2 = snd (execute_next_transaction em bk1)" "commit_block em bk2 = (None, bk')"
    by (auto simp: execute_and_commit_def split: prod.splits option.splits)
  have "waiting (bk_blockchain bk2) = tl (waiting (bk_blockchain bk1))"
    using laws w1 by (simp add: bk2(1) execute_next_transaction_def Let_def case_prod_unfold executes_in_order_def)
  then have "waiting (bk_blockchain bk2) \<noteq> []" using w1 waiting by simp
  then have "fst (em_commit em (bk_blockchain bk2)) \<noteq> None"
    using laws by (simp add: executes_in_order_def)
  then show False using bk2(2) by (simp add: commit_block_def Let_def case_prod_unfold)
qed

section \<open>Events\<close>

text \<open>The heights from one to another.\<close>

definition heights :: "u64 \<Rightarrow> u64 \<Rightarrow> u64 list" where
  "heights from latest = map (word_of_nat :: nat \<Rightarrow> u64) [unat from..<Suc (unat latest)]"

lemma heights_step:
  assumes "from \<le> latest" "unat latest + 1 < 2 ^ 64"
  shows "heights from latest = from # heights (from + 1) latest"
proof -
  have le: "unat from \<le> unat latest" using assms(1) by (simp add: word_le_nat_alt)
  with assms(2) have "unat (from + 1) = Suc (unat from)"
    by (simp add: unat_word_ariths)
  with le show ?thesis by (simp add: heights_def upt_conv_Cons del: upt_Suc)
qed

lemma heights_done: "\<not> from \<le> latest \<Longrightarrow> heights from latest = []"
  by (simp add: heights_def word_le_nat_alt)

lemma heights_nonempty_le: "h \<in> set (heights from latest) \<Longrightarrow> h \<le> latest"
  by (auto simp: heights_def word_le_nat_alt unat_of_nat intro: order_trans [OF mod_less_eq_dividend])

text \<open>All values of the heights, unless a height fails.\<close>

primrec collect_events :: "(u64 \<Rightarrow> 'v list option) \<Rightarrow> u64 list \<Rightarrow> 'v list option" where
  "collect_events at_height [] = Some []"
| "collect_events at_height (h # hs) =
     (case at_height h of None \<Rightarrow> None | Some vs \<Rightarrow> map_option ((@) vs) (collect_events at_height hs))"

lemma events_loop_heights:
  assumes "unat latest + 1 < 2 ^ 64"
  shows "events_loop at_height height latest acc =
    Some (map_option ((@) acc) (collect_events at_height (heights height latest)))"
proof (induction "heights height latest" arbitrary: height acc)
  case Nil
  have "\<not> height \<le> latest" using heights_step [OF _ assms, of height] Nil by (cases "height \<le> latest") auto
  then show ?case by (simp add: events_loop.simps heights_done)
next
  case (Cons h hs)
  then have le: "height \<le> latest" using heights_done [of height latest] by (cases "height \<le> latest") auto
  note step = heights_step [OF le assms]
  with Cons have hs: "hs = heights (height + 1) latest" by simp
  show ?case
  proof (cases "at_height height")
    case None
    with le step show ?thesis by (simp add: events_loop.simps [of _ height])
  next
    case (Some vs)
    have "events_loop at_height height latest acc = events_loop at_height (height + 1) latest (acc @ vs)"
      using le Some by (simp add: events_loop.simps [of _ height])
    also have "\<dots> = Some (map_option ((@) (acc @ vs)) (collect_events at_height (heights (height + 1) latest)))"
      by (rule Cons.hyps(1) [OF hs])
    finally show ?thesis
      using Some step by (cases "collect_events at_height (heights (height + 1) latest)") simp_all
  qed
qed

text \<open>
  Asking for events returns unless the chain has the greatest height, and gives the events of all
  heights in order, in fork mode of those after the fork only.
\<close>

theorem events_of_heights:
  assumes "em_latest_height em (bk_blockchain bk) = Inr latest" "unat latest + 1 < 2 ^ 64"
  shows "backend_events em cv bk None =
    Some (collect_events (events_at em cv bk '''') (heights (events_start bk) latest))"
  using events_loop_heights [OF assms(2), of "events_at em cv bk ''''" "events_start bk" "[]"]
  by (cases "collect_events (events_at em cv bk '''') (heights (events_start bk) latest)")
     (simp_all add: backend_events_def assms(1))

text \<open>At the greatest height the loop runs for ever: its counter wraps around to zero.\<close>

lemma events_loop_endless:
  assumes "events_loop at_height height (- 1) acc = Some r" "\<And>h. at_height h \<noteq> None"
  shows False
proof -
  have "(- 1 :: u64) = - 1 \<longrightarrow> (\<forall>h. at_height h \<noteq> None) \<longrightarrow> False"
    by (rule events_loop.raw_induct [where P = "\<lambda>at_height height latest acc r.
          latest = - 1 \<longrightarrow> (\<forall>h. at_height h \<noteq> None) \<longrightarrow> False", OF _ assms(1)])
       (auto split: if_splits option.splits)
  then show False using assms(2) by simp
qed

text \<open>
  On a chain of the greatest height asking for events never returns, unless it panics for one of the
  heights.
\<close>

theorem events_of_full_chain:
  assumes "em_latest_height em (bk_blockchain bk) = Inr (- 1)" "\<And>h. events_at em cv bk '''' h \<noteq> None"
  shows "backend_events em cv bk None = None"
  using events_loop_endless [of "events_at em cv bk ''''"] assms
  by (cases "backend_events em cv bk None") (auto simp: backend_events_def)

section \<open>An emulator with a queue\<close>

text \<open>A small emulator on which the properties apply: keys are numbers, and every transaction succeeds.\<close>

record demo_block =
  dm_waiting :: "nat test_tx list"
  dm_pending :: nat
  dm_sequence :: u64
  dm_next :: nat
  dm_height :: u64

definition demo_emulator :: "(demo_block, nat) test_emulator" where
  "demo_emulator =
     \<lparr>em_service_key = (\<lambda>b. \<lparr>vk_address = ''01'', vk_index = 0, vk_sequence = dm_sequence b, vk_signer = Inr 0\<rparr>),
      em_public_key = (\<lambda>k. \<lparr>pk_bytes = itoa k, pk_algorithm = 1\<rparr>),
      em_new_key = (\<lambda>b. (dm_next b, b\<lparr>dm_next := dm_next b + 1\<rparr>)),
      em_create_account = (\<lambda>k b. (Inr (''acc'' @ itoa k), b)),
      em_contract_names = (\<lambda>a b. Inr []), em_contract_code = (\<lambda>a n b. Inr []),
      em_sign_error = (\<lambda>k tx. None),
      em_add_transaction = (\<lambda>tx b. (None, b\<lparr>dm_waiting := dm_waiting b @ [tx], dm_pending := dm_pending b + 1\<rparr>)),
      em_execute_next = (\<lambda>b. case dm_waiting b of
          [] \<Rightarrow> (TransactionsExhausted, b) | t # ts \<Rightarrow> (ExecutionDone None, b\<lparr>dm_waiting := ts\<rparr>)),
      em_commit = (\<lambda>b. if dm_waiting b \<noteq> [] then (Some ''not executed'', b)
          else (None, b\<lparr>dm_pending := 0, dm_sequence := dm_sequence b + of_nat (dm_pending b), dm_height := dm_height b + 1\<rparr>)),
      em_execute_commit = (\<lambda>b. (None, b\<lparr>dm_height := dm_height b + 1\<rparr>)),
      em_latest_height = (\<lambda>b. Inr (dm_height b)),
      em_rollback = (\<lambda>h b. (None, b\<lparr>dm_waiting := [], dm_pending := 0, dm_height := h\<rparr>)),
      em_events = (\<lambda>h t b. Inr []), em_execute_script = (\<lambda>c as b. Inr (Inr [])),
      em_set_clock = (\<lambda>d b. b), em_create_snapshot = (\<lambda>n b. (None, b)), em_load_snapshot = (\<lambda>n b. (None, b))\<rparr>"

definition demo_conversions :: "string test_conversions" where
  "demo_conversions =
     \<lparr>cv_export = Inr, cv_encode = Inr, cv_type_id = (\<lambda>x. ''String''), cv_sema_type = Inr, cv_import = (\<lambda>x t. Inr x),
      cv_imports = (\<lambda>c. Inr [])\<rparr>"

definition demo_network :: "demo_block test_network" where
  "demo_network =
     \<lparr>nt_store_error = None, nt_connect_error = (\<lambda>h. None), nt_remote_error = (\<lambda>h n. None),
      nt_detect_chain = (\<lambda>h. Inr h), nt_chain = (\<lambda>i. Some (demo_flow_chain\<lparr>ch_id := i\<rparr>)), nt_monotonic = demo_flow_chain,
      nt_make = (\<lambda>opts. Inr \<lparr>dm_waiting = [], dm_pending = 0, dm_sequence = 0, dm_next = 1, dm_height = 0\<rparr>)\<rparr>"

definition demo_backend :: "(demo_block, nat) backend" where
  "demo_backend =
     (initial_backend demo_emulator None demo_flow_chain
        \<lparr>dm_waiting = [], dm_pending = 0, dm_sequence = 5, dm_next = 1, dm_height = 0\<rparr>)
       \<lparr>bk_file_resolver := Some (\<lambda>p. Inr ''access(all) contract A {}''),
        bk_resolver := Some (\<lambda>network name. Inr ''acc1''),
        bk_keys := [(''acc1'', \<lparr>pk_bytes = ''1'', pk_algorithm = 1\<rparr>)],
        bk_account_keys := [(''acc1'', [(''1'', \<lparr>ki_account_key = ''1'', ki_signer = 1\<rparr>)])]\<rparr>"

definition demo_account :: "flow_addr \<Rightarrow> test_account" where
  "demo_account a = \<lparr>ta_address = a, ta_key = \<lparr>pk_bytes = ''1'', pk_algorithm = 1\<rparr>\<rparr>"

lemma demo_counts: "counts_pending demo_emulator dm_pending"
  by (simp add: counts_pending_def demo_emulator_def split: list.split)

lemma demo_in_order: "executes_in_order demo_emulator dm_waiting"
  by (auto simp: executes_in_order_def demo_emulator_def split: list.split)

lemma demo_service_key: "vk_address (em_service_key demo_emulator b) = ''01''"
  by (simp add: demo_emulator_def)

theorem signatures_of_transaction_witness:
  "sign_transaction demo_emulator demo_backend
     (new_transaction demo_emulator demo_backend [] [''acc1'']) [demo_account ''acc2'', demo_account ''acc1'', demo_account ''01''] =
   Some (Inr \<lparr>tt_script = [], tt_proposer = (''01'', 0, 5), tt_payer = ''01'', tt_authorizers = [''acc1''], tt_arguments = [],
     tt_payload = [(''acc1'', Some 1)], tt_envelope = [(''01'', 0, 0)]\<rparr>)"
proof -
  have no_error: "em_sign_error demo_emulator k tx = None" for k tx by (simp add: demo_emulator_def)
  have key: "vk_signer (em_service_key demo_emulator (bk_blockchain demo_backend)) = Inr 0" by (simp add: demo_emulator_def)
  show ?thesis
    unfolding signatures_of_transaction [OF no_error key]
    by (simp add: payload_signers_def payload_signature_def demo_account_def demo_backend_def initial_backend_def
        new_transaction_def known_signer_def demo_emulator_def fork_enabled_def Let_def)
qed

lemma demo_orderly: "orderly_run demo_emulator demo_conversions dm_pending demo_backend"
  by (rule orderly_run.start) (simp_all add: demo_backend_def demo_emulator_def)

lemma demo_add:
  "\<exists>bk. add_test_transaction demo_emulator demo_conversions demo_backend [] [] [] [] = Some (None, bk) \<and>
     dm_pending (bk_blockchain bk) = 1 \<and> dm_sequence (bk_blockchain bk) = 5 \<and> dm_waiting (bk_blockchain bk) \<noteq> [] \<and>
     bk_file_resolver bk = bk_file_resolver demo_backend \<and> bk_resolver bk = bk_resolver demo_backend \<and>
     bk_keys bk = bk_keys demo_backend \<and> bk_account_keys bk = bk_account_keys demo_backend \<and> \<not> bk_fork bk"
  by (simp add: add_test_transaction_def backend_imports_def replace_imports_def demo_conversions_def go_slice_def
      submit_transaction_def sign_transaction_def Let_def demo_emulator_def demo_backend_def initial_backend_def fork_enabled_def)

theorem transaction_sequence_number_witness:
  "\<exists>bk. add_test_transaction demo_emulator demo_conversions demo_backend [] [] [] [] = Some (None, bk) \<and>
     tt_proposer (new_transaction demo_emulator bk [] []) = (''01'', 0, 6)"
proof -
  obtain bk where bk: "add_test_transaction demo_emulator demo_conversions demo_backend [] [] [] [] = Some (None, bk)"
      "dm_pending (bk_blockchain bk) = 1" "dm_sequence (bk_blockchain bk) = 5"
    using demo_add by blast
  have "orderly_run demo_emulator demo_conversions dm_pending bk"
    using demo_orderly bk(1) by (rule orderly_run.add)
  from transaction_sequence_number [OF demo_counts this] show ?thesis
    using bk by (auto simp: demo_emulator_def Let_def)
qed

theorem deploy_with_waiting_transaction_fails_witness:
  "\<exists>bk e bk'. add_test_transaction demo_emulator demo_conversions demo_backend [] [] [] [] = Some (None, bk) \<and>
     deploy_test_contract demo_emulator demo_conversions bk ''A'' ''A.cdc'' [] = Some (Some e, bk')"
proof -
  obtain bk where bk: "add_test_transaction demo_emulator demo_conversions demo_backend [] [] [] [] = Some (None, bk)"
      "dm_waiting (bk_blockchain bk) \<noteq> []" "bk_file_resolver bk = bk_file_resolver demo_backend"
      "bk_resolver bk = bk_resolver demo_backend" "bk_keys bk = bk_keys demo_backend"
      "bk_account_keys bk = bk_account_keys demo_backend" "\<not> bk_fork bk"
    using demo_add by blast
  have "deploy_test_contract demo_emulator demo_conversions bk ''A'' ''A.cdc'' [] \<noteq> None"
    using bk(3-7) by (simp add: deploy_test_contract_def demo_backend_def backend_imports_def replace_imports_def go_slice_def
        demo_conversions_def deploy_address_def get_test_account_def submit_transaction_def sign_transaction_def
        new_transaction_def known_signer_def demo_emulator_def Let_def)
  then obtain err bk' where deploy: "deploy_test_contract demo_emulator demo_conversions bk ''A'' ''A.cdc'' [] = Some (err, bk')"
    by fastforce
  from deploy_with_waiting_transaction_fails [OF demo_in_order bk(2) this] obtain e where "err = Some e" by blast
  with bk(1) deploy show ?thesis by blast
qed

theorem events_of_heights_witness:
  "backend_events demo_emulator demo_conversions demo_backend None = Some (Some [])"
proof -
  have "em_latest_height demo_emulator (bk_blockchain demo_backend) = Inr 0"
    by (simp add: demo_emulator_def demo_backend_def)
  from events_of_heights [OF this] show ?thesis
    by (simp add: heights_def events_start_def demo_backend_def initial_backend_def fork_enabled_def events_at_def
        demo_emulator_def)
qed

theorem events_of_full_chain_witness:
  "backend_events demo_emulator demo_conversions
     (demo_backend\<lparr>bk_blockchain := (bk_blockchain demo_backend)\<lparr>dm_height := - 1\<rparr>\<rparr>) None = None"
  by (rule events_of_full_chain) (simp_all add: demo_emulator_def events_at_def demo_backend_def)

lemma demo_create:
  "create_test_account demo_emulator bk =
     (let n = dm_next (bk_blockchain bk); a = ''acc'' @ itoa n; key = \<lparr>pk_bytes = itoa n, pk_algorithm = 1\<rparr>
      in (Inr \<lparr>ta_address = a, ta_key = key\<rparr>,
          bk\<lparr>bk_blockchain := (bk_blockchain bk)\<lparr>dm_next := n + 1\<rparr>,
             bk_account_keys := AList.update a [(itoa n, \<lparr>ki_account_key = itoa n, ki_signer = n\<rparr>)] (bk_account_keys bk),
             bk_keys := AList.update a key (bk_keys bk)\<rparr>))"
  by (simp add: create_test_account_def demo_emulator_def Let_def store_account_key_def)

lemma demo_create_accounts:
  "\<exists>bk'. create_accounts demo_emulator n bk = Some bk' \<and> bk_fork bk' = bk_fork bk \<and>
     (\<forall>i < n. map_of (bk_keys bk') (''acc'' @ itoa (dm_next (bk_blockchain bk) + i)) =
        Some \<lparr>pk_bytes = itoa (dm_next (bk_blockchain bk) + i), pk_algorithm = 1\<rparr>) \<and>
     (\<forall>a. (\<forall>i. a \<noteq> ''acc'' @ itoa (dm_next (bk_blockchain bk) + i)) \<longrightarrow> map_of (bk_keys bk') a = map_of (bk_keys bk) a)"
proof (induction n arbitrary: bk)
  case (Suc n)
  define bk1 where "bk1 = snd (create_test_account demo_emulator bk)"
  let ?m = "dm_next (bk_blockchain bk)"
  have bk1: "dm_next (bk_blockchain bk1) = ?m + 1" "bk_fork bk1 = bk_fork bk"
      "map_of (bk_keys bk1) = (map_of (bk_keys bk))(''acc'' @ itoa ?m \<mapsto> \<lparr>pk_bytes = itoa ?m, pk_algorithm = 1\<rparr>)"
    by (simp_all add: bk1_def demo_create Let_def update_conv')
  from Suc.IH [of bk1] obtain bk' where bk': "create_accounts demo_emulator n bk1 = Some bk'" "bk_fork bk' = bk_fork bk1"
      "\<And>i. i < n \<Longrightarrow> map_of (bk_keys bk') (''acc'' @ itoa (?m + 1 + i)) = Some \<lparr>pk_bytes = itoa (?m + 1 + i), pk_algorithm = 1\<rparr>"
      "\<And>a. (\<And>i. a \<noteq> ''acc'' @ itoa (?m + 1 + i)) \<Longrightarrow> map_of (bk_keys bk') a = map_of (bk_keys bk1) a"
    unfolding bk1(1) by blast
  have old: "''acc'' @ itoa ?m \<noteq> ''acc'' @ itoa (?m + 1 + i)" for i by (simp add: itoa_inject)
  have "create_accounts demo_emulator (Suc n) bk = Some bk'"
    using bk'(1) by (simp add: bk1_def demo_create Let_def)
  moreover have "map_of (bk_keys bk') (''acc'' @ itoa (?m + i)) = Some \<lparr>pk_bytes = itoa (?m + i), pk_algorithm = 1\<rparr>"
    if "i < Suc n" for i
  proof (cases i)
    case 0
    then show ?thesis using bk'(4) [OF old] by (simp add: bk1(3))
  next
    case (Suc j)
    then show ?thesis using bk'(3) [of j] that by simp
  qed
  moreover have "map_of (bk_keys bk') a = map_of (bk_keys bk) a" if "\<forall>i. a \<noteq> ''acc'' @ itoa (?m + i)" for a
  proof -
    have "a \<noteq> ''acc'' @ itoa (?m + 1 + i)" for i using that [rule_format, of "1 + i"] by (simp add: add.assoc)
    then show ?thesis using bk'(4) that [rule_format, of 0] by (simp add: bk1(3))
  qed
  ultimately show ?case using bk'(2) bk1(2) by blast
qed simp

lemma demo_twenty: "itoa 20 = ''20''"
  by code_simp

theorem given_accounts_can_sign_witness:
  "\<exists>bk. new_emulator_backend demo_emulator demo_network False None = Some bk \<and>
     get_test_account bk ''acc20'' = Inr \<lparr>ta_address = ''acc20'', ta_key = \<lparr>pk_bytes = ''20'', pk_algorithm = 1\<rparr>\<rparr> \<and>
     sign_transaction demo_emulator bk (new_transaction demo_emulator bk [] [''acc20''])
       [\<lparr>ta_address = ''acc20'', ta_key = \<lparr>pk_bytes = ''20'', pk_algorithm = 1\<rparr>\<rparr>] \<noteq> None"
proof -
  let ?acc = "\<lparr>ta_address = ''acc20'', ta_key = \<lparr>pk_bytes = ''20'', pk_algorithm = 1\<rparr>\<rparr>"
  let ?b = "\<lparr>dm_waiting = [], dm_pending = 0, dm_sequence = 0, dm_next = 1, dm_height = 0\<rparr>"
  obtain bk0 where start: "service_account demo_emulator (initial_backend demo_emulator None demo_flow_chain ?b) =
        (Inr \<lparr>ta_address = ''01'', ta_key = \<lparr>pk_bytes = itoa 0, pk_algorithm = 1\<rparr>\<rparr>, bk0)"
      "dm_next (bk_blockchain bk0) = 1" "\<not> bk_fork bk0"
    by (simp add: service_account_def demo_emulator_def Let_def store_account_key_def initial_backend_def fork_enabled_def)
  let ?bk1 = "bk0\<lparr>bk_keys := AList.update ''01'' \<lparr>pk_bytes = itoa 0, pk_algorithm = 1\<rparr> (bk_keys bk0)\<rparr>"
  from demo_create_accounts [of initial_accounts_number ?bk1] obtain bk where
      bk: "create_accounts demo_emulator initial_accounts_number ?bk1 = Some bk" "\<not> bk_fork bk"
        "\<And>i. i < initial_accounts_number \<Longrightarrow> map_of (bk_keys bk) (''acc'' @ itoa (1 + i)) = Some \<lparr>pk_bytes = itoa (1 + i), pk_algorithm = 1\<rparr>"
    using start(2,3) by auto
  have "map_of (bk_keys bk) ''acc20'' = Some \<lparr>pk_bytes = ''20'', pk_algorithm = 1\<rparr>"
    using bk(3) [of 19] demo_twenty by (simp add: initial_accounts_number_def)
  then have given: "get_test_account bk ''acc20'' = Inr ?acc"
    using bk(2) by (simp add: get_test_account_def)
  have new: "new_emulator_backend demo_emulator demo_network False None = Some bk"
    using bk(1) start(1) by (simp add: new_emulator_backend_def demo_network_def select_chain_def fork_enabled_def Let_def
        bootstrap_accounts_def)
  have "backend_reachable demo_emulator demo_conversions demo_network bk"
    using new by (rule backend_reachable.new)
  then have "sign_transaction demo_emulator bk tx [?acc] \<noteq> None" for tx
    by (rule given_accounts_can_sign [OF demo_service_key]) (simp add: given)
  with given new show ?thesis by blast
qed

end
