(* ===== verification/TestRunner.thy ===== *)
theory TestRunner
  imports EmulatorBackend "HOL-Library.Multiset"
begin

text \<open>
  The test runner (src/test/test_runner.go): the runner's state and how a script changes it, the imports
  of a script, and the run of its functions. The Cadence parser, checker and interpreter are
  parameters. A panic is a value of its own here, because the runner recovers from panics.
\<close>

section \<open>State (TestRunner, the With functions)\<close>

record fork_config =
  fc_host :: string
  fc_height :: u64
  fc_chain_id :: string

text \<open>
  The framework provider only holds the backend, so it and the runner's backend are one field. The
  coverage report is the list of the locations it excludes.
\<close>

record ('b, 'k) test_runner =
  tr_import_resolver :: "(string \<Rightarrow> location \<Rightarrow> (test_error, string) result) option"
  tr_resolver :: "address_resolver option"
  tr_file_resolver :: "(string \<Rightarrow> (string, string) result) option"
  tr_coverage :: "location list option"
  tr_seed :: int
  tr_backend :: "('b, 'k) backend option"
  tr_label :: string
  tr_network_resolver :: "(string \<Rightarrow> string option) option"
  tr_fork :: "fork_config option"

definition new_test_runner :: "('b, 'k) test_runner" where
  "new_test_runner =
     \<lparr>tr_import_resolver = None, tr_resolver = None, tr_file_resolver = None, tr_coverage = None, tr_seed = 0,
      tr_backend = None, tr_label = '''', tr_network_resolver = None, tr_fork = None\<rparr>"

definition with_fork :: "fork_config \<Rightarrow> ('b, 'k) test_runner \<Rightarrow> ('b, 'k) test_runner" where
  "with_fork cfg r = r\<lparr>tr_fork := Some cfg\<rparr>"

definition with_network_label :: "string \<Rightarrow> ('b, 'k) test_runner \<Rightarrow> ('b, 'k) test_runner" where
  "with_network_label label r = r\<lparr>tr_label := label\<rparr>"

definition with_network_resolver :: "(string \<Rightarrow> string option) \<Rightarrow> ('b, 'k) test_runner \<Rightarrow> ('b, 'k) test_runner" where
  "with_network_resolver res r = r\<lparr>tr_network_resolver := Some res\<rparr>"

definition with_random_seed :: "int \<Rightarrow> ('b, 'k) test_runner \<Rightarrow> ('b, 'k) test_runner" where
  "with_random_seed seed r = r\<lparr>tr_seed := seed\<rparr>"

text \<open>What a call does: return, return an error, panic, or not return within the fuel it has.\<close>

datatype 'a test_call = Returned 'a | Failed test_error | Panicked test_error | Unfinished

definition message_error :: "string \<Rightarrow> test_error" where
  "message_error m = \<lparr>te_message = m, te_location = None\<rparr>"

section \<open>The environment of a script (initializeEnvironment)\<close>

definition script_location :: location where "script_location = OtherLocation ''s.test''"

definition test_locations :: "location list" where
  "test_locations =
     [IdentifierLocation ''Crypto'', IdentifierLocation ''Test'', IdentifierLocation ''BlockchainHelpers'', script_location]"

definition exclude_locations :: "location list \<Rightarrow> location list \<Rightarrow> location list" where
  "exclude_locations ls excluded = fold ks_insert ls excluded"

text \<open>The fork pragma: what it sets of the runner.\<close>

definition apply_pragma ::
    "pragma_invocation option list \<Rightarrow> ('b, 'k) test_runner \<Rightarrow> (string, string \<times> ('b, 'k) test_runner) result" where
  "apply_pragma pragmas r =
     (case extract_fork_pragma pragmas of
        Inl e \<Rightarrow> Inl ''test_fork pragma''
      | Inr (network, height) \<Rightarrow>
          (if network = '''' then Inr (network, r)
           else case tr_network_resolver r of
             None \<Rightarrow> Inl ''test_fork pragma requires a network resolver to be configured''
           | Some resolve \<Rightarrow>
               (case resolve network of
                  None \<Rightarrow> Inl (''network resolver could not resolve network '' @ network)
                | Some host \<Rightarrow>
                    Inr (network,
                      r\<lparr>tr_fork := Some \<lparr>fc_host = host, fc_height = (case height of None \<Rightarrow> 0 | Some h \<Rightarrow> h),
                                         fc_chain_id = ''''\<rparr>,
                        tr_label := network\<rparr>))))"

definition runner_options :: "('b, 'k) test_runner \<Rightarrow> backend_options" where
  "runner_options r =
     \<lparr>bo_fork_host = (case tr_fork r of None \<Rightarrow> '''' | Some c \<Rightarrow> fc_host c),
      bo_fork_height = (case tr_fork r of None \<Rightarrow> 0 | Some c \<Rightarrow> fc_height c),
      bo_label = tr_label r,
      bo_chain_id = (case tr_fork r of None \<Rightarrow> '''' | Some c \<Rightarrow> fc_chain_id c),
      bo_resolver = tr_resolver r\<rparr>"

text \<open>The backend is dropped only if a pragma names another network than the backend's label.\<close>

definition drop_backend :: "string \<Rightarrow> ('b, 'k) test_runner \<Rightarrow> ('b, 'k) test_runner" where
  "drop_backend network r =
     (case tr_backend r of
        None \<Rightarrow> r
      | Some bk \<Rightarrow> if network \<noteq> '''' \<and> bk_label bk \<noteq> network then r\<lparr>tr_backend := None\<rparr> else r)"

definition refresh_backend :: "('b, 'k) test_runner \<Rightarrow> ('b, 'k) backend \<Rightarrow> ('b, 'k) backend" where
  "refresh_backend r bk =
     bk\<lparr>bk_file_resolver := tr_file_resolver r,
        bk_resolver := Some (resolver_with_builtins (bk_chain bk) (tr_resolver r)),
        bk_label := tr_label r\<rparr>"

definition initialize_environment ::
    "('b, 'k) test_emulator \<Rightarrow> 'b test_network \<Rightarrow> pragma_invocation option list \<Rightarrow> ('b, 'k) test_runner \<Rightarrow>
     unit test_call \<times> ('b, 'k) test_runner" where
  "initialize_environment em net pragmas r =
     (case apply_pragma pragmas r of
        Inl e \<Rightarrow> (Failed (message_error e), r)
      | Inr (network, r1) \<Rightarrow>
          (let r2 = drop_backend network r1
           in case (case tr_backend r2 of
                      Some bk \<Rightarrow> Some bk
                    | None \<Rightarrow> new_emulator_backend em net (tr_coverage r2 \<noteq> None) (Some (runner_options r2))) of
                None \<Rightarrow> (Panicked (message_error ''failed to create the backend''), r2)
              | Some bk \<Rightarrow>
                  (Returned (),
                   r2\<lparr>tr_backend := Some (refresh_backend r2 bk),
                      tr_coverage :=
                        map_option (exclude_locations (excluded_locations (bk_chain bk) @ test_locations)) (tr_coverage r2)\<rparr>)))"

section \<open>Imports (parseAndCheckImport and the import handlers)\<close>

text \<open>A computation of the library that asks for imports.\<close>

datatype ('e, 'a) import_run =
    ImportDone 'a
  | ImportRequest location "(test_error, 'e) result \<Rightarrow> ('e, 'a) import_run"

primrec run_imports :: "(location \<Rightarrow> 'e test_call) \<Rightarrow> ('e, 'a) import_run \<Rightarrow> 'a test_call" where
  "run_imports h (ImportDone a) = Returned a"
| "run_imports h (ImportRequest l k) =
     (case h l of
        Returned e \<Rightarrow> run_imports h (k (Inr e))
      | Failed e \<Rightarrow> run_imports h (k (Inl e))
      | Panicked e \<Rightarrow> Panicked e
      | Unfinished \<Rightarrow> Unfinished)"

text \<open>
  The library: a function of a script is its name, whether it has parameters and whether it has a return type. A checked program
  is an \<open>'e\<close>. \<open>rl_check\<close> parses and checks code at a location; \<open>rl_interpret\<close> makes the interpreter.
\<close>

record test_function =
  tf_name :: string
  tf_parameters :: bool
  tf_result :: bool

record test_script =
  sp_pragmas :: "pragma_invocation option list"
  sp_functions :: "test_function list"

datatype test_invocation = InvokeReturned "test_error option" | InvokePanicked test_error

record 'i script_interpreter =
  ip_global :: "string \<Rightarrow> bool"
  ip_invoke :: "string \<Rightarrow> 'i \<Rightarrow> test_invocation \<times> 'i"
  ip_start :: 'i

record ('e, 'i) runner_library =
  rl_parse :: "string \<Rightarrow> (test_error, test_script) result"
  rl_imports :: "string \<Rightarrow> (string, import_declaration list) result"
  rl_check :: "string \<Rightarrow> location \<Rightarrow> ('e, (test_error, 'e) result) import_run"
  rl_interpret :: "'e \<Rightarrow> ('e, (test_error, 'i script_interpreter) result) import_run"
  rl_test_contract :: 'e
  rl_helpers :: 'e

definition runner_imports :: "('e, 'i) runner_library \<Rightarrow> ('b, 'k) backend \<Rightarrow> string \<Rightarrow> string test_call" where
  "runner_imports rl bk code =
     (case replace_imports (rl_imports rl) (bk_resolver bk) (bk_label bk) code of
        None \<Rightarrow> Panicked (message_error ''replaceImports'')
      | Some c \<Rightarrow> Returned c)"

text \<open>The code of an import: from the resolver, or for a contract at an address from the chain.\<close>

definition import_network :: "('b, 'k) backend \<Rightarrow> string" where
  "import_network bk = (if bk_fork bk \<and> bk_label bk \<noteq> '''' then bk_label bk else default_network_label)"

definition import_code ::
    "('b, 'k) test_emulator \<Rightarrow> ('b, 'k) test_runner \<Rightarrow> ('b, 'k) backend \<Rightarrow> location \<Rightarrow> (test_error, string) result" where
  "import_code em r bk l =
     (case tr_import_resolver r of
        None \<Rightarrow> Inl (message_error ''import resolver not provided'')
      | Some resolve \<Rightarrow>
          (case resolve (import_network bk) l of
             Inr code \<Rightarrow> Inr code
           | Inl e \<Rightarrow>
               (case l of
                  AddressLocation address name \<Rightarrow>
                    map_sum message_error id (em_contract_code em address name (bk_blockchain bk))
                | _ \<Rightarrow> Inl e)))"

definition flatten_call :: "(test_error, 'e) result test_call \<Rightarrow> 'e test_call" where
  "flatten_call c =
     (case c of
        Returned (Inr e) \<Rightarrow> Returned e
      | Returned (Inl err) \<Rightarrow> Failed err
      | Failed err \<Rightarrow> Failed err
      | Panicked err \<Rightarrow> Panicked err
      | Unfinished \<Rightarrow> Unfinished)"

text \<open>
  Imports of imports are answered by the same function, so it has fuel for the depth. An imported
  program can import the test contract and contracts at addresses.
\<close>

fun parse_and_check_import ::
    "('b, 'k) test_emulator \<Rightarrow> ('e, 'i) runner_library \<Rightarrow> ('b, 'k) test_runner \<Rightarrow> ('b, 'k) backend \<Rightarrow> nat \<Rightarrow>
     location \<Rightarrow> 'e test_call" where
  "parse_and_check_import em rl r bk 0 l = Unfinished"
| "parse_and_check_import em rl r bk (Suc fuel) l =
     (case import_code em r bk l of
        Inl e \<Rightarrow> Failed e
      | Inr code \<Rightarrow>
          (case runner_imports rl bk code of
             Returned code1 \<Rightarrow>
               flatten_call
                 (run_imports
                    (\<lambda>i. if i = IdentifierLocation ''Test'' then Returned (rl_test_contract rl)
                         else case i of
                           AddressLocation a n \<Rightarrow> parse_and_check_import em rl r bk fuel i
                         | _ \<Rightarrow> Failed (message_error ''unable to import location''))
                    (rl_check rl code1 l))
           | Failed e \<Rightarrow> Failed e | Panicked e \<Rightarrow> Panicked e | Unfinished \<Rightarrow> Unfinished))"

text \<open>The handlers of the script itself; the interpreter's panics on errors.\<close>

definition checker_import_handler ::
    "('b, 'k) test_emulator \<Rightarrow> ('e, 'i) runner_library \<Rightarrow> ('b, 'k) test_runner \<Rightarrow> ('b, 'k) backend \<Rightarrow> nat \<Rightarrow>
     location \<Rightarrow> 'e test_call" where
  "checker_import_handler em rl r bk fuel l =
     (if l = IdentifierLocation ''Test'' then Returned (rl_test_contract rl)
      else if l = IdentifierLocation ''BlockchainHelpers'' then Returned (rl_helpers rl)
      else parse_and_check_import em rl r bk fuel l)"

definition interpreter_import_handler ::
    "('b, 'k) test_emulator \<Rightarrow> ('e, 'i) runner_library \<Rightarrow> ('b, 'k) test_runner \<Rightarrow> ('b, 'k) backend \<Rightarrow> nat \<Rightarrow>
     location \<Rightarrow> 'e test_call" where
  "interpreter_import_handler em rl r bk fuel l =
     (case checker_import_handler em rl r bk fuel l of
        Failed e \<Rightarrow> Panicked e
      | c \<Rightarrow> c)"

section \<open>Loading a script (parseCheckAndInterpret)\<close>

definition test_function_prefix :: string where "test_function_prefix = ''test''"

definition is_test_name :: "string \<Rightarrow> bool" where "is_test_name n = has_prefix n test_function_prefix"

fun check_signatures :: "test_function list \<Rightarrow> test_error option" where
  "check_signatures [] = None"
| "check_signatures (f # fs) =
     (if \<not> is_test_name (tf_name f) then check_signatures fs
      else if tf_parameters f then Some (message_error ''test functions should have no arguments'')
      else if tf_result f then Some (message_error ''test functions should have no return values'')
      else check_signatures fs)"

definition load_script ::
    "('b, 'k) test_emulator \<Rightarrow> 'b test_network \<Rightarrow> ('e, 'i) runner_library \<Rightarrow> nat \<Rightarrow> string \<Rightarrow> ('b, 'k) test_runner \<Rightarrow>
     (test_function list \<times> 'i script_interpreter) test_call \<times> ('b, 'k) test_runner" where
  "load_script em net rl fuel script r =
     (case rl_parse rl script of
        Inl e \<Rightarrow> (Failed e, r)
      | Inr prg \<Rightarrow>
          (case initialize_environment em net (sp_pragmas prg) r of
             (Failed e, r1) \<Rightarrow> (Failed e, r1)
           | (Panicked e, r1) \<Rightarrow> (Panicked e, r1)
           | (Unfinished, r1) \<Rightarrow> (Unfinished, r1)
           | (Returned _, r1) \<Rightarrow>
               (case tr_backend r1 of
                  None \<Rightarrow> (Panicked (message_error ''no backend''), r1)
                | Some bk \<Rightarrow>
                    (case check_signatures (sp_functions prg) of
                       Some e \<Rightarrow> (Failed e, r1)
                     | None \<Rightarrow>
                         (case runner_imports rl bk script of
                            Returned script1 \<Rightarrow>
                              (case flatten_call
                                      (run_imports (checker_import_handler em rl r1 bk fuel) (rl_check rl script1 script_location)) of
                                 Returned checked \<Rightarrow>
                                   (case flatten_call
                                           (run_imports (interpreter_import_handler em rl r1 bk fuel) (rl_interpret rl checked)) of
                                      Returned ip \<Rightarrow> (Returned (sp_functions prg, ip), r1)
                                    | Failed e \<Rightarrow> (Failed e, r1) | Panicked e \<Rightarrow> (Panicked e, r1)
                                    | Unfinished \<Rightarrow> (Unfinished, r1))
                               | Failed e \<Rightarrow> (Failed e, r1) | Panicked e \<Rightarrow> (Panicked e, r1)
                               | Unfinished \<Rightarrow> (Unfinished, r1))
                          | Failed e \<Rightarrow> (Failed e, r1) | Panicked e \<Rightarrow> (Panicked e, r1)
                          | Unfinished \<Rightarrow> (Unfinished, r1))))))"

section \<open>Running the functions\<close>

definition invoke_test_function :: "'i script_interpreter \<Rightarrow> string \<Rightarrow> 'i \<Rightarrow> test_error option \<times> 'i" where
  "invoke_test_function ip name i =
     (case ip_invoke ip name i of
        (InvokeReturned err, i1) \<Rightarrow> (err, i1)
      | (InvokePanicked err, i1) \<Rightarrow> (Some err, i1))"

definition run_hook :: "'i script_interpreter \<Rightarrow> string \<Rightarrow> 'i \<Rightarrow> test_error option \<times> 'i" where
  "run_hook ip name i = (if ip_global ip name then invoke_test_function ip name i else (None, i))"

definition run_setup :: "'i script_interpreter \<Rightarrow> 'i \<Rightarrow> test_error option \<times> 'i" where
  "run_setup ip = run_hook ip ''setup''"

definition run_tear_down :: "'i script_interpreter \<Rightarrow> 'i \<Rightarrow> test_error option \<times> 'i" where
  "run_tear_down ip = run_hook ip ''tearDown''"

definition run_before_each :: "'i script_interpreter \<Rightarrow> 'i \<Rightarrow> test_error option \<times> 'i" where
  "run_before_each ip = run_hook ip ''beforeEach''"

definition run_after_each :: "'i script_interpreter \<Rightarrow> 'i \<Rightarrow> test_error option \<times> 'i" where
  "run_after_each ip = run_hook ip ''afterEach''"

type_synonym test_result = "string \<times> test_error option"

text \<open>
  One test. The result and the error; a panic of the test function, which is invoked without a
  recovery of its own, is recovered at the very end: then there is no result.
\<close>

definition run_one :: "'i script_interpreter \<Rightarrow> string \<Rightarrow> 'i \<Rightarrow> (test_result option \<times> test_error option) \<times> 'i" where
  "run_one ip name i =
     (case run_setup ip i of
        (Some e, i1) \<Rightarrow> ((None, Some e), i1)
      | (None, i1) \<Rightarrow>
     (case run_before_each ip i1 of
        (Some e, i2) \<Rightarrow> ((None, Some e), i2)
      | (None, i2) \<Rightarrow>
     (case ip_invoke ip name i2 of
        (InvokePanicked e, i3) \<Rightarrow> ((None, Some e), i3)
      | (InvokeReturned test_err, i3) \<Rightarrow>
     (case run_after_each ip i3 of
        (Some e, i4) \<Rightarrow> ((None, Some e), i4)
      | (None, i4) \<Rightarrow>
          (let (err, i5) = run_tear_down ip i4 in ((Some (name, test_err), err), i5))))))"

text \<open>All tests: the loop over the test cases with the results so far.\<close>

fun run_cases :: "'i script_interpreter \<Rightarrow> string list \<Rightarrow> test_result list \<Rightarrow> 'i \<Rightarrow> (test_error, test_result list) result \<times> 'i" where
  "run_cases ip [] results i = (Inr results, i)"
| "run_cases ip (name # names) results i =
     (case run_before_each ip i of
        (Some e, i1) \<Rightarrow> (Inl e, i1)
      | (None, i1) \<Rightarrow>
          (let (test_err, i2) = invoke_test_function ip name i1
           in case run_after_each ip i2 of
                (Some e, i3) \<Rightarrow> (Inl e, i3)
              | (None, i3) \<Rightarrow> run_cases ip names (results @ [(name, test_err)]) i3))"

text \<open>\<^verbatim>\<open>rand.Shuffle\<close>: swaps from the last index down to 1; \<open>draw i\<close> is at most i.\<close>

definition swap_at :: "nat \<Rightarrow> nat \<Rightarrow> 'a list \<Rightarrow> 'a list" where
  "swap_at i j xs = xs[i := xs ! j, j := xs ! i]"

primrec shuffle_loop :: "(nat \<Rightarrow> nat) \<Rightarrow> nat \<Rightarrow> 'a list \<Rightarrow> 'a list" where
  "shuffle_loop draw 0 xs = xs"
| "shuffle_loop draw (Suc i) xs = shuffle_loop draw i (swap_at (Suc i) (draw (Suc i)) xs)"

definition shuffle :: "(nat \<Rightarrow> nat) \<Rightarrow> 'a list \<Rightarrow> 'a list" where
  "shuffle draw xs = shuffle_loop draw (length xs - 1) xs"

text \<open>\<open>draw seed\<close> are the numbers of the generator with this seed.\<close>

definition test_cases :: "(int \<Rightarrow> nat \<Rightarrow> nat) \<Rightarrow> int \<Rightarrow> test_function list \<Rightarrow> string list" where
  "test_cases draw seed fs =
     (let names = filter is_test_name (map tf_name fs)
      in if seed > 0 then shuffle (draw seed) names else names)"

definition run_all ::
    "'i script_interpreter \<Rightarrow> string list \<Rightarrow> 'i \<Rightarrow> (test_result list option \<times> test_error option) \<times> 'i" where
  "run_all ip names i =
     (case run_setup ip i of
        (Some e, i1) \<Rightarrow> ((None, Some e), i1)
      | (None, i1) \<Rightarrow>
          (case run_cases ip names [] i1 of
             (Inl e, i2) \<Rightarrow> ((None, Some e), i2)
           | (Inr results, i2) \<Rightarrow> (let (err, i3) = run_tear_down ip i2 in ((Some results, err), i3))))"

text \<open>The entry points. A panic of loading is recovered as an error without results; \<open>None\<close> does not return.\<close>

definition get_tests ::
    "('b, 'k) test_emulator \<Rightarrow> 'b test_network \<Rightarrow> ('e, 'i) runner_library \<Rightarrow> nat \<Rightarrow> string \<Rightarrow> ('b, 'k) test_runner \<Rightarrow>
     string list test_call \<times> ('b, 'k) test_runner" where
  "get_tests em net rl fuel script r =
     (case load_script em net rl fuel script r of
        (Returned (fs, ip), r1) \<Rightarrow> (Returned (filter is_test_name (map tf_name fs)), r1)
      | (Failed e, r1) \<Rightarrow> (Failed e, r1)
      | (Panicked e, r1) \<Rightarrow> (Panicked e, r1)
      | (Unfinished, r1) \<Rightarrow> (Unfinished, r1))"

definition run_tests ::
    "('b, 'k) test_emulator \<Rightarrow> 'b test_network \<Rightarrow> ('e, 'i) runner_library \<Rightarrow> (int \<Rightarrow> nat \<Rightarrow> nat) \<Rightarrow> nat \<Rightarrow> string \<Rightarrow>
     ('b, 'k) test_runner \<Rightarrow> (test_result list option \<times> test_error option) option \<times> ('b, 'k) test_runner" where
  "run_tests em net rl draw fuel script r =
     (case load_script em net rl fuel script r of
        (Returned (fs, ip), r1) \<Rightarrow> (Some (fst (run_all ip (test_cases draw (tr_seed r1) fs) (ip_start ip))), r1)
      | (Failed e, r1) \<Rightarrow> (Some (None, Some e), r1)
      | (Panicked e, r1) \<Rightarrow> (Some (None, Some e), r1)
      | (Unfinished, r1) \<Rightarrow> (None, r1))"

definition run_test ::
    "('b, 'k) test_emulator \<Rightarrow> 'b test_network \<Rightarrow> ('e, 'i) runner_library \<Rightarrow> nat \<Rightarrow> string \<Rightarrow> string \<Rightarrow>
     ('b, 'k) test_runner \<Rightarrow> (test_result option \<times> test_error option) option \<times> ('b, 'k) test_runner" where
  "run_test em net rl fuel script name r =
     (case load_script em net rl fuel script r of
        (Returned (fs, ip), r1) \<Rightarrow> (Some (fst (run_one ip name (ip_start ip))), r1)
      | (Failed e, r1) \<Rightarrow> (Some (None, Some e), r1)
      | (Panicked e, r1) \<Rightarrow> (Some (None, Some e), r1)
      | (Unfinished, r1) \<Rightarrow> (None, r1))"

text \<open>The logs are those of the backend; without one a nil pointer is dereferenced.\<close>

definition runner_logs :: "('b, 'k) test_runner \<Rightarrow> string list option" where
  "runner_logs r = map_option bk_logs (tr_backend r)"

section \<open>The order of the calls\<close>

definition invoke_all :: "'i script_interpreter \<Rightarrow> string list \<Rightarrow> 'i \<Rightarrow> 'i" where
  "invoke_all ip names i = fold (\<lambda>n i. snd (ip_invoke ip n i)) names i"

lemma invoke_all_simps [simp]:
  "invoke_all ip [] i = i" "invoke_all ip (n # ns) i = invoke_all ip ns (snd (ip_invoke ip n i))"
  "invoke_all ip (ns @ ms) i = invoke_all ip ms (invoke_all ip ns i)"
  by (simp_all add: invoke_all_def)

definition hook_calls :: "'i script_interpreter \<Rightarrow> string \<Rightarrow> string list" where
  "hook_calls ip n = (if ip_global ip n then [n] else [])"

definition case_calls :: "'i script_interpreter \<Rightarrow> string \<Rightarrow> string list" where
  "case_calls ip t = hook_calls ip ''beforeEach'' @ [t] @ hook_calls ip ''afterEach''"

definition schedule :: "'i script_interpreter \<Rightarrow> string list \<Rightarrow> string list" where
  "schedule ip ts = hook_calls ip ''setup'' @ concat (map (case_calls ip) ts) @ hook_calls ip ''tearDown''"

definition invocation_error :: "test_invocation \<Rightarrow> test_error option" where
  "invocation_error v = (case v of InvokeReturned e \<Rightarrow> e | InvokePanicked e \<Rightarrow> Some e)"

lemma invoke_test_function_eq:
  "invoke_test_function ip n i = (invocation_error (fst (ip_invoke ip n i)), snd (ip_invoke ip n i))"
  by (simp add: invoke_test_function_def invocation_error_def case_prod_unfold split: test_invocation.split)

definition hook_succeeds :: "'i script_interpreter \<Rightarrow> string \<Rightarrow> bool" where
  "hook_succeeds ip n \<longleftrightarrow> (\<forall>i. invocation_error (fst (ip_invoke ip n i)) = None)"

lemma run_hook_succeeds: "hook_succeeds ip n \<Longrightarrow> run_hook ip n i = (None, invoke_all ip (hook_calls ip n) i)"
  by (simp add: run_hook_def hook_calls_def invoke_test_function_eq hook_succeeds_def)

text \<open>The result of every test, from the state its calls lead to.\<close>

fun case_results :: "'i script_interpreter \<Rightarrow> string list \<Rightarrow> 'i \<Rightarrow> test_result list" where
  "case_results ip [] i = []"
| "case_results ip (t # ts) i =
     (t, invocation_error (fst (ip_invoke ip t (invoke_all ip (hook_calls ip ''beforeEach'') i)))) #
     case_results ip ts (invoke_all ip (case_calls ip t) i)"

lemma case_results_nth:
  "k < length ts \<Longrightarrow>
   case_results ip ts i ! k =
     (ts ! k, invocation_error (fst (ip_invoke ip (ts ! k)
        (invoke_all ip (concat (map (case_calls ip) (take k ts)) @ hook_calls ip ''beforeEach'') i))))"
  by (induction ts arbitrary: i k) (auto simp: nth_Cons split: nat.split)

lemma case_results_names [simp]: "map fst (case_results ip ts i) = ts" "length (case_results ip ts i) = length ts"
  by (induction ts arbitrary: i) auto

lemma run_cases_results:
  assumes "hook_succeeds ip ''beforeEach''" "hook_succeeds ip ''afterEach''"
  shows "run_cases ip ts rs i =
    (Inr (rs @ case_results ip ts i), invoke_all ip (concat (map (case_calls ip) ts)) i)"
proof (induction ts arbitrary: rs i)
  case (Cons t ts)
  have "run_before_each ip i = (None, invoke_all ip (hook_calls ip ''beforeEach'') i)"
      "run_after_each ip j = (None, invoke_all ip (hook_calls ip ''afterEach'') j)" for i j
    using run_hook_succeeds assms by (simp_all add: run_before_each_def run_after_each_def)
  then show ?case
    by (simp add: Let_def invoke_test_function_eq Cons.IH case_calls_def)
qed simp

definition hooks_succeed :: "'i script_interpreter \<Rightarrow> bool" where
  "hooks_succeed ip \<longleftrightarrow> list_all (hook_succeeds ip) [''setup'', ''beforeEach'', ''afterEach'', ''tearDown'']"

lemma run_all_results:
  assumes "hooks_succeed ip"
  shows "run_all ip ts i =
    ((Some (case_results ip ts (invoke_all ip (hook_calls ip ''setup'') i)), None), invoke_all ip (schedule ip ts) i)"
proof -
  have hooks: "hook_succeeds ip ''setup''" "hook_succeeds ip ''beforeEach''" "hook_succeeds ip ''afterEach''"
      "hook_succeeds ip ''tearDown''"
    using assms by (simp_all add: hooks_succeed_def)
  show ?thesis
    by (simp add: run_all_def run_setup_def run_tear_down_def run_cases_results hooks run_hook_succeeds schedule_def)
qed


text \<open>A script of two tests, of which the first panics; its state is the list of the functions called.\<close>

definition demo_script :: "string list script_interpreter" where
  "demo_script =
     \<lparr>ip_global = (\<lambda>n. n \<in> {''beforeEach'', ''tearDown'', ''testA'', ''testB''}),
      ip_invoke = (\<lambda>n calls. (if n = ''testA'' then InvokePanicked (message_error ''boom'') else InvokeReturned None, calls @ [n])),
      ip_start = []\<rparr>"

lemma demo_hooks: "hooks_succeed demo_script"
  by (simp add: hooks_succeed_def hook_succeeds_def demo_script_def invocation_error_def)


text \<open>
  A single test that panics has no result: the error is that of the whole run, and neither the
  function after each test nor the tear-down is called. The same test among others gets its result, and
  they are called.
\<close>

theorem single_panic_skips_tear_down:
  assumes "hooks_succeed ip"
    and "ip_invoke ip t (invoke_all ip (hook_calls ip ''setup'' @ hook_calls ip ''beforeEach'') i) = (InvokePanicked e, j)"
  shows "run_one ip t i = ((None, Some e), j) \<and>
    run_all ip [t] i = ((Some [(t, Some e)], None), invoke_all ip (hook_calls ip ''afterEach'' @ hook_calls ip ''tearDown'') j)"
proof -
  have hooks: "hook_succeeds ip ''setup''" "hook_succeeds ip ''beforeEach''"
    using assms(1) by (simp_all add: hooks_succeed_def)
  have "run_one ip t i = ((None, Some e), j)"
    using assms(2) by (simp add: run_one_def run_setup_def run_before_each_def run_hook_succeeds hooks)
  moreover have "run_all ip [t] i =
      ((Some [(t, Some e)], None), invoke_all ip (hook_calls ip ''afterEach'' @ hook_calls ip ''tearDown'') j)"
    using assms(2) by (simp add: run_all_results [OF assms(1)] schedule_def case_calls_def invocation_error_def)
  ultimately show ?thesis ..
qed

theorem single_panic_skips_tear_down_witness:
  "run_one demo_script ''testA'' [] = ((None, Some (message_error ''boom'')), [''beforeEach'', ''testA'']) \<and>
   run_all demo_script [''testA''] [] =
     ((Some [(''testA'', Some (message_error ''boom''))], None), [''beforeEach'', ''testA'', ''tearDown''])"
proof -
  have "ip_invoke demo_script ''testA''
      (invoke_all demo_script (hook_calls demo_script ''setup'' @ hook_calls demo_script ''beforeEach'') []) =
        (InvokePanicked (message_error ''boom''), [''beforeEach'', ''testA''])"
    by (simp add: hook_calls_def demo_script_def)
  from single_panic_skips_tear_down [OF demo_hooks this] show ?thesis
    by (simp add: hook_calls_def demo_script_def)
qed

section \<open>Which tests are run\<close>

lemma mset_swap_at: "i < length xs \<Longrightarrow> j < length xs \<Longrightarrow> mset (swap_at i j xs) = mset xs"
  unfolding swap_at_def by (rule mset_swap)

lemma mset_shuffle_loop:
  "i < length xs \<or> i = 0 \<Longrightarrow> (\<And>k. draw k \<le> k) \<Longrightarrow> mset (shuffle_loop draw i xs) = mset xs"
proof (induction i arbitrary: xs)
  case (Suc i)
  have "draw (Suc i) < length xs" using Suc.prems(1) Suc.prems(2) [of "Suc i"] by simp
  then have "mset (swap_at (Suc i) (draw (Suc i)) xs) = mset xs" using Suc.prems(1) by (simp add: mset_swap_at)
  moreover have "length (swap_at (Suc i) (draw (Suc i)) xs) = length xs" by (simp add: swap_at_def)
  ultimately show ?case using Suc.IH [of "swap_at (Suc i) (draw (Suc i)) xs"] Suc.prems by simp
qed simp

lemma mset_shuffle: "(\<And>k. draw k \<le> k) \<Longrightarrow> mset (shuffle draw xs) = mset xs"
  unfolding shuffle_def by (rule mset_shuffle_loop) auto

lemma mset_test_cases:
  "(\<And>k. draw seed k \<le> k) \<Longrightarrow> mset (test_cases draw seed fs) = mset (filter is_test_name (map tf_name fs))"
  by (simp add: test_cases_def Let_def mset_shuffle)

lemma run_cases_names: "run_cases ip ts rs i = (Inr results, j) \<Longrightarrow> map fst results = map fst rs @ ts"
proof (induction ts arbitrary: rs i)
  case (Cons t ts)
  obtain err i1 where "run_before_each ip i = (err, i1)" by fastforce
  moreover obtain te i2 where "invoke_test_function ip t i1 = (te, i2)" by fastforce
  moreover obtain err' i3 where "run_after_each ip i2 = (err', i3)" by fastforce
  ultimately show ?case using Cons by (auto split: option.splits)
qed simp

lemma run_all_names: "run_all ip ts i = ((Some results, err), j) \<Longrightarrow> map fst results = ts"
  by (auto simp: run_all_def Let_def case_prod_unfold split: option.splits sum.splits dest!: run_cases_names [OF prod_eqI])
     (metis append_Nil list.map(1) prod.collapse run_cases_names)

text \<open>
  Running the tests of a script and listing them start from the same state and agree: with results there is exactly one for every
  listed test, in the listed order without a seed and in an order that the seed decides with one;
  and both leave the runner in the same state.
\<close>

theorem results_are_listed_tests:
  assumes "\<And>k. draw (tr_seed r1) k \<le> k"
    and run: "run_tests em net rl draw fuel script r = (Some (Some results, err), r1)"
  shows "\<exists>names. get_tests em net rl fuel script r = (Returned names, r1) \<and>
    mset (map fst results) = mset names \<and> (tr_seed r1 \<le> 0 \<longrightarrow> map fst results = names)"
proof -
  from run obtain fs ip where load: "load_script em net rl fuel script r = (Returned (fs, ip), r1)"
      and all: "fst (run_all ip (test_cases draw (tr_seed r1) fs) (ip_start ip)) = (Some results, err)"
    by (auto simp: run_tests_def split: prod.splits test_call.splits)
  have names: "map fst results = test_cases draw (tr_seed r1) fs"
    using run_all_names [of ip "test_cases draw (tr_seed r1) fs" "ip_start ip" results err] all by (metis prod.collapse)
  have "get_tests em net rl fuel script r = (Returned (filter is_test_name (map tf_name fs)), r1)"
    using load by (simp add: get_tests_def)
  moreover have "mset (map fst results) = mset (filter is_test_name (map tf_name fs))"
    using mset_test_cases [of draw "tr_seed r1" fs] assms(1) by (simp add: names)
  moreover have "map fst results = filter is_test_name (map tf_name fs)" if "tr_seed r1 \<le> 0"
    using that unfolding names by (simp add: test_cases_def)
  ultimately show ?thesis by auto
qed

section \<open>The runner between scripts\<close>

lemma apply_pragma_network:
  "apply_pragma pragmas r = Inr (network, r1) \<Longrightarrow>
     (\<exists>height. extract_fork_pragma pragmas = Inr (network, height)) \<and>
     tr_backend r1 = tr_backend r \<and> tr_resolver r1 = tr_resolver r \<and> tr_file_resolver r1 = tr_file_resolver r \<and>
     tr_coverage r1 = tr_coverage r \<and> (if network = '''' then r1 = r else tr_label r1 = network)"
  by (auto simp: apply_pragma_def split: sum.splits if_splits option.splits)

lemma set_exclude_locations: "set (exclude_locations ls excluded) = set excluded \<union> set ls"
  by (induction ls arbitrary: excluded) (auto simp: exclude_locations_def)

text \<open>The backend belongs to the runner: label, resolvers and coverage are those of the runner.\<close>

definition runner_ready :: "('b, 'k) test_runner \<Rightarrow> bool" where
  "runner_ready r \<longleftrightarrow>
     (\<exists>bk. tr_backend r = Some bk \<and> bk_label bk = tr_label r \<and> bk_file_resolver bk = tr_file_resolver r \<and>
        bk_resolver bk = Some (resolver_with_builtins (bk_chain bk) (tr_resolver r)) \<and>
        (\<forall>ls. tr_coverage r = Some ls \<longrightarrow> set (excluded_locations (bk_chain bk)) \<subseteq> set ls))"

text \<open>
  Once a script's environment is initialized the backend has the runner's network label, resolvers
  and files, the label is that of the script's pragma if there is one, and the coverage report leaves
  out the contracts of the backend's chain.
\<close>

theorem initialized_runner_ready:
  assumes "initialize_environment em net pragmas r = (Returned (), r')"
  shows "runner_ready r' \<and> (\<exists>network height. extract_fork_pragma pragmas = Inr (network, height) \<and>
    tr_label r' = (if network = '''' then tr_label r else network))"
proof -
  from assms obtain network r1 where pragma: "apply_pragma pragmas r = Inr (network, r1)"
    by (auto simp: initialize_environment_def split: sum.splits)
  define r2 where "r2 = drop_backend network r1"
  have r2: "tr_label r2 = tr_label r1" "tr_file_resolver r2 = tr_file_resolver r1" "tr_resolver r2 = tr_resolver r1"
    by (simp_all add: r2_def drop_backend_def split: option.split)
  from assms pragma obtain bk where
      "r' = r2\<lparr>tr_backend := Some (refresh_backend r2 bk),
              tr_coverage := map_option (exclude_locations (excluded_locations (bk_chain bk) @ test_locations)) (tr_coverage r2)\<rparr>"
    by (auto simp: initialize_environment_def Let_def r2_def [symmetric] split: option.splits)
  then have "runner_ready r' \<and> tr_label r' = tr_label r1"
    by (auto simp: runner_ready_def refresh_backend_def set_exclude_locations r2)
  then show ?thesis using apply_pragma_network [OF pragma] by auto
qed

text \<open>
  A pragma for the network that the backend is labelled with keeps the backend: whatever height it
  names, and even if the backend is no fork at all, the script runs on the chain as it is, while
  the runner's configuration says otherwise.
\<close>

theorem same_label_keeps_backend:
  assumes "extract_fork_pragma pragmas = Inr (bk_label bk, height)" "bk_label bk \<noteq> ''''"
    and "tr_backend r = Some bk" "tr_network_resolver r = Some resolve" "resolve (bk_label bk) = Some host"
  shows "\<exists>r' bk'. initialize_environment em net pragmas r = (Returned (), r') \<and> tr_backend r' = Some bk' \<and>
    bk_blockchain bk' = bk_blockchain bk \<and> bk_fork bk' = bk_fork bk \<and> bk_chain bk' = bk_chain bk \<and>
    tr_fork r' = Some \<lparr>fc_host = host, fc_height = (case height of None \<Rightarrow> 0 | Some h \<Rightarrow> h), fc_chain_id = ''''\<rparr>"
  using assms
  by (simp add: initialize_environment_def apply_pragma_def drop_backend_def Let_def refresh_backend_def)

definition demo_pragma :: "string \<Rightarrow> u64 option \<Rightarrow> pragma_invocation option list" where
  "demo_pragma network height =
     [Some \<lparr>pv_callee = Some ''test_fork'',
            pv_arguments = [(''network'', StringLiteral network), (''height'', height_argument height)]\<rparr>]"

lemma demo_pragma_extracted: "network \<noteq> '''' \<Longrightarrow> extract_fork_pragma (demo_pragma network height) = Inr (network, height)"
  by (simp add: extract_fork_pragma_iff demo_pragma_def is_fork_pragma_def fork_pragma_name_def)

theorem same_label_keeps_backend_witness:
  "\<exists>r' bk'. initialize_environment demo_emulator demo_network (demo_pragma ''mainnet'' (Some 7))
      (new_test_runner\<lparr>tr_backend := Some (demo_backend\<lparr>bk_label := ''mainnet''\<rparr>),
         tr_network_resolver := Some (\<lambda>n. Some ''host:9000'')\<rparr>) = (Returned (), r') \<and>
    tr_backend r' = Some bk' \<and> \<not> bk_fork bk' \<and>
    tr_fork r' = Some \<lparr>fc_host = ''host:9000'', fc_height = 7, fc_chain_id = ''''\<rparr>"
proof -
  let ?bk = "demo_backend\<lparr>bk_label := ''mainnet''\<rparr>"
  have pragma: "extract_fork_pragma (demo_pragma ''mainnet'' (Some 7)) = Inr (bk_label ?bk, Some 7)"
    by (simp add: demo_pragma_extracted)
  have fork: "bk_fork ?bk = False" by (simp add: demo_backend_def initial_backend_def fork_enabled_def)
  let ?r = "new_test_runner\<lparr>tr_backend := Some ?bk, tr_network_resolver := Some (\<lambda>n. Some ''host:9000'')\<rparr>"
  have facts: "bk_label ?bk \<noteq> ''''" "tr_backend ?r = Some ?bk" "tr_network_resolver ?r = Some (\<lambda>n. Some ''host:9000'')"
      "(\<lambda>n. Some ''host:9000'') (bk_label ?bk) = Some ''host:9000''"
    by simp_all
  from same_label_keeps_backend [OF pragma facts] fork show ?thesis by fastforce
qed

theorem initialized_runner_ready_witness:
  "\<exists>r'. initialize_environment demo_emulator demo_network [] (with_network_label ''emulator'' (new_test_runner\<lparr>tr_backend := Some demo_backend\<rparr>)) =
      (Returned (), r') \<and> runner_ready r' \<and> tr_label r' = ''emulator''"
proof -
  let ?r = "with_network_label ''emulator'' (new_test_runner\<lparr>tr_backend := Some demo_backend\<rparr>)"
  obtain r' where r': "initialize_environment demo_emulator demo_network [] ?r = (Returned (), r')"
    by (simp add: initialize_environment_def apply_pragma_def extract_fork_pragma_def drop_backend_def
        with_network_label_def Let_def)
  from initialized_runner_ready [OF this] r' show ?thesis
    by (auto simp: extract_fork_pragma_def with_network_label_def)
qed

section \<open>Imports that return and imports that do not\<close>

text \<open>All requests of a computation satisfy a predicate, whatever the answers.\<close>

primrec requests_all :: "(location \<Rightarrow> bool) \<Rightarrow> ('e, 'a) import_run \<Rightarrow> bool" where
  "requests_all P (ImportDone a) = True"
| "requests_all P (ImportRequest l k) = (P l \<and> (\<forall>x. requests_all P (k x)))"

lemma run_imports_finishes:
  "requests_all P run \<Longrightarrow> (\<And>l. P l \<Longrightarrow> h l \<noteq> Unfinished) \<Longrightarrow> run_imports h run \<noteq> Unfinished"
proof (induction run)
  case (ImportRequest l k)
  from ImportRequest.prems have "h l \<noteq> Unfinished" by simp
  then show ?case using ImportRequest by (cases "h l") auto
qed simp

lemma flatten_call_Unfinished [simp]: "flatten_call c = Unfinished \<longleftrightarrow> c = Unfinished"
  by (cases c) (auto simp: flatten_call_def split: sum.split)

text \<open>
  Importing returns when the contracts at addresses do not import each other in circles: fuel for
  the depth of a location, by any measure that decreases along imports, is enough.
\<close>

theorem imports_return:
  assumes depth: "\<And>l code code1. import_code em r bk l = Inr code \<Longrightarrow> runner_imports rl bk code = Returned code1 \<Longrightarrow>
      requests_all (\<lambda>i. (case i of AddressLocation a n \<Rightarrow> depth i < depth l | _ \<Rightarrow> True)) (rl_check rl code1 l)"
    and fuel: "depth l < fuel"
  shows "parse_and_check_import em rl r bk fuel l \<noteq> Unfinished"
  using fuel
proof (induction fuel arbitrary: l)
  case (Suc fuel)
  show ?case
  proof (cases "import_code em r bk l")
    case code: (Inr code)
    show ?thesis
    proof (cases "runner_imports rl bk code")
      case (Returned code1)
      let ?h = "\<lambda>i. if i = IdentifierLocation ''Test'' then Returned (rl_test_contract rl)
          else case i of AddressLocation a n \<Rightarrow> parse_and_check_import em rl r bk fuel i
               | _ \<Rightarrow> Failed (message_error ''unable to import location'')"
      have "run_imports ?h (rl_check rl code1 l) \<noteq> Unfinished"
      proof (rule run_imports_finishes [OF depth [OF code Returned]])
        fix i
        assume i: "case i of AddressLocation a n \<Rightarrow> depth i < depth l | _ \<Rightarrow> True"
        show "?h i \<noteq> Unfinished"
        proof (cases i)
          case (AddressLocation a n)
          with i Suc.prems have "depth i < fuel" by simp
          from Suc.IH [OF this] AddressLocation show ?thesis by simp
        qed auto
      qed
      with code Returned show ?thesis by simp
    qed (use code in \<open>auto simp: runner_imports_def split: option.splits\<close>)
  qed simp
qed simp

text \<open>
  Contracts at addresses that import each other in a circle make importing one of them run for ever:
  nothing remembers which imports are under way.
\<close>

theorem import_circle_never_returns:
  assumes circle: "\<And>l. l \<in> L \<Longrightarrow> \<exists>code code1 a n k. import_code em r bk l = Inr code \<and>
      runner_imports rl bk code = Returned code1 \<and> rl_check rl code1 l = ImportRequest (AddressLocation a n) k \<and>
      AddressLocation a n \<in> L"
    and "l \<in> L"
  shows "parse_and_check_import em rl r bk fuel l = Unfinished"
  using assms(2)
proof (induction fuel arbitrary: l)
  case (Suc fuel)
  from circle [OF Suc.prems] obtain code code1 a n k where "import_code em r bk l = Inr code"
      "runner_imports rl bk code = Returned code1" "rl_check rl code1 l = ImportRequest (AddressLocation a n) k"
      "AddressLocation a n \<in> L"
    by blast
  with Suc.IH [of "AddressLocation a n"] show ?case by (simp add: flatten_call_def)
qed simp

text \<open>
  A contract that the resolver does not know and that is not on the chain is imported as the empty
  program, not reported.
\<close>

lemma unknown_contract_is_empty_program:
  assumes "tr_import_resolver r = Some resolve" "resolve (import_network bk) (AddressLocation a n) = Inl e"
    and "em_contract_code em a n (bk_blockchain bk) = Inr ''''"
  shows "import_code em r bk (AddressLocation a n) = Inr ''''"
  using assms by (simp add: import_code_def)

section \<open>A small library\<close>

text \<open>A script of the two tests; contract A imports contract B, and contract C itself.\<close>

definition demo_check :: "string \<Rightarrow> location \<Rightarrow> (nat, (test_error, nat) result) import_run" where
  "demo_check code l =
     (case l of
        AddressLocation a n \<Rightarrow>
          (if n = ''A'' then ImportRequest (AddressLocation a ''B'') ImportDone
           else if n = ''C'' then ImportRequest l ImportDone
           else ImportDone (Inr 0))
      | _ \<Rightarrow> ImportDone (Inr 0))"

definition demo_functions :: "test_function list" where
  "demo_functions =
     map (\<lambda>n. \<lparr>tf_name = n, tf_parameters = False, tf_result = False\<rparr>) [''testA'', ''help'', ''testB'']"

definition demo_library :: "(nat, string list) runner_library" where
  "demo_library =
     \<lparr>rl_parse = (\<lambda>s. Inr \<lparr>sp_pragmas = [], sp_functions = demo_functions\<rparr>),
      rl_imports = (\<lambda>c. Inr []), rl_check = demo_check, rl_interpret = (\<lambda>e. ImportDone (Inr demo_script)),
      rl_test_contract = 0, rl_helpers = 0\<rparr>"

definition demo_runner :: "(demo_block, nat) test_runner" where
  "demo_runner = new_test_runner\<lparr>tr_backend := Some demo_backend, tr_import_resolver := Some (\<lambda>network l. Inr ''code'')\<rparr>"

lemma demo_import_code: "import_code em demo_runner bk l = Inr ''code''"
  by (simp add: import_code_def demo_runner_def)

lemma demo_runner_imports: "runner_imports demo_library bk code = Returned code"
  by (simp add: runner_imports_def demo_library_def replace_imports_def go_slice_def)

definition demo_depth :: "location \<Rightarrow> nat" where
  "demo_depth l = (case l of AddressLocation a n \<Rightarrow> if n = ''A'' then 1 else if n = ''C'' then 2 else 0 | _ \<Rightarrow> 0)"

text \<open>The same library without the contract that imports itself.\<close>

definition demo_acyclic :: "(nat, string list) runner_library" where
  "demo_acyclic = demo_library\<lparr>rl_check := \<lambda>code l. demo_check code (case l of AddressLocation a n \<Rightarrow>
     if n = ''C'' then AddressLocation a ''B'' else l | _ \<Rightarrow> l)\<rparr>"

theorem imports_return_witness:
  "parse_and_check_import demo_emulator demo_acyclic demo_runner demo_backend 2 (AddressLocation ''01'' ''A'') \<noteq> Unfinished"
  by (rule imports_return [where depth = demo_depth])
     (auto simp: demo_depth_def demo_acyclic_def demo_check_def split: location.split)

theorem import_circle_never_returns_witness:
  "parse_and_check_import demo_emulator demo_library demo_runner demo_backend 1000 (AddressLocation ''01'' ''C'') = Unfinished"
proof (rule import_circle_never_returns [where L = "{AddressLocation ''01'' ''C''}"])
  fix l
  assume "l \<in> {AddressLocation ''01'' ''C''}"
  then have l: "l = AddressLocation ''01'' ''C''" by simp
  then have "rl_check demo_library ''code'' l = ImportRequest (AddressLocation ''01'' ''C'') ImportDone"
    by (simp add: demo_library_def demo_check_def)
  with l show "\<exists>code code1 a n k. import_code demo_emulator demo_runner demo_backend l = Inr code \<and>
      runner_imports demo_library demo_backend code = Returned code1 \<and>
      rl_check demo_library code1 l = ImportRequest (AddressLocation a n) k \<and>
      AddressLocation a n \<in> {AddressLocation ''01'' ''C''}"
    by (auto simp: demo_import_code demo_runner_imports)
qed simp

lemma demo_load:
  "\<exists>r1. load_script demo_emulator demo_network demo_library 1 [] demo_runner =
     (Returned (demo_functions, demo_script), r1) \<and> tr_seed r1 = 0"
proof -
  have "extract_fork_pragma [] = Inr ('''', None)" by (simp add: extract_fork_pragma_def)
  then obtain r1 bk where init: "initialize_environment demo_emulator demo_network [] demo_runner = (Returned (), r1)"
      "tr_backend r1 = Some bk" "tr_seed r1 = 0"
    by (simp add: initialize_environment_def apply_pragma_def drop_backend_def Let_def demo_runner_def new_test_runner_def)
  have parse: "rl_parse demo_library [] = Inr \<lparr>sp_pragmas = [], sp_functions = demo_functions\<rparr>"
    by (simp add: demo_library_def)
  have signatures: "check_signatures demo_functions = None" by (simp add: demo_functions_def)
  have check: "rl_check demo_library [] script_location = ImportDone (Inr 0)"
      "rl_interpret demo_library 0 = ImportDone (Inr demo_script)"
    by (simp_all add: demo_library_def demo_check_def script_location_def)
  show ?thesis
    by (simp add: load_script_def parse init signatures demo_runner_imports check flatten_call_def)
qed

theorem results_are_listed_tests_witness:
  "\<exists>results r1. run_tests demo_emulator demo_network demo_library (\<lambda>s k. 0) 1 [] demo_runner = (Some (Some results, None), r1) \<and>
     map fst results = [''testA'', ''testB'']"
proof -
  obtain r1 where load: "load_script demo_emulator demo_network demo_library 1 [] demo_runner = (Returned (demo_functions, demo_script), r1)"
      "tr_seed r1 = 0"
    using demo_load by blast
  have names: "filter is_test_name (map tf_name demo_functions) = [''testA'', ''testB'']"
    by (simp add: demo_functions_def is_test_name_def test_function_prefix_def has_prefix_def)
  obtain results where run: "run_tests demo_emulator demo_network demo_library (\<lambda>s k. 0) 1 [] demo_runner =
      (Some (Some results, None), r1)"
    using load by (simp add: run_tests_def run_all_results [OF demo_hooks])
  have "get_tests demo_emulator demo_network demo_library 1 [] demo_runner = (Returned [''testA'', ''testB''], r1)"
    using load(1) names by (simp add: get_tests_def)
  moreover have "(\<lambda>s k. 0 :: nat) (tr_seed r1) k \<le> k" for k by simp
  ultimately show ?thesis
    using results_are_listed_tests [OF _ run] load(2) run by force
qed

end
