(* ===== verification/V1Server.thy ===== *)
theory V1Server
  imports Handlers EntryPoints LintSyntax
begin

text \<open>
  The first language server (src/languageserver/server): its data and configuration. Locations and
  paths (location.go), the state of the server with its tables keyed by document, the checker cache
  keyed by project and location, the options that extend the server, and initialization
  (server.go). What the server reads of a checked program, beyond what the second server reads, is
  an extension of the record \<open>checker\<close>. A code action resolver is a closure in the code; here it is
  a value of a datatype that holds what the closure captures, so that the server can store it.
  \<open>'w\<close> is the state of the world outside the server (files, network), an argument of the hooks.
\<close>

section \<open>Locations (location.go)\<close>

definition uri_file_prefix :: string where "uri_file_prefix = ''file://''"

definition location_to_path :: "location \<Rightarrow> string" where
  "location_to_path l =
     (case l of StringLocation s \<Rightarrow> if str_contains s ''.cdc'' then s else '''' | _ \<Rightarrow> '''')"

definition is_path_location :: "location \<Rightarrow> bool" where
  "is_path_location l \<longleftrightarrow> location_to_path l \<noteq> ''''"

definition normalize_path :: "string \<Rightarrow> string \<Rightarrow> string" where
  "normalize_path base relative =
     (if is_abs relative then relative else go_join [go_dir base, relative])"

definition normalize_path_location :: "location \<Rightarrow> location \<Rightarrow> location" where
  "normalize_path_location base relative =
     (let base_path = location_to_path base; relative_path = location_to_path relative
      in if base_path = '''' \<or> relative_path = '''' then relative
         else StringLocation (normalize_path base_path relative_path))"

definition uri_to_location :: "uri \<Rightarrow> location" where
  "uri_to_location u =
     StringLocation (if has_prefix u uri_file_prefix then drop (length uri_file_prefix) u else u)"

section \<open>Programs as the server reads them\<close>

text \<open>
  Syntax trees with identities of the elements: the code compares pointers to expressions. Of a
  function the end of its parameter list (if it has one), its return type annotation (if it has
  one) and its end are read; of an invocation the invoked expression, the labels of the arguments
  (empty when there is none) and the types that the checker found.
\<close>

datatype ast_type = NominalType string | OtherType

record return_annotation =
  ra_type :: ast_type
  ra_extent :: extent

record v1_function =
  fn_parameters_end :: "ast_pos option"
  fn_return :: "return_annotation option"
  fn_end :: ast_pos

record v1_type =
  vt_invalid :: bool
  vt_void :: bool
  vt_qualified :: string

datatype v1_kind =
    KReturn "nat option"
  | KFunction v1_function
  | KFunctionExpression v1_function
  | KSpecialFunction ast_pos
  | KAssignment nat
  | KInvocation nat "string list" "v1_type list" "v1_type option"
  | KElement

datatype v1_node = VNode (vn_id: nat) (vn_kind: v1_kind) (vn_children: "v1_node list")

text \<open>The members of a declaration, by kind in their order, with their extents.\<close>

record member_layout =
  ml_declarations :: "extent list"
  ml_functions :: "extent list"
  ml_fields :: "extent list"
  ml_end :: ast_pos

text \<open>
  The declaration of a type as the elaboration gives it: none, a declaration, or a nil pointer in a
  non-nil interface value.
\<close>

datatype type_declaration = NoDeclaration | NilPointer | Declared member_layout

record v1_parameter =
  vp_label :: string
  vp_type_id :: "string option"

record v1_checker = checker +
  vc_tree :: v1_node
  vc_entry_parameters :: "v1_parameter list"
  vc_composites :: "(bool \<times> v1_parameter list) list"
  vc_type_declaration :: "nat \<Rightarrow> type_declaration"
  vc_member_expected :: "nat \<Rightarrow> string option"

section \<open>Errors\<close>

text \<open>A return type is missing, the void type or another one.\<close>

datatype return_type = NoReturnType | VoidReturn | ReturnType string

record function_signature =
  fs_view :: bool
  fs_parameters :: "string list"
  fs_return :: return_type

record missing_member =
  mm_access :: string
  mm_kind :: decl_kind
  mm_name :: string
  mm_variable_keyword :: string
  mm_annotation :: string
  mm_function :: "function_signature option"

datatype member_owner = CompositeOwner nat | InterfaceOwner nat | OtherOwner

datatype v1_error_kind =
    TypeMismatch "nat option" string
  | Conformance "missing_member list" extent
  | NotDeclared bool "nat option" ast_pos string
  | NotDeclaredMember member_owner "nat option" ast_pos string
  | UnreachableStatement
  | OtherKind

text \<open>What an error may offer besides its message is optional; a note may have a position.\<close>

record v1_error =
  ve_kind :: v1_error_kind
  ve_message :: string
  ve_extent :: extent
  ve_secondary :: "string option"
  ve_fixes :: "(string \<Rightarrow> suggested_fix list) option"
  ve_link :: "string option"
  ve_migration :: "string option"
  ve_notes :: "(extent option \<times> string) list"

text \<open>A child that is not positioned cannot be converted; it has a Go type, which is logged, and a text.\<close>

datatype v1_child = Convertible v1_error | NotConvertible string string

datatype v1_failure = ParentFailure "v1_child list" | PlainFailure string

section \<open>Diagnostics, actions and their resolvers\<close>

datatype diagnostic_tag = TagUnnecessary | TagDeprecated

record lsp_diagnostic =
  vd_message :: string
  vd_severity :: int
  vd_range :: range
  vd_tags :: "diagnostic_tag list"
  vd_code :: "string option"
  vd_href :: "string option"
  vd_related :: "(proto_location \<times> string) list"
  vd_data :: "nat option"

record v1_action =
  va_title :: string
  va_kind :: string
  va_diagnostics :: "lsp_diagnostic list"
  va_edit :: workspace_edit
  va_preferred :: bool

datatype v1_resolver =
    ReturnTypeResolver lsp_diagnostic uri string ast_pos "return_annotation option"
  | MissingMembersResolver lsp_diagnostic uri "missing_member list" extent
  | DeclarationResolver lsp_diagnostic uri "nat option" ast_pos string "member_owner option"
  | FixesResolver lsp_diagnostic uri "suggested_fix list"
  | CombinedResolver "v1_resolver option" v1_resolver
  | LintReplacementResolver lsp_diagnostic uri string
  | LintRemovalResolver lsp_diagnostic uri

section \<open>The checker cache\<close>

record checker_key =
  key_project :: string
  key_location :: location

type_synonym checker_cache = "(checker_key, v1_checker) gomap"

definition new_map_checker_cache :: checker_cache where "new_map_checker_cache = []"

definition checker_get :: "checker_cache \<Rightarrow> checker_key \<Rightarrow> v1_checker option" where
  "checker_get m k = map_of m k"

definition checker_put :: "checker_cache \<Rightarrow> checker_key \<Rightarrow> v1_checker \<Rightarrow> checker_cache" where
  "checker_put m k c = AList.update k c m"

definition checker_delete :: "checker_cache \<Rightarrow> checker_key \<Rightarrow> checker_cache" where
  "checker_delete m k = AList.delete k m"

definition checker_cache_wf :: "checker_cache \<Rightarrow> bool" where
  "checker_cache_wf m \<longleftrightarrow> distinct (map fst m)"

interpretation cc: keyed_store checker_get checker_cache_wf checker_put checker_delete
  by unfold_locales
     (auto simp: checker_cache_wf_def checker_get_def checker_put_def checker_delete_def
        distinct_update distinct_delete update_conv' delete_conv')

lemma checker_get_simps [simp]:
  "checker_get new_map_checker_cache k = None"
  "checker_get (checker_put m k c) k' = (if k' = k then Some c else checker_get m k')"
  "checker_get (checker_delete m k) k' = (if k' = k then None else checker_get m k')"
  by (simp_all add: checker_get_def checker_put_def checker_delete_def new_map_checker_cache_def
      update_conv' delete_conv')

text \<open>The default keys.\<close>

definition key_for_root :: "string \<Rightarrow> uri \<Rightarrow> checker_key" where
  "key_for_root project u = \<lparr>key_project = project, key_location = uri_to_location u\<rparr>"

definition key_for_import :: "checker_key \<Rightarrow> location \<Rightarrow> checker_key" where
  "key_for_import parent l = \<lparr>key_project = key_project parent, key_location = l\<rparr>"

definition default_project_id :: "uri \<Rightarrow> string" where "default_project_id u = ''''"

section \<open>The server\<close>

datatype access_mode = AccessStrict | AccessNotSpecifiedRestricted | AccessNotSpecifiedUnrestricted | AccessNone

datatype v1_event =
    Published uri "lsp_diagnostic list"
  | CheckCompleted uri bool
  | LogParsed uri
  | LogChecked uri
  | LogUnconvertible string
  | LogCommand string
  | LogRetry nat string
  | LogShuttingDown
  | ShowMessageInfo string
  | HookMessage string
  | RegisterCapability "string list"
  | Slept nat

datatype builtin_command = EntryPointParameters | ContractInitializerParameters | ParseEntryPointArguments

datatype 'w command_handler =
    BuiltinCommand builtin_command
  | CustomCommand "'w \<Rightarrow> json list \<Rightarrow> (string, json) result"

type_synonym 'w import_hook = "'w \<Rightarrow> string \<Rightarrow> location \<Rightarrow> (string, string) result"

record 'w v1_server =
  vs_cache :: checker_cache
  vs_documents :: doc_store
  vs_member_resolvers :: "(uri, (string, member_resolver) gomap) gomap"
  vs_ranges :: "(uri, (string, sema_range) gomap) gomap"
  vs_action_resolvers :: "(uri, (nat, v1_resolver) gomap) gomap"
  vs_commands :: "(string, 'w command_handler) gomap"
  vs_resolve_address :: "'w import_hook option"
  vs_resolve_contract_names :: "('w \<Rightarrow> string \<Rightarrow> (string, string list) result) option"
  vs_resolve_string :: "'w import_hook option"
  vs_resolve_identifier :: "'w import_hook option"
  vs_lens_providers :: "('w \<Rightarrow> uri \<Rightarrow> u32 \<Rightarrow> v1_checker \<Rightarrow> (string, code_lens list) result) list"
  vs_diagnostic_providers :: "('w \<Rightarrow> uri \<Rightarrow> u32 \<Rightarrow> v1_checker \<Rightarrow> (string, lsp_diagnostic list) result) list"
  vs_init_handlers :: "('w \<Rightarrow> json \<Rightarrow> string option) list"
  vs_access_mode :: access_mode
  vs_report_crashes :: bool
  vs_account_access :: "('w \<Rightarrow> string \<Rightarrow> v1_checker \<Rightarrow> location \<Rightarrow> bool) option"
  vs_standard_library :: "string list"
  vs_script_library :: "string list"
  vs_workspace_folders :: "(uri \<times> string) list"
  vs_on_did_open :: "('w \<Rightarrow> uri \<Rightarrow> string \<Rightarrow> string list) option"
  vs_root_key :: "string \<Rightarrow> uri \<Rightarrow> checker_key"
  vs_project_id :: "'w \<Rightarrow> uri \<Rightarrow> string"
  vs_next_uuid :: nat
  vs_out :: "v1_event list"

definition emit :: "v1_event list \<Rightarrow> 'w v1_server \<Rightarrow> 'w v1_server" where
  "emit es s = s\<lparr>vs_out := vs_out s @ es\<rparr>"

section \<open>Options\<close>

text \<open>An option changes the server and may fail; what it changed before stays.\<close>

type_synonym 'w v1_option = "'w v1_server \<Rightarrow> string option \<times> 'w v1_server"

definition with_did_open_hook :: "('w \<Rightarrow> uri \<Rightarrow> string \<Rightarrow> string list) option \<Rightarrow> 'w v1_option" where
  "with_did_open_hook h s = (None, s\<lparr>vs_on_did_open := h\<rparr>)"

text \<open>A nil provider or resolver is ignored by these three options.\<close>

definition with_project_identity_provider :: "('w \<Rightarrow> uri \<Rightarrow> string) option \<Rightarrow> 'w v1_option" where
  "with_project_identity_provider p s =
     (case p of None \<Rightarrow> (None, s) | Some f \<Rightarrow> (None, s\<lparr>vs_project_id := f\<rparr>))"

definition with_checker_key_resolver :: "(string \<Rightarrow> uri \<Rightarrow> checker_key) option \<Rightarrow> 'w v1_option" where
  "with_checker_key_resolver r s =
     (case r of None \<Rightarrow> (None, s) | Some f \<Rightarrow> (None, s\<lparr>vs_root_key := f\<rparr>))"

definition with_checker_cache :: "checker_cache option \<Rightarrow> 'w v1_option" where
  "with_checker_cache c s = (case c of None \<Rightarrow> (None, s) | Some m \<Rightarrow> (None, s\<lparr>vs_cache := m\<rparr>))"

definition with_command :: "string \<Rightarrow> 'w command_handler \<Rightarrow> 'w v1_option" where
  "with_command name h s =
     (if map_of (vs_commands s) name \<noteq> None
      then (Some (''cannot register command with existing name: '' @ name), s)
      else (None, s\<lparr>vs_commands := AList.update name h (vs_commands s)\<rparr>))"

definition with_address_import_resolver :: "'w import_hook option \<Rightarrow> 'w v1_option" where
  "with_address_import_resolver r s = (None, s\<lparr>vs_resolve_address := r\<rparr>)"

definition with_address_contract_names_resolver ::
    "('w \<Rightarrow> string \<Rightarrow> (string, string list) result) option \<Rightarrow> 'w v1_option" where
  "with_address_contract_names_resolver r s = (None, s\<lparr>vs_resolve_contract_names := r\<rparr>)"

definition with_string_import_resolver :: "'w import_hook option \<Rightarrow> 'w v1_option" where
  "with_string_import_resolver r s = (None, s\<lparr>vs_resolve_string := r\<rparr>)"

definition with_identifier_import_resolver :: "'w import_hook option \<Rightarrow> 'w v1_option" where
  "with_identifier_import_resolver r s = (None, s\<lparr>vs_resolve_identifier := r\<rparr>)"

definition with_code_lens_provider ::
    "('w \<Rightarrow> uri \<Rightarrow> u32 \<Rightarrow> v1_checker \<Rightarrow> (string, code_lens list) result) \<Rightarrow> 'w v1_option" where
  "with_code_lens_provider p s = (None, s\<lparr>vs_lens_providers := vs_lens_providers s @ [p]\<rparr>)"

definition with_diagnostic_provider ::
    "('w \<Rightarrow> uri \<Rightarrow> u32 \<Rightarrow> v1_checker \<Rightarrow> (string, lsp_diagnostic list) result) \<Rightarrow> 'w v1_option" where
  "with_diagnostic_provider p s = (None, s\<lparr>vs_diagnostic_providers := vs_diagnostic_providers s @ [p]\<rparr>)"

definition with_initialization_options_handler :: "('w \<Rightarrow> json \<Rightarrow> string option) \<Rightarrow> 'w v1_option" where
  "with_initialization_options_handler h s = (None, s\<lparr>vs_init_handlers := vs_init_handlers s @ [h]\<rparr>)"

definition with_member_account_access_handler ::
    "('w \<Rightarrow> string \<Rightarrow> v1_checker \<Rightarrow> location \<Rightarrow> bool) option \<Rightarrow> 'w v1_option" where
  "with_member_account_access_handler h s = (None, s\<lparr>vs_account_access := h\<rparr>)"

text \<open>Values are declared by name in both standard libraries.\<close>

definition with_extended_standard_library_values :: "string list \<Rightarrow> 'w v1_option" where
  "with_extended_standard_library_values vals s =
     (None, s\<lparr>vs_standard_library := fold ks_insert vals (vs_standard_library s),
              vs_script_library := fold ks_insert vals (vs_script_library s)\<rparr>)"

fun set_options :: "'w v1_option list \<Rightarrow> 'w v1_server \<Rightarrow> string option \<times> 'w v1_server" where
  "set_options [] s = (None, s)"
| "set_options (f # fs) s =
     (case f s of (Some e, s1) \<Rightarrow> (Some e, s1) | (None, s1) \<Rightarrow> set_options fs s1)"

section \<open>Construction\<close>

definition get_entry_point_parameters_command :: string where
  "get_entry_point_parameters_command = ''cadence.server.getEntryPointParameters''"
definition get_contract_initializer_parameters_command :: string where
  "get_contract_initializer_parameters_command = ''cadence.server.getContractInitializerParameters''"
definition parse_entry_point_arguments_command :: string where
  "parse_entry_point_arguments_command = ''cadence.server.parseEntryPointArguments''"

definition default_commands :: "(string \<times> 'w command_handler) list" where
  "default_commands =
     [(get_entry_point_parameters_command, BuiltinCommand EntryPointParameters),
      (get_contract_initializer_parameters_command, BuiltinCommand ContractInitializerParameters),
      (parse_entry_point_arguments_command, BuiltinCommand ParseEntryPointArguments)]"

text \<open>\<open>std\<close> and \<open>script\<close> are the names that the two standard libraries declare (stdlib.go).\<close>

definition blank_server :: "'w v1_server" where
  "blank_server =
     \<lparr>vs_cache = new_map_checker_cache, vs_documents = [], vs_member_resolvers = [], vs_ranges = [],
      vs_action_resolvers = [], vs_commands = [], vs_resolve_address = None,
      vs_resolve_contract_names = None, vs_resolve_string = None, vs_resolve_identifier = None,
      vs_lens_providers = [], vs_diagnostic_providers = [], vs_init_handlers = [],
      vs_access_mode = AccessStrict, vs_report_crashes = False, vs_account_access = None,
      vs_standard_library = [], vs_script_library = [], vs_workspace_folders = [],
      vs_on_did_open = None, vs_root_key = key_for_root, vs_project_id = (\<lambda>w. default_project_id),
      vs_next_uuid = 0, vs_out = []\<rparr>"

fun set_default_commands :: "(string \<times> 'w command_handler) list \<Rightarrow> 'w v1_server \<Rightarrow> (string, 'w v1_server) result" where
  "set_default_commands [] s = Inr s"
| "set_default_commands ((name, h) # cmds) s =
     (case set_options [with_command name h] s of
        (Some e, s1) \<Rightarrow> Inl e | (None, s1) \<Rightarrow> set_default_commands cmds s1)"

definition new_server_v1 :: "string list \<Rightarrow> string list \<Rightarrow> (string, 'w v1_server) result" where
  "new_server_v1 std script =
     (case set_default_commands default_commands blank_server of
        Inl e \<Rightarrow> Inl e
      | Inr s \<Rightarrow> Inr (s\<lparr>vs_standard_library := std, vs_script_library := script\<rparr>))"

section \<open>Checker configurations\<close>

text \<open>
  The values that a configuration declares, the access check mode, and the account access handler
  bound to the project; location and import handlers are passed to the run of the checker.
\<close>

record check_config =
  cfg_values :: "string list"
  cfg_access_mode :: access_mode
  cfg_account_access :: "(v1_checker \<Rightarrow> location \<Rightarrow> bool) option"

definition new_checker_config :: "'w v1_server \<Rightarrow> string list \<Rightarrow> 'w \<Rightarrow> string \<Rightarrow> check_config" where
  "new_checker_config s lib w project =
     \<lparr>cfg_values = lib, cfg_access_mode = vs_access_mode s,
      cfg_account_access = map_option (\<lambda>h. h w project) (vs_account_access s)\<rparr>"

definition checker_standard_config :: "'w v1_server \<Rightarrow> 'w \<Rightarrow> string \<Rightarrow> check_config" where
  "checker_standard_config s = new_checker_config s (vs_standard_library s)"

definition checker_script_config :: "'w v1_server \<Rightarrow> 'w \<Rightarrow> string \<Rightarrow> check_config" where
  "checker_script_config s = new_checker_config s (vs_script_library s)"

section \<open>The checker of a document\<close>

definition root_key :: "'w v1_server \<Rightarrow> 'w \<Rightarrow> uri \<Rightarrow> checker_key" where
  "root_key s w u = vs_root_key s (vs_project_id s w u) u"

definition v1_checker_for_document :: "'w \<Rightarrow> 'w v1_server \<Rightarrow> uri \<Rightarrow> v1_checker option" where
  "v1_checker_for_document w s u = checker_get (vs_cache s) (root_key s w u)"

section \<open>Configuration by the client\<close>

definition access_check_mode_from_name :: "string \<Rightarrow> access_mode" where
  "access_check_mode_from_name name =
     (if name = ''strict'' then AccessStrict
      else if name = ''notSpecifiedRestricted'' then AccessNotSpecifiedRestricted
      else if name = ''notSpecifiedUnrestricted'' then AccessNotSpecifiedUnrestricted
      else if name = ''none'' then AccessNone
      else AccessStrict)"

definition v1_configure :: "json \<Rightarrow> 'w v1_server \<Rightarrow> 'w v1_server" where
  "v1_configure opts s =
     (case opts of
        JObj m \<Rightarrow>
          (let s1 = (case map_of m ''accessCheckMode'' of
                       Some (JStr name) \<Rightarrow> s\<lparr>vs_access_mode := access_check_mode_from_name name\<rparr>
                     | _ \<Rightarrow> s\<lparr>vs_access_mode := AccessStrict\<rparr>)
           in case map_of m ''reportCrashes'' of
                Some (JBool b) \<Rightarrow> s1\<lparr>vs_report_crashes := b\<rparr>
              | _ \<Rightarrow> s1\<lparr>vs_report_crashes := True\<rparr>)
      | _ \<Rightarrow> s)"

definition v1_did_change_configuration :: "json \<Rightarrow> 'w v1_server \<Rightarrow> string option \<times> 'w v1_server" where
  "v1_did_change_configuration settings s =
     (case settings of
        JObj m \<Rightarrow>
          (case map_of m ''cadence'' of
             Some (JObj c) \<Rightarrow>
               (case map_of c ''accessCheckMode'' of
                  Some (JStr name) \<Rightarrow> (None, s\<lparr>vs_access_mode := access_check_mode_from_name name\<rparr>)
                | _ \<Rightarrow> (None, s))
           | _ \<Rightarrow> (None, s))
      | _ \<Rightarrow> (Some ''invalid configuration parameters'', s))"

text \<open>
  \<^verbatim>\<open>registerCommands\<close>: up to ten attempts; the answer of the client to attempt \<open>i\<close> is an error or
  none. The wait (in milliseconds) doubles after every failure.
\<close>

fun register_loop :: "(nat \<Rightarrow> string option) \<Rightarrow> string list \<Rightarrow> nat \<Rightarrow> nat \<Rightarrow> nat \<Rightarrow> v1_event list" where
  "register_loop answer commands i 0 retry_after = []"
| "register_loop answer commands i (Suc n) retry_after =
     RegisterCapability commands #
     (case answer i of
        None \<Rightarrow> []
      | Some e \<Rightarrow>
          LogRetry n e # Slept retry_after # register_loop answer commands (Suc i) n (retry_after * 2))"

definition register_commands :: "(nat \<Rightarrow> string option) \<Rightarrow> 'w v1_server \<Rightarrow> 'w v1_server" where
  "register_commands answer s =
     (if length (vs_commands s) \<le> 0 then s
      else emit (register_loop answer (map fst (vs_commands s)) 0 10 100) s)"

fun run_init_handlers :: "('w \<Rightarrow> json \<Rightarrow> string option) list \<Rightarrow> 'w \<Rightarrow> json \<Rightarrow> string option" where
  "run_init_handlers [] w opts = None"
| "run_init_handlers (h # hs) w opts =
     (case h w opts of Some e \<Rightarrow> Some e | None \<Rightarrow> run_init_handlers hs w opts)"

text \<open>What the server announces: full synchronization, completion with a resolver, signature help.\<close>

definition v1_capabilities :: capabilities where
  "v1_capabilities = \<lparr>cap_open_close = False, cap_change_sync = 1,
     cap_providers = [''hover'', ''definition'', ''codeLens'', ''documentHighlight'', ''documentSymbol'',
       ''rename'', ''codeAction'', ''inlayHint'', ''completion'', ''signatureHelp''],
     cap_signature_triggers = [[CHR 0x28]], cap_completion_triggers = [''.''],
     cap_completion_resolve = True, cap_token_types = [], cap_token_modifiers = [],
     cap_tokens_full = False\<rparr>"

text \<open>
  The goroutine that registers the commands is started at the end; it runs on its own, as
  \<open>register_commands\<close>. The workspace folders are absent, or a possibly empty list.
\<close>

definition v1_initialize ::
    "'w \<Rightarrow> (uri \<times> string) list option \<Rightarrow> uri \<Rightarrow> json \<Rightarrow> 'w v1_server \<Rightarrow>
     (string, capabilities) result \<times> 'w v1_server" where
  "v1_initialize w folders root opts s =
     (let s1 = (case folders of
                  Some fs \<Rightarrow> s\<lparr>vs_workspace_folders := fs\<rparr>
                | None \<Rightarrow> if root \<noteq> '''' then s\<lparr>vs_workspace_folders := [(root, ''root'')]\<rparr> else s);
          s2 = v1_configure opts s1
      in case run_init_handlers (vs_init_handlers s2) w opts of
           Some e \<Rightarrow> (Inl e, s2)
         | None \<Rightarrow> (Inr v1_capabilities, s2))"

definition get_document_v1 :: "'w v1_server \<Rightarrow> uri \<Rightarrow> document option" where
  "get_document_v1 s u = doc_get (vs_documents s) u"

definition v1_shutdown :: "'w v1_server \<Rightarrow> 'w v1_server" where
  "v1_shutdown s = emit [LogShuttingDown] s"

section \<open>Construction succeeds\<close>

text \<open>Options that only replace or extend one part of the server.\<close>

lemmas option_defs = with_did_open_hook_def with_project_identity_provider_def
  with_checker_key_resolver_def with_checker_cache_def with_address_import_resolver_def
  with_address_contract_names_resolver_def with_string_import_resolver_def
  with_identifier_import_resolver_def with_code_lens_provider_def with_diagnostic_provider_def
  with_initialization_options_handler_def with_member_account_access_handler_def
  with_extended_standard_library_values_def

lemma set_options_append:
  "set_options (fs @ gs) s =
     (case set_options fs s of (Some e, s1) \<Rightarrow> (Some e, s1) | (None, s1) \<Rightarrow> set_options gs s1)"
  by (induction fs arbitrary: s) (auto split: prod.splits option.splits)

text \<open>Registering a list of commands: accepted when no name repeats or is taken.\<close>

lemma update_new: "map_of al k = None \<Longrightarrow> AList.update k v al = al @ [(k, v)]"
  by (induction al) (auto split: if_splits)

lemma set_options_commands:
  assumes "distinct (map fst cmds)" and "\<forall>c \<in> set cmds. map_of (vs_commands s) (fst c) = None"
  shows "set_options (map (\<lambda>c. with_command (fst c) (snd c)) cmds) s =
         (None, s\<lparr>vs_commands := vs_commands s @ cmds\<rparr>)"
  using assms
proof (induction cmds arbitrary: s)
  case (Cons c cmds)
  let ?s = "s\<lparr>vs_commands := vs_commands s @ [c]\<rparr>"
  have "with_command (fst c) (snd c) s = (None, ?s)"
    using Cons.prems(2) by (simp add: with_command_def update_new)
  moreover have "\<forall>d \<in> set cmds. map_of (vs_commands ?s) (fst d) = None"
  proof
    fix d assume d: "d \<in> set cmds"
    then have "fst d \<noteq> fst c" using Cons.prems(1) by (metis distinct.simps(2) imageI list.set_map list.simps(9))
    with d Cons.prems(2) show "map_of (vs_commands ?s) (fst d) = None" by (simp add: map_add_def)
  qed
  ultimately show ?case using Cons.IH [of ?s] Cons.prems(1) by simp
qed simp

lemma set_default_commands_eq:
  "set_default_commands cmds s =
     (case set_options (map (\<lambda>c. with_command (fst c) (snd c)) cmds) s of
        (Some e, s1) \<Rightarrow> Inl e | (None, s1) \<Rightarrow> Inr s1)"
  by (induction cmds arbitrary: s rule: list.induct) (auto split: prod.splits option.splits)

text \<open>The fresh server of the two given libraries.\<close>

definition fresh_server :: "string list \<Rightarrow> string list \<Rightarrow> 'w v1_server" where
  "fresh_server std script =
     blank_server\<lparr>vs_commands := default_commands, vs_standard_library := std, vs_script_library := script\<rparr>"

lemma command_names_distinct: "distinct (map fst (default_commands :: (string \<times> 'w command_handler) list))"
  unfolding default_commands_def get_entry_point_parameters_command_def
    get_contract_initializer_parameters_command_def parse_entry_point_arguments_command_def
  by simp

lemma blank_commands [simp]: "vs_commands blank_server = []"
  by (simp add: blank_server_def)

lemma set_default_commands_blank:
  "set_default_commands default_commands blank_server = Inr (blank_server\<lparr>vs_commands := default_commands\<rparr>)"
  by (simp add: set_default_commands_eq set_options_commands [OF command_names_distinct])

lemma new_server_v1_eq: "new_server_v1 std script = Inr (fresh_server std script)"
  by (simp add: new_server_v1_def fresh_server_def set_default_commands_blank)

end
