(* ===== verification/V1Actions.thy ===== *)
theory V1Actions
  imports V1Server
begin

text \<open>
  Diagnostics and code actions of the first language server (src/languageserver/server/server.go):
  how an error of the checker and a finding of the linter become diagnostics with a code action
  resolver, and what the resolvers propose when the client asks for them: a changed return type,
  missing members, a declared function, variable or field, the fixes that come with the error.
  A resolver reads the document and the checker that the server holds when it is called.
  \<open>None\<close> is a run-time panic. The kinds of variables with their keywords and names are a parameter,
  as the list is the Cadence library's.
\<close>

section \<open>Walking a tree with the path to it\<close>

text \<open>\<^verbatim>\<open>ast.Inspect\<close> with the call for nil after the children of a node that was entered.\<close>

fun inspect_nil :: "(v1_node option \<Rightarrow> 'a \<Rightarrow> 'a \<times> bool) \<Rightarrow> v1_node \<Rightarrow> 'a \<Rightarrow> 'a"
and inspect_nil_children :: "(v1_node option \<Rightarrow> 'a \<Rightarrow> 'a \<times> bool) \<Rightarrow> v1_node list \<Rightarrow> 'a \<Rightarrow> 'a" where
  "inspect_nil f (VNode i k cs) acc =
     (let r = f (Some (VNode i k cs)) acc
      in if snd r then fst (f None (inspect_nil_children f cs (fst r))) else fst r)"
| "inspect_nil_children f [] acc = acc"
| "inspect_nil_children f (c # cs) acc = inspect_nil_children f cs (inspect_nil f c acc)"

section \<open>A changed return type\<close>

record return_search =
  rs_stack :: "v1_node list"
  rs_found :: bool
  rs_parameters :: "ast_pos option"
  rs_annotation :: "return_annotation option"

definition return_parent :: "nat \<Rightarrow> v1_node \<Rightarrow> return_search \<Rightarrow> return_search" where
  "return_parent e parent s =
     (case vn_kind parent of
        KReturn x \<Rightarrow> if x = Some e then s\<lparr>rs_found := True\<rparr> else s
      | KFunction f \<Rightarrow> s\<lparr>rs_parameters := fn_parameters_end f, rs_annotation := fn_return f\<rparr>
      | KFunctionExpression f \<Rightarrow> s\<lparr>rs_parameters := fn_parameters_end f, rs_annotation := fn_return f\<rparr>
      | _ \<Rightarrow> s)"

text \<open>The loop over the stack from its top runs to the bottom.\<close>

fun return_loop :: "nat \<Rightarrow> v1_node list \<Rightarrow> return_search \<Rightarrow> return_search" where
  "return_loop e [] s = s"
| "return_loop e (parent # rest) s = return_loop e rest (return_parent e parent s)"

definition return_visit :: "nat \<Rightarrow> v1_node option \<Rightarrow> return_search \<Rightarrow> return_search \<times> bool" where
  "return_visit e element s =
     (case element of
        None \<Rightarrow> (s\<lparr>rs_stack := butlast (rs_stack s)\<rparr>, True)
      | Some n \<Rightarrow>
          if vn_id n = e then (return_loop e (rev (rs_stack s)) s, False)
          else (s\<lparr>rs_stack := rs_stack s @ [n]\<rparr>, True))"

definition find_return :: "nat \<Rightarrow> v1_node \<Rightarrow> return_search" where
  "find_return e tree =
     inspect_nil (return_visit e) tree
       \<lparr>rs_stack = [], rs_found = False, rs_parameters = None, rs_annotation = None\<rparr>"

definition maybe_return_type_change ::
    "'w \<Rightarrow> 'w v1_server \<Rightarrow> lsp_diagnostic \<Rightarrow> uri \<Rightarrow> nat option \<Rightarrow> string \<Rightarrow> v1_resolver option" where
  "maybe_return_type_change w s d u expression actual =
     (case expression of
        None \<Rightarrow> None
      | Some e \<Rightarrow>
          (case v1_checker_for_document w s u of
             None \<Rightarrow> None
           | Some c \<Rightarrow>
               (let r = find_return e (vc_tree c)
                in if \<not> rs_found r then None
                   else map_option (\<lambda>p. ReturnTypeResolver d u actual p (rs_annotation r)) (rs_parameters r))))"

definition is_empty_type :: "ast_type \<Rightarrow> bool" where
  "is_empty_type t = (case t of NominalType name \<Rightarrow> name = '''' | OtherType \<Rightarrow> False)"

definition quick_fix :: "string \<Rightarrow> lsp_diagnostic \<Rightarrow> uri \<Rightarrow> text_edit list \<Rightarrow> bool \<Rightarrow> v1_action" where
  "quick_fix title d u edits preferred =
     \<lparr>va_title = title, va_kind = ''quickfix'', va_diagnostics = [d], va_edit = [(u, edits)],
      va_preferred = preferred\<rparr>"

text \<open>The annotation is dereferenced: a function without one panics.\<close>

definition return_type_actions ::
    "lsp_diagnostic \<Rightarrow> uri \<Rightarrow> string \<Rightarrow> ast_pos \<Rightarrow> return_annotation option \<Rightarrow> v1_action list option" where
  "return_type_actions d u actual parameters_end annotation =
     (case annotation of
        None \<Rightarrow> None
      | Some a \<Rightarrow>
          (if is_empty_type (ra_type a)
           then let p = ast_to_protocol_position (shifted parameters_end 1)
                in Some [quick_fix (''Add return type `'' @ actual @ ''`'') d u
                           [insertion_at p ('': '' @ actual)] True]
           else Some [quick_fix (''Change return type to `'' @ actual @ ''`'') d u
                  [\<lparr>edit_range = ast_to_protocol_range (fst (ra_extent a)) (snd (ra_extent a)),
                    new_text = actual\<rparr>] True]))"

section \<open>Missing members\<close>

definition spaces :: "int \<Rightarrow> string option" where
  "spaces n = (if n < 0 then None else Some (replicate (nat n) space))"

definition format_new_member :: "missing_member \<Rightarrow> string \<Rightarrow> string" where
  "format_new_member m indentation =
     (if mm_kind m = DK_Field
      then mm_variable_keyword m @ '' '' @ mm_name m @ '': '' @ mm_annotation m
      else if mm_kind m = DK_Function
      then (case mm_function m of
              None \<Rightarrow> ''''
            | Some f \<Rightarrow>
                (if fs_view f then ''view '' else '''') @ ''fun '' @ mm_name m @ ''('' @
                str_join '', '' (fs_parameters f) @ '')'' @
                (case fs_return f of ReturnType t \<Rightarrow> '': '' @ t | _ \<Rightarrow> '''') @
                '' {'' @ [newline] @ indentation @ replicate indentation_count space @
                ''panic('' @ [CHR 0x22] @ ''TODO'' @ [CHR 0x22] @ '')'' @ [newline] @ indentation @ ''}'')
      else '''')"

fun members_loop :: "string \<Rightarrow> missing_member list \<Rightarrow> string \<Rightarrow> string" where
  "members_loop indentation [] b = b"
| "members_loop indentation (m # ms) b =
     (let src = format_new_member m indentation
      in if src = '''' then members_loop indentation ms b
         else members_loop indentation ms
                (b @ [newline] @ indentation @ mm_access m @ '' '' @ src @ [newline]))"

definition maybe_add_missing_members ::
    "lsp_diagnostic \<Rightarrow> missing_member list \<Rightarrow> extent \<Rightarrow> uri \<Rightarrow> v1_resolver option" where
  "maybe_add_missing_members d members composite u =
     (if length members = 0 then None else Some (MissingMembersResolver d u members composite))"

definition missing_members_actions ::
    "lsp_diagnostic \<Rightarrow> uri \<Rightarrow> missing_member list \<Rightarrow> extent \<Rightarrow> v1_action list option" where
  "missing_members_actions d u members composite =
     (case spaces (pos_column (fst composite) + int indentation_count) of
        None \<Rightarrow> None
      | Some indentation \<Rightarrow>
          Some [quick_fix ''Add missing members'' d u
                  [insertion_at (ast_to_protocol_position (snd composite)) (members_loop indentation members '''')]
                  True])"

section \<open>Where a declaration is inserted\<close>

record insertion_position =
  ins_before :: bool
  ins_pos :: ast_pos

definition after_end :: "extent \<Rightarrow> insertion_position" where
  "after_end x = \<lparr>ins_before = False, ins_pos = shifted (snd x) 1\<rparr>"

definition no_position :: ast_pos where
  "no_position = \<lparr>pos_offset = 0, pos_line = 0, pos_column = 0\<rparr>"

definition member_insertion :: "type_declaration \<Rightarrow> bool \<Rightarrow> insertion_position option" where
  "member_insertion decl is_function =
     (case decl of
        NoDeclaration \<Rightarrow> Some \<lparr>ins_before = False, ins_pos = no_position\<rparr>
      | NilPointer \<Rightarrow> None
      | Declared l \<Rightarrow>
          Some (if is_function \<and> length (ml_functions l) > 0 then after_end (last (ml_functions l))
                else if \<not> is_function \<and> length (ml_fields l) > 0 then after_end (last (ml_fields l))
                else if \<not> is_function \<and> length (ml_functions l) > 0
                then \<lparr>ins_before = True, ins_pos = fst (hd (ml_functions l))\<rparr>
                else if length (ml_declarations l) > 0 then after_end (last (ml_declarations l))
                else \<lparr>ins_before = True, ins_pos = ml_end l\<rparr>))"

text \<open>
  \<^verbatim>\<open>insertionPrefixSuffix\<close>: back from the position over blanks to the start of its line, to see
  whether an opening brace is before it.
\<close>

fun brace_before :: "nat \<Rightarrow> string \<Rightarrow> int \<Rightarrow> bool option" where
  "brace_before 0 text i = Some False"
| "brace_before (Suc n) text i =
     (case go_index text i of
        None \<Rightarrow> None
      | Some c \<Rightarrow> if c = space \<or> c = tab then brace_before n text (i - 1) else Some (c = CHR ''{''))"

definition insertion_prefix_suffix :: "insertion_position \<Rightarrow> string \<Rightarrow> string \<Rightarrow> (string \<times> string) option" where
  "insertion_prefix_suffix ins text indentation =
     (if ins_before ins
      then let p = ins_pos ins
           in case brace_before (nat (pos_column p)) text (pos_offset p - 1) of
                None \<Rightarrow> None
              | Some brace \<Rightarrow>
                  (case go_index text (pos_offset p) of
                     None \<Rightarrow> None
                   | Some c \<Rightarrow>
                       Some ((if brace then newline # indentation else '''') @
                               (if c = CHR ''}'' then ''    '' else ''''),
                             newline # indentation))
      else Some (newline # newline # indentation, ''''))"

section \<open>Declaring a function\<close>

text \<open>The labels are indexed: fewer labels than types panic. Names are bytes from \<^verbatim>\<open>a\<close> on.\<close>

fun parameters_text :: "nat \<Rightarrow> v1_type list \<Rightarrow> string list \<Rightarrow> string \<Rightarrow> string option" where
  "parameters_text i [] labels b = Some b"
| "parameters_text i (t # ts) labels b =
     (if i > 122 then Some b
      else if i < length labels
      then parameters_text (i + 1) ts labels
             (b @ (if i > 0 then '', '' else '''') @
              (if labels ! i = '''' then ''_ '' @ [char_of (97 + i)] else labels ! i) @ '': '' @
              (if vt_invalid t then ''Void'' else vt_qualified t))
      else None)"

definition function_declaration_actions ::
    "uri \<Rightarrow> string \<Rightarrow> lsp_diagnostic \<Rightarrow> insertion_position \<Rightarrow> string \<Rightarrow> v1_type list \<Rightarrow> string list \<Rightarrow>
     v1_type option \<Rightarrow> v1_action list option" where
  "function_declaration_actions u text d ins name types labels ret =
     (let p = ast_to_protocol_position (ins_pos ins)
      in case extract_indentation text (ins_pos ins) of
           None \<Rightarrow> None
         | Some indentation \<Rightarrow>
             (case parameters_text 0 types labels '''' of
                None \<Rightarrow> None
              | Some parameters \<Rightarrow>
                  (let ret_text = (case ret of
                         None \<Rightarrow> ''''
                       | Some t \<Rightarrow> if vt_invalid t \<or> vt_void t then '''' else '': '' @ vt_qualified t)
                   in case insertion_prefix_suffix ins text indentation of
                        None \<Rightarrow> None
                      | Some (prefix, suffix) \<Rightarrow>
                          Some [quick_fix ''Declare function'' d u
                            [insertion_at p (prefix @ ''fun '' @ name @ ''('' @ parameters @ '')'' @ ret_text @
                               '' {}'' @ [newline] @ suffix)] True])))"

section \<open>Declaring a variable or a field\<close>

datatype variable_kind = VariableKindVariable | VariableKindConstant | VariableKindOther

record kind_info =
  ki_kind :: variable_kind
  ki_keyword :: string
  ki_name :: string

text \<open>
  The loop over the kinds: with an assignment the constant kind is skipped and the variable kind
  preferred, otherwise the constant kind is preferred.
\<close>

fun kinds_loop :: "kind_info list \<Rightarrow> bool \<Rightarrow> (kind_info \<Rightarrow> bool \<Rightarrow> v1_action) \<Rightarrow> v1_action list \<Rightarrow> v1_action list" where
  "kinds_loop [] assigned act acts = acts"
| "kinds_loop (k # ks) assigned act acts =
     (if assigned
      then (if ki_kind k = VariableKindConstant then kinds_loop ks assigned act acts
            else kinds_loop ks assigned act (acts @ [act k (ki_kind k = VariableKindVariable)]))
      else kinds_loop ks assigned act (acts @ [act k (ki_kind k = VariableKindConstant)]))"

definition variable_declaration_actions ::
    "kind_info list \<Rightarrow> uri \<Rightarrow> string \<Rightarrow> lsp_diagnostic \<Rightarrow> ast_pos \<Rightarrow> string \<Rightarrow> bool \<Rightarrow> v1_action list option" where
  "variable_declaration_actions kinds u text d pos name assigned =
     (case extract_indentation text pos of
        None \<Rightarrow> None
      | Some indentation \<Rightarrow>
          Some (kinds_loop kinds assigned
            (\<lambda>k preferred. quick_fix (''Declare '' @ ki_name k) d u
               [insertion_at (ast_to_protocol_position pos)
                  (ki_keyword k @ '' '' @ name @ '' = TODO'' @ [newline] @ indentation)] preferred) []))"

definition field_declaration_actions ::
    "kind_info list \<Rightarrow> uri \<Rightarrow> string \<Rightarrow> lsp_diagnostic \<Rightarrow> insertion_position \<Rightarrow> string \<Rightarrow> string \<Rightarrow> bool \<Rightarrow>
     v1_action list option" where
  "field_declaration_actions kinds u text d ins name type_string assigned =
     (case extract_indentation text (ins_pos ins) of
        None \<Rightarrow> None
      | Some indentation \<Rightarrow>
          (case insertion_prefix_suffix ins text indentation of
             None \<Rightarrow> None
           | Some (prefix, suffix) \<Rightarrow>
               Some (kinds_loop kinds assigned
                 (\<lambda>k preferred. quick_fix (''Declare '' @ ki_name k @ '' field'') d u
                    [insertion_at (ast_to_protocol_position (ins_pos ins))
                       (prefix @ ki_keyword k @ '' '' @ name @ '': '' @ type_string @ [newline] @ suffix)]
                    preferred) [])))"

section \<open>The declaration to propose\<close>

record declaration_search =
  ds_stack :: "v1_node list"
  ds_assigned :: bool
  ds_invoked :: bool
  ds_function_end :: "ast_pos option"
  ds_types :: "v1_type list"
  ds_labels :: "string list"
  ds_return :: "v1_type option"

text \<open>The function around the invocation: the path without its root and its last element, upwards.\<close>

fun enclosing_function :: "v1_node list \<Rightarrow> ast_pos option" where
  "enclosing_function [] = None"
| "enclosing_function (n # ns) =
     (case vn_kind n of
        KFunction f \<Rightarrow> Some (fn_end f)
      | KSpecialFunction e \<Rightarrow> Some e
      | _ \<Rightarrow> enclosing_function ns)"

definition declaration_parent ::
    "nat option \<Rightarrow> bool \<Rightarrow> v1_node list \<Rightarrow> declaration_search \<Rightarrow> declaration_search" where
  "declaration_parent e member stack s =
     (case vn_kind (last stack) of
        KAssignment target \<Rightarrow> s\<lparr>ds_assigned := (e = Some target)\<rparr>
      | KInvocation invoked labels types ret \<Rightarrow>
          (let s1 = s\<lparr>ds_invoked := (e = Some invoked), ds_types := types, ds_return := ret, ds_labels := labels\<rparr>
           in if member then s1
              else case enclosing_function (rev (tl (butlast stack))) of
                     None \<Rightarrow> s1 | Some p \<Rightarrow> s1\<lparr>ds_function_end := Some p\<rparr>)
      | _ \<Rightarrow> s)"

text \<open>The expression without a parent panics; after a panic nothing is visited.\<close>

definition declaration_visit ::
    "nat option \<Rightarrow> bool \<Rightarrow> v1_node option \<Rightarrow> declaration_search option \<Rightarrow> declaration_search option \<times> bool" where
  "declaration_visit e member element acc =
     (case acc of
        None \<Rightarrow> (None, False)
      | Some s \<Rightarrow>
          (if map_option vn_id element = e
           then (if ds_stack s = [] then (None, False)
                 else (Some (declaration_parent e member (ds_stack s) s), False))
           else case element of
                  None \<Rightarrow> (Some (s\<lparr>ds_stack := butlast (ds_stack s)\<rparr>), True)
                | Some n \<Rightarrow> (Some (s\<lparr>ds_stack := ds_stack s @ [n]\<rparr>), True)))"

definition find_declaration :: "nat option \<Rightarrow> bool \<Rightarrow> v1_node \<Rightarrow> declaration_search option" where
  "find_declaration e member tree =
     inspect_nil (declaration_visit e member) tree
       (Some \<lparr>ds_stack = [], ds_assigned = False, ds_invoked = False, ds_function_end = None,
              ds_types = [], ds_labels = [], ds_return = None\<rparr>)"

definition owner_declaration :: "v1_checker \<Rightarrow> member_owner \<Rightarrow> type_declaration" where
  "owner_declaration c owner =
     (case owner of
        CompositeOwner t \<Rightarrow> (case vc_type_declaration c t of NilPointer \<Rightarrow> NoDeclaration | x \<Rightarrow> x)
      | InterfaceOwner t \<Rightarrow> vc_type_declaration c t
      | OtherOwner \<Rightarrow> NoDeclaration)"

text \<open>
  \<open>owner\<close> is given when a member is missing. Without a function around it a function goes to the
  start of the error's line; the literal there sets the line alone, so its offset is zero.
\<close>

definition declaration_actions ::
    "kind_info list \<Rightarrow> 'w \<Rightarrow> 'w v1_server \<Rightarrow> lsp_diagnostic \<Rightarrow> uri \<Rightarrow> nat option \<Rightarrow> ast_pos \<Rightarrow> string \<Rightarrow>
     member_owner option \<Rightarrow> v1_action list option" where
  "declaration_actions kinds w s d u e pos name owner =
     (case doc_get (vs_documents s) u of
        None \<Rightarrow> Some []
      | Some doc \<Rightarrow>
          (case v1_checker_for_document w s u of
             None \<Rightarrow> Some []
           | Some c \<Rightarrow>
               (case find_declaration e (owner \<noteq> None) (vc_tree c) of
                  None \<Rightarrow> None
                | Some r \<Rightarrow>
                    (if ds_invoked r
                     then case (case owner of
                                  Some t \<Rightarrow> member_insertion (owner_declaration c t) True
                                | None \<Rightarrow>
                                    (case ds_function_end r of
                                       Some p \<Rightarrow> Some \<lparr>ins_before = False, ins_pos = shifted p 1\<rparr>
                                     | None \<Rightarrow> Some \<lparr>ins_before = True,
                                         ins_pos = \<lparr>pos_offset = 0, pos_line = pos_line pos, pos_column = 0\<rparr>\<rparr>)) of
                            None \<Rightarrow> None
                          | Some ins \<Rightarrow>
                              function_declaration_actions u (doc_text doc) d ins name
                                (ds_types r) (ds_labels r) (ds_return r)
                     else case owner of
                            Some t \<Rightarrow>
                              (case (member_insertion (owner_declaration c t) False, e) of
                                 (Some ins, Some x) \<Rightarrow>
                                   field_declaration_actions kinds u (doc_text doc) d ins name
                                     (case vc_member_expected c x of Some q \<Rightarrow> q | None \<Rightarrow> ''TODO'')
                                     (ds_assigned r)
                               | _ \<Rightarrow> None)
                          | None \<Rightarrow>
                              (let start = pos_offset pos - pos_column pos
                               in case indentation_end (nat (pos_column pos)) (doc_text doc) start of
                                    None \<Rightarrow> None
                                  | Some off \<Rightarrow>
                                      variable_declaration_actions kinds u (doc_text doc) d
                                        \<lparr>pos_offset = off, pos_line = pos_line pos, pos_column = off - start\<rparr>
                                        name (ds_assigned r))))))"

section \<open>Calling a resolver\<close>

definition fix_actions :: "suggested_fix list \<Rightarrow> lsp_diagnostic \<Rightarrow> uri \<Rightarrow> v1_action list" where
  "fix_actions fixes d u =
     map (\<lambda>f. quick_fix (sf_message f) d u (map suggested_edit_to_text_edit (sf_edits f)) False) fixes"

fun run_resolver :: "kind_info list \<Rightarrow> 'w \<Rightarrow> 'w v1_server \<Rightarrow> v1_resolver \<Rightarrow> v1_action list option" where
  "run_resolver kinds w s (ReturnTypeResolver d u actual p a) = return_type_actions d u actual p a"
| "run_resolver kinds w s (MissingMembersResolver d u ms x) = missing_members_actions d u ms x"
| "run_resolver kinds w s (DeclarationResolver d u e pos name owner) =
     declaration_actions kinds w s d u e pos name owner"
| "run_resolver kinds w s (FixesResolver d u fixes) = Some (fix_actions fixes d u)"
| "run_resolver kinds w s (CombinedResolver first second) =
     (case (case first of None \<Rightarrow> Some [] | Some r \<Rightarrow> run_resolver kinds w s r) of
        None \<Rightarrow> None
      | Some acts \<Rightarrow>
          (case run_resolver kinds w s second of None \<Rightarrow> None | Some acts2 \<Rightarrow> Some (acts @ acts2)))"
| "run_resolver kinds w s (LintReplacementResolver d u replacement) =
     Some [quick_fix (vd_message d) d u [\<lparr>edit_range = vd_range d, new_text = replacement\<rparr>] True]"
| "run_resolver kinds w s (LintRemovalResolver d u) =
     Some [quick_fix ''Remove unnecessary code'' d u [\<lparr>edit_range = vd_range d, new_text = ''''\<rparr>] True]"

section \<open>Errors as diagnostics\<close>

definition combine_resolvers :: "v1_resolver option \<Rightarrow> v1_resolver \<Rightarrow> v1_resolver" where
  "combine_resolvers first second = CombinedResolver first second"

definition error_message :: "v1_error \<Rightarrow> string" where
  "error_message e =
     ve_message e @ (case ve_secondary e of None \<Rightarrow> '''' | Some m \<Rightarrow> ''. '' @ m)"

definition with_migration_note :: "string option \<Rightarrow> string \<Rightarrow> string" where
  "with_migration_note note m =
     (case note of
        None \<Rightarrow> m
      | Some n \<Rightarrow> (if has_suffix m [newline] then m else m @ [newline]) @ [newline] @ ''Migration note: '' @ n)"

definition error_resolver :: "'w \<Rightarrow> 'w v1_server \<Rightarrow> lsp_diagnostic \<Rightarrow> uri \<Rightarrow> v1_error_kind \<Rightarrow> v1_resolver option" where
  "error_resolver w s d u k =
     (case k of
        TypeMismatch e actual \<Rightarrow> maybe_return_type_change w s d u e actual
      | Conformance ms x \<Rightarrow> maybe_add_missing_members d ms x u
      | NotDeclared is_variable e pos name \<Rightarrow>
          if is_variable then Some (DeclarationResolver d u e pos name None) else None
      | NotDeclaredMember owner e pos name \<Rightarrow>
          if owner = OtherOwner then None else Some (DeclarationResolver d u e pos name (Some owner))
      | _ \<Rightarrow> None)"

text \<open>
  The resolver of the error's kind captures the diagnostic as it is then; the one of the suggested
  fixes refers to the variable, and so sees the tags, the link and the migration note.
\<close>

definition convert_error :: "'w \<Rightarrow> 'w v1_server \<Rightarrow> v1_error \<Rightarrow> uri \<Rightarrow> lsp_diagnostic \<times> v1_resolver option" where
  "convert_error w s e u =
     (let d = \<lparr>vd_message = error_message e, vd_severity = severity_error,
               vd_range = ast_to_protocol_range (fst (ve_extent e)) (snd (ve_extent e)), vd_tags = [],
               vd_code = None, vd_href = None, vd_related = [], vd_data = None\<rparr>;
          r = error_resolver w s d u (ve_kind e);
          d1 = d\<lparr>vd_tags := (if ve_kind e = UnreachableStatement then [TagUnnecessary] else []),
                 vd_code := (case ve_link e of None \<Rightarrow> None | Some l \<Rightarrow> Some ''documentation''),
                 vd_href := ve_link e,
                 vd_message := with_migration_note (ve_migration e) (vd_message d)\<rparr>
      in (d1, case (ve_fixes e, doc_get (vs_documents s) u) of
                (Some fixes, Some doc) \<Rightarrow> Some (combine_resolvers r (FixesResolver d1 u (fixes (doc_text doc))))
              | _ \<Rightarrow> r))"

text \<open>A resolver is stored under a new identifier, which becomes the data of the diagnostic.\<close>

definition attach_resolver ::
    "uri \<Rightarrow> lsp_diagnostic \<times> v1_resolver option \<Rightarrow> 'w v1_server \<Rightarrow> lsp_diagnostic \<times> 'w v1_server" where
  "attach_resolver u dr s =
     (case snd dr of
        None \<Rightarrow> (fst dr, s)
      | Some r \<Rightarrow>
          (let i = vs_next_uuid s
           in ((fst dr)\<lparr>vd_data := Some i\<rparr>,
               s\<lparr>vs_next_uuid := i + 1,
                 vs_action_resolvers :=
                   AList.update u (AList.update i r (case map_of (vs_action_resolvers s) u of None \<Rightarrow> [] | Some m \<Rightarrow> m))
                     (vs_action_resolvers s)\<rparr>)))"

definition related_information :: "uri \<Rightarrow> v1_error \<Rightarrow> (proto_location \<times> string) list" where
  "related_information u e =
     concat (map (\<lambda>n. case fst n of
                        None \<Rightarrow> []
                      | Some x \<Rightarrow> [(\<lparr>loc_uri = u, loc_range = ast_to_protocol_range (fst x) (snd x)\<rparr>, snd n)])
              (ve_notes e))"

fun parent_diagnostics ::
    "'w \<Rightarrow> uri \<Rightarrow> v1_child list \<Rightarrow> lsp_diagnostic list \<Rightarrow> 'w v1_server \<Rightarrow> lsp_diagnostic list \<times> 'w v1_server" where
  "parent_diagnostics w u [] ds s = (ds, s)"
| "parent_diagnostics w u (child # children) ds s =
     (case child of
        NotConvertible t m \<Rightarrow> parent_diagnostics w u children ds (emit [LogUnconvertible t] s)
      | Convertible e \<Rightarrow>
          (case attach_resolver u (convert_error w s e u) s of
             (d, s1) \<Rightarrow>
               parent_diagnostics w u children (ds @ [d\<lparr>vd_related := vd_related d @ related_information u e\<rparr>]) s1))"

section \<open>Findings of the linter as diagnostics\<close>

definition replacement_category :: string where "replacement_category = ''replacement-hint''"
definition removal_category :: string where "removal_category = ''removal-hint''"
definition deprecated_category :: string where "deprecated_category = ''deprecated''"
definition cadence_v1_category :: string where "cadence_v1_category = ''cadence-v1''"

definition suggested_of_lint :: "lint_fix \<Rightarrow> suggested_fix" where
  "suggested_of_lint f =
     \<lparr>sf_message = fx_message f,
      sf_edits = map (\<lambda>e. \<lparr>sg_insertion = '''', sg_replacement = snd e, sg_start = fst (fst e),
                            sg_end = snd (fst e)\<rparr>) (fx_edits f)\<rparr>"

text \<open>All resolvers refer to the variable of the diagnostic, which is set at the end.\<close>

definition convert_lint :: "lint_diagnostic \<Rightarrow> uri \<Rightarrow> lsp_diagnostic \<times> v1_resolver option" where
  "convert_lint l u =
     (let replaced = ld_category l = replacement_category \<and> length (ld_fixes l) = 0;
          special = (if ld_category l = replacement_category
                     then (if replaced then ld_message l @ '' `'' @ ld_secondary l @ ''`'' else '''')
                     else if ld_category l = removal_category then ''''
                     else if ld_category l = deprecated_category
                     then (if ld_secondary l \<noteq> '''' then ld_message l @ ''. '' @ ld_secondary l else '''')
                     else '''');
          d = \<lparr>vd_message = (if special = '''' then ld_message l else special),
               vd_severity = (if ld_category l = deprecated_category then severity_hint
                              else if ld_category l = cadence_v1_category then severity_error
                              else severity_warning),
               vd_range = ast_to_protocol_range (fst (ld_range l)) (snd (ld_range l)),
               vd_tags = (if ld_category l = deprecated_category then [TagDeprecated] else []),
               vd_code = (if ld_code l \<noteq> '''' then Some (ld_code l) else None),
               vd_href = (if ld_code l \<noteq> '''' \<and> ld_url l \<noteq> '''' then Some (ld_url l) else None),
               vd_related = [], vd_data = None\<rparr>
      in (d, if replaced then Some (LintReplacementResolver d u (ld_secondary l))
             else if ld_category l = removal_category then Some (LintRemovalResolver d u)
             else if length (ld_fixes l) > 0 then Some (FixesResolver d u (map suggested_of_lint (ld_fixes l)))
             else None))"

fun lint_diagnostics ::
    "uri \<Rightarrow> lint_diagnostic list \<Rightarrow> lsp_diagnostic list \<Rightarrow> 'w v1_server \<Rightarrow> lsp_diagnostic list \<times> 'w v1_server" where
  "lint_diagnostics u [] ds s = (ds, s)"
| "lint_diagnostics u (l # ls) ds s =
     (case attach_resolver u (convert_lint l u) s of (d, s1) \<Rightarrow> lint_diagnostics u ls (ds @ [d]) s1)"

section \<open>The search for a return statement\<close>

text \<open>The paths from the root to the occurrences of an element, without the element itself.\<close>

fun paths_to :: "nat \<Rightarrow> v1_node \<Rightarrow> v1_node list list"
and paths_children :: "nat \<Rightarrow> v1_node list \<Rightarrow> v1_node list list" where
  "paths_to e (VNode i k cs) =
     (if i = e then [[]] else map (\<lambda>p. VNode i k cs # p) (paths_children e cs))"
| "paths_children e [] = []"
| "paths_children e (c # cs) = paths_to e c @ paths_children e cs"

lemma return_parent_stack [simp]:
  "return_parent e n (s\<lparr>rs_stack := x\<rparr>) = (return_parent e n s)\<lparr>rs_stack := x\<rparr>"
  "rs_stack (return_parent e n s) = rs_stack s"
  by (simp_all add: return_parent_def split: v1_kind.split)

lemma return_loop_stack [simp]:
  "return_loop e ps (s\<lparr>rs_stack := x\<rparr>) = (return_loop e ps s)\<lparr>rs_stack := x\<rparr>"
  "rs_stack (return_loop e ps s) = rs_stack s"
  by (induction ps arbitrary: s) simp_all

definition along :: "nat \<Rightarrow> v1_node list \<Rightarrow> v1_node list \<Rightarrow> return_search \<Rightarrow> return_search" where
  "along e st p s = return_loop e (rev (st @ p)) s"

lemma fold_along_stack [simp]:
  "fold (along e st) ps (s\<lparr>rs_stack := x\<rparr>) = (fold (along e st) ps s)\<lparr>rs_stack := x\<rparr>"
  "rs_stack (fold (along e st) ps s) = rs_stack s"
  by (induction ps arbitrary: s) (simp_all add: along_def)

lemma fold_along_Cons: "fold (along e (st @ [n])) ps s = fold (along e st) (map (\<lambda>p. n # p) ps) s"
  by (induction ps arbitrary: s) (simp_all add: along_def)

lemma return_visit_simps [simp]:
  "return_visit e None s = (s\<lparr>rs_stack := butlast (rs_stack s)\<rparr>, True)"
  "return_visit e (Some n) s =
     (if vn_id n = e then (return_loop e (rev (rs_stack s)) s, False)
      else (s\<lparr>rs_stack := rs_stack s @ [n]\<rparr>, True))"
  by (simp_all add: return_visit_def)

lemma inspect_return:
  "inspect_nil (return_visit e) t s = fold (along e (rs_stack s)) (paths_to e t) s"
  "inspect_nil_children (return_visit e) ts s = fold (along e (rs_stack s)) (paths_children e ts) s"
proof (induction e t and e ts arbitrary: s and s rule: paths_to_paths_children.induct)
  case (1 e i k cs)
  show ?case
  proof (cases "i = e")
    case True
    then show ?thesis by (simp add: along_def)
  next
    case False
    let ?n = "VNode i k cs"
    have "inspect_nil (return_visit e) ?n s =
        (fold (along e (rs_stack s @ [?n])) (paths_children e cs) (s\<lparr>rs_stack := rs_stack s @ [?n]\<rparr>))
          \<lparr>rs_stack := rs_stack s\<rparr>"
      using False 1 by simp
    then show ?thesis using False by (simp add: fold_along_Cons)
  qed
qed simp_all

definition function_of :: "v1_node \<Rightarrow> v1_function option" where
  "function_of n =
     (case vn_kind n of KFunction f \<Rightarrow> Some f | KFunctionExpression f \<Rightarrow> Some f | _ \<Rightarrow> None)"

text \<open>The loop runs upwards to the root and so keeps the function nearest to the root.\<close>

lemma return_loop_result:
  "rs_found (return_loop e (rev p) s) \<longleftrightarrow> rs_found s \<or> (\<exists>n \<in> set p. vn_kind n = KReturn (Some e))"
  "rs_parameters (return_loop e (rev p) s) =
     (case List.map_filter function_of p of [] \<Rightarrow> rs_parameters s | f # _ \<Rightarrow> fn_parameters_end f)"
  "rs_annotation (return_loop e (rev p) s) =
     (case List.map_filter function_of p of [] \<Rightarrow> rs_annotation s | f # _ \<Rightarrow> fn_return f)"
proof -
  have app: "return_loop e (xs @ ys) s = return_loop e ys (return_loop e xs s)" for xs ys s
    by (induction xs arbitrary: s) simp_all
  show "rs_found (return_loop e (rev p) s) \<longleftrightarrow> rs_found s \<or> (\<exists>n \<in> set p. vn_kind n = KReturn (Some e))"
    by (induction p arbitrary: s) (auto simp: app return_parent_def split: v1_kind.splits)
  show "rs_parameters (return_loop e (rev p) s) =
     (case List.map_filter function_of p of [] \<Rightarrow> rs_parameters s | f # _ \<Rightarrow> fn_parameters_end f)"
    by (induction p arbitrary: s)
       (auto simp: app return_parent_def function_of_def map_filter_simps split: v1_kind.splits)
  show "rs_annotation (return_loop e (rev p) s) =
     (case List.map_filter function_of p of [] \<Rightarrow> rs_annotation s | f # _ \<Rightarrow> fn_return f)"
    by (induction p arbitrary: s)
       (auto simp: app return_parent_def function_of_def map_filter_simps split: v1_kind.splits)
qed


text \<open>
  An example: \<open>fun outer() { let f = fun (): Int { return x } }\<close> with element 9 for \<open>x\<close>. A
  document \<open>u\<close> has a checker with a given tree.
\<close>

definition tree_checker :: "v1_node \<Rightarrow> v1_checker" where
  "tree_checker t =
     \<lparr>chk_location = StringLocation ''u'',
      chk_program = \<lparr>prg_tree = Node NOther (sample_pos, sample_pos) EOther [], prg_declarations = []\<rparr>,
      chk_positions = Some sample_positions, vc_tree = t, vc_entry_parameters = [], vc_composites = [],
      vc_type_declaration = (\<lambda>_. NoDeclaration), vc_member_expected = (\<lambda>_. None)\<rparr>"

definition checked_server :: "string \<Rightarrow> v1_checker \<Rightarrow> unit v1_server" where
  "checked_server text c =
     (fresh_server [] [])\<lparr>vs_documents := [(''u'', \<lparr>doc_text = text, doc_version = 1\<rparr>)],
        vs_cache := [(key_for_root '''' ''u'', c)]\<rparr>"

definition at_line :: "int \<Rightarrow> ast_pos" where
  "at_line n = \<lparr>pos_offset = 0, pos_line = n, pos_column = 0\<rparr>"

definition outer_function :: v1_function where
  "outer_function = \<lparr>fn_parameters_end = Some (at_line 1), fn_return = None, fn_end = at_line 5\<rparr>"

definition inner_function :: v1_function where
  "inner_function = \<lparr>fn_parameters_end = Some (at_line 2),
     fn_return = Some \<lparr>ra_type = NominalType ''Int'', ra_extent = (at_line 2, at_line 2)\<rparr>, fn_end = at_line 4\<rparr>"

definition nested_functions :: v1_node where
  "nested_functions =
     VNode 0 KElement [VNode 1 (KFunction outer_function)
       [VNode 2 (KFunctionExpression inner_function) [VNode 3 (KReturn (Some 9)) [VNode 9 KElement []]]]]"

lemma checked_server_checker:
  "v1_checker_for_document () (checked_server text c) ''u'' = Some c"
  by (simp add: v1_checker_for_document_def checked_server_def root_key_def checker_get_def
      fresh_server_def blank_server_def default_project_id_def)

definition plain_diagnostic :: lsp_diagnostic where
  "plain_diagnostic =
     \<lparr>vd_message = ''m'', vd_severity = severity_error, vd_range = Range (Position 0 0) (Position 0 0), vd_tags = [],
      vd_code = None, vd_href = None, vd_related = [], vd_data = None\<rparr>"


section \<open>What the proposals edit\<close>

lemma kinds_loop_all:
  "list_all P acts \<Longrightarrow> (\<And>k b. P (act k b)) \<Longrightarrow> list_all P (kinds_loop ks assigned act acts)"
proof (induction ks arbitrary: acts)
  case (Cons k ks)
  have "list_all P (kinds_loop ks assigned act (acts @ [act k b]))" for b
    using Cons.IH [of "acts @ [act k b]"] Cons.prems by simp
  then show ?case using Cons.IH [of acts] Cons.prems by (cases assigned) simp_all
qed simp

definition inserts_at :: "uri \<Rightarrow> lsp_diagnostic \<Rightarrow> position \<Rightarrow> v1_action \<Rightarrow> bool" where
  "inserts_at u d p a \<longleftrightarrow> (\<exists>t. va_edit a = [(u, [insertion_at p t])]) \<and> va_diagnostics a = [d]"

lemma inserts_at_quick_fix [simp]: "inserts_at u d p (quick_fix title d u [insertion_at p t] b)"
  by (auto simp: inserts_at_def quick_fix_def)

lemma kinds_loop_inserts [simp]:
  "list_all (inserts_at u d p) (kinds_loop ks assigned (\<lambda>k. quick_fix (T k) d u [insertion_at p (F k)]) [])"
  by (rule kinds_loop_all) simp_all

lemma function_declaration_inserts:
  "function_declaration_actions u text d ins name types labels ret = Some acts \<Longrightarrow>
   list_all (inserts_at u d (ast_to_protocol_position (ins_pos ins))) acts"
  by (auto simp: function_declaration_actions_def Let_def split: option.splits prod.splits)

lemma variable_declaration_inserts:
  "variable_declaration_actions kinds u text d pos name assigned = Some acts \<Longrightarrow>
   list_all (inserts_at u d (ast_to_protocol_position pos)) acts"
  unfolding variable_declaration_actions_def by (cases "extract_indentation text pos") auto

lemma field_declaration_inserts:
  "field_declaration_actions kinds u text d ins name ty assigned = Some acts \<Longrightarrow>
   list_all (inserts_at u d (ast_to_protocol_position (ins_pos ins))) acts"
  unfolding field_declaration_actions_def by (auto split: option.splits prod.splits)

lemmas declaration_inserts = function_declaration_inserts variable_declaration_inserts field_declaration_inserts

lemma declaration_actions_insert:
  "declaration_actions kinds w s d u e pos name owner = Some acts \<Longrightarrow>
   \<exists>p. list_all (inserts_at u d p) acts"
  by (auto simp: declaration_actions_def Let_def split: option.splits if_splits prod.splits
      dest!: declaration_inserts)


definition let_kind :: kind_info where
  "let_kind = \<lparr>ki_kind = VariableKindConstant, ki_keyword = ''let'', ki_name = ''constant''\<rparr>"


text \<open>
  When the declaration of the type is not found (as for a type of another program, the remark in the
  code says), the position is the zero value; its line 0 wraps around in the conversion, and the
  insertion is offered on line 4294967295 of the importing document.
\<close>

theorem unresolved_owner_inserts_nowhere:
  assumes run: "run_resolver kinds w s (DeclarationResolver d u e pos name (Some t)) = Some acts"
    and chk: "v1_checker_for_document w s u = Some c" and owner: "owner_declaration c t = NoDeclaration"
  shows "list_all (inserts_at u d (Position 4294967295 0)) acts"
proof -
  have p: "ast_to_protocol_position no_position = Position 4294967295 0"
    by (simp add: ast_to_protocol_position_def no_position_def)
  show ?thesis
    using run chk owner
    by (auto simp: declaration_actions_def member_insertion_def p split: option.splits if_splits
        dest!: declaration_inserts)
qed

text \<open>The generated names go on after \<^verbatim>\<open>z\<close>: the bound compares the index with the letter's code.\<close>

theorem parameter_beyond_z:
  "parameters_text 26 [\<lparr>vt_invalid = False, vt_void = False, vt_qualified = ''Int''\<rparr>] (replicate 27 []) [] =
   Some '', _ {: Int''"
  by code_simp

section \<open>Resolvers edit the document of their error\<close>

text \<open>The documents that a resolver may edit.\<close>

fun edits_document :: "uri \<Rightarrow> v1_resolver \<Rightarrow> bool" where
  "edits_document u (ReturnTypeResolver d v actual p a) = (v = u)"
| "edits_document u (MissingMembersResolver d v ms x) = (v = u)"
| "edits_document u (DeclarationResolver d v e pos name owner) = (v = u)"
| "edits_document u (FixesResolver d v fixes) = (v = u)"
| "edits_document u (CombinedResolver first second) =
     ((case first of None \<Rightarrow> True | Some r \<Rightarrow> edits_document u r) \<and> edits_document u second)"
| "edits_document u (LintReplacementResolver d v r) = (v = u)"
| "edits_document u (LintRemovalResolver d v) = (v = u)"

definition edits_only :: "uri \<Rightarrow> v1_action \<Rightarrow> bool" where
  "edits_only u a \<longleftrightarrow> map fst (va_edit a) = [u]"

lemma edits_only_quick_fix [simp]: "edits_only u (quick_fix title d u es b)"
  by (simp add: edits_only_def quick_fix_def)

lemma edits_only_inserts: "list_all (inserts_at u d p) acts \<Longrightarrow> list_all (edits_only u) acts"
  by (auto simp: inserts_at_def edits_only_def list_all_iff)

lemma resolver_edits_document:
  "edits_document u r \<Longrightarrow> run_resolver kinds w s r = Some acts \<Longrightarrow> list_all (edits_only u) acts"
proof (induction kinds w s r arbitrary: acts rule: run_resolver.induct)
  case (3 kinds w s d v e pos name owner)
  then show ?case using declaration_actions_insert edits_only_inserts by (metis edits_document.simps(3) run_resolver.simps(3))
qed (auto simp: return_type_actions_def missing_members_actions_def fix_actions_def Let_def list_all_iff
    split: option.splits if_splits)

end
