(* ===== verification/V1Checks.thy ===== *)
theory V1Checks
  imports V1Actions Commands
begin

text \<open>
  Checking documents in the first language server (src/languageserver/server/server.go): locations
  and imports, the diagnostics of a document and their publication, the notifications that trigger
  them, and the commands. The Cadence parser and checker are parameters; a run of the checker is an
  arbitrary interactive computation that may ask for the resolution of locations and for imports,
  and then finishes. The handler of imports has fuel for the depth of nested imports. \<open>None\<close> is a
  call that panics or has not returned within the fuel.
\<close>

section \<open>The front end as a parameter\<close>

datatype v1_import = Imported v1_checker | ImportFailed v1_failure

datatype v1_run =
    VDone v1_checker "v1_failure option"
  | VLocation "string list" location "(location \<times> string list) list \<Rightarrow> v1_run"
  | VImport location "v1_import \<Rightarrow> v1_run"

record 'prog v1_front =
  vf_parse :: "string \<Rightarrow> 'prog option \<times> v1_failure option"
  vf_sole_transaction :: "'prog \<Rightarrow> bool"
  vf_sole_contract :: "'prog \<Rightarrow> bool"
  vf_new_checker_error :: "'prog \<Rightarrow> location \<Rightarrow> string option"
  vf_sub_checker_error :: "'prog \<Rightarrow> location \<Rightarrow> v1_failure option"
  vf_check :: "check_config \<Rightarrow> 'prog \<Rightarrow> location \<Rightarrow> v1_run"
  vf_lint :: "v1_checker \<Rightarrow> string \<Rightarrow> lint_diagnostic list"
  vf_test_location :: location
  vf_test_checker :: v1_checker
  vf_helpers_location :: location
  vf_helpers_checker :: v1_checker
  vf_location_string :: "location \<Rightarrow> string"
  vf_parse_literal :: "string \<Rightarrow> v1_parameter \<Rightarrow> (string, json) result"

text \<open>Running the checker: \<open>loc\<close> resolves locations, \<open>imp\<close> answers imports and changes a state.\<close>

primrec run_v1 ::
    "v1_run \<Rightarrow> (string list \<Rightarrow> location \<Rightarrow> (location \<times> string list) list option) \<Rightarrow>
     (location \<Rightarrow> 'st \<Rightarrow> (v1_import \<times> 'st) option) \<Rightarrow> 'st \<Rightarrow>
     ((v1_checker \<times> v1_failure option) \<times> 'st) option" where
  "run_v1 (VDone c e) loc imp st = Some ((c, e), st)"
| "run_v1 (VLocation ids l k) loc imp st =
     (case loc ids l of None \<Rightarrow> None | Some ls \<Rightarrow> run_v1 (k ls) loc imp st)"
| "run_v1 (VImport l k) loc imp st =
     (case imp l st of None \<Rightarrow> None | Some (r, st1) \<Rightarrow> run_v1 (k r) loc imp st1)"

section \<open>Locations and imports\<close>

text \<open>An identifier is its name. A failing resolver of contract names is a panic.\<close>

definition handle_location ::
    "'w \<Rightarrow> 'w v1_server \<Rightarrow> string list \<Rightarrow> location \<Rightarrow> (location \<times> string list) list option" where
  "handle_location w s identifiers l =
     (case l of
        AddressLocation addr name \<Rightarrow>
          (let per_identifier = map (\<lambda>i. (AddressLocation addr i, [i]))
           in if length identifiers = 0
              then (case vs_resolve_contract_names s of
                      None \<Rightarrow> Some []
                    | Some f \<Rightarrow>
                        (case f w addr of
                           Inl e \<Rightarrow> None
                         | Inr names \<Rightarrow> if length names = 0 then Some [] else Some (per_identifier names)))
              else Some (per_identifier identifiers))
      | _ \<Rightarrow> Some [(l, identifiers)])"

definition parse_resolved ::
    "'prog v1_front \<Rightarrow> (string, string) result \<Rightarrow> 'prog option \<times> v1_failure option" where
  "parse_resolved fe r = (case r of Inl e \<Rightarrow> (None, Some (PlainFailure e)) | Inr code \<Rightarrow> vf_parse fe code)"

text \<open>A location that cannot be resolved is neither a program nor an error.\<close>

definition v1_resolve_import ::
    "'prog v1_front \<Rightarrow> 'w \<Rightarrow> 'w v1_server \<Rightarrow> string \<Rightarrow> location \<Rightarrow> 'prog option \<times> v1_failure option" where
  "v1_resolve_import fe w s project l =
     (case (case l of
              StringLocation p \<Rightarrow> vs_resolve_string s
            | AddressLocation a n \<Rightarrow> vs_resolve_address s
            | IdentifierLocation i \<Rightarrow> vs_resolve_identifier s
            | OtherLocation x \<Rightarrow> None) of
        None \<Rightarrow> (None, None)
      | Some f \<Rightarrow> parse_resolved fe (f w project l))"

definition v1_import_error :: "string \<Rightarrow> v1_failure" where
  "v1_import_error m = ParentFailure [NotConvertible ''*errors.errorString'' m]"

text \<open>
  \<open>parent\<close> is the location of the importing checker. A sub-checker has its parent's configuration,
  and so the same handlers for the same project.
\<close>

fun v1_handle_import ::
    "'prog v1_front \<Rightarrow> 'w \<Rightarrow> 'w v1_server \<Rightarrow> check_config \<Rightarrow> string \<Rightarrow> nat \<Rightarrow> location \<Rightarrow> location \<Rightarrow>
     checker_cache \<Rightarrow> (v1_import \<times> checker_cache) option" where
  "v1_handle_import fe w s cfg project 0 parent l0 cch = None"
| "v1_handle_import fe w s cfg project (Suc fuel) parent l0 cch =
     (if l0 = vf_test_location fe then Some (Imported (vf_test_checker fe), cch)
      else if l0 = vf_helpers_location fe then Some (Imported (vf_helpers_checker fe), cch)
      else
        (let l = (if is_path_location l0 then normalize_path_location parent l0 else l0)
         in if is_path_location l0 \<and> parent = l
            then Some (ImportFailed (v1_import_error (''cannot import current file: '' @ vf_location_string fe l)), cch)
            else
              (let key = \<lparr>key_project = project, key_location = l\<rparr>
               in case checker_get cch key of
                    Some c \<Rightarrow> Some (Imported c, cch)
                  | None \<Rightarrow>
                      (case v1_resolve_import fe w s project l of
                         (_, Some e) \<Rightarrow> Some (ImportFailed e, cch)
                       | (None, None) \<Rightarrow>
                           Some (ImportFailed (v1_import_error (''cannot import '' @ vf_location_string fe l)), cch)
                       | (Some p, None) \<Rightarrow>
                           (case vf_sub_checker_error fe p l of
                              Some e \<Rightarrow> Some (ImportFailed e, cch)
                            | None \<Rightarrow>
                                (case run_v1 (vf_check fe cfg p l) (handle_location w s)
                                        (v1_handle_import fe w s cfg project fuel l) cch of
                                   None \<Rightarrow> None
                                 | Some ((c, Some e), cache1) \<Rightarrow> Some (ImportFailed e, cache1)
                                 | Some ((c, None), cache1) \<Rightarrow>
                                     Some (Imported c, checker_put cache1 key c)))))))"

section \<open>The diagnostics of a document\<close>

definition decide_checker_config :: "'prog v1_front \<Rightarrow> 'w \<Rightarrow> 'w v1_server \<Rightarrow> string \<Rightarrow> 'prog \<Rightarrow> check_config" where
  "decide_checker_config fe w s project p =
     (if vf_sole_transaction fe p \<or> vf_sole_contract fe p then checker_standard_config s w project
      else checker_script_config s w project)"

definition failure_diagnostics ::
    "'w \<Rightarrow> uri \<Rightarrow> v1_failure option \<Rightarrow> lsp_diagnostic list \<Rightarrow> 'w v1_server \<Rightarrow> lsp_diagnostic list \<times> 'w v1_server" where
  "failure_diagnostics w u err ds s =
     (case err of Some (ParentFailure children) \<Rightarrow> parent_diagnostics w u children ds s | _ \<Rightarrow> (ds, s))"

text \<open>The providers in order; the first error ends the loop.\<close>

fun provider_loop ::
    "('w \<Rightarrow> uri \<Rightarrow> u32 \<Rightarrow> v1_checker \<Rightarrow> (string, lsp_diagnostic list) result) list \<Rightarrow> 'w \<Rightarrow> uri \<Rightarrow> u32 \<Rightarrow>
     v1_checker \<Rightarrow> lsp_diagnostic list \<Rightarrow> lsp_diagnostic list \<times> string option" where
  "provider_loop [] w u version c ds = (ds, None)"
| "provider_loop (p # ps) w u version c ds =
     (case p w u version c of
        Inl e \<Rightarrow> (ds, Some e)
      | Inr extra \<Rightarrow> provider_loop ps w u version c (ds @ extra))"

text \<open>The part after the program was parsed, with the diagnostics of the parser.\<close>

definition check_parsed ::
    "'prog v1_front \<Rightarrow> 'w \<Rightarrow> nat \<Rightarrow> uri \<Rightarrow> string \<Rightarrow> u32 \<Rightarrow> 'prog \<Rightarrow> lsp_diagnostic list \<Rightarrow> 'w v1_server \<Rightarrow>
     (lsp_diagnostic list \<times> string option \<times> 'w v1_server) option" where
  "check_parsed fe w fuel u text version p ds s =
     (let project = vs_project_id s w u; l = uri_to_location u;
          cfg = decide_checker_config fe w s project p
      in case vf_new_checker_error fe p l of
           Some e \<Rightarrow> Some (ds, Some e, s)
         | None \<Rightarrow>
             (case run_v1 (vf_check fe cfg p l) (handle_location w s)
                     (v1_handle_import fe w s cfg project fuel l) (vs_cache s) of
                None \<Rightarrow> None
              | Some ((c, err), cache1) \<Rightarrow>
                  (let s1 = emit [LogChecked u]
                         (s\<lparr>vs_cache := checker_put cache1 (vs_root_key s project u) c\<rparr>);
                       (ds2, s2) = failure_diagnostics w u err ds s1;
                       (ds3, failed) = provider_loop (vs_diagnostic_providers s2) w u version c ds2
                   in case failed of
                        Some e \<Rightarrow> Some (ds3, Some e, s2)
                      | None \<Rightarrow>
                          (let (ds4, s4) = lint_diagnostics u (vf_lint fe c text) ds3 s2
                           in Some (ds4, None, s4)))))"

definition get_diagnostics ::
    "'prog v1_front \<Rightarrow> 'w \<Rightarrow> nat \<Rightarrow> uri \<Rightarrow> string \<Rightarrow> u32 \<Rightarrow> 'w v1_server \<Rightarrow>
     (lsp_diagnostic list \<times> string option \<times> 'w v1_server) option" where
  "get_diagnostics fe w fuel u text version s =
     (let s0 = s\<lparr>vs_action_resolvers := AList.update u [] (vs_action_resolvers s)\<rparr>;
          (prog, perr) = vf_parse fe text;
          (ds, s1) = failure_diagnostics w u perr [] (emit [LogParsed u] s0)
      in case prog of
           None \<Rightarrow> Some (ds, None, s1\<lparr>vs_cache := checker_delete (vs_cache s1) (root_key s1 w u)\<rparr>)
         | Some p \<Rightarrow> check_parsed fe w fuel u text version p ds s1)"

text \<open>The error is ignored: the diagnostics found so far are published in any case.\<close>

fun valid_loop :: "lsp_diagnostic list \<Rightarrow> bool" where
  "valid_loop [] = True"
| "valid_loop (d # ds) = (if vd_severity d = severity_error then False else valid_loop ds)"

definition check_and_publish ::
    "'prog v1_front \<Rightarrow> 'w \<Rightarrow> nat \<Rightarrow> uri \<Rightarrow> string \<Rightarrow> u32 \<Rightarrow> 'w v1_server \<Rightarrow> 'w v1_server option" where
  "check_and_publish fe w fuel u text version s =
     (case get_diagnostics fe w fuel u text version s of
        None \<Rightarrow> None
      | Some (ds, _, s1) \<Rightarrow> Some (emit [Published u ds, CheckCompleted u (valid_loop ds)] s1))"

section \<open>Notifications\<close>

definition v1_did_open ::
    "'prog v1_front \<Rightarrow> 'w \<Rightarrow> nat \<Rightarrow> 'w v1_server \<Rightarrow> uri \<Rightarrow> string \<Rightarrow> u32 \<Rightarrow> 'w v1_server option" where
  "v1_did_open fe w fuel s u text version =
     (let s1 = s\<lparr>vs_documents := doc_set (vs_documents s) u text version\<rparr>;
          s2 = (case vs_on_did_open s1 of None \<Rightarrow> s1 | Some h \<Rightarrow> emit (map HookMessage (h w u text)) s1)
      in check_and_publish fe w fuel u text version s2)"

text \<open>The first of the content changes is taken; without one the index panics.\<close>

definition v1_did_change ::
    "'prog v1_front \<Rightarrow> 'w \<Rightarrow> nat \<Rightarrow> 'w v1_server \<Rightarrow> uri \<Rightarrow> u32 \<Rightarrow> string list \<Rightarrow> 'w v1_server option" where
  "v1_did_change fe w fuel s u version changes =
     (case changes of
        [] \<Rightarrow> None
      | text # _ \<Rightarrow>
          (let s1 = s\<lparr>vs_documents := doc_set (vs_documents s) u text version\<rparr>;
               s2 = s1\<lparr>vs_cache := checker_delete (vs_cache s1) (root_key s1 w u)\<rparr>
           in check_and_publish fe w fuel u text version s2))"

definition v1_did_close :: "'w v1_server \<Rightarrow> uri \<Rightarrow> 'w v1_server" where
  "v1_did_close s u = s"

section \<open>Commands\<close>

datatype v1_command_error =
    UnknownCommand string
  | ArgumentCount command_error
  | InvalidUri json
  | DocumentNotFound uri
  | InvalidArgumentList json
  | ArgumentNumber nat nat
  | InvalidArgumentAt nat json
  | LiteralError string
  | HandlerError string

definition encode_parameters :: "v1_parameter list \<Rightarrow> json" where
  "encode_parameters ps =
     JArr (map (\<lambda>p. JObj [(''name'', JStr (vp_label p)),
                           (''type'', JStr (case vp_type_id p of None \<Rightarrow> '''' | Some t \<Rightarrow> t))]) ps)"

text \<open>The common start of the three commands: the number of arguments, the URI and its checker.\<close>

definition command_checker ::
    "'w \<Rightarrow> 'w v1_server \<Rightarrow> json list \<Rightarrow> nat \<Rightarrow> (v1_command_error, v1_checker) result" where
  "command_checker w s args n =
     (case check_command_argument_count args n of
        Some e \<Rightarrow> Inl (ArgumentCount e)
      | None \<Rightarrow>
          (case unmarshal_string '''' (args ! 0) of
             None \<Rightarrow> Inl (InvalidUri (args ! 0))
           | Some u \<Rightarrow>
               (case v1_checker_for_document w s u of
                  None \<Rightarrow> Inl (DocumentNotFound u)
                | Some c \<Rightarrow> Inr c)))"

definition get_entry_point_parameters ::
    "'w \<Rightarrow> 'w v1_server \<Rightarrow> json list \<Rightarrow> (v1_command_error, json) result" where
  "get_entry_point_parameters w s args =
     (case command_checker w s args 1 of
        Inl e \<Rightarrow> Inl e | Inr c \<Rightarrow> Inr (encode_parameters (vc_entry_parameters c)))"

definition get_contract_initializer_parameters ::
    "'w \<Rightarrow> 'w v1_server \<Rightarrow> json list \<Rightarrow> (v1_command_error, json) result" where
  "get_contract_initializer_parameters w s args =
     (case command_checker w s args 1 of
        Inl e \<Rightarrow> Inl e
      | Inr c \<Rightarrow>
          Inr (case vc_composites c of
                 [(is_contract, parameters)] \<Rightarrow>
                   if \<not> is_contract then JArr [] else encode_parameters parameters
               | _ \<Rightarrow> JArr []))"

fun literals_loop ::
    "'prog v1_front \<Rightarrow> nat \<Rightarrow> json list \<Rightarrow> v1_parameter list \<Rightarrow> json list \<Rightarrow>
     (v1_command_error, json list) result" where
  "literals_loop fe i (a # as) (p # ps) res =
     (case a of
        JStr code \<Rightarrow>
          (case vf_parse_literal fe code p of
             Inl e \<Rightarrow> Inl (LiteralError e)
           | Inr v \<Rightarrow> literals_loop fe (i + 1) as ps (res @ [v]))
      | _ \<Rightarrow> Inl (InvalidArgumentAt i a))"
| "literals_loop fe i as ps res = Inr res"

definition unmarshal_array :: "json \<Rightarrow> json list option" where
  "unmarshal_array j = (case j of JArr js \<Rightarrow> Some js | JNull \<Rightarrow> Some [] | _ \<Rightarrow> None)"

definition parse_entry_point_arguments ::
    "'prog v1_front \<Rightarrow> 'w \<Rightarrow> 'w v1_server \<Rightarrow> json list \<Rightarrow> (v1_command_error, json) result" where
  "parse_entry_point_arguments fe w s args =
     (case command_checker w s args 2 of
        Inl e \<Rightarrow> Inl e
      | Inr c \<Rightarrow>
          (case unmarshal_array (args ! 1) of
             None \<Rightarrow> Inl (InvalidArgumentList (args ! 1))
           | Some arguments \<Rightarrow>
               (if length arguments \<noteq> length (vc_entry_parameters c)
                then Inl (ArgumentNumber (length arguments) (length (vc_entry_parameters c)))
                else case literals_loop fe 0 arguments (vc_entry_parameters c) [] of
                       Inl e \<Rightarrow> Inl e | Inr vs \<Rightarrow> Inr (JArr vs))))"

definition run_command ::
    "'prog v1_front \<Rightarrow> 'w \<Rightarrow> 'w v1_server \<Rightarrow> 'w command_handler \<Rightarrow> json list \<Rightarrow> (v1_command_error, json) result" where
  "run_command fe w s h args =
     (case h of
        BuiltinCommand EntryPointParameters \<Rightarrow> get_entry_point_parameters w s args
      | BuiltinCommand ContractInitializerParameters \<Rightarrow> get_contract_initializer_parameters w s args
      | BuiltinCommand ParseEntryPointArguments \<Rightarrow> parse_entry_point_arguments fe w s args
      | CustomCommand f \<Rightarrow> (case f w args of Inl e \<Rightarrow> Inl (HandlerError e) | Inr v \<Rightarrow> Inr v))"

definition execute_command ::
    "'prog v1_front \<Rightarrow> 'w \<Rightarrow> 'w v1_server \<Rightarrow> string \<Rightarrow> json list \<Rightarrow>
     (v1_command_error, json) result \<times> 'w v1_server" where
  "execute_command fe w s cmd args =
     (let s1 = emit [LogCommand cmd] s
      in case map_of (vs_commands s1) cmd of
           None \<Rightarrow> (Inl (UnknownCommand cmd), s1)
         | Some h \<Rightarrow>
             (case run_command fe w s1 h args of
                Inl e \<Rightarrow> (Inl e, s1)
              | Inr v \<Rightarrow> (Inr v, case v of JStr m \<Rightarrow> emit [ShowMessageInfo m] s1 | _ \<Rightarrow> s1)))"

text \<open>The lenses found before an error are returned with it.\<close>

fun lens_loop ::
    "('w \<Rightarrow> uri \<Rightarrow> u32 \<Rightarrow> v1_checker \<Rightarrow> (string, code_lens list) result) list \<Rightarrow> 'w \<Rightarrow> uri \<Rightarrow> u32 \<Rightarrow>
     v1_checker \<Rightarrow> code_lens list \<Rightarrow> code_lens list \<times> string option" where
  "lens_loop [] w u version c ls = (ls, None)"
| "lens_loop (p # ps) w u version c ls =
     (case p w u version c of
        Inl e \<Rightarrow> (ls, Some e)
      | Inr l \<Rightarrow> lens_loop ps w u version c (ls @ l))"

definition v1_code_lens :: "'w \<Rightarrow> 'w v1_server \<Rightarrow> uri \<Rightarrow> code_lens list \<times> string option" where
  "v1_code_lens w s u =
     (case v1_checker_for_document w s u of
        None \<Rightarrow> ([], None)
      | Some c \<Rightarrow>
          (let version = (case doc_get (vs_documents s) u of None \<Rightarrow> 0 | Some d \<Rightarrow> doc_version d)
           in lens_loop (vs_lens_providers s) w u version c []))"

section \<open>Code actions\<close>

text \<open>
  The resolvers named by the diagnostics of the request, then the refactorings when the action was
  invoked. \<open>parse\<close> is \<^verbatim>\<open>uuid.Parse\<close>; the data of a request's diagnostic is a string or not.
\<close>

fun resolve_actions ::
    "kind_info list \<Rightarrow> (string \<Rightarrow> nat option) \<Rightarrow> 'w \<Rightarrow> 'w v1_server \<Rightarrow> (nat, v1_resolver) gomap \<Rightarrow>
     string option list \<Rightarrow> v1_action list \<Rightarrow> v1_action list option" where
  "resolve_actions kinds parse w s m [] acts = Some acts"
| "resolve_actions kinds parse w s m (data # rest) acts =
     (case data of
        None \<Rightarrow> resolve_actions kinds parse w s m rest acts
      | Some str \<Rightarrow>
          (case parse str of
             None \<Rightarrow> resolve_actions kinds parse w s m rest acts
           | Some i \<Rightarrow>
               (case map_of m i of
                  None \<Rightarrow> resolve_actions kinds parse w s m rest acts
                | Some r \<Rightarrow>
                    (case run_resolver kinds w s r of
                       None \<Rightarrow> None
                     | Some as \<Rightarrow> resolve_actions kinds parse w s m rest (acts @ as)))))"

definition action_of_split :: "code_action \<Rightarrow> v1_action" where
  "action_of_split a =
     \<lparr>va_title = ca_title a, va_kind = ca_kind a, va_diagnostics = [], va_edit = ca_edit a, va_preferred = False\<rparr>"

definition v1_code_action ::
    "kind_info list \<Rightarrow> (string \<Rightarrow> nat option) \<Rightarrow> 'w \<Rightarrow> 'w v1_server \<Rightarrow> uri \<Rightarrow> range \<Rightarrow> string option list \<Rightarrow>
     bool \<Rightarrow> v1_action list option" where
  "v1_code_action kinds parse w s u req datas invoked =
     (case v1_checker_for_document w s u of
        None \<Rightarrow> Some []
      | Some c \<Rightarrow>
          (let doc = (case doc_get (vs_documents s) u of None \<Rightarrow> \<lparr>doc_text = '''', doc_version = 0\<rparr> | Some d \<Rightarrow> d);
               m = (case map_of (vs_action_resolvers s) u of None \<Rightarrow> [] | Some m \<Rightarrow> m)
           in case resolve_actions kinds parse w s m datas [] of
                None \<Rightarrow> None
              | Some acts \<Rightarrow>
                  (if invoked
                   then case inspect (\<lambda>node acc. (split_visit u doc req node acc, True))
                               (prg_tree (chk_program c)) (Some []) of
                          None \<Rightarrow> None
                        | Some splits \<Rightarrow> Some (acts @ map action_of_split splits)
                   else Some acts)))"

section \<open>Diagnostics with data have resolvers\<close>

definition resolver_at :: "'w v1_server \<Rightarrow> uri \<Rightarrow> nat \<Rightarrow> v1_resolver option" where
  "resolver_at s u i = (case map_of (vs_action_resolvers s) u of None \<Rightarrow> None | Some m \<Rightarrow> map_of m i)"

text \<open>Every diagnostic with data has a resolver, which edits the document alone.\<close>

definition covered :: "'w v1_server \<Rightarrow> uri \<Rightarrow> lsp_diagnostic list \<Rightarrow> bool" where
  "covered s u ds \<longleftrightarrow>
     (\<forall>d \<in> set ds. \<forall>i. vd_data d = Some i \<longrightarrow> (\<exists>r. resolver_at s u i = Some r \<and> edits_document u r))"

lemma covered_simps [simp]:
  "covered s u []" "covered s u (ds @ es) \<longleftrightarrow> covered s u ds \<and> covered s u es"
  "covered s u [d] \<longleftrightarrow>
     (\<forall>i. vd_data d = Some i \<longrightarrow> (\<exists>r. resolver_at s u i = Some r \<and> edits_document u r))"
  by (auto simp: covered_def)

lemma resolver_at_fields [simp]:
  "resolver_at (emit es s) u i = resolver_at s u i"
  "resolver_at (s\<lparr>vs_cache := c\<rparr>) u i = resolver_at s u i"
  "resolver_at (s\<lparr>vs_documents := ds\<rparr>) u i = resolver_at s u i"
  "covered (emit es s) u xs = covered s u xs" "covered (s\<lparr>vs_cache := c\<rparr>) u xs = covered s u xs"
  "covered (s\<lparr>vs_documents := ds\<rparr>) u xs = covered s u xs"
  by (simp_all add: resolver_at_def emit_def covered_def)

lemma error_resolver_document:
  "error_resolver w s d u k = Some r \<Longrightarrow> edits_document u r"
  by (auto simp: error_resolver_def maybe_return_type_change_def maybe_add_missing_members_def Let_def
      split: v1_error_kind.splits option.splits if_splits)

lemma convert_error_document:
  assumes "snd (convert_error w s e u) = Some r"
  shows "edits_document u r"
  using assms
  by (auto simp: convert_error_def Let_def combine_resolvers_def dest: error_resolver_document
      split: option.splits)

lemma convert_lint_document: "snd (convert_lint l u) = Some r \<Longrightarrow> edits_document u r"
  by (auto simp: convert_lint_def Let_def split: if_splits)

lemma converted_without_data [simp]:
  "vd_data (fst (convert_error w s e u)) = None" "vd_data (fst (convert_lint l u)) = None"
  by (simp_all add: convert_error_def convert_lint_def Let_def)

text \<open>The diagnostics of a document that were published last.\<close>

fun note_published :: "uri \<Rightarrow> v1_event \<Rightarrow> lsp_diagnostic list option \<Rightarrow> lsp_diagnostic list option" where
  "note_published u (Published v ds) acc = (if v = u then Some ds else acc)"
| "note_published u _ acc = acc"

definition last_published :: "uri \<Rightarrow> 'w v1_server \<Rightarrow> lsp_diagnostic list option" where
  "last_published u s = fold (note_published u) (vs_out s) None"

lemma last_published_emit [simp]:
  "last_published u (emit es s) = fold (note_published u) es (last_published u s)"
  by (simp add: last_published_def emit_def)

lemma last_published_fields [simp]:
  "last_published u (s\<lparr>vs_cache := c\<rparr>) = last_published u s"
  "last_published u (s\<lparr>vs_documents := ds\<rparr>) = last_published u s"
  "last_published u (s\<lparr>vs_action_resolvers := m\<rparr>) = last_published u s"
  by (simp_all add: last_published_def)

text \<open>What is done for one document leaves the others alone and publishes nothing by itself.\<close>

definition framed :: "uri \<Rightarrow> 'w v1_server \<Rightarrow> 'w v1_server \<Rightarrow> bool" where
  "framed u s s1 \<longleftrightarrow>
     (\<forall>v i. v \<noteq> u \<longrightarrow> resolver_at s1 v i = resolver_at s v i) \<and>
     (\<forall>v. last_published v s1 = last_published v s) \<and>
     vs_diagnostic_providers s1 = vs_diagnostic_providers s"

lemma framed_refl [simp]: "framed u s s"
  by (simp add: framed_def)

lemma framed_trans [trans]: "framed u s s1 \<Longrightarrow> framed u s1 s2 \<Longrightarrow> framed u s s2"
  by (simp add: framed_def)

lemma providers_emit [simp]: "vs_diagnostic_providers (emit es s) = vs_diagnostic_providers s"
  by (simp add: emit_def)

lemma framed_simps [simp]:
  "framed u s (emit [LogParsed v] s1) = framed u s s1" "framed u s (emit [LogChecked v] s1) = framed u s s1"
  "framed u (emit [LogUnconvertible t] s) s1 = framed u s s1"
  "framed u s (s1\<lparr>vs_cache := c\<rparr>) = framed u s s1"
  by (simp_all add: framed_def)

text \<open>Attaching keeps the resolvers there are, up to the one it stores, and the other documents'.\<close>

lemma attach_covered:
  assumes "attach_resolver u dr s = (d, s1)" and "vd_data (fst dr) = None"
    and "\<forall>r. snd dr = Some r \<longrightarrow> edits_document u r"
  shows "covered s1 u [d]" and "covered s u ds \<Longrightarrow> covered s1 u ds"
    and "framed u s s1"
  using assms
  by (auto simp: attach_resolver_def resolver_at_def covered_def framed_def last_published_def
      update_conv' Let_def split: option.splits if_splits)

lemma covered_related:
  "covered s u [d\<lparr>vd_related := x\<rparr>] = covered s u [d]"
  by simp

lemma parent_diagnostics_covered:
  assumes "parent_diagnostics w u children ds s = (ds1, s1)" and "covered s u ds"
  shows "covered s1 u ds1 \<and> framed u s s1"
  using assms
proof (induction children arbitrary: ds s)
  case (Cons child children)
  show ?case
  proof (cases child)
    case (Convertible e)
    obtain d s2 where att: "attach_resolver u (convert_error w s e u) s = (d, s2)" by fastforce
    have doc: "\<forall>r. snd (convert_error w s e u) = Some r \<longrightarrow> edits_document u r"
      by (auto dest: convert_error_document)
    note cov = attach_covered [OF att converted_without_data(1) doc]
    let ?d = "d\<lparr>vd_related := vd_related d @ related_information u e\<rparr>"
    have "covered s2 u (ds @ [?d])"
      using cov(1,2) Cons.prems(2) by (simp del: covered_simps(3) add: covered_related)
    moreover have "parent_diagnostics w u children (ds @ [?d]) s2 = (ds1, s1)"
      using Cons.prems(1) by (simp add: Convertible att)
    ultimately show ?thesis using Cons.IH cov(3) framed_trans by metis
  next
    case (NotConvertible t m)
    then show ?thesis
      using Cons.prems Cons.IH [of ds "emit [LogUnconvertible t] s"] by simp
  qed
qed simp

lemma failure_diagnostics_covered:
  assumes "failure_diagnostics w u err ds s = (ds1, s1)" and "covered s u ds"
  shows "covered s1 u ds1 \<and> framed u s s1"
  using assms
  by (auto simp: failure_diagnostics_def split: option.splits v1_failure.splits
      dest!: parent_diagnostics_covered)

lemma lint_diagnostics_covered:
  assumes "lint_diagnostics u ls ds s = (ds1, s1)" and "covered s u ds"
  shows "covered s1 u ds1 \<and> framed u s s1"
  using assms
proof (induction ls arbitrary: ds s)
  case (Cons l ls)
  obtain d s2 where att: "attach_resolver u (convert_lint l u) s = (d, s2)" by fastforce
  have doc: "\<forall>r. snd (convert_lint l u) = Some r \<longrightarrow> edits_document u r"
    by (auto dest: convert_lint_document)
  note cov = attach_covered [OF att converted_without_data(2) doc]
  have "covered s2 u (ds @ [d])" using cov(1,2) Cons.prems(2) by simp
  moreover have "lint_diagnostics u ls (ds @ [d]) s2 = (ds1, s1)"
    using Cons.prems(1) by (simp add: att)
  ultimately show ?case using Cons.IH cov(3) framed_trans by metis
qed simp

text \<open>What providers add carries no data.\<close>

definition plain_provider :: "('w \<Rightarrow> uri \<Rightarrow> u32 \<Rightarrow> v1_checker \<Rightarrow> (string, lsp_diagnostic list) result) \<Rightarrow> bool" where
  "plain_provider p \<longleftrightarrow> (\<forall>w u v c ds. p w u v c = Inr ds \<longrightarrow> (\<forall>d \<in> set ds. vd_data d = None))"

lemma provider_loop_covered:
  "list_all plain_provider ps \<Longrightarrow> covered s u ds \<Longrightarrow> covered s u (fst (provider_loop ps w u version c ds))"
proof (induction ps arbitrary: ds)
  case (Cons p ps)
  show ?case
  proof (cases "p w u version c")
    case (Inr extra)
    then have "covered s u extra" using Cons.prems(1) by (auto simp: plain_provider_def covered_def)
    with Cons Inr show ?thesis by simp
  qed (use Cons in simp)
qed simp

lemma covered_framed: "framed u s s1 \<Longrightarrow> v \<noteq> u \<Longrightarrow> covered s1 v ds = covered s v ds"
  by (simp add: framed_def covered_def)

lemma check_parsed_covered:
  assumes run: "check_parsed fe w fuel u text version p ds s = Some (ds1, e, s1)"
    and cov: "covered s u ds" and plain: "list_all plain_provider (vs_diagnostic_providers s)"
  shows "covered s1 u ds1 \<and> framed u s s1"
proof (cases "vf_new_checker_error fe p (uri_to_location u)")
  case (Some e)
  with run cov show ?thesis by (auto simp: check_parsed_def Let_def)
next
  case None
  let ?prj = "vs_project_id s w u" and ?l = "uri_to_location u"
  obtain c err cch where check: "run_v1 (vf_check fe (decide_checker_config fe w s ?prj p) p ?l)
      (handle_location w s) (v1_handle_import fe w s (decide_checker_config fe w s ?prj p) ?prj fuel ?l)
      (vs_cache s) = Some ((c, err), cch)"
    using run None by (auto simp: check_parsed_def Let_def split: option.splits)
  define s0 where "s0 = emit [LogChecked u] (s\<lparr>vs_cache := checker_put cch (vs_root_key s ?prj u) c\<rparr>)"
  have s0: "covered s0 u ds" "framed u s s0"
    using cov by (simp_all add: s0_def)
  obtain ds2 s2 where fail: "failure_diagnostics w u err ds s0 = (ds2, s2)" by fastforce
  from failure_diagnostics_covered [OF this s0(1)]
  have s2: "covered s2 u ds2" "framed u s s2" using s0(2) framed_trans by blast+
  then have plain2: "list_all plain_provider (vs_diagnostic_providers s2)"
    using plain by (simp add: framed_def)
  obtain ds3 failed where prov:
    "provider_loop (vs_diagnostic_providers s2) w u version c ds2 = (ds3, failed)" by fastforce
  have ds3: "covered s2 u ds3" using provider_loop_covered [OF plain2 s2(1)] prov by (metis fst_conv)
  note unfold = run [unfolded check_parsed_def Let_def None option.case check prod.case,
      folded s0_def, unfolded fail prov prod.case]
  show ?thesis
  proof (cases failed)
    case (Some x)
    with unfold ds3 s2(2) show ?thesis by simp
  next
    case None
    obtain ds4 s4 where lint: "lint_diagnostics u (vf_lint fe c text) ds3 s2 = (ds4, s4)" by fastforce
    have "ds1 = ds4" "s1 = s4" using unfold None by (simp_all add: lint)
    with lint_diagnostics_covered [OF lint ds3] s2(2) framed_trans show ?thesis by blast
  qed
qed

lemma get_diagnostics_covered:
  assumes run: "get_diagnostics fe w fuel u text version s = Some (ds1, e, s1)"
    and plain: "list_all plain_provider (vs_diagnostic_providers s)"
  shows "covered s1 u ds1 \<and> framed u s s1"
proof -
  define s0 where "s0 = emit [LogParsed u] (s\<lparr>vs_action_resolvers := AList.update u [] (vs_action_resolvers s)\<rparr>)"
  have s0: "framed u s s0"
    by (simp add: s0_def) (simp add: framed_def resolver_at_def update_conv')
  obtain prog perr where parse: "vf_parse fe text = (prog, perr)" by fastforce
  obtain ds s2 where fail: "failure_diagnostics w u perr [] s0 = (ds, s2)" by fastforce
  from failure_diagnostics_covered [OF this]
  have s2: "covered s2 u ds" "framed u s s2" using s0 framed_trans by auto
  note unfold = run [unfolded get_diagnostics_def Let_def parse prod.case, folded s0_def,
      unfolded fail prod.case]
  show ?thesis
  proof (cases prog)
    case None
    have "ds1 = ds" "s1 = s2\<lparr>vs_cache := checker_delete (vs_cache s2) (root_key s2 w u)\<rparr>"
      using unfold None by simp_all
    with s2 show ?thesis by simp
  next
    case (Some p)
    have "check_parsed fe w fuel u text version p ds s2 = Some (ds1, e, s1)"
      using unfold Some by simp
    from check_parsed_covered [OF this s2(1)] s2(2) plain framed_trans show ?thesis
      by (auto simp: framed_def)
  qed
qed

text \<open>The state after a check: the diagnostics published for the document are covered.\<close>

definition actions_inv :: "'w v1_server \<Rightarrow> bool" where
  "actions_inv s \<longleftrightarrow>
     list_all plain_provider (vs_diagnostic_providers s) \<and>
     (\<forall>u ds. last_published u s = Some ds \<longrightarrow> covered s u ds)"

lemma check_and_publish_inv:
  assumes run: "check_and_publish fe w fuel u text version s = Some s1" and inv: "actions_inv s"
  shows "actions_inv s1"
proof -
  obtain ds e s0 where g: "get_diagnostics fe w fuel u text version s = Some (ds, e, s0)"
    and s1: "s1 = emit [Published u ds, CheckCompleted u (valid_loop ds)] s0"
    using run by (auto simp: check_and_publish_def split: option.splits)
  from get_diagnostics_covered [OF g] inv
  have cov: "covered s0 u ds" and fr: "framed u s s0" by (auto simp: actions_inv_def)
  have "last_published v s1 = (if v = u then Some ds else last_published v s)" for v
    using fr by (simp add: s1 framed_def)
  moreover have "covered s1 v es = covered s0 v es" for v es by (simp add: s1)
  moreover have "vs_diagnostic_providers s1 = vs_diagnostic_providers s"
    using fr by (simp add: s1 framed_def emit_def)
  ultimately show ?thesis
    using inv cov covered_framed [OF fr] by (auto simp: actions_inv_def)
qed

end
