(* ===== verification/V1Imports.thy ===== *)
theory V1Imports
  imports V1Checks
begin

text \<open>
  What the first server's import handler does with its cache
  (\<^verbatim>\<open>handleImport\<close> in src/languageserver/server/server.go): entries are added and never
  replaced by an import; a document that is open answers the imports of its file; imports return
  when files import downwards in some ranking, and never return on a cycle of files that are not
  in the cache.
\<close>

section \<open>The cache only grows\<close>

definition extends :: "checker_cache \<Rightarrow> checker_cache \<Rightarrow> bool" where
  "extends m m1 \<longleftrightarrow> (\<forall>k c. checker_get m k = Some c \<longrightarrow> checker_get m1 k = Some c)"

lemma extends_refl [simp]: "extends m m" and extends_trans: "extends m m1 \<Longrightarrow> extends m1 m2 \<Longrightarrow> extends m m2"
  by (auto simp: extends_def)

lemma extends_put: "checker_get m k = None \<Longrightarrow> extends m m1 \<Longrightarrow> checker_get m1 k = None \<or> m1 = m \<Longrightarrow> extends m (checker_put m1 k c)"
  by (auto simp: extends_def)

text \<open>A relation that every import respects is respected by the run.\<close>

lemma run_v1_rel:
  assumes "\<And>l m r m1. imp l m = Some (r, m1) \<Longrightarrow> R m m1"
    and "\<And>m. R m m" and "\<And>a b c. R a b \<Longrightarrow> R b c \<Longrightarrow> R a c"
  shows "run_v1 run loc imp m = Some (x, m1) \<Longrightarrow> R m m1"
proof (induction run arbitrary: m)
  case (VLocation ids l k)
  then show ?case by (auto split: option.splits)
next
  case (VImport l k)
  then obtain r m2 where "imp l m = Some (r, m2)" "run_v1 (k r) loc imp m2 = Some (x, m1)"
    by (auto split: option.splits)
  then show ?case using VImport.IH assms(1,3) by blast
qed (use assms(2) in auto)

text \<open>The cases in which the handler answers without checking the imported program.\<close>

definition import_target :: "location \<Rightarrow> location \<Rightarrow> location" where
  "import_target parent l = (if is_path_location l then normalize_path_location parent l else l)"

definition builtin_location :: "'prog v1_front \<Rightarrow> location \<Rightarrow> bool" where
  "builtin_location fe l \<longleftrightarrow> l = vf_test_location fe \<or> l = vf_helpers_location fe"

definition own_import :: "location \<Rightarrow> location \<Rightarrow> bool" where
  "own_import parent l \<longleftrightarrow> is_path_location l \<and> parent = import_target parent l"

lemma handle_import_cached:
  assumes "\<not> builtin_location fe l" and "\<not> own_import parent l"
    and "checker_get cch \<lparr>key_project = project, key_location = import_target parent l\<rparr> = Some c"
  shows "v1_handle_import fe w s cfg project (Suc n) parent l cch = Some (Imported c, cch)"
  using assms
  by (simp add: builtin_location_def own_import_def import_target_def Let_def)

lemma handle_import_checked:
  assumes "\<not> builtin_location fe l" and "\<not> own_import parent l"
    and "checker_get cch \<lparr>key_project = project, key_location = import_target parent l\<rparr> = None"
    and "v1_resolve_import fe w s project (import_target parent l) = (Some p, None)"
    and "vf_sub_checker_error fe p (import_target parent l) = None"
  shows "v1_handle_import fe w s cfg project (Suc n) parent l cch =
    (case run_v1 (vf_check fe cfg p (import_target parent l)) (handle_location w s)
            (v1_handle_import fe w s cfg project n (import_target parent l)) cch of
       None \<Rightarrow> None
     | Some ((c, Some e), m1) \<Rightarrow> Some (ImportFailed e, m1)
     | Some ((c, None), m1) \<Rightarrow>
         Some (Imported c, checker_put m1 \<lparr>key_project = project, key_location = import_target parent l\<rparr> c))"
  using assms unfolding builtin_location_def own_import_def import_target_def
  by (cases "is_path_location l") (simp_all add: Let_def)

text \<open>What the handler does is one of: an answer that leaves the cache, no answer, or a checked import.\<close>

lemma handle_import_answered:
  assumes "builtin_location fe l \<or> own_import parent l"
  shows "\<exists>r. v1_handle_import fe w s cfg project (Suc n) parent l cch = Some (r, cch)"
  using assms by (auto simp: builtin_location_def own_import_def import_target_def Let_def)

lemma handle_import_refused:
  assumes "\<not> builtin_location fe l" and "\<not> own_import parent l"
    and "checker_get cch \<lparr>key_project = project, key_location = import_target parent l\<rparr> = None"
    and "v1_resolve_import fe w s project (import_target parent l) = (prog, err)"
    and "err \<noteq> None \<or> prog = None \<or> vf_sub_checker_error fe (the prog) (import_target parent l) \<noteq> None"
  shows "\<exists>r. v1_handle_import fe w s cfg project (Suc n) parent l cch = Some (r, cch)"
  using assms unfolding builtin_location_def own_import_def import_target_def
  by (cases "is_path_location l"; cases err; cases prog) (auto simp: Let_def)

declare v1_handle_import.simps(2) [simp del]

lemma handle_import_cases:
  obtains (Same) r where "v1_handle_import fe w s cfg project (Suc n) parent l cch = Some (r, cch)"
  | (Checked) p where "\<not> builtin_location fe l" "\<not> own_import parent l"
      "checker_get cch \<lparr>key_project = project, key_location = import_target parent l\<rparr> = None"
      "v1_resolve_import fe w s project (import_target parent l) = (Some p, None)"
      "vf_sub_checker_error fe p (import_target parent l) = None"
proof (cases "builtin_location fe l \<or> own_import parent l")
  case True
  from handle_import_answered [OF this, of w s cfg project n cch] obtain r where
    "v1_handle_import fe w s cfg project (Suc n) parent l cch = Some (r, cch)" by blast
  then show thesis by (rule Same)
next
  case False
  let ?l = "import_target parent l"
  obtain prog err where res: "v1_resolve_import fe w s project ?l = (prog, err)" by fastforce
  show thesis
  proof (cases "checker_get cch \<lparr>key_project = project, key_location = ?l\<rparr>")
    case (Some c)
    have "v1_handle_import fe w s cfg project (Suc n) parent l cch = Some (Imported c, cch)"
      using handle_import_cached [OF _ _ Some, of fe w s cfg n] False by blast
    then show thesis by (rule Same)
  next
    case none: None
    show thesis
    proof (cases "err \<noteq> None \<or> prog = None \<or> vf_sub_checker_error fe (the prog) ?l \<noteq> None")
      case True
      from handle_import_refused [OF _ _ none res this, of cfg n] False obtain r where
        "v1_handle_import fe w s cfg project (Suc n) parent l cch = Some (r, cch)" by blast
      then show thesis by (rule Same)
    next
      case refused: False
      with False none res show thesis by (intro Checked [of "the prog"]) auto
    qed
  qed
qed

lemma handle_import_extends:
  "v1_handle_import fe w s cfg project n parent l m = Some (r, m1) \<Longrightarrow> extends m m1"
proof (induction n arbitrary: parent l m r m1)
  case (Suc n)
  show ?case
  proof (cases rule: handle_import_cases [of fe w s cfg project n parent l m])
    case (Same r)
    then show ?thesis using Suc.prems by simp
  next
    case (Checked p)
    let ?l = "import_target parent l"
    from Suc.prems [unfolded handle_import_checked [OF Checked]]
    obtain c e m2 where run: "run_v1 (vf_check fe cfg p ?l) (handle_location w s)
        (v1_handle_import fe w s cfg project n ?l) m = Some ((c, e), m2)"
      and m1: "m1 = (case e of None \<Rightarrow> checker_put m2 \<lparr>key_project = project, key_location = ?l\<rparr> c | Some _ \<Rightarrow> m2)"
      by (auto split: option.splits)
    have ext: "extends m m2"
      by (rule run_v1_rel [OF _ _ _ run, of extends]) (auto intro: Suc.IH extends_trans)
    show ?thesis
      using ext Checked(3) by (auto simp: m1 extends_def split: option.splits)
  qed
qed simp

section \<open>What a check leaves alone\<close>

text \<open>Making diagnostics changes the tables of resolvers and the messages, nothing else.\<close>

definition only_diagnostics :: "'w v1_server \<Rightarrow> 'w v1_server \<Rightarrow> bool" where
  "only_diagnostics s s1 \<longleftrightarrow>
     (\<exists>m n es. s1 = s\<lparr>vs_action_resolvers := m, vs_next_uuid := n, vs_out := es\<rparr>)"

lemma only_diagnostics_refl [simp]: "only_diagnostics s s"
  by (cases s) (auto simp: only_diagnostics_def)

lemma only_diagnostics_trans: "only_diagnostics s s1 \<Longrightarrow> only_diagnostics s1 s2 \<Longrightarrow> only_diagnostics s s2"
  by (cases s) (auto simp: only_diagnostics_def)

lemma only_diagnostics_emit: "only_diagnostics s (emit es s)"
  by (cases s) (auto simp: only_diagnostics_def emit_def)

lemma only_diagnostics_fields:
  assumes "only_diagnostics s s1"
  shows "vs_cache s1 = vs_cache s" "vs_root_key s1 = vs_root_key s" "vs_project_id s1 = vs_project_id s"
    "root_key s1 w u = root_key s w u" "vs_documents s1 = vs_documents s"
    "vs_diagnostic_providers s1 = vs_diagnostic_providers s"
  using assms by (auto simp: only_diagnostics_def root_key_def)

lemma attach_only: "attach_resolver u dr s = (d, s1) \<Longrightarrow> only_diagnostics s s1"
  by (cases s) (auto simp: attach_resolver_def only_diagnostics_def Let_def split: option.splits)

lemma parent_diagnostics_only: "parent_diagnostics w u cs ds s = (ds1, s1) \<Longrightarrow> only_diagnostics s s1"
proof (induction cs arbitrary: ds s)
  case (Cons child cs)
  show ?case
  proof (cases child)
    case (Convertible e)
    obtain d s2 where att: "attach_resolver u (convert_error w s e u) s = (d, s2)" by fastforce
    with Cons Convertible attach_only [OF att] show ?thesis by (auto intro: only_diagnostics_trans)
  next
    case (NotConvertible t m)
    with Cons show ?thesis by (auto intro: only_diagnostics_trans [OF only_diagnostics_emit])
  qed
qed simp

lemma failure_diagnostics_only: "failure_diagnostics w u err ds s = (ds1, s1) \<Longrightarrow> only_diagnostics s s1"
  by (auto simp: failure_diagnostics_def parent_diagnostics_only split: option.splits v1_failure.splits)

lemma lint_diagnostics_only: "lint_diagnostics u ls ds s = (ds1, s1) \<Longrightarrow> only_diagnostics s s1"
proof (induction ls arbitrary: ds s)
  case (Cons l ls)
  obtain d s2 where att: "attach_resolver u (convert_lint l u) s = (d, s2)" by fastforce
  with Cons attach_only [OF att] show ?case by (auto intro: only_diagnostics_trans)
qed simp

text \<open>
  The cache after a check: what the imports left, with the checker of the document under its key
  when there is one; without a program the entry of the document is deleted.
\<close>

lemma check_parsed_cache:
  assumes "check_parsed fe w fuel u text version p ds s = Some (ds1, e, s1)"
  shows "(vf_new_checker_error fe p (uri_to_location u) \<noteq> None \<and> s1 = s) \<or>
     (vf_new_checker_error fe p (uri_to_location u) = None \<and>
      (\<exists>c m. extends (vs_cache s) m \<and> vs_cache s1 = checker_put m (root_key s w u) c \<and>
        only_diagnostics (s\<lparr>vs_cache := vs_cache s1\<rparr>) s1))"
proof (cases "vf_new_checker_error fe p (uri_to_location u)")
  case (Some x)
  with assms show ?thesis by (auto simp: check_parsed_def Let_def)
next
  case None
  let ?prj = "vs_project_id s w u" and ?l = "uri_to_location u"
  let ?cfg = "decide_checker_config fe w s ?prj p"
  from assms None obtain c err m where
    run: "run_v1 (vf_check fe ?cfg p ?l) (handle_location w s)
        (v1_handle_import fe w s ?cfg ?prj fuel ?l) (vs_cache s) = Some ((c, err), m)"
    by (auto simp: check_parsed_def Let_def split: option.splits)
  have ext: "extends (vs_cache s) m"
    by (rule run_v1_rel [OF _ _ _ run, of extends]) (auto intro: handle_import_extends extends_trans)
  define s0 where "s0 = emit [LogChecked u] (s\<lparr>vs_cache := checker_put m (vs_root_key s ?prj u) c\<rparr>)"
  obtain ds2 s2 where fail: "failure_diagnostics w u err ds s0 = (ds2, s2)" by fastforce
  obtain ds3 failed where prov:
    "provider_loop (vs_diagnostic_providers s2) w u version c ds2 = (ds3, failed)" by fastforce
  obtain ds4 s4 where lint: "lint_diagnostics u (vf_lint fe c text) ds3 s2 = (ds4, s4)" by fastforce
  note unfold = assms [unfolded check_parsed_def Let_def None option.case run prod.case,
      folded s0_def, unfolded fail prov prod.case]
  have "s1 = s2 \<or> s1 = s4" using unfold by (cases failed) (simp_all add: lint)
  then have only: "only_diagnostics s0 s1"
    using failure_diagnostics_only [OF fail] lint_diagnostics_only [OF lint] only_diagnostics_trans by blast
  then have "vs_cache s1 = checker_put m (root_key s w u) c"
    by (simp add: only_diagnostics_fields s0_def emit_def root_key_def)
  moreover from this have "s0 = emit [LogChecked u] (s\<lparr>vs_cache := vs_cache s1\<rparr>)"
    by (simp add: s0_def root_key_def)
  then have "only_diagnostics (s\<lparr>vs_cache := vs_cache s1\<rparr>) s1"
    using only only_diagnostics_emit only_diagnostics_trans by metis
  ultimately show ?thesis using ext None by blast
qed

lemma get_diagnostics_cache:
  assumes "get_diagnostics fe w fuel u text version s = Some (ds, e, s1)"
  shows "only_diagnostics (s\<lparr>vs_cache := vs_cache s1\<rparr>) s1 \<and>
    (case fst (vf_parse fe text) of
       None \<Rightarrow> vs_cache s1 = checker_delete (vs_cache s) (root_key s w u)
     | Some p \<Rightarrow>
         if vf_new_checker_error fe p (uri_to_location u) = None
         then \<exists>c m. extends (vs_cache s) m \<and> vs_cache s1 = checker_put m (root_key s w u) c
         else vs_cache s1 = vs_cache s)"
proof -
  define s0 where "s0 = emit [LogParsed u] (s\<lparr>vs_action_resolvers := AList.update u [] (vs_action_resolvers s)\<rparr>)"
  have s0: "only_diagnostics s s0"
    by (cases s) (auto simp: s0_def only_diagnostics_def emit_def)
  obtain prog perr where parse: "vf_parse fe text = (prog, perr)" by fastforce
  obtain ds2 s2 where fail: "failure_diagnostics w u perr [] s0 = (ds2, s2)" by fastforce
  have s2: "only_diagnostics s s2"
    using failure_diagnostics_only [OF fail] s0 only_diagnostics_trans by blast
  have put: "only_diagnostics (s\<lparr>vs_cache := x\<rparr>) (s2\<lparr>vs_cache := x\<rparr>)" for x
    using s2 by (cases s) (auto simp: only_diagnostics_def)
  note fields = only_diagnostics_fields [OF s2]
  note unfold = assms [unfolded get_diagnostics_def Let_def parse prod.case, folded s0_def,
      unfolded fail prod.case]
  show ?thesis
  proof (cases prog)
    case None
    with unfold have s1: "s1 = s2\<lparr>vs_cache := checker_delete (vs_cache s2) (root_key s2 w u)\<rparr>" by simp
    then show ?thesis using None put fields parse by simp
  next
    case (Some p)
    with unfold have "check_parsed fe w fuel u text version p ds2 s2 = Some (ds, e, s1)" by simp
    from check_parsed_cache [OF this] show ?thesis
    proof (elim disjE conjE)
      assume "vf_new_checker_error fe p (uri_to_location u) \<noteq> None" "s1 = s2"
      then show ?thesis using Some parse s2 fields(1) by auto
    next
      assume "vf_new_checker_error fe p (uri_to_location u) = None"
        and "\<exists>c m. extends (vs_cache s2) m \<and> vs_cache s1 = checker_put m (root_key s2 w u) c \<and>
          only_diagnostics (s2\<lparr>vs_cache := vs_cache s1\<rparr>) s1"
      then show ?thesis using Some parse put [of "vs_cache s1"] fields only_diagnostics_trans by auto
    qed
  qed
qed

section \<open>Properties of imports\<close>

lemma check_and_publish_cache:
  assumes "check_and_publish fe w fuel u text version s = Some s1"
  shows "\<exists>ds e s0. get_diagnostics fe w fuel u text version s = Some (ds, e, s0) \<and>
     vs_cache s1 = vs_cache s0 \<and> vs_root_key s1 = vs_root_key s \<and> vs_project_id s1 = vs_project_id s \<and>
     vs_documents s1 = vs_documents s"
proof -
  obtain ds e s0 where g: "get_diagnostics fe w fuel u text version s = Some (ds, e, s0)"
    and s1: "s1 = emit [Published u ds, CheckCompleted u (valid_loop ds)] s0"
    using assms by (auto simp: check_and_publish_def split: option.splits)
  from get_diagnostics_cache [OF g] have "only_diagnostics (s\<lparr>vs_cache := vs_cache s0\<rparr>) s0" by blast
  from only_diagnostics_fields [OF this] show ?thesis
    unfolding s1 emit_def by (intro exI [of _ ds] exI [of _ e] exI [of _ s0]) (simp add: g)
qed

text \<open>
  C18. An open document answers the imports of its file: after a document whose program parses is opened,
  an import of its location in its project gives the checker of the editor's text at once, without
  asking the resolvers, and whether or not that check had errors. (A file that is not open is
  resolved and checked, and its errors fail the import.)
\<close>

theorem open_document_answers_imports:
  assumes opened: "v1_did_open fe w fuel s u text version = Some s1"
    and parsed: "fst (vf_parse fe text) = Some p" and new: "vf_new_checker_error fe p (uri_to_location u) = None"
    and key: "root_key s w u = \<lparr>key_project = project, key_location = import_target parent l\<rparr>"
    and location: "\<not> builtin_location fe l" "\<not> own_import parent l"
  shows "\<exists>c. v1_checker_for_document w s1 u = Some c \<and>
    v1_handle_import fe w2 s2 cfg project (Suc n) parent l (vs_cache s1) = Some (Imported c, vs_cache s1)"
proof -
  define s0 where "s0 = (case vs_on_did_open (s\<lparr>vs_documents := doc_set (vs_documents s) u text version\<rparr>) of
       None \<Rightarrow> s\<lparr>vs_documents := doc_set (vs_documents s) u text version\<rparr>
     | Some h \<Rightarrow> emit (map HookMessage (h w u text)) (s\<lparr>vs_documents := doc_set (vs_documents s) u text version\<rparr>))"
  have s0: "vs_root_key s0 = vs_root_key s" "vs_project_id s0 = vs_project_id s"
    by (simp_all add: s0_def emit_def split: option.split)
  then have key0: "root_key s0 w u = root_key s w u" by (simp add: root_key_def)
  have "check_and_publish fe w fuel u text version s0 = Some s1"
    using opened by (simp add: v1_did_open_def s0_def Let_def)
  from check_and_publish_cache [OF this] obtain ds e s3 where
    g: "get_diagnostics fe w fuel u text version s0 = Some (ds, e, s3)" and c1: "vs_cache s1 = vs_cache s3"
    and f1: "vs_root_key s1 = vs_root_key s0" "vs_project_id s1 = vs_project_id s0" by blast
  have key1: "root_key s1 w u = root_key s w u" using f1 s0 by (simp add: root_key_def)
  from get_diagnostics_cache [OF g] parsed new obtain c m where
    "vs_cache s3 = checker_put m (root_key s w u) c" by (auto simp: key0)
  then have got: "checker_get (vs_cache s1) (root_key s w u) = Some c" by (simp add: c1)
  then show ?thesis
    using handle_import_cached [OF location] key1 key
    by (auto simp: v1_checker_for_document_def)
qed

text \<open>The imports that a run may ask for, whatever it is answered.\<close>

primrec v1_requests :: "v1_run \<Rightarrow> location set" where
  "v1_requests (VDone c e) = {}"
| "v1_requests (VLocation ids l k) = (\<Union>ls. v1_requests (k ls))"
| "v1_requests (VImport l k) = insert l (\<Union>r. v1_requests (k r))"

lemma run_v1_total:
  assumes loc: "\<And>ids l. loc ids l \<noteq> None"
  shows "(\<And>l m. l \<in> v1_requests run \<Longrightarrow> imp l m \<noteq> None) \<Longrightarrow> run_v1 run loc imp m \<noteq> None"
proof (induction run arbitrary: m)
  case (VLocation ids l k)
  obtain ls where "loc ids l = Some ls" using loc [of ids l] by blast
  with VLocation show ?case by fastforce
next
  case (VImport l k)
  from VImport.prems [of l m] obtain r m2 where imp: "imp l m = Some (r, m2)" by fastforce
  have "run_v1 (k r) loc imp m2 \<noteq> None"
  proof (rule VImport.IH)
    fix l' m' assume "l' \<in> v1_requests (k r)"
    then have "l' \<in> v1_requests (VImport l k)" by auto
    then show "imp l' m' \<noteq> None" by (rule VImport.prems)
  qed simp
  with imp show ?case by simp
qed simp

text \<open>
  Files import downwards: a rank falls from the location of every file that resolves to the targets
  of the imports which checking it may ask for.
\<close>

definition ranked_files ::
    "'prog v1_front \<Rightarrow> 'w \<Rightarrow> 'w v1_server \<Rightarrow> check_config \<Rightarrow> string \<Rightarrow> (location \<Rightarrow> nat) \<Rightarrow> bool" where
  "ranked_files fe w s cfg project rank \<longleftrightarrow>
     (\<forall>l p. v1_resolve_import fe w s project l = (Some p, None) \<longrightarrow>
        (\<forall>x \<in> v1_requests (vf_check fe cfg p l). rank (import_target l x) < rank l))"

text \<open>
  C37. Imports end: when files import downwards and the names of an address's contracts can be resolved,
  the import handler returns, with the rank of the import's target as the depth that is enough.
\<close>

theorem v1_imports_return:
  assumes "ranked_files fe w s cfg project rank" and "\<forall>ids x. handle_location w s ids x \<noteq> None"
    and "rank (import_target parent l) < n"
  shows "v1_handle_import fe w s cfg project n parent l cch \<noteq> None"
  using assms(3)
proof (induction n arbitrary: parent l cch)
  case (Suc n)
  show ?case
  proof (cases rule: handle_import_cases [of fe w s cfg project n parent l cch])
    case (Checked p)
    let ?l = "import_target parent l"
    have "run_v1 (vf_check fe cfg p ?l) (handle_location w s)
        (v1_handle_import fe w s cfg project n ?l) cch \<noteq> None"
    proof (rule run_v1_total)
      fix x m assume "x \<in> v1_requests (vf_check fe cfg p ?l)"
      then have "rank (import_target ?l x) < rank ?l"
        using assms(1) Checked(4) unfolding ranked_files_def by blast
      with Suc show "v1_handle_import fe w s cfg project n ?l x m \<noteq> None" by auto
    qed (use assms(2) in blast)
    then show ?thesis
      unfolding handle_import_checked [OF Checked] by (auto split: option.splits)
  qed simp
qed simp

text \<open>A set of files each of which first imports another one of the set.\<close>

definition cyclic_files ::
    "'prog v1_front \<Rightarrow> 'w \<Rightarrow> 'w v1_server \<Rightarrow> check_config \<Rightarrow> string \<Rightarrow> location set \<Rightarrow> bool" where
  "cyclic_files fe w s cfg project L \<longleftrightarrow>
     (\<forall>l \<in> L. \<exists>p x k. v1_resolve_import fe w s project l = (Some p, None) \<and>
        vf_sub_checker_error fe p l = None \<and> vf_check fe cfg p l = VImport x k \<and>
        \<not> builtin_location fe x \<and> \<not> own_import l x \<and> import_target l x \<in> L)"

text \<open>
  On a cycle of two or more files, none of which is in the cache, the import handler never returns:
  it checks the next file for every file it checks, and the guard against importing the current file
  sees only the direct import of a file by itself. (The second server has the same fault.)
\<close>

theorem v1_import_cycle_never_returns:
  assumes cyc: "cyclic_files fe w s cfg project L"
    and fresh: "\<forall>l \<in> L. checker_get cch \<lparr>key_project = project, key_location = l\<rparr> = None"
    and l: "import_target parent l \<in> L" "\<not> builtin_location fe l" "\<not> own_import parent l"
  shows "v1_handle_import fe w s cfg project n parent l cch = None"
  using l
proof (induction n arbitrary: parent l)
  case (Suc n)
  let ?l = "import_target parent l"
  from cyc Suc.prems(1) obtain p x k where
    step: "v1_resolve_import fe w s project ?l = (Some p, None)" "vf_sub_checker_error fe p ?l = None"
      "vf_check fe cfg p ?l = VImport x k" "\<not> builtin_location fe x" "\<not> own_import ?l x"
      "import_target ?l x \<in> L"
    unfolding cyclic_files_def by blast
  have "v1_handle_import fe w s cfg project n ?l x cch = None" using Suc.IH step(4-6) by blast
  then show ?case
    using handle_import_checked [OF Suc.prems(2,3) _ step(1,2)] fresh Suc.prems(1) step(3) by simp
qed simp

section \<open>Examples\<close>

text \<open>
  A front end for the closed examples: a source is its own program; a program that is the text of a
  path imports that file and nothing else; a program starting with an exclamation mark fails. The
  file system has the files \<open>/a.cdc\<close>, which imports \<open>/b.cdc\<close>; \<open>files\<close> gives the text of the others.
\<close>

definition demo_run :: "string \<Rightarrow> v1_run" where
  "demo_run text =
     (if has_prefix text ''/'' then VImport (StringLocation text) (\<lambda>r. VDone (tree_checker (VNode 0 KElement []))
        (case r of Imported c \<Rightarrow> None | ImportFailed e \<Rightarrow> Some e))
      else VDone (tree_checker (VNode 1 KElement [])) (if has_prefix text ''!'' then Some (PlainFailure text) else None))"

definition demo_front :: "string v1_front" where
  "demo_front =
     \<lparr>vf_parse = (\<lambda>t. (Some t, None)), vf_sole_transaction = (\<lambda>_. False), vf_sole_contract = (\<lambda>_. True),
      vf_new_checker_error = (\<lambda>_ _. None), vf_sub_checker_error = (\<lambda>_ _. None),
      vf_check = (\<lambda>cfg p l. demo_run p), vf_lint = (\<lambda>_ _. []),
      vf_test_location = IdentifierLocation ''Test'', vf_test_checker = tree_checker (VNode 2 KElement []),
      vf_helpers_location = StringLocation ''BlockchainHelpers'',
      vf_helpers_checker = tree_checker (VNode 3 KElement []), vf_location_string = (\<lambda>l. ''?''),
      vf_parse_literal = (\<lambda>t p. Inr (JStr t))\<rparr>"

definition file_server :: "(string \<Rightarrow> string) v1_server" where
  "file_server =
     (fresh_server [] [])\<lparr>vs_resolve_string := Some (\<lambda>files project l. case l of
        StringLocation p \<Rightarrow> Inr (files p) | _ \<Rightarrow> Inl ''no file'')\<rparr>"

definition demo_config :: check_config where
  "demo_config = \<lparr>cfg_values = [], cfg_access_mode = AccessStrict, cfg_account_access = None\<rparr>"

definition broken_files :: "string \<Rightarrow> string" where
  "broken_files p = (if p = ''/a.cdc'' then ''/b.cdc'' else ''!'')"

definition opened_server :: "(string \<Rightarrow> string) v1_server" where
  "opened_server = the (v1_did_open demo_front broken_files 1 file_server ''file:///b.cdc'' ''!'' 1)"

lemma demo_target:
  "import_target (StringLocation ''/a.cdc'') (StringLocation ''/b.cdc'') = StringLocation ''/b.cdc''"
  "import_target (StringLocation ''/b.cdc'') (StringLocation ''/a.cdc'') = StringLocation ''/a.cdc''"
  by code_simp+

lemma demo_not_special:
  "\<not> builtin_location demo_front (StringLocation ''/b.cdc'')"
  "\<not> own_import (StringLocation ''/a.cdc'') (StringLocation ''/b.cdc'')"
  "\<not> builtin_location demo_front (StringLocation ''/a.cdc'')"
  "\<not> own_import (StringLocation ''/b.cdc'') (StringLocation ''/a.cdc'')"
  by (simp_all add: builtin_location_def demo_front_def own_import_def demo_target)

text \<open>The broken file fails an import while it is closed, and answers it when it is open.\<close>

theorem open_document_answers_imports_witness:
  "v1_handle_import demo_front broken_files file_server demo_config '''' 1 (StringLocation ''/a.cdc'')
     (StringLocation ''/b.cdc'') [] = Some (ImportFailed (PlainFailure ''!''), []) \<and>
   (\<exists>c. v1_handle_import demo_front broken_files opened_server demo_config '''' (Suc 0) (StringLocation ''/a.cdc'')
     (StringLocation ''/b.cdc'') (vs_cache opened_server) = Some (Imported c, vs_cache opened_server))"
proof
  show "v1_handle_import demo_front broken_files file_server demo_config '''' 1 (StringLocation ''/a.cdc'')
     (StringLocation ''/b.cdc'') [] = Some (ImportFailed (PlainFailure ''!''), [])"
    using handle_import_checked [OF demo_not_special(1,2), of "[]" "''''" broken_files file_server "''!''" demo_config 0]
    by (simp add: demo_target checker_get_def v1_resolve_import_def file_server_def broken_files_def
        parse_resolved_def demo_front_def demo_run_def has_prefix_def)
  have opened: "v1_did_open demo_front broken_files 1 file_server ''file:///b.cdc'' ''!'' 1 = Some opened_server"
  proof -
    have "v1_did_open demo_front broken_files 1 file_server ''file:///b.cdc'' ''!'' 1 \<noteq> None"
      by (simp add: v1_did_open_def file_server_def fresh_server_def blank_server_def check_and_publish_def
          get_diagnostics_def check_parsed_def demo_front_def demo_run_def has_prefix_def Let_def
          failure_diagnostics_def emit_def)
    then show ?thesis by (simp add: opened_server_def)
  qed
  have key: "root_key file_server broken_files ''file:///b.cdc'' =
      \<lparr>key_project = '''', key_location = import_target (StringLocation ''/a.cdc'') (StringLocation ''/b.cdc'')\<rparr>"
    by (simp add: demo_target root_key_def file_server_def fresh_server_def blank_server_def key_for_root_def
        default_project_id_def uri_to_location_def has_prefix_def uri_file_prefix_def)
  have parsed: "fst (vf_parse demo_front ''!'') = Some ''!''"
    "vf_new_checker_error demo_front ''!'' (uri_to_location ''file:///b.cdc'') = None"
    by (simp_all add: demo_front_def)
  from open_document_answers_imports [OF opened parsed key demo_not_special(1,2),
      of broken_files opened_server demo_config 0]
  show "\<exists>c. v1_handle_import demo_front broken_files opened_server demo_config '''' (Suc 0) (StringLocation ''/a.cdc'')
     (StringLocation ''/b.cdc'') (vs_cache opened_server) = Some (Imported c, vs_cache opened_server)"
    by blast
qed

definition cyclic_texts :: "string \<Rightarrow> string" where
  "cyclic_texts p = (if p = ''/a.cdc'' then ''/b.cdc'' else if p = ''/b.cdc'' then ''/a.cdc'' else '''')"

theorem v1_import_cycle_never_returns_witness:
  "v1_handle_import demo_front cyclic_texts file_server demo_config '''' 1000 (StringLocation ''/a.cdc'')
     (StringLocation ''/b.cdc'') [] = None"
proof (rule v1_import_cycle_never_returns)
  show "cyclic_files demo_front cyclic_texts file_server demo_config ''''
      {StringLocation ''/a.cdc'', StringLocation ''/b.cdc''}"
    using demo_not_special
    by (auto simp: cyclic_files_def demo_target v1_resolve_import_def file_server_def cyclic_texts_def
        parse_resolved_def demo_front_def demo_run_def has_prefix_def)
qed (simp_all add: checker_get_def demo_target demo_not_special)

text \<open>A file without imports has rank zero, the one that imports it rank one.\<close>

definition demo_rank :: "location \<Rightarrow> nat" where
  "demo_rank l = (if l = StringLocation ''/a.cdc'' then 1 else 0)"

theorem v1_imports_return_witness:
  "v1_handle_import demo_front broken_files file_server demo_config '''' 2 (StringLocation ''/b.cdc'')
     (StringLocation ''/a.cdc'') [] \<noteq> None"
proof (rule v1_imports_return [where rank = demo_rank])
  show "\<forall>ids x. handle_location broken_files file_server ids x \<noteq> None"
    by (simp add: handle_location_def Let_def file_server_def fresh_server_def blank_server_def
        split: location.split)
  show "ranked_files demo_front broken_files file_server demo_config '''' demo_rank"
  proof (unfold ranked_files_def, intro allI impI ballI)
    fix l p x
    assume res: "v1_resolve_import demo_front broken_files file_server '''' l = (Some p, None)"
      and x: "x \<in> v1_requests (vf_check demo_front demo_config p l)"
    obtain q where q: "l = StringLocation q" "p = broken_files q"
      using res by (cases l) (auto simp: v1_resolve_import_def file_server_def fresh_server_def blank_server_def
          parse_resolved_def demo_front_def)
    show "demo_rank (import_target l x) < demo_rank l"
      using x q demo_target
      by (auto simp: demo_front_def demo_run_def broken_files_def has_prefix_def demo_rank_def split: if_splits)
  qed
qed (simp add: demo_target demo_rank_def import_target_def is_path_location_def
    normalize_path_location_def location_to_path_def)

end
