(* ===== verification/V1Requests.thy ===== *)
theory V1Requests
  imports V1Imports LintStrings
begin

text \<open>
  The request handlers of the first language server (src/languageserver/server/server.go): hover,
  definition, signature help, highlights, rename, symbols, hints, and completion with its two tables
  per document, which hold the members and the names of the last answer. The texts and ranges of the
  answers are built as in the second server, so the definitions for them are shared. A request that
  dereferences missing position information panics: \<open>None\<close>.
\<close>

section \<open>Requests about a position\<close>

definition v1_with_positions ::
    "'w \<Rightarrow> 'w v1_server \<Rightarrow> uri \<Rightarrow> 'r \<Rightarrow> (position_info \<Rightarrow> 'r option) \<Rightarrow> 'r option" where
  "v1_with_positions w s u dflt f =
     (case v1_checker_for_document w s u of
        None \<Rightarrow> Some dflt
      | Some c \<Rightarrow> (case chk_positions c of None \<Rightarrow> None | Some pinfo \<Rightarrow> f pinfo))"

definition v1_hover :: "'w \<Rightarrow> 'w v1_server \<Rightarrow> uri \<Rightarrow> position \<Rightarrow> hover option option" where
  "v1_hover w s u pos = v1_with_positions w s u None (\<lambda>pinfo.
     case find_or_previous (find_occurrence pinfo) (protocol_to_sema_position pos) of
       None \<Rightarrow> Some None
     | Some occ \<Rightarrow>
         (case occ_origin occ of
            None \<Rightarrow> Some None
          | Some org \<Rightarrow>
              Some (Some \<lparr>hov_markup = hover_markup org,
                          hov_range = sema_to_protocol_range (occ_start occ) (occ_end occ)\<rparr>)))"

text \<open>The definition is always located in the requesting document.\<close>

definition v1_definition :: "'w \<Rightarrow> 'w v1_server \<Rightarrow> uri \<Rightarrow> position \<Rightarrow> proto_location option option" where
  "v1_definition w s u pos = v1_with_positions w s u None (\<lambda>pinfo.
     case find_occurrence pinfo (protocol_to_sema_position pos) of
       None \<Rightarrow> Some None
     | Some occ \<Rightarrow>
         (case occ_origin occ of
            None \<Rightarrow> Some None
          | Some org \<Rightarrow>
              Some (map_option (\<lambda>r. \<lparr>loc_uri = u, loc_range = r\<rparr>) (origin_range org))))"

definition v1_references :: "proto_location list" where "v1_references = []"

definition v1_signature_help :: "'w \<Rightarrow> 'w v1_server \<Rightarrow> uri \<Rightarrow> position \<Rightarrow> signature_help option option" where
  "v1_signature_help w s u pos = v1_with_positions w s u None (\<lambda>pinfo.
     let p = protocol_to_sema_position pos
     in case find_invocation pinfo p of
          None \<Rightarrow> Some None
        | Some call \<Rightarrow>
            (let ft = inv_function call
             in case label_parts (ft_argument_labels ft) 0 (ft_parameters ft) [] of
                  None \<Rightarrow> None
                | Some parts \<Rightarrow>
                    Some (Some \<lparr>sig_label = ''('' @ str_join '', '' parts @ ''): '' @ ft_return_qualified ft,
                                sig_parameters = parts,
                                sig_active = active_loop p (inv_separators call) 0\<rparr>)))"

definition v1_document_highlight :: "'w \<Rightarrow> 'w v1_server \<Rightarrow> uri \<Rightarrow> position \<Rightarrow> range list option" where
  "v1_document_highlight w s u pos = v1_with_positions w s u [] (\<lambda>pinfo.
     Some (highlight_loop (find_all_or_previous (find_occurrences pinfo) (protocol_to_sema_position pos)) []))"

fun v1_rename_loop :: "string \<Rightarrow> occurrence list \<Rightarrow> text_edit list \<Rightarrow> text_edit list" where
  "v1_rename_loop name [] edits = edits"
| "v1_rename_loop name (occ # occs) edits =
     (case occ_origin occ of
        None \<Rightarrow> v1_rename_loop name occs edits
      | Some org \<Rightarrow>
          (case origin_range org of
             None \<Rightarrow> v1_rename_loop name occs edits
           | Some r \<Rightarrow> v1_rename_loop name occs
               (edits @ map (\<lambda>x. \<lparr>edit_range = x, new_text = name\<rparr>) (occurrence_ranges org))))"

definition v1_rename :: "'w \<Rightarrow> 'w v1_server \<Rightarrow> uri \<Rightarrow> position \<Rightarrow> string \<Rightarrow> workspace_edit option option" where
  "v1_rename w s u pos name = v1_with_positions w s u None (\<lambda>pinfo.
     Some (Some [(u, v1_rename_loop name
       (find_all_or_previous (find_occurrences pinfo) (protocol_to_sema_position pos)) [])]))"

section \<open>Requests about a document\<close>

definition v1_document_symbol :: "(decl_kind \<Rightarrow> string) \<Rightarrow> 'w \<Rightarrow> 'w v1_server \<Rightarrow> uri \<Rightarrow> document_symbol list" where
  "v1_document_symbol keywords w s u =
     (case v1_checker_for_document w s u of
        None \<Rightarrow> []
      | Some c \<Rightarrow> filter (\<lambda>x. \<not> blank (sym_name x))
          (map (declaration_to_document_symbol keywords) (prg_declarations (chk_program c))))"

definition v1_inlay_hint :: "'w \<Rightarrow> 'w v1_server \<Rightarrow> uri \<Rightarrow> range \<Rightarrow> inlay_hint list" where
  "v1_inlay_hint w s u req =
     (case v1_checker_for_document w s u of
        None \<Rightarrow> []
      | Some c \<Rightarrow> concat (map hint_of
          (inspect (\<lambda>node acc. (acc @ hint_candidate req node, True)) (prg_tree (chk_program c)) [])))"

text \<open>Requests that are not supported.\<close>

definition v1_document_link :: "'a list" where "v1_document_link = []"
definition v1_folding_range :: "folding_range list" where "v1_folding_range = []"
definition v1_selection_range :: "selection_range list" where "v1_selection_range = []"
definition v1_workspace_symbol :: "symbol_information list" where "v1_workspace_symbol = []"
definition v1_semantic_tokens :: "'a option" where "v1_semantic_tokens = None"

section \<open>Completion items\<close>

text \<open>The tables of the first server; the item for \<^verbatim>\<open>create\<close> is there twice.\<close>

definition v1_statement_items :: "completion_item list" where
  "v1_statement_items = statement_completion_items"

definition v1_expression_items :: "completion_item list" where
  "v1_expression_items =
    [keyword_item ''create'' ''create statement'' ''create $0'',
     keyword_item ''create'' ''create statement'' ''create $0'',
     keyword_item ''let'' ''constant declaration'' ''let $1 = $0'',
     keyword_item ''var'' ''variable declaration'' ''var $1 = $0'']"

definition v1_declaration_items :: "completion_item list" where
  "v1_declaration_items = declaration_completion_items"

definition v1_container_items :: "completion_item list" where
  "v1_container_items = container_completion_items"

definition v1_prepare_function_member :: "completion_item \<Rightarrow> member_resolver \<Rightarrow> string \<Rightarrow> completion_item" where
  "v1_prepare_function_member item r name =
     (let mem = mr_resolve r (ci_label item)
      in case ty_function (mem_type mem) of
           None \<Rightarrow> item
         | Some ft \<Rightarrow>
             prepare_parameters
               (if member_is_deprecated (mem_doc mem) then item\<lparr>ci_deprecated := True\<rparr> else item)
               name (ft_parameters ft))"

definition v1_member_item :: "uri \<Rightarrow> string \<times> member_resolver \<Rightarrow> completion_item" where
  "v1_member_item u nr =
     (let item = new_item (fst nr) (declaration_kind_to_completion_kind (mr_kind (snd nr)))
                   (declaration_kind_commit_characters (mr_kind (snd nr))) (ItemData u (fst nr))
      in if mr_kind (snd nr) = DK_Function
         then trigger_hints (v1_prepare_function_member item (snd nr) (fst nr)) else item)"

text \<open>The members of the document are forgotten first, and stored again when there are some.\<close>

definition v1_member_completions ::
    "sema_pos \<Rightarrow> position_info \<Rightarrow> uri \<Rightarrow> 'w v1_server \<Rightarrow> completion_item list \<times> 'w v1_server" where
  "v1_member_completions p pinfo u s =
     (let q = (if sp_column p > 0 then p\<lparr>sp_column := sp_column p - 1\<rparr> else p);
          forgotten = AList.delete u (vs_member_resolvers s)
      in case find_members pinfo q of
           None \<Rightarrow> ([], s\<lparr>vs_member_resolvers := forgotten\<rparr>)
         | Some ms \<Rightarrow> (map (v1_member_item u) ms, s\<lparr>vs_member_resolvers := AList.update u ms forgotten\<rparr>))"

definition v1_range_completions ::
    "sema_pos \<Rightarrow> position_info \<Rightarrow> uri \<Rightarrow> 'w v1_server \<Rightarrow> (completion_item list \<times> 'w v1_server) option" where
  "v1_range_completions p pinfo u s =
     (let forgotten = AList.delete u (vs_ranges s)
      in case find_ranges pinfo p of
           None \<Rightarrow> Some ([], s\<lparr>vs_ranges := forgotten\<rparr>)
         | Some rs \<Rightarrow>
             (case ranges_loop u 0 rs [] [] of
                None \<Rightarrow> None
              | Some (its, resolvers) \<Rightarrow> Some (its, s\<lparr>vs_ranges := AList.update u resolvers forgotten\<rparr>)))"

definition v1_completion ::
    "'w \<Rightarrow> 'w v1_server \<Rightarrow> uri \<Rightarrow> position \<Rightarrow> (completion_item list \<times> 'w v1_server) option" where
  "v1_completion w s u pos =
     (case v1_checker_for_document w s u of
        None \<Rightarrow> Some ([], s)
      | Some c \<Rightarrow>
          (case doc_get (vs_documents s) u of
             None \<Rightarrow> Some ([], s)
           | Some doc \<Rightarrow>
               (case chk_positions c of
                  None \<Rightarrow> None
                | Some pinfo \<Rightarrow>
                    (let p = protocol_to_sema_position pos;
                         (members, s1) = v1_member_completions p pinfo u s
                     in if length members > 0 then Some (members, s1)
                        else case v1_range_completions p pinfo u s1 of
                          None \<Rightarrow> None
                        | Some (ranges, s2) \<Rightarrow>
                            (let required = \<not> has_preceding_string doc all_access_options
                                                (sp_line p) (sp_column p)
                             in Some (map (\<lambda>i. i\<lparr>ci_sort_text := ''1'' @ ci_label i\<rparr>) ranges @
                                   v1_statement_items @ v1_expression_items @
                                   map (with_access_placeholder required) v1_declaration_items @
                                   map (with_access_placeholder required) v1_container_items, s2))))))"

section \<open>Resolving an item\<close>

text \<open>
  Decoding the data of an item into its two strings: an absent field stays empty, a field of another
  kind is an error (\<open>None\<close>), as is data that is not a map. Names match without regard to case when
  there is no exact match.
\<close>

definition decoded_field :: "(string \<times> json) list \<Rightarrow> string \<Rightarrow> string option" where
  "decoded_field m k =
     (case (case map_of m k of
              Some v \<Rightarrow> Some v
            | None \<Rightarrow> map_option snd (find (\<lambda>e. to_lower (fst e) = k) m)) of
        None \<Rightarrow> Some ''''
      | Some JNull \<Rightarrow> Some ''''
      | Some (JStr x) \<Rightarrow> Some x
      | Some _ \<Rightarrow> None)"

definition v1_item_ids :: "item_data \<Rightarrow> (string \<times> string) option" where
  "v1_item_ids d =
     (case d of
        NoData \<Rightarrow> Some ('''', '''')
      | ItemData u i \<Rightarrow> Some (u, i)
      | RawMap m \<Rightarrow>
          (case (decoded_field m ''uri'', decoded_field m ''id'') of
             (Some u, Some i) \<Rightarrow> Some (u, i) | _ \<Rightarrow> None)
      | OtherData \<Rightarrow> None)"

definition v1_maybe_resolve_member ::
    "(decl_kind \<Rightarrow> string) \<Rightarrow> 'w v1_server \<Rightarrow> uri \<Rightarrow> string \<Rightarrow> completion_item \<Rightarrow> completion_item option" where
  "v1_maybe_resolve_member kind_name s u i item =
     (case map_of (vs_member_resolvers s) u of
        None \<Rightarrow> None
      | Some ms \<Rightarrow>
          (case map_of ms i of
             None \<Rightarrow> None
           | Some r \<Rightarrow>
               (let mem = mr_resolve r (ci_label item)
                in Some (item\<lparr>ci_documentation := Some (Markup ''markdown'' (mem_doc mem)),
                              ci_detail := member_detail kind_name mem (ci_detail item)\<rparr>))))"

definition v1_maybe_resolve_range ::
    "(decl_kind \<Rightarrow> string) \<Rightarrow> 'w v1_server \<Rightarrow> uri \<Rightarrow> string \<Rightarrow> completion_item \<Rightarrow> completion_item option" where
  "v1_maybe_resolve_range kind_name s u i item =
     (case map_of (vs_ranges s) u of
        None \<Rightarrow> None
      | Some rs \<Rightarrow>
          (case map_of rs i of
             None \<Rightarrow> None
           | Some r \<Rightarrow>
               (let detail = (case ty_function (rg_type r) of
                      Some ft \<Rightarrow> (if ft_is_constructor ft then ''(constructor) '' @ ty_qualified (rg_type r)
                                 else ''('' @ kind_name (rg_kind r) @ '') '' @ ty_string (rg_type r))
                    | None \<Rightarrow> ''('' @ kind_name (rg_kind r) @ '') '' @ ty_string (rg_type r))
                in Some (item\<lparr>ci_detail := detail, ci_documentation := Some (PlainDoc (rg_doc r))\<rparr>))))"

text \<open>The item, and whether decoding its data failed.\<close>

definition v1_resolve_completion_item ::
    "(decl_kind \<Rightarrow> string) \<Rightarrow> 'w v1_server \<Rightarrow> completion_item \<Rightarrow> completion_item \<times> bool" where
  "v1_resolve_completion_item kind_name s item =
     (case v1_item_ids (ci_data item) of
        None \<Rightarrow> (item, True)
      | Some (u, i) \<Rightarrow>
          (case v1_maybe_resolve_member kind_name s u i item of
             Some r \<Rightarrow> (r, False)
           | None \<Rightarrow>
               (case v1_maybe_resolve_range kind_name s u i item of
                  Some r \<Rightarrow> (r, False)
                | None \<Rightarrow> (item, False))))"

section \<open>The two servers answer alike\<close>

lemma v1_rename_loop_eq:
  "v1_rename_loop name occs es = es @ concat (map (use_edits name) (complete_origins occs))"
  by (induction occs arbitrary: es) (auto simp: use_edits_def split: option.split)

lemma answers_alike:
  assumes c1: "v1_checker_for_document w s u = Some c"
    and c2: "checker_for_document env fuel srv u = Some (Some (checker.truncate c), srv1)"
    and wf: "host_wf (srv_host srv1)"
  shows "hover_request env fuel srv u pos = map_option (\<lambda>a. (a, srv1)) (v1_hover w s u pos)"
    and "signature_help_request env fuel srv u pos = map_option (\<lambda>a. (a, srv1)) (v1_signature_help w s u pos)"
    and "document_highlight_request env fuel srv u pos =
           map_option (\<lambda>a. (a, srv1)) (v1_document_highlight w s u pos)"
    and "document_symbol_request keywords env fuel srv u = Some (v1_document_symbol keywords w s u, srv1)"
    and "inlay_hint_request env fuel srv u req = Some (v1_inlay_hint w s u req, srv1)"
    and "map_option (\<lambda>x. map_option loc_range (fst x)) (definition_request env fuel srv u pos) =
           map_option (map_option loc_range) (v1_definition w s u pos)"
    and "rename_request env fuel srv u pos name = Some (Some changes, srv2) \<Longrightarrow>
           v1_rename w s u pos name = Some (Some [(u, keys_at changes u)])"
proof -
  have fields: "chk_positions (checker.truncate c) = chk_positions c"
    "chk_program (checker.truncate c) = chk_program c"
    by (simp_all add: checker.truncate_def)
  have v2: "with_checker env fuel srv u dflt f = f (checker.truncate c) srv1" for dflt f
    by (simp add: with_checker_def c2)
  have v1: "v1_with_positions w s u dflt f =
      (case chk_positions c of None \<Rightarrow> None | Some pinfo \<Rightarrow> f pinfo)" for dflt :: 'x and f
    by (simp add: v1_with_positions_def c1)
  show "hover_request env fuel srv u pos = map_option (\<lambda>a. (a, srv1)) (v1_hover w s u pos)"
    by (simp add: hover_request_def v2 v1_hover_def v1_with_positions_def c1 fields split: option.split)
  show "signature_help_request env fuel srv u pos = map_option (\<lambda>a. (a, srv1)) (v1_signature_help w s u pos)"
    by (simp add: signature_help_request_def v2 v1_signature_help_def v1_with_positions_def c1 fields Let_def
        split: option.split)
  show "document_highlight_request env fuel srv u pos =
      map_option (\<lambda>a. (a, srv1)) (v1_document_highlight w s u pos)"
    by (simp add: document_highlight_request_def v2 v1_document_highlight_def v1_with_positions_def c1 fields
        split: option.split)
  show "document_symbol_request keywords env fuel srv u = Some (v1_document_symbol keywords w s u, srv1)"
    by (simp add: document_symbol_request_def v2 v1_document_symbol_def c1 fields)
  show "inlay_hint_request env fuel srv u req = Some (v1_inlay_hint w s u req, srv1)"
    by (simp add: inlay_hint_request_def v2 v1_inlay_hint_def c1 fields)
  show "map_option (\<lambda>x. map_option loc_range (fst x)) (definition_request env fuel srv u pos) =
      map_option (map_option loc_range) (v1_definition w s u pos)"
    by (simp add: definition_request_def v2 v1_definition_def v1_with_positions_def c1 fields
        split: option.split prod.split)
  assume rename: "rename_request env fuel srv u pos name = Some (Some changes, srv2)"
  then obtain pinfo where p: "chk_positions c = Some pinfo"
    by (auto simp: rename_request_def v2 fields split: option.splits)
  let ?occs = "find_all_or_previous (find_occurrences pinfo) (protocol_to_sema_position pos)"
  have loop: "rename_loop env u name ?occs [] srv1 = (changes, srv2)"
    using rename by (simp add: rename_request_def v2 fields p split: prod.splits)
  have "lru_wf (cache (srv_host srv1))" using wf by (simp add: host_wf_def)
  from rename_loop_edits [OF loop this, of u]
  have "keys_at changes u = v1_rename_loop name ?occs []"
    by (simp add: v1_rename_loop_eq)
  then show "v1_rename w s u pos name = Some (Some [(u, keys_at changes u)])"
    by (simp add: v1_rename_def v1_with_positions_def c1 p)
qed


text \<open>A document whose checker finds two uses of a name everywhere, in both servers.\<close>

definition uses_checker :: v1_checker where
  "uses_checker = (tree_checker (VNode 0 KElement []))\<lparr>chk_positions := Some (sample_positions
     \<lparr>find_occurrence := (\<lambda>_. Some sample_occurrence), find_occurrences := (\<lambda>_. [sample_occurrence])\<rparr>)\<rparr>"

definition uses_server :: "(checker, unit) server" where
  "uses_server =
     (let s = new_server_v2 fast_config ()
      in s\<lparr>srv_host := (srv_host s)\<lparr>cache := lru_put (cache (srv_host s)) ''u''
            \<lparr>ce_checker = Some (checker.truncate uses_checker), ce_valid = True\<rparr>\<rparr>\<rparr>)"

lemma uses_host: "host_wf (srv_host uses_server)"
  by (simp add: uses_server_def Let_def new_server_v2_def host_wf_def lru_wf_put new_analysis_host_def)

lemma uses_cached: "lru_peek (cache (srv_host uses_server)) ''u'' =
    Some \<lparr>ce_checker = Some (checker.truncate uses_checker), ce_valid = True\<rparr>"
proof -
  have "lru_wf (cache (srv_host (new_server_v2 fast_config () :: (checker, unit) server)))"
    by (simp add: new_server_v2_def Let_def new_analysis_host_def)
  from cache.peek_put_same [OF this] show ?thesis by (simp add: uses_server_def Let_def)
qed

lemma uses_run:
  "\<exists>srv1. checker_for_document (sample_env sample_checker) 1 uses_server ''u'' =
     Some (Some (checker.truncate uses_checker), srv1)"
  using uses_cached
  by (simp add: checker_for_document_def Let_def canonical_cache_key_def sample_env_def demo_id_def
      usable_entry_def lru_peek_def)


section \<open>Items and the tables that resolve them\<close>

lemma v1_fixed_items_no_data:
  "i \<in> set (v1_statement_items @ v1_expression_items @
     map (with_access_placeholder b) v1_declaration_items @
     map (with_access_placeholder b) v1_container_items) \<Longrightarrow> ci_data i = NoData"
proof -
  have "\<forall>i \<in> set (v1_statement_items @ v1_expression_items @ v1_declaration_items @ v1_container_items).
      ci_data i = NoData"
    by (simp add: v1_statement_items_def v1_expression_items_def v1_declaration_items_def v1_container_items_def
        statement_completion_items_def declaration_completion_items_def container_completion_items_def
        keyword_item_def)
  moreover have "ci_data (with_access_placeholder b j) = ci_data j" for j
    by (simp add: with_access_placeholder_def with_insert_text_def)
  moreover assume "i \<in> set (v1_statement_items @ v1_expression_items @
     map (with_access_placeholder b) v1_declaration_items @
     map (with_access_placeholder b) v1_container_items)"
  ultimately show ?thesis by auto
qed

definition v1_resolvable :: "'w v1_server \<Rightarrow> completion_item \<Rightarrow> bool" where
  "v1_resolvable s item \<longleftrightarrow>
     (\<exists>u i m. ci_data item = ItemData u i \<and>
        (map_of (vs_member_resolvers s) u = Some m \<and> map_of m i \<noteq> None \<or>
         (\<exists>r. map_of (vs_ranges s) u = Some r \<and> map_of r i \<noteq> None)))"

lemma v1_resolvable_documented:
  "v1_resolvable s item \<Longrightarrow>
   ci_documentation (fst (v1_resolve_completion_item kind_name s item)) \<noteq> None \<and>
   \<not> snd (v1_resolve_completion_item kind_name s item)"
  by (auto simp: v1_resolvable_def v1_resolve_completion_item_def v1_item_ids_def v1_maybe_resolve_member_def
      v1_maybe_resolve_range_def Let_def split: option.splits)

lemma v1_member_item_data: "ci_data (v1_member_item u nr) = ItemData u (fst nr)"
  by (simp add: v1_member_item_def Let_def new_item_def trigger_hints_def v1_prepare_function_member_def
      prepare_parameters_def split: option.split)

lemma map_of_fst: "nr \<in> set ms \<Longrightarrow> map_of ms (fst nr) \<noteq> None"
  by (induction ms) auto

lemma v1_member_completions_resolvable:
  assumes "v1_member_completions p pinfo u s = (its, s1)" and "item \<in> set its"
  shows "v1_resolvable s1 item"
proof -
  obtain ms nr where ms: "vs_member_resolvers s1 = AList.update u ms (AList.delete u (vs_member_resolvers s))"
    and nr: "nr \<in> set ms" "item = v1_member_item u nr"
    using assms by (auto simp: v1_member_completions_def Let_def split: option.splits)
  have "map_of (vs_member_resolvers s1) u = Some ms" by (simp add: ms update_conv')
  with map_of_fst [OF nr(1)] show ?thesis
    unfolding v1_resolvable_def nr(2) v1_member_item_data by blast
qed

lemma v1_range_completions_resolvable:
  assumes "v1_range_completions p pinfo u s = Some (its, s1)" and "item \<in> set its"
  shows "v1_resolvable s1 item"
proof -
  obtain rs m where loop: "ranges_loop u 0 rs [] [] = Some (its, m)"
    and m: "vs_ranges s1 = AList.update u m (AList.delete u (vs_ranges s))"
    using assms by (auto simp: v1_range_completions_def Let_def split: option.splits)
  from ranges_loop_items [OF loop] assms(2) obtain k where "ci_data item = ItemData u k" "map_of m k \<noteq> None"
    by auto
  moreover have "map_of (vs_ranges s1) u = Some m" by (simp add: m update_conv')
  ultimately show ?thesis unfolding v1_resolvable_def by blast
qed

text \<open>
  Every item of the latest answer for a document that carries data can be resolved: its member or
  name is in the document's table, so it gets its documentation, and decoding its data does not fail.
\<close>

theorem v1_completion_items_resolvable:
  assumes "v1_completion w s u pos = Some (its, s1)" and "item \<in> set its" and "ci_data item \<noteq> NoData"
  shows "ci_documentation (fst (v1_resolve_completion_item kind_name s1 item)) \<noteq> None \<and>
         \<not> snd (v1_resolve_completion_item kind_name s1 item)"
proof -
  obtain c doc pinfo where c: "v1_checker_for_document w s u = Some c"
    "doc_get (vs_documents s) u = Some doc" "chk_positions c = Some pinfo"
    using assms(1,2) by (auto simp: v1_completion_def split: option.splits)
  let ?p = "protocol_to_sema_position pos"
  obtain members s0 where mem: "v1_member_completions ?p pinfo u s = (members, s0)" by fastforce
  have "v1_resolvable s1 item"
  proof (cases "members = []")
    case False
    with assms(1) c mem have "its = members" "s1 = s0" by (simp_all add: v1_completion_def Let_def)
    with v1_member_completions_resolvable [OF mem] assms(2) show ?thesis by simp
  next
    case True
    with assms(1) c mem obtain ranges where rng: "v1_range_completions ?p pinfo u s0 = Some (ranges, s1)"
      by (auto simp: v1_completion_def Let_def split: option.splits)
    define b where "b = (\<not> has_preceding_string doc all_access_options (sp_line ?p) (sp_column ?p))"
    have its: "its = map (\<lambda>i. i\<lparr>ci_sort_text := ''1'' @ ci_label i\<rparr>) ranges @
        (v1_statement_items @ v1_expression_items @ map (with_access_placeholder b) v1_declaration_items @
         map (with_access_placeholder b) v1_container_items)"
      using assms(1) c mem rng True unfolding b_def by (simp add: v1_completion_def Let_def)
    have "item \<in> set (map (\<lambda>i. i\<lparr>ci_sort_text := ''1'' @ ci_label i\<rparr>) ranges)"
      using assms(2,3) v1_fixed_items_no_data [of item b] unfolding its set_append by blast
    then obtain i where i: "i \<in> set ranges" "item = i\<lparr>ci_sort_text := ''1'' @ ci_label i\<rparr>" by auto
    from v1_range_completions_resolvable [OF rng i(1)] show ?thesis by (simp add: i(2) v1_resolvable_def)
  qed
  then show ?thesis by (rule v1_resolvable_documented)
qed

text \<open>Names in scope that differ by column: \<open>a\<close> at the start of a line, \<open>b\<close> after it.\<close>

definition scope_checker :: v1_checker where
  "scope_checker = (tree_checker (VNode 0 KElement []))\<lparr>chk_positions := Some (sample_positions
     \<lparr>find_members := (\<lambda>_. None),
      find_ranges := (\<lambda>p. Some [if sp_column p = 0
        then \<lparr>rg_identifier = ''a'', rg_kind = DK_Constant, rg_type = Completions.int_type, rg_doc = ''about a''\<rparr>
        else \<lparr>rg_identifier = ''b'', rg_kind = DK_Constant, rg_type = Completions.int_type, rg_doc = ''about b''\<rparr>])\<rparr>)\<rparr>"

definition scope_answer :: "unit v1_server \<Rightarrow> u32 \<Rightarrow> completion_item list \<times> unit v1_server" where
  "scope_answer s col = the (v1_completion () s ''u'' (Position 0 col))"

theorem v1_completion_items_resolvable_witness:
  "ci_documentation (fst (v1_resolve_completion_item (\<lambda>_. ''constant'')
     (snd (scope_answer (checked_server ''abc'' scope_checker) 0))
     (hd (fst (scope_answer (checked_server ''abc'' scope_checker) 0))))) \<noteq> None"
proof -
  let ?a = "v1_completion () (checked_server ''abc'' scope_checker) ''u'' (Position 0 0)"
  have "\<not> Option.is_none ?a" by code_simp
  then have run: "?a = Some (fst (scope_answer (checked_server ''abc'' scope_checker) 0),
      snd (scope_answer (checked_server ''abc'' scope_checker) 0))"
    by (auto simp: scope_answer_def Option.is_none_def)
  have "fst (scope_answer (checked_server ''abc'' scope_checker) 0) \<noteq> []" by code_simp
  then have "hd (fst (scope_answer (checked_server ''abc'' scope_checker) 0)) \<in>
      set (fst (scope_answer (checked_server ''abc'' scope_checker) 0))" by simp
  moreover have "ci_data (hd (fst (scope_answer (checked_server ''abc'' scope_checker) 0))) = ItemData ''u'' ''0''"
    by code_simp
  ultimately show ?thesis using v1_completion_items_resolvable [OF run] by simp
qed

text \<open>
  Only the latest answer: the tables are keyed by the document and names by their index, so an item
  of an earlier answer is resolved with whatever has the same index now. Here the item for \<open>a\<close>
  gets the documentation of \<open>b\<close>.
\<close>

theorem stale_item_gets_other_documentation:
  "let (items1, s1) = scope_answer (checked_server ''abc'' scope_checker) 0;
       (items2, s2) = scope_answer s1 1
   in ci_label (hd items1) = ''a'' \<and>
      ci_documentation (fst (v1_resolve_completion_item (\<lambda>_. ''constant'') s2 (hd items1))) =
        Some (PlainDoc ''about b'')"
  by code_simp

end
