(* ===== verification/V1Machine.thy ===== *)
theory V1Machine
  imports V1Requests
begin

text \<open>
  The first language server as a state machine: the notifications and requests that change its state
  are the steps, in any order, each with the state of the world at that time. The step is labelled
  with the cache key of the document that it checks, if it checks one. Two invariants over all runs:
  the diagnostics that a client has last received for a document can be acted on, and an imported
  checker stays in the cache until its own document is checked. Then the attempts to register
  commands.
\<close>

section \<open>Steps\<close>

inductive v1_step :: "'prog v1_front \<Rightarrow> checker_key option \<Rightarrow> 'w v1_server \<Rightarrow> 'w v1_server \<Rightarrow> bool" for fe where
  step_open: "v1_did_open fe w fuel s u text version = Some s1 \<Longrightarrow> v1_step fe (Some (root_key s w u)) s s1"
| step_change: "v1_did_change fe w fuel s u version changes = Some s1 \<Longrightarrow> v1_step fe (Some (root_key s w u)) s s1"
| step_close: "v1_step fe None s (v1_did_close s u)"
| step_initialize: "v1_step fe None s (snd (v1_initialize w folders root opts s))"
| step_register: "v1_step fe None s (register_commands answer s)"
| step_configuration: "v1_step fe None s (snd (v1_did_change_configuration settings s))"
| step_command: "v1_step fe None s (snd (execute_command fe w s cmd args))"
| step_completion: "v1_completion w s u pos = Some (its, s1) \<Longrightarrow> v1_step fe None s s1"
| step_shutdown: "v1_step fe None s (v1_shutdown s)"

inductive_cases v1_stepE: "v1_step fe k s s1"

inductive v1_steps :: "'prog v1_front \<Rightarrow> checker_key option list \<Rightarrow> 'w v1_server \<Rightarrow> 'w v1_server \<Rightarrow> bool" for fe where
  no_step: "v1_steps fe [] s s"
| next_step: "v1_steps fe ks s s1 \<Longrightarrow> v1_step fe k s1 s2 \<Longrightarrow> v1_steps fe (ks @ [k]) s s2"

section \<open>Steps that check no document\<close>

text \<open>They change neither the cache, nor the documents, nor what is published, nor the resolvers.\<close>

definition quiet :: "'w v1_server \<Rightarrow> 'w v1_server \<Rightarrow> bool" where
  "quiet s s1 \<longleftrightarrow> vs_cache s1 = vs_cache s \<and> vs_documents s1 = vs_documents s \<and>
     vs_action_resolvers s1 = vs_action_resolvers s \<and>
     vs_diagnostic_providers s1 = vs_diagnostic_providers s \<and> (\<forall>u. last_published u s1 = last_published u s)"

lemma quiet_refl [simp]: "quiet s s" and quiet_trans: "quiet s s1 \<Longrightarrow> quiet s1 s2 \<Longrightarrow> quiet s s2"
  by (simp_all add: quiet_def)

lemma quiet_emit: "(\<forall>e \<in> set es. \<forall>u ds. e \<noteq> Published u ds) \<Longrightarrow> quiet s (emit es s)"
proof -
  assume "\<forall>e \<in> set es. \<forall>u ds. e \<noteq> Published u ds"
  then have "fold (note_published u) es acc = acc" for u acc
  proof (induction es arbitrary: acc)
    case (Cons e es)
    then show ?case by (cases e) auto
  qed simp
  then show ?thesis by (simp add: quiet_def) (simp add: emit_def)
qed

lemma register_loop_events:
  "\<forall>e \<in> set (register_loop answer cmds i n d). \<forall>u ds. e \<noteq> Published u ds"
proof (induction n arbitrary: i d)
  case (Suc n)
  then show ?case by (cases "answer i") simp_all
qed simp

lemma quiet_configure: "quiet s (v1_configure opts s)"
  by (auto simp: v1_configure_def quiet_def last_published_def Let_def split: json.splits option.splits)

lemma quiet_completion: "v1_completion w s u pos = Some (its, s1) \<Longrightarrow> quiet s s1"
  by (auto simp: v1_completion_def v1_member_completions_def v1_range_completions_def quiet_def
      last_published_def Let_def split: option.splits if_splits prod.splits)

lemma quiet_initialize: "quiet s (snd (v1_initialize w folders root opts s))"
proof -
  define s1 where "s1 = (case folders of
      Some fs \<Rightarrow> s\<lparr>vs_workspace_folders := fs\<rparr>
    | None \<Rightarrow> if root \<noteq> '''' then s\<lparr>vs_workspace_folders := [(root, ''root'')]\<rparr> else s)"
  have "quiet s s1" by (simp add: s1_def quiet_def last_published_def split: option.split)
  moreover have "snd (v1_initialize w folders root opts s) = v1_configure opts s1"
    by (simp add: v1_initialize_def s1_def [symmetric] Let_def split: option.split)
  ultimately show ?thesis using quiet_configure quiet_trans by metis
qed

lemma quiet_command: "quiet s (snd (execute_command fe w s cmd args))"
proof -
  define s1 where "s1 = emit [LogCommand cmd] s"
  have s1: "quiet s s1" unfolding s1_def by (rule quiet_emit) simp
  have "quiet s1 (emit [ShowMessageInfo m] s1)" for m by (rule quiet_emit) simp
  with s1 have "quiet s (emit [ShowMessageInfo m] s1)" for m using quiet_trans by blast
  with s1 show ?thesis
    by (auto simp: execute_command_def s1_def [symmetric] Let_def split: option.splits sum.splits json.splits)
qed

lemma quiet_step:
  assumes "v1_step fe None s s1"
  shows "quiet s s1"
  using assms
proof cases
  case (step_register answer)
  then show ?thesis
    by (simp add: register_commands_def quiet_emit [OF register_loop_events] split: if_split)
next
  case (step_configuration settings)
  then show ?thesis
    by (auto simp: v1_did_change_configuration_def quiet_def last_published_def split: json.splits option.splits)
next
  case step_shutdown
  then show ?thesis by (simp add: v1_shutdown_def quiet_emit)
qed (auto simp: v1_did_close_def intro: quiet_initialize quiet_command quiet_completion)

section \<open>Diagnostics can be acted on\<close>

lemma quiet_inv: "quiet s s1 \<Longrightarrow> actions_inv s \<Longrightarrow> actions_inv s1"
  by (simp add: quiet_def actions_inv_def covered_def resolver_at_def)

lemma open_inv:
  assumes "v1_did_open fe w fuel s u text version = Some s1" and "actions_inv s"
  shows "actions_inv s1"
proof -
  define s0 where "s0 = s\<lparr>vs_documents := doc_set (vs_documents s) u text version\<rparr>"
  have s0: "actions_inv s0" using assms(2) by (simp add: s0_def actions_inv_def)
  moreover have "quiet s0 (emit (map HookMessage ms) s0)" for ms by (rule quiet_emit) auto
  ultimately have "actions_inv (emit (map HookMessage ms) s0)" for ms using quiet_inv by blast
  with s0 assms(1) show ?thesis
    by (auto simp: v1_did_open_def s0_def [symmetric] Let_def split: option.splits
        dest!: check_and_publish_inv)
qed

lemma change_inv:
  assumes "v1_did_change fe w fuel s u version changes = Some s1" and "actions_inv s"
  shows "actions_inv s1"
proof -
  have "actions_inv (s\<lparr>vs_documents := d\<rparr>\<lparr>vs_cache := m\<rparr>)" for d m
    using assms(2) by (simp add: actions_inv_def)
  with assms(1) show ?thesis
    by (auto simp: v1_did_change_def Let_def split: list.splits dest!: check_and_publish_inv)
qed

lemma step_inv: "v1_step fe k s s1 \<Longrightarrow> actions_inv s \<Longrightarrow> actions_inv s1"
proof (cases k)
  case None
  then show "v1_step fe k s s1 \<Longrightarrow> actions_inv s \<Longrightarrow> actions_inv s1" using quiet_step quiet_inv by blast
next
  case (Some x)
  then show "v1_step fe k s s1 \<Longrightarrow> actions_inv s \<Longrightarrow> actions_inv s1"
    by (elim v1_stepE) (auto intro: open_inv change_inv)
qed

lemma steps_inv: "v1_steps fe ks s s1 \<Longrightarrow> actions_inv s \<Longrightarrow> actions_inv s1"
  by (induction rule: v1_steps.induct) (auto intro: step_inv)

lemma initial_inv:
  "vs_out s = [] \<Longrightarrow> list_all plain_provider (vs_diagnostic_providers s) \<Longrightarrow> actions_inv s"
  by (simp add: actions_inv_def last_published_def)


section \<open>Imported checkers stay\<close>

lemma check_keeps:
  assumes run: "check_and_publish fe w fuel u text version s = Some s1" and k: "k \<noteq> root_key s w u"
    and c: "checker_get (vs_cache s) k = Some c"
  shows "checker_get (vs_cache s1) k = Some c"
proof -
  from check_and_publish_cache [OF run] obtain ds e s0 where
    g: "get_diagnostics fe w fuel u text version s = Some (ds, e, s0)" and s1: "vs_cache s1 = vs_cache s0"
    by blast
  from get_diagnostics_cache [OF g] k c show ?thesis
    unfolding s1 by (auto simp: extends_def split: option.splits if_splits)
qed

lemma open_keeps:
  assumes run: "v1_did_open fe w fuel s u text version = Some s1" and k: "k \<noteq> root_key s w u"
    and c: "checker_get (vs_cache s) k = Some c"
  shows "checker_get (vs_cache s1) k = Some c"
proof -
  obtain s0 where "check_and_publish fe w fuel u text version s0 = Some s1" "vs_cache s0 = vs_cache s"
    "root_key s0 w u = root_key s w u"
    using run unfolding v1_did_open_def by (auto simp: Let_def emit_def root_key_def split: option.splits)
  with check_keeps [of fe w fuel u "text" version s0 s1 k c] k c show ?thesis by simp
qed

lemma change_keeps:
  assumes run: "v1_did_change fe w fuel s u version changes = Some s1" and k: "k \<noteq> root_key s w u"
    and c: "checker_get (vs_cache s) k = Some c"
  shows "checker_get (vs_cache s1) k = Some c"
proof -
  obtain code s0 where "check_and_publish fe w fuel u code version s0 = Some s1"
    "vs_cache s0 = checker_delete (vs_cache s) (root_key s w u)" "root_key s0 w u = root_key s w u"
    using run unfolding v1_did_change_def by (auto simp: Let_def root_key_def split: list.splits)
  with check_keeps [of fe w fuel u code version s0 s1 k c] k c show ?thesis by simp
qed

lemma step_keeps:
  assumes "v1_step fe j s s1" and "j \<noteq> Some k" and "checker_get (vs_cache s) k = Some c"
  shows "checker_get (vs_cache s1) k = Some c"
proof (cases j)
  case None
  with assms quiet_step [of fe s s1] show ?thesis by (simp add: quiet_def)
next
  case (Some x)
  with assms show ?thesis by (elim v1_stepE) (auto intro: open_keeps change_keeps)
qed

text \<open>
  C16. An imported checker stays: once a checker is in the cache under a key, then in every run in which
  the document of this key is not itself opened or changed, every import of that location is answered
  by this same checker, whatever the file, the configuration and the open documents are by then.
  A file that changes on disk, or the file that it imports, is not seen by its importers.
\<close>

theorem imported_checker_persists:
  assumes run: "v1_steps fe ks s s1" and others: "Some k \<notin> set ks"
    and stored: "checker_get (vs_cache s) k = Some c"
    and key: "k = \<lparr>key_project = project, key_location = import_target parent l\<rparr>"
    and location: "\<not> builtin_location fe l" "\<not> own_import parent l"
  shows "v1_handle_import fe w s1 cfg project (Suc n) parent l (vs_cache s1) = Some (Imported c, vs_cache s1)"
proof -
  have "checker_get (vs_cache s1) k = Some c"
    using run others stored by (induction rule: v1_steps.induct) (auto intro: step_keeps)
  then show ?thesis using key by (intro handle_import_cached [OF location]) simp
qed

section \<open>Registering the commands\<close>

definition register_failures :: "(nat \<Rightarrow> string option) \<Rightarrow> nat \<Rightarrow> nat \<Rightarrow> nat" where
  "register_failures answer i n = length (takeWhile (\<lambda>j. answer j \<noteq> None) [i..<i + n])"

lemma register_failures_simps [simp]:
  "register_failures answer i 0 = 0"
  "register_failures answer i (Suc n) =
     (case answer i of None \<Rightarrow> 0 | Some e \<Rightarrow> Suc (register_failures answer (Suc i) n))"
  by (auto simp: register_failures_def upt_conv_Cons simp del: upt_Suc split: option.split)

lemma register_failures_le: "register_failures answer i n \<le> n"
  using length_takeWhile_le [of "\<lambda>j. answer j \<noteq> None" "[i..<i + n]"] by (simp add: register_failures_def)

definition waits :: "v1_event list \<Rightarrow> nat list" where
  "waits es = List.map_filter (\<lambda>e. case e of Slept d \<Rightarrow> Some d | _ \<Rightarrow> None) es"

definition attempts :: "v1_event list \<Rightarrow> nat" where
  "attempts es = length (filter (\<lambda>e. case e of RegisterCapability cs \<Rightarrow> True | _ \<Rightarrow> False) es)"

lemma waits_simps [simp]:
  "waits [] = []" "waits (Slept d # es) = d # waits es" "waits (RegisterCapability cs # es) = waits es"
  "waits (LogRetry m e # es) = waits es"
  "attempts [] = 0" "attempts (Slept d # es) = attempts es"
  "attempts (RegisterCapability cs # es) = Suc (attempts es)" "attempts (LogRetry m e # es) = attempts es"
  by (simp_all add: waits_def attempts_def map_filter_simps)

lemma register_waits:
  "waits (register_loop answer cs i n d) = map (\<lambda>j. d * 2 ^ j) [0..<register_failures answer i n]"
proof (induction n arbitrary: i d)
  case (Suc n)
  have "map (\<lambda>j. d * 2 ^ j) [0..<Suc m] = d # map (\<lambda>j. d * 2 * 2 ^ j) [0..<m]" for m
    by (simp add: upt_conv_Cons map_Suc_upt [symmetric] comp_def mult.assoc del: upt_Suc)
  with Suc show ?case by (simp del: upt_Suc split: option.split)
qed simp

lemma register_attempts:
  "attempts (register_loop answer cs i n d) = min n (Suc (register_failures answer i n))"
  by (induction n arbitrary: i d) (simp_all split: option.split)

lemma sum_doubling: "sum_list (map (\<lambda>j. d * 2 ^ j) [0..<n]) = d * (2 ^ n - 1)" for d :: nat
proof (induction n)
  case (Suc n)
  have "d * (2 ^ n - 1) + d * 2 ^ n = d * (2 ^ n - 1 + 2 ^ n)" by (simp add: algebra_simps)
  also have "(2::nat) ^ n - 1 + 2 ^ n = 2 ^ Suc n - 1"
    by (metis Nat.add_diff_assoc2 mult_2 one_le_numeral one_le_power power_Suc)
  finally show ?case using Suc by simp
qed simp

text \<open>
  C40. Registration backs off and ends: with \<open>f\<close> failures before the first success (or ten), the server
  asks once more than it fails but at most ten times, and waits after every failure (also after the
  last of ten), first 100 milliseconds and then twice as long each time: in all 100 * (2^f - 1)
  milliseconds, at most 102.3 seconds. Nothing but the list of messages changes.
\<close>

theorem registration_backoff:
  "let es = register_loop answer cs 0 10 100; f = register_failures answer 0 10
   in f \<le> 10 \<and> attempts es = min 10 (Suc f) \<and> waits es = map (\<lambda>j. 100 * 2 ^ j) [0..<f] \<and>
      sum_list (waits es) = 100 * (2 ^ f - 1) \<and> sum_list (waits es) \<le> 102300 \<and>
      register_commands answer s =
        (if vs_commands s = [] then s
         else emit (register_loop answer (map fst (vs_commands s)) 0 10 100) s)"
proof -
  define f where "f = register_failures answer 0 10"
  have f: "f \<le> 10" using register_failures_le f_def by blast
  have w: "waits (register_loop answer cs 0 10 100) = map (\<lambda>j. 100 * 2 ^ j) [0..<f]"
    by (simp add: register_waits f_def)
  have "(2::nat) ^ f \<le> 2 ^ 10" using f by (rule power_increasing) simp
  then have "100 * (2 ^ f - 1) \<le> (102300::nat)" by simp
  then show ?thesis
    using f by (simp add: Let_def w sum_doubling register_attempts f_def [symmetric] register_commands_def)
qed

section \<open>Examples\<close>

text \<open>A checker that reports one error with one suggested fix.\<close>

definition fixable_error :: v1_error where
  "fixable_error =
     \<lparr>ve_kind = OtherKind, ve_message = ''wrong'', ve_extent = (at_line 1, at_line 1), ve_secondary = None,
      ve_fixes = Some (\<lambda>code. [\<lparr>sf_message = ''fix'', sf_edits = []\<rparr>]), ve_link = None, ve_migration = None,
      ve_notes = []\<rparr>"

definition fixing_front :: "string v1_front" where
  "fixing_front =
     demo_front\<lparr>vf_check := (\<lambda>cfg p l. VDone (tree_checker (VNode 0 KElement []))
        (Some (ParentFailure [Convertible fixable_error])))\<rparr>"

definition fixable_diagnostic :: lsp_diagnostic where
  "fixable_diagnostic =
     (fst (convert_error () (fresh_server [] []) fixable_error ''u''))\<lparr>vd_data := Some 0\<rparr>"

definition fixable_server :: "unit v1_server" where
  "fixable_server = the (v1_did_open fixing_front () 1 (fresh_server [] []) ''u'' ''x'' 1)"

lemmas open_evaluation =
  v1_did_open_def fresh_server_def blank_server_def check_and_publish_def get_diagnostics_def
  check_parsed_def demo_front_def has_prefix_def Let_def failure_diagnostics_def emit_def

lemma fixable_server_opened:
  "v1_did_open fixing_front () 1 (fresh_server [] []) ''u'' ''x'' 1 = Some fixable_server"
proof -
  have "v1_did_open fixing_front () 1 (fresh_server [] []) ''u'' ''x'' 1 \<noteq> None"
    by (simp add: open_evaluation fixing_front_def convert_error_def fixable_error_def attach_resolver_def
        split: prod.split option.split)
  then show ?thesis by (simp add: fixable_server_def)
qed

lemma fixable_server_state:
  "last_published ''u'' fixable_server = Some [fixable_diagnostic]"
  "v1_checker_for_document () fixable_server ''u'' = Some (tree_checker (VNode 0 KElement []))"
  by (simp_all add: fixable_server_def open_evaluation fixing_front_def convert_error_def fixable_error_def
      attach_resolver_def combine_resolvers_def fixable_diagnostic_def doc_set_def doc_get_def
      related_information_def last_published_def v1_checker_for_document_def root_key_def
      error_resolver_def)


text \<open>
  The file \<open>/b.cdc\<close> was opened in the editor, another document is opened, and the file has changed on
  the disk: an import of it is still answered by the first checker.
\<close>

definition later_server :: "(string \<Rightarrow> string) v1_server" where
  "later_server = the (v1_did_open demo_front broken_files 1 opened_server ''file:///c.cdc'' ''!'' 1)"

lemma later_server_opened:
  "v1_did_open demo_front broken_files 1 opened_server ''file:///c.cdc'' ''!'' 1 = Some later_server"
proof -
  have "v1_did_open demo_front broken_files 1 opened_server ''file:///c.cdc'' ''!'' 1 \<noteq> None"
    by (simp add: opened_server_def file_server_def open_evaluation demo_run_def)
  then show ?thesis by (simp add: later_server_def)
qed

theorem imported_checker_persists_witness:
  "v1_handle_import demo_front (\<lambda>p. ''/b.cdc'') later_server demo_config '''' (Suc 0) (StringLocation ''/a.cdc'')
     (StringLocation ''/b.cdc'') (vs_cache later_server) =
   Some (Imported (tree_checker (VNode 1 KElement [])), vs_cache later_server)"
proof (rule imported_checker_persists)
  have k: "root_key opened_server broken_files ''file:///c.cdc'' = \<lparr>key_project = '''', key_location = StringLocation ''/c.cdc''\<rparr>"
    by (simp add: opened_server_def file_server_def open_evaluation demo_run_def root_key_def key_for_root_def
        default_project_id_def uri_to_location_def uri_file_prefix_def)
  show "v1_steps demo_front ([] @ [Some (root_key opened_server broken_files ''file:///c.cdc'')]) opened_server later_server"
    by (rule next_step [OF no_step]) (rule step_open [OF later_server_opened])
  show "Some \<lparr>key_project = '''', key_location = StringLocation ''/b.cdc''\<rparr> \<notin>
      set ([] @ [Some (root_key opened_server broken_files ''file:///c.cdc'')])"
    by (simp add: k)
  show "checker_get (vs_cache opened_server) \<lparr>key_project = '''', key_location = StringLocation ''/b.cdc''\<rparr> =
      Some (tree_checker (VNode 1 KElement []))"
    by (simp add: opened_server_def file_server_def open_evaluation demo_run_def root_key_def key_for_root_def
        default_project_id_def uri_to_location_def uri_file_prefix_def)
qed (simp_all add: demo_target demo_not_special)

end
