(* ===== verification/Programs.thy ===== *)
theory Programs
  imports V1Machine Integration
begin

text \<open>
  The programs around the first language server: the standard program
  (src/languageserver/languageserver.go) with the options of the Flow integration, the one for
  JavaScript hosts (src/languageserver/cmd/languageserver/main_wasm.go), and the transport of the
  second server for such hosts (src/languageserver/transport/wasm.go). A value of the JavaScript
  environment has a text; a call of what is not a function panics.
\<close>

section \<open>The Flow integration as options of the server\<close>

text \<open>
  The functions that the integration passes to the server, over a state \<open>'w\<close> of the world that
  holds the integration; \<open>fh_commands\<close> are the handlers of its commands by name.
\<close>

record 'w flow_hooks =
  fh_diagnostics :: "'w \<Rightarrow> uri \<Rightarrow> u32 \<Rightarrow> v1_checker \<Rightarrow> (string, lsp_diagnostic list) result"
  fh_string_import :: "'w import_hook"
  fh_initialize :: "'w \<Rightarrow> json \<Rightarrow> string option"
  fh_standard_values :: "string list"
  fh_identifier_import :: "'w import_hook"
  fh_project_id :: "'w \<Rightarrow> uri \<Rightarrow> string"
  fh_account_access :: "'w \<Rightarrow> string \<Rightarrow> v1_checker \<Rightarrow> location \<Rightarrow> bool"
  fh_did_open :: "'w \<Rightarrow> uri \<Rightarrow> string \<Rightarrow> string list"
  fh_code_lenses :: "'w \<Rightarrow> uri \<Rightarrow> u32 \<Rightarrow> v1_checker \<Rightarrow> (string, code_lens list) result"
  fh_address_import :: "'w import_hook"
  fh_contract_names :: "'w \<Rightarrow> string \<Rightarrow> (string, string list) result"
  fh_commands :: "string \<Rightarrow> 'w \<Rightarrow> json list \<Rightarrow> (string, json) result"

primrec flow_option :: "'w flow_hooks \<Rightarrow> server_option \<Rightarrow> 'w v1_option" where
  "flow_option h DiagnosticProvider = with_diagnostic_provider (fh_diagnostics h)"
| "flow_option h StringImportResolver = with_string_import_resolver (Some (fh_string_import h))"
| "flow_option h InitializationOptionsHandler = with_initialization_options_handler (fh_initialize h)"
| "flow_option h ExtendedStandardLibraryValues =
     with_extended_standard_library_values (fh_standard_values h)"
| "flow_option h IdentifierImportResolver = with_identifier_import_resolver (Some (fh_identifier_import h))"
| "flow_option h ProjectIdentityProvider = with_project_identity_provider (Some (fh_project_id h))"
| "flow_option h MemberAccountAccessHandler =
     with_member_account_access_handler (Some (fh_account_access h))"
| "flow_option h DidOpenHook = with_did_open_hook (Some (fh_did_open h))"
| "flow_option h CodeLensProvider = with_code_lens_provider (fh_code_lenses h)"
| "flow_option h AddressImportResolver = with_address_import_resolver (Some (fh_address_import h))"
| "flow_option h AddressContractNamesResolver =
     with_address_contract_names_resolver (Some (fh_contract_names h))"
| "flow_option h (CommandOption name) = with_command name (CustomCommand (fh_commands h name))"

datatype 'w program_outcome = ExitCode int | ProgramPanics string | Serving "'w v1_server"

text \<open>
  \<^verbatim>\<open>RunWithStdio\<close>: nothing on a terminal; a server that cannot be made, or that refuses
  an option of the integration, is a panic.
\<close>

definition run_with_stdio ::
    "bool \<Rightarrow> server_option list \<Rightarrow> 'w flow_hooks \<Rightarrow> string list \<Rightarrow> string list \<Rightarrow> 'w program_outcome" where
  "run_with_stdio terminal options h std script =
     (if terminal then ExitCode 1
      else case new_server_v1 std script of
             Inl e \<Rightarrow> ProgramPanics e
           | Inr s \<Rightarrow>
               (case set_options (map (flow_option h) options) s of
                  (Some e, _) \<Rightarrow> ProgramPanics e
                | (None, s1) \<Rightarrow> Serving s1))"

section \<open>The program for JavaScript hosts\<close>

datatype js_value = JsUndefined | JsNull | JsText string

text \<open>The text of a value, as \<^verbatim>\<open>js.Value.String\<close> documents it.\<close>

fun js_string :: "js_value \<Rightarrow> string" where
  "js_string JsUndefined = ''<undefined>''"
| "js_string JsNull = ''<null>''"
| "js_string (JsText s) = s"

definition js_missing :: "js_value \<Rightarrow> bool" where
  "js_missing v \<longleftrightarrow> v = JsNull \<or> v = JsUndefined"

text \<open>The global functions of the host, by name; all of them take one text.\<close>

type_synonym js_host = "string \<Rightarrow> (string \<Rightarrow> js_value) option"

definition global_function_name_prefix :: string where
  "global_function_name_prefix = ''CADENCE_LANGUAGE_SERVER''"

definition global_function_name :: "nat \<Rightarrow> string \<Rightarrow> string" where
  "global_function_name i suffix =
     ''__'' @ global_function_name_prefix @ ''_'' @ itoa i @ ''_'' @ suffix @ ''__''"

definition cls_error :: "nat \<Rightarrow> string \<Rightarrow> string" where
  "cls_error i m = ''CLS '' @ itoa i @ '': '' @ m"

text \<open>A call of the start function counts up, starts a server of this number and returns it.\<close>

definition start_called :: "nat \<Rightarrow> nat \<times> nat" where
  "start_called i = (i + 1, i + 1)"

text \<open>The outer \<open>None\<close> is the panic of calling an undefined function, the inner one is success.\<close>

definition wasm_write_object :: "nat \<Rightarrow> js_host \<Rightarrow> (string, string) result \<Rightarrow> string option option" where
  "wasm_write_object i host marshalled =
     (case marshalled of
        Inl e \<Rightarrow> Some (Some e)
      | Inr s \<Rightarrow>
          (case host (global_function_name i ''toClient'') of
             None \<Rightarrow> None
           | Some f \<Rightarrow>
               Some (if \<not> js_missing (f s) then Some (cls_error i (''toClient failed: '' @ js_string (f s)))
                     else None)))"

definition on_server_close :: "nat \<Rightarrow> js_host \<Rightarrow> string option option" where
  "on_server_close i host =
     (case host (global_function_name i ''onServerClose'') of
        None \<Rightarrow> None
      | Some f \<Rightarrow>
          Some (if \<not> js_missing (f []) then Some (cls_error i (''onServerClose failed: '' @ js_string (f [])))
                else None))"

text \<open>
  A read sets a global function; the host calls it with an error value and a message, which removes
  it and ends the read. The function without its arguments panics.
\<close>

definition read_started :: "nat \<Rightarrow> string keyset \<Rightarrow> string keyset" where
  "read_started i globals = ks_insert (global_function_name i ''toServer'') globals"

definition to_server_called ::
    "nat \<Rightarrow> js_value list \<Rightarrow> string keyset \<Rightarrow> ((string, string) result \<times> string keyset) option" where
  "to_server_called i args globals =
     (let rest = filter (\<lambda>n. n \<noteq> global_function_name i ''toServer'') globals
      in case args of
           [] \<Rightarrow> None
         | err # more_args \<Rightarrow>
             if \<not> js_missing err then Some (Inl (cls_error i (''toServer failed: '' @ js_string err)), rest)
             else (case more_args of [] \<Rightarrow> None | v # _ \<Rightarrow> Some (Inr (js_string v), rest)))"

definition wasm_address_import :: "nat \<Rightarrow> (location \<Rightarrow> string) \<Rightarrow> js_host import_hook" where
  "wasm_address_import i show_location host project l =
     (case host (global_function_name i ''getAddressCode'') of
        None \<Rightarrow> Inl (cls_error i ''getAddressCode not defined'')
      | Some f \<Rightarrow>
          (let res = f (show_location l)
           in if js_missing res then Inl (cls_error i (''getAddressCode failed: '' @ js_string res))
              else Inr (js_string res)))"

definition wasm_string_import :: "nat \<Rightarrow> (location \<Rightarrow> string) \<Rightarrow> js_host import_hook" where
  "wasm_string_import i show_location host project l =
     (case host (global_function_name i ''getStringCode'') of
        None \<Rightarrow> Inl (cls_error i ''getStringCode not defined'')
      | Some f \<Rightarrow>
          (let res = f (show_location l)
           in if js_missing res then Inl (cls_error i (''getStringCode failed: '' @ js_string res))
              else Inr (js_string res)))"

text \<open>The location and the source of the crypto contract are those of the libraries.\<close>

definition wasm_identifier_import ::
    "nat \<Rightarrow> (location \<Rightarrow> string) \<Rightarrow> location \<Rightarrow> string \<Rightarrow> js_host import_hook" where
  "wasm_identifier_import i show_location crypto crypto_code host project l =
     (if l = crypto then Inr crypto_code
      else Inl (cls_error i (''unknown identifier location: '' @ show_location l)))"

definition wasm_server ::
    "nat \<Rightarrow> (location \<Rightarrow> string) \<Rightarrow> location \<Rightarrow> string \<Rightarrow> string list \<Rightarrow> string list \<Rightarrow> js_host program_outcome" where
  "wasm_server i show_location crypto crypto_code std script =
     (case new_server_v1 std script of
        Inl e \<Rightarrow> ProgramPanics e
      | Inr s \<Rightarrow>
          (case set_options
                  [with_address_import_resolver (Some (wasm_address_import i show_location)),
                   with_string_import_resolver (Some (wasm_string_import i show_location)),
                   with_identifier_import_resolver (Some (wasm_identifier_import i show_location crypto crypto_code))] s of
             (Some e, _) \<Rightarrow> ProgramPanics e
           | (None, s1) \<Rightarrow> Serving s1))"

section \<open>The transport of the second server for JavaScript hosts\<close>

text \<open>
  A channel of 64 messages to the server, and the function that takes the messages to the client.
  \<open>wt_to_client\<close> lists the calls that were made of it.
\<close>

datatype 'a go_call = Returned 'a | Blocked | Panicked

record 'f wasm_transport =
  wt_client :: "'f option"
  wt_incoming :: "string list"
  wt_closed :: bool
  wt_to_client :: "('f \<times> string) list"

definition new_wasm_transport :: "'f wasm_transport" where
  "new_wasm_transport = \<lparr>wt_client = None, wt_incoming = [], wt_closed = False, wt_to_client = []\<rparr>"

definition set_client :: "'f list \<Rightarrow> 'f wasm_transport \<Rightarrow> 'f wasm_transport" where
  "set_client args t = (case args of [] \<Rightarrow> t | f # _ \<Rightarrow> t\<lparr>wt_client := Some f\<rparr>)"

text \<open>Sending blocks on a full channel, and panics on a closed one.\<close>

definition to_server :: "js_value list \<Rightarrow> 'f wasm_transport \<Rightarrow> 'f wasm_transport go_call" where
  "to_server args t =
     (case args of
        [] \<Rightarrow> Returned t
      | v # _ \<Rightarrow>
          if wt_closed t then Panicked
          else if length (wt_incoming t) \<ge> 64 then Blocked
          else Returned (t\<lparr>wt_incoming := wt_incoming t @ [js_string v]\<rparr>))"

definition transport_write ::
    "(string, string) result \<Rightarrow> 'f wasm_transport \<Rightarrow> (string option \<times> 'f wasm_transport) go_call" where
  "transport_write marshalled t =
     (case marshalled of
        Inl e \<Rightarrow> Returned (Some (''marshal: '' @ e), t)
      | Inr d \<Rightarrow>
          (case wt_client t of
             None \<Rightarrow> Panicked
           | Some f \<Rightarrow> Returned (None, t\<lparr>wt_to_client := wt_to_client t @ [(f, d)]\<rparr>)))"

definition transport_read :: "'f wasm_transport \<Rightarrow> ((string, string) result \<times> 'f wasm_transport) go_call" where
  "transport_read t =
     (case wt_incoming t of
        [] \<Rightarrow> if wt_closed t then Returned (Inl ''stream closed'', t) else Blocked
      | m # ms \<Rightarrow> Returned (Inr m, t\<lparr>wt_incoming := ms\<rparr>))"

definition transport_close :: "'f wasm_transport \<Rightarrow> 'f wasm_transport go_call" where
  "transport_close t = (if wt_closed t then Panicked else Returned (t\<lparr>wt_closed := True\<rparr>))"

section \<open>The programs start\<close>

definition flow_commands :: "bool \<Rightarrow> string list" where
  "flow_commands enable =
     (if enable then map fst (all_commands :: (string \<times> (unit, unit, unit) command) list) else [])"

lemma all_command_names:
  "map fst (all_commands :: (string \<times> ('st, 'k, 'ch) command) list) = flow_commands True"
  by (simp add: flow_commands_def all_commands_def)

lemma no_flow_commands [simp]: "flow_commands False = []"
  by (simp add: flow_commands_def)

lemma flow_commands_new:
  "distinct (flow_commands enable)"
  "n \<in> set (flow_commands enable) \<Longrightarrow> map_of (default_commands :: (string \<times> 'w command_handler) list) n = None"
  by (auto simp: flow_commands_def all_commands_def command_send_transaction_def command_execute_script_def
      command_deploy_contract_def default_commands_def get_entry_point_parameters_command_def
      get_contract_initializer_parameters_command_def parse_entry_point_arguments_command_def split: if_splits)

definition flow_handlers :: "'w flow_hooks \<Rightarrow> bool \<Rightarrow> (string \<times> 'w command_handler) list" where
  "flow_handlers h enable = map (\<lambda>n. (n, CustomCommand (fh_commands h n))) (flow_commands enable)"

text \<open>The server after the options that every integration has.\<close>

definition common_flow_server :: "'w flow_hooks \<Rightarrow> string list \<Rightarrow> string list \<Rightarrow> 'w v1_server" where
  "common_flow_server h std script =
     (fresh_server std script)
       \<lparr>vs_diagnostic_providers := [fh_diagnostics h], vs_resolve_string := Some (fh_string_import h),
        vs_init_handlers := [fh_initialize h],
        vs_standard_library := fold ks_insert (fh_standard_values h) std,
        vs_script_library := fold ks_insert (fh_standard_values h) script,
        vs_resolve_identifier := Some (fh_identifier_import h), vs_project_id := fh_project_id h,
        vs_account_access := Some (fh_account_access h), vs_on_did_open := Some (fh_did_open h)\<rparr>"

lemmas option_defs =
  with_diagnostic_provider_def with_string_import_resolver_def with_initialization_options_handler_def
  with_extended_standard_library_values_def with_identifier_import_resolver_def
  with_project_identity_provider_def with_member_account_access_handler_def with_did_open_hook_def
  with_code_lens_provider_def with_address_import_resolver_def with_address_contract_names_resolver_def

lemma common_options:
  "set_options (map (flow_option h) [DiagnosticProvider, StringImportResolver, InitializationOptionsHandler,
      ExtendedStandardLibraryValues, IdentifierImportResolver, ProjectIdentityProvider,
      MemberAccountAccessHandler, DidOpenHook]) (fresh_server std script) =
   (None, common_flow_server h std script)"
  by (simp add: option_defs common_flow_server_def) (simp add: fresh_server_def blank_server_def)

lemma flow_handlers_names:
  "map (\<lambda>c. with_command (fst c) (snd c)) (flow_handlers h enable) =
   map (\<lambda>n. with_command n (CustomCommand (fh_commands h n))) (flow_commands enable)"
  by (simp add: flow_handlers_def comp_def)

lemma command_options:
  "map (flow_option h) (map (CommandOption \<circ> fst) (all_commands :: (string \<times> ('st, 'k, 'ch) command) list)) =
   map (\<lambda>c. with_command (fst c) (snd c)) (flow_handlers h True)"
proof -
  have "map (flow_option h) (map (CommandOption \<circ> fst) cs) =
      map (\<lambda>n. with_command n (CustomCommand (fh_commands h n))) (map fst cs)"
    for cs :: "(string \<times> ('st, 'k, 'ch) command) list"
    by simp
  then show ?thesis by (metis (no_types) all_command_names flow_handlers_names)
qed

lemma flow_handlers_new:
  "distinct (map fst (flow_handlers h enable))"
  "\<forall>c \<in> set (flow_handlers h enable). map_of (default_commands :: (string \<times> 'w command_handler) list) (fst c) = None"
  using flow_commands_new by (auto simp: flow_handlers_def comp_def)

definition flow_server :: "'w flow_hooks \<Rightarrow> bool \<Rightarrow> string list \<Rightarrow> string list \<Rightarrow> 'w v1_server" where
  "flow_server h enable std script =
     (if enable
      then (common_flow_server h std script)
        \<lparr>vs_lens_providers := [fh_code_lenses h], vs_resolve_address := Some (fh_address_import h),
         vs_resolve_contract_names := Some (fh_contract_names h),
         vs_commands := default_commands @ flow_handlers h True\<rparr>
      else common_flow_server h std script)"

lemma flow_options_accepted:
  "set_options (map (flow_option h) (snd (new_flow_integration enable ch
      :: ('st, 'k, 'ch, 'ty, 'v) integration \<times> server_option list))) (fresh_server std script) =
   (None, flow_server h enable std script)"
proof (cases enable)
  case True
  let ?s = "(common_flow_server h std script)
        \<lparr>vs_lens_providers := [fh_code_lenses h], vs_resolve_address := Some (fh_address_import h),
         vs_resolve_contract_names := Some (fh_contract_names h)\<rparr>"
  have client: "set_options (map (flow_option h) [CodeLensProvider, AddressImportResolver, AddressContractNamesResolver])
      (common_flow_server h std script) = (None, ?s)"
    by (simp add: option_defs) (simp add: common_flow_server_def fresh_server_def blank_server_def)
  have cmds: "vs_commands ?s = default_commands"
    by (simp add: common_flow_server_def fresh_server_def)
  have "set_options (map (\<lambda>c. with_command (fst c) (snd c)) (flow_handlers h True)) ?s =
      (None, ?s\<lparr>vs_commands := default_commands @ flow_handlers h True\<rparr>)"
    using set_options_commands [of "flow_handlers h True" ?s] flow_handlers_new [of h True] unfolding cmds
    by blast
  moreover have "snd (new_flow_integration enable ch :: ('st, 'k, 'ch, 'ty, 'v) integration \<times> server_option list) =
      [DiagnosticProvider, StringImportResolver, InitializationOptionsHandler, ExtendedStandardLibraryValues,
       IdentifierImportResolver, ProjectIdentityProvider, MemberAccountAccessHandler, DidOpenHook] @
      [CodeLensProvider, AddressImportResolver, AddressContractNamesResolver] @
      map (CommandOption \<circ> fst) (all_commands :: (string \<times> ('st, 'k, 'ch) command) list)"
    by (simp add: new_flow_integration_def True Let_def)
  ultimately show ?thesis
    unfolding flow_server_def
    by (simp only: map_append set_options_append common_options client command_options True
        prod.case option.case if_True)
next
  case False
  then show ?thesis
    using common_options [of h std script]
    by (simp add: new_flow_integration_def Let_def flow_server_def del: list.map set_options.simps)
qed

text \<open>
  The program starts: outside a terminal it always serves and never panics, that is, no option of the
  Flow integration is refused. The server then knows its three commands and, with the Flow client,
  the seven of the integration under their names, each with its own handler; code lenses and
  the resolution of addresses are there exactly with the Flow client, everything else in any case.
\<close>

theorem program_serves:
  "\<exists>s. run_with_stdio False (snd (new_flow_integration enable ch
        :: ('st, 'k, 'ch, 'ty, 'v) integration \<times> server_option list)) h std script = Serving s \<and>
     vs_commands s = default_commands @ map (\<lambda>n. (n, CustomCommand (fh_commands h n))) (flow_commands enable) \<and>
     vs_resolve_string s = Some (fh_string_import h) \<and> vs_resolve_identifier s = Some (fh_identifier_import h) \<and>
     vs_project_id s = fh_project_id h \<and> vs_account_access s = Some (fh_account_access h) \<and>
     vs_diagnostic_providers s = [fh_diagnostics h] \<and> vs_on_did_open s = Some (fh_did_open h) \<and>
     vs_resolve_address s = (if enable then Some (fh_address_import h) else None) \<and>
     vs_resolve_contract_names s = (if enable then Some (fh_contract_names h) else None) \<and>
     vs_lens_providers s = (if enable then [fh_code_lenses h] else [])"
proof -
  have "run_with_stdio False (snd (new_flow_integration enable ch
        :: ('st, 'k, 'ch, 'ty, 'v) integration \<times> server_option list)) h std script =
      Serving (flow_server h enable std script)"
    by (simp add: run_with_stdio_def new_server_v1_eq flow_options_accepted)
  then show ?thesis
    by (simp add: flow_server_def flow_handlers_def)
       (simp add: common_flow_server_def fresh_server_def blank_server_def)
qed

text \<open>
  Without the Flow client an address is not resolved: the import handler of the program's server
  fails every import of an address location that is not in the cache, and asks nothing.
\<close>

theorem addresses_need_flow_client:
  assumes "run_with_stdio False (snd (new_flow_integration False ch
        :: ('st, 'k, 'ch, 'ty, 'v) integration \<times> server_option list)) h std script = Serving s"
    and "\<not> builtin_location fe (AddressLocation a name)"
    and "checker_get cch \<lparr>key_project = project, key_location = AddressLocation a name\<rparr> = None"
  shows "v1_handle_import fe w s cfg project (Suc n) parent (AddressLocation a name) cch =
    Some (ImportFailed (v1_import_error (''cannot import '' @ vf_location_string fe (AddressLocation a name))), cch)"
proof -
  have "s = flow_server h False std script"
    using assms(1) by (simp add: run_with_stdio_def new_server_v1_eq flow_options_accepted)
  then have "vs_resolve_address s = None"
    by (simp add: flow_server_def common_flow_server_def fresh_server_def blank_server_def)
  then show ?thesis
    using assms(2,3)
    by (simp add: v1_handle_import.simps(2) builtin_location_def is_path_location_def
        location_to_path_def v1_resolve_import_def Let_def)
qed

section \<open>Names in the JavaScript host\<close>

lemma itoa_digits: "\<forall>c \<in> set (itoa n). c \<noteq> CHR 0x5F"
proof (induction n rule: itoa.induct)
  case (1 n)
  have "d < 10 \<Longrightarrow> digit_char d \<noteq> CHR 0x5F" for d
    using of_char_digit [of d] by (cases "digit_char d = CHR 0x5F") auto
  with 1 show ?case by (subst itoa.simps) auto
qed

lemma itoa_split:
  "itoa m @ CHR 0x5F # xs = itoa n @ CHR 0x5F # ys \<Longrightarrow> m = n \<and> xs = ys"
proof -
  have tw: "takeWhile (\<lambda>c. c \<noteq> CHR 0x5F) (itoa k @ CHR 0x5F # zs) = itoa k" for k zs
    using itoa_digits [of k] by (simp add: takeWhile_append)
  assume eq: "itoa m @ CHR 0x5F # xs = itoa n @ CHR 0x5F # ys"
  then have "itoa m = itoa n" using tw [of m xs] tw [of n ys] by simp
  with eq show ?thesis by simp
qed

text \<open>
  Servers in one JavaScript host do not mix: a name of a global function tells the number of the
  server and the function; and each call of the start function gives a new number.
\<close>

theorem global_names_unambiguous:
  "(global_function_name i a = global_function_name j b) = (i = j \<and> a = b) \<and> i < fst (start_called i)"
  using itoa_split [of i "a @ ''__''" j "b @ ''__''"]
  by (auto simp: global_function_name_def start_called_def)

text \<open>A read that the host answers leaves no function behind, and gives the host's message or error.\<close>

lemma read_then_called:
  assumes "global_function_name i ''toServer'' \<notin> set globals"
    and "to_server_called i args (read_started i globals) = Some (r, globals1)"
  shows "globals1 = globals"
proof -
  have "filter (\<lambda>n. n \<noteq> global_function_name i ''toServer'') (read_started i globals) = globals"
    using assms(1) by (auto simp: read_started_def ks_insert_def filter_id_conv intro: filter_True)
  with assms(2) show ?thesis
    by (auto simp: to_server_called_def Let_def split: list.splits if_splits)
qed

section \<open>The transport keeps messages in order\<close>

text \<open>
  The calls that return, with the messages that they take from the host and give to the server. A call
  that blocks or panics is not a step.
\<close>

inductive wt_step :: "string list \<Rightarrow> string list \<Rightarrow> 'f wasm_transport \<Rightarrow> 'f wasm_transport \<Rightarrow> bool" where
  wt_send: "to_server (v # vs) t = Returned t1 \<Longrightarrow> wt_step [js_string v] [] t t1"
| wt_send_nothing: "to_server [] t = Returned t1 \<Longrightarrow> wt_step [] [] t t1"
| wt_read: "transport_read t = Returned (Inr m, t1) \<Longrightarrow> wt_step [] [m] t t1"
| wt_read_end: "transport_read t = Returned (Inl e, t1) \<Longrightarrow> wt_step [] [] t t1"
| wt_write: "transport_write d t = Returned (e, t1) \<Longrightarrow> wt_step [] [] t t1"
| wt_set_client: "wt_step [] [] t (set_client args t)"
| wt_close: "transport_close t = Returned t1 \<Longrightarrow> wt_step [] [] t t1"

inductive wt_run :: "string list \<Rightarrow> string list \<Rightarrow> 'f wasm_transport \<Rightarrow> 'f wasm_transport \<Rightarrow> bool" where
  wt_start: "wt_run [] [] t t"
| wt_next: "wt_run ins outs t t1 \<Longrightarrow> wt_step i d t1 t2 \<Longrightarrow> wt_run (ins @ i) (outs @ d) t t2"

definition transport_inv :: "string list \<Rightarrow> string list \<Rightarrow> 'f wasm_transport \<Rightarrow> bool" where
  "transport_inv ins outs t \<longleftrightarrow> ins = outs @ wt_incoming t \<and> length (wt_incoming t) \<le> 64"

lemma wt_step_inv: "wt_step i d t t1 \<Longrightarrow> transport_inv ins outs t \<Longrightarrow> transport_inv (ins @ i) (outs @ d) t1"
  by (induction rule: wt_step.induct)
     (auto simp: transport_inv_def to_server_def transport_read_def transport_write_def set_client_def
        transport_close_def split: list.splits if_splits sum.splits option.splits)

text \<open>
  The transport keeps order: in every run, the messages that the host has sent are those that the
  server has read, in that order, followed by the ones in the channel, which are at most 64. None is
  lost, repeated or overtaken, and closing drops none: what was sent is still read.
\<close>

theorem transport_keeps_order:
  assumes "wt_run ins outs (new_wasm_transport :: 'f wasm_transport) t"
  shows "ins = outs @ wt_incoming t \<and> length (wt_incoming t) \<le> 64"
proof -
  have "transport_inv [] [] (new_wasm_transport :: 'f wasm_transport)"
    by (simp add: transport_inv_def new_wasm_transport_def)
  with assms have "transport_inv ins outs t"
    by (induction ins outs "new_wasm_transport :: 'f wasm_transport" t rule: wt_run.induct)
       (auto intro: wt_step_inv)
  then show ?thesis by (simp add: transport_inv_def)
qed

text \<open>
  The transport has three ways to fail that its comment does not mention: the 65th unread message
  blocks the host, a message after the close panics, and so does an answer before the host has set
  its function.
\<close>

theorem transport_failures:
  "to_server [JsText m] (new_wasm_transport\<lparr>wt_incoming := replicate 64 x\<rparr>) = Blocked \<and>
   to_server [JsText m] (new_wasm_transport\<lparr>wt_closed := True\<rparr>) = Panicked \<and>
   transport_write (Inr m) new_wasm_transport = Panicked \<and>
   transport_read (new_wasm_transport\<lparr>wt_closed := True\<rparr>) =
     Returned (Inl ''stream closed'', new_wasm_transport\<lparr>wt_closed := True\<rparr>)"
  by (simp add: to_server_def transport_write_def transport_read_def new_wasm_transport_def)

section \<open>Examples\<close>

definition sent_once :: "unit wasm_transport" where
  "sent_once = new_wasm_transport\<lparr>wt_incoming := [''hello'']\<rparr>"

theorem transport_keeps_order_witness:
  "wt_incoming sent_once = [''hello''] \<and> [''hello''] = [] @ wt_incoming sent_once"
proof -
  have "to_server [JsText ''hello''] new_wasm_transport = Returned sent_once"
    by (simp add: to_server_def sent_once_def new_wasm_transport_def)
  then have "wt_run ([] @ [js_string (JsText ''hello'')]) ([] @ []) new_wasm_transport sent_once"
    by (intro wt_next [OF wt_start] wt_send)
  from transport_keeps_order [OF this] show ?thesis by (simp add: sent_once_def)
qed

definition no_hooks :: "unit flow_hooks" where
  "no_hooks =
     \<lparr>fh_diagnostics = (\<lambda>w u v c. Inr []), fh_string_import = (\<lambda>w p l. Inl ''none''),
      fh_initialize = (\<lambda>w o1. None), fh_standard_values = [], fh_identifier_import = (\<lambda>w p l. Inl ''none''),
      fh_project_id = (\<lambda>w u. []), fh_account_access = (\<lambda>w p c l. False), fh_did_open = (\<lambda>w u t. []),
      fh_code_lenses = (\<lambda>w u v c. Inr []), fh_address_import = (\<lambda>w p l. Inl ''none''),
      fh_contract_names = (\<lambda>w a. Inr []), fh_commands = (\<lambda>n w args. Inl n)\<rparr>"

theorem addresses_need_flow_client_witness:
  "v1_handle_import demo_front () (flow_server no_hooks False [] []) demo_config [] (Suc 0) (StringLocation ''/a.cdc'')
     (AddressLocation ''1'' ''A'') [] =
   Some (ImportFailed (v1_import_error (''cannot import '' @ ''?'')), [])"
proof -
  have served: "run_with_stdio False (snd (new_flow_integration False ()
        :: (unit, unit, unit, unit, unit) integration \<times> server_option list)) no_hooks [] [] =
      Serving (flow_server no_hooks False [] [])"
    by (simp add: run_with_stdio_def new_server_v1_eq flow_options_accepted)
  have "\<not> builtin_location demo_front (AddressLocation ''1'' ''A'')"
    by (simp add: builtin_location_def demo_front_def)
  from addresses_need_flow_client [OF served this, of "[]" "[]" "()" demo_config 0 "StringLocation ''/a.cdc''"]
  show ?thesis by (simp add: checker_get_def demo_front_def)
qed

end
