(* ===== verification/ProtocolJson.thy ===== *)
theory ProtocolJson
  imports ImportResolvers
begin

text \<open>
  How the protocol's types are written as JSON and read back: Go's \<^verbatim>\<open>encoding/json\<close> on structs,
  slices, maps, pointers and basic types, as its documentation states it, with the unions of
  src/languageserver/protocol/json.go and the two-way choice of documentchanges.go. A type is given by
  its shape; \<^verbatim>\<open>ProtocolTypes\<close> and \<^verbatim>\<open>ProtocolMessages\<close> have the shapes.

  Objects are read without repeated keys and the text of an untyped value is kept. A map's entries are
  listed in the order of their keys, in which they are written. A pointer that is not nil has the value
  that it points to, which is not nil itself.

  A union is \<open>separable\<close> when no alternative reads what a later one writes, and an alternative is
  \<open>shadowed\<close> when an earlier one reads all that it writes; both are decided on the shapes. The main
  lemmas are \<open>text_kept\<close>, \<open>union_kept\<close> and \<open>union_shadowed\<close>.
\<close>

section \<open>Shapes and values\<close>

text \<open>A field has its JSON name, whether it is omitted when empty, and its type.\<close>

datatype shape =
    SString
  | SBool
  | SUint32
  | SInt32
  | SAny
  | SPtr shape
  | SList shape
  | SMap shape
  | SStruct "field list"
  | SUnion "shape list"
  | SByKey string shape shape
and field = Field (field_name: string) (field_omit: bool) (field_shape: shape)

datatype go_value =
    GNil
  | GString string
  | GBool bool
  | GNumber int
  | GAny json
  | GSeq "go_value list"
  | GDict "(string \<times> go_value) list"
  | GStruct "go_value list"
  | GAlt nat go_value

primrec zero_value :: "shape \<Rightarrow> go_value" and zero_field :: "field \<Rightarrow> go_value" where
  "zero_value SString = GString ''''"
| "zero_value SBool = GBool False"
| "zero_value SUint32 = GNumber 0"
| "zero_value SInt32 = GNumber 0"
| "zero_value SAny = GNil"
| "zero_value (SPtr s) = GNil"
| "zero_value (SList s) = GNil"
| "zero_value (SMap s) = GNil"
| "zero_value (SStruct fs) = GStruct (map zero_field fs)"
| "zero_value (SUnion ss) = GNil"
| "zero_value (SByKey k s1 s2) = GNil"
| "zero_field (Field n omit s) = zero_value s"

text \<open>What \<^verbatim>\<open>omitempty\<close> leaves out: never a struct, and so never a union.\<close>

fun is_empty :: "shape \<Rightarrow> go_value \<Rightarrow> bool" where
  "is_empty (SStruct fs) v = False"
| "is_empty (SUnion ss) v = False"
| "is_empty (SByKey k s1 s2) v = False"
| "is_empty (SList s) v = (v = GNil \<or> v = GSeq [])"
| "is_empty (SMap s) v = (v = GNil \<or> v = GDict [])"
| "is_empty s v = (v = zero_value s)"

section \<open>Numbers\<close>

definition int_text :: "int \<Rightarrow> string" where
  "int_text n = (if n < 0 then CHR ''-'' # itoa (nat (- n)) else itoa (nat n))"

definition is_digit :: "char \<Rightarrow> bool" where
  "is_digit c \<longleftrightarrow> 48 \<le> (of_char c :: nat) \<and> (of_char c :: nat) \<le> 57"

definition parse_nat :: "string \<Rightarrow> int option" where
  "parse_nat t = (if t \<noteq> '''' \<and> list_all is_digit t then Some (int (atoi_digits t 0)) else None)"

definition parse_int :: "string \<Rightarrow> int option" where
  "parse_int t =
     (case t of c # cs \<Rightarrow> if c = CHR ''-'' then map_option uminus (parse_nat cs) else parse_nat t | [] \<Rightarrow> None)"

definition in_u32 :: "int \<Rightarrow> bool" where "in_u32 n \<longleftrightarrow> 0 \<le> n \<and> n < 2 ^ 32"
definition in_s32 :: "int \<Rightarrow> bool" where "in_s32 n \<longleftrightarrow> - (2 ^ 31) \<le> n \<and> n < 2 ^ 31"

section \<open>Writing\<close>

text \<open>A value that is not of the type has no text; the union's method returns an error for it.\<close>

fun write_fields :: "(go_value \<Rightarrow> (string \<times> json) list option) list \<Rightarrow> go_value list \<Rightarrow> (string \<times> json) list option" where
  "write_fields [] [] = Some []"
| "write_fields (w # ws) (v # vs) =
     (case w v of None \<Rightarrow> None | Some m \<Rightarrow> map_option ((@) m) (write_fields ws vs))"
| "write_fields _ _ = None"

definition write_dict :: "(go_value \<Rightarrow> json option) \<Rightarrow> (string \<times> go_value) list \<Rightarrow> json option" where
  "write_dict w m =
     (if distinct (map fst m) then map_option (\<lambda>js. JObj (zip (map fst m) js)) (those (map (\<lambda>e. w (snd e)) m))
      else None)"

definition write_union :: "(go_value \<Rightarrow> json option) list \<Rightarrow> go_value \<Rightarrow> json option" where
  "write_union ws v =
     (case v of
        GNil \<Rightarrow> Some JNull
      | GAlt i x \<Rightarrow> if i < length ws then (ws ! i) x else None
      | _ \<Rightarrow> None)"

primrec marshal :: "shape \<Rightarrow> go_value \<Rightarrow> json option"
and marshal_field :: "field \<Rightarrow> go_value \<Rightarrow> (string \<times> json) list option" where
  "marshal SString = (\<lambda>v. case v of GString t \<Rightarrow> Some (JStr t) | _ \<Rightarrow> None)"
| "marshal SBool = (\<lambda>v. case v of GBool b \<Rightarrow> Some (JBool b) | _ \<Rightarrow> None)"
| "marshal SUint32 = (\<lambda>v. case v of GNumber n \<Rightarrow> if in_u32 n then Some (JNum (int_text n)) else None | _ \<Rightarrow> None)"
| "marshal SInt32 = (\<lambda>v. case v of GNumber n \<Rightarrow> if in_s32 n then Some (JNum (int_text n)) else None | _ \<Rightarrow> None)"
| "marshal SAny = (\<lambda>v. case v of GNil \<Rightarrow> Some JNull | GAny j \<Rightarrow> if j = JNull then None else Some j | _ \<Rightarrow> None)"
| "marshal (SPtr s) = (\<lambda>v. if v = GNil then Some JNull else marshal s v)"
| "marshal (SList s) = (\<lambda>v. case v of GNil \<Rightarrow> Some JNull | GSeq vs \<Rightarrow> map_option JArr (those (map (marshal s) vs)) | _ \<Rightarrow> None)"
| "marshal (SMap s) = (\<lambda>v. case v of GNil \<Rightarrow> Some JNull | GDict m \<Rightarrow> write_dict (marshal s) m | _ \<Rightarrow> None)"
| "marshal (SStruct fs) = (\<lambda>v. case v of GStruct vs \<Rightarrow> map_option JObj (write_fields (map marshal_field fs) vs) | _ \<Rightarrow> None)"
| "marshal (SUnion ss) = write_union (map marshal ss)"
| "marshal (SByKey k s1 s2) =
     (\<lambda>v. case v of GAlt i x \<Rightarrow> if i = 0 then marshal s1 x else if i = 1 then marshal s2 x else None | _ \<Rightarrow> None)"
| "marshal_field (Field n omit s) =
     (\<lambda>v. if omit \<and> is_empty s v then Some [] else map_option (\<lambda>j. [(n, j)]) (marshal s v))"

section \<open>Reading\<close>

text \<open>The value of a field in an object: keys match without regard to case, the last one wins.\<close>

definition field_json :: "string \<Rightarrow> (string \<times> json) list \<Rightarrow> json option" where
  "field_json n m = map_option snd (find (\<lambda>e. to_lower (fst e) = to_lower n) (rev m))"

text \<open>The alternatives in their order; the first that reads without an error is taken.\<close>

fun read_union :: "nat \<Rightarrow> (json \<Rightarrow> go_value option) list \<Rightarrow> json \<Rightarrow> go_value option" where
  "read_union i [] j = None"
| "read_union i (r # rs) j =
     (case r j of Some v \<Rightarrow> Some (GAlt i v) | None \<Rightarrow> read_union (Suc i) rs j)"

text \<open>
  Null leaves a zero value, which is also what a pointer, slice, map or union has for it. The choice by
  key looks for the exact key; the text null is an object without keys there.
\<close>

primrec unmarshal :: "shape \<Rightarrow> json \<Rightarrow> go_value option"
and unmarshal_field :: "field \<Rightarrow> (string \<times> json) list \<Rightarrow> go_value option" where
  "unmarshal SString = (\<lambda>j. case j of JNull \<Rightarrow> Some (GString '''') | JStr t \<Rightarrow> Some (GString t) | _ \<Rightarrow> None)"
| "unmarshal SBool = (\<lambda>j. case j of JNull \<Rightarrow> Some (GBool False) | JBool b \<Rightarrow> Some (GBool b) | _ \<Rightarrow> None)"
| "unmarshal SUint32 = (\<lambda>j. case j of JNull \<Rightarrow> Some (GNumber 0)
     | JNum t \<Rightarrow> (case parse_nat t of Some n \<Rightarrow> if in_u32 n then Some (GNumber n) else None | None \<Rightarrow> None) | _ \<Rightarrow> None)"
| "unmarshal SInt32 = (\<lambda>j. case j of JNull \<Rightarrow> Some (GNumber 0)
     | JNum t \<Rightarrow> (case parse_int t of Some n \<Rightarrow> if in_s32 n then Some (GNumber n) else None | None \<Rightarrow> None) | _ \<Rightarrow> None)"
| "unmarshal SAny = (\<lambda>j. Some (if j = JNull then GNil else GAny j))"
| "unmarshal (SPtr s) = (\<lambda>j. if j = JNull then Some GNil else unmarshal s j)"
| "unmarshal (SList s) = (\<lambda>j. case j of JNull \<Rightarrow> Some GNil
     | JArr js \<Rightarrow> map_option GSeq (those (map (unmarshal s) js)) | _ \<Rightarrow> None)"
| "unmarshal (SMap s) = (\<lambda>j. case j of JNull \<Rightarrow> Some GNil
     | JObj m \<Rightarrow> map_option (\<lambda>vs. GDict (zip (map fst m) vs)) (those (map (\<lambda>e. unmarshal s (snd e)) m)) | _ \<Rightarrow> None)"
| "unmarshal (SStruct fs) = (\<lambda>j. case j of JNull \<Rightarrow> Some (zero_value (SStruct fs))
     | JObj m \<Rightarrow> map_option GStruct (those (map (\<lambda>r. r m) (map unmarshal_field fs))) | _ \<Rightarrow> None)"
| "unmarshal (SUnion ss) = (\<lambda>j. if j = JNull then Some GNil else read_union 0 (map unmarshal ss) j)"
| "unmarshal (SByKey k s1 s2) = (\<lambda>j.
     if j = JNull then map_option (GAlt 1) (unmarshal s2 j)
     else case j of
            JObj m \<Rightarrow> if map_of m k \<noteq> None then map_option (GAlt 0) (unmarshal s1 j) else map_option (GAlt 1) (unmarshal s2 j)
          | _ \<Rightarrow> None)"
| "unmarshal_field (Field n omit s) =
     (\<lambda>m. case field_json n m of None \<Rightarrow> Some (zero_value s) | Some j \<Rightarrow> unmarshal s j)"

section \<open>Well-formed types\<close>

datatype kind = KNull | KBool | KNum | KStr | KArr | KObj

fun kind_of :: "json \<Rightarrow> kind" where
  "kind_of JNull = KNull" | "kind_of (JBool b) = KBool" | "kind_of (JNum t) = KNum"
| "kind_of (JStr t) = KStr" | "kind_of (JArr js) = KArr" | "kind_of (JObj m) = KObj"

definition all_kinds :: "kind list" where "all_kinds = [KNull, KBool, KNum, KStr, KArr, KObj]"

text \<open>The kinds of JSON that a type writes, and those that it reads.\<close>

primrec outs :: "shape \<Rightarrow> kind list" and outs_field :: "field \<Rightarrow> kind list" where
  "outs SString = [KStr]" | "outs SBool = [KBool]" | "outs SUint32 = [KNum]" | "outs SInt32 = [KNum]"
| "outs SAny = all_kinds" | "outs (SPtr s) = KNull # outs s" | "outs (SList s) = [KNull, KArr]"
| "outs (SMap s) = [KNull, KObj]" | "outs (SStruct fs) = [KObj]" | "outs (SUnion ss) = KNull # concat (map outs ss)"
| "outs (SByKey k s1 s2) = outs s1 @ outs s2"
| "outs_field (Field n omit s) = outs s"

primrec ins :: "shape \<Rightarrow> kind list" and ins_field :: "field \<Rightarrow> kind list" where
  "ins SString = [KNull, KStr]" | "ins SBool = [KNull, KBool]" | "ins SUint32 = [KNull, KNum]"
| "ins SInt32 = [KNull, KNum]" | "ins SAny = all_kinds" | "ins (SPtr s) = KNull # ins s"
| "ins (SList s) = [KNull, KArr]" | "ins (SMap s) = [KNull, KObj]" | "ins (SStruct fs) = [KNull, KObj]"
| "ins (SUnion ss) = KNull # concat (map ins ss)" | "ins (SByKey k s1 s2) = KNull # ins s1 @ ins s2"
| "ins_field (Field n omit s) = ins s"

text \<open>Only nil is written as null: a union with a nil alternative would not be told from a nil pointer.\<close>

fun clean_omit :: "shape \<Rightarrow> bool" where
  "clean_omit (SPtr s) = clean_omit s"
| "clean_omit (SUnion ss) = (KNull \<notin> set (concat (map outs ss)))"
| "clean_omit (SByKey k s1 s2) = (KNull \<notin> set (outs s1 @ outs s2))"
| "clean_omit s = True"

definition same_name :: "field \<Rightarrow> field \<Rightarrow> bool" where
  "same_name f g \<longleftrightarrow> to_lower (field_name f) = to_lower (field_name g)"

definition has_key :: "string \<Rightarrow> shape \<Rightarrow> bool" where
  "has_key k s = (case s of SStruct fs \<Rightarrow> list_ex (\<lambda>f. field_name f = k \<and> \<not> field_omit f) fs | _ \<Rightarrow> False)"

definition lacks_key :: "string \<Rightarrow> shape \<Rightarrow> bool" where
  "lacks_key k s = (case s of SStruct fs \<Rightarrow> list_all (\<lambda>f. field_name f \<noteq> k) fs | _ \<Rightarrow> False)"

text \<open>Names are distinct without regard to case; \<open>c\<close> is asked of the alternatives of every union.\<close>

primrec checked :: "(shape list \<Rightarrow> bool) \<Rightarrow> shape \<Rightarrow> bool" and checked_field :: "(shape list \<Rightarrow> bool) \<Rightarrow> field \<Rightarrow> bool" where
  "checked c SString = True" | "checked c SBool = True" | "checked c SUint32 = True" | "checked c SInt32 = True"
| "checked c SAny = True" | "checked c (SPtr s) = checked c s" | "checked c (SList s) = checked c s"
| "checked c (SMap s) = checked c s"
| "checked c (SStruct fs) \<longleftrightarrow>
     distinct (map (\<lambda>f. to_lower (field_name f)) fs) \<and> list_all id (map (checked_field c) fs)"
| "checked c (SUnion ss) \<longleftrightarrow> c ss \<and> list_all id (map (checked c) ss)"
| "checked c (SByKey k s1 s2) \<longleftrightarrow> has_key k s1 \<and> lacks_key k s2 \<and> checked c s1 \<and> checked c s2"
| "checked_field c (Field n omit s) \<longleftrightarrow> (omit \<longrightarrow> clean_omit s) \<and> checked c s"

abbreviation wf_shape :: "shape \<Rightarrow> bool" where "wf_shape \<equiv> checked (\<lambda>_. True)"

text \<open>Two structs are apart when a field that one always writes cannot be read by the other.\<close>

definition no_common :: "shape \<Rightarrow> shape \<Rightarrow> bool" where
  "no_common s1 s2 = list_all (\<lambda>k. k \<notin> set (ins s1)) (outs s2)"

definition apart :: "shape \<Rightarrow> shape \<Rightarrow> bool" where
  "apart s1 s2 \<longleftrightarrow>
     list_all (\<lambda>k. k = KNull \<or> k \<notin> set (ins s1)) (outs s2) \<or>
     (case (s1, s2) of
        (SStruct fs, SStruct gs) \<Rightarrow>
          list_ex (\<lambda>g. \<not> field_omit g \<and>
            list_ex (\<lambda>f. same_name f g \<and> no_common (field_shape f) (field_shape g)) fs) gs
      | _ \<Rightarrow> False)"

fun separable :: "shape list \<Rightarrow> bool" where
  "separable [] = True"
| "separable (s # ss) = (list_all (apart s) ss \<and> separable ss)"

text \<open>The first reads everything that the second writes.\<close>

primrec covers :: "shape \<Rightarrow> shape \<Rightarrow> bool" and covers_field :: "field \<Rightarrow> field list \<Rightarrow> bool" where
  "covers SString s2 = (s2 = SString)" | "covers SBool s2 = (s2 = SBool)" | "covers SUint32 s2 = (s2 = SUint32)"
| "covers SInt32 s2 = (s2 = SInt32)" | "covers SAny s2 = True"
| "covers (SPtr s) s2 = (case s2 of SPtr t \<Rightarrow> covers s t | _ \<Rightarrow> False)"
| "covers (SList s) s2 = (case s2 of SList t \<Rightarrow> covers s t | _ \<Rightarrow> False)"
| "covers (SMap s) s2 = (s2 = SMap s)"
| "covers (SStruct fs) s2 = (case s2 of SStruct gs \<Rightarrow> list_all (\<lambda>p. p gs) (map covers_field fs) | _ \<Rightarrow> False)"
| "covers (SUnion ss) s2 = (s2 = SUnion ss \<or> list_ex (\<lambda>p. p s2) (map covers ss))"
| "covers (SByKey k s t) s2 = (s2 = SByKey k s t)"
| "covers_field (Field n omit s) gs =
     list_all (\<lambda>g. to_lower n = to_lower (field_name g) \<longrightarrow> covers s (field_shape g)) gs"

definition shadowed :: "shape list \<Rightarrow> nat list" where
  "shadowed ss = filter (\<lambda>j. list_ex (\<lambda>s. covers s (ss ! j)) (take j ss)) [0..<length ss]"

section \<open>Lemmas\<close>

text \<open>The letters by their bits, which the checks below evaluate.\<close>

lemma lower_char_bits [code]:
  "lower_char (Char b0 b1 b2 b3 b4 b5 b6 b7) =
     (if \<not> b7 \<and> b6 \<and> \<not> b5 \<and> (b0 \<or> b1 \<or> b2 \<or> b3 \<or> b4) \<and> \<not> (b4 \<and> b3 \<and> (b2 \<or> b1 \<and> b0))
      then Char b0 b1 b2 b3 b4 True b6 b7 else Char b0 b1 b2 b3 b4 b5 b6 b7)"
  by (cases b0; cases b1; cases b2; cases b3; cases b4; cases b5; cases b6; cases b7) (simp_all add: lower_char_def char_of_def bit_0)

lemma shape_induct [case_names String Bool Uint32 Int32 Any Ptr List Map Struct Union ByKey]:
  assumes "P SString" "P SBool" "P SUint32" "P SInt32" "P SAny"
    and "\<And>s. P s \<Longrightarrow> P (SPtr s)" "\<And>s. P s \<Longrightarrow> P (SList s)" "\<And>s. P s \<Longrightarrow> P (SMap s)"
    and "\<And>fs. (\<And>f. f \<in> set fs \<Longrightarrow> P (field_shape f)) \<Longrightarrow> P (SStruct fs)"
    and "\<And>ss. (\<And>s. s \<in> set ss \<Longrightarrow> P s) \<Longrightarrow> P (SUnion ss)"
    and "\<And>k s1 s2. P s1 \<Longrightarrow> P s2 \<Longrightarrow> P (SByKey k s1 s2)"
  shows "P s"
  by (rule shape.induct [of P "\<lambda>f. P (field_shape f)"]) (use assms in auto)

lemma marshal_field_eq [simp]:
  "marshal_field f v =
     (if field_omit f \<and> is_empty (field_shape f) v then Some []
      else map_option (\<lambda>j. [(field_name f, j)]) (marshal (field_shape f) v))"
  by (cases f) simp

lemma unmarshal_field_eq [simp]:
  "unmarshal_field f m =
     (case field_json (field_name f) m of None \<Rightarrow> Some (zero_value (field_shape f)) | Some j \<Rightarrow> unmarshal (field_shape f) j)"
  by (cases f) (simp split: option.split)

lemma checked_field_eq [simp]:
  "checked_field c f \<longleftrightarrow> (field_omit f \<longrightarrow> clean_omit (field_shape f)) \<and> checked c (field_shape f)"
  by (cases f) simp

lemma covers_field_eq [simp]:
  "covers_field f gs = list_all (\<lambda>g. same_name f g \<longrightarrow> covers (field_shape f) (field_shape g)) gs"
  by (cases f) (simp add: same_name_def)

lemma zero_field_eq [simp]: "zero_field f = zero_value (field_shape f)"
  by (cases f) simp

lemma parse_nat_itoa: "parse_nat (itoa n) = Some (int n)"
proof -
  have "itoa k \<noteq> '''' \<and> list_all is_digit (itoa k)" for k
  proof (induction k rule: itoa.induct)
    case (1 k)
    have "is_digit (digit_char d)" if "d < 10" for d using that by (simp add: is_digit_def of_char_digit)
    with 1 show ?case by (subst (1 2) itoa.simps) auto
  qed
  then show ?thesis by (simp add: parse_nat_def atoi_itoa)
qed

lemma parse_int_text [simp]:
  "0 \<le> n \<Longrightarrow> parse_nat (int_text n) = Some n" "parse_int (int_text n) = Some n"
proof -
  have pos: "0 \<le> n \<Longrightarrow> parse_nat (int_text n) = Some n" for n
    by (simp add: int_text_def parse_nat_itoa)
  then show "0 \<le> n \<Longrightarrow> parse_nat (int_text n) = Some n" .
  have digit: "\<exists>c cs. itoa k = c # cs \<and> c \<noteq> CHR ''-''" for k
  proof (induction k rule: itoa.induct)
    case (1 k)
    have "digit_char d \<noteq> CHR ''-''" if "d < 10" for d
      using of_char_digit [OF that] by (cases "digit_char d = CHR ''-''") auto
    with 1 show ?case by (subst itoa.simps) auto
  qed
  show "parse_int (int_text n) = Some n"
  proof (cases "n < 0")
    case True
    then show ?thesis by (simp add: int_text_def parse_int_def parse_nat_itoa)
  next
    case False
    then have "parse_nat (int_text n) = Some n" using pos by simp
    moreover obtain c cs where "itoa (nat n) = c # cs" "c \<noteq> CHR ''-''" using digit by blast
    ultimately show ?thesis using False by (simp add: parse_int_def int_text_def)
  qed
qed

lemma kind_of_simps [simp]:
  "kind_of j = KNull \<longleftrightarrow> j = JNull" "kind_of j \<in> set all_kinds"
  by (cases j; simp add: all_kinds_def)+

lemma kind_outs: "marshal s v = Some j \<Longrightarrow> kind_of j \<in> set (outs s)"
proof (induction s arbitrary: v j rule: shape_induct)
  case (Union ss)
  then show ?case
    by (cases v) (auto simp: write_union_def split: if_splits intro!: bexI [OF _ nth_mem])
qed (auto simp: write_dict_def split: go_value.splits if_splits)

lemma kind_ins: "unmarshal s j = Some v \<Longrightarrow> kind_of j \<in> set (ins s)"
proof (induction s arbitrary: v j rule: shape_induct)
  case (Union ss)
  have "read_union i (map unmarshal ts) j = Some v \<Longrightarrow> set ts \<subseteq> set ss \<Longrightarrow> kind_of j \<in> set (concat (map ins ts))" for i ts
    by (induction ts arbitrary: i) (use Union.IH in \<open>auto split: option.splits\<close>)
  with Union.prems show ?case by (auto split: if_splits)
next
  case (ByKey k s1 s2)
  then show ?case by (auto split: if_splits json.splits) (metis kind_of.simps(6))+
qed (auto split: json.splits if_splits)

lemma those_Some: "those xs = Some ys \<longleftrightarrow> xs = map Some ys"
  by (induction xs arbitrary: ys) (auto split: option.splits)

lemma those_map_Some: "those (map f xs) = Some ys \<longleftrightarrow> list_all2 (\<lambda>x y. f x = Some y) xs ys"
  by (simp add: those_Some list_all2_conv_all_nth list_eq_iff_nth_eq) (metis nth_map)

lemma those_exists: "(\<And>x. x \<in> set xs \<Longrightarrow> f x \<noteq> None) \<Longrightarrow> \<exists>ys. those (map f xs) = Some ys"
  by (induction xs) fastforce+

lemma those_source: "those (map f xs) = Some ys \<Longrightarrow> y \<in> set ys \<Longrightarrow> \<exists>x \<in> set xs. f x = Some y"
  by (induction xs arbitrary: ys) (auto split: option.splits)

section \<open>What a struct writes\<close>

lemma field_json_append: "field_json n (m @ m1) = (case field_json n m1 of Some j \<Rightarrow> Some j | None \<Rightarrow> field_json n m)"
  by (auto simp: field_json_def find_append split: option.split)

lemma field_json_simps [simp]:
  "field_json n [] = None" "field_json n [(k, j)] = (if to_lower k = to_lower n then Some j else None)"
  by (simp_all add: field_json_def)

lemma field_json_None: "field_json n m = None \<longleftrightarrow> (\<forall>e \<in> set m. to_lower (fst e) \<noteq> to_lower n)"
  by (auto simp: field_json_def find_None_iff)

text \<open>Every key that is written is a field's, with a value that this field writes.\<close>

lemma written_from:
  "write_fields (map marshal_field gs) vs = Some m \<Longrightarrow> field_json n m = Some j \<Longrightarrow>
   \<exists>g \<in> set gs. \<exists>v. to_lower (field_name g) = to_lower n \<and> marshal (field_shape g) v = Some j"
proof (induction gs arbitrary: vs m)
  case (Cons g gs)
  then obtain v ws e m1 where v: "vs = v # ws" "marshal_field g v = Some e" "write_fields (map marshal_field gs) ws = Some m1"
    "m = e @ m1" by (cases vs) (auto split: option.splits simp del: marshal_field_eq)
  show ?case
  proof (cases "field_json n m1")
    case None
    with Cons.prems v show ?thesis by (auto simp: field_json_append split: if_splits)
  next
    case (Some x)
    with Cons.prems v Cons.IH [OF v(3)] show ?thesis by (auto simp: field_json_append)
  qed
qed (use field_json_simps in \<open>auto elim: write_fields.elims\<close>)

text \<open>A field's value in the object is the one it wrote.\<close>

definition written :: "(string \<times> json) list \<Rightarrow> field \<Rightarrow> go_value \<Rightarrow> bool" where
  "written m g v \<longleftrightarrow>
     (if field_omit g \<and> is_empty (field_shape g) v then field_json (field_name g) m = None
      else \<exists>j. marshal (field_shape g) v = Some j \<and> field_json (field_name g) m = Some j)"

lemma written_fields:
  "write_fields (map marshal_field gs) vs = Some m \<Longrightarrow> distinct (map (\<lambda>f. to_lower (field_name f)) gs) \<Longrightarrow>
   list_all2 (written m) gs vs"
proof (induction gs arbitrary: vs m)
  case (Cons g gs)
  then obtain v ws e m1 where v: "vs = v # ws" "marshal_field g v = Some e" "write_fields (map marshal_field gs) ws = Some m1"
    "m = e @ m1" by (cases vs) (auto split: option.splits simp del: marshal_field_eq)
  have none: "field_json (field_name g) m1 = None"
  proof (rule ccontr)
    assume "field_json (field_name g) m1 \<noteq> None"
    then obtain j where "field_json (field_name g) m1 = Some j" by blast
    from written_from [OF v(3) this] obtain h where
      "h \<in> set gs" "to_lower (field_name h) = to_lower (field_name g)" by blast
    with Cons.prems(2) show False by (auto simp: image_iff)
  qed
  have other: "field_json (field_name f) m = field_json (field_name f) m1" if "f \<in> set gs" for f
  proof -
    have "to_lower (field_name g) \<noteq> to_lower (field_name f)" using Cons.prems(2) that by force
    then have "field_json (field_name f) e = None" using v(2) by (auto split: if_splits)
    then show ?thesis by (simp add: v(4) field_json_append split: option.split)
  qed
  have "list_all2 (written m) gs ws"
  proof (rule list.rel_mono_strong)
    show "list_all2 (written m1) gs ws" using Cons.IH [OF v(3)] Cons.prems(2) by simp
  qed (simp add: written_def other)
  moreover have "written m g v"
    using v(2) none by (auto simp: written_def v(4) field_json_append split: if_splits)
  ultimately show ?case by (simp add: v(1))
qed (auto elim: write_fields.elims)

section \<open>Reading what was written\<close>

lemma null_accepted: "unmarshal s JNull \<noteq> None"
  by (induction s rule: shape_induct) auto

lemma nil_is_null: "unmarshal s j = Some GNil \<Longrightarrow> j = JNull"
proof (induction s arbitrary: j rule: shape_induct)
  case (Union ss)
  have "read_union i rs j \<noteq> Some GNil" for i rs by (induction rs arbitrary: i) (auto split: option.splits)
  with Union show ?case by (auto split: if_splits)
qed (auto split: json.splits if_splits option.splits)

lemma read_union_accepts: "r \<in> set rs \<Longrightarrow> r j \<noteq> None \<Longrightarrow> read_union i rs j \<noteq> None"
  by (induction rs arbitrary: i) (auto split: option.splits)

lemma has_keyD:
  assumes "has_key k (SStruct fs)" and "distinct (map (\<lambda>f. to_lower (field_name f)) fs)"
    and "marshal (SStruct fs) v = Some (JObj m)"
  shows "map_of m k \<noteq> None"
proof -
  obtain f where f: "f \<in> set fs" "field_name f = k" "\<not> field_omit f"
    using assms(1) by (auto simp: has_key_def list_ex_iff)
  have "write_fields (map marshal_field gs) vs = Some e \<Longrightarrow> f \<in> set gs \<Longrightarrow> k \<in> fst ` set e" for gs vs e
  proof (induction gs arbitrary: vs e)
    case (Cons g gs)
    then obtain v ws e0 e1 where "vs = v # ws" "marshal_field g v = Some e0" "write_fields (map marshal_field gs) ws = Some e1"
      "e = e0 @ e1" by (cases vs) (auto split: option.splits simp del: marshal_field_eq)
    with Cons f show ?case by (cases "f = g") (auto split: if_splits simp: image_iff)
  qed simp
  then show ?thesis using assms(3) f(1) by (auto simp: map_of_eq_None_iff split: go_value.splits)
qed

lemma lacks_keyD:
  assumes "lacks_key k (SStruct fs)" and "marshal (SStruct fs) v = Some (JObj m)"
  shows "map_of m k = None"
proof -
  have "write_fields (map marshal_field gs) vs = Some e \<Longrightarrow> fst ` set e \<subseteq> field_name ` set gs" for gs vs e
  proof (induction gs arbitrary: vs e)
    case (Cons g gs)
    then obtain v ws e0 e1 where v: "marshal_field g v = Some e0" "write_fields (map marshal_field gs) ws = Some e1"
      "e = e0 @ e1" by (cases vs) (auto split: option.splits simp del: marshal_field_eq)
    from v(1) have "fst ` set e0 \<subseteq> {field_name g}" by (auto split: if_splits)
    with Cons.IH [OF v(2)] show ?case unfolding v(3) set_append image_Un list.set image_insert by blast
  qed (auto elim: write_fields.elims)
  then have "fst ` set m \<subseteq> field_name ` set fs"
    using assms(2) by (auto split: go_value.splits)
  moreover have "k \<notin> field_name ` set fs" using assms(1) by (auto simp: lacks_key_def list_all_iff)
  ultimately show ?thesis unfolding map_of_eq_None_iff by blast
qed

lemma written_list:
  assumes "marshal (SList s) v = Some j"
  shows "j = JNull \<or> (\<exists>js. j = JArr js \<and> (\<forall>x \<in> set js. \<exists>y. marshal s y = Some x))"
proof (cases v)
  case (GSeq vs)
  with assms obtain js where js: "j = JArr js" "those (map (marshal s) vs) = Some js" by auto
  then have "\<forall>x \<in> set js. \<exists>y. marshal s y = Some x" using those_source [OF js(2)] by auto
  with js(1) show ?thesis by blast
qed (use assms in auto)

lemma read_list: "(\<And>x. x \<in> set js \<Longrightarrow> unmarshal s x \<noteq> None) \<Longrightarrow> unmarshal (SList s) (JArr js) \<noteq> None"
  using those_exists [of js "unmarshal s"] by auto

lemma written_map:
  assumes "marshal (SMap s) v = Some j"
  shows "j = JNull \<or> (\<exists>m. j = JObj m \<and> (\<forall>e \<in> set m. \<exists>y. marshal s y = Some (snd e)))"
proof (cases v)
  case (GDict m)
  with assms obtain js where js: "j = JObj (zip (map fst m) js)" "those (map (\<lambda>e. marshal s (snd e)) m) = Some js"
    by (auto simp: write_dict_def split: if_splits)
  have "\<exists>y. marshal s y = Some (snd e)" if "e \<in> set (zip (map fst m) js)" for e
  proof -
    have "snd e \<in> set js" using that by (metis prod.collapse set_zip_rightD)
    with those_source [OF js(2)] show ?thesis by auto
  qed
  with js(1) show ?thesis by auto
qed (use assms in auto)

lemma read_map: "(\<And>e. e \<in> set m \<Longrightarrow> unmarshal s (snd e) \<noteq> None) \<Longrightarrow> unmarshal (SMap s) (JObj m) \<noteq> None"
  using those_exists [of m "\<lambda>e. unmarshal s (snd e)"] by auto

text \<open>A type reads whatever it writes.\<close>

lemma accepts_own: "wf_shape s \<Longrightarrow> marshal s v = Some j \<Longrightarrow> unmarshal s j \<noteq> None"
proof (induction s arbitrary: v j rule: shape_induct)
  case (List s)
  from written_list [OF List.prems(2)] show ?case
  proof (elim disjE exE conjE)
    fix js assume js: "j = JArr js" "\<forall>x \<in> set js. \<exists>y. marshal s y = Some x"
    show ?thesis unfolding js(1) by (rule read_list) (use List js(2) in auto)
  qed simp
next
  case (Map s)
  from written_map [OF Map.prems(2)] show ?case
  proof (elim disjE exE conjE)
    fix m assume m: "j = JObj m" "\<forall>e \<in> set m. \<exists>y. marshal s y = Some (snd e)"
    show ?thesis unfolding m(1) by (rule read_map) (use Map m(2) in auto)
  qed simp
next
  case (Struct fs)
  then obtain vs m where j: "j = JObj m" "write_fields (map marshal_field fs) vs = Some m"
    by (auto split: go_value.splits)
  have "\<exists>ws. those (map (\<lambda>f. unmarshal_field f m) fs) = Some ws"
  proof (rule those_exists)
    fix f assume f: "f \<in> set fs"
    have "list_all2 (written m) fs vs" using written_fields [OF j(2)] Struct.prems(1) by simp
    with f obtain v where "written m f v" by (auto simp: list_all2_conv_all_nth in_set_conv_nth)
    then show "unmarshal_field f m \<noteq> None"
      using Struct.IH [OF f] Struct.prems(1) f
      by (auto simp: written_def list_all_iff split: if_splits)
  qed
  then show ?case by (auto simp: j(1) comp_def)
next
  case (Union ss)
  show ?case
  proof (cases "j = JNull")
    case False
    then obtain i x where i: "i < length ss" "marshal (ss ! i) x = Some j"
      using Union.prems(2) by (auto simp: write_union_def split: go_value.splits if_splits)
    then have "unmarshal (ss ! i) j \<noteq> None" using Union.IH [of "ss ! i"] Union.prems(1) by (simp add: list_all_iff)
    then show ?thesis using False i(1) read_union_accepts [of "unmarshal (ss ! i)" "map unmarshal ss" j 0] by auto
  qed simp
next
  case (ByKey k s1 s2)
  obtain fs gs where s: "s1 = SStruct fs" "s2 = SStruct gs"
    using ByKey.prems(1) by (auto simp: has_key_def lacks_key_def split: shape.splits)
  from ByKey.prems(2) obtain i x where ix: "v = GAlt i x" "i = 0 \<and> marshal s1 x = Some j \<or> i = 1 \<and> marshal s2 x = Some j"
    by (auto split: go_value.splits if_splits)
  then obtain m where m: "j = JObj m" by (auto simp: s split: go_value.splits)
  from ix(2) show ?case
  proof (elim disjE conjE)
    assume w: "marshal s1 x = Some j"
    then have "map_of m k \<noteq> None" using has_keyD ByKey.prems(1) m by (auto simp: s)
    then show ?thesis using ByKey.IH(1) [OF _ w] ByKey.prems(1) by (simp add: m)
  next
    assume w: "marshal s2 x = Some j"
    then have "map_of m k = None" using lacks_keyD ByKey.prems(1) m by (auto simp: s)
    then show ?thesis using ByKey.IH(2) [OF _ w] ByKey.prems(1) by (simp add: m)
  qed
qed (auto simp: in_u32_def split: go_value.splits if_splits)

lemma apart_rejects:
  assumes "apart s1 s2" and wf: "wf_shape s1" "wf_shape s2" and w: "marshal s2 v = Some j" and "j \<noteq> JNull"
  shows "unmarshal s1 j = None"
proof (cases "list_all (\<lambda>k. k = KNull \<or> k \<notin> set (ins s1)) (outs s2)")
  case True
  with kind_outs [OF w] assms(5) have "kind_of j \<notin> set (ins s1)" by (auto simp: list_all_iff)
  then show ?thesis using kind_ins by (cases "unmarshal s1 j") auto
next
  case False
  then obtain fs gs f g where s: "s1 = SStruct fs" "s2 = SStruct gs" and g: "g \<in> set gs" "\<not> field_omit g"
    and f: "f \<in> set fs" "same_name f g" "no_common (field_shape f) (field_shape g)"
    using assms(1) by (auto simp: apart_def list_ex_iff split: shape.splits)
  obtain vs m where j: "j = JObj m" "write_fields (map marshal_field gs) vs = Some m"
    using w by (auto simp: s split: go_value.splits)
  have "list_all2 (written m) gs vs" using written_fields [OF j(2)] wf(2) by (simp add: s)
  with g(1) obtain x where "written m g x" by (auto simp: list_all2_conv_all_nth in_set_conv_nth)
  with g(2) obtain i where "marshal (field_shape g) x = Some i" "field_json (field_name g) m = Some i"
    by (auto simp: written_def)
  moreover from this have "unmarshal (field_shape f) i = None"
    using f(3) kind_outs kind_ins [of "field_shape f" i] by (cases "unmarshal (field_shape f) i") (auto simp: no_common_def list_all_iff)
  moreover have "field_json (field_name f) m = field_json (field_name g) m"
    using f(2) by (simp add: field_json_def same_name_def)
  ultimately have "unmarshal_field f m = None" by simp
  then have "those (map (\<lambda>f. unmarshal_field f m) fs) = None"
    using f(1) by (cases "those (map (\<lambda>f. unmarshal_field f m) fs)")
      (auto simp: those_map_Some list_all2_conv_all_nth in_set_conv_nth)
  then show ?thesis by (simp add: s j(1) comp_def)
qed

lemma covers_accepts:
  "covers s1 s2 \<Longrightarrow> wf_shape s1 \<Longrightarrow> wf_shape s2 \<Longrightarrow> marshal s2 v = Some j \<Longrightarrow> unmarshal s1 j \<noteq> None"
proof (induction s1 arbitrary: s2 v j rule: shape_induct)
  case (Ptr s)
  then obtain t where t: "s2 = SPtr t" "covers s t" by (auto split: shape.splits)
  show ?case
  proof (cases "v = GNil")
    case False
    then have "unmarshal s j \<noteq> None" using Ptr.IH [OF t(2)] Ptr.prems by (simp add: t(1))
    then show ?thesis by simp
  qed (use Ptr.prems t in simp)
next
  case (List s)
  then obtain t where t: "s2 = SList t" "covers s t" by (auto split: shape.splits)
  from written_list [OF List.prems(4) [unfolded t(1)]] show ?case
  proof (elim disjE exE conjE)
    fix js assume js: "j = JArr js" "\<forall>x \<in> set js. \<exists>y. marshal t y = Some x"
    show ?thesis unfolding js(1) by (rule read_list) (use List js(2) t in auto)
  qed simp
next
  case (Map s)
  then have "s2 = SMap s" by simp
  with Map.prems(2,4) show ?case using accepts_own by blast
next
  case (Struct fs)
  then obtain gs where gs: "s2 = SStruct gs" by (auto split: shape.splits)
  obtain vs m where j: "j = JObj m" "write_fields (map marshal_field gs) vs = Some m"
    using Struct.prems(4) by (auto simp: gs split: go_value.splits)
  have "\<exists>ws. those (map (\<lambda>f. unmarshal_field f m) fs) = Some ws"
  proof (rule those_exists)
    fix f assume f: "f \<in> set fs"
    show "unmarshal_field f m \<noteq> None"
    proof (cases "field_json (field_name f) m")
      case (Some x)
      from written_from [OF j(2) this] obtain g y where g: "g \<in> set gs" "to_lower (field_name g) = to_lower (field_name f)"
        "marshal (field_shape g) y = Some x" by blast
      have "covers (field_shape f) (field_shape g)"
        using Struct.prems(1) f g(1,2) by (auto simp: gs list_all_iff same_name_def)
      moreover have "wf_shape (field_shape f)" "wf_shape (field_shape g)"
        using Struct.prems(2,3) f g(1) by (auto simp: gs list_all_iff)
      ultimately show ?thesis using Struct.IH [OF f] g(3) by (simp add: Some)
    qed simp
  qed
  then show ?case by (auto simp: j(1) comp_def)
next
  case (Union ss)
  show ?case
  proof (cases "s2 = SUnion ss \<or> j = JNull")
    case True
    with Union.prems(2,4) accepts_own null_accepted show ?thesis by blast
  next
    case False
    then obtain s where s: "s \<in> set ss" "covers s s2" using Union.prems(1) by (auto simp: list_ex_iff)
    then have "unmarshal s j \<noteq> None" using Union.IH Union.prems by (auto simp: list_all_iff)
    then show ?thesis using False s(1) read_union_accepts [of "unmarshal s" "map unmarshal ss" j 0] by auto
  qed
next
  case (ByKey k s t)
  then have "s2 = SByKey k s t" by simp
  with ByKey.prems(2,4) show ?case using accepts_own by blast
qed (auto simp: in_u32_def split: go_value.splits if_splits)


section \<open>What is kept\<close>

lemma checked_wf: "checked c s \<Longrightarrow> wf_shape s"
  by (induction s rule: shape_induct) (auto simp: list_all_iff)

lemma empty_zero: "is_empty s v \<Longrightarrow> is_empty s (zero_value s)"
  by (cases s) auto

lemma write_dict_empty:
  "write_dict w m \<noteq> Some JNull" "write_dict w m = Some (JObj []) \<longleftrightarrow> m = []" "write_dict w [] = Some (JObj [])"
  by (cases m; auto simp: write_dict_def split: if_splits option.splits)+

lemma clean_null: "clean_omit s \<Longrightarrow> v \<noteq> GNil \<Longrightarrow> marshal s v = Some j \<Longrightarrow> j \<noteq> JNull"
proof (induction s rule: clean_omit.induct)
  case (2 ss)
  then obtain i x where "i < length ss" "marshal (ss ! i) x = Some j"
    by (auto simp: write_union_def split: go_value.splits if_splits)
  with kind_outs have "kind_of j \<in> set (concat (map outs ss))" by force
  with 2 show ?case by auto
next
  case (3 k s1 s2)
  then obtain x where "marshal s1 x = Some j \<or> marshal s2 x = Some j"
    by (auto split: go_value.splits if_splits)
  with kind_outs have "kind_of j \<in> set (outs s1 @ outs s2)" by auto
  with 3 show ?case by auto
qed (auto simp: write_dict_empty split: go_value.splits if_splits)

lemma int_text_eq [simp]: "int_text m = int_text n \<longleftrightarrow> m = n"
  by (metis option.inject parse_int_text(2))

text \<open>A field that is omitted stays so, one that is written stays so.\<close>

lemma empty_same_text:
  assumes "clean_omit s" "marshal s v = Some j" "marshal s v' = Some j" "is_empty s v'"
  shows "is_empty s v"
proof (cases s)
  case (SPtr t)
  then show ?thesis using assms clean_null [of t v j] by (auto split: if_splits)
next
  case (SMap t)
  then show ?thesis using assms by (auto simp: write_dict_empty split: go_value.splits)
qed (use assms in \<open>auto simp: those_Some split: go_value.splits if_splits\<close>)


lemma read_union_first:
  "(\<And>k. k < n \<Longrightarrow> (rs ! k) j = None) \<Longrightarrow> n < length rs \<Longrightarrow> (rs ! n) j = Some y \<Longrightarrow>
   read_union i rs j = Some (GAlt (i + n) y)"
proof (induction rs arbitrary: i n)
  case (Cons r rs)
  show ?case
  proof (cases n)
    case (Suc m)
    have "r j = None" using Cons.prems(1) [of 0] Suc by simp
    moreover have "read_union (Suc i) rs j = Some (GAlt (Suc i + m) y)"
      by (rule Cons.IH) (use Cons.prems Suc in force)+
    ultimately show ?thesis using Suc by simp
  qed (use Cons.prems in simp)
qed simp

lemma separable_nth: "separable ss \<Longrightarrow> k < i \<Longrightarrow> i < length ss \<Longrightarrow> apart (ss ! k) (ss ! i)"
proof (induction ss arbitrary: k i)
  case (Cons s ss)
  then show ?case by (cases k; cases i) (auto simp: list_all_iff)
qed simp

text \<open>A union's text is read as the first alternative that accepts it.\<close>

lemma union_first:
  assumes "unmarshal (ss ! i) j \<noteq> None" "i < length ss" "j \<noteq> JNull"
  shows "\<exists>k \<le> i. \<exists>y. unmarshal (ss ! k) j = Some y \<and> unmarshal (SUnion ss) j = Some (GAlt k y)"
proof -
  define k where "k = (LEAST k. unmarshal (ss ! k) j \<noteq> None)"
  have k: "unmarshal (ss ! k) j \<noteq> None" "k \<le> i" "\<And>l. l < k \<Longrightarrow> unmarshal (ss ! l) j = None"
    unfolding k_def using LeastI [of "\<lambda>k. unmarshal (ss ! k) j \<noteq> None", OF assms(1)]
      Least_le [of "\<lambda>k. unmarshal (ss ! k) j \<noteq> None", OF assms(1)] not_less_Least by blast+
  then obtain y where y: "unmarshal (ss ! k) j = Some y" by blast
  have "read_union 0 (map unmarshal ss) j = Some (GAlt (0 + k) y)"
    by (rule read_union_first) (use k y assms(2) in simp_all)
  with assms(3) k(2) y show ?thesis by (intro exI [of _ k]) simp
qed

text \<open>An alternative of a separable union is read as itself.\<close>

lemma union_kept:
  assumes "separable ss" and wf: "wf_shape (SUnion ss)" and i: "i < length ss" "marshal (ss ! i) x = Some j" "j \<noteq> JNull"
  shows "\<exists>y. unmarshal (ss ! i) j = Some y \<and> unmarshal (SUnion ss) j = Some (GAlt i y)"
proof -
  have w: "wf_shape (ss ! k)" if "k < length ss" for k using wf that by (simp add: list_all_iff)
  obtain k y where k: "k \<le> i" "unmarshal (ss ! k) j = Some y" "unmarshal (SUnion ss) j = Some (GAlt k y)"
    using union_first [OF accepts_own [OF w [OF i(1)] i(2)] i(1,3)] by blast
  have "\<not> k < i" using apart_rejects [OF separable_nth [OF assms(1) _ i(1)] w w i(2,3)] i(1) k(2) by force
  with k show ?thesis by auto
qed

text \<open>An alternative that an earlier one covers is never read as itself.\<close>

lemma union_shadowed:
  assumes "k \<in> set (shadowed ss)" and wf: "wf_shape (SUnion ss)" and w: "marshal (ss ! k) x = Some j" "j \<noteq> JNull"
  shows "\<exists>i < k. \<exists>y. unmarshal (SUnion ss) j = Some (GAlt i y)"
proof -
  obtain i where i: "i < k" "k < length ss" "covers (ss ! i) (ss ! k)"
    using assms(1) by (auto simp: shadowed_def list_ex_iff in_set_conv_nth)
  then have "unmarshal (ss ! i) j \<noteq> None"
    using covers_accepts [OF i(3) _ _ w(1)] wf by (simp add: list_all_iff)
  from union_first [OF this _ w(2)] i(1,2) show ?thesis by (meson le_less_trans less_trans)
qed

lemma struct_kept:
  assumes "list_all2 (written m) fs vs" and "those (map (\<lambda>f. unmarshal_field f m) fs) = Some ws"
    and "write_fields (map marshal_field fs) vs = Some e"
    and "\<And>f v j w. f \<in> set fs \<Longrightarrow> marshal (field_shape f) v = Some j \<Longrightarrow> unmarshal (field_shape f) j = Some w \<Longrightarrow>
      marshal (field_shape f) w = Some j"
    and "\<And>f. f \<in> set fs \<Longrightarrow> field_omit f \<Longrightarrow> clean_omit (field_shape f)"
  shows "write_fields (map marshal_field fs) ws = Some e"
  using assms
proof (induction fs arbitrary: vs ws e)
  case (Cons f fs)
  obtain v vs' w ws' where vs: "vs = v # vs'" "ws = w # ws'" "written m f v" "list_all2 (written m) fs vs'"
    "unmarshal_field f m = Some w" "those (map (\<lambda>f. unmarshal_field f m) fs) = Some ws'"
    using Cons.prems(1,2) by (cases vs) (auto split: option.splits simp del: unmarshal_field_eq)
  obtain e1 e2 where e: "marshal_field f v = Some e1" "write_fields (map marshal_field fs) vs' = Some e2" "e = e1 @ e2"
    using Cons.prems(3) unfolding vs(1) list.map write_fields.simps by (auto split: option.splits simp del: marshal_field_eq)
  have "marshal_field f w = Some e1"
  proof (cases "field_omit f \<and> is_empty (field_shape f) v")
    case True
    with vs(3,5) have "w = zero_value (field_shape f)" by (simp add: written_def)
    with True e(1) empty_zero show ?thesis by auto
  next
    case False
    with vs(3) obtain j where j: "marshal (field_shape f) v = Some j" "field_json (field_name f) m = Some j"
      by (auto simp: written_def)
    have w: "marshal (field_shape f) w = Some j"
      using Cons.prems(4) [OF _ j(1)] vs(5) j(2) by simp
    have "\<not> (field_omit f \<and> is_empty (field_shape f) w)"
      using False empty_same_text [OF _ j(1) w] Cons.prems(5) by auto
    with False e(1) j(1) w show ?thesis by auto
  qed
  moreover have "write_fields (map marshal_field fs) ws' = Some e2"
    by (rule Cons.IH [OF vs(4,6) e(2)])
      (rule Cons.prems(4,5) [OF list.set_intros(2)]; assumption)+
  ultimately show ?case by (simp add: vs(2) e(3) del: marshal_field_eq)
qed auto

text \<open>Reading and writing again gives the same text.\<close>

lemma list_kept:
  assumes "those (map (marshal s) vs) = Some js" and "those (map (unmarshal s) js) = Some ws"
    and "\<And>v j w. marshal s v = Some j \<Longrightarrow> unmarshal s j = Some w \<Longrightarrow> marshal s w = Some j"
  shows "those (map (marshal s) ws) = Some js"
  using assms(1,2) unfolding those_map_Some list_all2_conv_all_nth by (metis assms(3))

lemma text_kept:
  "checked separable s \<Longrightarrow> marshal s v = Some j \<Longrightarrow> unmarshal s j = Some v' \<Longrightarrow> marshal s v' = Some j"
proof (induction s arbitrary: v j v' rule: shape_induct)
  case (Ptr s)
  show ?case
  proof (cases "j = JNull")
    case False
    then have "v \<noteq> GNil" "unmarshal s j = Some v'" using Ptr.prems by auto
    moreover from this nil_is_null False have "v' \<noteq> GNil" by blast
    moreover have "marshal s v' = Some j"
      by (rule Ptr.IH) (use Ptr.prems(1,2) calculation(1,2) in simp_all)
    ultimately show ?thesis by simp
  qed (use Ptr.prems(3) in simp)
next
  case (List s)
  have kept: "those (map (marshal s) ws) = Some js"
    if "those (map (marshal s) vs) = Some js" "those (map (unmarshal s) js) = Some ws" for vs js ws
    by (rule list_kept [OF that], rule List.IH) (use List.prems(1) in simp_all)
  show ?case
  proof (cases v)
    case (GSeq vs)
    with List.prems(2) obtain js where js: "j = JArr js" "those (map (marshal s) vs) = Some js" by auto
    with List.prems(3) obtain ws where ws: "v' = GSeq ws" "those (map (unmarshal s) js) = Some ws" by auto
    show ?thesis by (simp add: js(1) ws(1) kept [OF js(2) ws(2)])
  qed (use List.prems in auto)
next
  case (Map s)
  show ?case
  proof (cases v)
    case (GDict m)
    with Map.prems(2) obtain js where js: "j = JObj (zip (map fst m) js)" "distinct (map fst m)"
      "those (map (\<lambda>e. marshal s (snd e)) m) = Some js" by (auto simp: write_dict_def split: if_splits)
    have snd_map: "map (\<lambda>e. g (snd e)) xs = map g (map snd xs)" for g :: "'a \<Rightarrow> 'b" and xs :: "('c \<times> 'a) list"
      by simp
    note w = js(3) [unfolded snd_map]
    from w have len: "length js = length m" by (auto simp: those_map_Some dest: list_all2_lengthD)
    with Map.prems(3) js(1) obtain ws where ws: "v' = GDict (zip (map fst m) ws)" "those (map (unmarshal s) js) = Some ws"
      by (auto simp: snd_map simp del: map_map)
    have w': "those (map (marshal s) ws) = Some js"
      by (rule list_kept [OF w ws(2)], rule Map.IH) (use Map.prems(1) in simp_all)
    then have "length ws = length m" using len by (auto simp: those_map_Some dest: list_all2_lengthD)
    with w' js(1,2) show ?thesis by (simp add: ws(1) write_dict_def snd_map del: map_map)
  qed (use Map.prems in auto)
next
  case (Struct fs)
  then obtain vs m where j: "j = JObj m" "write_fields (map marshal_field fs) vs = Some m"
    by (auto split: go_value.splits)
  obtain ws where ws: "v' = GStruct ws" "those (map (\<lambda>f. unmarshal_field f m) fs) = Some ws"
    using Struct.prems(3) by (auto simp: j(1) comp_def)
  have wf: "checked separable (field_shape f)" "field_omit f \<Longrightarrow> clean_omit (field_shape f)" if "f \<in> set fs" for f
    using Struct.prems(1) that by (auto simp: list_all_iff)
  have "list_all2 (written m) fs vs" using written_fields [OF j(2)] Struct.prems(1) by simp
  then have "write_fields (map marshal_field fs) ws = Some m"
    using ws(2) j(2)
  proof (rule struct_kept)
    fix f v i w assume "f \<in> set fs" "marshal (field_shape f) v = Some i" "unmarshal (field_shape f) i = Some w"
    then show "marshal (field_shape f) w = Some i" using Struct.IH [OF _ wf(1)] by blast
  qed (rule wf(2))
  then show ?case by (simp add: ws(1) j(1))
next
  case (Union ss)
  show ?case
  proof (cases "j = JNull")
    case False
    then obtain i x where i: "i < length ss" "marshal (ss ! i) x = Some j"
      using Union.prems(2) by (auto simp: write_union_def split: go_value.splits if_splits)
    have sep: "separable ss" "wf_shape (SUnion ss)" "checked separable (ss ! i)"
      using Union.prems(1) checked_wf [OF Union.prems(1)] i(1) by (auto simp: list_all_iff)
    obtain y where y: "unmarshal (ss ! i) j = Some y" "v' = GAlt i y"
      using union_kept [OF sep(1,2) i False] Union.prems(3) by auto
    have "marshal (ss ! i) y = Some j" by (rule Union.IH [OF _ sep(3) i(2) y(1)]) (use i(1) in simp)
    then show ?thesis by (simp add: y(2) write_union_def i(1))
  qed (use Union.prems(3) in \<open>simp add: write_union_def\<close>)
next
  case (ByKey k s1 s2)
  obtain fs gs where s: "s1 = SStruct fs" "s2 = SStruct gs"
    using ByKey.prems(1) by (auto simp: has_key_def lacks_key_def split: shape.splits)
  have wf: "checked separable s1" "checked separable s2" using ByKey.prems(1) by auto
  from ByKey.prems(2) obtain x where x: "marshal s1 x = Some j \<or> marshal s2 x = Some j"
    and v: "v = GAlt 0 x \<and> marshal s1 x = Some j \<or> v = GAlt 1 x \<and> marshal s2 x = Some j"
    by (auto split: go_value.splits if_splits)
  then obtain m where m: "j = JObj m" by (auto simp: s split: go_value.splits)
  from v show ?case
  proof (elim disjE conjE)
    assume w: "marshal s1 x = Some j"
    then have "map_of m k \<noteq> None" using has_keyD ByKey.prems(1) m by (auto simp: s)
    with ByKey.prems(3) m obtain y where y: "unmarshal s1 j = Some y" "v' = GAlt 0 y" by auto
    with ByKey.IH(1) [OF wf(1) w y(1)] show ?thesis by simp
  next
    assume w: "marshal s2 x = Some j"
    then have "map_of m k = None" using lacks_keyD ByKey.prems(1) m by (auto simp: s)
    with ByKey.prems(3) m obtain y where y: "unmarshal s2 j = Some y" "v' = GAlt 1 y" by auto
    with ByKey.IH(2) [OF wf(2) w y(1)] show ?thesis by simp
  qed
qed (auto simp: in_u32_def split: go_value.splits if_splits)

end
