(* ===== verification/ProtocolTypes.thy ===== *)
theory ProtocolTypes
  imports ProtocolJson
begin

text \<open>
  The shapes of src/languageserver/protocol/types.go, json.go and documentchanges.go: the 60 unions, with
  the alternatives in the order in which their method UnmarshalJSON tries them, and every type that they
  reach. A type has the source's name with the ending \<^verbatim>\<open>_shape\<close>, a union the source's name. An
  embedded struct's fields stand at its place, less those that a field of the struct itself hides.
\<close>

section \<open>Embedding\<close>

datatype member = Own field | Embedded shape

fun fields_of :: "shape \<Rightarrow> field list" where
  "fields_of (SStruct fs) = fs"
| "fields_of s = []"

fun own_names :: "member list \<Rightarrow> string list" where
  "own_names [] = []"
| "own_names (Own f # ms) = field_name f # own_names ms"
| "own_names (Embedded s # ms) = own_names ms"

fun promoted :: "string list \<Rightarrow> member \<Rightarrow> field list" where
  "promoted ns (Own f) = [f]"
| "promoted ns (Embedded s) = filter (\<lambda>f. field_name f \<notin> set ns) (fields_of s)"

definition struct_of :: "member list \<Rightarrow> shape" where
  "struct_of ms = SStruct (concat (map (promoted (own_names ms)) ms))"

section \<open>Types\<close>

definition Position_shape :: shape where
  "Position_shape = SStruct [Field ''line'' False SUint32, Field ''character'' False SUint32]"

definition Range_shape :: shape where
  "Range_shape = SStruct [Field ''start'' False Position_shape, Field ''end'' False Position_shape]"

definition FEditRangePItemDefaults_shape :: shape where
  "FEditRangePItemDefaults_shape = SStruct [Field ''insert'' False Range_shape, Field ''replace'' False Range_shape]"

definition OrFEditRangePItemDefaults :: shape where
  "OrFEditRangePItemDefaults = SUnion [FEditRangePItemDefaults_shape, Range_shape]"

definition Msg_NotebookDocumentFilter_shape :: shape where
  "Msg_NotebookDocumentFilter_shape = SStruct [Field ''notebookType'' False SString, Field ''scheme'' True SString,
     Field ''pattern'' True SString]"

definition NotebookDocumentFilter_shape :: shape where "NotebookDocumentFilter_shape = Msg_NotebookDocumentFilter_shape"

definition OrFNotebookPNotebookSelector :: shape where
  "OrFNotebookPNotebookSelector = SUnion [NotebookDocumentFilter_shape, SString]"

definition DocumentURI_shape :: shape where "DocumentURI_shape = SString"

definition Location_shape :: shape where
  "Location_shape = SStruct [Field ''uri'' False DocumentURI_shape, Field ''range'' False Range_shape]"

definition PLocationMsg_workspace_symbol_shape :: shape where
  "PLocationMsg_workspace_symbol_shape = SStruct [Field ''uri'' False DocumentURI_shape]"

definition OrPLocation_workspace_symbol :: shape where
  "OrPLocation_workspace_symbol = SUnion [Location_shape, PLocationMsg_workspace_symbol_shape]"

definition OrPSection_workspace_didChangeConfiguration :: shape where
  "OrPSection_workspace_didChangeConfiguration = SUnion [SList SString, SString]"

definition MarkupKind_shape :: shape where "MarkupKind_shape = SString"

definition MarkupContent_shape :: shape where
  "MarkupContent_shape = SStruct [Field ''kind'' False MarkupKind_shape, Field ''value'' False SString]"

definition OrPTooltipPLabel :: shape where
  "OrPTooltipPLabel = SUnion [MarkupContent_shape, SString]"

definition OrPTooltip_textDocument_inlayHint :: shape where
  "OrPTooltip_textDocument_inlayHint = SUnion [MarkupContent_shape, SString]"

definition Or_CancelParams_id :: shape where
  "Or_CancelParams_id = SUnion [SInt32, SString]"

definition Or_CompletionItem_documentation :: shape where
  "Or_CompletionItem_documentation = SUnion [MarkupContent_shape, SString]"

definition InsertReplaceEdit_shape :: shape where
  "InsertReplaceEdit_shape = SStruct [Field ''newText'' False SString, Field ''insert'' False Range_shape,
     Field ''replace'' False Range_shape]"

definition TextEdit_shape :: shape where
  "TextEdit_shape = SStruct [Field ''range'' False Range_shape, Field ''newText'' False SString]"

definition Or_CompletionItem_textEdit :: shape where
  "Or_CompletionItem_textEdit = SUnion [InsertReplaceEdit_shape, TextEdit_shape]"

definition Or_Definition :: shape where
  "Or_Definition = SUnion [Location_shape, SList Location_shape]"

definition Or_Diagnostic_code :: shape where
  "Or_Diagnostic_code = SUnion [SInt32, SString]"

definition DiagnosticSeverity_shape :: shape where "DiagnosticSeverity_shape = SUint32"

definition URI_shape :: shape where "URI_shape = SString"

definition CodeDescription_shape :: shape where
  "CodeDescription_shape = SStruct [Field ''href'' False URI_shape]"

definition DiagnosticTag_shape :: shape where "DiagnosticTag_shape = SUint32"

definition DiagnosticRelatedInformation_shape :: shape where
  "DiagnosticRelatedInformation_shape = SStruct [Field ''location'' False Location_shape,
     Field ''message'' False SString]"

definition Diagnostic_shape :: shape where
  "Diagnostic_shape = SStruct [Field ''range'' False Range_shape, Field ''severity'' True DiagnosticSeverity_shape,
     Field ''code'' True SAny, Field ''codeDescription'' True (SPtr CodeDescription_shape),
     Field ''source'' True SString, Field ''message'' False SString, Field ''tags'' True (SList DiagnosticTag_shape),
     Field ''relatedInformation'' True (SList DiagnosticRelatedInformation_shape), Field ''data'' True SAny]"

definition FullDocumentDiagnosticReport_shape :: shape where
  "FullDocumentDiagnosticReport_shape = SStruct [Field ''kind'' False SString, Field ''resultId'' True SString,
     Field ''items'' False (SList Diagnostic_shape)]"

definition RelatedFullDocumentDiagnosticReport_shape :: shape where
  "RelatedFullDocumentDiagnosticReport_shape = struct_of [Own (Field ''relatedDocuments'' True (SMap SAny)),
     Embedded FullDocumentDiagnosticReport_shape]"

definition UnchangedDocumentDiagnosticReport_shape :: shape where
  "UnchangedDocumentDiagnosticReport_shape = SStruct [Field ''kind'' False SString, Field ''resultId'' False SString]"

definition RelatedUnchangedDocumentDiagnosticReport_shape :: shape where
  "RelatedUnchangedDocumentDiagnosticReport_shape = struct_of [Own (Field ''relatedDocuments'' True (SMap SAny)),
     Embedded UnchangedDocumentDiagnosticReport_shape]"

definition Or_DocumentDiagnosticReport :: shape where
  "Or_DocumentDiagnosticReport = SUnion [RelatedFullDocumentDiagnosticReport_shape, RelatedUnchangedDocumentDiagnosticReport_shape]"

definition Or_DocumentDiagnosticReportPartialResult_relatedDocuments_Value :: shape where
  "Or_DocumentDiagnosticReportPartialResult_relatedDocuments_Value = SUnion [FullDocumentDiagnosticReport_shape, UnchangedDocumentDiagnosticReport_shape]"

definition Or_NotebookCellTextDocumentFilter_notebook :: shape where
  "Or_NotebookCellTextDocumentFilter_notebook = SUnion [NotebookDocumentFilter_shape, SString]"

definition NotebookCellTextDocumentFilter_shape :: shape where
  "NotebookCellTextDocumentFilter_shape = SStruct [
     Field ''notebook'' False Or_NotebookCellTextDocumentFilter_notebook, Field ''language'' True SString]"

definition Msg_TextDocumentFilter_shape :: shape where
  "Msg_TextDocumentFilter_shape = SStruct [Field ''language'' True SString, Field ''scheme'' False SString,
     Field ''pattern'' True SString]"

definition TextDocumentFilter_shape :: shape where "TextDocumentFilter_shape = Msg_TextDocumentFilter_shape"

definition Or_DocumentFilter :: shape where
  "Or_DocumentFilter = SUnion [NotebookCellTextDocumentFilter_shape, TextDocumentFilter_shape]"

definition Msg_MarkedString_shape :: shape where
  "Msg_MarkedString_shape = SStruct [Field ''language'' False SString, Field ''value'' False SString]"

definition Or_MarkedString :: shape where
  "Or_MarkedString = SUnion [Msg_MarkedString_shape, SString]"

definition MarkedString_shape :: shape where "MarkedString_shape = Or_MarkedString"

definition Or_Hover_contents :: shape where
  "Or_Hover_contents = SUnion [MarkedString_shape, MarkupContent_shape, SList MarkedString_shape]"

definition Command_shape :: shape where
  "Command_shape = SStruct [Field ''title'' False SString, Field ''command'' False SString,
     Field ''arguments'' True (SList SAny)]"

definition InlayHintLabelPart_shape :: shape where
  "InlayHintLabelPart_shape = SStruct [Field ''value'' False SString, Field ''tooltip'' True (SPtr OrPTooltipPLabel),
     Field ''location'' True (SPtr Location_shape), Field ''command'' True (SPtr Command_shape)]"

definition Or_InlayHint_label :: shape where
  "Or_InlayHint_label = SUnion [SList InlayHintLabelPart_shape, SString]"

definition InlineValueEvaluatableExpression_shape :: shape where
  "InlineValueEvaluatableExpression_shape = SStruct [Field ''range'' False Range_shape,
     Field ''expression'' True SString]"

definition InlineValueText_shape :: shape where
  "InlineValueText_shape = SStruct [Field ''range'' False Range_shape, Field ''text'' False SString]"

definition InlineValueVariableLookup_shape :: shape where
  "InlineValueVariableLookup_shape = SStruct [Field ''range'' False Range_shape, Field ''variableName'' True SString,
     Field ''caseSensitiveLookup'' False SBool]"

definition Or_InlineValue :: shape where
  "Or_InlineValue = SUnion [InlineValueEvaluatableExpression_shape, InlineValueText_shape, InlineValueVariableLookup_shape]"

definition Or_NotebookDocumentSyncOptions_notebookSelector_Elem_Item1_notebook :: shape where
  "Or_NotebookDocumentSyncOptions_notebookSelector_Elem_Item1_notebook = SUnion [NotebookDocumentFilter_shape, SString]"

definition Or_RelatedFullDocumentDiagnosticReport_relatedDocuments_Value :: shape where
  "Or_RelatedFullDocumentDiagnosticReport_relatedDocuments_Value = SUnion [FullDocumentDiagnosticReport_shape, UnchangedDocumentDiagnosticReport_shape]"

definition Or_RelatedUnchangedDocumentDiagnosticReport_relatedDocuments_Value :: shape where
  "Or_RelatedUnchangedDocumentDiagnosticReport_relatedDocuments_Value = SUnion [FullDocumentDiagnosticReport_shape, UnchangedDocumentDiagnosticReport_shape]"

definition WorkspaceFolder_shape :: shape where
  "WorkspaceFolder_shape = SStruct [Field ''uri'' False URI_shape, Field ''name'' False SString]"

definition Or_RelativePattern_baseUri :: shape where
  "Or_RelativePattern_baseUri = SUnion [URI_shape, WorkspaceFolder_shape]"

definition CodeActionKind_shape :: shape where "CodeActionKind_shape = SString"

definition PDisabledMsg_textDocument_codeAction_shape :: shape where
  "PDisabledMsg_textDocument_codeAction_shape = SStruct [Field ''reason'' False SString]"

definition TextDocumentIdentifier_shape :: shape where
  "TextDocumentIdentifier_shape = SStruct [Field ''uri'' False DocumentURI_shape]"

definition OptionalVersionedTextDocumentIdentifier_shape :: shape where
  "OptionalVersionedTextDocumentIdentifier_shape = struct_of [Own (Field ''version'' False SInt32),
     Embedded TextDocumentIdentifier_shape]"

definition TextDocumentEdit_shape :: shape where
  "TextDocumentEdit_shape = SStruct [Field ''textDocument'' False OptionalVersionedTextDocumentIdentifier_shape,
     Field ''edits'' False (SList TextEdit_shape)]"

definition RenameFileOptions_shape :: shape where
  "RenameFileOptions_shape = SStruct [Field ''overwrite'' True SBool, Field ''ignoreIfExists'' True SBool]"

definition ChangeAnnotationIdentifier_shape :: shape where "ChangeAnnotationIdentifier_shape = SString"

definition ResourceOperation_shape :: shape where
  "ResourceOperation_shape = SStruct [Field ''kind'' False SString,
     Field ''annotationId'' True (SPtr ChangeAnnotationIdentifier_shape)]"

definition RenameFile_shape :: shape where
  "RenameFile_shape = struct_of [Own (Field ''kind'' False SString), Own (Field ''oldUri'' False DocumentURI_shape),
     Own (Field ''newUri'' False DocumentURI_shape), Own (Field ''options'' True (SPtr RenameFileOptions_shape)),
     Embedded ResourceOperation_shape]"

definition DocumentChanges_shape :: shape where
  "DocumentChanges_shape = SByKey ''textDocument'' TextDocumentEdit_shape RenameFile_shape"

definition ChangeAnnotation_shape :: shape where
  "ChangeAnnotation_shape = SStruct [Field ''label'' False SString, Field ''needsConfirmation'' True SBool,
     Field ''description'' True SString]"

definition WorkspaceEdit_shape :: shape where
  "WorkspaceEdit_shape = SStruct [Field ''changes'' True (SMap (SList TextEdit_shape)),
     Field ''documentChanges'' True (SList DocumentChanges_shape),
     Field ''changeAnnotations'' True (SMap ChangeAnnotation_shape)]"

definition CodeAction_shape :: shape where
  "CodeAction_shape = SStruct [Field ''title'' False SString, Field ''kind'' True CodeActionKind_shape,
     Field ''diagnostics'' True (SList Diagnostic_shape), Field ''isPreferred'' True SBool,
     Field ''disabled'' True (SPtr PDisabledMsg_textDocument_codeAction_shape),
     Field ''edit'' True (SPtr WorkspaceEdit_shape), Field ''command'' True (SPtr Command_shape),
     Field ''data'' True SAny]"

definition Or_Result_textDocument_codeAction_Item0_Elem :: shape where
  "Or_Result_textDocument_codeAction_Item0_Elem = SUnion [CodeAction_shape, Command_shape]"

definition FFullPRequests_shape :: shape where
  "FFullPRequests_shape = SStruct [Field ''delta'' False SBool]"

definition Or_SemanticTokensClientCapabilities_requests_full :: shape where
  "Or_SemanticTokensClientCapabilities_requests_full = SUnion [FFullPRequests_shape, SBool]"

definition FRangePRequests_shape :: shape where
  "FRangePRequests_shape = SStruct []"

definition Or_SemanticTokensClientCapabilities_requests_range :: shape where
  "Or_SemanticTokensClientCapabilities_requests_range = SUnion [FRangePRequests_shape, SBool]"

definition PFullESemanticTokensOptions_shape :: shape where
  "PFullESemanticTokensOptions_shape = SStruct [Field ''delta'' False SBool]"

definition Or_SemanticTokensOptions_full :: shape where
  "Or_SemanticTokensOptions_full = SUnion [PFullESemanticTokensOptions_shape, SBool]"

definition PRangeESemanticTokensOptions_shape :: shape where
  "PRangeESemanticTokensOptions_shape = SStruct []"

definition Or_SemanticTokensOptions_range :: shape where
  "Or_SemanticTokensOptions_range = SUnion [PRangeESemanticTokensOptions_shape, SBool]"

definition WorkDoneProgressOptions_shape :: shape where
  "WorkDoneProgressOptions_shape = SStruct [Field ''workDoneProgress'' True SBool]"

definition CallHierarchyOptions_shape :: shape where
  "CallHierarchyOptions_shape = struct_of [Embedded WorkDoneProgressOptions_shape]"

definition DocumentFilter_shape :: shape where "DocumentFilter_shape = Or_DocumentFilter"

definition DocumentSelector_shape :: shape where "DocumentSelector_shape = SList DocumentFilter_shape"

definition TextDocumentRegistrationOptions_shape :: shape where
  "TextDocumentRegistrationOptions_shape = SStruct [Field ''documentSelector'' False DocumentSelector_shape]"

definition StaticRegistrationOptions_shape :: shape where
  "StaticRegistrationOptions_shape = SStruct [Field ''id'' True SString]"

definition CallHierarchyRegistrationOptions_shape :: shape where
  "CallHierarchyRegistrationOptions_shape = struct_of [Embedded TextDocumentRegistrationOptions_shape,
     Embedded CallHierarchyOptions_shape, Embedded StaticRegistrationOptions_shape]"

definition Or_ServerCapabilities_callHierarchyProvider :: shape where
  "Or_ServerCapabilities_callHierarchyProvider = SUnion [CallHierarchyOptions_shape, CallHierarchyRegistrationOptions_shape, SBool]"

definition CodeActionOptions_shape :: shape where
  "CodeActionOptions_shape = struct_of [Own (Field ''codeActionKinds'' True (SList CodeActionKind_shape)),
     Own (Field ''resolveProvider'' True SBool), Embedded WorkDoneProgressOptions_shape]"

definition Or_ServerCapabilities_codeActionProvider :: shape where
  "Or_ServerCapabilities_codeActionProvider = SUnion [CodeActionOptions_shape, SBool]"

definition DocumentColorOptions_shape :: shape where
  "DocumentColorOptions_shape = struct_of [Embedded WorkDoneProgressOptions_shape]"

definition DocumentColorRegistrationOptions_shape :: shape where
  "DocumentColorRegistrationOptions_shape = struct_of [Embedded TextDocumentRegistrationOptions_shape,
     Embedded DocumentColorOptions_shape, Embedded StaticRegistrationOptions_shape]"

definition Or_ServerCapabilities_colorProvider :: shape where
  "Or_ServerCapabilities_colorProvider = SUnion [DocumentColorOptions_shape, DocumentColorRegistrationOptions_shape, SBool]"

definition DeclarationOptions_shape :: shape where
  "DeclarationOptions_shape = struct_of [Embedded WorkDoneProgressOptions_shape]"

definition DeclarationRegistrationOptions_shape :: shape where
  "DeclarationRegistrationOptions_shape = struct_of [Embedded DeclarationOptions_shape,
     Embedded TextDocumentRegistrationOptions_shape, Embedded StaticRegistrationOptions_shape]"

definition Or_ServerCapabilities_declarationProvider :: shape where
  "Or_ServerCapabilities_declarationProvider = SUnion [DeclarationOptions_shape, DeclarationRegistrationOptions_shape, SBool]"

definition DefinitionOptions_shape :: shape where
  "DefinitionOptions_shape = struct_of [Embedded WorkDoneProgressOptions_shape]"

definition Or_ServerCapabilities_definitionProvider :: shape where
  "Or_ServerCapabilities_definitionProvider = SUnion [DefinitionOptions_shape, SBool]"

definition DiagnosticOptions_shape :: shape where
  "DiagnosticOptions_shape = struct_of [Own (Field ''identifier'' True SString),
     Own (Field ''interFileDependencies'' False SBool), Own (Field ''workspaceDiagnostics'' False SBool),
     Embedded WorkDoneProgressOptions_shape]"

definition DiagnosticRegistrationOptions_shape :: shape where
  "DiagnosticRegistrationOptions_shape = struct_of [Embedded TextDocumentRegistrationOptions_shape,
     Embedded DiagnosticOptions_shape, Embedded StaticRegistrationOptions_shape]"

definition Or_ServerCapabilities_diagnosticProvider :: shape where
  "Or_ServerCapabilities_diagnosticProvider = SUnion [DiagnosticOptions_shape, DiagnosticRegistrationOptions_shape]"

definition DocumentFormattingOptions_shape :: shape where
  "DocumentFormattingOptions_shape = struct_of [Embedded WorkDoneProgressOptions_shape]"

definition Or_ServerCapabilities_documentFormattingProvider :: shape where
  "Or_ServerCapabilities_documentFormattingProvider = SUnion [DocumentFormattingOptions_shape, SBool]"

definition DocumentHighlightOptions_shape :: shape where
  "DocumentHighlightOptions_shape = struct_of [Embedded WorkDoneProgressOptions_shape]"

definition Or_ServerCapabilities_documentHighlightProvider :: shape where
  "Or_ServerCapabilities_documentHighlightProvider = SUnion [DocumentHighlightOptions_shape, SBool]"

definition DocumentRangeFormattingOptions_shape :: shape where
  "DocumentRangeFormattingOptions_shape = struct_of [Embedded WorkDoneProgressOptions_shape]"

definition Or_ServerCapabilities_documentRangeFormattingProvider :: shape where
  "Or_ServerCapabilities_documentRangeFormattingProvider = SUnion [DocumentRangeFormattingOptions_shape, SBool]"

definition DocumentSymbolOptions_shape :: shape where
  "DocumentSymbolOptions_shape = struct_of [Own (Field ''label'' True SString),
     Embedded WorkDoneProgressOptions_shape]"

definition Or_ServerCapabilities_documentSymbolProvider :: shape where
  "Or_ServerCapabilities_documentSymbolProvider = SUnion [DocumentSymbolOptions_shape, SBool]"

definition FoldingRangeOptions_shape :: shape where
  "FoldingRangeOptions_shape = struct_of [Embedded WorkDoneProgressOptions_shape]"

definition FoldingRangeRegistrationOptions_shape :: shape where
  "FoldingRangeRegistrationOptions_shape = struct_of [Embedded TextDocumentRegistrationOptions_shape,
     Embedded FoldingRangeOptions_shape, Embedded StaticRegistrationOptions_shape]"

definition Or_ServerCapabilities_foldingRangeProvider :: shape where
  "Or_ServerCapabilities_foldingRangeProvider = SUnion [FoldingRangeOptions_shape, FoldingRangeRegistrationOptions_shape, SBool]"

definition HoverOptions_shape :: shape where
  "HoverOptions_shape = struct_of [Embedded WorkDoneProgressOptions_shape]"

definition Or_ServerCapabilities_hoverProvider :: shape where
  "Or_ServerCapabilities_hoverProvider = SUnion [HoverOptions_shape, SBool]"

definition ImplementationOptions_shape :: shape where
  "ImplementationOptions_shape = struct_of [Embedded WorkDoneProgressOptions_shape]"

definition ImplementationRegistrationOptions_shape :: shape where
  "ImplementationRegistrationOptions_shape = struct_of [Embedded TextDocumentRegistrationOptions_shape,
     Embedded ImplementationOptions_shape, Embedded StaticRegistrationOptions_shape]"

definition Or_ServerCapabilities_implementationProvider :: shape where
  "Or_ServerCapabilities_implementationProvider = SUnion [ImplementationOptions_shape, ImplementationRegistrationOptions_shape, SBool]"

definition InlayHintOptions_shape :: shape where
  "InlayHintOptions_shape = struct_of [Own (Field ''resolveProvider'' True SBool),
     Embedded WorkDoneProgressOptions_shape]"

definition InlayHintRegistrationOptions_shape :: shape where
  "InlayHintRegistrationOptions_shape = struct_of [Embedded InlayHintOptions_shape,
     Embedded TextDocumentRegistrationOptions_shape, Embedded StaticRegistrationOptions_shape]"

definition Or_ServerCapabilities_inlayHintProvider :: shape where
  "Or_ServerCapabilities_inlayHintProvider = SUnion [InlayHintOptions_shape, InlayHintRegistrationOptions_shape, SBool]"

definition InlineValueOptions_shape :: shape where
  "InlineValueOptions_shape = struct_of [Embedded WorkDoneProgressOptions_shape]"

definition InlineValueRegistrationOptions_shape :: shape where
  "InlineValueRegistrationOptions_shape = struct_of [Embedded InlineValueOptions_shape,
     Embedded TextDocumentRegistrationOptions_shape, Embedded StaticRegistrationOptions_shape]"

definition Or_ServerCapabilities_inlineValueProvider :: shape where
  "Or_ServerCapabilities_inlineValueProvider = SUnion [InlineValueOptions_shape, InlineValueRegistrationOptions_shape, SBool]"

definition LinkedEditingRangeOptions_shape :: shape where
  "LinkedEditingRangeOptions_shape = struct_of [Embedded WorkDoneProgressOptions_shape]"

definition LinkedEditingRangeRegistrationOptions_shape :: shape where
  "LinkedEditingRangeRegistrationOptions_shape = struct_of [Embedded TextDocumentRegistrationOptions_shape,
     Embedded LinkedEditingRangeOptions_shape, Embedded StaticRegistrationOptions_shape]"

definition Or_ServerCapabilities_linkedEditingRangeProvider :: shape where
  "Or_ServerCapabilities_linkedEditingRangeProvider = SUnion [LinkedEditingRangeOptions_shape, LinkedEditingRangeRegistrationOptions_shape, SBool]"

definition MonikerOptions_shape :: shape where
  "MonikerOptions_shape = struct_of [Embedded WorkDoneProgressOptions_shape]"

definition MonikerRegistrationOptions_shape :: shape where
  "MonikerRegistrationOptions_shape = struct_of [Embedded TextDocumentRegistrationOptions_shape,
     Embedded MonikerOptions_shape]"

definition Or_ServerCapabilities_monikerProvider :: shape where
  "Or_ServerCapabilities_monikerProvider = SUnion [MonikerOptions_shape, MonikerRegistrationOptions_shape, SBool]"

definition Lit_NotebookDocumentSyncOptions_notebookSelector_Elem_Item0_cells_Elem_shape :: shape where
  "Lit_NotebookDocumentSyncOptions_notebookSelector_Elem_Item0_cells_Elem_shape = SStruct [
     Field ''language'' False SString]"

definition PNotebookSelectorPNotebookDocumentSync_shape :: shape where
  "PNotebookSelectorPNotebookDocumentSync_shape = SStruct [Field ''notebook'' False OrFNotebookPNotebookSelector,
     Field ''cells'' True (SList Lit_NotebookDocumentSyncOptions_notebookSelector_Elem_Item0_cells_Elem_shape)]"

definition NotebookDocumentSyncOptions_shape :: shape where
  "NotebookDocumentSyncOptions_shape = SStruct [
     Field ''notebookSelector'' False (SList PNotebookSelectorPNotebookDocumentSync_shape),
     Field ''save'' True SBool]"

definition NotebookDocumentSyncRegistrationOptions_shape :: shape where
  "NotebookDocumentSyncRegistrationOptions_shape = struct_of [Embedded NotebookDocumentSyncOptions_shape,
     Embedded StaticRegistrationOptions_shape]"

definition Or_ServerCapabilities_notebookDocumentSync :: shape where
  "Or_ServerCapabilities_notebookDocumentSync = SUnion [NotebookDocumentSyncOptions_shape, NotebookDocumentSyncRegistrationOptions_shape]"

definition ReferenceOptions_shape :: shape where
  "ReferenceOptions_shape = struct_of [Embedded WorkDoneProgressOptions_shape]"

definition Or_ServerCapabilities_referencesProvider :: shape where
  "Or_ServerCapabilities_referencesProvider = SUnion [ReferenceOptions_shape, SBool]"

definition RenameOptions_shape :: shape where
  "RenameOptions_shape = struct_of [Own (Field ''prepareProvider'' True SBool),
     Embedded WorkDoneProgressOptions_shape]"

definition Or_ServerCapabilities_renameProvider :: shape where
  "Or_ServerCapabilities_renameProvider = SUnion [RenameOptions_shape, SBool]"

definition SelectionRangeOptions_shape :: shape where
  "SelectionRangeOptions_shape = struct_of [Embedded WorkDoneProgressOptions_shape]"

definition SelectionRangeRegistrationOptions_shape :: shape where
  "SelectionRangeRegistrationOptions_shape = struct_of [Embedded SelectionRangeOptions_shape,
     Embedded TextDocumentRegistrationOptions_shape, Embedded StaticRegistrationOptions_shape]"

definition Or_ServerCapabilities_selectionRangeProvider :: shape where
  "Or_ServerCapabilities_selectionRangeProvider = SUnion [SelectionRangeOptions_shape, SelectionRangeRegistrationOptions_shape, SBool]"

definition SemanticTokensLegend_shape :: shape where
  "SemanticTokensLegend_shape = SStruct [Field ''tokenTypes'' False (SList SString),
     Field ''tokenModifiers'' False (SList SString)]"

definition SemanticTokensOptions_shape :: shape where
  "SemanticTokensOptions_shape = struct_of [Own (Field ''legend'' False SemanticTokensLegend_shape),
     Own (Field ''range'' True (SPtr Or_SemanticTokensOptions_range)),
     Own (Field ''full'' True (SPtr Or_SemanticTokensOptions_full)), Embedded WorkDoneProgressOptions_shape]"

definition SemanticTokensRegistrationOptions_shape :: shape where
  "SemanticTokensRegistrationOptions_shape = struct_of [Embedded TextDocumentRegistrationOptions_shape,
     Embedded SemanticTokensOptions_shape, Embedded StaticRegistrationOptions_shape]"

definition Or_ServerCapabilities_semanticTokensProvider :: shape where
  "Or_ServerCapabilities_semanticTokensProvider = SUnion [SemanticTokensOptions_shape, SemanticTokensRegistrationOptions_shape]"

definition TextDocumentSyncKind_shape :: shape where "TextDocumentSyncKind_shape = SUint32"

definition SaveOptions_shape :: shape where
  "SaveOptions_shape = SStruct [Field ''includeText'' True SBool]"

definition TextDocumentSyncOptions_shape :: shape where
  "TextDocumentSyncOptions_shape = SStruct [Field ''openClose'' True SBool,
     Field ''change'' True TextDocumentSyncKind_shape, Field ''willSave'' True SBool,
     Field ''willSaveWaitUntil'' True SBool, Field ''save'' True (SPtr SaveOptions_shape)]"

definition Or_ServerCapabilities_textDocumentSync :: shape where
  "Or_ServerCapabilities_textDocumentSync = SUnion [TextDocumentSyncKind_shape, TextDocumentSyncOptions_shape]"

definition TypeDefinitionOptions_shape :: shape where
  "TypeDefinitionOptions_shape = struct_of [Embedded WorkDoneProgressOptions_shape]"

definition TypeDefinitionRegistrationOptions_shape :: shape where
  "TypeDefinitionRegistrationOptions_shape = struct_of [Embedded TextDocumentRegistrationOptions_shape,
     Embedded TypeDefinitionOptions_shape, Embedded StaticRegistrationOptions_shape]"

definition Or_ServerCapabilities_typeDefinitionProvider :: shape where
  "Or_ServerCapabilities_typeDefinitionProvider = SUnion [TypeDefinitionOptions_shape, TypeDefinitionRegistrationOptions_shape, SBool]"

definition TypeHierarchyOptions_shape :: shape where
  "TypeHierarchyOptions_shape = struct_of [Embedded WorkDoneProgressOptions_shape]"

definition TypeHierarchyRegistrationOptions_shape :: shape where
  "TypeHierarchyRegistrationOptions_shape = struct_of [Embedded TextDocumentRegistrationOptions_shape,
     Embedded TypeHierarchyOptions_shape, Embedded StaticRegistrationOptions_shape]"

definition Or_ServerCapabilities_typeHierarchyProvider :: shape where
  "Or_ServerCapabilities_typeHierarchyProvider = SUnion [TypeHierarchyOptions_shape, TypeHierarchyRegistrationOptions_shape, SBool]"

definition WorkspaceSymbolOptions_shape :: shape where
  "WorkspaceSymbolOptions_shape = struct_of [Own (Field ''resolveProvider'' True SBool),
     Embedded WorkDoneProgressOptions_shape]"

definition Or_ServerCapabilities_workspaceSymbolProvider :: shape where
  "Or_ServerCapabilities_workspaceSymbolProvider = SUnion [WorkspaceSymbolOptions_shape, SBool]"

definition Or_SignatureInformation_documentation :: shape where
  "Or_SignatureInformation_documentation = SUnion [MarkupContent_shape, SString]"

definition AnnotatedTextEdit_shape :: shape where
  "AnnotatedTextEdit_shape = struct_of [Own (Field ''annotationId'' False ChangeAnnotationIdentifier_shape),
     Embedded TextEdit_shape]"

definition Or_TextDocumentEdit_edits_Elem :: shape where
  "Or_TextDocumentEdit_edits_Elem = SUnion [AnnotatedTextEdit_shape, TextEdit_shape]"

definition Or_TextDocumentSyncOptions_save :: shape where
  "Or_TextDocumentSyncOptions_save = SUnion [SaveOptions_shape, SBool]"

definition WorkspaceFullDocumentDiagnosticReport_shape :: shape where
  "WorkspaceFullDocumentDiagnosticReport_shape = struct_of [Own (Field ''uri'' False DocumentURI_shape),
     Own (Field ''version'' False SInt32), Embedded FullDocumentDiagnosticReport_shape]"

definition WorkspaceUnchangedDocumentDiagnosticReport_shape :: shape where
  "WorkspaceUnchangedDocumentDiagnosticReport_shape = struct_of [Own (Field ''uri'' False DocumentURI_shape),
     Own (Field ''version'' False SInt32), Embedded UnchangedDocumentDiagnosticReport_shape]"

definition Or_WorkspaceDocumentDiagnosticReport :: shape where
  "Or_WorkspaceDocumentDiagnosticReport = SUnion [WorkspaceFullDocumentDiagnosticReport_shape, WorkspaceUnchangedDocumentDiagnosticReport_shape]"

definition CreateFileOptions_shape :: shape where
  "CreateFileOptions_shape = SStruct [Field ''overwrite'' True SBool, Field ''ignoreIfExists'' True SBool]"

definition CreateFile_shape :: shape where
  "CreateFile_shape = struct_of [Own (Field ''kind'' False SString), Own (Field ''uri'' False DocumentURI_shape),
     Own (Field ''options'' True (SPtr CreateFileOptions_shape)), Embedded ResourceOperation_shape]"

definition DeleteFileOptions_shape :: shape where
  "DeleteFileOptions_shape = SStruct [Field ''recursive'' True SBool, Field ''ignoreIfNotExists'' True SBool]"

definition DeleteFile_shape :: shape where
  "DeleteFile_shape = struct_of [Own (Field ''kind'' False SString), Own (Field ''uri'' False DocumentURI_shape),
     Own (Field ''options'' True (SPtr DeleteFileOptions_shape)), Embedded ResourceOperation_shape]"

definition Or_WorkspaceEdit_documentChanges_Elem :: shape where
  "Or_WorkspaceEdit_documentChanges_Elem = SUnion [CreateFile_shape, DeleteFile_shape, RenameFile_shape, TextDocumentEdit_shape]"

definition Declaration_shape :: shape where "Declaration_shape = SList Location_shape"

definition LocationLink_shape :: shape where
  "LocationLink_shape = SStruct [Field ''originSelectionRange'' True (SPtr Range_shape),
     Field ''targetUri'' False DocumentURI_shape, Field ''targetRange'' False Range_shape,
     Field ''targetSelectionRange'' False Range_shape]"

definition DeclarationLink_shape :: shape where "DeclarationLink_shape = LocationLink_shape"

definition Or_textDocument_declaration :: shape where
  "Or_textDocument_declaration = SUnion [Declaration_shape, SList DeclarationLink_shape]"

end
