(* ===== verification/ProtocolMessages.thy ===== *)
theory ProtocolMessages
  imports ProtocolTypes
begin

text \<open>
  The messages of the protocol: the types of the parameters and results of the handlers of
  src/languageserver/protocol/server.go and of what the server sends to the client, with every type of
  src/languageserver/protocol/types.go that they reach. Each of them, but for the result of initialize, is
  read as it was written.
\<close>

section \<open>Types\<close>

definition Msg_XInitializeParams_clientInfo_shape :: shape where
  "Msg_XInitializeParams_clientInfo_shape = SStruct [Field ''name'' False SString, Field ''version'' True SString]"

definition ResourceOperationKind_shape :: shape where "ResourceOperationKind_shape = SString"

definition FailureHandlingKind_shape :: shape where "FailureHandlingKind_shape = SString"

definition PChangeAnnotationSupportPWorkspaceEdit_shape :: shape where
  "PChangeAnnotationSupportPWorkspaceEdit_shape = SStruct [Field ''groupsOnLabel'' True SBool]"

definition WorkspaceEditClientCapabilities_shape :: shape where
  "WorkspaceEditClientCapabilities_shape = SStruct [Field ''documentChanges'' True SBool,
     Field ''resourceOperations'' True (SList ResourceOperationKind_shape),
     Field ''failureHandling'' True (SPtr FailureHandlingKind_shape), Field ''normalizesLineEndings'' True SBool,
     Field ''changeAnnotationSupport'' True (SPtr PChangeAnnotationSupportPWorkspaceEdit_shape)]"

definition DidChangeConfigurationClientCapabilities_shape :: shape where
  "DidChangeConfigurationClientCapabilities_shape = SStruct [Field ''dynamicRegistration'' True SBool]"

definition DidChangeWatchedFilesClientCapabilities_shape :: shape where
  "DidChangeWatchedFilesClientCapabilities_shape = SStruct [Field ''dynamicRegistration'' True SBool,
     Field ''relativePatternSupport'' True SBool]"

definition SymbolKind_shape :: shape where "SymbolKind_shape = SUint32"

definition PSymbolKindPSymbol_shape :: shape where
  "PSymbolKindPSymbol_shape = SStruct [Field ''valueSet'' True (SList SymbolKind_shape)]"

definition SymbolTag_shape :: shape where "SymbolTag_shape = SUint32"

definition PTagSupportPSymbol_shape :: shape where
  "PTagSupportPSymbol_shape = SStruct [Field ''valueSet'' False (SList SymbolTag_shape)]"

definition PResolveSupportPSymbol_shape :: shape where
  "PResolveSupportPSymbol_shape = SStruct [Field ''properties'' False (SList SString)]"

definition WorkspaceSymbolClientCapabilities_shape :: shape where
  "WorkspaceSymbolClientCapabilities_shape = SStruct [Field ''dynamicRegistration'' True SBool,
     Field ''symbolKind'' True (SPtr PSymbolKindPSymbol_shape),
     Field ''tagSupport'' True (SPtr PTagSupportPSymbol_shape),
     Field ''resolveSupport'' True (SPtr PResolveSupportPSymbol_shape)]"

definition ExecuteCommandClientCapabilities_shape :: shape where
  "ExecuteCommandClientCapabilities_shape = SStruct [Field ''dynamicRegistration'' True SBool]"

definition SemanticTokensWorkspaceClientCapabilities_shape :: shape where
  "SemanticTokensWorkspaceClientCapabilities_shape = SStruct [Field ''refreshSupport'' True SBool]"

definition CodeLensWorkspaceClientCapabilities_shape :: shape where
  "CodeLensWorkspaceClientCapabilities_shape = SStruct [Field ''refreshSupport'' True SBool]"

definition FileOperationClientCapabilities_shape :: shape where
  "FileOperationClientCapabilities_shape = SStruct [Field ''dynamicRegistration'' True SBool,
     Field ''didCreate'' True SBool, Field ''willCreate'' True SBool, Field ''didRename'' True SBool,
     Field ''willRename'' True SBool, Field ''didDelete'' True SBool, Field ''willDelete'' True SBool]"

definition InlineValueWorkspaceClientCapabilities_shape :: shape where
  "InlineValueWorkspaceClientCapabilities_shape = SStruct [Field ''refreshSupport'' True SBool]"

definition InlayHintWorkspaceClientCapabilities_shape :: shape where
  "InlayHintWorkspaceClientCapabilities_shape = SStruct [Field ''refreshSupport'' True SBool]"

definition DiagnosticWorkspaceClientCapabilities_shape :: shape where
  "DiagnosticWorkspaceClientCapabilities_shape = SStruct [Field ''refreshSupport'' True SBool]"

definition WorkspaceClientCapabilities_shape :: shape where
  "WorkspaceClientCapabilities_shape = SStruct [Field ''applyEdit'' True SBool,
     Field ''workspaceEdit'' True (SPtr WorkspaceEditClientCapabilities_shape),
     Field ''didChangeConfiguration'' True DidChangeConfigurationClientCapabilities_shape,
     Field ''didChangeWatchedFiles'' True DidChangeWatchedFilesClientCapabilities_shape,
     Field ''symbol'' True (SPtr WorkspaceSymbolClientCapabilities_shape),
     Field ''executeCommand'' True (SPtr ExecuteCommandClientCapabilities_shape),
     Field ''workspaceFolders'' True SBool, Field ''configuration'' True SBool,
     Field ''semanticTokens'' True (SPtr SemanticTokensWorkspaceClientCapabilities_shape),
     Field ''codeLens'' True (SPtr CodeLensWorkspaceClientCapabilities_shape),
     Field ''fileOperations'' True (SPtr FileOperationClientCapabilities_shape),
     Field ''inlineValue'' True (SPtr InlineValueWorkspaceClientCapabilities_shape),
     Field ''inlayHint'' True (SPtr InlayHintWorkspaceClientCapabilities_shape),
     Field ''diagnostics'' True (SPtr DiagnosticWorkspaceClientCapabilities_shape)]"

definition TextDocumentSyncClientCapabilities_shape :: shape where
  "TextDocumentSyncClientCapabilities_shape = SStruct [Field ''dynamicRegistration'' True SBool,
     Field ''willSave'' True SBool, Field ''willSaveWaitUntil'' True SBool, Field ''didSave'' True SBool]"

definition CompletionItemTag_shape :: shape where "CompletionItemTag_shape = SUint32"

definition FTagSupportPCompletionItem_shape :: shape where
  "FTagSupportPCompletionItem_shape = SStruct [Field ''valueSet'' False (SList CompletionItemTag_shape)]"

definition FResolveSupportPCompletionItem_shape :: shape where
  "FResolveSupportPCompletionItem_shape = SStruct [Field ''properties'' False (SList SString)]"

definition InsertTextMode_shape :: shape where "InsertTextMode_shape = SUint32"

definition FInsertTextModeSupportPCompletionItem_shape :: shape where
  "FInsertTextModeSupportPCompletionItem_shape = SStruct [Field ''valueSet'' False (SList InsertTextMode_shape)]"

definition PCompletionItemPCompletion_shape :: shape where
  "PCompletionItemPCompletion_shape = SStruct [Field ''snippetSupport'' True SBool,
     Field ''commitCharactersSupport'' True SBool, Field ''documentationFormat'' True (SList MarkupKind_shape),
     Field ''deprecatedSupport'' True SBool, Field ''preselectSupport'' True SBool,
     Field ''tagSupport'' False FTagSupportPCompletionItem_shape, Field ''insertReplaceSupport'' True SBool,
     Field ''resolveSupport'' True (SPtr FResolveSupportPCompletionItem_shape),
     Field ''insertTextModeSupport'' True (SPtr FInsertTextModeSupportPCompletionItem_shape),
     Field ''labelDetailsSupport'' True SBool]"

definition CompletionItemKind_shape :: shape where "CompletionItemKind_shape = SUint32"

definition PCompletionItemKindPCompletion_shape :: shape where
  "PCompletionItemKindPCompletion_shape = SStruct [Field ''valueSet'' True (SList CompletionItemKind_shape)]"

definition PCompletionListPCompletion_shape :: shape where
  "PCompletionListPCompletion_shape = SStruct [Field ''itemDefaults'' True (SList SString)]"

definition CompletionClientCapabilities_shape :: shape where
  "CompletionClientCapabilities_shape = SStruct [Field ''dynamicRegistration'' True SBool,
     Field ''completionItem'' True PCompletionItemPCompletion_shape,
     Field ''completionItemKind'' True (SPtr PCompletionItemKindPCompletion_shape),
     Field ''insertTextMode'' True InsertTextMode_shape, Field ''contextSupport'' True SBool,
     Field ''completionList'' True (SPtr PCompletionListPCompletion_shape)]"

definition HoverClientCapabilities_shape :: shape where
  "HoverClientCapabilities_shape = SStruct [Field ''dynamicRegistration'' True SBool,
     Field ''contentFormat'' True (SList MarkupKind_shape)]"

definition FParameterInformationPSignatureInformation_shape :: shape where
  "FParameterInformationPSignatureInformation_shape = SStruct [Field ''labelOffsetSupport'' True SBool]"

definition PSignatureInformationPSignatureHelp_shape :: shape where
  "PSignatureInformationPSignatureHelp_shape = SStruct [Field ''documentationFormat'' True (SList MarkupKind_shape),
     Field ''parameterInformation'' True (SPtr FParameterInformationPSignatureInformation_shape),
     Field ''activeParameterSupport'' True SBool]"

definition SignatureHelpClientCapabilities_shape :: shape where
  "SignatureHelpClientCapabilities_shape = SStruct [Field ''dynamicRegistration'' True SBool,
     Field ''signatureInformation'' True (SPtr PSignatureInformationPSignatureHelp_shape),
     Field ''contextSupport'' True SBool]"

definition DeclarationClientCapabilities_shape :: shape where
  "DeclarationClientCapabilities_shape = SStruct [Field ''dynamicRegistration'' True SBool,
     Field ''linkSupport'' True SBool]"

definition DefinitionClientCapabilities_shape :: shape where
  "DefinitionClientCapabilities_shape = SStruct [Field ''dynamicRegistration'' True SBool,
     Field ''linkSupport'' True SBool]"

definition TypeDefinitionClientCapabilities_shape :: shape where
  "TypeDefinitionClientCapabilities_shape = SStruct [Field ''dynamicRegistration'' True SBool,
     Field ''linkSupport'' True SBool]"

definition ImplementationClientCapabilities_shape :: shape where
  "ImplementationClientCapabilities_shape = SStruct [Field ''dynamicRegistration'' True SBool,
     Field ''linkSupport'' True SBool]"

definition ReferenceClientCapabilities_shape :: shape where
  "ReferenceClientCapabilities_shape = SStruct [Field ''dynamicRegistration'' True SBool]"

definition DocumentHighlightClientCapabilities_shape :: shape where
  "DocumentHighlightClientCapabilities_shape = SStruct [Field ''dynamicRegistration'' True SBool]"

definition PSymbolKindPDocumentSymbol_shape :: shape where
  "PSymbolKindPDocumentSymbol_shape = SStruct [Field ''valueSet'' True (SList SymbolKind_shape)]"

definition PTagSupportPDocumentSymbol_shape :: shape where
  "PTagSupportPDocumentSymbol_shape = SStruct [Field ''valueSet'' False (SList SymbolTag_shape)]"

definition DocumentSymbolClientCapabilities_shape :: shape where
  "DocumentSymbolClientCapabilities_shape = SStruct [Field ''dynamicRegistration'' True SBool,
     Field ''symbolKind'' True (SPtr PSymbolKindPDocumentSymbol_shape),
     Field ''hierarchicalDocumentSymbolSupport'' True SBool,
     Field ''tagSupport'' True (SPtr PTagSupportPDocumentSymbol_shape), Field ''labelSupport'' True SBool]"

definition FCodeActionKindPCodeActionLiteralSupport_shape :: shape where
  "FCodeActionKindPCodeActionLiteralSupport_shape = SStruct [Field ''valueSet'' False (SList CodeActionKind_shape)]"

definition PCodeActionLiteralSupportPCodeAction_shape :: shape where
  "PCodeActionLiteralSupportPCodeAction_shape = SStruct [
     Field ''codeActionKind'' False FCodeActionKindPCodeActionLiteralSupport_shape]"

definition PResolveSupportPCodeAction_shape :: shape where
  "PResolveSupportPCodeAction_shape = SStruct [Field ''properties'' False (SList SString)]"

definition CodeActionClientCapabilities_shape :: shape where
  "CodeActionClientCapabilities_shape = SStruct [Field ''dynamicRegistration'' True SBool,
     Field ''codeActionLiteralSupport'' True PCodeActionLiteralSupportPCodeAction_shape,
     Field ''isPreferredSupport'' True SBool, Field ''disabledSupport'' True SBool, Field ''dataSupport'' True SBool,
     Field ''resolveSupport'' True (SPtr PResolveSupportPCodeAction_shape),
     Field ''honorsChangeAnnotations'' True SBool]"

definition CodeLensClientCapabilities_shape :: shape where
  "CodeLensClientCapabilities_shape = SStruct [Field ''dynamicRegistration'' True SBool]"

definition DocumentLinkClientCapabilities_shape :: shape where
  "DocumentLinkClientCapabilities_shape = SStruct [Field ''dynamicRegistration'' True SBool,
     Field ''tooltipSupport'' True SBool]"

definition DocumentColorClientCapabilities_shape :: shape where
  "DocumentColorClientCapabilities_shape = SStruct [Field ''dynamicRegistration'' True SBool]"

definition DocumentFormattingClientCapabilities_shape :: shape where
  "DocumentFormattingClientCapabilities_shape = SStruct [Field ''dynamicRegistration'' True SBool]"

definition DocumentRangeFormattingClientCapabilities_shape :: shape where
  "DocumentRangeFormattingClientCapabilities_shape = SStruct [Field ''dynamicRegistration'' True SBool]"

definition DocumentOnTypeFormattingClientCapabilities_shape :: shape where
  "DocumentOnTypeFormattingClientCapabilities_shape = SStruct [Field ''dynamicRegistration'' True SBool]"

definition PrepareSupportDefaultBehavior_shape :: shape where "PrepareSupportDefaultBehavior_shape = SUint32"

definition RenameClientCapabilities_shape :: shape where
  "RenameClientCapabilities_shape = SStruct [Field ''dynamicRegistration'' True SBool,
     Field ''prepareSupport'' True SBool,
     Field ''prepareSupportDefaultBehavior'' True (SPtr PrepareSupportDefaultBehavior_shape),
     Field ''honorsChangeAnnotations'' True SBool]"

definition FoldingRangeKind_shape :: shape where "FoldingRangeKind_shape = SString"

definition PFoldingRangeKindPFoldingRange_shape :: shape where
  "PFoldingRangeKindPFoldingRange_shape = SStruct [Field ''valueSet'' True (SList FoldingRangeKind_shape)]"

definition PFoldingRangePFoldingRange_shape :: shape where
  "PFoldingRangePFoldingRange_shape = SStruct [Field ''collapsedText'' True SBool]"

definition FoldingRangeClientCapabilities_shape :: shape where
  "FoldingRangeClientCapabilities_shape = SStruct [Field ''dynamicRegistration'' True SBool,
     Field ''rangeLimit'' True SUint32, Field ''lineFoldingOnly'' True SBool,
     Field ''foldingRangeKind'' True (SPtr PFoldingRangeKindPFoldingRange_shape),
     Field ''foldingRange'' True (SPtr PFoldingRangePFoldingRange_shape)]"

definition SelectionRangeClientCapabilities_shape :: shape where
  "SelectionRangeClientCapabilities_shape = SStruct [Field ''dynamicRegistration'' True SBool]"

definition PTagSupportPPublishDiagnostics_shape :: shape where
  "PTagSupportPPublishDiagnostics_shape = SStruct [Field ''valueSet'' False (SList DiagnosticTag_shape)]"

definition PublishDiagnosticsClientCapabilities_shape :: shape where
  "PublishDiagnosticsClientCapabilities_shape = SStruct [Field ''relatedInformation'' True SBool,
     Field ''tagSupport'' True (SPtr PTagSupportPPublishDiagnostics_shape), Field ''versionSupport'' True SBool,
     Field ''codeDescriptionSupport'' True SBool, Field ''dataSupport'' True SBool]"

definition CallHierarchyClientCapabilities_shape :: shape where
  "CallHierarchyClientCapabilities_shape = SStruct [Field ''dynamicRegistration'' True SBool]"

definition PRequestsPSemanticTokens_shape :: shape where
  "PRequestsPSemanticTokens_shape = SStruct [
     Field ''range'' False Or_SemanticTokensClientCapabilities_requests_range,
     Field ''full'' False Or_SemanticTokensClientCapabilities_requests_full]"

definition TokenFormat_shape :: shape where "TokenFormat_shape = SString"

definition SemanticTokensClientCapabilities_shape :: shape where
  "SemanticTokensClientCapabilities_shape = SStruct [Field ''dynamicRegistration'' True SBool,
     Field ''requests'' False PRequestsPSemanticTokens_shape, Field ''tokenTypes'' False (SList SString),
     Field ''tokenModifiers'' False (SList SString), Field ''formats'' False (SList TokenFormat_shape),
     Field ''overlappingTokenSupport'' True SBool, Field ''multilineTokenSupport'' True SBool,
     Field ''serverCancelSupport'' True SBool, Field ''augmentsSyntaxTokens'' True SBool]"

definition LinkedEditingRangeClientCapabilities_shape :: shape where
  "LinkedEditingRangeClientCapabilities_shape = SStruct [Field ''dynamicRegistration'' True SBool]"

definition MonikerClientCapabilities_shape :: shape where
  "MonikerClientCapabilities_shape = SStruct [Field ''dynamicRegistration'' True SBool]"

definition TypeHierarchyClientCapabilities_shape :: shape where
  "TypeHierarchyClientCapabilities_shape = SStruct [Field ''dynamicRegistration'' True SBool]"

definition InlineValueClientCapabilities_shape :: shape where
  "InlineValueClientCapabilities_shape = SStruct [Field ''dynamicRegistration'' True SBool]"

definition PResolveSupportPInlayHint_shape :: shape where
  "PResolveSupportPInlayHint_shape = SStruct [Field ''properties'' False (SList SString)]"

definition InlayHintClientCapabilities_shape :: shape where
  "InlayHintClientCapabilities_shape = SStruct [Field ''dynamicRegistration'' True SBool,
     Field ''resolveSupport'' True (SPtr PResolveSupportPInlayHint_shape)]"

definition DiagnosticClientCapabilities_shape :: shape where
  "DiagnosticClientCapabilities_shape = SStruct [Field ''dynamicRegistration'' True SBool,
     Field ''relatedDocumentSupport'' True SBool]"

definition TextDocumentClientCapabilities_shape :: shape where
  "TextDocumentClientCapabilities_shape = SStruct [
     Field ''synchronization'' True (SPtr TextDocumentSyncClientCapabilities_shape),
     Field ''completion'' True CompletionClientCapabilities_shape,
     Field ''hover'' True (SPtr HoverClientCapabilities_shape),
     Field ''signatureHelp'' True (SPtr SignatureHelpClientCapabilities_shape),
     Field ''declaration'' True (SPtr DeclarationClientCapabilities_shape),
     Field ''definition'' True (SPtr DefinitionClientCapabilities_shape),
     Field ''typeDefinition'' True (SPtr TypeDefinitionClientCapabilities_shape),
     Field ''implementation'' True (SPtr ImplementationClientCapabilities_shape),
     Field ''references'' True (SPtr ReferenceClientCapabilities_shape),
     Field ''documentHighlight'' True (SPtr DocumentHighlightClientCapabilities_shape),
     Field ''documentSymbol'' True DocumentSymbolClientCapabilities_shape,
     Field ''codeAction'' True CodeActionClientCapabilities_shape,
     Field ''codeLens'' True (SPtr CodeLensClientCapabilities_shape),
     Field ''documentLink'' True (SPtr DocumentLinkClientCapabilities_shape),
     Field ''colorProvider'' True (SPtr DocumentColorClientCapabilities_shape),
     Field ''formatting'' True (SPtr DocumentFormattingClientCapabilities_shape),
     Field ''rangeFormatting'' True (SPtr DocumentRangeFormattingClientCapabilities_shape),
     Field ''onTypeFormatting'' True (SPtr DocumentOnTypeFormattingClientCapabilities_shape),
     Field ''rename'' True (SPtr RenameClientCapabilities_shape),
     Field ''foldingRange'' True (SPtr FoldingRangeClientCapabilities_shape),
     Field ''selectionRange'' True (SPtr SelectionRangeClientCapabilities_shape),
     Field ''publishDiagnostics'' True PublishDiagnosticsClientCapabilities_shape,
     Field ''callHierarchy'' True (SPtr CallHierarchyClientCapabilities_shape),
     Field ''semanticTokens'' True SemanticTokensClientCapabilities_shape,
     Field ''linkedEditingRange'' True (SPtr LinkedEditingRangeClientCapabilities_shape),
     Field ''moniker'' True (SPtr MonikerClientCapabilities_shape),
     Field ''typeHierarchy'' True (SPtr TypeHierarchyClientCapabilities_shape),
     Field ''inlineValue'' True (SPtr InlineValueClientCapabilities_shape),
     Field ''inlayHint'' True (SPtr InlayHintClientCapabilities_shape),
     Field ''diagnostic'' True (SPtr DiagnosticClientCapabilities_shape)]"

definition NotebookDocumentSyncClientCapabilities_shape :: shape where
  "NotebookDocumentSyncClientCapabilities_shape = SStruct [Field ''dynamicRegistration'' True SBool,
     Field ''executionSummarySupport'' True SBool]"

definition NotebookDocumentClientCapabilities_shape :: shape where
  "NotebookDocumentClientCapabilities_shape = SStruct [
     Field ''synchronization'' False NotebookDocumentSyncClientCapabilities_shape]"

definition PMessageActionItemPShowMessage_shape :: shape where
  "PMessageActionItemPShowMessage_shape = SStruct [Field ''additionalPropertiesSupport'' True SBool]"

definition ShowMessageRequestClientCapabilities_shape :: shape where
  "ShowMessageRequestClientCapabilities_shape = SStruct [
     Field ''messageActionItem'' True (SPtr PMessageActionItemPShowMessage_shape)]"

definition ShowDocumentClientCapabilities_shape :: shape where
  "ShowDocumentClientCapabilities_shape = SStruct [Field ''support'' False SBool]"

definition WindowClientCapabilities_shape :: shape where
  "WindowClientCapabilities_shape = SStruct [Field ''workDoneProgress'' True SBool,
     Field ''showMessage'' True (SPtr ShowMessageRequestClientCapabilities_shape),
     Field ''showDocument'' True (SPtr ShowDocumentClientCapabilities_shape)]"

definition PStaleRequestSupportPGeneral_shape :: shape where
  "PStaleRequestSupportPGeneral_shape = SStruct [Field ''cancel'' False SBool,
     Field ''retryOnContentModified'' False (SList SString)]"

definition RegularExpressionsClientCapabilities_shape :: shape where
  "RegularExpressionsClientCapabilities_shape = SStruct [Field ''engine'' False SString,
     Field ''version'' True SString]"

definition MarkdownClientCapabilities_shape :: shape where
  "MarkdownClientCapabilities_shape = SStruct [Field ''parser'' False SString, Field ''version'' True SString,
     Field ''allowedTags'' True (SList SString)]"

definition PositionEncodingKind_shape :: shape where "PositionEncodingKind_shape = SString"

definition GeneralClientCapabilities_shape :: shape where
  "GeneralClientCapabilities_shape = SStruct [
     Field ''staleRequestSupport'' True (SPtr PStaleRequestSupportPGeneral_shape),
     Field ''regularExpressions'' True (SPtr RegularExpressionsClientCapabilities_shape),
     Field ''markdown'' True (SPtr MarkdownClientCapabilities_shape),
     Field ''positionEncodings'' True (SList PositionEncodingKind_shape)]"

definition ClientCapabilities_shape :: shape where
  "ClientCapabilities_shape = SStruct [Field ''workspace'' True WorkspaceClientCapabilities_shape,
     Field ''textDocument'' True TextDocumentClientCapabilities_shape,
     Field ''notebookDocument'' True (SPtr NotebookDocumentClientCapabilities_shape),
     Field ''window'' True WindowClientCapabilities_shape,
     Field ''general'' True (SPtr GeneralClientCapabilities_shape), Field ''experimental'' True SAny]"

definition TraceValues_shape :: shape where "TraceValues_shape = SString"

definition ProgressToken_shape :: shape where "ProgressToken_shape = SAny"

definition WorkDoneProgressParams_shape :: shape where
  "WorkDoneProgressParams_shape = SStruct [Field ''workDoneToken'' True ProgressToken_shape]"

definition XInitializeParams_shape :: shape where
  "XInitializeParams_shape = struct_of [Own (Field ''processId'' False SInt32),
     Own (Field ''clientInfo'' True (SPtr Msg_XInitializeParams_clientInfo_shape)),
     Own (Field ''locale'' True SString), Own (Field ''rootPath'' True SString),
     Own (Field ''rootUri'' False DocumentURI_shape), Own (Field ''capabilities'' False ClientCapabilities_shape),
     Own (Field ''initializationOptions'' True SAny), Own (Field ''trace'' True (SPtr TraceValues_shape)),
     Embedded WorkDoneProgressParams_shape]"

definition WorkspaceFoldersInitializeParams_shape :: shape where
  "WorkspaceFoldersInitializeParams_shape = SStruct [Field ''workspaceFolders'' True (SList WorkspaceFolder_shape)]"

definition InitializeParams_shape :: shape where
  "InitializeParams_shape = struct_of [Embedded XInitializeParams_shape,
     Embedded WorkspaceFoldersInitializeParams_shape]"

definition TextDocumentItem_shape :: shape where
  "TextDocumentItem_shape = SStruct [Field ''uri'' False DocumentURI_shape, Field ''languageId'' False SString,
     Field ''version'' False SInt32, Field ''text'' False SString]"

definition DidOpenTextDocumentParams_shape :: shape where
  "DidOpenTextDocumentParams_shape = SStruct [Field ''textDocument'' False TextDocumentItem_shape]"

definition VersionedTextDocumentIdentifier_shape :: shape where
  "VersionedTextDocumentIdentifier_shape = struct_of [Own (Field ''version'' False SInt32),
     Embedded TextDocumentIdentifier_shape]"

definition Msg_TextDocumentContentChangeEvent_shape :: shape where
  "Msg_TextDocumentContentChangeEvent_shape = SStruct [Field ''range'' False (SPtr Range_shape),
     Field ''rangeLength'' True SUint32, Field ''text'' False SString]"

definition TextDocumentContentChangeEvent_shape :: shape where "TextDocumentContentChangeEvent_shape = Msg_TextDocumentContentChangeEvent_shape"

definition DidChangeTextDocumentParams_shape :: shape where
  "DidChangeTextDocumentParams_shape = SStruct [Field ''textDocument'' False VersionedTextDocumentIdentifier_shape,
     Field ''contentChanges'' False (SList TextDocumentContentChangeEvent_shape)]"

definition DidCloseTextDocumentParams_shape :: shape where
  "DidCloseTextDocumentParams_shape = SStruct [Field ''textDocument'' False TextDocumentIdentifier_shape]"

definition TextDocumentPositionParams_shape :: shape where
  "TextDocumentPositionParams_shape = SStruct [Field ''textDocument'' False TextDocumentIdentifier_shape,
     Field ''position'' False Position_shape]"

definition ReferenceContext_shape :: shape where
  "ReferenceContext_shape = SStruct [Field ''includeDeclaration'' False SBool]"

definition PartialResultParams_shape :: shape where
  "PartialResultParams_shape = SStruct [Field ''partialResultToken'' True (SPtr ProgressToken_shape)]"

definition ReferenceParams_shape :: shape where
  "ReferenceParams_shape = struct_of [Own (Field ''context'' False ReferenceContext_shape),
     Embedded TextDocumentPositionParams_shape, Embedded WorkDoneProgressParams_shape,
     Embedded PartialResultParams_shape]"

definition RenameParams_shape :: shape where
  "RenameParams_shape = struct_of [Own (Field ''textDocument'' False TextDocumentIdentifier_shape),
     Own (Field ''position'' False Position_shape), Own (Field ''newName'' False SString),
     Embedded WorkDoneProgressParams_shape]"

definition CodeActionTriggerKind_shape :: shape where "CodeActionTriggerKind_shape = SUint32"

definition CodeActionContext_shape :: shape where
  "CodeActionContext_shape = SStruct [Field ''diagnostics'' False (SList Diagnostic_shape),
     Field ''only'' True (SList CodeActionKind_shape), Field ''triggerKind'' True (SPtr CodeActionTriggerKind_shape)]"

definition CodeActionParams_shape :: shape where
  "CodeActionParams_shape = struct_of [Own (Field ''textDocument'' False TextDocumentIdentifier_shape),
     Own (Field ''range'' False Range_shape), Own (Field ''context'' False CodeActionContext_shape),
     Embedded WorkDoneProgressParams_shape, Embedded PartialResultParams_shape]"

definition CodeLensParams_shape :: shape where
  "CodeLensParams_shape = struct_of [Own (Field ''textDocument'' False TextDocumentIdentifier_shape),
     Embedded WorkDoneProgressParams_shape, Embedded PartialResultParams_shape]"

definition CompletionTriggerKind_shape :: shape where "CompletionTriggerKind_shape = SUint32"

definition CompletionContext_shape :: shape where
  "CompletionContext_shape = SStruct [Field ''triggerKind'' False CompletionTriggerKind_shape,
     Field ''triggerCharacter'' True SString]"

definition CompletionParams_shape :: shape where
  "CompletionParams_shape = struct_of [Own (Field ''context'' True CompletionContext_shape),
     Embedded TextDocumentPositionParams_shape, Embedded WorkDoneProgressParams_shape,
     Embedded PartialResultParams_shape]"

definition CompletionItemLabelDetails_shape :: shape where
  "CompletionItemLabelDetails_shape = SStruct [Field ''detail'' True SString, Field ''description'' True SString]"

definition InsertTextFormat_shape :: shape where "InsertTextFormat_shape = SUint32"

definition CompletionItem_shape :: shape where
  "CompletionItem_shape = SStruct [Field ''label'' False SString,
     Field ''labelDetails'' True (SPtr CompletionItemLabelDetails_shape),
     Field ''kind'' True CompletionItemKind_shape, Field ''tags'' True (SList CompletionItemTag_shape),
     Field ''detail'' True SString, Field ''documentation'' True (SPtr Or_CompletionItem_documentation),
     Field ''deprecated'' True SBool, Field ''preselect'' True SBool, Field ''sortText'' True SString,
     Field ''filterText'' True SString, Field ''insertText'' True SString,
     Field ''insertTextFormat'' True (SPtr InsertTextFormat_shape),
     Field ''insertTextMode'' True (SPtr InsertTextMode_shape), Field ''textEdit'' True (SPtr TextEdit_shape),
     Field ''textEditText'' True SString, Field ''additionalTextEdits'' True (SList TextEdit_shape),
     Field ''commitCharacters'' True (SList SString), Field ''command'' True (SPtr Command_shape),
     Field ''data'' True SAny]"

definition ExecuteCommandParams_shape :: shape where
  "ExecuteCommandParams_shape = struct_of [Own (Field ''command'' False SString),
     Own (Field ''arguments'' True (SList SAny)), Embedded WorkDoneProgressParams_shape]"

definition DidChangeConfigurationParams_shape :: shape where
  "DidChangeConfigurationParams_shape = SStruct [Field ''settings'' False SAny]"

definition DocumentSymbolParams_shape :: shape where
  "DocumentSymbolParams_shape = struct_of [Own (Field ''textDocument'' False TextDocumentIdentifier_shape),
     Embedded WorkDoneProgressParams_shape, Embedded PartialResultParams_shape]"

definition DocumentLinkParams_shape :: shape where
  "DocumentLinkParams_shape = struct_of [Own (Field ''textDocument'' False TextDocumentIdentifier_shape),
     Embedded WorkDoneProgressParams_shape, Embedded PartialResultParams_shape]"

definition InlayHintParams_shape :: shape where
  "InlayHintParams_shape = struct_of [Own (Field ''textDocument'' False TextDocumentIdentifier_shape),
     Own (Field ''range'' False Range_shape), Embedded WorkDoneProgressParams_shape]"

definition FoldingRangeParams_shape :: shape where
  "FoldingRangeParams_shape = struct_of [Own (Field ''textDocument'' False TextDocumentIdentifier_shape),
     Embedded WorkDoneProgressParams_shape, Embedded PartialResultParams_shape]"

definition SelectionRangeParams_shape :: shape where
  "SelectionRangeParams_shape = struct_of [Own (Field ''textDocument'' False TextDocumentIdentifier_shape),
     Own (Field ''positions'' False (SList Position_shape)), Embedded WorkDoneProgressParams_shape,
     Embedded PartialResultParams_shape]"

definition WorkspaceSymbolParams_shape :: shape where
  "WorkspaceSymbolParams_shape = struct_of [Own (Field ''query'' False SString),
     Embedded WorkDoneProgressParams_shape, Embedded PartialResultParams_shape]"

definition SemanticTokensParams_shape :: shape where
  "SemanticTokensParams_shape = struct_of [Own (Field ''textDocument'' False TextDocumentIdentifier_shape),
     Embedded WorkDoneProgressParams_shape, Embedded PartialResultParams_shape]"

definition PCompletionItemPCompletionProvider_shape :: shape where
  "PCompletionItemPCompletionProvider_shape = SStruct [Field ''labelDetailsSupport'' True SBool]"

definition CompletionOptions_shape :: shape where
  "CompletionOptions_shape = struct_of [Own (Field ''triggerCharacters'' True (SList SString)),
     Own (Field ''allCommitCharacters'' True (SList SString)), Own (Field ''resolveProvider'' True SBool),
     Own (Field ''completionItem'' True (SPtr PCompletionItemPCompletionProvider_shape)),
     Embedded WorkDoneProgressOptions_shape]"

definition SignatureHelpOptions_shape :: shape where
  "SignatureHelpOptions_shape = struct_of [Own (Field ''triggerCharacters'' True (SList SString)),
     Own (Field ''retriggerCharacters'' True (SList SString)), Embedded WorkDoneProgressOptions_shape]"

definition CodeLensOptions_shape :: shape where
  "CodeLensOptions_shape = struct_of [Own (Field ''resolveProvider'' True SBool),
     Embedded WorkDoneProgressOptions_shape]"

definition DocumentLinkOptions_shape :: shape where
  "DocumentLinkOptions_shape = struct_of [Own (Field ''resolveProvider'' True SBool),
     Embedded WorkDoneProgressOptions_shape]"

definition DocumentOnTypeFormattingOptions_shape :: shape where
  "DocumentOnTypeFormattingOptions_shape = SStruct [Field ''firstTriggerCharacter'' False SString,
     Field ''moreTriggerCharacter'' True (SList SString)]"

definition ExecuteCommandOptions_shape :: shape where
  "ExecuteCommandOptions_shape = struct_of [Own (Field ''commands'' False (SList SString)),
     Embedded WorkDoneProgressOptions_shape]"

definition WorkspaceFolders5Gn_shape :: shape where
  "WorkspaceFolders5Gn_shape = SStruct [Field ''supported'' True SBool, Field ''changeNotifications'' True SString]"

definition FileOperationPatternKind_shape :: shape where "FileOperationPatternKind_shape = SString"

definition FileOperationPatternOptions_shape :: shape where
  "FileOperationPatternOptions_shape = SStruct [Field ''ignoreCase'' True SBool]"

definition FileOperationPattern_shape :: shape where
  "FileOperationPattern_shape = SStruct [Field ''glob'' False SString,
     Field ''matches'' True (SPtr FileOperationPatternKind_shape),
     Field ''options'' True (SPtr FileOperationPatternOptions_shape)]"

definition FileOperationFilter_shape :: shape where
  "FileOperationFilter_shape = SStruct [Field ''scheme'' True SString,
     Field ''pattern'' False FileOperationPattern_shape]"

definition FileOperationRegistrationOptions_shape :: shape where
  "FileOperationRegistrationOptions_shape = SStruct [Field ''filters'' False (SList FileOperationFilter_shape)]"

definition FileOperationOptions_shape :: shape where
  "FileOperationOptions_shape = SStruct [Field ''didCreate'' True (SPtr FileOperationRegistrationOptions_shape),
     Field ''willCreate'' True (SPtr FileOperationRegistrationOptions_shape),
     Field ''didRename'' True (SPtr FileOperationRegistrationOptions_shape),
     Field ''willRename'' True (SPtr FileOperationRegistrationOptions_shape),
     Field ''didDelete'' True (SPtr FileOperationRegistrationOptions_shape),
     Field ''willDelete'' True (SPtr FileOperationRegistrationOptions_shape)]"

definition Workspace6Gn_shape :: shape where
  "Workspace6Gn_shape = SStruct [Field ''workspaceFolders'' True (SPtr WorkspaceFolders5Gn_shape),
     Field ''fileOperations'' True (SPtr FileOperationOptions_shape)]"

definition ServerCapabilities_shape :: shape where
  "ServerCapabilities_shape = SStruct [Field ''positionEncoding'' True (SPtr PositionEncodingKind_shape),
     Field ''textDocumentSync'' True SAny,
     Field ''notebookDocumentSync'' True (SPtr Or_ServerCapabilities_notebookDocumentSync),
     Field ''completionProvider'' True (SPtr CompletionOptions_shape),
     Field ''hoverProvider'' True (SPtr Or_ServerCapabilities_hoverProvider),
     Field ''signatureHelpProvider'' True (SPtr SignatureHelpOptions_shape),
     Field ''declarationProvider'' True (SPtr Or_ServerCapabilities_declarationProvider),
     Field ''definitionProvider'' True (SPtr Or_ServerCapabilities_definitionProvider),
     Field ''typeDefinitionProvider'' True (SPtr Or_ServerCapabilities_typeDefinitionProvider),
     Field ''implementationProvider'' True (SPtr Or_ServerCapabilities_implementationProvider),
     Field ''referencesProvider'' True (SPtr Or_ServerCapabilities_referencesProvider),
     Field ''documentHighlightProvider'' True (SPtr Or_ServerCapabilities_documentHighlightProvider),
     Field ''documentSymbolProvider'' True (SPtr Or_ServerCapabilities_documentSymbolProvider),
     Field ''codeActionProvider'' True SAny, Field ''codeLensProvider'' True (SPtr CodeLensOptions_shape),
     Field ''documentLinkProvider'' True (SPtr DocumentLinkOptions_shape),
     Field ''colorProvider'' True (SPtr Or_ServerCapabilities_colorProvider),
     Field ''workspaceSymbolProvider'' True (SPtr Or_ServerCapabilities_workspaceSymbolProvider),
     Field ''documentFormattingProvider'' True (SPtr Or_ServerCapabilities_documentFormattingProvider),
     Field ''documentRangeFormattingProvider'' True (SPtr Or_ServerCapabilities_documentRangeFormattingProvider),
     Field ''documentOnTypeFormattingProvider'' True (SPtr DocumentOnTypeFormattingOptions_shape),
     Field ''renameProvider'' True SAny,
     Field ''foldingRangeProvider'' True (SPtr Or_ServerCapabilities_foldingRangeProvider),
     Field ''selectionRangeProvider'' True (SPtr Or_ServerCapabilities_selectionRangeProvider),
     Field ''executeCommandProvider'' True (SPtr ExecuteCommandOptions_shape),
     Field ''callHierarchyProvider'' True (SPtr Or_ServerCapabilities_callHierarchyProvider),
     Field ''linkedEditingRangeProvider'' True (SPtr Or_ServerCapabilities_linkedEditingRangeProvider),
     Field ''semanticTokensProvider'' True SAny,
     Field ''monikerProvider'' True (SPtr Or_ServerCapabilities_monikerProvider),
     Field ''typeHierarchyProvider'' True (SPtr Or_ServerCapabilities_typeHierarchyProvider),
     Field ''inlineValueProvider'' True (SPtr Or_ServerCapabilities_inlineValueProvider),
     Field ''inlayHintProvider'' True SAny,
     Field ''diagnosticProvider'' True (SPtr Or_ServerCapabilities_diagnosticProvider),
     Field ''workspace'' True (SPtr Workspace6Gn_shape), Field ''experimental'' True SAny]"

definition PServerInfoMsg_initialize_shape :: shape where
  "PServerInfoMsg_initialize_shape = SStruct [Field ''name'' False SString, Field ''version'' True SString]"

definition InitializeResult_shape :: shape where
  "InitializeResult_shape = SStruct [Field ''capabilities'' False ServerCapabilities_shape,
     Field ''serverInfo'' True (SPtr PServerInfoMsg_initialize_shape)]"

definition Hover_shape :: shape where
  "Hover_shape = SStruct [Field ''contents'' False MarkupContent_shape, Field ''range'' True Range_shape]"

definition ParameterInformation_shape :: shape where
  "ParameterInformation_shape = SStruct [Field ''label'' False SString, Field ''documentation'' True SString]"

definition SignatureInformation_shape :: shape where
  "SignatureInformation_shape = SStruct [Field ''label'' False SString,
     Field ''documentation'' True (SPtr Or_SignatureInformation_documentation),
     Field ''parameters'' True (SList ParameterInformation_shape), Field ''activeParameter'' True SUint32]"

definition SignatureHelp_shape :: shape where
  "SignatureHelp_shape = SStruct [Field ''signatures'' False (SList SignatureInformation_shape),
     Field ''activeSignature'' True SUint32, Field ''activeParameter'' True SUint32]"

definition DocumentHighlightKind_shape :: shape where "DocumentHighlightKind_shape = SUint32"

definition DocumentHighlight_shape :: shape where
  "DocumentHighlight_shape = SStruct [Field ''range'' False Range_shape,
     Field ''kind'' True DocumentHighlightKind_shape]"

definition CodeLens_shape :: shape where
  "CodeLens_shape = SStruct [Field ''range'' False Range_shape, Field ''command'' True (SPtr Command_shape),
     Field ''data'' True SAny]"

text \<open>Symbols nest; here at most \<open>n\<close> levels below the symbol.\<close>

definition DocumentSymbol_fields :: "field list" where
  "DocumentSymbol_fields = [Field ''name'' False SString, Field ''detail'' True SString,
     Field ''kind'' False SymbolKind_shape, Field ''tags'' True (SList SymbolTag_shape),
     Field ''deprecated'' True SBool, Field ''range'' False Range_shape,
     Field ''selectionRange'' False Range_shape]"

primrec DocumentSymbol_shape :: "nat \<Rightarrow> shape" where
  "DocumentSymbol_shape 0 = SStruct DocumentSymbol_fields"
| "DocumentSymbol_shape (Suc n) =
     SStruct (DocumentSymbol_fields @ [Field ''children'' True (SList (DocumentSymbol_shape n))])"

definition DocumentLink_shape :: shape where
  "DocumentLink_shape = SStruct [Field ''range'' False Range_shape, Field ''target'' True SString,
     Field ''tooltip'' True SString, Field ''data'' True SAny]"

definition InlayHintKind_shape :: shape where "InlayHintKind_shape = SUint32"

definition InlayHint_shape :: shape where
  "InlayHint_shape = SStruct [Field ''position'' False Position_shape,
     Field ''label'' False (SList InlayHintLabelPart_shape), Field ''kind'' True InlayHintKind_shape,
     Field ''textEdits'' True (SList TextEdit_shape),
     Field ''tooltip'' True (SPtr OrPTooltip_textDocument_inlayHint), Field ''paddingLeft'' True SBool,
     Field ''paddingRight'' True SBool, Field ''data'' True SAny]"

definition FoldingRange_shape :: shape where
  "FoldingRange_shape = SStruct [Field ''startLine'' False SUint32, Field ''startCharacter'' True SUint32,
     Field ''endLine'' False SUint32, Field ''endCharacter'' True SUint32, Field ''kind'' True SString,
     Field ''collapsedText'' True SString]"

text \<open>A chain of at most \<open>n\<close> parents.\<close>

primrec SelectionRange_shape :: "nat \<Rightarrow> shape" where
  "SelectionRange_shape 0 = SStruct [Field ''range'' False Range_shape]"
| "SelectionRange_shape (Suc n) =
     SStruct [Field ''range'' False Range_shape, Field ''parent'' True (SPtr (SelectionRange_shape n))]"

definition SymbolInformation_shape :: shape where
  "SymbolInformation_shape = SStruct [Field ''deprecated'' True SBool, Field ''location'' False Location_shape,
     Field ''name'' False SString, Field ''kind'' False SymbolKind_shape,
     Field ''tags'' True (SList SymbolTag_shape), Field ''containerName'' True SString]"

definition SemanticTokens_shape :: shape where
  "SemanticTokens_shape = SStruct [Field ''resultId'' True SString, Field ''data'' False (SList SUint32)]"

definition MessageType_shape :: shape where "MessageType_shape = SUint32"

definition LogMessageParams_shape :: shape where
  "LogMessageParams_shape = SStruct [Field ''type'' False MessageType_shape, Field ''message'' False SString]"

definition ShowMessageParams_shape :: shape where
  "ShowMessageParams_shape = SStruct [Field ''type'' False MessageType_shape, Field ''message'' False SString]"

definition PublishDiagnosticsParams_shape :: shape where
  "PublishDiagnosticsParams_shape = SStruct [Field ''uri'' False DocumentURI_shape, Field ''version'' True SInt32,
     Field ''diagnostics'' False (SList Diagnostic_shape)]"

definition Registration_shape :: shape where
  "Registration_shape = SStruct [Field ''id'' False SString, Field ''method'' False SString,
     Field ''registerOptions'' True SAny]"

definition RegistrationParams_shape :: shape where
  "RegistrationParams_shape = SStruct [Field ''registrations'' False (SList Registration_shape)]"

definition MessageActionItem_shape :: shape where
  "MessageActionItem_shape = SStruct [Field ''title'' False SString]"

definition ShowMessageRequestParams_shape :: shape where
  "ShowMessageRequestParams_shape = SStruct [Field ''type'' False MessageType_shape, Field ''message'' False SString,
     Field ''actions'' True (SList MessageActionItem_shape)]"

section \<open>Messages\<close>

text \<open>What the methods read, in the order of the interface Handler.\<close>

definition handler_params :: "shape list" where
  "handler_params = [InitializeParams_shape, DidOpenTextDocumentParams_shape, DidChangeTextDocumentParams_shape,
     DidCloseTextDocumentParams_shape, TextDocumentPositionParams_shape, ReferenceParams_shape,
     RenameParams_shape, CodeActionParams_shape, CodeLensParams_shape, CompletionParams_shape,
     CompletionItem_shape, ExecuteCommandParams_shape, DidChangeConfigurationParams_shape,
     DocumentSymbolParams_shape, DocumentLinkParams_shape, InlayHintParams_shape, FoldingRangeParams_shape,
     SelectionRangeParams_shape, WorkspaceSymbolParams_shape, SemanticTokensParams_shape]"

text \<open>What they answer, after the result of initialize.\<close>

definition handler_results :: "nat \<Rightarrow> shape list" where
  "handler_results n = [SPtr Hover_shape, SPtr Location_shape, SList Location_shape, SPtr SignatureHelp_shape,
     SList (SPtr DocumentHighlight_shape), SPtr WorkspaceEdit_shape, SList (SPtr CodeAction_shape),
     SList (SPtr CodeLens_shape), SList (SPtr CompletionItem_shape), SPtr CompletionItem_shape, SAny,
     SList (SPtr (DocumentSymbol_shape n)), SList (SPtr DocumentLink_shape), SList (SPtr InlayHint_shape),
     SList (SPtr FoldingRange_shape), SList (SPtr (SelectionRange_shape n)), SList SymbolInformation_shape,
     SPtr SemanticTokens_shape]"

text \<open>What the connection sends to the client, and the answer that it reads.\<close>

definition connection_messages :: "shape list" where
  "connection_messages = [ShowMessageParams_shape, ShowMessageRequestParams_shape, MessageActionItem_shape,
     LogMessageParams_shape, PublishDiagnosticsParams_shape, RegistrationParams_shape]"

section \<open>Reading what was written\<close>

lemma message_facts:
  "checked separable CodeActionParams_shape" "checked separable CodeAction_shape"
  "checked separable CodeLensParams_shape" "checked separable CodeLens_shape"
  "checked separable CompletionItem_shape" "checked separable CompletionParams_shape"
  "checked separable DidChangeConfigurationParams_shape" "checked separable DidChangeTextDocumentParams_shape"
  "checked separable DidCloseTextDocumentParams_shape" "checked separable DidOpenTextDocumentParams_shape"
  "checked separable DocumentHighlight_shape" "checked separable DocumentLinkParams_shape"
  "checked separable DocumentLink_shape" "checked separable DocumentSymbolParams_shape"
  "checked separable ExecuteCommandParams_shape" "checked separable FoldingRangeParams_shape"
  "checked separable FoldingRange_shape" "checked separable Hover_shape"
  "checked separable InitializeParams_shape" "checked separable InlayHintParams_shape"
  "checked separable InlayHint_shape" "checked separable Location_shape"
  "checked separable LogMessageParams_shape" "checked separable MessageActionItem_shape"
  "checked separable PublishDiagnosticsParams_shape" "checked separable ReferenceParams_shape"
  "checked separable RegistrationParams_shape" "checked separable RenameParams_shape"
  "checked separable SelectionRangeParams_shape" "checked separable SemanticTokensParams_shape"
  "checked separable SemanticTokens_shape" "checked separable ShowMessageParams_shape"
  "checked separable ShowMessageRequestParams_shape" "checked separable SignatureHelp_shape"
  "checked separable SymbolInformation_shape" "checked separable TextDocumentPositionParams_shape"
  "checked separable WorkspaceEdit_shape" "checked separable WorkspaceSymbolParams_shape"
  by code_simp+

lemma document_symbol_fields:
  "list_all (checked_field separable) DocumentSymbol_fields"
  "distinct (map (\<lambda>f. to_lower (field_name f)) (DocumentSymbol_fields @ [Field ''children'' True SAny]))"
  by code_simp+

lemma document_symbol_checked: "checked separable (DocumentSymbol_shape n)"
proof (induction n)
  case 0
  show ?case using document_symbol_fields by (simp add: list_all_iff)
next
  case (Suc n)
  then show ?case using document_symbol_fields by (simp add: list_all_iff)
qed

lemma selection_range_fields:
  "checked separable Range_shape" "to_lower ''range'' \<noteq> to_lower ''parent''"
  by code_simp+

lemma selection_range_checked: "checked separable (SelectionRange_shape n) \<and> clean_omit (SelectionRange_shape n)"
  by (induction n) (simp_all add: selection_range_fields)

lemmas message_checked = message_facts document_symbol_checked selection_range_checked



end
