(* ===== verification/ProtocolUnions.thy ===== *)
theory ProtocolUnions
  imports ProtocolTypes
begin

text \<open>
  The 60 unions of src/languageserver/protocol/json.go, sorted by what their methods UnmarshalJSON make of
  the text that MarshalJSON writes. In 31 of them every alternative is read as itself. In the other 29 a
  later alternative is always read as an earlier one: encoding/json ignores keys that a struct does not
  have and leaves fields without a key at zero, so a struct with other fields accepts the text.
\<close>

section \<open>The unions\<close>

fun alternatives :: "shape \<Rightarrow> shape list" where
  "alternatives (SUnion ss) = ss"
| "alternatives s = []"

definition is_union :: "shape \<Rightarrow> bool" where
  "is_union s = (case s of SUnion ss \<Rightarrow> True | _ \<Rightarrow> False)"

definition exact_unions :: "shape list" where
  "exact_unions = [
     OrFNotebookPNotebookSelector, OrPSection_workspace_didChangeConfiguration, OrPTooltipPLabel,
     OrPTooltip_textDocument_inlayHint, Or_CancelParams_id, Or_CompletionItem_documentation, Or_Definition,
     Or_Diagnostic_code, Or_InlayHint_label, Or_MarkedString, Or_NotebookCellTextDocumentFilter_notebook,
     Or_NotebookDocumentSyncOptions_notebookSelector_Elem_Item1_notebook, Or_RelativePattern_baseUri,
     Or_Result_textDocument_codeAction_Item0_Elem, Or_SemanticTokensClientCapabilities_requests_full,
     Or_SemanticTokensClientCapabilities_requests_range, Or_SemanticTokensOptions_full,
     Or_SemanticTokensOptions_range, Or_ServerCapabilities_codeActionProvider,
     Or_ServerCapabilities_definitionProvider, Or_ServerCapabilities_documentFormattingProvider,
     Or_ServerCapabilities_documentHighlightProvider, Or_ServerCapabilities_documentRangeFormattingProvider,
     Or_ServerCapabilities_documentSymbolProvider, Or_ServerCapabilities_hoverProvider,
     Or_ServerCapabilities_referencesProvider, Or_ServerCapabilities_renameProvider,
     Or_ServerCapabilities_textDocumentSync, Or_ServerCapabilities_workspaceSymbolProvider,
     Or_SignatureInformation_documentation, Or_TextDocumentSyncOptions_save]"

text \<open>A union and the number of an alternative that is read as another.\<close>

definition misread_alternatives :: "(shape \<times> nat) list" where
  "misread_alternatives = [
     (OrFEditRangePItemDefaults, 1), (OrPLocation_workspace_symbol, 1), (Or_CompletionItem_textEdit, 1),
     (Or_DocumentDiagnosticReport, 1), (Or_DocumentDiagnosticReportPartialResult_relatedDocuments_Value, 1),
     (Or_DocumentFilter, 1), (Or_Hover_contents, 1), (Or_InlineValue, 1), (Or_InlineValue, 2),
     (Or_RelatedFullDocumentDiagnosticReport_relatedDocuments_Value, 1),
     (Or_RelatedUnchangedDocumentDiagnosticReport_relatedDocuments_Value, 1),
     (Or_ServerCapabilities_callHierarchyProvider, 1), (Or_ServerCapabilities_colorProvider, 1),
     (Or_ServerCapabilities_declarationProvider, 1), (Or_ServerCapabilities_diagnosticProvider, 1),
     (Or_ServerCapabilities_foldingRangeProvider, 1), (Or_ServerCapabilities_implementationProvider, 1),
     (Or_ServerCapabilities_inlayHintProvider, 1), (Or_ServerCapabilities_inlineValueProvider, 1),
     (Or_ServerCapabilities_linkedEditingRangeProvider, 1), (Or_ServerCapabilities_monikerProvider, 1),
     (Or_ServerCapabilities_notebookDocumentSync, 1), (Or_ServerCapabilities_selectionRangeProvider, 1),
     (Or_ServerCapabilities_semanticTokensProvider, 1), (Or_ServerCapabilities_typeDefinitionProvider, 1),
     (Or_ServerCapabilities_typeHierarchyProvider, 1), (Or_TextDocumentEdit_edits_Elem, 1),
     (Or_WorkspaceDocumentDiagnosticReport, 1), (Or_WorkspaceEdit_documentChanges_Elem, 1),
     (Or_WorkspaceEdit_documentChanges_Elem, 2), (Or_WorkspaceEdit_documentChanges_Elem, 3),
     (Or_textDocument_declaration, 1)]"

definition protocol_unions :: "shape list" where
  "protocol_unions = exact_unions @ map fst misread_alternatives"

section \<open>Reading a union\<close>

text \<open>What the lists promise, checked union by union.\<close>

definition is_exact :: "shape \<Rightarrow> bool" where
  "is_exact u \<longleftrightarrow> is_union u \<and> checked separable u"

definition is_misread :: "shape \<Rightarrow> nat \<Rightarrow> bool" where
  "is_misread u k \<longleftrightarrow> is_union u \<and> wf_shape u \<and> k \<in> set (shadowed (alternatives u))"

lemma exact_union_facts:
  "is_exact OrFNotebookPNotebookSelector" "is_exact OrPSection_workspace_didChangeConfiguration"
  "is_exact OrPTooltipPLabel" "is_exact OrPTooltip_textDocument_inlayHint" "is_exact Or_CancelParams_id"
  "is_exact Or_CompletionItem_documentation" "is_exact Or_Definition" "is_exact Or_Diagnostic_code"
  "is_exact Or_InlayHint_label" "is_exact Or_MarkedString" "is_exact Or_NotebookCellTextDocumentFilter_notebook"
  "is_exact Or_NotebookDocumentSyncOptions_notebookSelector_Elem_Item1_notebook"
  "is_exact Or_RelativePattern_baseUri" "is_exact Or_Result_textDocument_codeAction_Item0_Elem"
  "is_exact Or_SemanticTokensClientCapabilities_requests_full"
  "is_exact Or_SemanticTokensClientCapabilities_requests_range" "is_exact Or_SemanticTokensOptions_full"
  "is_exact Or_SemanticTokensOptions_range" "is_exact Or_ServerCapabilities_codeActionProvider"
  "is_exact Or_ServerCapabilities_definitionProvider"
  "is_exact Or_ServerCapabilities_documentFormattingProvider"
  "is_exact Or_ServerCapabilities_documentHighlightProvider"
  "is_exact Or_ServerCapabilities_documentRangeFormattingProvider"
  "is_exact Or_ServerCapabilities_documentSymbolProvider" "is_exact Or_ServerCapabilities_hoverProvider"
  "is_exact Or_ServerCapabilities_referencesProvider" "is_exact Or_ServerCapabilities_renameProvider"
  "is_exact Or_ServerCapabilities_textDocumentSync" "is_exact Or_ServerCapabilities_workspaceSymbolProvider"
  "is_exact Or_SignatureInformation_documentation" "is_exact Or_TextDocumentSyncOptions_save"
  by code_simp+

lemma misread_union_facts:
  "is_misread OrFEditRangePItemDefaults 1" "is_misread OrPLocation_workspace_symbol 1"
  "is_misread Or_CompletionItem_textEdit 1" "is_misread Or_DocumentDiagnosticReport 1"
  "is_misread Or_DocumentDiagnosticReportPartialResult_relatedDocuments_Value 1"
  "is_misread Or_DocumentFilter 1" "is_misread Or_Hover_contents 1" "is_misread Or_InlineValue 1"
  "is_misread Or_InlineValue 2" "is_misread Or_RelatedFullDocumentDiagnosticReport_relatedDocuments_Value 1"
  "is_misread Or_RelatedUnchangedDocumentDiagnosticReport_relatedDocuments_Value 1"
  "is_misread Or_ServerCapabilities_callHierarchyProvider 1" "is_misread Or_ServerCapabilities_colorProvider 1"
  "is_misread Or_ServerCapabilities_declarationProvider 1"
  "is_misread Or_ServerCapabilities_diagnosticProvider 1"
  "is_misread Or_ServerCapabilities_foldingRangeProvider 1"
  "is_misread Or_ServerCapabilities_implementationProvider 1"
  "is_misread Or_ServerCapabilities_inlayHintProvider 1"
  "is_misread Or_ServerCapabilities_inlineValueProvider 1"
  "is_misread Or_ServerCapabilities_linkedEditingRangeProvider 1"
  "is_misread Or_ServerCapabilities_monikerProvider 1" "is_misread Or_ServerCapabilities_notebookDocumentSync 1"
  "is_misread Or_ServerCapabilities_selectionRangeProvider 1"
  "is_misread Or_ServerCapabilities_semanticTokensProvider 1"
  "is_misread Or_ServerCapabilities_typeDefinitionProvider 1"
  "is_misread Or_ServerCapabilities_typeHierarchyProvider 1" "is_misread Or_TextDocumentEdit_edits_Elem 1"
  "is_misread Or_WorkspaceDocumentDiagnosticReport 1" "is_misread Or_WorkspaceEdit_documentChanges_Elem 1"
  "is_misread Or_WorkspaceEdit_documentChanges_Elem 2" "is_misread Or_WorkspaceEdit_documentChanges_Elem 3"
  "is_misread Or_textDocument_declaration 1"
  by code_simp+

lemma exact_unions_exact: "u \<in> set exact_unions \<Longrightarrow> is_exact u"
  by (auto simp: exact_unions_def exact_union_facts)

lemma misread_alternatives_misread: "(u, k) \<in> set misread_alternatives \<Longrightarrow> is_misread u k"
  by (auto simp: misread_alternatives_def misread_union_facts simp del: One_nat_def)

lemma protocol_union_wf: "u \<in> set protocol_unions \<Longrightarrow> \<exists>ss. u = SUnion ss \<and> wf_shape u"
proof -
  assume "u \<in> set protocol_unions"
  then have "is_exact u \<or> (\<exists>k. is_misread u k)"
    using exact_unions_exact misread_alternatives_misread by (fastforce simp: protocol_unions_def)
  then have "is_union u \<and> wf_shape u" using checked_wf by (auto simp: is_exact_def is_misread_def)
  then show ?thesis by (cases u) (simp_all add: is_union_def)
qed



end
