(* ===== verification/Spec2Isabelle.thy ===== *)
theory Spec2Isabelle
  imports Dispatch Integration LintIfLet LintStrings LintV1 LintDriver DocGen TestRunner Programs
    ProtocolMessages ProtocolUnions
begin

text \<open>
  A model of the Cadence language server (src/languageserver), the linter (src/lint), the
  documentation generator (src/docgen) and the test framework (src/test) of this repository. Of the
  language server: the first server (src/languageserver/server), which the standard program and the
  one for JavaScript hosts run, the second server (src/languageserver/server2), both with all their
  request handlers, the import resolvers it uses
  (src/languageserver/resolver), the conversions (src/languageserver/conversion), the protocol types
  with their JSON (src/languageserver/protocol/types.go, json.go, documentchanges.go, range.go), the JSON-RPC handler and method table in
  front of it (src/languageserver/jsonrpc2/server.go, protocol/server.go, methods.go), and the Flow
  integration (src/languageserver/integration): configuration manager, client, import resolution per
  project, entry points, commands, initialization and prompts.

  \<^bold>\<open>How the program works.\<close> The editor sends document notifications. The server stores the text in
  the analysis host, which evicts from the checker cache the checkers of the document and of every
  file that transitively imports it, found by a search over the import graph. A check is then run
  at once or after a debounce delay; a newer change cancels a running check. A check takes a
  snapshot of the documents, parses and type-checks the document, answers the imports the checker
  asks for from the cache or through the resolvers (recording each as an edge of the import graph),
  caches the checker and publishes the diagnostics. The requests read a cached checker, or make one
  in the same way, and answer from its position index. Requests and notifications arrive through the
  JSON-RPC handler, which looks the method up, decodes the parameters and replies.

  The Flow integration finds the flow.json of a document, loads and watches it, and gives the server
  its import resolvers, project identities, account access check, code lenses, diagnostics and
  commands; a client runs scripts, transactions and deployments on an emulator for it.

  The first server is older and is the one that takes these options. It checks a document in the
  notification itself, keeps every checker in a map by project and location that is never evicted,
  and stores with each diagnostic a resolver for the code actions that it can offer later.

  \<^bold>\<open>Theories, bottom up.\<close>

  \<^item> \<^verbatim>\<open>Prelude\<close>: Go maps and sets as association lists and key lists, string functions of Go's
    library, sorting, shared lemmas. \<^verbatim>\<open>Stores\<close>: the contracts (locales) of a store that never loses
    an entry and of one that may evict.
  \<^item> \<^verbatim>\<open>DepGraph\<close> (depgraph.go): the two adjacency maps and every operation; the invariant that the
    maps mirror each other, the refinement to the relation of imports, and the equivalence of the
    breadth-first search with reachability.
  \<^item> \<^verbatim>\<open>LruCache\<close> (cache.go): map, linked list and element cells; the refinement to the recency list
    and the capacity bound. \<^verbatim>\<open>Documents\<close> (document.go): the open documents.
  \<^item> \<^verbatim>\<open>Debouncer\<close> (debounce.go): timers, with expiry and callback as separate steps; invariants over
    the reachable states with and without delayed goroutines.
  \<^item> \<^verbatim>\<open>Host\<close> (snapshot.go): documents, cache and graph together; what an update and a removal evict.
    The interpretation \<open>ic\<close> combines the interfaces of cache and graph.
  \<^item> \<^verbatim>\<open>GoPaths\<close>: \<^verbatim>\<open>path/filepath\<close> on Unix, with the lemmas that relate clean paths to component
    lists. \<^verbatim>\<open>ImportResolvers\<close> (src/languageserver/resolver): file, flow.json, JavaScript and
    composite resolver; first answer wins, resolvers of disjoint locations commute.
  \<^item> \<^verbatim>\<open>Analysis\<close> (analysis.go): diagnostics, the import handler and the analysis of a document;
    cancellation, returning on acyclic imports, recorded edges, and the two defects found (cyclic
    imports, missing edges of imported files).
  \<^item> \<^verbatim>\<open>Protocol\<close>, \<^verbatim>\<open>Conversion\<close> (conversion.go), \<^verbatim>\<open>SemTokens\<close> (semantic_tokens.go): positions,
    ranges and symbols; round trips of positions and of the delta encoding of tokens.
  \<^item> \<^verbatim>\<open>Sema\<close>: the records of what the handlers read of a checked program.
  \<^item> \<^verbatim>\<open>ServerCore\<close> (server.go, and \<^verbatim>\<open>checkerForDocument\<close> of handlers.go): the server's state,
    notifications, scheduling, checks in two halves (start and end) between which other operations
    run; the invariant that at most one live check per document exists and works on the current
    text, what a finished check publishes, and the interleavings that escape the invariant.
  \<^item> \<^verbatim>\<open>TextSupport\<close>, \<^verbatim>\<open>Completions\<close> (completion_items.go), \<^verbatim>\<open>Handlers\<close> (handlers.go): text helpers
    and the split-lines refactoring; completion items, sessions and their resolution; all other
    requests.
  \<^item> \<^verbatim>\<open>ConfigManager\<close> (config_manager.go, state.go, the path helpers of resolvers.go): which flow.json
    a file belongs to, the loaded states and clients, reactions to file system events.

  \<^item> \<^verbatim>\<open>Dispatch\<close> (jsonrpc2/server.go, protocol/server.go, methods.go): the handler of the connection,
    all methods and their table, and the second server as its business logic; sessions of requests
    and timers, over which the check invariant of \<^verbatim>\<open>ServerCore\<close> holds, and what is answered.
  \<^item> \<^verbatim>\<open>FlowClient\<close> (flow.go): accounts, signers, scripts, transactions and deployments on a chain;
    the invariant of account names and the active account over reachable clients.
  \<^item> \<^verbatim>\<open>ProjectResolvers\<close> (resolvers.go, state.go): imports within a project, the cached maps of contract
    addresses and the account access check, against a direct specification of both.
  \<^item> \<^verbatim>\<open>EntryPoints\<close> (entrypoint.go, contracts.go, diagnostics.go): what a document offers to run, its
    code lenses and warnings. \<^verbatim>\<open>Commands\<close> (commands.go): the commands behind the lenses, run on the
    manager, the clients and the chain. \<^verbatim>\<open>Integration\<close> (integration.go): construction,
    initialization, project identities, the lenses of a document and the prompt.
  \<^item> \<^verbatim>\<open>LintSyntax\<close> (src/lint/diagnostic.go, analyzer.go): what the linter reads of a program, the walks of
    the inspector, diagnostics. \<^verbatim>\<open>LintComplexity\<close>, \<^verbatim>\<open>LintIfLet\<close>: the cyclomatic complexity against the
    documented count, and the if-let analyzer, a machine with a stack of scopes, against the
    positions in the tree. \<^verbatim>\<open>LintTypes\<close>: the analyzers on types; casts of literals against the type
    a literal has by itself. \<^verbatim>\<open>LintStrings\<close>: string templates, which are read back and evaluated,
    deprecated members and unused variables. \<^verbatim>\<open>LintV1\<close>: features that Cadence 1.0 removed.
    \<^verbatim>\<open>LintDriver\<close> (lint.go, cmd/lint): the sources of programs and the run of the analyzers.
  \<^item> \<^verbatim>\<open>DocText\<close>, \<^verbatim>\<open>DocGen\<close> (src/docgen/doc_generator.go, cmd, wasm): formatting of documentation strings;
    the pages of a program in memory and on disk, their names and the links between them.
  \<^item> \<^verbatim>\<open>TestText\<close>, \<^verbatim>\<open>EmulatorBackend\<close>, \<^verbatim>\<open>TestRunner\<close> (src/test): the fork pragma, collected logs, reports and the
    rewriting of imports, against a characterization of each; the backend on the emulator, with the
    operations of a script as a step relation, over which keys stay known, and orderly runs, over
    which sequence numbers count the pending transactions; the runner between scripts, imports that
    return and that do not, and the order in which set-up, hooks, tests and tear-down are called.
  \<^item> \<^verbatim>\<open>V1Server\<close> (src/languageserver/server: server.go, location.go): the first server's state, options,
    construction, configuration and initialization. \<^verbatim>\<open>V1Actions\<close>: errors and findings as diagnostics
    with their resolvers, and what the resolvers propose; where a proposal goes, that it only inserts
    or stays in its document. \<^verbatim>\<open>V1Checks\<close> (also parameter.go): the import handler, the check and its
    publication, notifications, commands and code actions. \<^verbatim>\<open>V1Imports\<close>: how imports change the
    cache, when they return. \<^verbatim>\<open>V1Requests\<close>: the request handlers, against those of the second
    server, and completion. \<^verbatim>\<open>V1Machine\<close>: the state changes as a step relation, with the invariants
    over its runs, and the registration of commands.
  \<^item> \<^verbatim>\<open>Programs\<close> (languageserver.go, cmd/languageserver/main_wasm.go, transport/wasm.go): the options of
    the Flow integration on the first server, the functions of a JavaScript host, and the channel
    that carries messages between such a host and the second server.
  \<^item> \<^verbatim>\<open>ProtocolJson\<close>: \<^verbatim>\<open>encoding/json\<close> on the types of the protocol, each given by its shape, with the
    unions of json.go and the choice of documentchanges.go; when a text is kept, and when an alternative
    of a union is never read as itself. \<^verbatim>\<open>ProtocolTypes\<close>: the 60 unions and the types they reach.
    \<^verbatim>\<open>ProtocolMessages\<close>: parameters, results and notifications with the types they reach; all but the
    result of initialize are kept. \<^verbatim>\<open>ProtocolUnions\<close>: which unions are exact and which are misread.

  \<^bold>\<open>Correspondence.\<close> A definition carries the name of the Go function in snake case, a record the
  name of the struct. A loop of a function is a definition of its own, named after the function or
  its purpose. A mutex makes an operation one step; where the code releases the lock in between and
  the order matters, there are several steps (timers, checks). Errors are the left side of a sum,
  a nil pointer is \<open>None\<close>, a nil slice the empty list. Maps that are ranged over are association
  lists, and properties hold for every order of the list.

  \<^bold>\<open>Bounds and fuel.\<close> Protocol positions and token fields are 32 bit words and wrap as in Go; tokens of
  checks are 64 bit words, so runs are considered up to \<open>2 ^ 64\<close> started checks. Go's \<^verbatim>\<open>int\<close> is \<open>int\<close>
  elsewhere. The import handler recurses as deep as the imports are nested, which may be without end,
  so it has fuel and \<open>None\<close> is a call that has not returned within it; \<open>analyze_returns\<close> gives an
  amount that is enough for acyclic imports, \<open>import_fuel_irrelevant\<close> says that more changes
  nothing, and \<open>import_cycle_never_returns\<close> that no amount is enough for a cycle. The imports of a test
  script are the same, with \<open>imports_return\<close> and \<open>import_circle_never_returns\<close>; there a value of its
  own stands for a call that has not returned. The first server's handler is the same again, with
  \<open>v1_imports_return\<close> and \<open>v1_import_cycle_never_returns\<close>. In the handlers \<open>None\<close> is also a run-time
  panic. Identifiers of code action resolvers (random in the code) are counted up, so that they are
  never equal. Symbols and selection ranges contain their like; their shapes have a depth, and what is
  shown holds for every depth.

  \<^bold>\<open>Parameters.\<close> The Cadence parser and checker are a library: parsing is a function, a run of the
  checker is an arbitrary interactive computation that may ask for imports, and a checked program is
  a record of the observations the handlers make of it. The file system, the JSON text decoder,
  flowkit, the chain and the JavaScript host are functions as well.

  \<^bold>\<open>Not modelled.\<close> The generated types of the protocol that neither a message of these servers nor a
  union reaches; in the JSON of the others repeated keys, floating-point numbers and the texts of errors.
  The tables of standard library values list values of the Cadence library, and
  their handlers are stubs that are never called. Crash reporting, the timing of log messages, flags,
  the standard streams and the JSON-RPC library's streams are input and output. Embedded texts,
  templates and the JavaScript packages hold no logic of these programs.
\<close>

end
